(* ===== verification/Guard_Prelude.thy ===== *)
theory Guard_Prelude
  imports Complex_Main
begin

text \<open>
  Shared vocabulary of the development: the types that stand for Python and SQLite
  values, the list-of-rows reading of the SQL statements the repositories issue, and the
  lemmas about keyed tables that the component theories rely on.

  A table is the list of its rows in insertion order.  \<open>UPDATE t SET f WHERE P\<close> is
  \<open>sql_update P f\<close>, its \<open>cursor.rowcount\<close> is \<open>rowcount P\<close>, a \<open>SELECT\<close> is
  \<open>filter P\<close> and a \<open>fetchone\<close> is \<open>find P\<close>.  SQL's three-valued comparison
  with a nullable column is written out: \<open>sql_eq\<close>, \<open>sql_le\<close> and \<open>sql_gt\<close>
  are false as soon as one side is \<open>NULL\<close> (\<open>None\<close>), which is what a \<open>WHERE\<close>
  clause makes of \<open>NULL\<close>.

  A write transaction (\<open>_SQLiteRepository._write\<close>: \<open>BEGIN IMMEDIATE\<close>, body,
  \<open>commit\<close>, or \<open>rollback\<close> and re-raise) is a function
  \<open>'db \<Rightarrow> 'e + 'a \<times> 'db\<close>: \<open>Inl e\<close> is a raised exception, after which the stored
  database is the one before the call; \<open>Inr (v, d)\<close> is a committed database \<open>d\<close>.
\<close>

named_theorems discovery_frames \<open>statements that leave the discovery tables alone\<close>
named_theorems job_frames \<open>statements that leave the enrollment table alone\<close>
named_theorems component_frames \<open>components that leave the discovery tables alone\<close>

type_synonym instant = int
type_synonym ('e, 'a) result = "'e + 'a"
type_synonym ('e, 'a, 'db) txn = "'db \<Rightarrow> 'e + 'a \<times> 'db"

section \<open>SQL statements over lists of rows\<close>

definition sql_update :: "('r \<Rightarrow> bool) \<Rightarrow> ('r \<Rightarrow> 'r) \<Rightarrow> 'r list \<Rightarrow> 'r list" where
  "sql_update P f rows = map (\<lambda>r. if P r then f r else r) rows"

definition sql_delete :: "('r \<Rightarrow> bool) \<Rightarrow> 'r list \<Rightarrow> 'r list" where
  "sql_delete P rows = filter (\<lambda>r. \<not> P r) rows"

definition rowcount :: "('r \<Rightarrow> bool) \<Rightarrow> 'r list \<Rightarrow> nat" where
  "rowcount P rows = length (filter P rows)"

fun sql_eq :: "'a option \<Rightarrow> 'a option \<Rightarrow> bool" where
  "sql_eq (Some a) (Some b) = (a = b)"
| "sql_eq _ _ = False"

fun sql_le :: "instant option \<Rightarrow> instant \<Rightarrow> bool" where
  "sql_le (Some a) t = (a \<le> t)"
| "sql_le None t = False"

fun sql_gt :: "instant option \<Rightarrow> instant \<Rightarrow> bool" where
  "sql_gt (Some a) t = (t < a)"
| "sql_gt None t = False"

lemma sql_eq_Some [simp]: "sql_eq x (Some b) \<longleftrightarrow> x = Some b"
  by (cases x) auto

lemma sql_eq_iff: "sql_eq x y \<longleftrightarrow> x \<noteq> None \<and> x = y"
  by (cases x; cases y) auto

lemma sql_eq_None [simp]: "\<not> sql_eq x None"
  by (cases x) auto

lemma sql_update_Nil [simp]: "sql_update P f [] = []"
  by (simp add: sql_update_def)

lemma sql_update_Cons [simp]:
  "sql_update P f (r # rs) = (if P r then f r else r) # sql_update P f rs"
  by (simp add: sql_update_def)

lemma set_sql_update: "set (sql_update P f rs) = (\<lambda>r. if P r then f r else r) ` set rs"
  by (simp add: sql_update_def)

lemma length_sql_update [simp]: "length (sql_update P f rs) = length rs"
  by (simp add: sql_update_def)

lemma sql_update_none:
  assumes "\<And>r. r \<in> set rs \<Longrightarrow> \<not> P r"
  shows "sql_update P f rs = rs"
  using assms by (induction rs) auto

lemma map_sql_update:
  assumes "\<And>r. r \<in> set rs \<Longrightarrow> P r \<Longrightarrow> g (f r) = g r"
  shows "map g (sql_update P f rs) = map g rs"
  using assms by (induction rs) auto

lemma rowcount_0 [simp]: "rowcount P rs = 0 \<longleftrightarrow> (\<forall>r\<in>set rs. \<not> P r)"
  by (simp add: rowcount_def filter_empty_conv)

lemma rowcount_Nil [simp]: "rowcount P [] = 0"
  by (simp add: rowcount_def)

lemma rowcount_Cons [simp]: "rowcount P (r # rs) = (if P r then Suc (rowcount P rs) else rowcount P rs)"
  by (simp add: rowcount_def)

lemma rowcount_pos: "rowcount P rs = Suc n \<Longrightarrow> \<exists>r\<in>set rs. P r"
  by (metis rowcount_0 nat.simps(3))

lemma rowcount_append [simp]: "rowcount P (xs @ ys) = rowcount P xs + rowcount P ys"
  by (simp add: rowcount_def)

lemma rowcount_cong: "(\<And>r. r \<in> set rs \<Longrightarrow> P r = Q r) \<Longrightarrow> rowcount P rs = rowcount Q rs"
  unfolding rowcount_def by (metis filter_cong)

lemma rowcount_mono:
  assumes "\<And>r. r \<in> set rs \<Longrightarrow> P r \<Longrightarrow> Q r"
  shows "rowcount P rs \<le> rowcount Q rs"
  using assms by (induction rs) auto

lemma rowcount_sql_update:
  assumes "\<And>r. r \<in> set rs \<Longrightarrow> P r \<Longrightarrow> Q (f r) \<Longrightarrow> Q r"
  shows "rowcount Q (sql_update P f rs) \<le> rowcount Q rs"
  using assms by (induction rs) auto

lemma rowcount_list_all2:
  assumes "list_all2 R rs rs'" and "\<And>r r'. R r r' \<Longrightarrow> Q r' \<Longrightarrow> Q r"
  shows "rowcount Q rs' \<le> rowcount Q rs"
  using assms(1) by (induction rule: list_all2_induct) (auto dest: assms(2))

section \<open>Tables with a primary key\<close>

text \<open>
  \<open>keyed_table key\<close> is the contract of a table whose \<open>PRIMARY KEY\<close> column is
  \<open>key\<close>: the predicate \<open>uniq\<close> says the key column has no duplicates, which is what
  SQLite enforces.  The lemmas are what every repository uses of it: a statement that
  names the key touches one row at most, a key is looked up by \<open>find\<close>, and an update
  that keeps the key column keeps the table keyed.
\<close>

locale keyed_table =
  fixes key :: "'r \<Rightarrow> 'k"
    and uniq :: "'r list \<Rightarrow> bool"
  assumes uniq_iff: "uniq rows \<longleftrightarrow> distinct (map key rows)"
begin

lemma uniq_same:
  assumes "uniq rs" and "r \<in> set rs" and "r' \<in> set rs" and "key r = key r'"
  shows "r = r'"
proof -
  have "inj_on key (set rs)" using assms(1) by (simp add: uniq_iff distinct_map)
  then show ?thesis using assms(2-4) by (auto dest: inj_onD)
qed

lemma uniq_update:
  assumes "uniq rs" and "\<And>r. r \<in> set rs \<Longrightarrow> P r \<Longrightarrow> key (f r) = key r"
  shows "uniq (sql_update P f rs)"
  using assms by (simp add: uniq_iff map_sql_update)

lemma uniq_delete: "uniq rs \<Longrightarrow> uniq (sql_delete P rs)"
  by (simp add: uniq_iff sql_delete_def distinct_map_filter)

lemma uniq_append: "uniq rs \<Longrightarrow> key r \<notin> key ` set rs \<Longrightarrow> uniq (rs @ [r])"
  by (auto simp: uniq_iff)

lemma find_key:
  assumes "uniq rs" and "r \<in> set rs" and "Q r"
  shows "find (\<lambda>x. key x = key r \<and> Q x) rs = Some r"
  using assms unfolding uniq_iff by (induction rs) auto

lemma find_key_only:
  assumes "uniq rs" and "r \<in> set rs"
  shows "find (\<lambda>x. key x = key r) rs = Some r"
  using find_key [OF assms, of "\<lambda>_. True"] by simp

lemma find_keyD:
  assumes "find (\<lambda>x. key x = k) rs = Some r"
  shows "r \<in> set rs \<and> key r = k"
  using assms by (auto simp: find_Some_iff)

lemma find_key_iff:
  assumes "uniq rs"
  shows "find (\<lambda>x. key x = k) rs = Some r \<longleftrightarrow> r \<in> set rs \<and> key r = k"
  using assms find_keyD find_key_only by metis

lemma rowcount_key:
  assumes "uniq rs"
  shows "rowcount (\<lambda>x. key x = k \<and> Q x) rs \<le> 1"
  using assms unfolding uniq_iff
proof (induction rs)
  case (Cons a rs)
  then show ?case
  proof (cases "key a = k")
    case True
    then have "rowcount (\<lambda>x. key x = k \<and> Q x) rs = 0"
      using Cons.prems by (force simp: image_iff)
    then show ?thesis by (simp del: rowcount_0)
  next
    case False
    then show ?thesis using Cons by simp
  qed
qed simp

lemma rowcount_key_1:
  assumes "uniq rs"
  shows "rowcount (\<lambda>x. key x = k \<and> Q x) rs = Suc 0 \<longleftrightarrow> (\<exists>r\<in>set rs. key r = k \<and> Q r)"
proof
  assume "rowcount (\<lambda>x. key x = k \<and> Q x) rs = Suc 0"
  then show "\<exists>r\<in>set rs. key r = k \<and> Q r" by (rule rowcount_pos)
next
  assume "\<exists>r\<in>set rs. key r = k \<and> Q r"
  then have "rowcount (\<lambda>x. key x = k \<and> Q x) rs \<noteq> 0" by auto
  with rowcount_key [OF assms, of k Q] show "rowcount (\<lambda>x. key x = k \<and> Q x) rs = Suc 0"
    by linarith
qed

lemma find_sql_update:
  assumes "uniq rs" and "\<And>r. r \<in> set rs \<Longrightarrow> P r \<Longrightarrow> key (f r) = key r"
  shows "find (\<lambda>x. key x = k) (sql_update P f rs)
    = map_option (\<lambda>r. if P r then f r else r) (find (\<lambda>x. key x = k) rs)"
  using assms by (induction rs) (auto simp: uniq_iff)

lemma find_append_key:
  "find (\<lambda>x. key x = k) (rs @ [r])
    = (case find (\<lambda>x. key x = k) rs of None \<Rightarrow> (if key r = k then Some r else None) | Some y \<Rightarrow> Some y)"
  by (induction rs) auto

end

section \<open>Histories of transactions\<close>

text \<open>
  \<open>txn_system\<close> is the contract between a repository and everything that calls it: the
  operations \<open>run op\<close> on a database, an invariant they keep, and the fact that a failing
  operation changes nothing is built into the type.  \<open>history\<close> runs a list of calls in
  the order their \<open>BEGIN IMMEDIATE\<close> transactions are serialised; a call that raises
  leaves the database as it was.
\<close>

definition after :: "'db \<Rightarrow> 'e + 'a \<times> 'db \<Rightarrow> 'db" where
  "after d r = (case r of Inl _ \<Rightarrow> d | Inr (_, d') \<Rightarrow> d')"

lemma after_Inl [simp]: "after d (Inl e) = d"
  by (simp add: after_def)

lemma after_Inr [simp]: "after d (Inr (v, d')) = d'"
  by (simp add: after_def)

fun history :: "('op \<Rightarrow> 'db \<Rightarrow> 'e + 'a \<times> 'db) \<Rightarrow> 'op list \<Rightarrow> 'db \<Rightarrow> 'db" where
  "history run [] d = d"
| "history run (x # xs) d = history run xs (after d (run x d))"

locale txn_system =
  fixes run :: "'op \<Rightarrow> 'db \<Rightarrow> 'e + 'a \<times> 'db"
    and inv :: "'db \<Rightarrow> bool"
  assumes run_inv: "inv d \<Longrightarrow> run x d = Inr (v, d') \<Longrightarrow> inv d'"
begin

lemma after_inv: "inv d \<Longrightarrow> inv (after d (run x d))"
  by (auto simp: after_def run_inv split: sum.splits prod.splits)

lemma history_inv: "inv d \<Longrightarrow> inv (history run xs d)"
  by (induction xs arbitrary: d) (auto intro: after_inv)

lemma history_rel:
  assumes "inv d"
    and refl: "\<And>d. R d d"
    and trans: "\<And>a b c. R a b \<Longrightarrow> R b c \<Longrightarrow> R a c"
    and step: "\<And>d x v d'. x \<in> set xs \<Longrightarrow> inv d \<Longrightarrow> run x d = Inr (v, d') \<Longrightarrow> R d d'"
  shows "R d (history run xs d)"
  using assms(1) step
proof (induction xs arbitrary: d)
  case Nil
  then show ?case by (simp add: refl)
next
  case (Cons x xs)
  have "R d (after d (run x d))"
    using Cons.prems(2) [of x d] Cons.prems(1) refl
    by (auto simp: after_def split: sum.splits prod.splits)
  moreover have "R (after d (run x d)) (history run xs (after d (run x d)))"
    using Cons.prems(2) after_inv [OF Cons.prems(1)] by (intro Cons.IH) auto
  ultimately show ?case using trans by auto
qed

end

end
