(* ===== verification/Py_Text.thy ===== *)
theory Py_Text
  imports Guard_Prelude
begin

text \<open>
  The string validators of the Manager and the parts of Python's standard library they
  call.  Strings are lists of characters; the patterns, the UUID test and the address
  parser accept ASCII only, as their Python counterparts do.

  \<^item> the compiled patterns \<open>_ENROLLMENT_ID\<close>, \<open>_CREDENTIAL_REF\<close> (with
    \<open>_REF\<close>) and \<open>_ERROR_CODE\<close>, all used with \<open>fullmatch\<close>;
  \<^item> \<open>uuid_canonical s\<close>: \<open>UUID(s)\<close> succeeds and \<open>str(UUID(s)) == s\<close>;
  \<^item> \<open>ip_compressed s\<close>: \<open>ip_address(s).compressed\<close>, which is also
    \<open>str(ip_address(s))\<close>, or \<open>None\<close> for \<open>ValueError\<close> (IPv4-mapped addresses print
    their last 32 bits as two hexadecimal groups, as CPython 3.11 and 3.12 do);
  \<^item> the character and length tests of the SQLite \<open>CHECK\<close> constraints
    (\<open>length\<close>, \<open>lower\<close>, \<open>NOT GLOB\<close>, \<open>instr\<close>).

  The lemmas relate the Python validators to the \<open>CHECK\<close> tests: a value that passes the
  first passes the second.
\<close>

section \<open>Character classes\<close>

definition is_digit :: "char \<Rightarrow> bool" where
  "is_digit c \<longleftrightarrow> 48 \<le> (of_char c :: nat) \<and> (of_char c :: nat) \<le> 57"

definition is_lower :: "char \<Rightarrow> bool" where
  "is_lower c \<longleftrightarrow> 97 \<le> (of_char c :: nat) \<and> (of_char c :: nat) \<le> 122"

definition is_upper :: "char \<Rightarrow> bool" where
  "is_upper c \<longleftrightarrow> 65 \<le> (of_char c :: nat) \<and> (of_char c :: nat) \<le> 90"

definition is_lower_hex :: "char \<Rightarrow> bool" where
  "is_lower_hex c \<longleftrightarrow> is_digit c \<or> (97 \<le> (of_char c :: nat) \<and> (of_char c :: nat) \<le> 102)"

definition is_hex :: "char \<Rightarrow> bool" where
  "is_hex c \<longleftrightarrow> is_lower_hex c \<or> (65 \<le> (of_char c :: nat) \<and> (of_char c :: nat) \<le> 70)"

text \<open>The characters that \<open>str.strip()\<close> removes, for one-byte characters.\<close>

definition is_space :: "char \<Rightarrow> bool" where
  "is_space c \<longleftrightarrow> (let n = (of_char c :: nat) in
     (9 \<le> n \<and> n \<le> 13) \<or> (28 \<le> n \<and> n \<le> 32) \<or> n = 133 \<or> n = 160)"

text \<open>\<open>not value or not value.strip()\<close>\<close>

definition is_blank :: "string \<Rightarrow> bool" where
  "is_blank s \<longleftrightarrow> list_all is_space s"

definition to_lower :: "char \<Rightarrow> char" where
  "to_lower c = (if is_upper c then char_of ((of_char c :: nat) + 32) else c)"

section \<open>Patterns\<close>

definition enrollment_id_re :: "string \<Rightarrow> bool" where
  "enrollment_id_re s \<longleftrightarrow> 1 \<le> length s \<and> length s \<le> 128 \<and>
     list_all (\<lambda>c. is_upper c \<or> is_lower c \<or> is_digit c \<or> c \<in> set ''._:-'') s"

definition credential_ref_re :: "string \<Rightarrow> bool" where
  "credential_ref_re s \<longleftrightarrow> length s = 48 \<and> list_all is_lower_hex s"

definition error_code_re :: "string \<Rightarrow> bool" where
  "error_code_re s \<longleftrightarrow> (case s of [] \<Rightarrow> False
     | c # cs \<Rightarrow> is_lower c \<and> length cs \<le> 63 \<and>
         list_all (\<lambda>c. is_lower c \<or> is_digit c \<or> c = CHR ''_'') cs)"

definition hex64_re :: "string \<Rightarrow> bool" where
  "hex64_re s \<longleftrightarrow> length s = 64 \<and> list_all is_lower_hex s"

definition uuid_canonical :: "string \<Rightarrow> bool" where
  "uuid_canonical s \<longleftrightarrow> length s = 36 \<and>
     list_all (\<lambda>(i, c). if i \<in> {8, 13, 18, 23} then c = CHR ''-'' else is_lower_hex c)
       (List.enumerate 0 s)"

section \<open>SQLite CHECK tests\<close>

text \<open>
  \<open>length(x) = 36 AND x = lower(x) AND x NOT GLOB '*[^0-9a-f-]*'\<close>, the 64-digit variant
  and the address variant.
\<close>

definition check_uuid_text :: "string \<Rightarrow> bool" where
  "check_uuid_text s \<longleftrightarrow> length s = 36 \<and> map to_lower s = s \<and>
     list_all (\<lambda>c. is_lower_hex c \<or> c = CHR ''-'') s"

definition check_hex64 :: "string \<Rightarrow> bool" where
  "check_hex64 s \<longleftrightarrow> length s = 64 \<and> map to_lower s = s \<and> list_all is_lower_hex s"

definition check_address :: "string \<Rightarrow> bool" where
  "check_address s \<longleftrightarrow> 2 \<le> length s \<and> length s \<le> 45 \<and> map to_lower s = s \<and>
     list_all (\<lambda>c. is_lower_hex c \<or> c = CHR '':'' \<or> c = CHR ''.'') s \<and>
     CHR 0x25 \<notin> set s"

lemma lower_hex_lower: "is_lower_hex c \<Longrightarrow> to_lower c = c"
  by (auto simp: is_lower_hex_def to_lower_def is_upper_def is_digit_def)

lemma address_char_lower:
  "is_lower_hex c \<or> c = CHR '':'' \<or> c = CHR ''.'' \<Longrightarrow> to_lower c = c"
  by (elim disjE) (simp add: lower_hex_lower, simp_all add: to_lower_def is_upper_def)

lemma map_lower_id: "(\<And>c. c \<in> set s \<Longrightarrow> to_lower c = c) \<Longrightarrow> map to_lower s = s"
  by (induction s) auto

lemma uuid_canonical_chars:
  assumes "uuid_canonical s" and "c \<in> set s"
  shows "is_lower_hex c \<or> c = CHR ''-''"
proof -
  obtain i where "i < length s" and "s ! i = c"
    using assms(2) by (auto simp: in_set_conv_nth)
  then have "(i, c) \<in> set (List.enumerate 0 s)"
    by (auto simp: in_set_enumerate_eq)
  then show ?thesis
    using assms(1) by (auto simp: uuid_canonical_def list_all_iff split: if_splits)
qed

lemma uuid_char_lower: "is_lower_hex c \<or> c = CHR ''-'' \<Longrightarrow> to_lower c = c"
  by (elim disjE) (simp add: lower_hex_lower, simp_all add: to_lower_def is_upper_def)

lemma uuid_canonical_check:
  assumes "uuid_canonical s"
  shows "check_uuid_text s"
proof -
  have "length s = 36" using assms by (simp add: uuid_canonical_def)
  moreover have "map to_lower s = s"
    using uuid_canonical_chars [OF assms] uuid_char_lower by (intro map_lower_id) blast
  moreover have "list_all (\<lambda>c. is_lower_hex c \<or> c = CHR ''-'') s"
    using uuid_canonical_chars [OF assms] by (simp add: list_all_iff)
  ultimately show ?thesis by (simp add: check_uuid_text_def)
qed

lemma hex64_check: "hex64_re s \<Longrightarrow> check_hex64 s"
  by (auto simp: hex64_re_def check_hex64_def list_all_iff intro!: map_lower_id lower_hex_lower)

section \<open>Internet addresses\<close>

text \<open>\<open>str.split(sep)\<close> and \<open>sep.join\<close> for a one-character separator.\<close>

fun split_on :: "char \<Rightarrow> string \<Rightarrow> string list" where
  "split_on sep [] = [[]]"
| "split_on sep (c # cs) =
     (if c = sep then [] # split_on sep cs
      else case split_on sep cs of [] \<Rightarrow> [[c]] | w # ws \<Rightarrow> (c # w) # ws)"

fun join_with :: "string \<Rightarrow> string list \<Rightarrow> string" where
  "join_with sep [] = []"
| "join_with sep [w] = w"
| "join_with sep (w # ws) = w @ sep @ join_with sep ws"

definition digit_char :: "nat \<Rightarrow> char" where
  "digit_char n = char_of (if n < 10 then 48 + n else 87 + n)"

definition digit_val :: "char \<Rightarrow> nat" where
  "digit_val c = (let n = (of_char c :: nat) in
     if n \<le> 57 then n - 48 else if n \<le> 90 then n - 55 else n - 87)"

fun show_base :: "nat \<Rightarrow> nat \<Rightarrow> string" where
  "show_base b n = (if b < 2 \<or> n < b then [digit_char n]
     else show_base b (n div b) @ [digit_char (n mod b)])"

declare show_base.simps [simp del]

definition read_base :: "nat \<Rightarrow> string \<Rightarrow> nat" where
  "read_base b s = foldl (\<lambda>v c. v * b + digit_val c) 0 s"

text \<open>\<open>IPv4Address._parse_octet\<close> and \<open>IPv4Address._ip_int_from_string\<close>.\<close>

definition parse_octet :: "string \<Rightarrow> nat option" where
  "parse_octet s = (if s = [] \<or> \<not> list_all is_digit s \<or> 3 < length s
       \<or> (s \<noteq> ''0'' \<and> hd s = CHR ''0'') \<or> 255 < read_base 10 s
     then None else Some (read_base 10 s))"

fun all_some :: "'a option list \<Rightarrow> 'a list option" where
  "all_some [] = Some []"
| "all_some (None # _) = None"
| "all_some (Some x # xs) = map_option (Cons x) (all_some xs)"

definition parse_ipv4 :: "string \<Rightarrow> nat list option" where
  "parse_ipv4 s = (let parts = split_on CHR ''.'' s in
     if length parts = 4 then all_some (map parse_octet parts) else None)"

definition str_ipv4 :: "nat list \<Rightarrow> string" where
  "str_ipv4 octets = join_with ''.'' (map (show_base 10) octets)"

text \<open>\<open>IPv6Address._parse_hextet\<close> and \<open>IPv6Address._ip_int_from_string\<close>.\<close>

definition parse_hextet :: "string \<Rightarrow> nat option" where
  "parse_hextet s = (if s = [] \<or> \<not> list_all is_hex s \<or> 4 < length s
     then None else Some (read_base 16 s))"

definition ipv6_tail :: "string list \<Rightarrow> string list option" where
  "ipv6_tail parts = (if CHR ''.'' \<in> set (last parts)
     then (case parse_ipv4 (last parts) of None \<Rightarrow> None
       | Some os \<Rightarrow> Some (butlast parts @
           [show_base 16 (os ! 0 * 256 + os ! 1), show_base 16 (os ! 2 * 256 + os ! 3)]))
     else Some parts)"

definition ipv6_expand :: "string list \<Rightarrow> nat \<Rightarrow> nat \<Rightarrow> nat list option" where
  "ipv6_expand parts hi lo =
     (case all_some (map parse_hextet (take hi parts)) of None \<Rightarrow> None
      | Some a \<Rightarrow> (case all_some (map parse_hextet (drop (length parts - lo) parts)) of None \<Rightarrow> None
          | Some b \<Rightarrow> Some (a @ replicate (8 - (hi + lo)) 0 @ b)))"

definition ipv6_groups :: "string list \<Rightarrow> nat list option" where
  "ipv6_groups parts =
     (let n = length parts; inner = filter (\<lambda>i. parts ! i = []) [1..<n - 1] in
      if 9 < n \<or> 1 < length inner then None
      else case inner of
        [] \<Rightarrow> if n = 8 then all_some (map parse_hextet parts) else None
      | k # _ \<Rightarrow>
          let hi = (if hd parts = [] then k - 1 else k);
              lo = (if last parts = [] then n - k - 2 else n - k - 1) in
          if (hd parts = [] \<and> hi \<noteq> 0) \<or> (last parts = [] \<and> lo \<noteq> 0) \<or> 8 \<le> hi + lo
          then None
          else ipv6_expand parts hi lo)"

definition parse_ipv6 :: "string \<Rightarrow> (nat list \<times> string option) option" where
  "parse_ipv6 s =
     (let addr = takeWhile (\<lambda>c. c \<noteq> CHR 0x25) s; rest = dropWhile (\<lambda>c. c \<noteq> CHR 0x25) s;
          parts = split_on CHR '':'' addr in
      if CHR ''/'' \<in> set s \<or> rest = [CHR 0x25] \<or> CHR 0x25 \<in> set (tl rest)
         \<or> addr = [] \<or> length parts < 3 then None
      else case ipv6_tail parts of None \<Rightarrow> None
        | Some ps \<Rightarrow> map_option (\<lambda>g. (g, if rest = [] then None else Some (tl rest)))
            (ipv6_groups ps))"

text \<open>\<open>IPv6Address._compress_hextets\<close>: the loop state is the best run and the current run.\<close>

fun zero_run :: "string list \<Rightarrow> nat \<Rightarrow> nat \<times> nat \<Rightarrow> nat \<times> nat \<Rightarrow> nat \<times> nat" where
  "zero_run [] i best cur = best"
| "zero_run (h # hs) i (bs, bl) (cs, cl) =
     (if h = ''0'' then
        (let cs' = (if cl = 0 then i else cs); cl' = Suc cl in
         zero_run hs (Suc i) (if bl < cl' then (cs', cl') else (bs, bl)) (cs', cl'))
      else zero_run hs (Suc i) (bs, bl) (0, 0))"

definition compress_hextets :: "string list \<Rightarrow> string list" where
  "compress_hextets hs = (let (bs, bl) = zero_run hs 0 (0, 0) (0, 0) in
     if 1 < bl then
       (if bs = 0 then [[]] else []) @ take bs hs @ [[]] @ drop (bs + bl) hs
         @ (if bs + bl = length hs then [[]] else [])
     else hs)"

definition str_ipv6 :: "nat list \<times> string option \<Rightarrow> string" where
  "str_ipv6 a = join_with '':'' (compress_hextets (map (show_base 16) (fst a)))
     @ (case snd a of None \<Rightarrow> [] | Some z \<Rightarrow> CHR 0x25 # z)"

definition ip_compressed :: "string \<Rightarrow> string option" where
  "ip_compressed s = (case parse_ipv4 s of Some os \<Rightarrow> Some (str_ipv4 os)
     | None \<Rightarrow> map_option str_ipv6 (parse_ipv6 s))"

definition canonical_ip :: "string \<Rightarrow> bool" where
  "canonical_ip s \<longleftrightarrow> ip_compressed s = Some s"

section \<open>Printed addresses pass the CHECK test\<close>

lemma all_some_length: "all_some xs = Some ys \<Longrightarrow> length ys = length xs"
  by (induction xs arbitrary: ys rule: all_some.induct) auto

lemma all_some_all:
  assumes "all_some (map f xs) = Some ys" and "\<And>x y. f x = Some y \<Longrightarrow> Q y"
  shows "\<forall>y\<in>set ys. Q y"
  using assms(1)
proof (induction xs arbitrary: ys)
  case (Cons x xs)
  then show ?case using assms(2) by (cases "f x") auto
qed simp

lemma digit_char_hex: "n < 16 \<Longrightarrow> is_lower_hex (digit_char n)"
  by (auto simp: digit_char_def is_lower_hex_def is_digit_def)

lemma show_base_chars:
  assumes "2 \<le> b" and "b \<le> 16"
  shows "list_all is_lower_hex (show_base b n)"
  using assms
proof (induction b n rule: show_base.induct)
  case (1 b n)
  show ?case
  proof (cases "n < b")
    case True
    then show ?thesis using 1 by (simp add: show_base.simps [of b n] digit_char_hex)
  next
    case False
    moreover have "n mod b < 16" using 1 by (metis mod_less_divisor less_le_trans zero_less_numeral)
    ultimately show ?thesis using 1 by (simp add: show_base.simps [of b n] digit_char_hex)
  qed
qed

lemma show_base_length:
  assumes "2 \<le> b" and "n < b ^ Suc k"
  shows "1 \<le> length (show_base b n) \<and> length (show_base b n) \<le> Suc k"
  using assms(2)
proof (induction k arbitrary: n)
  case 0
  then show ?case using assms(1) by (simp add: show_base.simps [of b n])
next
  case (Suc k)
  then have "n div b < b ^ Suc k" using assms(1) by (simp add: less_mult_imp_div_less mult.commute)
  with Suc.IH show ?case using assms(1) by (auto simp: show_base.simps [of b n])
qed

lemma length_join_with:
  assumes "ws \<noteq> []"
  shows "length (join_with [c] ws) + 1 = sum_list (map length ws) + length ws"
  using assms by (induction "[c]" ws rule: join_with.induct) auto

lemma set_join_with: "set (join_with sep ws) \<subseteq> set sep \<union> \<Union> (set (map set ws))"
  by (induction sep ws rule: join_with.induct) auto

lemma sum_list_length_le:
  assumes "\<And>w. w \<in> set ws \<Longrightarrow> length w \<le> m"
  shows "sum_list (map length ws) \<le> m * length ws"
  using assms by (induction ws) (auto, metis add_le_mono)

lemma zero_run_bound:
  assumes "zero_run hs i (bs, bl) (cs, cl) = (s, l)"
    and "bs + bl \<le> i" and "0 < cl \<Longrightarrow> cs + cl = i"
  shows "s + l \<le> i + length hs"
  using assms
proof (induction hs arbitrary: i bs bl cs cl)
  case (Cons h hs)
  show ?case
  proof (cases "h = ''0''")
    case True
    let ?cs = "if cl = 0 then i else cs"
    let ?best = "if bl < Suc cl then (?cs, Suc cl) else (bs, bl)"
    have "zero_run hs (Suc i) (fst ?best, snd ?best) (?cs, Suc cl) = (s, l)"
      using Cons.prems(1) True by (simp add: Let_def del: surjective_pairing split: if_splits)
    moreover have "fst ?best + snd ?best \<le> Suc i" and "?cs + Suc cl = Suc i"
      using Cons.prems(2,3) by auto
    ultimately have "s + l \<le> Suc i + length hs" by (rule Cons.IH)
    then show ?thesis by simp
  next
    case False
    then have "zero_run hs (Suc i) (bs, bl) (0, 0) = (s, l)" using Cons.prems(1) by simp
    then have "s + l \<le> Suc i + length hs" using Cons.prems(2) by (intro Cons.IH) auto
    then show ?thesis by simp
  qed
qed simp

lemma compress_hextets_props:
  assumes "length hs = 8"
  shows "3 \<le> length (compress_hextets hs)" and "length (compress_hextets hs) \<le> 8"
    and "set (compress_hextets hs) \<subseteq> insert [] (set hs)"
proof -
  obtain s l where z: "zero_run hs 0 (0, 0) (0, 0) = (s, l)" by fastforce
  then have "s + l \<le> 8" using zero_run_bound [OF z] assms by simp
  then show "3 \<le> length (compress_hextets hs)" and "length (compress_hextets hs) \<le> 8"
    using assms z by (auto simp: compress_hextets_def)
  show "set (compress_hextets hs) \<subseteq> insert [] (set hs)"
    using z by (auto simp: compress_hextets_def dest: in_set_takeD in_set_dropD)
qed

lemma str_ipv6_check:
  assumes "length g = 8" and "\<forall>n\<in>set g. n < 65536"
  shows "check_address (str_ipv6 (g, None))"
proof -
  define ws where "ws = compress_hextets (map (show_base 16) g)"
  have len: "3 \<le> length ws" "length ws \<le> 8"
    and sub: "set ws \<subseteq> insert [] (set (map (show_base 16) g))"
    using compress_hextets_props [of "map (show_base 16) g"] assms(1) by (auto simp: ws_def)
  have w: "length w \<le> 4 \<and> list_all is_lower_hex w" if wm: "w \<in> set ws" for w
  proof (cases "w = []")
    case False
    then obtain n where n: "n \<in> set g" "w = show_base 16 n" using wm sub by auto
    then have "n < 16 ^ Suc 3" using assms(2) by simp
    then show ?thesis using n show_base_length [of 16 n 3] show_base_chars [of 16 n] by simp
  qed simp
  have l: "length (join_with '':'' ws) + 1 = sum_list (map length ws) + length ws"
    using len by (intro length_join_with) auto
  moreover have "sum_list (map length ws) \<le> 4 * length ws"
    using w by (intro sum_list_length_le) blast
  ultimately have "2 \<le> length (join_with '':'' ws)" and "length (join_with '':'' ws) \<le> 45"
    using len by auto
  moreover have c: "is_lower_hex c \<or> c = CHR '':''" if "c \<in> set (join_with '':'' ws)" for c
    using that set_join_with [of "'':''" ws] w by (fastforce simp: list_all_iff)
  moreover have "map to_lower (join_with '':'' ws) = join_with '':'' ws"
    using c address_char_lower by (intro map_lower_id) blast
  moreover have "CHR 0x25 \<notin> set (join_with '':'' ws)"
    using c [of "CHR 0x25"] by (auto simp: is_lower_hex_def is_digit_def)
  ultimately show ?thesis
    by (auto simp: check_address_def str_ipv6_def ws_def [symmetric] list_all_iff)
qed

lemma read_base_append: "read_base b (s @ [c]) = read_base b s * b + digit_val c"
  by (simp add: read_base_def)

lemma hex_digit_val: "is_hex c \<Longrightarrow> digit_val c < 16"
  by (auto simp: is_hex_def is_lower_hex_def is_digit_def digit_val_def Let_def)

lemma read_base_bound:
  assumes "list_all (\<lambda>c. digit_val c < b) s" and "0 < b"
  shows "read_base b s < b ^ length s"
  using assms(1)
proof (induction s rule: rev_induct)
  case (snoc c s)
  then have "read_base b s \<le> b ^ length s - 1" and "digit_val c < b"
    by auto
  then have "read_base b s * b + digit_val c < (b ^ length s - 1) * b + b"
    by (meson add_le_less_mono mult_le_mono1)
  also have "\<dots> = b ^ length (s @ [c])"
    using assms(2) by (simp add: algebra_simps diff_mult_distrib)
  finally show ?case by (simp add: read_base_append)
qed (simp add: read_base_def)

lemma parse_hextet_bound:
  assumes "parse_hextet s = Some n"
  shows "n < 65536"
proof -
  have "list_all (\<lambda>c. digit_val c < 16) s" and l: "length s \<le> 4" and n: "n = read_base 16 s"
    using assms hex_digit_val by (auto simp: parse_hextet_def list_all_iff split: if_splits)
  then have "read_base 16 s < 16 ^ length s" by (intro read_base_bound) auto
  also have "(16::nat) ^ length s \<le> 16 ^ 4" using l by (intro power_increasing) auto
  finally show ?thesis using n by simp
qed

lemma hextets_shape:
  assumes "all_some (map parse_hextet xs) = Some g"
  shows "length g = length xs \<and> (\<forall>n\<in>set g. n < 65536)"
  using all_some_length [OF assms]
    all_some_all [OF assms, of "\<lambda>n. n < 65536", OF parse_hextet_bound] by simp

lemma ipv6_expand_shape:
  assumes "ipv6_expand parts hi lo = Some g" and "hi \<le> length parts" and "lo \<le> length parts"
    and "hi + lo < 8"
  shows "length g = 8 \<and> (\<forall>n\<in>set g. n < 65536)"
  using assms by (auto simp: ipv6_expand_def dest!: hextets_shape split: option.splits)

lemma ipv6_groups_shape:
  assumes "ipv6_groups parts = Some g"
  shows "length g = 8 \<and> (\<forall>n\<in>set g. n < 65536)"
proof (cases "filter (\<lambda>i. parts ! i = []) [1..<length parts - 1]")
  case Nil
  then show ?thesis
    using assms hextets_shape [of parts g] by (simp add: ipv6_groups_def Let_def split: if_splits)
next
  case (Cons k ks)
  then have "k \<in> set (filter (\<lambda>i. parts ! i = []) [1..<length parts - 1])" by simp
  then have "1 \<le> k" and "k < length parts - 1" by auto
  then show ?thesis
    using assms Cons
    by (auto simp: ipv6_groups_def Let_def dest: ipv6_expand_shape split: if_splits)
qed

lemma parse_octet_bound: "parse_octet s = Some n \<Longrightarrow> n < 256"
  by (auto simp: parse_octet_def split: if_splits)

lemma str_ipv4_check:
  assumes "length os = 4" and "\<forall>n\<in>set os. n < 256"
  shows "check_address (str_ipv4 os)"
proof -
  define ws where "ws = map (show_base 10) os"
  have len: "length ws = 4" using assms by (simp add: ws_def)
  have w: "length w \<le> 3 \<and> list_all is_lower_hex w" if wm: "w \<in> set ws" for w
  proof -
    obtain n where n: "n \<in> set os" "w = show_base 10 n" using wm by (auto simp: ws_def)
    then have "n < 10 ^ Suc 2" using assms(2) by fastforce
    then show ?thesis using n show_base_length [of 10 n 2] show_base_chars [of 10 n] by simp
  qed
  have l: "length (join_with ''.'' ws) + 1 = sum_list (map length ws) + length ws"
    using len by (intro length_join_with) auto
  moreover have "sum_list (map length ws) \<le> 3 * length ws"
    using w by (intro sum_list_length_le) blast
  ultimately have "2 \<le> length (join_with ''.'' ws)" and "length (join_with ''.'' ws) \<le> 45"
    using len by auto
  moreover have c: "is_lower_hex c \<or> c = CHR ''.''" if "c \<in> set (join_with ''.'' ws)" for c
    using that set_join_with [of "''.''" ws] w by (fastforce simp: list_all_iff)
  moreover have "map to_lower (join_with ''.'' ws) = join_with ''.'' ws"
    using c address_char_lower by (intro map_lower_id) blast
  moreover have "CHR 0x25 \<notin> set (join_with ''.'' ws)"
    using c [of "CHR 0x25"] by (auto simp: is_lower_hex_def is_digit_def)
  ultimately show ?thesis
    by (auto simp: check_address_def str_ipv4_def ws_def [symmetric] list_all_iff)
qed

text \<open>
  The Python test \<open>str(ip_address(x)) == x\<close> implies the schema's address test, unless the
  address carries an IPv6 scope (\<open>fe80::1%eth0\<close>), which Python accepts and the schema
  refuses.
\<close>

lemma canonical_ip_check:
  assumes "canonical_ip s" and "CHR 0x25 \<notin> set s"
  shows "check_address s"
proof (cases "parse_ipv4 s")
  case (Some os)
  then have "length os = 4" and "\<forall>n\<in>set os. n < 256"
    using all_some_all [where f = parse_octet and Q = "\<lambda>n. n < 256", OF _ parse_octet_bound]
    by (auto simp: parse_ipv4_def Let_def dest: all_some_length split: if_splits)
  then have "check_address (str_ipv4 os)" by (rule str_ipv4_check)
  then show ?thesis using assms(1) Some by (simp add: canonical_ip_def ip_compressed_def)
next
  case None
  then obtain g z where p: "parse_ipv6 s = Some (g, z)" and e: "str_ipv6 (g, z) = s"
    using assms(1) by (auto simp: canonical_ip_def ip_compressed_def split: option.splits)
  have "z = None" using e assms(2) by (cases z) (auto simp: str_ipv6_def)
  moreover have "length g = 8 \<and> (\<forall>n\<in>set g. n < 65536)"
    using p by (auto simp: parse_ipv6_def Let_def dest!: ipv6_groups_shape
        split: if_splits option.splits)
  ultimately show ?thesis using str_ipv6_check e by blast
qed

end
