(* ===== verification/Fleet_Models.thy ===== *)
theory Fleet_Models
  imports Py_Text
begin

text \<open>
  The data model of the Manager (\<open>fleet/models.py\<close>, \<open>discovery/models.py\<close>): exceptions,
  enumerations and dataclasses, with the source's constructors and fields.  A field
  \<open>f\<close> of \<open>EnrollmentJob\<close>, \<open>AgentRecord\<close>, \<open>AgentStatus\<close>, \<open>AgentRemovalJob\<close>,
  \<open>DiscoveryJob\<close> and \<open>DiscoveryResult\<close> is called \<open>j_f\<close>, \<open>a_f\<close>, \<open>s_f\<close>,
  \<open>r_f\<close>, \<open>d_f\<close> and \<open>dr_f\<close>.

  Timestamps are \<^emph>\<open>instants\<close> (microseconds on the UTC time line): the model's values
  are the timezone-aware ones.  The stored text is ISO 8601 in UTC with six fractional digits,
  so that its order, which the SQL comparisons use, is the order of the instants.
  The text of a \<open>RegistryConflict\<close> is kept, because \<open>enrollment/jobs.py\<close> and the API
  dispatch on it; the messages of the other exceptions are read by no code and are left
  out.
\<close>

datatype registry_error =
    RegistryConflict string
  | RevisionConflict
  | RegistryInvariantError
  | RegistryError

datatype enrollment_method =
    SSH_AUTO | SSH_CLI | SSH_SERVICE_KEY | LOCAL_SOCKET | LEGACY_ADMIN_TOKEN

datatype enrollment_state =
    PENDING | RUNNING | AWAITING_CLI | CREDENTIAL_ISSUED | VERIFYING | VERIFIED
  | ACTIVATION_REQUESTED | ACTIVATED | CONSUMED | CANCELLED | FAILED | EXPIRED

fun method_value :: "enrollment_method \<Rightarrow> string" where
  "method_value SSH_AUTO = ''ssh_auto''"
| "method_value SSH_CLI = ''ssh_cli''"
| "method_value SSH_SERVICE_KEY = ''ssh_service_key''"
| "method_value LOCAL_SOCKET = ''local_socket''"
| "method_value LEGACY_ADMIN_TOKEN = ''legacy_admin_token''"

fun state_value :: "enrollment_state \<Rightarrow> string" where
  "state_value PENDING = ''pending''"
| "state_value RUNNING = ''running''"
| "state_value AWAITING_CLI = ''awaiting_cli''"
| "state_value CREDENTIAL_ISSUED = ''credential_issued''"
| "state_value VERIFYING = ''verifying''"
| "state_value VERIFIED = ''verified''"
| "state_value ACTIVATION_REQUESTED = ''activation_requested''"
| "state_value ACTIVATED = ''activated''"
| "state_value CONSUMED = ''consumed''"
| "state_value CANCELLED = ''cancelled''"
| "state_value FAILED = ''failed''"
| "state_value EXPIRED = ''expired''"

definition terminal :: "enrollment_state \<Rightarrow> bool" where
  "terminal s \<longleftrightarrow> s \<in> {CONSUMED, CANCELLED, FAILED, EXPIRED}"

record agent_record =
  a_agent_id :: string
  a_instance_id :: "string option"
  a_display_name :: string
  a_normalized_endpoint :: string
  a_credential_ref :: string
  a_remote_credential_id :: "string option"
  a_transport_profile_id :: string
  a_enrollment_method :: enrollment_method
  a_enabled :: bool
  a_source :: string
  a_revision :: int
  a_created_at :: instant
  a_updated_at :: instant

record agent_query =
  q_limit :: int
  q_cursor :: "string option"

record agent_page =
  p_items :: "agent_record list"
  p_next_cursor :: "string option"

text \<open>
  \<open>summary: dict[str, Any]\<close> holds JSON values; \<open>JFloat\<close> stands for a Python float,
  with \<open>None\<close> for the non-finite ones (\<open>inf\<close>, \<open>nan\<close>).
\<close>

datatype json =
    JNull | JBool bool | JStr string | JInt int | JFloat "rat option"
  | JList "json list" | JDict "(string \<times> json) list"

record agent_status_record =
  s_agent_id :: string
  s_target_revision :: int
  s_connection_status :: string
  s_workload_status :: string
  s_observed_at :: "instant option"
  s_stale_after :: "instant option"
  s_api_version :: "string option"
  s_agent_version :: "string option"
  s_capabilities :: "string list"
  s_summary :: json
  s_last_error_code :: "string option"
  s_updated_at :: instant

record enrollment_job =
  j_enrollment_id :: string
  j_manager_id :: string
  j_state :: enrollment_state
  j_normalized_endpoint :: string
  j_transport_profile_id :: string
  j_discovery_result_id :: "string option"
  j_replace_agent_id :: "string option"
  j_requested_display_name :: "string option"
  j_ssh_user :: "string option"
  j_ssh_host :: "string option"
  j_ssh_port :: "int option"
  j_enrollment_method :: enrollment_method
  j_remote_instance_id :: "string option"
  j_remote_credential_id :: "string option"
  j_credential_temp_ref :: "string option"
  j_old_credential_ref :: "string option"
  j_old_remote_credential_id :: "string option"
  j_save_requested :: bool
  j_expires_at :: instant
  j_last_error_code :: "string option"
  j_created_at :: instant
  j_updated_at :: instant
  j_recovery_owner :: "string option"
  j_recovery_lease_until :: "instant option"
  j_recovery_revision :: int
  j_validated_http_address :: "string option"
  j_cli_resume_nonce :: "string option"
  j_cli_peer_uid :: "int option"
  j_cli_input_fingerprint :: "string option"
  j_cli_pinned_address :: "string option"
  j_cli_accept_receipt :: "string option"
  j_old_normalized_endpoint :: "string option"
  j_old_transport_profile_id :: "string option"
  j_old_instance_id :: "string option"
  j_old_registry_revision :: "int option"
  j_old_enrollment_method :: "enrollment_method option"
  j_old_source :: "string option"
  j_old_enabled :: "bool option"
  j_old_display_name :: "string option"

record agent_removal_job =
  r_removal_id :: string
  r_agent_id :: string
  r_captured_revision :: int
  r_credential_ref :: string
  r_remote_credential_id :: "string option"
  r_normalized_endpoint :: string
  r_transport_profile_id :: string
  r_enrollment_method :: enrollment_method
  r_phase :: string
  r_local_only :: bool
  r_audit_event_id :: int
  r_last_error_code :: "string option"
  r_created_at :: instant
  r_updated_at :: instant

section \<open>Discovery\<close>

datatype discovery_state = DQueued | DRunning | DCompleted | DCancelled | DFailed

datatype dispatch_state = Not_Dispatched | Unknown | Dispatched

record discovery_target =
  t_ip :: string
  t_port :: int
  t_transport_profile_id :: string
  t_scheme :: string

definition show_int :: "int \<Rightarrow> string" where
  "show_int n = (if n < 0 then ''-'' @ show_base 10 (nat (- n)) else show_base 10 (nat n))"

definition canonical_url :: "discovery_target \<Rightarrow> string" where
  "canonical_url t =
     (let host = (if CHR '':'' \<in> set (t_ip t) then ''['' @ t_ip t @ '']'' else t_ip t)
      in t_scheme t @ ''://'' @ host @ '':'' @ show_int (t_port t))"

record discovery_job =
  d_job_id :: string
  d_scope_id :: string
  d_state :: discovery_state
  d_total_targets :: int
  d_checked_targets :: int
  d_found_targets :: int
  d_cancel_requested :: bool
  d_safe_error_code :: "string option"
  d_start_audit_event_id :: int
  d_deadline_at :: instant
  d_created_at :: instant
  d_updated_at :: instant
  d_completed_at :: "instant option"
  d_aggregate_dispatch_state :: dispatch_state

record discovery_result =
  dr_result_id :: string
  dr_job_id :: string
  dr_canonical_url :: string
  dr_ip :: string
  dr_port :: int
  dr_transport_profile_id :: string
  dr_fingerprint_version :: "string option"
  dr_found :: bool
  dr_safe_error_code :: "string option"
  dr_first_seen_at :: instant
  dr_last_seen_at :: instant
  dr_linked_enrollment_id :: "string option"

section \<open>Enumerations: automation\<close>

lemma state_value_inj: "state_value s = state_value s' \<longleftrightarrow> s = s'"
  by (cases s; cases s') simp_all

lemma method_value_inj: "method_value m = method_value m' \<longleftrightarrow> m = m'"
  by (cases m; cases m') simp_all

lemma terminal_simps [simp]:
  "\<not> terminal PENDING" "\<not> terminal RUNNING" "\<not> terminal AWAITING_CLI"
  "\<not> terminal CREDENTIAL_ISSUED" "\<not> terminal VERIFYING" "\<not> terminal VERIFIED"
  "\<not> terminal ACTIVATION_REQUESTED" "\<not> terminal ACTIVATED" "terminal CONSUMED"
  "terminal CANCELLED" "terminal FAILED" "terminal EXPIRED"
  by (simp_all add: terminal_def)

end
