(* ===== verification/Manager_Schema.thy ===== *)
theory Manager_Schema
  imports Fleet_Models
begin

text \<open>
  The Manager's SQLite database at its current schema
  (\<open>control_plane_migrations/0013_local_socket_bootstrap.py\<close> for the agents, enrollment
  and removal tables, \<open>0001\<close>, \<open>0003\<close>, \<open>0010\<close> and \<open>0011\<close> for the others): the tables as one
  record of row lists, every \<open>CHECK\<close>, \<open>UNIQUE\<close>, \<open>PRIMARY KEY\<close> and \<open>REFERENCES\<close> clause
  as a predicate, and the statements that may raise \<open>sqlite3.IntegrityError\<close> as
  functions into \<open>option\<close> (\<open>None\<close> is the raised error).

  A \<open>CHECK\<close> whose value is \<open>NULL\<close> passes in SQLite; the predicates write this out.
  A column whose Python type is an enumeration or a bool is stored as such, so the
  \<open>CHECK ... IN (...)\<close> clause on that column is its type.

  \<open>db_ok\<close> is the conjunction of all constraints; the lemmas show that every statement
  form keeps it.
\<close>

record job_row =
  row_job :: enrollment_job
  row_tombstone :: "string option"

record audit_event =
  e_id :: int
  e_agent_id :: "string option"
  e_operation :: string
  e_target :: string
  e_result :: string
  e_dispatch_state :: string
  e_failure_category :: "string option"

record manager_db =
  db_manager_id :: "string option"
  db_agents :: "agent_record list"
  db_status :: "agent_status_record list"
  db_jobs :: "job_row list"
  db_removals :: "agent_removal_job list"
  db_audit :: "audit_event list"
  db_discovery_jobs :: "discovery_job list"
  db_discovery_results :: "discovery_result list"

definition empty_db :: manager_db where
  "empty_db = \<lparr>db_manager_id = None, db_agents = [], db_status = [], db_jobs = [],
     db_removals = [], db_audit = [], db_discovery_jobs = [], db_discovery_results = []\<rparr>"

type_synonym 'a repo = "manager_db \<Rightarrow> registry_error + 'a \<times> manager_db"

section \<open>Table agents\<close>

definition check_agent :: "agent_record \<Rightarrow> bool" where
  "check_agent a \<longleftrightarrow>
     a_source a \<in> {''config_import'', ''manual'', ''discovery'', ''local_dev_bootstrap''} \<and>
     1 \<le> a_revision a \<and>
     (a_instance_id a \<noteq> None \<or> a_enrollment_method a = LEGACY_ADMIN_TOKEN) \<and>
     (a_remote_credential_id a \<noteq> None \<or> a_enrollment_method a = LEGACY_ADMIN_TOKEN)"

definition agents_unique :: "agent_record list \<Rightarrow> bool" where
  "agents_unique rows \<longleftrightarrow> distinct (map a_agent_id rows) \<and>
     distinct (map a_normalized_endpoint rows) \<and>
     distinct (filter (\<lambda>x. x \<noteq> None) (map a_instance_id rows))"

definition agent_exists :: "manager_db \<Rightarrow> string \<Rightarrow> bool" where
  "agent_exists d i \<longleftrightarrow> (\<exists>a\<in>set (db_agents d). a_agent_id a = i)"

definition insert_agent :: "agent_record \<Rightarrow> manager_db \<Rightarrow> manager_db option" where
  "insert_agent a d =
     (if check_agent a \<and> agents_unique (db_agents d @ [a])
      then Some (d\<lparr>db_agents := db_agents d @ [a]\<rparr>) else None)"

definition update_agents ::
  "(agent_record \<Rightarrow> bool) \<Rightarrow> (agent_record \<Rightarrow> agent_record) \<Rightarrow> manager_db \<Rightarrow> manager_db option" where
  "update_agents P f d =
     (let rows = sql_update P f (db_agents d) in
      if (\<forall>a\<in>set (db_agents d). P a \<longrightarrow> check_agent (f a)) \<and> agents_unique rows
      then Some (d\<lparr>db_agents := rows\<rparr>) else None)"

section \<open>Table agent\_enrollment\_jobs\<close>

definition ssh_method :: "enrollment_method \<Rightarrow> bool" where
  "ssh_method m \<longleftrightarrow> m \<notin> {LEGACY_ADMIN_TOKEN, LOCAL_SOCKET}"

definition credential_state :: "enrollment_state \<Rightarrow> bool" where
  "credential_state s \<longleftrightarrow>
     s \<in> {CREDENTIAL_ISSUED, VERIFYING, VERIFIED, ACTIVATION_REQUESTED, ACTIVATED}"

definition activation_state :: "enrollment_state \<Rightarrow> bool" where
  "activation_state s \<longleftrightarrow> s \<in> {ACTIVATION_REQUESTED, ACTIVATED}"

definition claim_state :: "enrollment_state \<Rightarrow> bool" where
  "claim_state s \<longleftrightarrow> s \<in> {RUNNING, CREDENTIAL_ISSUED, VERIFYING, VERIFIED,
     ACTIVATION_REQUESTED, ACTIVATED}"

definition check_cli_claim :: "enrollment_job \<Rightarrow> bool" where
  "check_cli_claim j \<longleftrightarrow>
     (j_cli_resume_nonce j = None \<and> j_cli_peer_uid j = None \<and>
      j_cli_input_fingerprint j = None \<and> j_cli_pinned_address j = None) \<or>
     (j_cli_resume_nonce j \<noteq> None \<and> j_cli_peer_uid j \<noteq> None \<and>
      j_cli_input_fingerprint j \<noteq> None \<and> j_cli_pinned_address j \<noteq> None \<and>
      j_enrollment_method j = SSH_CLI \<and> claim_state (j_state j))"

definition check_pinned :: "enrollment_job \<Rightarrow> bool" where
  "check_pinned j \<longleftrightarrow>
     (if j_enrollment_method j = LEGACY_ADMIN_TOKEN then j_validated_http_address j = None
      else
        (j_state j \<in> {PENDING, RUNNING, AWAITING_CLI} \<and> j_validated_http_address j = None) \<or>
        (credential_state (j_state j) \<and> j_validated_http_address j \<noteq> None) \<or>
        (terminal (j_state j) \<and>
          (j_credential_temp_ref j = None \<longleftrightarrow> j_validated_http_address j = None)))"

definition check_receipt :: "enrollment_job \<Rightarrow> bool" where
  "check_receipt j \<longleftrightarrow> (case j_cli_accept_receipt j of None \<Rightarrow> True
     | Some r \<Rightarrow> check_hex64 r \<and> j_state j = CONSUMED \<and> j_enrollment_method j = SSH_CLI \<and>
         j_cli_resume_nonce j = None)"

definition check_job :: "enrollment_job \<Rightarrow> bool" where
  "check_job j \<longleftrightarrow>
     (\<forall>p\<in>set_option (j_ssh_port j). 1 \<le> p \<and> p \<le> 65535) \<and>
     0 \<le> j_recovery_revision j \<and>
     (\<forall>a\<in>set_option (j_validated_http_address j). check_address a) \<and>
     check_pinned j \<and>
     (\<forall>n\<in>set_option (j_cli_resume_nonce j). check_uuid_text n) \<and>
     (\<forall>u\<in>set_option (j_cli_peer_uid j). 0 \<le> u) \<and>
     (\<forall>f\<in>set_option (j_cli_input_fingerprint j). check_hex64 f) \<and>
     (\<forall>a\<in>set_option (j_cli_pinned_address j). check_address a) \<and>
     check_cli_claim j \<and>
     check_receipt j \<and>
     (j_state j = RUNNING \<and> j_enrollment_method j = SSH_CLI \<and> j_credential_temp_ref j = None
        \<longrightarrow> j_cli_resume_nonce j \<noteq> None) \<and>
     (\<forall>r\<in>set_option (j_old_registry_revision j). 1 \<le> r) \<and>
     (j_discovery_result_id j = None \<or> j_replace_agent_id j = None) \<and>
     (j_save_requested j \<longrightarrow> j_requested_display_name j \<noteq> None) \<and>
     (if ssh_method (j_enrollment_method j)
      then j_ssh_user j \<noteq> None \<and> j_ssh_host j \<noteq> None \<and> j_ssh_port j \<noteq> None
      else j_ssh_user j = None \<and> j_ssh_host j = None \<and> j_ssh_port j = None) \<and>
     (credential_state (j_state j) \<longrightarrow> j_credential_temp_ref j \<noteq> None) \<and>
     (activation_state (j_state j) \<longrightarrow>
        j_save_requested j \<and> j_requested_display_name j \<noteq> None) \<and>
     (activation_state (j_state j) \<and> j_enrollment_method j \<noteq> LEGACY_ADMIN_TOKEN \<longrightarrow>
        j_remote_instance_id j \<noteq> None \<and> j_remote_credential_id j \<noteq> None) \<and>
     (j_recovery_owner j = None \<longleftrightarrow> j_recovery_lease_until j = None)"

abbreviation row_id :: "job_row \<Rightarrow> string" where
  "row_id r \<equiv> j_enrollment_id (row_job r)"

definition set_job :: "(enrollment_job \<Rightarrow> enrollment_job) \<Rightarrow> job_row \<Rightarrow> job_row" where
  "set_job f r = r\<lparr>row_job := f (row_job r)\<rparr>"

lemma row_job_set_job [simp]: "row_job (set_job f r) = f (row_job r)"
  by (simp add: set_job_def)

lemma row_tombstone_set_job [simp]: "row_tombstone (set_job f r) = row_tombstone r"
  by (simp add: set_job_def)

definition replaced_agent_ok :: "manager_db \<Rightarrow> enrollment_job \<Rightarrow> bool" where
  "replaced_agent_ok d j \<longleftrightarrow> (\<forall>i\<in>set_option (j_replace_agent_id j). agent_exists d i)"

definition insert_job :: "enrollment_job \<Rightarrow> manager_db \<Rightarrow> manager_db option" where
  "insert_job j d =
     (if check_job j \<and> j_enrollment_id j \<notin> row_id ` set (db_jobs d) \<and> replaced_agent_ok d j
      then Some (d\<lparr>db_jobs := db_jobs d @ [\<lparr>row_job = j, row_tombstone = None\<rparr>]\<rparr>) else None)"

definition update_jobs ::
  "(job_row \<Rightarrow> bool) \<Rightarrow> (job_row \<Rightarrow> job_row) \<Rightarrow> manager_db \<Rightarrow> manager_db option" where
  "update_jobs P f d =
     (if \<forall>r\<in>set (db_jobs d). P r \<longrightarrow> check_job (row_job (f r)) \<and>
           (j_replace_agent_id (row_job (f r)) = j_replace_agent_id (row_job r) \<or>
            replaced_agent_ok d (row_job (f r)))
      then Some (d\<lparr>db_jobs := sql_update P f (db_jobs d)\<rparr>) else None)"

text \<open>
  Deleting agents: \<open>replace_agent_id REFERENCES agents\<close> has no action clause, so a
  remaining reference is an \<open>IntegrityError\<close>; \<open>agent_status\<close> cascades.
\<close>

definition delete_agents :: "(agent_record \<Rightarrow> bool) \<Rightarrow> manager_db \<Rightarrow> manager_db option" where
  "delete_agents P d =
     (let gone = map a_agent_id (filter P (db_agents d)) in
      if \<exists>r\<in>set (db_jobs d). \<exists>i\<in>set_option (j_replace_agent_id (row_job r)). i \<in> set gone
      then None
      else Some (d\<lparr>db_agents := sql_delete P (db_agents d),
                   db_status := sql_delete (\<lambda>s. s_agent_id s \<in> set gone) (db_status d)\<rparr>))"

section \<open>Table agent\_status\<close>

definition check_status :: "agent_status_record \<Rightarrow> bool" where
  "check_status s \<longleftrightarrow> 1 \<le> s_target_revision s \<and>
     s_connection_status s \<in> {''disabled'', ''unknown'', ''ready'', ''degraded'', ''unavailable''} \<and>
     s_workload_status s \<in> {''unknown'', ''healthy'', ''warning'', ''critical'', ''stale''}"

text \<open>\<open>INSERT ... ON CONFLICT(agent_id) DO UPDATE SET\<close> all columns, or \<open>DO NOTHING\<close>.\<close>

definition upsert_status :: "agent_status_record \<Rightarrow> manager_db \<Rightarrow> manager_db option" where
  "upsert_status s d =
     (if check_status s \<and> agent_exists d (s_agent_id s)
      then Some (d\<lparr>db_status :=
        (if s_agent_id s \<in> s_agent_id ` set (db_status d)
         then sql_update (\<lambda>x. s_agent_id x = s_agent_id s) (\<lambda>_. s) (db_status d)
         else db_status d @ [s])\<rparr>)
      else None)"

definition insert_status_or_ignore :: "agent_status_record \<Rightarrow> manager_db \<Rightarrow> manager_db option" where
  "insert_status_or_ignore s d =
     (if \<not> check_status s then None
      else if s_agent_id s \<in> s_agent_id ` set (db_status d) then Some d
      else if agent_exists d (s_agent_id s) then Some (d\<lparr>db_status := db_status d @ [s]\<rparr>)
      else None)"

section \<open>Table agent\_removal\_jobs\<close>

definition removal_phases :: "string list" where
  "removal_phases = [''pending'', ''revoking'', ''revoked'', ''registry_deleted'',
     ''credential_deleted'', ''completed'', ''residual'']"

definition check_removal :: "agent_removal_job \<Rightarrow> bool" where
  "check_removal r \<longleftrightarrow> 1 \<le> r_captured_revision r \<and> r_phase r \<in> set removal_phases"

text \<open>The primary key and the partial unique index \<open>idx_agent_removal_active\<close>.\<close>

definition removals_unique :: "agent_removal_job list \<Rightarrow> bool" where
  "removals_unique rows \<longleftrightarrow> distinct (map r_removal_id rows) \<and>
     distinct (map r_agent_id (filter (\<lambda>r. r_phase r \<noteq> ''completed'') rows))"

definition insert_removal :: "agent_removal_job \<Rightarrow> manager_db \<Rightarrow> manager_db option" where
  "insert_removal r d =
     (if check_removal r \<and> removals_unique (db_removals d @ [r])
      then Some (d\<lparr>db_removals := db_removals d @ [r]\<rparr>) else None)"

definition update_removals ::
  "(agent_removal_job \<Rightarrow> bool) \<Rightarrow> (agent_removal_job \<Rightarrow> agent_removal_job) \<Rightarrow> manager_db
     \<Rightarrow> manager_db option" where
  "update_removals P f d =
     (let rows = sql_update P f (db_removals d) in
      if (\<forall>r\<in>set (db_removals d). P r \<longrightarrow> check_removal (f r)) \<and> removals_unique rows
      then Some (d\<lparr>db_removals := rows\<rparr>) else None)"

section \<open>The constraints as one invariant\<close>

definition jobs_unique :: "job_row list \<Rightarrow> bool" where
  "jobs_unique rows \<longleftrightarrow> distinct (map row_id rows)"

definition status_unique :: "agent_status_record list \<Rightarrow> bool" where
  "status_unique rows \<longleftrightarrow> distinct (map s_agent_id rows)"

definition agent_ids_unique :: "agent_record list \<Rightarrow> bool" where
  "agent_ids_unique rows \<longleftrightarrow> distinct (map a_agent_id rows)"

definition jobs_ok :: "manager_db \<Rightarrow> bool" where
  "jobs_ok d \<longleftrightarrow> jobs_unique (db_jobs d) \<and>
     (\<forall>r\<in>set (db_jobs d). check_job (row_job r) \<and> replaced_agent_ok d (row_job r))"

definition agents_ok :: "manager_db \<Rightarrow> bool" where
  "agents_ok d \<longleftrightarrow> agents_unique (db_agents d) \<and> (\<forall>a\<in>set (db_agents d). check_agent a)"

definition status_ok :: "manager_db \<Rightarrow> bool" where
  "status_ok d \<longleftrightarrow> status_unique (db_status d) \<and>
     (\<forall>s\<in>set (db_status d). check_status s \<and> agent_exists d (s_agent_id s))"

definition removals_ok :: "manager_db \<Rightarrow> bool" where
  "removals_ok d \<longleftrightarrow> removals_unique (db_removals d) \<and>
     (\<forall>r\<in>set (db_removals d). check_removal r)"

definition db_ok :: "manager_db \<Rightarrow> bool" where
  "db_ok d \<longleftrightarrow> jobs_ok d \<and> agents_ok d \<and> status_ok d \<and> removals_ok d"

interpretation jobs_table: keyed_table row_id jobs_unique
  by unfold_locales (simp add: jobs_unique_def)

interpretation agents_table: keyed_table a_agent_id agent_ids_unique
  by unfold_locales (simp add: agent_ids_unique_def)

interpretation status_table: keyed_table s_agent_id status_unique
  by unfold_locales (simp add: status_unique_def)

lemma agents_unique_ids: "agents_unique rows \<Longrightarrow> agent_ids_unique rows"
  by (simp add: agents_unique_def agent_ids_unique_def)

lemma agents_unique_delete: "agents_unique rows \<Longrightarrow> agents_unique (sql_delete P rows)"
  unfolding agents_unique_def sql_delete_def
  by (auto simp: distinct_map_filter filter_map) (auto simp: distinct_map inj_on_def)

lemma empty_db_ok: "db_ok empty_db"
  by (simp add: db_ok_def jobs_ok_def agents_ok_def status_ok_def removals_ok_def empty_db_def
      jobs_unique_def agents_unique_def status_unique_def removals_unique_def)

section \<open>Every statement keeps the constraints\<close>

lemma agent_exists_image: "agent_exists d i \<longleftrightarrow> i \<in> a_agent_id ` set (db_agents d)"
  by (auto simp: agent_exists_def)

lemma agent_exists_mono:
  assumes "a_agent_id ` set (db_agents d) \<subseteq> a_agent_id ` set (db_agents d')"
  shows "agent_exists d i \<Longrightarrow> agent_exists d' i"
  using assms by (auto simp only: agent_exists_image subset_iff)

lemma agent_exists_cong:
  "a_agent_id ` set (db_agents d) = a_agent_id ` set (db_agents d') \<Longrightarrow>
   agent_exists d i = agent_exists d' i"
  by (simp only: agent_exists_image)

lemma agent_exists_frame [simp]:
  "agent_exists (d\<lparr>db_jobs := x\<rparr>) i = agent_exists d i"
  "agent_exists (d\<lparr>db_status := y\<rparr>) i = agent_exists d i"
  "agent_exists (d\<lparr>db_removals := z\<rparr>) i = agent_exists d i"
  "agent_exists (d\<lparr>db_audit := u\<rparr>) i = agent_exists d i"
  "agent_exists (d\<lparr>db_discovery_jobs := v\<rparr>) i = agent_exists d i"
  "agent_exists (d\<lparr>db_discovery_results := w\<rparr>) i = agent_exists d i"
  by (simp_all add: agent_exists_def)

lemma replaced_agent_ok_frame [simp]:
  "replaced_agent_ok (d\<lparr>db_jobs := x\<rparr>) j = replaced_agent_ok d j"
  "replaced_agent_ok (d\<lparr>db_status := y\<rparr>) j = replaced_agent_ok d j"
  "replaced_agent_ok (d\<lparr>db_removals := z\<rparr>) j = replaced_agent_ok d j"
  "replaced_agent_ok (d\<lparr>db_audit := u\<rparr>) j = replaced_agent_ok d j"
  "replaced_agent_ok (d\<lparr>db_discovery_jobs := v\<rparr>) j = replaced_agent_ok d j"
  "replaced_agent_ok (d\<lparr>db_discovery_results := w\<rparr>) j = replaced_agent_ok d j"
  by (simp_all add: replaced_agent_ok_def)

lemma db_ok_frame [simp]:
  "db_ok (d\<lparr>db_audit := u\<rparr>) = db_ok d"
  "db_ok (d\<lparr>db_discovery_jobs := v\<rparr>) = db_ok d"
  "db_ok (d\<lparr>db_discovery_results := w\<rparr>) = db_ok d"
  by (simp_all add: db_ok_def jobs_ok_def agents_ok_def status_ok_def removals_ok_def)

lemma db_ok_jobsI:
  assumes "db_ok d" and "jobs_ok (d\<lparr>db_jobs := x\<rparr>)"
  shows "db_ok (d\<lparr>db_jobs := x\<rparr>)"
  using assms by (simp add: db_ok_def agents_ok_def status_ok_def removals_ok_def)

lemma insert_job_ok:
  assumes "db_ok d" and "insert_job j d = Some d'"
  shows "db_ok d'"
  using assms
  by (auto simp: insert_job_def db_ok_def [of d] jobs_ok_def jobs_table.uniq_append
      intro!: db_ok_jobsI split: if_splits)

lemma update_jobs_ok:
  assumes "db_ok d" and "\<And>r. P r \<Longrightarrow> row_id (f r) = row_id r" and "update_jobs P f d = Some d'"
  shows "db_ok d'"
proof -
  have j: "jobs_ok d" using assms(1) by (simp add: db_ok_def)
  have d': "d' = d\<lparr>db_jobs := sql_update P f (db_jobs d)\<rparr>"
    and c: "\<And>r. r \<in> set (db_jobs d) \<Longrightarrow> P r \<Longrightarrow> check_job (row_job (f r)) \<and>
           (j_replace_agent_id (row_job (f r)) = j_replace_agent_id (row_job r) \<or>
            replaced_agent_ok d (row_job (f r)))"
    using assms(3) by (auto simp: update_jobs_def split: if_splits)
  have "jobs_unique (sql_update P f (db_jobs d))"
    using j assms(2) by (auto simp: jobs_ok_def intro!: jobs_table.uniq_update)
  moreover have "check_job (row_job r') \<and> replaced_agent_ok d (row_job r')"
    if m: "r' \<in> set (sql_update P f (db_jobs d))" for r'
  proof -
    obtain r where "r \<in> set (db_jobs d)" and "r' = (if P r then f r else r)"
      using m by (auto simp: set_sql_update)
    then show ?thesis using j c [of r] by (auto simp: jobs_ok_def replaced_agent_ok_def)
  qed
  ultimately show ?thesis using assms(1) d' by (auto simp: jobs_ok_def intro!: db_ok_jobsI)
qed

lemma update_jobs_set_job_ok:
  assumes "db_ok d" and "update_jobs P (set_job f) d = Some d'"
    and "\<And>j. j_enrollment_id (f j) = j_enrollment_id j"
  shows "db_ok d'"
  by (rule update_jobs_ok [OF assms(1) _ assms(2)]) (simp add: assms(3))

lemma insert_agent_ok:
  assumes "db_ok d" and "insert_agent a d = Some d'"
  shows "db_ok d'"
proof -
  have d': "d' = d\<lparr>db_agents := db_agents d @ [a]\<rparr>" "check_agent a"
    "agents_unique (db_agents d @ [a])"
    using assms(2) by (auto simp: insert_agent_def split: if_splits)
  have "agent_exists d i \<Longrightarrow> agent_exists d' i" for i
    by (rule agent_exists_mono [of d d']) (auto simp: d')
  then show ?thesis
    using assms(1) d'
    by (auto simp: db_ok_def jobs_ok_def agents_ok_def status_ok_def removals_ok_def
        replaced_agent_ok_def)
qed

lemma update_agents_ok:
  assumes "db_ok d" and "\<And>a. P a \<Longrightarrow> a_agent_id (f a) = a_agent_id a"
    and "update_agents P f d = Some d'"
  shows "db_ok d'"
proof -
  have d': "d' = d\<lparr>db_agents := sql_update P f (db_agents d)\<rparr>"
    and c: "\<And>a. a \<in> set (db_agents d) \<Longrightarrow> P a \<Longrightarrow> check_agent (f a)"
    and u: "agents_unique (sql_update P f (db_agents d))"
    using assms(3) by (auto simp: update_agents_def Let_def split: if_splits)
  have "map a_agent_id (sql_update P f (db_agents d)) = map a_agent_id (db_agents d)"
    using assms(2) by (intro map_sql_update) auto
  then have "set (map a_agent_id (sql_update P f (db_agents d))) = set (map a_agent_id (db_agents d))"
    by (rule arg_cong)
  then have "a_agent_id ` set (db_agents d) = a_agent_id ` set (db_agents d')"
    by (simp add: d')
  then have e: "agent_exists d' i = agent_exists d i" for i
    using agent_exists_cong by metis
  have "check_agent a" if "a \<in> set (sql_update P f (db_agents d))" for a
    using that c assms(1) by (auto simp: set_sql_update db_ok_def agents_ok_def)
  then show ?thesis
    using assms(1) e u
    by (auto simp: db_ok_def jobs_ok_def agents_ok_def status_ok_def removals_ok_def
        replaced_agent_ok_def d')
qed

lemma delete_agents_ok:
  assumes "db_ok d" and "delete_agents P d = Some d'"
  shows "db_ok d'"
proof -
  define gone where "gone = a_agent_id ` {a \<in> set (db_agents d). P a}"
  have d': "d' = d\<lparr>db_agents := sql_delete P (db_agents d),
                   db_status := sql_delete (\<lambda>s. s_agent_id s \<in> gone) (db_status d)\<rparr>"
    and ref: "\<And>r i. r \<in> set (db_jobs d) \<Longrightarrow> j_replace_agent_id (row_job r) = Some i \<Longrightarrow> i \<notin> gone"
    using assms(2) by (auto simp: delete_agents_def Let_def gone_def split: if_splits)
  have e: "agent_exists d' i" if "agent_exists d i" and "i \<notin> gone" for i
    using that by (auto simp: agent_exists_def d' sql_delete_def gone_def)
  show ?thesis
    using assms(1) e ref
    by (auto simp: db_ok_def jobs_ok_def agents_ok_def status_ok_def removals_ok_def
        replaced_agent_ok_def d' agents_unique_delete status_table.uniq_delete)
      (auto simp: sql_delete_def)
qed

lemma upsert_status_ok:
  assumes "db_ok d" and "upsert_status s d = Some d'"
  shows "db_ok d'"
  using assms
  by (auto simp: upsert_status_def db_ok_def jobs_ok_def agents_ok_def status_ok_def removals_ok_def
      set_sql_update intro!: status_table.uniq_update status_table.uniq_append
      split: if_splits)

lemma insert_status_or_ignore_ok:
  assumes "db_ok d" and "insert_status_or_ignore s d = Some d'"
  shows "db_ok d'"
  using assms
  by (auto simp: insert_status_or_ignore_def db_ok_def jobs_ok_def agents_ok_def status_ok_def
      removals_ok_def intro!: status_table.uniq_append split: if_splits)

lemma insert_removal_ok:
  assumes "db_ok d" and "insert_removal r d = Some d'"
  shows "db_ok d'"
  using assms
  by (auto simp: insert_removal_def db_ok_def jobs_ok_def agents_ok_def status_ok_def removals_ok_def
      split: if_splits)

lemma update_removals_ok:
  assumes "db_ok d" and "update_removals P f d = Some d'"
  shows "db_ok d'"
  using assms
  by (auto simp: update_removals_def Let_def db_ok_def jobs_ok_def agents_ok_def status_ok_def
      removals_ok_def set_sql_update split: if_splits)

lemmas statement_ok = insert_job_ok insert_agent_ok delete_agents_ok upsert_status_ok
  insert_status_or_ignore_ok insert_removal_ok update_removals_ok

end
