(* ===== verification/Enrollment_Validation.thy ===== *)
theory Enrollment_Validation
  imports Manager_Schema
begin

text \<open>
  \<open>_validate_job\<close> of \<open>storage/enrollment_journal.py\<close>, the check every enrollment record
  passes before it is written, block by block in the source's order.  All its failures
  raise \<open>RegistryInvariantError\<close>, so the blocks are bool-valued and their conjunction
  decides.  The column codec \<open>_values\<close> / \<open>_job\<close> is here too.

  Main results: a validated job satisfies every \<open>CHECK\<close> of the table (up to the two gaps
  the statement names), and decoding an encoded job gives the job back.
\<close>

section \<open>Validation\<close>

definition nonempty :: "string option \<Rightarrow> bool" where
  "nonempty x \<longleftrightarrow> (case x of None \<Rightarrow> False | Some s \<Rightarrow> s \<noteq> [])"

definition valid_identity :: "enrollment_job \<Rightarrow> bool" where
  "valid_identity j \<longleftrightarrow> enrollment_id_re (j_enrollment_id j) \<and> uuid_canonical (j_manager_id j) \<and>
     j_normalized_endpoint j \<noteq> [] \<and> j_transport_profile_id j \<noteq> []"

definition valid_ssh :: "enrollment_job \<Rightarrow> bool" where
  "valid_ssh j \<longleftrightarrow>
     (if j_enrollment_method j \<in> {LEGACY_ADMIN_TOKEN, LOCAL_SOCKET}
      then j_ssh_user j = None \<and> j_ssh_host j = None \<and> j_ssh_port j = None
      else j_ssh_user j \<noteq> None \<and> j_ssh_host j \<noteq> None \<and> j_ssh_port j \<noteq> None) \<and>
     (case j_ssh_port j of None \<Rightarrow> True | Some p \<Rightarrow> 1 \<le> p \<and> p \<le> 65535)"

definition valid_request :: "enrollment_job \<Rightarrow> bool" where
  "valid_request j \<longleftrightarrow>
     (j_save_requested j \<longrightarrow> nonempty (j_requested_display_name j)) \<and>
     \<not> (j_discovery_result_id j \<noteq> None \<and> j_replace_agent_id j \<noteq> None)"

definition no_rotation_metadata :: "enrollment_job \<Rightarrow> bool" where
  "no_rotation_metadata j \<longleftrightarrow>
     j_old_normalized_endpoint j = None \<and> j_old_transport_profile_id j = None \<and>
     j_old_registry_revision j = None \<and> j_old_enrollment_method j = None \<and>
     j_old_source j = None \<and> j_old_enabled j = None \<and> j_old_display_name j = None"

definition full_rotation_metadata :: "enrollment_job \<Rightarrow> bool" where
  "full_rotation_metadata j \<longleftrightarrow>
     j_old_normalized_endpoint j \<noteq> None \<and> j_old_transport_profile_id j \<noteq> None \<and>
     j_old_registry_revision j \<noteq> None \<and> j_old_enrollment_method j \<noteq> None \<and>
     j_old_source j \<noteq> None \<and> j_old_enabled j \<noteq> None \<and> j_old_display_name j \<noteq> None"

definition valid_rotation :: "enrollment_job \<Rightarrow> bool" where
  "valid_rotation j \<longleftrightarrow>
     (if j_replace_agent_id j = None
      then no_rotation_metadata j \<and> j_old_credential_ref j = None \<and>
        j_old_remote_credential_id j = None \<and> j_old_instance_id j = None
      else full_rotation_metadata j \<and>
        (j_state j \<notin> {CONSUMED, FAILED} \<longrightarrow>
           j_old_credential_ref j \<noteq> None \<and>
           (j_old_enrollment_method j \<noteq> Some LEGACY_ADMIN_TOKEN \<longrightarrow>
              j_old_remote_credential_id j \<noteq> None \<and> j_old_instance_id j \<noteq> None)) \<and>
        \<not> (j_remote_instance_id j \<noteq> None \<and> j_old_instance_id j \<noteq> None \<and>
            j_remote_instance_id j \<noteq> j_old_instance_id j))"

definition valid_phase :: "enrollment_job \<Rightarrow> bool" where
  "valid_phase j \<longleftrightarrow>
     (credential_state (j_state j) \<longrightarrow> j_credential_temp_ref j \<noteq> None) \<and>
     (activation_state (j_state j) \<longrightarrow>
        j_save_requested j \<and> nonempty (j_requested_display_name j) \<and>
        (j_enrollment_method j \<noteq> LEGACY_ADMIN_TOKEN \<longrightarrow>
           j_remote_instance_id j \<noteq> None \<and> j_remote_credential_id j \<noteq> None))"

definition valid_recovery :: "enrollment_job \<Rightarrow> bool" where
  "valid_recovery j \<longleftrightarrow>
     (j_recovery_owner j = None \<longleftrightarrow> j_recovery_lease_until j = None) \<and>
     (case j_recovery_owner j of None \<Rightarrow> True | Some u \<Rightarrow> uuid_canonical u) \<and>
     0 \<le> j_recovery_revision j \<and>
     (case j_last_error_code j of None \<Rightarrow> True | Some c \<Rightarrow> error_code_re c) \<and>
     (case j_validated_http_address j of None \<Rightarrow> True | Some a \<Rightarrow> canonical_ip a)"

definition no_cli_claim :: "enrollment_job \<Rightarrow> bool" where
  "no_cli_claim j \<longleftrightarrow> j_cli_resume_nonce j = None \<and> j_cli_peer_uid j = None \<and>
     j_cli_input_fingerprint j = None \<and> j_cli_pinned_address j = None"

definition valid_cli_claim :: "enrollment_job \<Rightarrow> bool" where
  "valid_cli_claim j \<longleftrightarrow>
     (if \<not> no_cli_claim j then
        (case (j_cli_resume_nonce j, j_cli_peer_uid j, j_cli_input_fingerprint j,
               j_cli_pinned_address j) of
           (Some nonce, Some uid, Some fp, Some addr) \<Rightarrow>
             j_enrollment_method j = SSH_CLI \<and> claim_state (j_state j) \<and>
             uuid_canonical nonce \<and> 0 \<le> uid \<and> hex64_re fp \<and> canonical_ip addr
         | _ \<Rightarrow> False)
      else \<not> (j_enrollment_method j = SSH_CLI \<and> j_state j = RUNNING \<and>
              j_credential_temp_ref j = None))"

definition valid_receipt :: "enrollment_job \<Rightarrow> bool" where
  "valid_receipt j \<longleftrightarrow> (case j_cli_accept_receipt j of None \<Rightarrow> True
     | Some r \<Rightarrow> hex64_re r \<and> j_state j = CONSUMED \<and> j_enrollment_method j = SSH_CLI \<and>
         no_cli_claim j)"

definition credential_pin_required :: "enrollment_job \<Rightarrow> bool" where
  "credential_pin_required j \<longleftrightarrow> credential_state (j_state j) \<or>
     (terminal (j_state j) \<and> j_credential_temp_ref j \<noteq> None)"

definition valid_pin :: "enrollment_job \<Rightarrow> bool" where
  "valid_pin j \<longleftrightarrow>
     (if j_enrollment_method j = LEGACY_ADMIN_TOKEN then j_validated_http_address j = None
      else credential_pin_required j \<longleftrightarrow> j_validated_http_address j \<noteq> None)"

definition valid_references :: "enrollment_job \<Rightarrow> bool" where
  "valid_references j \<longleftrightarrow>
     (case j_credential_temp_ref j of None \<Rightarrow> True | Some r \<Rightarrow> credential_ref_re r) \<and>
     (case j_old_credential_ref j of None \<Rightarrow> True | Some r \<Rightarrow> credential_ref_re r)"

definition valid_job :: "enrollment_job \<Rightarrow> bool" where
  "valid_job j \<longleftrightarrow> valid_identity j \<and> valid_ssh j \<and> valid_request j \<and> valid_rotation j \<and>
     valid_phase j \<and> valid_recovery j \<and> valid_cli_claim j \<and> valid_receipt j \<and> valid_pin j \<and>
     valid_references j"

definition validate_job :: "enrollment_job \<Rightarrow> registry_error + unit" where
  "validate_job j = (if valid_job j then Inr () else Inl RegistryInvariantError)"

lemma validate_job_simps [simp]:
  "validate_job j = Inr u \<longleftrightarrow> valid_job j"
  "validate_job j = Inl e \<longleftrightarrow> \<not> valid_job j \<and> e = RegistryInvariantError"
  by (auto simp: validate_job_def)

section \<open>Validation against the schema\<close>

text \<open>
  The two things the schema refuses and \<open>_validate_job\<close> lets pass: an IPv6 address with
  a scope, and an old registry revision below 1 (which is read from a stored agent, whose
  revision the schema keeps positive).
\<close>

definition unscoped :: "string option \<Rightarrow> bool" where
  "unscoped x \<longleftrightarrow> (case x of None \<Rightarrow> True | Some s \<Rightarrow> CHR 0x25 \<notin> set s)"

definition storable :: "enrollment_job \<Rightarrow> bool" where
  "storable j \<longleftrightarrow> unscoped (j_validated_http_address j) \<and> unscoped (j_cli_pinned_address j) \<and>
     (case j_old_registry_revision j of None \<Rightarrow> True | Some r \<Rightarrow> 1 \<le> r)"

lemma valid_cli_claim_check:
  assumes "valid_cli_claim j" and "unscoped (j_cli_pinned_address j)"
  shows "check_cli_claim j"
    and "\<forall>n\<in>set_option (j_cli_resume_nonce j). check_uuid_text n"
    and "\<forall>u\<in>set_option (j_cli_peer_uid j). 0 \<le> u"
    and "\<forall>f\<in>set_option (j_cli_input_fingerprint j). check_hex64 f"
    and "\<forall>a\<in>set_option (j_cli_pinned_address j). check_address a"
    and "j_state j = RUNNING \<and> j_enrollment_method j = SSH_CLI \<and> j_credential_temp_ref j = None
        \<longrightarrow> j_cli_resume_nonce j \<noteq> None"
  using assms
  by (auto simp: valid_cli_claim_def no_cli_claim_def check_cli_claim_def unscoped_def
      uuid_canonical_check hex64_check canonical_ip_check split: if_splits option.splits)

lemma valid_pin_check: "valid_pin j \<Longrightarrow> valid_phase j \<Longrightarrow> check_pinned j"
  by (cases "j_state j")
    (auto simp: valid_pin_def valid_phase_def check_pinned_def credential_pin_required_def
      credential_state_def)

lemma valid_receipt_check: "valid_receipt j \<Longrightarrow> check_receipt j"
  by (auto simp: valid_receipt_def check_receipt_def no_cli_claim_def hex64_check
      split: option.splits)

lemma nonempty_Some: "nonempty x \<Longrightarrow> x \<noteq> None"
  by (auto simp: nonempty_def split: option.splits)

lemma valid_job_check:
  assumes "valid_job j" and "storable j"
  shows "check_job j"
proof -
  have "\<forall>a\<in>set_option (j_validated_http_address j). check_address a"
    using assms by (auto simp: valid_job_def valid_recovery_def storable_def unscoped_def
        canonical_ip_check split: option.splits)
  moreover have "\<forall>r\<in>set_option (j_old_registry_revision j). 1 \<le> r"
    using assms(2) by (auto simp: storable_def)
  moreover have "\<forall>p\<in>set_option (j_ssh_port j). 1 \<le> p \<and> p \<le> 65535"
    and "if ssh_method (j_enrollment_method j)
      then j_ssh_user j \<noteq> None \<and> j_ssh_host j \<noteq> None \<and> j_ssh_port j \<noteq> None
      else j_ssh_user j = None \<and> j_ssh_host j = None \<and> j_ssh_port j = None"
    using assms(1) by (auto simp: valid_job_def valid_ssh_def ssh_method_def split: if_splits)
  moreover have "check_receipt j" and "check_pinned j"
    using assms(1) valid_receipt_check valid_pin_check by (auto simp: valid_job_def)
  ultimately show ?thesis
    using assms valid_cli_claim_check [of j]
    by (auto simp: check_job_def valid_job_def valid_request_def valid_recovery_def
        valid_phase_def storable_def dest: nonempty_Some)
qed

text \<open>
  \<open>C35\<close>.  Whatever \<open>_validate_job\<close> accepts satisfies every \<open>CHECK\<close> constraint of
  \<open>agent_enrollment_jobs\<close>, provided the two addresses carry no IPv6 scope and the captured
  registry revision is positive: the Python check and the schema check agree, so an
  \<open>IntegrityError\<close> after validation can only be a duplicate id or a missing agent.
\<close>

theorem validate_job_implies_schema:
  assumes "validate_job j = Inr ()"
    and "unscoped (j_validated_http_address j)" and "unscoped (j_cli_pinned_address j)"
    and "\<forall>r\<in>set_option (j_old_registry_revision j). 1 \<le> r"
  shows "check_job j"
  using assms by (intro valid_job_check) (auto simp: storable_def split: option.splits)

section \<open>Column codec\<close>

datatype sqlval = SNull | SInt int | SText string | STime instant

definition opt_text :: "string option \<Rightarrow> sqlval" where
  "opt_text x = (case x of None \<Rightarrow> SNull | Some s \<Rightarrow> SText s)"

definition opt_int :: "int option \<Rightarrow> sqlval" where
  "opt_int x = (case x of None \<Rightarrow> SNull | Some n \<Rightarrow> SInt n)"

definition opt_time :: "instant option \<Rightarrow> sqlval" where
  "opt_time x = (case x of None \<Rightarrow> SNull | Some t \<Rightarrow> STime t)"

definition sql_bool :: "bool \<Rightarrow> int" where
  "sql_bool b = (if b then 1 else 0)"

definition values_of_job :: "enrollment_job \<Rightarrow> sqlval list" where
  "values_of_job j =
     [SText (j_enrollment_id j), SText (j_manager_id j), SText (state_value (j_state j)),
      SText (j_normalized_endpoint j), SText (j_transport_profile_id j),
      opt_text (j_discovery_result_id j), opt_text (j_replace_agent_id j),
      opt_text (j_requested_display_name j), opt_text (j_ssh_user j), opt_text (j_ssh_host j),
      opt_int (j_ssh_port j), SText (method_value (j_enrollment_method j)),
      opt_text (j_remote_instance_id j), opt_text (j_remote_credential_id j),
      opt_text (j_credential_temp_ref j), opt_text (j_old_credential_ref j),
      opt_text (j_old_remote_credential_id j), SInt (sql_bool (j_save_requested j)),
      STime (j_expires_at j), opt_text (j_last_error_code j), STime (j_created_at j),
      STime (j_updated_at j), opt_text (j_recovery_owner j), opt_time (j_recovery_lease_until j),
      SInt (j_recovery_revision j), opt_text (j_validated_http_address j),
      opt_text (j_cli_resume_nonce j), opt_int (j_cli_peer_uid j),
      opt_text (j_cli_input_fingerprint j), opt_text (j_cli_pinned_address j),
      opt_text (j_cli_accept_receipt j), opt_text (j_old_normalized_endpoint j),
      opt_text (j_old_transport_profile_id j), opt_text (j_old_instance_id j),
      opt_int (j_old_registry_revision j),
      opt_text (map_option method_value (j_old_enrollment_method j)), opt_text (j_old_source j),
      opt_int (map_option sql_bool (j_old_enabled j)),
      opt_text (j_old_display_name j)]"

text \<open>Reading a column back; \<open>EnrollmentState(x)\<close> raises \<open>ValueError\<close> on an unknown text.\<close>

fun get_text :: "sqlval \<Rightarrow> string option" where
  "get_text (SText s) = Some s"
| "get_text _ = None"

fun get_int :: "sqlval \<Rightarrow> int option" where
  "get_int (SInt n) = Some n"
| "get_int _ = None"

fun get_time :: "sqlval \<Rightarrow> instant option" where
  "get_time (STime t) = Some t"
| "get_time _ = None"

definition all_states :: "enrollment_state list" where
  "all_states = [PENDING, RUNNING, AWAITING_CLI, CREDENTIAL_ISSUED, VERIFYING, VERIFIED,
     ACTIVATION_REQUESTED, ACTIVATED, CONSUMED, CANCELLED, FAILED, EXPIRED]"

definition all_methods :: "enrollment_method list" where
  "all_methods = [SSH_AUTO, SSH_CLI, SSH_SERVICE_KEY, LOCAL_SOCKET, LEGACY_ADMIN_TOKEN]"

definition state_of_value :: "string \<Rightarrow> enrollment_state option" where
  "state_of_value v = find (\<lambda>s. state_value s = v) all_states"

definition method_of_value :: "string \<Rightarrow> enrollment_method option" where
  "method_of_value v = find (\<lambda>m. method_value m = v) all_methods"

definition optional_method :: "string option \<Rightarrow> enrollment_method option option" where
  "optional_method x = (case x of None \<Rightarrow> Some None
     | Some v \<Rightarrow> map_option Some (method_of_value v))"

definition bool_of_int :: "int \<Rightarrow> bool" where
  "bool_of_int n \<longleftrightarrow> n \<noteq> 0"

definition job_of_values :: "sqlval list \<Rightarrow> enrollment_job option" where
  "job_of_values row =
     (case (get_text (row ! 0), get_text (row ! 1), Option.bind (get_text (row ! 2)) state_of_value,
            get_text (row ! 3), get_text (row ! 4),
            Option.bind (get_text (row ! 11)) method_of_value, get_int (row ! 17),
            get_time (row ! 18), get_time (row ! 20), get_time (row ! 21), get_int (row ! 24),
            optional_method (get_text (row ! 35))) of
        (Some eid, Some mid, Some st, Some ep, Some prof, Some meth, Some save, Some expires,
         Some created, Some updated, Some rrev, Some oldm) \<Rightarrow>
        if length row \<noteq> 39 then None else Some
         \<lparr>j_enrollment_id = eid, j_manager_id = mid, j_state = st, j_normalized_endpoint = ep,
          j_transport_profile_id = prof, j_discovery_result_id = get_text (row ! 5),
          j_replace_agent_id = get_text (row ! 6), j_requested_display_name = get_text (row ! 7),
          j_ssh_user = get_text (row ! 8), j_ssh_host = get_text (row ! 9),
          j_ssh_port = get_int (row ! 10), j_enrollment_method = meth,
          j_remote_instance_id = get_text (row ! 12), j_remote_credential_id = get_text (row ! 13),
          j_credential_temp_ref = get_text (row ! 14), j_old_credential_ref = get_text (row ! 15),
          j_old_remote_credential_id = get_text (row ! 16), j_save_requested = bool_of_int save,
          j_expires_at = expires, j_last_error_code = get_text (row ! 19), j_created_at = created,
          j_updated_at = updated, j_recovery_owner = get_text (row ! 22),
          j_recovery_lease_until = get_time (row ! 23), j_recovery_revision = rrev,
          j_validated_http_address = get_text (row ! 25), j_cli_resume_nonce = get_text (row ! 26),
          j_cli_peer_uid = get_int (row ! 27), j_cli_input_fingerprint = get_text (row ! 28),
          j_cli_pinned_address = get_text (row ! 29), j_cli_accept_receipt = get_text (row ! 30),
          j_old_normalized_endpoint = get_text (row ! 31),
          j_old_transport_profile_id = get_text (row ! 32), j_old_instance_id = get_text (row ! 33),
          j_old_registry_revision = get_int (row ! 34), j_old_enrollment_method = oldm,
          j_old_source = get_text (row ! 36),
          j_old_enabled = map_option bool_of_int (get_int (row ! 37)),
          j_old_display_name = get_text (row ! 38)\<rparr>
      | _ \<Rightarrow> None)"

lemma get_opt [simp]:
  "get_text (opt_text x) = x" "get_int (opt_int y) = y" "get_time (opt_time z) = z"
  by (auto simp: opt_text_def opt_int_def opt_time_def split: option.splits)

lemma state_of_value_inverse [simp]: "state_of_value (state_value s) = Some s"
  by (cases s) (simp_all add: state_of_value_def all_states_def)

lemma method_of_value_inverse [simp]: "method_of_value (method_value m) = Some m"
  by (cases m) (simp_all add: method_of_value_def all_methods_def)

lemma bool_of_int_inverse [simp]: "bool_of_int (sql_bool b) = b"
  by (simp add: bool_of_int_def sql_bool_def)

lemma optional_bool_inverse [simp]: "map_option bool_of_int (map_option sql_bool x) = x"
  by (cases x) simp_all

lemma optional_method_inverse [simp]: "optional_method (map_option method_value m) = Some m"
  by (cases m) (simp_all add: optional_method_def)

text \<open>
  The column tuple that \<open>_values\<close> writes is read back by \<open>_job\<close> as the same
  job: all 39 columns are in the same place on both sides, every enumeration value is
  recognised and every \<open>NULL\<close> survives.
\<close>

theorem job_row_roundtrip: "job_of_values (values_of_job j) = Some j"
  by (simp add: job_of_values_def values_of_job_def del: option.map_comp)

end
