(* ===== verification/Mutation_Fence.thy ===== *)
theory Mutation_Fence
  imports Enrollment_Validation
begin

text \<open>
  \<open>storage/mutation_fence.py\<close>: \<open>assert_agent_mutation_allowed\<close>, the guard every write
  to a registered agent runs inside its transaction.  An agent is fenced while a removal
  job for it is not completed, or while a saved rotation of it is not terminal, unless the
  caller is the owner of that job.
\<close>

definition foreign_removal :: "string \<Rightarrow> string option \<Rightarrow> agent_removal_job \<Rightarrow> bool" where
  "foreign_removal agent_id owner_removal_id r \<longleftrightarrow>
     r_agent_id r = agent_id \<and> r_phase r \<noteq> ''completed'' \<and>
     (case owner_removal_id of None \<Rightarrow> True | Some rid \<Rightarrow> r_removal_id r \<noteq> rid)"

definition foreign_rotation :: "string \<Rightarrow> string option \<Rightarrow> job_row \<Rightarrow> bool" where
  "foreign_rotation agent_id owner_enrollment_id r \<longleftrightarrow>
     j_replace_agent_id (row_job r) = Some agent_id \<and> j_save_requested (row_job r) \<and>
     \<not> terminal (j_state (row_job r)) \<and>
     (case owner_enrollment_id of None \<Rightarrow> True | Some eid \<Rightarrow> row_id r \<noteq> eid)"

definition mutation_allowed ::
  "manager_db \<Rightarrow> string \<Rightarrow> string option \<Rightarrow> string option \<Rightarrow> bool" where
  "mutation_allowed d agent_id owner_enrollment_id owner_removal_id \<longleftrightarrow>
     find (foreign_removal agent_id owner_removal_id) (db_removals d) = None \<and>
     find (foreign_rotation agent_id owner_enrollment_id) (db_jobs d) = None"

definition assert_agent_mutation_allowed ::
  "string \<Rightarrow> string option \<Rightarrow> string option \<Rightarrow> manager_db \<Rightarrow> registry_error + unit" where
  "assert_agent_mutation_allowed agent_id owner_enrollment_id owner_removal_id d =
     (if mutation_allowed d agent_id owner_enrollment_id owner_removal_id then Inr ()
      else Inl (RegistryConflict ''agent_mutation_in_progress''))"

lemma mutation_allowed_iff:
  "mutation_allowed d agent_id oe orm \<longleftrightarrow>
     (\<forall>r\<in>set (db_removals d). \<not> foreign_removal agent_id orm r) \<and>
     (\<forall>r\<in>set (db_jobs d). \<not> foreign_rotation agent_id oe r)"
  by (auto simp: mutation_allowed_def find_None_iff)

lemma assert_allowed_Inr [simp]:
  "assert_agent_mutation_allowed i oe orm d = Inr u \<longleftrightarrow> mutation_allowed d i oe orm"
  by (auto simp: assert_agent_mutation_allowed_def)

lemma assert_allowed_Inl [simp]:
  "assert_agent_mutation_allowed i oe orm d = Inl e \<longleftrightarrow>
     \<not> mutation_allowed d i oe orm \<and> e = RegistryConflict ''agent_mutation_in_progress''"
  by (auto simp: assert_agent_mutation_allowed_def)

end
