(* ===== verification/Enrollment_Journal.thy ===== *)
theory Enrollment_Journal
  imports Mutation_Fence "HOL-Library.Char_ord" "HOL-Library.List_Lexorder"
    "HOL-Library.Product_Lexorder"
begin

text \<open>
  \<open>EnrollmentJournalRepository\<close> of \<open>storage/enrollment_journal.py\<close>: the durable state
  machine of an enrollment.  One definition per method, with the method's guards, its SQL
  statements in order and the exceptions it raises.  A write method is a transaction
  \<open>manager_db \<Rightarrow> registry_error + result \<times> manager_db\<close>; a read method is a function of the
  database.  The failures of the storage itself (disk, locking) are outside the model; an
  \<open>IntegrityError\<close> is inside it.

  The methods are collected in \<open>journal_op\<close> and \<open>run_journal\<close>, so that a sequence of
  calls from any number of processes is a list of operations.
\<close>

section \<open>State machine\<close>

fun allowed_transitions :: "enrollment_state \<Rightarrow> enrollment_state list" where
  "allowed_transitions PENDING = [RUNNING, AWAITING_CLI, CANCELLED, EXPIRED]"
| "allowed_transitions RUNNING = [AWAITING_CLI, CREDENTIAL_ISSUED, CANCELLED, FAILED, EXPIRED]"
| "allowed_transitions AWAITING_CLI = [RUNNING, CREDENTIAL_ISSUED, CANCELLED, FAILED, EXPIRED]"
| "allowed_transitions CREDENTIAL_ISSUED = [VERIFYING, CANCELLED, EXPIRED]"
| "allowed_transitions VERIFYING = [VERIFIED, CANCELLED, FAILED, EXPIRED]"
| "allowed_transitions VERIFIED = [ACTIVATION_REQUESTED, CANCELLED, EXPIRED]"
| "allowed_transitions ACTIVATION_REQUESTED = [ACTIVATED, FAILED]"
| "allowed_transitions ACTIVATED = [CONSUMED, FAILED]"
| "allowed_transitions _ = []"

definition expirable :: "enrollment_state \<Rightarrow> bool" where
  "expirable s \<longleftrightarrow>
     s \<in> {PENDING, RUNNING, AWAITING_CLI, CREDENTIAL_ISSUED, VERIFYING, VERIFIED}"

definition recoverable :: "enrollment_state \<Rightarrow> bool" where
  "recoverable s \<longleftrightarrow>
     s \<in> {CREDENTIAL_ISSUED, VERIFYING, VERIFIED, ACTIVATION_REQUESTED, ACTIVATED}"

definition seconds :: "int \<Rightarrow> int" where
  "seconds n = n * 1000000"

section \<open>SET clauses\<close>

definition set_expired :: "instant \<Rightarrow> enrollment_job \<Rightarrow> enrollment_job" where
  "set_expired now j = j\<lparr>j_state := EXPIRED, j_updated_at := now\<rparr>"

definition clear_claims :: "enrollment_job \<Rightarrow> enrollment_job" where
  "clear_claims j = j\<lparr>j_recovery_owner := None, j_recovery_lease_until := None,
     j_recovery_revision := j_recovery_revision j + 1, j_cli_resume_nonce := None,
     j_cli_peer_uid := None, j_cli_input_fingerprint := None, j_cli_pinned_address := None,
     j_cli_accept_receipt := None\<rparr>"

definition set_expired_cleared :: "instant \<Rightarrow> enrollment_job \<Rightarrow> enrollment_job" where
  "set_expired_cleared now j = (clear_claims j)\<lparr>j_state := EXPIRED, j_updated_at := now\<rparr>"

definition set_moved :: "enrollment_state \<Rightarrow> instant \<Rightarrow> enrollment_job \<Rightarrow> enrollment_job" where
  "set_moved st now j = j\<lparr>j_state := st, j_updated_at := now\<rparr>"

definition set_saved :: "string \<Rightarrow> instant \<Rightarrow> enrollment_job \<Rightarrow> enrollment_job" where
  "set_saved display_name now j = j\<lparr>j_state := ACTIVATION_REQUESTED,
     j_requested_display_name := Some display_name, j_save_requested := True,
     j_updated_at := now\<rparr>"

definition set_claimed ::
  "string \<Rightarrow> instant \<Rightarrow> int \<Rightarrow> enrollment_job \<Rightarrow> enrollment_job" where
  "set_claimed owner now lease_seconds j = j\<lparr>j_recovery_owner := Some owner,
     j_recovery_lease_until := Some (now + seconds lease_seconds),
     j_recovery_revision := j_recovery_revision j + 1, j_updated_at := now\<rparr>"

definition set_renewed :: "instant \<Rightarrow> int \<Rightarrow> enrollment_job \<Rightarrow> enrollment_job" where
  "set_renewed now lease_seconds j = j\<lparr>
     j_recovery_lease_until := Some (now + seconds lease_seconds),
     j_recovery_revision := j_recovery_revision j + 1, j_updated_at := now\<rparr>"

definition set_released :: "enrollment_job \<Rightarrow> enrollment_job" where
  "set_released j = j\<lparr>j_recovery_owner := None, j_recovery_lease_until := None,
     j_recovery_revision := j_recovery_revision j + 1\<rparr>"

definition set_failed :: "string \<Rightarrow> instant \<Rightarrow> enrollment_job \<Rightarrow> enrollment_job" where
  "set_failed error_code now j = (clear_claims j)\<lparr>j_state := FAILED,
     j_last_error_code := Some error_code, j_updated_at := now\<rparr>"

definition set_residual :: "string \<Rightarrow> instant \<Rightarrow> enrollment_job \<Rightarrow> enrollment_job" where
  "set_residual error_code now j = j\<lparr>j_last_error_code := Some error_code,
     j_recovery_owner := None, j_recovery_lease_until := None,
     j_recovery_revision := j_recovery_revision j + 1, j_updated_at := now\<rparr>"

definition set_marked :: "string \<Rightarrow> instant \<Rightarrow> enrollment_job \<Rightarrow> enrollment_job" where
  "set_marked error_code now j = j\<lparr>j_last_error_code := Some error_code,
     j_recovery_revision := j_recovery_revision j + 1, j_updated_at := now\<rparr>"

definition set_cleaned :: "instant \<Rightarrow> enrollment_job \<Rightarrow> enrollment_job" where
  "set_cleaned now j = j\<lparr>j_credential_temp_ref := None, j_validated_http_address := None,
     j_last_error_code := (if j_last_error_code j = Some ''credential_cleanup_failed''
       then None else j_last_error_code j),
     j_updated_at := now\<rparr>"

definition set_cleanup_failed :: "instant \<Rightarrow> enrollment_job \<Rightarrow> enrollment_job" where
  "set_cleanup_failed now j = j\<lparr>
     j_last_error_code := (if j_last_error_code j = None
         \<or> j_last_error_code j = Some ''credential_cleanup_failed''
       then Some ''credential_cleanup_failed'' else j_last_error_code j),
     j_updated_at := now\<rparr>"

section \<open>Reads\<close>

definition journal_get :: "string \<Rightarrow> manager_db \<Rightarrow> enrollment_job option" where
  "journal_get enrollment_id d =
     map_option row_job (find (\<lambda>r. row_id r = enrollment_id) (db_jobs d))"

definition active_count :: "manager_db \<Rightarrow> nat" where
  "active_count d = rowcount (\<lambda>r. \<not> terminal (j_state (row_job r))) (db_jobs d)"

definition list_non_terminal :: "manager_db \<Rightarrow> enrollment_job list" where
  "list_non_terminal d = sort_key (\<lambda>j. (j_created_at j, j_enrollment_id j))
     (filter (\<lambda>j. \<not> terminal (j_state j)) (map row_job (db_jobs d)))"

definition list_terminal_cleanup :: "manager_db \<Rightarrow> enrollment_job list" where
  "list_terminal_cleanup d = sort_key (\<lambda>j. (j_updated_at j, j_enrollment_id j))
     (filter (\<lambda>j. j_state j \<in> {CANCELLED, FAILED, EXPIRED} \<and> j_credential_temp_ref j \<noteq> None)
       (map row_job (db_jobs d)))"

definition recovery_credential_references :: "manager_db \<Rightarrow> string set" where
  "recovery_credential_references d =
     \<Union> ((\<lambda>j. set_option (j_credential_temp_ref j) \<union> set_option (j_old_credential_ref j)) `
       {j \<in> row_job ` set (db_jobs d). \<not> terminal (j_state j) \<or> j_credential_temp_ref j \<noteq> None
          \<or> j_old_credential_ref j \<noteq> None})"

section \<open>Creation\<close>

abbreviation conflict_message :: string where
  "conflict_message \<equiv> ''enrollment job conflicts with existing state''"

definition create :: "enrollment_job \<Rightarrow> enrollment_job repo" where
  "create job d =
     (case validate_job job of Inl e \<Rightarrow> Inl e
      | Inr _ \<Rightarrow>
        (case insert_job job d of
           None \<Rightarrow> Inl (RegistryConflict conflict_message)
         | Some d' \<Rightarrow> Inr (job, d')))"

definition due :: "instant \<Rightarrow> job_row \<Rightarrow> bool" where
  "due now r \<longleftrightarrow> expirable (j_state (row_job r)) \<and> j_expires_at (row_job r) \<le> now"

definition expire_due :: "instant \<Rightarrow> manager_db \<Rightarrow> manager_db option" where
  "expire_due now d = update_jobs (due now) (set_job (set_expired now)) d"

definition create_with_capacity :: "enrollment_job \<Rightarrow> instant \<Rightarrow> int \<Rightarrow> enrollment_job repo" where
  "create_with_capacity job now max_active d =
     (case validate_job job of Inl e \<Rightarrow> Inl e
      | Inr _ \<Rightarrow>
        if max_active < 1 then Inl RegistryInvariantError
        else case expire_due now d of
          None \<Rightarrow> Inl (RegistryConflict conflict_message)
        | Some d1 \<Rightarrow>
          if max_active \<le> int (active_count d1)
          then Inl (RegistryConflict ''agent_enrollment_capacity'')
          else case insert_job job d1 of
            None \<Rightarrow> Inl (RegistryConflict conflict_message)
          | Some d2 \<Rightarrow> Inr (job, d2))"

text \<open>
  The row of \<open>discovery_results r JOIN discovery_jobs j ON j.job_id=r.job_id\<close>, and the
  statement that links a result to an enrollment (\<open>linked_enrollment_id\<close> is \<open>UNIQUE\<close>).
\<close>

definition discovery_row ::
  "string \<Rightarrow> manager_db \<Rightarrow> (discovery_result \<times> discovery_job) option" where
  "discovery_row result_id d =
     Option.bind (find (\<lambda>r. dr_result_id r = result_id) (db_discovery_results d))
       (\<lambda>r. map_option (Pair r) (find (\<lambda>j. d_job_id j = dr_job_id r) (db_discovery_jobs d)))"

definition linkable :: "string \<Rightarrow> discovery_result \<Rightarrow> bool" where
  "linkable result_id r \<longleftrightarrow> dr_result_id r = result_id \<and> dr_linked_enrollment_id r = None"

definition link_result :: "string \<Rightarrow> string \<Rightarrow> manager_db \<Rightarrow> (nat \<times> manager_db) option" where
  "link_result enrollment_id result_id d =
     (let rows = db_discovery_results d in
      if (\<exists>r\<in>set rows. linkable result_id r) \<and>
         (\<exists>r\<in>set rows. dr_linked_enrollment_id r = Some enrollment_id)
      then None
      else Some (rowcount (linkable result_id) rows,
        d\<lparr>db_discovery_results := sql_update (linkable result_id)
            (\<lambda>r. r\<lparr>dr_linked_enrollment_id := Some enrollment_id\<rparr>) rows\<rparr>))"

abbreviation validation_changed :: registry_error where
  "validation_changed \<equiv> RegistryConflict ''agent_validation_changed''"

text \<open>
  The checks between the capacity test and the insertion: the stored result must be found,
  clean, unlinked, of a completed and retained job, and agree with the request.
\<close>

definition check_discovery_target ::
  "enrollment_job \<Rightarrow> string \<Rightarrow> instant \<Rightarrow> manager_db \<Rightarrow> registry_error + unit" where
  "check_discovery_target job result_id retained_after d =
     (case discovery_row result_id d of
        None \<Rightarrow> Inl validation_changed
      | Some (r, dj) \<Rightarrow>
        if \<not> dr_found r \<or> dr_safe_error_code r \<noteq> None \<or> dr_linked_enrollment_id r \<noteq> None
           \<or> d_state dj \<noteq> DCompleted
        then Inl validation_changed
        else case d_completed_at dj of
          None \<Rightarrow> Inl RegistryError
        | Some completed \<Rightarrow>
          if completed < retained_after then Inl validation_changed
          else if j_transport_profile_id job \<noteq> dr_transport_profile_id r
          then Inl (RegistryConflict ''transport_profile_mismatch'')
          else case ip_compressed (case j_ssh_host job of None \<Rightarrow> [] | Some h \<Rightarrow> h) of
            None \<Rightarrow> Inl validation_changed
          | Some ssh_ip \<Rightarrow>
            if j_normalized_endpoint job \<noteq> dr_canonical_url r \<or> ssh_ip \<noteq> dr_ip r
            then Inl validation_changed
            else if \<exists>a\<in>set (db_agents d). a_normalized_endpoint a = dr_canonical_url r
            then Inl validation_changed
            else Inr ())"

definition create_discovery_with_capacity ::
  "enrollment_job \<Rightarrow> instant \<Rightarrow> int \<Rightarrow> int \<Rightarrow> enrollment_job repo" where
  "create_discovery_with_capacity job now max_active retention_seconds d =
     (case j_discovery_result_id job of
        None \<Rightarrow> Inl RegistryInvariantError
      | Some result_id \<Rightarrow>
        if j_replace_agent_id job \<noteq> None then Inl RegistryInvariantError
        else case validate_job job of Inl e \<Rightarrow> Inl e
        | Inr _ \<Rightarrow>
          (case expire_due now d of
             None \<Rightarrow> Inl validation_changed
           | Some d1 \<Rightarrow>
             if max_active \<le> int (active_count d1)
             then Inl (RegistryConflict ''agent_enrollment_capacity'')
             else case check_discovery_target job result_id (now - seconds retention_seconds) d1 of
               Inl e \<Rightarrow> Inl e
             | Inr _ \<Rightarrow>
               (case insert_job job d1 of
                  None \<Rightarrow> Inl validation_changed
                | Some d2 \<Rightarrow>
                  (case link_result (j_enrollment_id job) result_id d2 of
                     None \<Rightarrow> Inl validation_changed
                   | Some (n, d3) \<Rightarrow>
                     if n \<noteq> 1 then Inl validation_changed else Inr (job, d3)))))"

definition capture_agent :: "enrollment_job \<Rightarrow> agent_record \<Rightarrow> enrollment_job" where
  "capture_agent job old = job\<lparr>
     j_normalized_endpoint := a_normalized_endpoint old,
     j_transport_profile_id := a_transport_profile_id old,
     j_requested_display_name := Some (a_display_name old),
     j_old_credential_ref := Some (a_credential_ref old),
     j_old_remote_credential_id := a_remote_credential_id old,
     j_old_normalized_endpoint := Some (a_normalized_endpoint old),
     j_old_transport_profile_id := Some (a_transport_profile_id old),
     j_old_instance_id := a_instance_id old,
     j_old_registry_revision := Some (a_revision old),
     j_old_enrollment_method := Some (a_enrollment_method old),
     j_old_source := Some (a_source old),
     j_old_enabled := Some (a_enabled old),
     j_old_display_name := Some (a_display_name old)\<rparr>"

definition active_rotation :: "string \<Rightarrow> job_row \<Rightarrow> bool" where
  "active_rotation agent_id r \<longleftrightarrow> j_replace_agent_id (row_job r) = Some agent_id \<and>
     \<not> terminal (j_state (row_job r))"

definition create_rotation_with_capacity ::
  "enrollment_job \<Rightarrow> instant \<Rightarrow> int \<Rightarrow> enrollment_job repo" where
  "create_rotation_with_capacity job now max_active d =
     (case j_replace_agent_id job of
        None \<Rightarrow> Inl RegistryInvariantError
      | Some agent_id \<Rightarrow>
        (case expire_due now d of
           None \<Rightarrow> Inl (RegistryConflict ''agent_enrollment_conflict'')
         | Some d1 \<Rightarrow>
           (case find (\<lambda>a. a_agent_id a = agent_id) (db_agents d1) of
              None \<Rightarrow> Inl (RegistryConflict ''agent_not_found'')
            | Some old \<Rightarrow>
              (case assert_agent_mutation_allowed (a_agent_id old) None None d1 of
                 Inl e \<Rightarrow> Inl e
               | Inr _ \<Rightarrow>
                 if find (active_rotation (a_agent_id old)) (db_jobs d1) \<noteq> None
                 then Inl (RegistryConflict ''agent_mutation_in_progress'')
                 else let captured = capture_agent job old in
                   (case validate_job captured of Inl e \<Rightarrow> Inl e
                    | Inr _ \<Rightarrow>
                      if max_active \<le> int (active_count d1)
                      then Inl (RegistryConflict ''agent_enrollment_capacity'')
                      else case insert_job captured d1 of
                        None \<Rightarrow> Inl (RegistryConflict ''agent_enrollment_conflict'')
                      | Some d2 \<Rightarrow> Inr (captured, d2))))))"

section \<open>Consuming a rotation\<close>

definition consume_rotation ::
  "string \<Rightarrow> string \<Rightarrow> string \<Rightarrow> instant \<Rightarrow> enrollment_job repo" where
  "consume_rotation enrollment_id agent_id display_name now d =
     (case journal_get enrollment_id d of
        None \<Rightarrow> Inl (RegistryConflict ''agent_enrollment_not_found'')
      | Some job \<Rightarrow>
        if j_state job = CONSUMED then Inl (RegistryConflict ''agent_enrollment_consumed'')
        else if j_expires_at job \<le> now then Inl (RegistryConflict ''agent_enrollment_expired'')
        else if j_state job \<noteq> VERIFIED
        then Inl (RegistryConflict ''agent_enrollment_not_verified'')
        else if j_replace_agent_id job \<noteq> Some agent_id
        then Inl (RegistryConflict ''agent_enrollment_conflict'')
        else case find (\<lambda>a. a_agent_id a = agent_id) (db_agents d) of
          None \<Rightarrow> Inl (RegistryConflict ''agent_not_found'')
        | Some registered \<Rightarrow>
          if Some (a_revision registered) \<noteq> j_old_registry_revision job
             \<or> Some (a_credential_ref registered) \<noteq> j_old_credential_ref job
             \<or> a_instance_id registered \<noteq> j_old_instance_id job
          then Inl (RegistryConflict ''agent_changed'')
          else case assert_agent_mutation_allowed agent_id (Some enrollment_id) None d of
            Inl e \<Rightarrow> Inl e
          | Inr _ \<Rightarrow>
            let save = set_saved display_name now;
                P = (\<lambda>r. row_id r = enrollment_id \<and> j_state (row_job r) = VERIFIED \<and>
                  \<not> j_save_requested (row_job r)) in
            (case validate_job (save job) of Inl e \<Rightarrow> Inl e
             | Inr _ \<Rightarrow>
               (case update_jobs P (set_job save) d of
                  None \<Rightarrow> Inl RegistryError
                | Some d' \<Rightarrow>
                  if rowcount P (db_jobs d) \<noteq> 1 then Inl RevisionConflict
                  else Inr (save job, d'))))"

section \<open>Re-arming an expired local enrollment\<close>

definition rearm :: "instant \<Rightarrow> instant \<Rightarrow> enrollment_job \<Rightarrow> enrollment_job" where
  "rearm now expires_at j = j\<lparr>
     j_state := PENDING, j_discovery_result_id := None, j_replace_agent_id := None,
     j_ssh_user := None, j_ssh_host := None, j_ssh_port := None,
     j_remote_instance_id := None, j_remote_credential_id := None,
     j_credential_temp_ref := None, j_old_credential_ref := None,
     j_old_remote_credential_id := None, j_save_requested := False,
     j_expires_at := expires_at, j_last_error_code := None, j_created_at := now,
     j_updated_at := now, j_recovery_owner := None, j_recovery_lease_until := None,
     j_recovery_revision := j_recovery_revision j + 1, j_validated_http_address := None,
     j_cli_resume_nonce := None, j_cli_peer_uid := None, j_cli_input_fingerprint := None,
     j_cli_pinned_address := None, j_cli_accept_receipt := None,
     j_old_normalized_endpoint := None, j_old_transport_profile_id := None,
     j_old_instance_id := None, j_old_registry_revision := None,
     j_old_enrollment_method := None, j_old_source := None, j_old_enabled := None,
     j_old_display_name := None\<rparr>"

definition immutable_columns :: "enrollment_job \<Rightarrow> enrollment_job \<Rightarrow> enrollment_job" where
  "immutable_columns stored j = j\<lparr>
     j_enrollment_id := j_enrollment_id stored, j_manager_id := j_manager_id stored,
     j_normalized_endpoint := j_normalized_endpoint stored,
     j_transport_profile_id := j_transport_profile_id stored,
     j_requested_display_name := j_requested_display_name stored,
     j_enrollment_method := j_enrollment_method stored\<rparr>"

definition rearm_expired_local ::
  "string \<Rightarrow> string \<Rightarrow> string \<Rightarrow> string \<Rightarrow> instant \<Rightarrow> instant \<Rightarrow> enrollment_job repo" where
  "rearm_expired_local enrollment_id endpoint profile display_name now expires_at d =
     (case journal_get enrollment_id d of
        None \<Rightarrow> Inl (RegistryConflict ''agent_enrollment_not_found'')
      | Some current \<Rightarrow>
        if j_enrollment_method current \<noteq> LOCAL_SOCKET
        then Inl (RegistryConflict ''agent_enrollment_conflict'')
        else if j_normalized_endpoint current \<noteq> endpoint
           \<or> j_transport_profile_id current \<noteq> profile
           \<or> j_requested_display_name current \<noteq> Some display_name
        then Inl (RegistryConflict ''agent_enrollment_conflict'')
        else if j_state current \<notin> {CANCELLED, EXPIRED, FAILED}
           \<or> now < j_expires_at current \<or> j_credential_temp_ref current \<noteq> None
        then Inl (RegistryConflict ''local_bootstrap_retry_pending'')
        else
          let rearmed = rearm now expires_at current;
              P = (\<lambda>r. let j = row_job r in j_enrollment_id j = enrollment_id \<and>
                j_enrollment_method j = LOCAL_SOCKET \<and> j_normalized_endpoint j = endpoint \<and>
                j_transport_profile_id j = profile \<and>
                j_requested_display_name j = Some display_name \<and>
                j_state j \<in> {CANCELLED, EXPIRED, FAILED} \<and> j_expires_at j \<le> now \<and>
                j_credential_temp_ref j = None) in
          (case validate_job rearmed of Inl e \<Rightarrow> Inl e
           | Inr _ \<Rightarrow>
             (case update_jobs P (set_job (\<lambda>j. immutable_columns j rearmed)) d of
                None \<Rightarrow> Inl RegistryError
              | Some d' \<Rightarrow>
                if rowcount P (db_jobs d) \<noteq> 1 then Inl RevisionConflict
                else Inr (rearmed, d'))))"

section \<open>Compare-and-set transitions\<close>

definition set_state ::
  "string \<Rightarrow> enrollment_state \<Rightarrow> instant \<Rightarrow> enrollment_state \<Rightarrow> unit repo" where
  "set_state enrollment_id st updated_at expected_state d =
     (if st \<notin> set (allowed_transitions expected_state) then Inl RegistryInvariantError
      else
        let P = (\<lambda>r. row_id r = enrollment_id \<and> j_state (row_job r) = expected_state) in
        (case update_jobs P (set_job (set_moved st updated_at)) d of
           None \<Rightarrow> Inl RegistryError
         | Some d' \<Rightarrow>
           if rowcount P (db_jobs d) \<noteq> 1 then Inl RevisionConflict else Inr ((), d')))"

definition fence_matches ::
  "string option \<Rightarrow> int option \<Rightarrow> instant option \<Rightarrow> enrollment_job \<Rightarrow> bool" where
  "fence_matches owner revision recovery_now j \<longleftrightarrow>
     (case owner of None \<Rightarrow> True
      | Some u \<Rightarrow> j_recovery_owner j = Some u \<and> revision = Some (j_recovery_revision j) \<and>
          (case recovery_now of None \<Rightarrow> False | Some t \<Rightarrow> sql_gt (j_recovery_lease_until j) t))"

definition replace_if_state ::
  "enrollment_job \<Rightarrow> enrollment_state \<Rightarrow> string option \<Rightarrow> int option \<Rightarrow> instant option
     \<Rightarrow> enrollment_job repo" where
  "replace_if_state job expected_state owner revision recovery_now d =
     (case validate_job job of Inl e \<Rightarrow> Inl e
      | Inr _ \<Rightarrow>
        if j_state job \<notin> set (allowed_transitions expected_state)
        then Inl RegistryInvariantError
        else if owner \<noteq> None \<and> (case (revision, recovery_now) of
             (Some n, Some _) \<Rightarrow> j_recovery_revision job \<noteq> n + 1 | _ \<Rightarrow> True)
        then Inl RegistryInvariantError
        else
          let P = (\<lambda>r. row_id r = j_enrollment_id job \<and> j_state (row_job r) = expected_state \<and>
                fence_matches owner revision recovery_now (row_job r)) in
          (case update_jobs P (set_job (\<lambda>j. job\<lparr>j_enrollment_id := j_enrollment_id j\<rparr>)) d of
             None \<Rightarrow> Inl RegistryError
           | Some d' \<Rightarrow>
             if rowcount P (db_jobs d) \<noteq> 1 then Inl RevisionConflict else Inr (job, d')))"

section \<open>Dispatch claims\<close>

definition claim_pending_auto :: "string \<Rightarrow> instant \<Rightarrow> enrollment_job option repo" where
  "claim_pending_auto enrollment_id now d =
     (case update_jobs (\<lambda>r. row_id r = enrollment_id \<and> j_state (row_job r) = PENDING \<and>
             j_expires_at (row_job r) \<le> now) (set_job (set_expired now)) d of
        None \<Rightarrow> Inl RegistryError
      | Some d1 \<Rightarrow>
        let P = (\<lambda>r. row_id r = enrollment_id \<and> j_state (row_job r) = PENDING \<and>
              now < j_expires_at (row_job r)) in
        (case update_jobs P (set_job (set_moved RUNNING now)) d1 of
           None \<Rightarrow> Inl RegistryError
         | Some d2 \<Rightarrow>
           if rowcount P (db_jobs d1) \<noteq> 1 then Inr (None, d2)
           else Inr (journal_get enrollment_id d2, d2)))"

definition recheck_auto_dispatch :: "string \<Rightarrow> instant \<Rightarrow> enrollment_job option repo" where
  "recheck_auto_dispatch enrollment_id now d =
     (case update_jobs (\<lambda>r. row_id r = enrollment_id \<and> j_state (row_job r) = RUNNING \<and>
             j_expires_at (row_job r) \<le> now) (set_job (set_expired now)) d of
        None \<Rightarrow> Inl RegistryError
      | Some d' \<Rightarrow>
        Inr (map_option row_job (find (\<lambda>r. row_id r = enrollment_id \<and>
               j_state (row_job r) = RUNNING \<and> j_credential_temp_ref (row_job r) = None \<and>
               now < j_expires_at (row_job r)) (db_jobs d')), d'))"

definition recheck_cli_submission ::
  "string \<Rightarrow> string \<Rightarrow> int \<Rightarrow> instant \<Rightarrow> enrollment_job option repo" where
  "recheck_cli_submission enrollment_id owner expected_revision now d =
     (case update_jobs (\<lambda>r. row_id r = enrollment_id \<and> j_state (row_job r) = RUNNING \<and>
             j_recovery_owner (row_job r) = Some owner \<and>
             j_recovery_revision (row_job r) = expected_revision \<and>
             j_expires_at (row_job r) \<le> now) (set_job (set_expired_cleared now)) d of
        None \<Rightarrow> Inl RegistryError
      | Some d' \<Rightarrow>
        Inr (map_option row_job (find (\<lambda>r. row_id r = enrollment_id \<and>
               j_state (row_job r) = RUNNING \<and> j_enrollment_method (row_job r) = SSH_CLI \<and>
               j_recovery_owner (row_job r) = Some owner \<and>
               j_recovery_revision (row_job r) = expected_revision \<and>
               sql_gt (j_recovery_lease_until (row_job r)) now \<and>
               now < j_expires_at (row_job r)) (db_jobs d')), d'))"

section \<open>Recovery claims\<close>

definition unclaimed :: "instant \<Rightarrow> enrollment_job \<Rightarrow> bool" where
  "unclaimed now j \<longleftrightarrow> j_recovery_owner j = None \<or> sql_le (j_recovery_lease_until j) now"

definition prepare_recovery :: "instant \<Rightarrow> string list repo" where
  "prepare_recovery now d =
     (case update_jobs (due now) (set_job (set_expired_cleared now)) d of
        None \<Rightarrow> Inl RegistryError
      | Some d' \<Rightarrow>
        Inr (map j_enrollment_id (sort_key (\<lambda>j. (j_created_at j, j_enrollment_id j))
          (filter (\<lambda>j. recoverable (j_state j) \<and> unclaimed now j) (map row_job (db_jobs d')))), d'))"

definition claim_recovery ::
  "string \<Rightarrow> string \<Rightarrow> instant \<Rightarrow> int \<Rightarrow> enrollment_job option repo" where
  "claim_recovery enrollment_id owner now lease_seconds d =
     (if \<not> uuid_canonical owner \<or> lease_seconds < 1 then Inl RegistryInvariantError
      else case update_jobs (\<lambda>r. row_id r = enrollment_id \<and> due now r)
             (set_job (set_expired_cleared now)) d of
        None \<Rightarrow> Inl RegistryError
      | Some d1 \<Rightarrow>
        let P = (\<lambda>r. row_id r = enrollment_id \<and> recoverable (j_state (row_job r)) \<and>
              unclaimed now (row_job r)) in
        (case update_jobs P (set_job (set_claimed owner now lease_seconds)) d1 of
           None \<Rightarrow> Inl RegistryError
         | Some d2 \<Rightarrow>
           if rowcount P (db_jobs d1) \<noteq> 1 then Inr (None, d2)
           else Inr (journal_get enrollment_id d2, d2)))"

definition held :: "string \<Rightarrow> string \<Rightarrow> int \<Rightarrow> job_row \<Rightarrow> bool" where
  "held enrollment_id owner expected_revision r \<longleftrightarrow> row_id r = enrollment_id \<and>
     j_recovery_owner (row_job r) = Some owner \<and>
     j_recovery_revision (row_job r) = expected_revision"

definition lease_live :: "instant \<Rightarrow> job_row \<Rightarrow> bool" where
  "lease_live now r \<longleftrightarrow> sql_gt (j_recovery_lease_until (row_job r)) now"

definition renew_recovery_claim ::
  "string \<Rightarrow> string \<Rightarrow> int \<Rightarrow> instant \<Rightarrow> int \<Rightarrow> enrollment_job option repo" where
  "renew_recovery_claim enrollment_id owner expected_revision now lease_seconds d =
     (if lease_seconds < 1 \<or> expected_revision < 1 then Inl RegistryInvariantError
      else
        let P = (\<lambda>r. held enrollment_id owner expected_revision r \<and> lease_live now r) in
        (case update_jobs P (set_job (set_renewed now lease_seconds)) d of
           None \<Rightarrow> Inl RegistryError
         | Some d' \<Rightarrow>
           if rowcount P (db_jobs d) \<noteq> 1 then Inr (None, d')
           else Inr (journal_get enrollment_id d', d')))"

definition release_recovery_claim :: "string \<Rightarrow> string \<Rightarrow> int \<Rightarrow> instant \<Rightarrow> bool repo" where
  "release_recovery_claim enrollment_id owner expected_revision now d =
     (let P = (\<lambda>r. held enrollment_id owner expected_revision r \<and> lease_live now r) in
      case update_jobs P (set_job set_released) d of
        None \<Rightarrow> Inl RegistryError
      | Some d' \<Rightarrow> Inr (rowcount P (db_jobs d) = 1, d'))"

definition fail_recovery_claim ::
  "string \<Rightarrow> string \<Rightarrow> int \<Rightarrow> string \<Rightarrow> instant \<Rightarrow> bool repo" where
  "fail_recovery_claim enrollment_id owner expected_revision error_code now d =
     (if \<not> error_code_re error_code then Inl RegistryInvariantError
      else
        let P = (\<lambda>r. held enrollment_id owner expected_revision r \<and> lease_live now r) in
        (case update_jobs P (set_job (set_failed error_code now)) d of
           None \<Rightarrow> Inl RegistryError
         | Some d' \<Rightarrow> Inr (rowcount P (db_jobs d) = 1, d')))"

definition release_recovery_residual ::
  "string \<Rightarrow> string \<Rightarrow> int \<Rightarrow> string \<Rightarrow> instant \<Rightarrow> bool repo" where
  "release_recovery_residual enrollment_id owner expected_revision error_code now d =
     (if \<not> error_code_re error_code then Inl RegistryInvariantError
      else
        let P = (\<lambda>r. held enrollment_id owner expected_revision r \<and>
              j_state (row_job r) \<in> {ACTIVATION_REQUESTED, ACTIVATED}) in
        (case update_jobs P (set_job (set_residual error_code now)) d of
           None \<Rightarrow> Inl RegistryError
         | Some d' \<Rightarrow> Inr (rowcount P (db_jobs d) = 1, d')))"

definition mark_recovery_claim_error ::
  "string \<Rightarrow> string \<Rightarrow> int \<Rightarrow> string \<Rightarrow> instant \<Rightarrow> bool repo" where
  "mark_recovery_claim_error enrollment_id owner expected_revision error_code now d =
     (if \<not> error_code_re error_code then Inl RegistryInvariantError
      else
        let P = (\<lambda>r. held enrollment_id owner expected_revision r \<and> lease_live now r \<and>
              j_state (row_job r) = ACTIVATED) in
        (case update_jobs P (set_job (set_marked error_code now)) d of
           None \<Rightarrow> Inl RegistryError
         | Some d' \<Rightarrow> Inr (rowcount P (db_jobs d) = 1, d')))"

section \<open>Cleanup of terminal jobs\<close>

definition cleanup_row :: "string \<Rightarrow> enrollment_state \<Rightarrow> string \<Rightarrow> job_row \<Rightarrow> bool" where
  "cleanup_row enrollment_id st expected_reference r \<longleftrightarrow> row_id r = enrollment_id \<and>
     j_state (row_job r) = st \<and> j_credential_temp_ref (row_job r) = Some expected_reference"

definition finish_terminal_cleanup ::
  "string \<Rightarrow> enrollment_state \<Rightarrow> string \<Rightarrow> instant \<Rightarrow> enrollment_job option repo" where
  "finish_terminal_cleanup enrollment_id st expected_reference now d =
     (if st \<notin> {CANCELLED, FAILED, EXPIRED} then Inl RegistryInvariantError
      else
        let P = cleanup_row enrollment_id st expected_reference in
        (case update_jobs P (set_job (set_cleaned now)) d of
           None \<Rightarrow> Inl RegistryError
         | Some d' \<Rightarrow>
           if rowcount P (db_jobs d) \<noteq> 1 then Inl RevisionConflict
           else Inr (journal_get enrollment_id d', d')))"

definition mark_terminal_cleanup_failed ::
  "string \<Rightarrow> enrollment_state \<Rightarrow> string \<Rightarrow> instant \<Rightarrow> enrollment_job option repo" where
  "mark_terminal_cleanup_failed enrollment_id st expected_reference now d =
     (let P = cleanup_row enrollment_id st expected_reference in
      case update_jobs P (set_job (set_cleanup_failed now)) d of
        None \<Rightarrow> Inl RegistryError
      | Some d' \<Rightarrow>
        if rowcount P (db_jobs d) \<noteq> 1 then Inl RevisionConflict
        else Inr (journal_get enrollment_id d', d'))"

section \<open>The repository as a transaction system\<close>

datatype journal_op =
    OCreate enrollment_job
  | OCreateCapacity enrollment_job instant int
  | OCreateDiscovery enrollment_job instant int int
  | OCreateRotation enrollment_job instant int
  | OConsumeRotation string string string instant
  | ORearm string string string string instant instant
  | OSetState string enrollment_state instant enrollment_state
  | OReplace enrollment_job enrollment_state "string option" "int option" "instant option"
  | OClaimAuto string instant
  | ORecheckAuto string instant
  | ORecheckCli string string int instant
  | OPrepare instant
  | OClaim string string instant int
  | ORenew string string int instant int
  | ORelease string string int instant
  | OFail string string int string instant
  | OResidual string string int string instant
  | OMarkError string string int string instant
  | OFinishCleanup string enrollment_state string instant
  | OMarkCleanup string enrollment_state string instant

datatype journal_reply =
    RJob enrollment_job | ROptJob "enrollment_job option" | RBool bool | RIds "string list" | RUnit

definition reply :: "('a \<Rightarrow> journal_reply) \<Rightarrow> registry_error + 'a \<times> manager_db
    \<Rightarrow> registry_error + journal_reply \<times> manager_db" where
  "reply g r = (case r of Inl e \<Rightarrow> Inl e | Inr (v, d) \<Rightarrow> Inr (g v, d))"

fun run_journal :: "journal_op \<Rightarrow> journal_reply repo" where
  "run_journal (OCreate j) d = reply RJob (create j d)"
| "run_journal (OCreateCapacity j now m) d = reply RJob (create_with_capacity j now m d)"
| "run_journal (OCreateDiscovery j now m ret) d =
     reply RJob (create_discovery_with_capacity j now m ret d)"
| "run_journal (OCreateRotation j now m) d = reply RJob (create_rotation_with_capacity j now m d)"
| "run_journal (OConsumeRotation e a n now) d = reply RJob (consume_rotation e a n now d)"
| "run_journal (ORearm e ep pr n now ex) d = reply RJob (rearm_expired_local e ep pr n now ex d)"
| "run_journal (OSetState e s now s0) d = reply (\<lambda>_. RUnit) (set_state e s now s0 d)"
| "run_journal (OReplace j s0 u n t) d = reply RJob (replace_if_state j s0 u n t d)"
| "run_journal (OClaimAuto e now) d = reply ROptJob (claim_pending_auto e now d)"
| "run_journal (ORecheckAuto e now) d = reply ROptJob (recheck_auto_dispatch e now d)"
| "run_journal (ORecheckCli e u n now) d = reply ROptJob (recheck_cli_submission e u n now d)"
| "run_journal (OPrepare now) d = reply RIds (prepare_recovery now d)"
| "run_journal (OClaim e u now l) d = reply ROptJob (claim_recovery e u now l d)"
| "run_journal (ORenew e u n now l) d = reply ROptJob (renew_recovery_claim e u n now l d)"
| "run_journal (ORelease e u n now) d = reply RBool (release_recovery_claim e u n now d)"
| "run_journal (OFail e u n c now) d = reply RBool (fail_recovery_claim e u n c now d)"
| "run_journal (OResidual e u n c now) d = reply RBool (release_recovery_residual e u n c now d)"
| "run_journal (OMarkError e u n c now) d = reply RBool (mark_recovery_claim_error e u n c now d)"
| "run_journal (OFinishCleanup e s ref now) d = reply ROptJob (finish_terminal_cleanup e s ref now d)"
| "run_journal (OMarkCleanup e s ref now) d =
     reply ROptJob (mark_terminal_cleanup_failed e s ref now d)"

end
