(* ===== verification/Journal_Machine.thy ===== *)
theory Journal_Machine
  imports Enrollment_Journal
begin

text \<open>
  The enrollment journal as a labelled transition system.  \<open>journal_step x j j'\<close> is what
  the call \<open>x\<close> may do to a stored job: one rule per \<open>UPDATE\<close> statement of the repository,
  with the statement's \<open>WHERE\<close> clause as premises and its \<open>SET\<close> clause as the new job.
  \<open>run_journal_refines\<close> shows that every repository method, applied to a database that
  satisfies the schema, moves every stored job along \<open>journal_step\<close> (or not at all), never
  removes or reorders a row, appends at most the job it creates and keeps the schema
  constraints.  The properties of jobs are then case analyses of \<open>journal_step\<close>, and the
  lemmas of \<open>txn_system\<close> carry them to every history of calls.
\<close>

section \<open>The step relation of a job\<close>

fun creation_time :: "journal_op \<Rightarrow> instant option" where
  "creation_time (OCreateCapacity _ now _) = Some now"
| "creation_time (OCreateDiscovery _ now _ _) = Some now"
| "creation_time (OCreateRotation _ now _) = Some now"
| "creation_time _ = None"

inductive journal_step :: "journal_op \<Rightarrow> enrollment_job \<Rightarrow> enrollment_job \<Rightarrow> bool" where
  expire_on_create: "creation_time x = Some now \<Longrightarrow> expirable (j_state j) \<Longrightarrow> j_expires_at j \<le> now \<Longrightarrow>
     journal_step x j (set_expired now j)"
| consume: "j_enrollment_id j = e \<Longrightarrow> j_state j = VERIFIED \<Longrightarrow> \<not> j_save_requested j \<Longrightarrow>
     now < j_expires_at j \<Longrightarrow> j_replace_agent_id j = Some a \<Longrightarrow>
     journal_step (OConsumeRotation e a n now) j (set_saved n now j)"
| rearmed: "j_enrollment_id j = e \<Longrightarrow> j_enrollment_method j = LOCAL_SOCKET \<Longrightarrow>
     j_state j \<in> {CANCELLED, EXPIRED, FAILED} \<Longrightarrow> j_expires_at j \<le> now \<Longrightarrow>
     j_credential_temp_ref j = None \<Longrightarrow> journal_step (ORearm e ep pr n now ex) j (rearm now ex j)"
| move: "j_enrollment_id j = e \<Longrightarrow> j_state j = st0 \<Longrightarrow> st \<in> set (allowed_transitions st0) \<Longrightarrow>
     journal_step (OSetState e st now st0) j (set_moved st now j)"
| replaced: "j_enrollment_id j = j_enrollment_id j' \<Longrightarrow> j_state j = st0 \<Longrightarrow>
     j_state j' \<in> set (allowed_transitions st0) \<Longrightarrow> valid_job j' \<Longrightarrow> fence_matches u n t j \<Longrightarrow>
     u = None \<or> j_recovery_revision j' = j_recovery_revision j + 1 \<Longrightarrow>
     journal_step (OReplace j' st0 u n t) j j'"
| auto_expired: "j_enrollment_id j = e \<Longrightarrow> j_state j = PENDING \<Longrightarrow> j_expires_at j \<le> now \<Longrightarrow>
     journal_step (OClaimAuto e now) j (set_expired now j)"
| auto_claimed: "j_enrollment_id j = e \<Longrightarrow> j_state j = PENDING \<Longrightarrow> now < j_expires_at j \<Longrightarrow>
     journal_step (OClaimAuto e now) j (set_moved RUNNING now j)"
| auto_rechecked: "j_enrollment_id j = e \<Longrightarrow> j_state j = RUNNING \<Longrightarrow> j_expires_at j \<le> now \<Longrightarrow>
     journal_step (ORecheckAuto e now) j (set_expired now j)"
| cli_rechecked: "j_enrollment_id j = e \<Longrightarrow> j_state j = RUNNING \<Longrightarrow> j_recovery_owner j = Some u \<Longrightarrow>
     j_recovery_revision j = n \<Longrightarrow> j_expires_at j \<le> now \<Longrightarrow>
     journal_step (ORecheckCli e u n now) j (set_expired_cleared now j)"
| prepared: "expirable (j_state j) \<Longrightarrow> j_expires_at j \<le> now \<Longrightarrow>
     journal_step (OPrepare now) j (set_expired_cleared now j)"
| claim_expired: "j_enrollment_id j = e \<Longrightarrow> expirable (j_state j) \<Longrightarrow> j_expires_at j \<le> now \<Longrightarrow>
     journal_step (OClaim e u now l) j (set_expired_cleared now j)"
| claimed: "j_enrollment_id j = e \<Longrightarrow> recoverable (j_state j) \<Longrightarrow> unclaimed now j \<Longrightarrow>
     uuid_canonical u \<Longrightarrow> 1 \<le> l \<Longrightarrow> journal_step (OClaim e u now l) j (set_claimed u now l j)"
| renewed: "j_enrollment_id j = e \<Longrightarrow> j_recovery_owner j = Some u \<Longrightarrow> j_recovery_revision j = n \<Longrightarrow>
     sql_gt (j_recovery_lease_until j) now \<Longrightarrow>
     journal_step (ORenew e u n now l) j (set_renewed now l j)"
| released: "j_enrollment_id j = e \<Longrightarrow> j_recovery_owner j = Some u \<Longrightarrow> j_recovery_revision j = n \<Longrightarrow>
     sql_gt (j_recovery_lease_until j) now \<Longrightarrow>
     journal_step (ORelease e u n now) j (set_released j)"
| failed: "j_enrollment_id j = e \<Longrightarrow> j_recovery_owner j = Some u \<Longrightarrow> j_recovery_revision j = n \<Longrightarrow>
     sql_gt (j_recovery_lease_until j) now \<Longrightarrow>
     journal_step (OFail e u n c now) j (set_failed c now j)"
| residual: "j_enrollment_id j = e \<Longrightarrow> j_recovery_owner j = Some u \<Longrightarrow> j_recovery_revision j = n \<Longrightarrow>
     j_state j \<in> {ACTIVATION_REQUESTED, ACTIVATED} \<Longrightarrow>
     journal_step (OResidual e u n c now) j (set_residual c now j)"
| marked: "j_enrollment_id j = e \<Longrightarrow> j_recovery_owner j = Some u \<Longrightarrow> j_recovery_revision j = n \<Longrightarrow>
     sql_gt (j_recovery_lease_until j) now \<Longrightarrow> j_state j = ACTIVATED \<Longrightarrow>
     journal_step (OMarkError e u n c now) j (set_marked c now j)"
| cleaned: "j_enrollment_id j = e \<Longrightarrow> j_state j = st \<Longrightarrow> st \<in> {CANCELLED, FAILED, EXPIRED} \<Longrightarrow>
     j_credential_temp_ref j = Some ref \<Longrightarrow>
     journal_step (OFinishCleanup e st ref now) j (set_cleaned now j)"
| cleanup_failed: "j_enrollment_id j = e \<Longrightarrow> j_state j = st \<Longrightarrow> j_credential_temp_ref j = Some ref \<Longrightarrow>
     journal_step (OMarkCleanup e st ref now) j (set_cleanup_failed now j)"

lemmas set_clause_defs = set_expired_def set_expired_cleared_def clear_claims_def set_moved_def
  set_saved_def rearm_def set_claimed_def set_renewed_def set_released_def set_failed_def
  set_residual_def set_marked_def set_cleaned_def set_cleanup_failed_def

lemma set_clause_id [simp]:
  "j_enrollment_id (set_expired now j) = j_enrollment_id j"
  "j_enrollment_id (set_expired_cleared now j) = j_enrollment_id j"
  "j_enrollment_id (set_moved st now j) = j_enrollment_id j"
  "j_enrollment_id (set_saved name now j) = j_enrollment_id j"
  "j_enrollment_id (rearm now ex j) = j_enrollment_id j"
  "j_enrollment_id (set_claimed owner now l j) = j_enrollment_id j"
  "j_enrollment_id (set_renewed now l j) = j_enrollment_id j"
  "j_enrollment_id (set_released j) = j_enrollment_id j"
  "j_enrollment_id (set_failed code now j) = j_enrollment_id j"
  "j_enrollment_id (set_residual code now j) = j_enrollment_id j"
  "j_enrollment_id (set_marked code now j) = j_enrollment_id j"
  "j_enrollment_id (set_cleaned now j) = j_enrollment_id j"
  "j_enrollment_id (set_cleanup_failed now j) = j_enrollment_id j"
  "j_enrollment_id (immutable_columns stored j) = j_enrollment_id stored"
  by (simp_all add: set_clause_defs immutable_columns_def)

lemma journal_step_id: "journal_step x j j' \<Longrightarrow> j_enrollment_id j' = j_enrollment_id j"
  by (erule journal_step.cases) simp_all

lemma journal_steps_id: "(journal_step x)\<^sup>*\<^sup>* j j' \<Longrightarrow> j_enrollment_id j' = j_enrollment_id j"
  by (induction rule: rtranclp_induct) (auto dest: journal_step_id)

section \<open>The jobs of two databases\<close>

text \<open>
  \<open>rows_advance x rows rows'\<close>: the same rows in the same order, each moved along
  \<open>journal_step x\<close>; \<open>jobs_advance\<close> also allows rows appended by a creation.
\<close>

definition row_advance :: "journal_op \<Rightarrow> job_row \<Rightarrow> job_row \<Rightarrow> bool" where
  "row_advance x r r' \<longleftrightarrow> (journal_step x)\<^sup>*\<^sup>* (row_job r) (row_job r') \<and>
     row_tombstone r' = row_tombstone r"

definition rows_advance :: "journal_op \<Rightarrow> manager_db \<Rightarrow> manager_db \<Rightarrow> bool" where
  "rows_advance x d d' \<longleftrightarrow> list_all2 (row_advance x) (db_jobs d) (db_jobs d')"

definition jobs_advance :: "journal_op \<Rightarrow> manager_db \<Rightarrow> manager_db \<Rightarrow> bool" where
  "jobs_advance x d d' \<longleftrightarrow> (\<exists>olds news. db_jobs d' = olds @ news \<and>
     list_all2 (row_advance x) (db_jobs d) olds)"

lemma row_advance_refl: "row_advance x r r"
  by (simp add: row_advance_def)

lemma row_advance_trans: "row_advance x a b \<Longrightarrow> row_advance x b c \<Longrightarrow> row_advance x a c"
  by (auto simp: row_advance_def)

lemma rows_advance_refl: "rows_advance x d d"
  by (simp add: rows_advance_def row_advance_refl list.rel_refl)

lemma rows_advance_trans: "rows_advance x a b \<Longrightarrow> rows_advance x b c \<Longrightarrow> rows_advance x a c"
  unfolding rows_advance_def
  by (rule list_all2_trans [of "row_advance x" "row_advance x" "row_advance x", OF row_advance_trans])

lemma rows_jobs_advance: "rows_advance x d d' \<Longrightarrow> jobs_advance x d d'"
  unfolding rows_advance_def jobs_advance_def
  by (intro exI [of _ "db_jobs d'"] exI [of _ "[]"]) simp

lemma rows_then_jobs:
  assumes "rows_advance x a b" and "db_jobs c = db_jobs b @ news"
  shows "jobs_advance x a c"
  using assms by (auto simp: rows_advance_def jobs_advance_def)

lemma db_ok_unique: "db_ok d \<Longrightarrow> jobs_unique (db_jobs d)"
  by (simp add: db_ok_def jobs_ok_def)

lemma journal_get_iff:
  assumes "db_ok d"
  shows "journal_get i d = Some j \<longleftrightarrow> (\<exists>r\<in>set (db_jobs d). row_id r = i \<and> row_job r = j)"
proof -
  have "find (\<lambda>x. row_id x = i) (db_jobs d) = Some r \<longleftrightarrow> r \<in> set (db_jobs d) \<and> row_id r = i" for r
    using jobs_table.find_key_iff [OF db_ok_unique [OF assms]] by blast
  then show ?thesis by (auto simp: journal_get_def)
qed

lemma jobs_advance_get:
  assumes "db_ok d" and "db_ok d'" and "jobs_advance x d d'" and "journal_get i d = Some j"
  obtains j' where "journal_get i d' = Some j'" and "(journal_step x)\<^sup>*\<^sup>* j j'"
proof -
  obtain r where r: "r \<in> set (db_jobs d)" "row_id r = i" "row_job r = j"
    using assms(1,4) by (auto simp: journal_get_iff)
  obtain olds news where o: "db_jobs d' = olds @ news" "list_all2 (row_advance x) (db_jobs d) olds"
    using assms(3) by (auto simp: jobs_advance_def)
  obtain r' where r': "r' \<in> set olds" "row_advance x r r'"
    using o(2) r(1) by (metis in_set_conv_nth list_all2_conv_all_nth)
  then have s: "(journal_step x)\<^sup>*\<^sup>* j (row_job r')" using r(3) by (simp add: row_advance_def)
  then have "row_id r' = i" using r by (auto dest: journal_steps_id)
  then have "journal_get i d' = Some (row_job r')"
    using r'(1) o(1) assms(2) by (auto simp: journal_get_iff)
  then show thesis using s that by blast
qed

lemma journal_get_id: "journal_get i d = Some j \<Longrightarrow> j_enrollment_id j = i"
  by (auto simp: journal_get_def find_Some_iff)

lemma update_jobs_Some:
  "update_jobs P f d = Some d' \<Longrightarrow> d' = d\<lparr>db_jobs := sql_update P f (db_jobs d)\<rparr>"
  by (simp add: update_jobs_def split: if_splits)

lemma journal_get_update:
  assumes "db_ok d" and "update_jobs P (set_job f) d = Some d'"
    and "\<And>r. P r \<Longrightarrow> j_enrollment_id (f (row_job r)) = row_id r"
  shows "journal_get i d' = (case find (\<lambda>r. row_id r = i) (db_jobs d) of None \<Rightarrow> None
    | Some r \<Rightarrow> Some (if P r then f (row_job r) else row_job r))"
proof -
  have "find (\<lambda>x. row_id x = i) (sql_update P (set_job f) (db_jobs d))
      = map_option (\<lambda>r. if P r then set_job f r else r) (find (\<lambda>x. row_id x = i) (db_jobs d))"
    using jobs_table.find_sql_update [OF db_ok_unique [OF assms(1)], of P "set_job f" i] assms(3)
    by simp
  then show ?thesis
    by (auto simp: journal_get_def update_jobs_Some [OF assms(2)] split: option.splits)
qed

lemma update_jobs_advance:
  assumes "db_ok d" and "update_jobs P (set_job f) d = Some d'"
    and "\<And>r. P r \<Longrightarrow> j_enrollment_id (f (row_job r)) = row_id r"
    and "\<And>r. P r \<Longrightarrow> r \<in> set (db_jobs d) \<Longrightarrow> journal_step x (row_job r) (f (row_job r))"
  shows "rows_advance x d d' \<and> db_ok d'"
proof
  show "db_ok d'" by (rule update_jobs_ok [OF assms(1) _ assms(2)]) (simp add: assms(3))
  show "rows_advance x d d'"
    using assms(4)
    by (auto simp: update_jobs_Some [OF assms(2)] rows_advance_def row_advance_def sql_update_def
        list_all2_map2 intro!: list.rel_refl_strong)
qed

lemma insert_job_Some:
  "insert_job j d = Some d' \<Longrightarrow>
    d' = d\<lparr>db_jobs := db_jobs d @ [\<lparr>row_job = j, row_tombstone = None\<rparr>]\<rparr>"
  by (auto simp: insert_job_def split: if_splits)

lemma insert_job_advance:
  assumes "rows_advance x d d1 \<and> db_ok d1" and "insert_job j d1 = Some d'"
  shows "jobs_advance x d d' \<and> db_ok d'"
  using assms insert_job_ok [OF _ assms(2)]
  by (auto simp: insert_job_Some [OF assms(2)] intro: rows_then_jobs)

section \<open>Every method is a sequence of job steps\<close>

lemma link_result_jobs: "link_result i res d = Some (n, d') \<Longrightarrow> db_jobs d' = db_jobs d \<and> db_ok d' = db_ok d"
  by (auto simp: link_result_def Let_def split: if_splits)

lemma expire_due_advance:
  assumes "db_ok d" and "expire_due now d = Some d'" and "creation_time x = Some now"
  shows "rows_advance x d d' \<and> db_ok d'"
  by (rule update_jobs_advance [OF assms(1) assms(2) [unfolded expire_due_def]])
    (auto simp: due_def intro: journal_step.expire_on_create assms(3))

lemma advance_chain:
  assumes "rows_advance x a b \<and> db_ok b" and "db_ok b \<Longrightarrow> rows_advance x b c \<and> db_ok c"
  shows "rows_advance x a c \<and> db_ok c"
  using assms rows_advance_trans by blast

lemma create_update:
  "create j d = Inr (v, d') \<Longrightarrow> v = j \<and> valid_job j \<and> insert_job j d = Some d'"
  by (auto simp: create_def split: sum.splits option.splits)

lemma create_advance:
  assumes "db_ok d" and "create j d = Inr (v, d')"
  shows "jobs_advance x d d' \<and> db_ok d'"
  using create_update [OF assms(2)] assms(1) rows_advance_refl
  by (intro insert_job_advance [of x d d j d']) simp_all

lemma create_with_capacity_update:
  assumes "create_with_capacity j now m d = Inr (v, d')"
  obtains d1 where "v = j" and "valid_job j" and "expire_due now d = Some d1"
    and "int (active_count d1) < m" and "insert_job j d1 = Some d'"
  using assms that by (auto simp: create_with_capacity_def split: sum.splits option.splits if_splits)

lemma create_discovery_update:
  assumes "create_discovery_with_capacity j now m ret d = Inr (v, d')"
  obtains d1 d2 res where "v = j" and "valid_job j" and "j_discovery_result_id j = Some res"
    and "expire_due now d = Some d1" and "int (active_count d1) < m"
    and "check_discovery_target j res (now - seconds ret) d1 = Inr ()"
    and "insert_job j d1 = Some d2" and "link_result (j_enrollment_id j) res d2 = Some (1, d')"
  using assms that
  by (auto simp: create_discovery_with_capacity_def split: sum.splits option.splits if_splits)

lemma create_rotation_update:
  assumes "create_rotation_with_capacity j now m d = Inr (v, d')"
  obtains d1 a old where "j_replace_agent_id j = Some a" and "expire_due now d = Some d1"
    and "find (\<lambda>x. a_agent_id x = a) (db_agents d1) = Some old" and "v = capture_agent j old"
    and "assert_agent_mutation_allowed (a_agent_id old) None None d1 = Inr ()"
    and "find (active_rotation (a_agent_id old)) (db_jobs d1) = None" and "valid_job v"
    and "int (active_count d1) < m" and "insert_job v d1 = Some d'"
  using assms that
  by (auto simp: create_rotation_with_capacity_def Let_def split: sum.splits option.splits if_splits)

lemma capacity_methods_advance:
  assumes "db_ok d"
  shows "create_with_capacity j now m d = Inr (v, d') \<Longrightarrow>
      jobs_advance (OCreateCapacity j now m) d d' \<and> db_ok d'"
    and "create_discovery_with_capacity j now m ret d = Inr (v, d') \<Longrightarrow>
      jobs_advance (OCreateDiscovery j now m ret) d d' \<and> db_ok d'"
    and "create_rotation_with_capacity j now m d = Inr (v, d') \<Longrightarrow>
      jobs_advance (OCreateRotation j now m) d d' \<and> db_ok d'"
proof -
  assume "create_with_capacity j now m d = Inr (v, d')"
  then show "jobs_advance (OCreateCapacity j now m) d d' \<and> db_ok d'"
    by (rule create_with_capacity_update) (erule insert_job_advance [rotated],
        erule expire_due_advance [OF assms], simp)
next
  assume "create_rotation_with_capacity j now m d = Inr (v, d')"
  then show "jobs_advance (OCreateRotation j now m) d d' \<and> db_ok d'"
    by (rule create_rotation_update) (erule insert_job_advance [rotated],
        erule expire_due_advance [OF assms], simp)
next
  assume "create_discovery_with_capacity j now m ret d = Inr (v, d')"
  then obtain d1 d2 res where "expire_due now d = Some d1" and d2: "insert_job j d1 = Some d2"
    and l: "link_result (j_enrollment_id j) res d2 = Some (1, d')"
    by (rule create_discovery_update)
  then have "jobs_advance (OCreateDiscovery j now m ret) d d2 \<and> db_ok d2"
    by (intro insert_job_advance [OF _ d2] expire_due_advance [OF assms]) simp_all
  then show "jobs_advance (OCreateDiscovery j now m ret) d d' \<and> db_ok d'"
    using link_result_jobs [OF l] by (simp add: jobs_advance_def)
qed

lemma consume_rotation_update:
  assumes "consume_rotation e a n now d = Inr (v, d')"
  obtains j where "journal_get e d = Some j" and "v = set_saved n now j" and "valid_job v"
    and "j_state j = VERIFIED" and "now < j_expires_at j" and "j_replace_agent_id j = Some a"
    and "update_jobs (\<lambda>r. row_id r = e \<and> j_state (row_job r) = VERIFIED \<and>
      \<not> j_save_requested (row_job r)) (set_job (set_saved n now)) d = Some d'"
    and "assert_agent_mutation_allowed a (Some e) None d = Inr ()"
  using assms that
  by (auto simp: consume_rotation_def Let_def split: sum.splits option.splits if_splits)

lemma consume_rotation_advance:
  assumes "db_ok d" and "consume_rotation e a n now d = Inr (v, d')"
  shows "rows_advance (OConsumeRotation e a n now) d d' \<and> db_ok d'"
proof -
  obtain j where j: "journal_get e d = Some j" "now < j_expires_at j" "j_replace_agent_id j = Some a"
    and u: "update_jobs (\<lambda>r. row_id r = e \<and> j_state (row_job r) = VERIFIED \<and>
      \<not> j_save_requested (row_job r)) (set_job (set_saved n now)) d = Some d'"
    using assms(2) by (rule consume_rotation_update)
  have "row_job r = j" if "r \<in> set (db_jobs d)" and "row_id r = e" for r
    using that j(1) assms(1) journal_get_iff [of d e "row_job r"] by auto
  then show ?thesis
    using j by (intro update_jobs_advance [OF assms(1) u]) (auto intro!: journal_step.consume)
qed

lemma rearm_immutable:
  assumes "j_enrollment_id j = j_enrollment_id c" and "j_manager_id j = j_manager_id c"
    and "j_normalized_endpoint j = j_normalized_endpoint c"
    and "j_transport_profile_id j = j_transport_profile_id c"
    and "j_requested_display_name j = j_requested_display_name c"
    and "j_enrollment_method j = j_enrollment_method c"
  shows "immutable_columns j (rearm now ex c) = rearm now ex c"
  by (simp add: immutable_columns_def rearm_def assms)

definition rearmable :: "string \<Rightarrow> string \<Rightarrow> string \<Rightarrow> string \<Rightarrow> instant \<Rightarrow> job_row \<Rightarrow> bool" where
  "rearmable e ep pr n now r \<longleftrightarrow> (let j = row_job r in j_enrollment_id j = e \<and>
     j_enrollment_method j = LOCAL_SOCKET \<and> j_normalized_endpoint j = ep \<and>
     j_transport_profile_id j = pr \<and> j_requested_display_name j = Some n \<and>
     j_state j \<in> {CANCELLED, EXPIRED, FAILED} \<and> j_expires_at j \<le> now \<and>
     j_credential_temp_ref j = None)"

lemma rearm_expired_local_update:
  assumes "rearm_expired_local e ep pr n now ex d = Inr (v, d')"
  obtains c where "journal_get e d = Some c" and "v = rearm now ex c" and "valid_job v"
    and "update_jobs (rearmable e ep pr n now) (set_job (\<lambda>j. immutable_columns j v)) d = Some d'"
    and "rowcount (rearmable e ep pr n now) (db_jobs d) = 1"
  using assms that
  unfolding rearm_expired_local_def rearmable_def [abs_def] Let_def
  by (auto split: option.splits sum.splits if_splits)

lemma rearm_advance:
  assumes "db_ok d" and "rearm_expired_local e ep pr n now ex d = Inr (v, d')"
  shows "rows_advance (ORearm e ep pr n now ex) d d' \<and> db_ok d'"
proof -
  obtain c where c: "journal_get e d = Some c" and v: "v = rearm now ex c"
    and u: "update_jobs (rearmable e ep pr n now) (set_job (\<lambda>j. immutable_columns j v)) d = Some d'"
    using assms(2) by (rule rearm_expired_local_update)
  show ?thesis
  proof (rule update_jobs_advance [OF assms(1) u])
    fix r
    assume r: "rearmable e ep pr n now r" "r \<in> set (db_jobs d)"
    then have "journal_get e d = Some (row_job r)"
      using assms(1) by (auto simp: journal_get_iff rearmable_def Let_def)
    then have "row_job r = c" using c by simp
    then show "journal_step (ORearm e ep pr n now ex) (row_job r) (immutable_columns (row_job r) v)"
      using r(1) by (auto simp: v rearm_immutable rearmable_def Let_def intro: journal_step.rearmed)
  qed simp
qed

lemma set_state_advance:
  assumes "db_ok d" and "set_state e st now st0 d = Inr (v, d')"
  shows "rows_advance (OSetState e st now st0) d d' \<and> db_ok d'"
proof -
  have u: "update_jobs (\<lambda>r. row_id r = e \<and> j_state (row_job r) = st0)
      (set_job (set_moved st now)) d = Some d'" and "st \<in> set (allowed_transitions st0)"
    using assms(2) by (auto simp: set_state_def Let_def split: option.splits if_splits)
  then show ?thesis by (intro update_jobs_advance [OF assms(1) u]) (auto intro: journal_step.move)
qed

lemma job_id_update: "j_enrollment_id j = i \<Longrightarrow> j\<lparr>j_enrollment_id := i\<rparr> = j"
  by auto

lemma replace_if_state_advance:
  assumes "db_ok d" and "replace_if_state j st0 u n t d = Inr (v, d')"
  shows "rows_advance (OReplace j st0 u n t) d d' \<and> db_ok d'"
proof -
  have u: "update_jobs (\<lambda>r. row_id r = j_enrollment_id j \<and> j_state (row_job r) = st0 \<and>
      fence_matches u n t (row_job r)) (set_job (\<lambda>x. j\<lparr>j_enrollment_id := j_enrollment_id x\<rparr>)) d
      = Some d'" and "j_state j \<in> set (allowed_transitions st0)" and "valid_job j"
    and "u \<noteq> None \<longrightarrow> (\<exists>i. n = Some i \<and> j_recovery_revision j = i + 1)"
    using assms(2) by (auto simp: replace_if_state_def Let_def split: sum.splits option.splits if_splits)
  moreover from this have "fence_matches u n t x \<Longrightarrow>
      u = None \<or> j_recovery_revision j = j_recovery_revision x + 1" for x
    by (auto simp: fence_matches_def split: option.splits)
  ultimately show ?thesis
    by (intro update_jobs_advance [OF assms(1) u]) (auto simp: job_id_update intro: journal_step.replaced)
qed

lemma claim_pending_auto_advance:
  assumes "db_ok d" and "claim_pending_auto e now d = Inr (v, d')"
  shows "rows_advance (OClaimAuto e now) d d' \<and> db_ok d'"
proof -
  obtain d1 where u1: "update_jobs (\<lambda>r. row_id r = e \<and> j_state (row_job r) = PENDING \<and>
      j_expires_at (row_job r) \<le> now) (set_job (set_expired now)) d = Some d1"
    and u2: "update_jobs (\<lambda>r. row_id r = e \<and> j_state (row_job r) = PENDING \<and>
      now < j_expires_at (row_job r)) (set_job (set_moved RUNNING now)) d1 = Some d'"
    using assms(2) by (auto simp: claim_pending_auto_def Let_def split: option.splits if_splits)
  have "rows_advance (OClaimAuto e now) d d1 \<and> db_ok d1"
    by (rule update_jobs_advance [OF assms(1) u1]) (auto intro: journal_step.auto_expired)
  then show ?thesis
    by (rule advance_chain) (rule update_jobs_advance [OF _ u2], auto intro: journal_step.auto_claimed)
qed

lemma recheck_auto_advance:
  assumes "db_ok d" and "recheck_auto_dispatch e now d = Inr (v, d')"
  shows "rows_advance (ORecheckAuto e now) d d' \<and> db_ok d'"
proof -
  have u: "update_jobs (\<lambda>r. row_id r = e \<and> j_state (row_job r) = RUNNING \<and>
      j_expires_at (row_job r) \<le> now) (set_job (set_expired now)) d = Some d'"
    using assms(2) by (auto simp: recheck_auto_dispatch_def split: option.splits)
  show ?thesis
    by (rule update_jobs_advance [OF assms(1) u]) (auto intro: journal_step.auto_rechecked)
qed

lemma recheck_cli_advance:
  assumes "db_ok d" and "recheck_cli_submission e u n now d = Inr (v, d')"
  shows "rows_advance (ORecheckCli e u n now) d d' \<and> db_ok d'"
proof -
  have u: "update_jobs (\<lambda>r. row_id r = e \<and> j_state (row_job r) = RUNNING \<and>
             j_recovery_owner (row_job r) = Some u \<and>
             j_recovery_revision (row_job r) = n \<and>
             j_expires_at (row_job r) \<le> now) (set_job (set_expired_cleared now)) d = Some d'"
    using assms(2) by (auto simp: recheck_cli_submission_def split: option.splits)
  show ?thesis
    by (rule update_jobs_advance [OF assms(1) u])
      (auto intro: journal_step.cli_rechecked)
qed

lemma prepare_recovery_advance:
  assumes "db_ok d" and "prepare_recovery now d = Inr (v, d')"
  shows "rows_advance (OPrepare now) d d' \<and> db_ok d'"
proof -
  have u: "update_jobs (due now) (set_job (set_expired_cleared now)) d = Some d'"
    using assms(2) by (auto simp: prepare_recovery_def split: option.splits)
  show ?thesis
    by (rule update_jobs_advance [OF assms(1) u]) (auto simp: due_def intro: journal_step.prepared)
qed

lemma claim_recovery_update:
  assumes "claim_recovery e u now l d = Inr (v, d')"
  obtains d1 where "uuid_canonical u" and "1 \<le> l"
    and "update_jobs (\<lambda>r. row_id r = e \<and> due now r) (set_job (set_expired_cleared now)) d = Some d1"
    and "update_jobs (\<lambda>r. row_id r = e \<and> recoverable (j_state (row_job r)) \<and>
      unclaimed now (row_job r)) (set_job (set_claimed u now l)) d1 = Some d'"
  using assms that
  by (auto simp: claim_recovery_def Let_def split: option.splits if_splits)

lemma claim_recovery_advance:
  assumes "db_ok d" and "claim_recovery e u now l d = Inr (v, d')"
  shows "rows_advance (OClaim e u now l) d d' \<and> db_ok d'"
proof -
  obtain d1 where l: "uuid_canonical u" "1 \<le> l"
    and u1: "update_jobs (\<lambda>r. row_id r = e \<and> due now r) (set_job (set_expired_cleared now)) d = Some d1"
    and u2: "update_jobs (\<lambda>r. row_id r = e \<and> recoverable (j_state (row_job r)) \<and>
      unclaimed now (row_job r)) (set_job (set_claimed u now l)) d1 = Some d'"
    using assms(2) by (rule claim_recovery_update)
  have "rows_advance (OClaim e u now l) d d1 \<and> db_ok d1"
    by (rule update_jobs_advance [OF assms(1) u1]) (auto simp: due_def intro: journal_step.claim_expired)
  then show ?thesis
    by (rule advance_chain) (rule update_jobs_advance [OF _ u2], auto intro: journal_step.claimed l)
qed

lemma held_methods_update:
  "renew_recovery_claim e u n now l d = Inr (w, d') \<Longrightarrow>
    update_jobs (\<lambda>r. held e u n r \<and> lease_live now r) (set_job (set_renewed now l)) d = Some d'"
  "release_recovery_claim e u n now d = Inr (v, d') \<Longrightarrow>
    update_jobs (\<lambda>r. held e u n r \<and> lease_live now r) (set_job set_released) d = Some d'"
  "fail_recovery_claim e u n c now d = Inr (v, d') \<Longrightarrow>
    update_jobs (\<lambda>r. held e u n r \<and> lease_live now r) (set_job (set_failed c now)) d = Some d'"
  "release_recovery_residual e u n c now d = Inr (v, d') \<Longrightarrow>
    update_jobs (\<lambda>r. held e u n r \<and> j_state (row_job r) \<in> {ACTIVATION_REQUESTED, ACTIVATED})
      (set_job (set_residual c now)) d = Some d'"
  "mark_recovery_claim_error e u n c now d = Inr (v, d') \<Longrightarrow>
    update_jobs (\<lambda>r. held e u n r \<and> lease_live now r \<and> j_state (row_job r) = ACTIVATED)
      (set_job (set_marked c now)) d = Some d'"
  by (auto simp: renew_recovery_claim_def release_recovery_claim_def fail_recovery_claim_def
      release_recovery_residual_def mark_recovery_claim_error_def Let_def
      split: if_splits option.splits)

lemma held_methods_advance:
  assumes "db_ok d"
  shows "renew_recovery_claim e u n now l d = Inr (w, d') \<Longrightarrow>
      rows_advance (ORenew e u n now l) d d' \<and> db_ok d'"
    and "release_recovery_claim e u n now d = Inr (v, d') \<Longrightarrow>
      rows_advance (ORelease e u n now) d d' \<and> db_ok d'"
    and "fail_recovery_claim e u n c now d = Inr (v, d') \<Longrightarrow>
      rows_advance (OFail e u n c now) d d' \<and> db_ok d'"
    and "release_recovery_residual e u n c now d = Inr (v, d') \<Longrightarrow>
      rows_advance (OResidual e u n c now) d d' \<and> db_ok d'"
    and "mark_recovery_claim_error e u n c now d = Inr (v, d') \<Longrightarrow>
      rows_advance (OMarkError e u n c now) d d' \<and> db_ok d'"
  by ((drule held_methods_update, erule update_jobs_advance [OF assms];
      auto simp: lease_live_def held_def intro!: journal_step.intros(13-17)))+

lemma cleanup_methods_update:
  "finish_terminal_cleanup e st ref now d = Inr (v, d') \<Longrightarrow> st \<in> {CANCELLED, FAILED, EXPIRED} \<and>
    update_jobs (cleanup_row e st ref) (set_job (set_cleaned now)) d = Some d'"
  "mark_terminal_cleanup_failed e st ref now d = Inr (v, d') \<Longrightarrow>
    update_jobs (cleanup_row e st ref) (set_job (set_cleanup_failed now)) d = Some d'"
  by (auto simp: finish_terminal_cleanup_def mark_terminal_cleanup_failed_def Let_def
      split: if_splits option.splits)

lemma finish_cleanup_advance:
  assumes "db_ok d" and "finish_terminal_cleanup e st ref now d = Inr (v, d')"
  shows "rows_advance (OFinishCleanup e st ref now) d d' \<and> db_ok d'"
  using cleanup_methods_update(1) [OF assms(2)]
  by (intro update_jobs_advance [OF assms(1) conjunct2 [OF cleanup_methods_update(1) [OF assms(2)]]])
    (auto simp: cleanup_row_def intro: journal_step.cleaned)

lemma mark_cleanup_advance:
  assumes "db_ok d" and "mark_terminal_cleanup_failed e st ref now d = Inr (v, d')"
  shows "rows_advance (OMarkCleanup e st ref now) d d' \<and> db_ok d'"
  using cleanup_methods_update(2) [OF assms(2)]
  by (rule update_jobs_advance [OF assms(1)]) (auto simp: cleanup_row_def intro: journal_step.cleanup_failed)

lemmas row_method_advance = consume_rotation_advance rearm_advance set_state_advance
  replace_if_state_advance claim_pending_auto_advance recheck_auto_advance recheck_cli_advance
  prepare_recovery_advance claim_recovery_advance held_methods_advance finish_cleanup_advance
  mark_cleanup_advance

lemma reply_Inr: "reply g r = Inr (v, d) \<longleftrightarrow> (\<exists>w. r = Inr (w, d) \<and> v = g w)"
  by (auto simp: reply_def split: sum.splits prod.splits)

fun is_creation :: "journal_op \<Rightarrow> bool" where
  "is_creation (OCreate _) = True"
| "is_creation (OCreateCapacity _ _ _) = True"
| "is_creation (OCreateDiscovery _ _ _ _) = True"
| "is_creation (OCreateRotation _ _ _) = True"
| "is_creation _ = False"

lemma run_journal_rows:
  assumes "db_ok d" and "run_journal x d = Inr (v, d')" and "\<not> is_creation x"
  shows "rows_advance x d d' \<and> db_ok d'"
  using assms(2,3) by (cases x) (auto simp: reply_Inr dest: row_method_advance [OF assms(1)])

lemma run_journal_refines:
  assumes "db_ok d" and "run_journal x d = Inr (v, d')"
  shows "jobs_advance x d d' \<and> db_ok d'"
proof (cases "is_creation x")
  case True
  then show ?thesis
    using assms(2) by (cases x)
      (auto simp: reply_Inr dest: create_advance [OF assms(1)] capacity_methods_advance [OF assms(1)])
next
  case False
  then show ?thesis using run_journal_rows [OF assms] rows_jobs_advance by blast
qed

interpretation journal: txn_system run_journal db_ok
  by unfold_locales (blast dest: run_journal_refines)

end
