(* ===== verification/Journal_Samples.thy ===== *)
theory Journal_Samples
  imports Journal_Machine
begin

text \<open>
  Concrete jobs and databases on which the properties of the journal are evaluated: one job
  per phase of an enrollment, and databases that hold them.  Addresses are IPv4, times are
  microseconds.
\<close>

abbreviation uuid1 :: string where "uuid1 \<equiv> ''3f2504e0-4f89-41d3-9a0c-0305e82c3301''"
abbreviation uuid2 :: string where "uuid2 \<equiv> ''7d444840-9dc0-41d1-b245-5ffdce74fad2''"
abbreviation ref1 :: string where "ref1 \<equiv> ''0123456789abcdef0123456789abcdef0123456789abcdef''"
abbreviation hex1 :: string where
  "hex1 \<equiv> ''00112233445566778899aabbccddeeff00112233445566778899aabbccddeeff''"

definition pending_job :: "string \<Rightarrow> enrollment_job" where
  "pending_job e = \<lparr>j_enrollment_id = e, j_manager_id = uuid1, j_state = PENDING,
     j_normalized_endpoint = ''http://10.0.0.7:8100'', j_transport_profile_id = ''lab'',
     j_discovery_result_id = None, j_replace_agent_id = None, j_requested_display_name = None,
     j_ssh_user = Some ''ops'', j_ssh_host = Some ''10.0.0.7'', j_ssh_port = Some 22,
     j_enrollment_method = SSH_AUTO, j_remote_instance_id = None, j_remote_credential_id = None,
     j_credential_temp_ref = None, j_old_credential_ref = None, j_old_remote_credential_id = None,
     j_save_requested = False, j_expires_at = 600000000, j_last_error_code = None,
     j_created_at = 0, j_updated_at = 0, j_recovery_owner = None, j_recovery_lease_until = None,
     j_recovery_revision = 0, j_validated_http_address = None, j_cli_resume_nonce = None,
     j_cli_peer_uid = None, j_cli_input_fingerprint = None, j_cli_pinned_address = None,
     j_cli_accept_receipt = None, j_old_normalized_endpoint = None,
     j_old_transport_profile_id = None, j_old_instance_id = None, j_old_registry_revision = None,
     j_old_enrollment_method = None, j_old_source = None, j_old_enabled = None,
     j_old_display_name = None\<rparr>"

definition issued_job :: "string \<Rightarrow> enrollment_job" where
  "issued_job e = (pending_job e)\<lparr>j_state := CREDENTIAL_ISSUED,
     j_credential_temp_ref := Some ref1, j_validated_http_address := Some ''10.0.0.7'',
     j_remote_instance_id := Some ''inst-1'', j_remote_credential_id := Some ''cred-1''\<rparr>"

definition consumed_job :: "string \<Rightarrow> enrollment_job" where
  "consumed_job e = (pending_job e)\<lparr>j_state := CONSUMED, j_save_requested := True,
     j_requested_display_name := Some ''rack 7''\<rparr>"

definition cancelled_job :: "string \<Rightarrow> enrollment_job" where
  "cancelled_job e = (issued_job e)\<lparr>j_state := CANCELLED\<rparr>"

definition cli_job :: "string \<Rightarrow> enrollment_job" where
  "cli_job e = (pending_job e)\<lparr>j_state := RUNNING, j_enrollment_method := SSH_CLI,
     j_cli_resume_nonce := Some uuid2, j_cli_peer_uid := Some 1000,
     j_cli_input_fingerprint := Some hex1, j_cli_pinned_address := Some ''10.0.0.7'',
     j_recovery_owner := Some uuid2, j_recovery_lease_until := Some 120000000,
     j_recovery_revision := 1\<rparr>"

definition local_failed_job :: "string \<Rightarrow> enrollment_job" where
  "local_failed_job e = (pending_job e)\<lparr>j_state := FAILED, j_enrollment_method := LOCAL_SOCKET,
     j_ssh_user := None, j_ssh_host := None, j_ssh_port := None,
     j_requested_display_name := Some ''this host''\<rparr>"

definition with_jobs :: "enrollment_job list \<Rightarrow> manager_db" where
  "with_jobs js = empty_db\<lparr>db_jobs := map (\<lambda>j. \<lparr>row_job = j, row_tombstone = None\<rparr>) js\<rparr>"

abbreviation fleet_db :: manager_db where
  "fleet_db \<equiv> with_jobs [pending_job ''e1'', issued_job ''e2'', consumed_job ''e3'',
     cancelled_job ''e4'', local_failed_job ''e5'']"

lemma fleet_db_ok: "db_ok fleet_db"
  by code_simp

lemma cli_db_ok: "db_ok (with_jobs [cli_job ''c1''])"
  by code_simp

lemma sample_jobs_valid:
  "valid_job (pending_job ''e9'')" "valid_job (issued_job ''e2'')" "valid_job (cli_job ''c1'')"
  by code_simp+

lemma fleet_get:
  "journal_get ''e1'' fleet_db = Some (pending_job ''e1'')"
  "journal_get ''e2'' fleet_db = Some (issued_job ''e2'')"
  "journal_get ''e3'' fleet_db = Some (consumed_job ''e3'')"
  "journal_get ''e4'' fleet_db = Some (cancelled_job ''e4'')"
  "journal_get ''e5'' fleet_db = Some (local_failed_job ''e5'')"
  by code_simp+

theorem validate_job_implies_schema_witness: "check_job (issued_job ''e2'')"
proof (rule validate_job_implies_schema)
  show "validate_job (issued_job ''e2'') = Inr ()" using sample_jobs_valid(2) by simp
qed (code_simp+)

end
