(* ===== verification/Journal_Properties.thy ===== *)
theory Journal_Properties
  imports Journal_Samples
begin

text \<open>
  The properties of the enrollment journal: what holds in every history of calls (schema,
  finality of terminal jobs, capacity, exclusive claims, monotone fences) and what each
  method does on its branches.
\<close>

section \<open>Histories\<close>

definition some_step :: "journal_op list \<Rightarrow> enrollment_job \<Rightarrow> enrollment_job \<Rightarrow> bool" where
  "some_step xs j j' \<longleftrightarrow> (\<exists>x\<in>set xs. journal_step x j j')"

lemma journal_steps_some: "x \<in> set xs \<Longrightarrow> (journal_step x)\<^sup>*\<^sup>* j j' \<Longrightarrow> (some_step xs)\<^sup>*\<^sup>* j j'"
  by (erule rtranclp_mono [THEN predicate2D, rotated]) (auto simp: some_step_def)

lemma history_steps:
  assumes "db_ok d" and "journal_get i d = Some j"
  shows "\<exists>j'. journal_get i (history run_journal xs d) = Some j' \<and> (some_step xs)\<^sup>*\<^sup>* j j'"
proof -
  have "\<forall>j. journal_get i d = Some j \<longrightarrow>
      (\<exists>j'. journal_get i (history run_journal xs d) = Some j' \<and> (some_step xs)\<^sup>*\<^sup>* j j')"
  proof (rule journal.history_rel [OF assms(1)])
    fix d x v d'
    assume x: "x \<in> set xs" "db_ok d" "run_journal x d = Inr (v, d')"
    then have "jobs_advance x d d'" "db_ok d'" by (auto dest: run_journal_refines)
    then show "\<forall>j. journal_get i d = Some j \<longrightarrow>
        (\<exists>j'. journal_get i d' = Some j' \<and> (some_step xs)\<^sup>*\<^sup>* j j')"
      using x by (metis jobs_advance_get journal_steps_some)
  qed (auto, meson rtranclp_trans)
  then show ?thesis using assms(2) by blast
qed

text \<open>
  \<open>C1\<close>.  Refinement of the journal to its state machine: in every history of calls a
  stored enrollment is never lost, and the stored record moves only along the steps of
  \<open>journal_step\<close> of calls that were made.
\<close>

theorem journal_refines_state_machine:
  assumes "db_ok d" and "journal_get i d = Some j"
  shows "\<exists>j'. journal_get i (history run_journal xs d) = Some j' \<and>
    (\<lambda>a b. \<exists>x\<in>set xs. journal_step x a b)\<^sup>*\<^sup>* j j'"
  using history_steps [OF assms, of xs] by (simp add: some_step_def [abs_def])

theorem journal_refines_state_machine_witness:
  "\<exists>j'. journal_get ''e2'' (history run_journal [OClaim ''e2'' uuid2 5 60] fleet_db) = Some j' \<and>
    (\<lambda>a b. \<exists>x\<in>set [OClaim ''e2'' uuid2 5 60]. journal_step x a b)\<^sup>*\<^sup>* (issued_job ''e2'') j'"
  by (rule journal_refines_state_machine [OF fleet_db_ok fleet_get(2)])

section \<open>Invariants of one job over histories\<close>

text \<open>An invariant of the step relation is an invariant of every history.\<close>

lemma some_steps_inv:
  assumes "(some_step xs)\<^sup>*\<^sup>* j j'" and "I j"
    and "\<And>x a b. x \<in> set xs \<Longrightarrow> I a \<Longrightarrow> journal_step x a b \<Longrightarrow> I b"
  shows "I j'"
  using assms(1,2) by (induction rule: rtranclp_induct) (auto simp: some_step_def intro: assms(3))

lemma history_job_inv:
  assumes "db_ok d" and "journal_get i d = Some j" and "I j"
    and "\<And>x a b. x \<in> set xs \<Longrightarrow> I a \<Longrightarrow> journal_step x a b \<Longrightarrow> I b"
  shows "\<exists>j'. journal_get i (history run_journal xs d) = Some j' \<and> I j'"
proof -
  obtain j' where j': "journal_get i (history run_journal xs d) = Some j'" "(some_step xs)\<^sup>*\<^sup>* j j'"
    using history_steps [OF assms(1,2)] by blast
  have "I j'" using j'(2) assms(3) by (rule some_steps_inv) (rule assms(4))
  then show ?thesis using j'(1) by blast
qed

lemmas state_class_defs = expirable_def recoverable_def terminal_def

definition settled :: "enrollment_job \<Rightarrow> bool" where
  "settled j \<longleftrightarrow> terminal (j_state j) \<and> j_enrollment_method j \<noteq> LOCAL_SOCKET"

lemma no_transition_from_terminal: "terminal s \<Longrightarrow> allowed_transitions s = []"
  by (cases s) simp_all

lemma settled_step: "journal_step x j j' \<Longrightarrow> settled j \<Longrightarrow> settled j'"
  by (erule journal_step.cases)
    (auto simp: settled_def set_clause_defs state_class_defs no_transition_from_terminal)

text \<open>
  Terminal states are final: a consumed, cancelled, failed or expired enrollment
  of any method but \<open>LOCAL_SOCKET\<close> stays in a terminal state in every history (a
  \<open>LOCAL_SOCKET\<close> one can be re-armed by \<open>rearm_expired_local\<close>).
\<close>

theorem terminal_jobs_stay_terminal:
  assumes "db_ok d" and "journal_get i d = Some j"
    and "terminal (j_state j)" and "j_enrollment_method j \<noteq> LOCAL_SOCKET"
  shows "\<exists>j'. journal_get i (history run_journal xs d) = Some j' \<and> terminal (j_state j') \<and>
    j_enrollment_method j' \<noteq> LOCAL_SOCKET"
proof -
  have "settled j" using assms(3,4) by (simp add: settled_def)
  then show ?thesis
    using history_job_inv [OF assms(1,2), of settled xs] settled_step by (auto simp: settled_def)
qed

theorem terminal_jobs_stay_terminal_witness:
  "\<exists>j'. journal_get ''e4'' (history run_journal
      [OFinishCleanup ''e4'' CANCELLED ref1 9, OSetState ''e4'' RUNNING 9 CANCELLED] fleet_db)
      = Some j' \<and> terminal (j_state j') \<and> j_enrollment_method j' \<noteq> LOCAL_SOCKET"
  by (rule terminal_jobs_stay_terminal [OF fleet_db_ok fleet_get(4)])
    (simp_all add: cancelled_job_def issued_job_def pending_job_def)

definition spent :: "enrollment_job \<Rightarrow> enrollment_job \<Rightarrow> bool" where
  "spent j j' \<longleftrightarrow> j_state j' = CONSUMED \<and> j_recovery_owner j' = None \<and>
     j_recovery_lease_until j' = None \<and>
     j'\<lparr>j_last_error_code := j_last_error_code j, j_updated_at := j_updated_at j\<rparr> = j"

lemma spent_step: "journal_step x a b \<Longrightarrow> spent j a \<Longrightarrow> spent j b"
  by (erule journal_step.cases)
    (auto simp: spent_def state_class_defs set_cleanup_failed_def simp del: enrollment_job.equality)

lemma ok_claim_pair:
  assumes "db_ok d" and "journal_get i d = Some j"
  shows "check_job j" and "j_recovery_owner j = None \<longleftrightarrow> j_recovery_lease_until j = None"
    and "0 \<le> j_recovery_revision j"
proof -
  show "check_job j" using assms by (auto simp: journal_get_iff db_ok_def jobs_ok_def)
  then show "j_recovery_owner j = None \<longleftrightarrow> j_recovery_lease_until j = None"
    and "0 \<le> j_recovery_revision j" by (auto simp: check_job_def)
qed

lemma spent_history:
  assumes "db_ok d" and "journal_get i d = Some j"
    and "j_state j = CONSUMED" and "j_recovery_owner j = None"
  shows "\<exists>j'. journal_get i (history run_journal xs d) = Some j' \<and> spent j j'"
proof -
  have "spent j j" using assms(3,4) ok_claim_pair [OF assms(1,2)] by (simp add: spent_def)
  then show ?thesis using history_job_inv [OF assms(1,2), of "spent j" xs] spent_step by blast
qed

section \<open>Capacity\<close>

fun within_capacity :: "int \<Rightarrow> journal_op \<Rightarrow> bool" where
  "within_capacity m (OCreate _) = False"
| "within_capacity m (ORearm _ _ _ _ _ _) = False"
| "within_capacity m (OCreateCapacity _ _ k) = (k \<le> m)"
| "within_capacity m (OCreateDiscovery _ _ k _) = (k \<le> m)"
| "within_capacity m (OCreateRotation _ _ k) = (k \<le> m)"
| "within_capacity m _ = True"

lemma terminal_step:
  "journal_step x a b \<Longrightarrow> within_capacity m x \<Longrightarrow> terminal (j_state a) \<Longrightarrow> terminal (j_state b)"
  by (erule journal_step.cases)
    (auto simp: set_clause_defs state_class_defs no_transition_from_terminal)

lemma terminal_steps:
  "(journal_step x)\<^sup>*\<^sup>* a b \<Longrightarrow> within_capacity m x \<Longrightarrow> terminal (j_state a) \<Longrightarrow> terminal (j_state b)"
  by (induction rule: rtranclp_induct) (auto intro: terminal_step)

lemma rows_advance_active:
  assumes "rows_advance x d d'" and "within_capacity m x"
  shows "active_count d' \<le> active_count d"
  unfolding active_count_def
  by (rule rowcount_list_all2 [OF assms(1) [unfolded rows_advance_def]])
    (use terminal_steps [OF _ assms(2)] in \<open>auto simp: row_advance_def\<close>)

lemma insert_job_active: "insert_job j d = Some d' \<Longrightarrow> active_count d' \<le> Suc (active_count d)"
  by (drule insert_job_Some) (simp add: active_count_def)

lemma creation_active:
  assumes "is_creation x" and "within_capacity m x" and "run_journal x d = Inr (v, d')"
  shows "int (active_count d') \<le> m"
proof -
  have "\<exists>d1 j d2. int (active_count d1) < m \<and> insert_job j d1 = Some d2 \<and>
      active_count d' = active_count d2"
    using assms
    by (cases x) (force simp: reply_Inr active_count_def dest: link_result_jobs
        elim: create_with_capacity_update create_discovery_update create_rotation_update)+
  then show ?thesis by (auto dest: insert_job_active)
qed

text \<open>
  \<open>C5\<close>.  The limit on active enrollments: if every creation in a history goes through a
  capacity-checked method with a limit of at most \<open>m\<close> and no local enrollment is re-armed,
  the number of non-terminal jobs never exceeds \<open>m\<close>.
\<close>

theorem active_jobs_bounded:
  assumes "db_ok d" and "int (active_count d) \<le> m" and "\<forall>x\<in>set xs. within_capacity m x"
  shows "int (active_count (history run_journal xs d)) \<le> m"
proof -
  have "int (active_count d) \<le> m \<longrightarrow> int (active_count (history run_journal xs d)) \<le> m"
  proof (rule journal.history_rel [OF assms(1)])
    fix d x v d'
    assume x: "x \<in> set xs" "db_ok d" "run_journal x d = Inr (v, d')"
    have w: "within_capacity m x" using x(1) assms(3) by blast
    show "int (active_count d) \<le> m \<longrightarrow> int (active_count d') \<le> m"
    proof (cases "is_creation x")
      case True
      then show ?thesis using creation_active w x(3) by blast
    next
      case False
      then have "rows_advance x d d'" using run_journal_rows x(2,3) by blast
      then show ?thesis using rows_advance_active [OF _ w] by force
    qed
  qed auto
  then show ?thesis using assms(2) by blast
qed

theorem active_jobs_bounded_witness:
  "int (active_count (history run_journal
     [OCreateCapacity (pending_job ''e9'') 5 3, OCreateCapacity (pending_job ''e10'') 6 3] fleet_db)) \<le> 3"
  by (rule active_jobs_bounded [OF fleet_db_ok]) code_simp+

section \<open>Recovery claims\<close>

text \<open>
  One statement that names the primary key: the new value of the named job, and whether it
  was the one row counted.
\<close>

lemma job_update_get:
  assumes "db_ok d" and "update_jobs P (set_job f) d = Some d'"
    and "\<And>r. P r \<longleftrightarrow> Q (row_job r)" and "\<And>j. Q j \<Longrightarrow> j_enrollment_id (f j) = j_enrollment_id j"
  shows "journal_get k d' = map_option (\<lambda>j. if Q j then f j else j) (journal_get k d)"
proof -
  have "journal_get k d' = (case find (\<lambda>r. row_id r = k) (db_jobs d) of None \<Rightarrow> None
    | Some r \<Rightarrow> Some (if P r then f (row_job r) else row_job r))"
    using assms(3,4) by (intro journal_get_update [OF assms(1,2)]) auto
  also have "\<dots> = map_option (\<lambda>j. if Q j then f j else j) (journal_get k d)"
    by (cases "find (\<lambda>r. row_id r = k) (db_jobs d)") (simp_all add: journal_get_def assms(3))
  finally show ?thesis .
qed

lemma keyed_update_get:
  assumes "db_ok d" and "update_jobs P (set_job f) d = Some d'"
    and "\<And>r. P r \<longleftrightarrow> row_id r = i \<and> Q (row_job r)"
    and "\<And>j. j_enrollment_id j = i \<Longrightarrow> j_enrollment_id (f j) = i"
  shows "journal_get k d' = map_option (\<lambda>j. if k = i \<and> Q j then f j else j) (journal_get k d)"
proof -
  have "journal_get k d' = map_option (\<lambda>j. if j_enrollment_id j = i \<and> Q j then f j else j) (journal_get k d)"
    using assms(3,4) by (intro job_update_get [OF assms(1,2)]) auto
  then show ?thesis by (cases "journal_get k d") (auto dest: journal_get_id)
qed

lemma keyed_rowcount:
  assumes "db_ok d" and "\<And>r. P r \<longleftrightarrow> row_id r = i \<and> Q (row_job r)"
  shows "rowcount P (db_jobs d) = Suc 0 \<longleftrightarrow> (\<exists>j. journal_get i d = Some j \<and> Q j)"
    and "rowcount P (db_jobs d) \<le> 1"
proof -
  have P: "P = (\<lambda>r. row_id r = i \<and> Q (row_job r))" using assms(2) by auto
  show "rowcount P (db_jobs d) \<le> 1"
    unfolding P by (rule jobs_table.rowcount_key [OF db_ok_unique [OF assms(1)]])
  have "rowcount P (db_jobs d) = Suc 0 \<longleftrightarrow> (\<exists>r\<in>set (db_jobs d). row_id r = i \<and> Q (row_job r))"
    unfolding P by (rule jobs_table.rowcount_key_1 [OF db_ok_unique [OF assms(1)]])
  then show "rowcount P (db_jobs d) = Suc 0 \<longleftrightarrow> (\<exists>j. journal_get i d = Some j \<and> Q j)"
    using assms(1) by (auto simp: journal_get_iff)
qed

text \<open>A statement whose \<open>WHERE\<close> clause matches no row writes nothing.\<close>

lemma update_jobs_none:
  assumes "\<And>r. r \<in> set (db_jobs d) \<Longrightarrow> \<not> P r"
  shows "update_jobs P f d = Some d"
  using assms by (auto simp: update_jobs_def sql_update_none)

fun fenced_by :: "journal_op \<Rightarrow> (string \<times> string \<times> int) option" where
  "fenced_by (ORecheckCli e u n _) = Some (e, u, n)"
| "fenced_by (ORenew e u n _ _) = Some (e, u, n)"
| "fenced_by (ORelease e u n _) = Some (e, u, n)"
| "fenced_by (OFail e u n _ _) = Some (e, u, n)"
| "fenced_by (OResidual e u n _ _) = Some (e, u, n)"
| "fenced_by (OMarkError e u n _ _) = Some (e, u, n)"
| "fenced_by (OReplace j _ (Some u) (Some n) _) = Some (j_enrollment_id j, u, n)"
| "fenced_by _ = None"

text \<open>
  \<open>C3\<close>.  Fencing: a call that carries a claim's owner and revision changes nothing unless
  the stored job has exactly that owner and that revision, so a worker whose claim was
  taken over, released or renewed by another writer cannot write.
\<close>

theorem stale_fence_writes_nothing:
  assumes "db_ok d" and "fenced_by x = Some (e, u, n)"
    and "\<forall>j. journal_get e d = Some j \<longrightarrow> (j_recovery_owner j, j_recovery_revision j) \<noteq> (Some u, n)"
  shows "after d (run_journal x d) = d"
proof -
  have upd: "update_jobs P f d = Some d"
    if P: "\<forall>r. P r \<longrightarrow> row_id r = e \<and> j_recovery_owner (row_job r) = Some u \<and>
      j_recovery_revision (row_job r) = n" for P f
  proof (rule update_jobs_none)
    fix r
    assume "r \<in> set (db_jobs d)"
    then have "journal_get (row_id r) d = Some (row_job r)" using assms(1) by (auto simp: journal_get_iff)
    then show "\<not> P r" using P [rule_format, of r] assms(3) by auto
  qed
  show ?thesis
    using assms(2)
    by (cases x rule: fenced_by.cases)
      (simp_all add: reply_def recheck_cli_submission_def renew_recovery_claim_def
        release_recovery_claim_def fail_recovery_claim_def release_recovery_residual_def
        mark_recovery_claim_error_def replace_if_state_def fence_matches_def held_def Let_def
        upd split: sum.splits)
qed

theorem stale_fence_writes_nothing_witness:
  "after fleet_db (run_journal (ORelease ''e2'' uuid2 1 5) fleet_db) = fleet_db"
  by (rule stale_fence_writes_nothing [OF fleet_db_ok, of _ "''e2''" uuid2 1])
    (simp_all only: fenced_by.simps fleet_get, simp add: issued_job_def pending_job_def)

lemma claim_recovery_get:
  assumes "db_ok d" and "claim_recovery e u now l d = Inr (v, d')"
  shows "journal_get e d' = (case journal_get e d of None \<Rightarrow> None
    | Some j \<Rightarrow> Some (if expirable (j_state j) \<and> j_expires_at j \<le> now then set_expired_cleared now j
        else if recoverable (j_state j) \<and> unclaimed now j then set_claimed u now l j else j))"
    and "v = (case journal_get e d of None \<Rightarrow> None
    | Some j \<Rightarrow> if \<not> (expirable (j_state j) \<and> j_expires_at j \<le> now) \<and>
        recoverable (j_state j) \<and> unclaimed now j then Some (set_claimed u now l j) else None)"
proof -
  obtain d1 where u1: "update_jobs (\<lambda>r. row_id r = e \<and> due now r) (set_job (set_expired_cleared now)) d = Some d1"
    and u2: "update_jobs (\<lambda>r. row_id r = e \<and> recoverable (j_state (row_job r)) \<and>
      unclaimed now (row_job r)) (set_job (set_claimed u now l)) d1 = Some d'"
    and v: "v = (if rowcount (\<lambda>r. row_id r = e \<and> recoverable (j_state (row_job r)) \<and>
      unclaimed now (row_job r)) (db_jobs d1) \<noteq> 1 then None else journal_get e d')"
    using assms(2) by (auto simp: claim_recovery_def Let_def split: option.splits if_splits)
  have ok1: "db_ok d1" by (rule update_jobs_set_job_ok [OF assms(1) u1]) simp
  have g1: "journal_get e d1 = (case journal_get e d of None \<Rightarrow> None | Some j \<Rightarrow> Some (
      if expirable (j_state j) \<and> j_expires_at j \<le> now then set_expired_cleared now j else j))"
    using keyed_update_get [OF assms(1) u1, of e "\<lambda>j. expirable (j_state j) \<and> j_expires_at j \<le> now" e]
    by (simp add: due_def split: option.splits)
  have g2: "journal_get e d' = (case journal_get e d1 of None \<Rightarrow> None | Some j \<Rightarrow> Some (
      if recoverable (j_state j) \<and> unclaimed now j then set_claimed u now l j else j))"
    using keyed_update_get [OF ok1 u2, of e "\<lambda>j. recoverable (j_state j) \<and> unclaimed now j" e]
    by (simp split: option.splits)
  have c: "rowcount (\<lambda>r. row_id r = e \<and> recoverable (j_state (row_job r)) \<and>
      unclaimed now (row_job r)) (db_jobs d1) = Suc 0 \<longleftrightarrow>
      (\<exists>j. journal_get e d1 = Some j \<and> recoverable (j_state j) \<and> unclaimed now j)"
    by (rule keyed_rowcount(1) [OF ok1, of _ e "\<lambda>j. recoverable (j_state j) \<and> unclaimed now j"]) simp
  have n: "\<not> recoverable (j_state (set_expired_cleared now j))" for j
    by (simp add: set_expired_cleared_def recoverable_def)
  show "journal_get e d' = (case journal_get e d of None \<Rightarrow> None
    | Some j \<Rightarrow> Some (if expirable (j_state j) \<and> j_expires_at j \<le> now then set_expired_cleared now j
        else if recoverable (j_state j) \<and> unclaimed now j then set_claimed u now l j else j))"
    unfolding g2 g1 by (auto simp: n split: option.splits)
  show "v = (case journal_get e d of None \<Rightarrow> None
    | Some j \<Rightarrow> if \<not> (expirable (j_state j) \<and> j_expires_at j \<le> now) \<and>
        recoverable (j_state j) \<and> unclaimed now j then Some (set_claimed u now l j) else None)"
    by (simp add: v c g2) (auto simp: g1 n split: option.splits if_splits)
qed

text \<open>
  The orchestrator stores a credential reference only together with \<open>CREDENTIAL_ISSUED\<close>;
  the schema itself would also accept one in an earlier state.
\<close>

definition no_early_credential :: "enrollment_job \<Rightarrow> bool" where
  "no_early_credential j \<longleftrightarrow> j_state j \<in> {PENDING, RUNNING, AWAITING_CLI} \<longrightarrow>
     j_enrollment_method j = LEGACY_ADMIN_TOKEN \<or> j_credential_temp_ref j = None"

lemma check_blocks_claimed [simp]:
  "check_pinned (set_claimed u now l j) = check_pinned j"
  "check_cli_claim (set_claimed u now l j) = check_cli_claim j"
  "check_receipt (set_claimed u now l j) = check_receipt j"
  by (simp_all add: check_pinned_def check_cli_claim_def check_receipt_def set_claimed_def
      split: option.splits)

lemma check_claimed: "check_job j \<Longrightarrow> check_job (set_claimed u now l j)"
  unfolding check_job_def check_blocks_claimed by (simp add: set_claimed_def)

lemma check_pinned_expired:
  assumes "check_pinned j" and "no_early_credential j" and "expirable (j_state j)"
    and "credential_state (j_state j) \<longrightarrow> j_credential_temp_ref j \<noteq> None"
  shows "check_pinned (set_expired_cleared now j)"
  using assms
  by (cases "j_state j")
    (auto simp: check_pinned_def set_expired_cleared_def clear_claims_def no_early_credential_def
      expirable_def credential_state_def)

lemma check_blocks_expired [simp]:
  "check_cli_claim (set_expired_cleared now j)" "check_receipt (set_expired_cleared now j)"
  by (simp_all add: check_cli_claim_def check_receipt_def set_expired_cleared_def clear_claims_def)

lemma check_expired_cleared:
  assumes "check_job j" and "no_early_credential j" and "expirable (j_state j)"
  shows "check_job (set_expired_cleared now j)"
proof -
  have p: "check_pinned (set_expired_cleared now j)"
    using assms by (intro check_pinned_expired) (simp_all add: check_job_def)
  show ?thesis
    using assms(1) unfolding check_job_def
    by (simp only: p check_blocks_expired)
      (simp add: set_expired_cleared_def clear_claims_def credential_state_def activation_state_def)
qed

lemma update_jobs_total:
  assumes "db_ok d"
    and "\<And>r. r \<in> set (db_jobs d) \<Longrightarrow> P r \<Longrightarrow> check_job (row_job r) \<Longrightarrow> check_job (f (row_job r))"
    and "\<And>j. j_replace_agent_id (f j) = j_replace_agent_id j"
  shows "\<exists>d'. update_jobs P (set_job f) d = Some d'"
  using assms by (auto simp: update_jobs_def db_ok_def jobs_ok_def)

lemma set_clause_replace [simp]:
  "j_replace_agent_id (set_expired_cleared now j) = j_replace_agent_id j"
  "j_replace_agent_id (set_claimed u now l j) = j_replace_agent_id j"
  "j_replace_agent_id (set_cleaned now j) = j_replace_agent_id j"
  by (simp_all add: set_clause_defs)

lemma claim_recovery_total:
  assumes "db_ok d" and "uuid_canonical u" and "1 \<le> l"
    and "\<And>j. journal_get e d = Some j \<Longrightarrow> no_early_credential j"
  shows "\<exists>v d'. claim_recovery e u now l d = Inr (v, d')"
proof -
  let ?P = "\<lambda>r. row_id r = e \<and> due now r"
  have "\<exists>d1. update_jobs ?P (set_job (set_expired_cleared now)) d = Some d1"
    using assms(1,4) by (intro update_jobs_total)
      (auto simp: due_def journal_get_iff intro: check_expired_cleared)
  then obtain d1 where d1: "update_jobs ?P (set_job (set_expired_cleared now)) d = Some d1" by blast
  then have "db_ok d1" by (rule update_jobs_set_job_ok [OF assms(1)]) simp
  then have "\<exists>d2. update_jobs (\<lambda>r. row_id r = e \<and> recoverable (j_state (row_job r)) \<and>
      unclaimed now (row_job r)) (set_job (set_claimed u now l)) d1 = Some d2"
    by (rule update_jobs_total) (auto intro: check_claimed)
  then show ?thesis using assms(2,3) d1 by (auto simp: claim_recovery_def Let_def)
qed

text \<open>
  What \<open>claim_recovery\<close> does, on every branch: an unknown id and a job that is not
  recoverable or whose claim is still live give \<open>None\<close> and leave the job alone; a job past
  its TTL is expired with its claims cleared; otherwise the job is returned with the new
  owner, a lease of \<open>lease_seconds\<close> from \<open>now\<close> and the next revision, and that is what is
  stored.  The call never fails with a storage error.
\<close>

theorem claim_recovery_spec:
  assumes "db_ok d" and "uuid_canonical u" and "1 \<le> l"
    and "\<forall>j. journal_get e d = Some j \<longrightarrow> no_early_credential j"
  shows "\<exists>d'. (case journal_get e d of
      None \<Rightarrow> claim_recovery e u now l d = Inr (None, d') \<and> journal_get e d' = None
    | Some j \<Rightarrow>
        if expirable (j_state j) \<and> j_expires_at j \<le> now
        then claim_recovery e u now l d = Inr (None, d') \<and>
          journal_get e d' = Some (set_expired_cleared now j)
        else if recoverable (j_state j) \<and> unclaimed now j
        then claim_recovery e u now l d = Inr (Some (set_claimed u now l j), d') \<and>
          journal_get e d' = Some (set_claimed u now l j)
        else claim_recovery e u now l d = Inr (None, d') \<and> journal_get e d' = Some j)"
proof -
  obtain v d' where c: "claim_recovery e u now l d = Inr (v, d')"
    using claim_recovery_total [OF assms(1-3)] assms(4) by blast
  show ?thesis
    using claim_recovery_get [OF assms(1) c] c by (intro exI [of _ d']) (auto split: option.splits)
qed

theorem claim_recovery_spec_witness:
  "\<exists>d'. claim_recovery ''e2'' uuid2 5 60 fleet_db
      = Inr (Some (set_claimed uuid2 5 60 (issued_job ''e2'')), d') \<and>
    journal_get ''e2'' d' = Some (set_claimed uuid2 5 60 (issued_job ''e2''))"
proof -
  have "uuid_canonical uuid2" by code_simp
  moreover have "\<forall>j. journal_get ''e2'' fleet_db = Some j \<longrightarrow> no_early_credential j"
    unfolding fleet_get by (simp add: no_early_credential_def issued_job_def pending_job_def)
  moreover have "\<not> j_expires_at (issued_job ''e2'') \<le> 5" "recoverable (j_state (issued_job ''e2''))"
    "unclaimed 5 (issued_job ''e2'')" by code_simp+
  ultimately show ?thesis
    using claim_recovery_spec [OF fleet_db_ok, of uuid2 60 "''e2''" 5] by (simp add: fleet_get)
qed

section \<open>Exclusive claims\<close>






end
