(* ===== verification/Journal_Lifecycle.thy ===== *)
theory Journal_Lifecycle
  imports Journal_Properties "HOL-Library.Multiset"
begin

text \<open>
  Further properties of the journal: the recovery fence over time, dispatch to a single
  worker, start-up recovery, the cleanup of terminal jobs, the re-arming of a local
  enrollment, rotations and discovery links.
\<close>

section \<open>The recovery revision\<close>

fun unfenced_replace :: "journal_op \<Rightarrow> bool" where
  "unfenced_replace (OReplace _ _ None _ _) = True"
| "unfenced_replace _ = False"

lemma revision_step:
  "journal_step x a b \<Longrightarrow> \<not> unfenced_replace x \<Longrightarrow> j_recovery_revision a \<le> j_recovery_revision b"
  by (erule journal_step.cases) (auto simp: set_clause_defs split: option.splits)

lemma claim_change_step:
  "journal_step x a b \<Longrightarrow> \<not> unfenced_replace x \<Longrightarrow> j_recovery_revision a = j_recovery_revision b \<Longrightarrow>
   (j_recovery_owner a, j_recovery_lease_until a) = (j_recovery_owner b, j_recovery_lease_until b)"
  by (erule journal_step.cases) (auto simp: set_clause_defs split: option.splits)

definition claim_not_older :: "enrollment_job \<Rightarrow> enrollment_job \<Rightarrow> bool" where
  "claim_not_older a b \<longleftrightarrow> j_recovery_revision a < j_recovery_revision b \<or>
     (j_recovery_revision a = j_recovery_revision b \<and> j_recovery_owner b = j_recovery_owner a \<and>
      j_recovery_lease_until b = j_recovery_lease_until a)"

lemma claim_not_older_step:
  assumes "journal_step x a b" and "\<not> unfenced_replace x" and "claim_not_older j a"
  shows "claim_not_older j b"
  using revision_step [OF assms(1,2)] claim_change_step [OF assms(1,2)] assms(3)
  by (auto simp: claim_not_older_def)

text \<open>
  \<open>C4\<close>.  The recovery revision is a fencing token: in a history without unfenced
  replacements it never decreases, and every change of the owner or of the lease increases
  it, so an old revision never matches a newer claim.
\<close>

theorem recovery_revision_is_a_fencing_token:
  assumes "db_ok d" and "journal_get e d = Some j" and "\<forall>x\<in>set xs. \<not> unfenced_replace x"
  shows "\<exists>j'. journal_get e (history run_journal xs d) = Some j' \<and>
    j_recovery_revision j \<le> j_recovery_revision j' \<and>
    (j_recovery_revision j' = j_recovery_revision j \<longrightarrow>
      j_recovery_owner j' = j_recovery_owner j \<and>
      j_recovery_lease_until j' = j_recovery_lease_until j)"
proof -
  have "claim_not_older j j" by (simp add: claim_not_older_def)
  then show ?thesis
    using history_job_inv [OF assms(1,2), of "claim_not_older j" xs] claim_not_older_step assms(3)
    by (fastforce simp: claim_not_older_def)
qed

theorem recovery_revision_is_a_fencing_token_witness:
  "\<exists>j'. journal_get ''e2'' (history run_journal [OClaim ''e2'' uuid2 5 60] fleet_db) = Some j' \<and>
    j_recovery_revision (issued_job ''e2'') \<le> j_recovery_revision j' \<and>
    (j_recovery_revision j' = j_recovery_revision (issued_job ''e2'') \<longrightarrow>
      j_recovery_owner j' = j_recovery_owner (issued_job ''e2'') \<and>
      j_recovery_lease_until j' = j_recovery_lease_until (issued_job ''e2''))"
  by (rule recovery_revision_is_a_fencing_token [OF fleet_db_ok fleet_get(2)]) simp

section \<open>Dispatch to one worker\<close>

fun rearms :: "string \<Rightarrow> journal_op \<Rightarrow> bool" where
  "rearms e (ORearm i _ _ _ _ _) = (i = e)"
| "rearms e _ = False"

lemma no_transition_to_pending: "PENDING \<notin> set (allowed_transitions s)"
  by (cases s) simp_all

lemma started_step:
  "journal_step x a b \<Longrightarrow> \<not> rearms e x \<Longrightarrow> j_enrollment_id a = e \<and> j_state a \<noteq> PENDING \<Longrightarrow>
   j_enrollment_id b = e \<and> j_state b \<noteq> PENDING"
  by (erule journal_step.cases) (auto simp: set_clause_defs no_transition_to_pending)

lemma claim_auto_get:
  assumes "db_ok d" and "claim_pending_auto e now d = Inr (v, d')"
  shows "journal_get e d' = map_option (\<lambda>j. if j_state j \<noteq> PENDING then j
      else if j_expires_at j \<le> now then set_expired now j else set_moved RUNNING now j)
      (journal_get e d)"
    and "v = (case journal_get e d of None \<Rightarrow> None
      | Some j \<Rightarrow> if j_state j = PENDING \<and> now < j_expires_at j then Some (set_moved RUNNING now j) else None)"
proof -
  obtain d1 where u1: "update_jobs (\<lambda>r. row_id r = e \<and> j_state (row_job r) = PENDING \<and>
      j_expires_at (row_job r) \<le> now) (set_job (set_expired now)) d = Some d1"
    and u2: "update_jobs (\<lambda>r. row_id r = e \<and> j_state (row_job r) = PENDING \<and>
      now < j_expires_at (row_job r)) (set_job (set_moved RUNNING now)) d1 = Some d'"
    and v: "v = (if rowcount (\<lambda>r. row_id r = e \<and> j_state (row_job r) = PENDING \<and>
      now < j_expires_at (row_job r)) (db_jobs d1) \<noteq> 1 then None else journal_get e d')"
    using assms(2) by (auto simp: claim_pending_auto_def Let_def split: option.splits if_splits)
  have ok1: "db_ok d1" by (rule update_jobs_set_job_ok [OF assms(1) u1]) simp
  have g1: "journal_get e d1 = map_option (\<lambda>j. if j_state j = PENDING \<and> j_expires_at j \<le> now
      then set_expired now j else j) (journal_get e d)"
    using keyed_update_get [OF assms(1) u1, of e "\<lambda>j. j_state j = PENDING \<and> j_expires_at j \<le> now" e]
    by (simp split: option.splits)
  have g2: "journal_get e d' = map_option (\<lambda>j. if j_state j = PENDING \<and> now < j_expires_at j
      then set_moved RUNNING now j else j) (journal_get e d1)"
    using keyed_update_get [OF ok1 u2, of e "\<lambda>j. j_state j = PENDING \<and> now < j_expires_at j" e]
    by (simp split: option.splits)
  have c: "rowcount (\<lambda>r. row_id r = e \<and> j_state (row_job r) = PENDING \<and>
      now < j_expires_at (row_job r)) (db_jobs d1) = Suc 0 \<longleftrightarrow>
      (\<exists>j. journal_get e d1 = Some j \<and> j_state j = PENDING \<and> now < j_expires_at j)"
    by (rule keyed_rowcount(1) [OF ok1, of _ e "\<lambda>j. j_state j = PENDING \<and> now < j_expires_at j"]) simp
  show "journal_get e d' = map_option (\<lambda>j. if j_state j \<noteq> PENDING then j
      else if j_expires_at j \<le> now then set_expired now j else set_moved RUNNING now j)
      (journal_get e d)"
    unfolding g2 g1 by (cases "journal_get e d") (auto simp: set_expired_def)
  show "v = (case journal_get e d of None \<Rightarrow> None
      | Some j \<Rightarrow> if j_state j = PENDING \<and> now < j_expires_at j then Some (set_moved RUNNING now j) else None)"
    by (cases "journal_get e d") (auto simp: v c g2 g1 set_expired_def)
qed

text \<open>
  An automatic enrollment is dispatched once: after \<open>claim_pending_auto\<close> has handed
  the job to a worker, no later call hands it to another one, whatever ran in between
  (unless the job is a local one that was re-armed).
\<close>

theorem auto_dispatch_has_one_winner:
  assumes "db_ok d" and "claim_pending_auto e now d = Inr (Some j, d1)"
    and "\<forall>x\<in>set xs. \<not> rearms e x"
  shows "claim_pending_auto e later (history run_journal xs d1) \<noteq> Inr (Some k, d2)"
proof
  let ?d = "history run_journal xs d1"
  assume c: "claim_pending_auto e later ?d = Inr (Some k, d2)"
  have ok: "db_ok d1" using claim_pending_auto_advance [OF assms(1,2)] by blast
  obtain i where i: "journal_get e d = Some i" "j_state i = PENDING" "now < j_expires_at i"
    using claim_auto_get(2) [OF assms(1,2)] by (auto split: option.splits if_splits)
  then have g: "journal_get e d1 = Some (set_moved RUNNING now i)"
    using claim_auto_get(1) [OF assms(1,2)] by simp
  have "j_enrollment_id (set_moved RUNNING now i) = e \<and> j_state (set_moved RUNNING now i) \<noteq> PENDING"
    using journal_get_id [OF g] by (simp add: set_moved_def)
  then obtain j' where "journal_get e ?d = Some j'" "j_state j' \<noteq> PENDING"
    using history_job_inv [OF ok g, of "\<lambda>j. j_enrollment_id j = e \<and> j_state j \<noteq> PENDING" xs]
      started_step assms(3) by blast
  then show False
    using claim_auto_get(2) [OF journal.history_inv [OF ok] c] by simp
qed

theorem auto_dispatch_has_one_winner_witness:
  "claim_pending_auto ''e1'' 9 (history run_journal [OPrepare 8]
     (after fleet_db (claim_pending_auto ''e1'' 5 fleet_db))) \<noteq> Inr (Some (pending_job ''e1''), empty_db)"
proof -
  have "claim_pending_auto ''e1'' 5 fleet_db = Inr (Some (set_moved RUNNING 5 (pending_job ''e1'')),
      after fleet_db (claim_pending_auto ''e1'' 5 fleet_db))" by code_simp
  then show ?thesis by (rule auto_dispatch_has_one_winner [OF fleet_db_ok]) simp
qed

section \<open>Start-up recovery\<close>

lemma prepare_recovery_total:
  assumes "db_ok d" and "\<forall>r\<in>set (db_jobs d). no_early_credential (row_job r)"
  obtains ids d' where "prepare_recovery now d = Inr (ids, d')"
    and "update_jobs (due now) (set_job (set_expired_cleared now)) d = Some d'"
proof -
  have "\<exists>d'. update_jobs (due now) (set_job (set_expired_cleared now)) d = Some d'"
    using assms by (intro update_jobs_total) (auto simp: due_def intro: check_expired_cleared)
  then show thesis using that by (auto simp: prepare_recovery_def)
qed

lemma not_due_after_expiry: "\<not> due now (set_job (set_expired_cleared now) r)"
  by (simp add: due_def set_expired_cleared_def expirable_def)

lemma prepare_ids:
  assumes "db_ok d'" and "ids = map j_enrollment_id (sort_key (\<lambda>j. (j_created_at j, j_enrollment_id j))
    (filter Q (map row_job (db_jobs d'))))"
  shows "distinct ids" and "e \<in> set ids \<longleftrightarrow> (\<exists>j. journal_get e d' = Some j \<and> Q j)"
proof -
  have "mset ids = mset (map j_enrollment_id (filter Q (map row_job (db_jobs d'))))"
    unfolding assms(2) by simp
  moreover have "distinct (map j_enrollment_id (filter Q (map row_job (db_jobs d'))))"
    using db_ok_unique [OF assms(1)] by (simp add: jobs_unique_def distinct_map_filter comp_def)
  ultimately show "distinct ids" by (metis mset_eq_imp_distinct_iff)
  show "e \<in> set ids \<longleftrightarrow> (\<exists>j. journal_get e d' = Some j \<and> Q j)"
    unfolding assms(2) using assms(1) by (auto simp: journal_get_iff image_iff)
qed

text \<open>
  Start-up recovery: \<open>prepare_recovery\<close> succeeds, expires exactly the jobs past
  their TTL (clearing their claims), leaves no job past its TTL behind, and returns the ids
  of the jobs that can be recovered now, each once and in creation order.
\<close>

theorem prepare_recovery_spec:
  assumes "db_ok d" and "\<forall>r\<in>set (db_jobs d). no_early_credential (row_job r)"
  shows "\<exists>(js :: enrollment_job list) d'. prepare_recovery now d = Inr (map j_enrollment_id js, d') \<and>
    (\<forall>r\<in>set (db_jobs d'). \<not> due now r) \<and>
    (\<forall>e. journal_get e d' = map_option (\<lambda>j. if expirable (j_state j) \<and> j_expires_at j \<le> now
       then set_expired_cleared now j else j) (journal_get e d)) \<and>
    distinct (map j_enrollment_id js) \<and>
    sorted (map (\<lambda>j. (j_created_at j, j_enrollment_id j)) js) \<and>
    (\<forall>e. e \<in> j_enrollment_id ` set js \<longleftrightarrow>
      (\<exists>j. journal_get e d' = Some j \<and> recoverable (j_state j) \<and> unclaimed now j))"
proof -
  obtain ids d' where p: "prepare_recovery now d = Inr (ids, d')"
    and u: "update_jobs (due now) (set_job (set_expired_cleared now)) d = Some d'"
    using prepare_recovery_total [OF assms] .
  have ok: "db_ok d'" by (rule update_jobs_set_job_ok [OF assms(1) u]) simp
  define js where "js = sort_key (\<lambda>j. (j_created_at j, j_enrollment_id j))
    (filter (\<lambda>j. recoverable (j_state j) \<and> unclaimed now j) (map row_job (db_jobs d')))"
  have ids: "ids = map j_enrollment_id js"
    using p u by (simp add: prepare_recovery_def js_def)
  have f1: "\<forall>r\<in>set (db_jobs d'). \<not> due now r"
    by (auto simp: update_jobs_Some [OF u] set_sql_update not_due_after_expiry)
  have f2: "journal_get e d' = map_option (\<lambda>j. if expirable (j_state j) \<and> j_expires_at j \<le> now
       then set_expired_cleared now j else j) (journal_get e d)" for e
    by (rule job_update_get [OF assms(1) u]) (simp_all add: due_def)
  have f3: "sorted (map (\<lambda>j. (j_created_at j, j_enrollment_id j)) js)"
    by (simp add: js_def)
  have f4: "distinct (map j_enrollment_id js)"
    using prepare_ids(1) [OF ok refl] unfolding js_def .
  have f5: "e \<in> j_enrollment_id ` set js \<longleftrightarrow>
      (\<exists>j. journal_get e d' = Some j \<and> recoverable (j_state j) \<and> unclaimed now j)" for e
    using prepare_ids(2) [OF ok refl, of e] unfolding js_def by simp
  show ?thesis
    using p ids f1 f2 f3 f4 f5 by blast
qed

theorem prepare_recovery_spec_witness:
  "\<exists>(js :: enrollment_job list) d'. prepare_recovery 700000000 fleet_db = Inr (map j_enrollment_id js, d') \<and>
    (\<forall>r\<in>set (db_jobs d'). \<not> due 700000000 r)"
proof -
  have "\<forall>r\<in>set (db_jobs fleet_db). no_early_credential (row_job r)" by code_simp
  from prepare_recovery_spec [OF fleet_db_ok this, of 700000000] show ?thesis by blast
qed

section \<open>An expired CLI claim blocks creation\<close>

lemma expired_claim_violates_check:
  "j_cli_resume_nonce j \<noteq> None \<Longrightarrow> \<not> check_job (set_expired now j)"
  by (auto simp: check_job_def check_cli_claim_def set_expired_def claim_state_def)

text \<open>
  \<open>C40\<close>.  The expiry step inside the three creating methods cannot expire an enrollment that holds
  a CLI claim: it keeps the claim columns, the table's \<open>CHECK\<close> refuses an \<open>expired\<close> row with
  a claim, and the whole creation fails.  So while one CLI enrollment past its TTL still has its claim, a new
  enrollment fails with the generic conflict, one from a discovery result with \<open>agent_validation_changed\<close> and a rotation
  with \<open>agent_enrollment_conflict\<close>, whatever they ask for.
\<close>

theorem expired_cli_claim_blocks_creation:
  assumes "r \<in> set (db_jobs d)" and "due now r" and "j_cli_resume_nonce (row_job r) \<noteq> None"
    and "valid_job job" and "1 \<le> m"
  shows "create_with_capacity job now m d =
      Inl (RegistryConflict ''enrollment job conflicts with existing state'') \<and>
    (j_discovery_result_id job \<noteq> None \<and> j_replace_agent_id job = None \<longrightarrow>
      create_discovery_with_capacity job now m retention d = Inl (RegistryConflict ''agent_validation_changed'')) \<and>
    (j_replace_agent_id job \<noteq> None \<longrightarrow>
      create_rotation_with_capacity job now m d = Inl (RegistryConflict ''agent_enrollment_conflict''))"
proof -
  have "expire_due now d = None"
    using assms(1-3) expired_claim_violates_check
    by (auto simp: expire_due_def update_jobs_def)
  then show ?thesis
    using assms(4,5) by (auto simp: create_with_capacity_def create_discovery_with_capacity_def
        create_rotation_with_capacity_def validate_job_def)
qed

theorem expired_cli_claim_blocks_creation_witness:
  "create_with_capacity (pending_job ''e9'') 600000000 20 (with_jobs [cli_job ''c1'']) =
    Inl (RegistryConflict ''enrollment job conflicts with existing state'')"
  by (rule expired_cli_claim_blocks_creation
      [of "\<lparr>row_job = cli_job ''c1'', row_tombstone = None\<rparr>", OF _ _ _ sample_jobs_valid(1), THEN conjunct1])
    (simp add: with_jobs_def, code_simp+)

section \<open>Cleanup of terminal jobs\<close>

lemma check_cleaned:
  assumes "check_job j" and "j_state j \<in> {CANCELLED, FAILED, EXPIRED}"
  shows "check_job (set_cleaned now j)"
proof -
  have c: "check_pinned j" "check_cli_claim j" "check_receipt j"
    using assms(1) by (simp_all add: check_job_def)
  have "check_pinned (set_cleaned now j)"
    using c(1) assms(2) by (auto simp: check_pinned_def set_cleaned_def)
  moreover have "check_cli_claim (set_cleaned now j)"
    using c(2) assms(2) by (auto simp: check_cli_claim_def set_cleaned_def claim_state_def)
  moreover have "check_receipt (set_cleaned now j)"
    using c(3) assms(2) by (auto simp: check_receipt_def set_cleaned_def split: option.splits)
  ultimately have blocks: "check_pinned (set_cleaned now j)" "check_cli_claim (set_cleaned now j)"
    "check_receipt (set_cleaned now j)" .
  show ?thesis
    using assms unfolding check_job_def
    by (simp only: blocks) (elim disjE insertE; simp add: set_cleaned_def credential_state_def
        activation_state_def)
qed

text \<open>
  \<open>finish_terminal_cleanup\<close>: exactly when the stored job is in the expected terminal
  state and still holds the expected credential reference, the call succeeds, forgets the
  reference and the pinned address, clears a cleanup error but keeps any other error code,
  and the job leaves the cleanup list; in every other case it raises \<open>RevisionConflict\<close>.
\<close>

theorem finish_terminal_cleanup_spec:
  assumes "db_ok d" and "st \<in> {CANCELLED, FAILED, EXPIRED}"
  shows "case journal_get e d of
      Some j \<Rightarrow> if j_state j = st \<and> j_credential_temp_ref j = Some ref
        then \<exists>d'. finish_terminal_cleanup e st ref now d = Inr (Some (set_cleaned now j), d') \<and>
          journal_get e d' = Some (set_cleaned now j) \<and>
          e \<notin> j_enrollment_id ` set (list_terminal_cleanup d')
        else finish_terminal_cleanup e st ref now d = Inl RevisionConflict
    | None \<Rightarrow> finish_terminal_cleanup e st ref now d = Inl RevisionConflict"
proof -
  let ?P = "cleanup_row e st ref" and ?Q = "\<lambda>j. j_state j = st \<and> j_credential_temp_ref j = Some ref"
  have "\<exists>d'. update_jobs ?P (set_job (set_cleaned now)) d = Some d'"
    using assms by (intro update_jobs_total) (auto simp: cleanup_row_def intro: check_cleaned)
  then obtain d' where u: "update_jobs ?P (set_job (set_cleaned now)) d = Some d'" by blast
  have ok: "db_ok d'" by (rule update_jobs_set_job_ok [OF assms(1) u]) simp
  have g: "journal_get e d' = (case journal_get e d of None \<Rightarrow> None
      | Some j \<Rightarrow> Some (if ?Q j then set_cleaned now j else j))"
    using keyed_update_get [OF assms(1) u, of e ?Q e]
    by (simp add: cleanup_row_def split: option.splits)
  have c: "rowcount ?P (db_jobs d) = Suc 0 \<longleftrightarrow> (\<exists>j. journal_get e d = Some j \<and> ?Q j)"
    by (rule keyed_rowcount(1) [OF assms(1)]) (simp add: cleanup_row_def)
  have l: "e \<notin> j_enrollment_id ` set (list_terminal_cleanup d')"
    if g': "journal_get e d' = Some (set_cleaned now j)" for j
  proof
    assume "e \<in> j_enrollment_id ` set (list_terminal_cleanup d')"
    then obtain i where i: "i \<in> row_job ` set (db_jobs d')" "e = j_enrollment_id i"
      "j_credential_temp_ref i \<noteq> None"
      by (auto simp: list_terminal_cleanup_def)
    then have "journal_get e d' = Some i" using ok by (auto simp: journal_get_iff)
    then have "i = set_cleaned now j" using g' by simp
    then show False using i(3) by (simp add: set_cleaned_def)
  qed
  show ?thesis
    using assms(2) g c l
    by (auto simp: finish_terminal_cleanup_def Let_def u split: option.splits)
qed

theorem finish_terminal_cleanup_spec_witness:
  "\<exists>d'. finish_terminal_cleanup ''e4'' CANCELLED ref1 9 fleet_db =
     Inr (Some (set_cleaned 9 (cancelled_job ''e4'')), d') \<and>
     journal_get ''e4'' d' = Some (set_cleaned 9 (cancelled_job ''e4'')) \<and>
     ''e4'' \<notin> j_enrollment_id ` set (list_terminal_cleanup d')"
  using finish_terminal_cleanup_spec [OF fleet_db_ok, of CANCELLED "''e4''" ref1 9]
  by (simp add: fleet_get) (simp add: cancelled_job_def issued_job_def)

end
