(* ===== verification/Journal_Rotation.thy ===== *)
theory Journal_Rotation
  imports Journal_Lifecycle
begin

text \<open>
  Properties of the journal methods that touch other tables: rotations of a registered
  agent (with the mutation fence of \<open>storage/mutation_fence.py\<close>), enrollments started from a
  discovery result, and the re-arming of a local enrollment.
\<close>

section \<open>Rotations\<close>

lemma insert_job_get:
  assumes "db_ok d" and "insert_job j d = Some d'"
  shows "journal_get k d' = (if k = j_enrollment_id j then Some j else journal_get k d)"
proof -
  have new: "j_enrollment_id j \<notin> row_id ` set (db_jobs d)"
    using assms(2) by (auto simp: insert_job_def split: if_splits)
  have "find (\<lambda>r. row_id r = j_enrollment_id j) (db_jobs d) = None"
    unfolding find_None_iff using new by (metis (mono_tags) image_eqI)
  then show ?thesis
    by (auto simp: insert_job_Some [OF assms(2)] journal_get_def jobs_table.find_append_key
        split: option.splits dest: jobs_table.find_keyD)
qed

definition agent_db :: manager_db where
  "agent_db = fleet_db\<lparr>db_agents := [\<lparr>a_agent_id = ''agent-1'', a_instance_id = Some ''inst-1'',
     a_display_name = ''rack 7'', a_normalized_endpoint = ''http://10.0.0.9:8100'',
     a_credential_ref = ref1, a_remote_credential_id = Some ''cred-0'',
     a_transport_profile_id = ''lab'', a_enrollment_method = SSH_AUTO, a_enabled = True,
     a_source = ''manual'', a_revision = 3, a_created_at = 0, a_updated_at = 0\<rparr>]\<rparr>"

definition rotation_request :: "string \<Rightarrow> enrollment_job" where
  "rotation_request e = (pending_job e)\<lparr>j_replace_agent_id := Some ''agent-1''\<rparr>"

lemma agent_db_ok: "db_ok agent_db"
  by code_simp

text \<open>
  A rotation starts from the registered agent: when \<open>create_rotation_with_capacity\<close>
  succeeds, no removal and no save-requested rotation held the agent, no other active
  rotation of it exists, the endpoint, profile, credentials and revision of the stored job
  are those of the agent's row, and the job is stored within the capacity.
\<close>

theorem create_rotation_spec:
  assumes "db_ok d" and "create_rotation_with_capacity job now m d = Inr (v, d')"
  shows "\<exists>a old. j_replace_agent_id job = Some a \<and> old \<in> set (db_agents d) \<and> a_agent_id old = a \<and>
    v = capture_agent job old \<and> journal_get (j_enrollment_id job) d' = Some v \<and>
    mutation_allowed d' a (Some (j_enrollment_id job)) None \<and>
    (\<forall>r\<in>set (db_jobs d'). active_rotation a r \<longrightarrow> row_id r = j_enrollment_id job) \<and>
    int (active_count d') \<le> m"
proof -
  obtain d1 a old where a: "j_replace_agent_id job = Some a" and e: "expire_due now d = Some d1"
    and f: "find (\<lambda>x. a_agent_id x = a) (db_agents d1) = Some old" and v: "v = capture_agent job old"
    and m: "assert_agent_mutation_allowed (a_agent_id old) None None d1 = Inr ()"
    and r: "find (active_rotation (a_agent_id old)) (db_jobs d1) = None"
    and cap: "int (active_count d1) < m" and i: "insert_job v d1 = Some d'"
    using assms(2) by (rule create_rotation_update)
  have ok1: "db_ok d1" using expire_due_advance [OF assms(1) e, of "OCreateRotation job now m"] by simp
  have "db_agents d1 = db_agents d" by (simp add: update_jobs_Some [OF e [unfolded expire_due_def]])
  then have old: "old \<in> set (db_agents d)" "a_agent_id old = a"
    using agents_table.find_keyD [OF f] by simp_all
  have id: "j_enrollment_id v = j_enrollment_id job" by (simp add: v capture_agent_def)
  have "journal_get (j_enrollment_id job) d' = Some v" using insert_job_get [OF ok1 i] id by simp
  moreover have "mutation_allowed d' a (Some (j_enrollment_id job)) None"
    using m old(2) id by (auto simp: mutation_allowed_iff insert_job_Some [OF i] foreign_rotation_def)
  moreover have "\<forall>r\<in>set (db_jobs d'). active_rotation a r \<longrightarrow> row_id r = j_enrollment_id job"
    using r old(2) id by (auto simp: find_None_iff insert_job_Some [OF i])
  moreover have "int (active_count d') \<le> m" using cap insert_job_active [OF i] by simp
  ultimately show ?thesis using a old v by blast
qed

theorem create_rotation_spec_witness:
  "\<exists>a old. j_replace_agent_id (rotation_request ''r1'') = Some a \<and> old \<in> set (db_agents agent_db) \<and>
    a_agent_id old = a \<and> j_old_registry_revision (capture_agent (rotation_request ''r1'') old) = Some 3"
proof -
  define v where "v = (case create_rotation_with_capacity (rotation_request ''r1'') 5 20 agent_db of
    Inr (v, _) \<Rightarrow> v | _ \<Rightarrow> pending_job [])"
  have c: "create_rotation_with_capacity (rotation_request ''r1'') 5 20 agent_db =
    Inr (v, after agent_db (create_rotation_with_capacity (rotation_request ''r1'') 5 20 agent_db))"
    and r: "j_old_registry_revision v = Some 3"
    unfolding v_def by code_simp+
  show ?thesis using create_rotation_spec [OF agent_db_ok c] r by metis
qed

text \<open>
  Saving a verified rotation takes the mutation fence of its agent: when
  \<open>consume_rotation\<close> succeeds, the job was verified, inside its TTL and of this agent, the
  agent's row is still the one captured, nobody else held the fence, and afterwards every
  other rotation and every removal of the agent is refused.
\<close>

theorem consume_rotation_takes_fence:
  assumes "db_ok d" and "consume_rotation e a name now d = Inr (v, d')"
  shows "\<exists>j. journal_get e d = Some j \<and> j_state j = VERIFIED \<and> now < j_expires_at j \<and>
    j_replace_agent_id j = Some a \<and> v = set_saved name now j \<and> journal_get e d' = Some v \<and>
    (\<exists>x\<in>set (db_agents d). a_agent_id x = a \<and> Some (a_revision x) = j_old_registry_revision j \<and>
       Some (a_credential_ref x) = j_old_credential_ref j \<and> a_instance_id x = j_old_instance_id j) \<and>
    mutation_allowed d a (Some e) None \<and>
    (\<forall>oe orm. oe \<noteq> Some e \<longrightarrow> \<not> mutation_allowed d' a oe orm)"
proof -
  let ?P = "\<lambda>r. row_id r = e \<and> j_state (row_job r) = VERIFIED \<and> \<not> j_save_requested (row_job r)"
  obtain j x where j: "journal_get e d = Some j" "j_state j = VERIFIED" "now < j_expires_at j"
      "j_replace_agent_id j = Some a" "v = set_saved name now j"
    and x: "find (\<lambda>x. a_agent_id x = a) (db_agents d) = Some x"
      "Some (a_revision x) = j_old_registry_revision j"
      "Some (a_credential_ref x) = j_old_credential_ref j" "a_instance_id x = j_old_instance_id j"
    and f: "mutation_allowed d a (Some e) None"
    and u: "update_jobs ?P (set_job (set_saved name now)) d = Some d'"
    and c: "rowcount ?P (db_jobs d) = Suc 0"
    using assms(2)
    by (auto simp: consume_rotation_def Let_def split: sum.splits option.splits if_splits)
  have "\<exists>i. journal_get e d = Some i \<and> j_state i = VERIFIED \<and> \<not> j_save_requested i"
    using c by (subst (asm) keyed_rowcount(1) [OF assms(1),
        of _ e "\<lambda>j. j_state j = VERIFIED \<and> \<not> j_save_requested j"]) simp_all
  then have s: "\<not> j_save_requested j" using j(1) by simp
  have g: "journal_get e d' = Some v"
    using keyed_update_get [OF assms(1) u, of e "\<lambda>j. j_state j = VERIFIED \<and> \<not> j_save_requested j" e]
      j s by simp
  have "db_ok d'" using consume_rotation_advance [OF assms] by blast
  then obtain r where r: "r \<in> set (db_jobs d')" "row_id r = e" "row_job r = v"
    using g by (auto simp: journal_get_iff)
  have "foreign_rotation a oe r" if "oe \<noteq> Some e" for oe
    using that r j(4,5) by (auto simp: foreign_rotation_def set_saved_def split: option.splits)
  then have "\<forall>oe orm. oe \<noteq> Some e \<longrightarrow> \<not> mutation_allowed d' a oe orm"
    using r(1) by (auto simp: mutation_allowed_iff)
  moreover have "x \<in> set (db_agents d)" "a_agent_id x = a" using agents_table.find_keyD [OF x(1)] by auto
  ultimately show ?thesis using j x g f by blast
qed

definition verified_rotation :: enrollment_job where
  "verified_rotation = (capture_agent (rotation_request ''r1'') (hd (db_agents agent_db)))
     \<lparr>j_state := VERIFIED, j_credential_temp_ref := Some ref1,
      j_validated_http_address := Some ''10.0.0.9'', j_remote_instance_id := Some ''inst-1'',
      j_remote_credential_id := Some ''cred-1''\<rparr>"

definition rotation_db :: manager_db where
  "rotation_db = agent_db\<lparr>db_jobs := [\<lparr>row_job = verified_rotation, row_tombstone = None\<rparr>]\<rparr>"

theorem consume_rotation_takes_fence_witness:
  "\<exists>d'. consume_rotation ''r1'' ''agent-1'' ''rack 7b'' 5 rotation_db =
      Inr (set_saved ''rack 7b'' 5 verified_rotation, d') \<and>
    \<not> mutation_allowed d' ''agent-1'' (Some ''r2'') None \<and> \<not> mutation_allowed d' ''agent-1'' None (Some ''x'')"
proof -
  have ok: "db_ok rotation_db" by code_simp
  have c: "consume_rotation ''r1'' ''agent-1'' ''rack 7b'' 5 rotation_db =
    Inr (set_saved ''rack 7b'' 5 verified_rotation,
      after rotation_db (consume_rotation ''r1'' ''agent-1'' ''rack 7b'' 5 rotation_db))"
    by code_simp
  have "\<forall>oe orm. oe \<noteq> Some ''r1'' \<longrightarrow> \<not> mutation_allowed
      (after rotation_db (consume_rotation ''r1'' ''agent-1'' ''rack 7b'' 5 rotation_db)) ''agent-1'' oe orm"
    using consume_rotation_takes_fence [OF ok c] by blast
  then show ?thesis using c by (intro exI conjI) (assumption, auto)
qed

section \<open>Discovery links\<close>

definition all_linked :: "string \<Rightarrow> manager_db \<Rightarrow> bool" where
  "all_linked res d \<longleftrightarrow> (\<forall>r\<in>set (db_discovery_results d).
     dr_result_id r = res \<longrightarrow> dr_linked_enrollment_id r \<noteq> None)"

lemma update_jobs_results:
  "update_jobs P f d = Some d' \<Longrightarrow> db_discovery_results d' = db_discovery_results d"
  by (drule update_jobs_Some) simp

lemma insert_job_results:
  "insert_job j d = Some d' \<Longrightarrow> db_discovery_results d' = db_discovery_results d"
  by (drule insert_job_Some) simp

lemma link_result_Some:
  "link_result e res d = Some (n, d') \<Longrightarrow> d' = d\<lparr>db_discovery_results := sql_update (linkable res)
      (\<lambda>r. r\<lparr>dr_linked_enrollment_id := Some e\<rparr>) (db_discovery_results d)\<rparr>"
  by (auto simp: link_result_def Let_def split: if_splits)

lemma link_result_linked:
  assumes "link_result e res d = Some (n, d')"
  shows "all_linked res d'" and "all_linked i d \<Longrightarrow> all_linked i d'"
proof -
  have d': "db_discovery_results d' = sql_update (linkable res)
      (\<lambda>r. r\<lparr>dr_linked_enrollment_id := Some e\<rparr>) (db_discovery_results d)"
    by (simp add: link_result_Some [OF assms])
  show "all_linked res d'"
    unfolding all_linked_def d' set_sql_update ball_simps by (simp add: linkable_def)
  show "all_linked i d \<Longrightarrow> all_linked i d'"
    unfolding all_linked_def d' set_sql_update ball_simps by simp
qed

lemma all_linked_cong:
  "db_discovery_results d' = db_discovery_results d \<Longrightarrow> all_linked i d' = all_linked i d"
  by (simp add: all_linked_def)

lemma create_discovery_linked:
  assumes "create_discovery_with_capacity j now m ret d = Inr (v, d')"
  shows "\<exists>res. j_discovery_result_id j = Some res \<and> \<not> all_linked res d \<and> all_linked res d'"
    and "all_linked i d \<Longrightarrow> all_linked i d'"
proof -
  obtain d1 d2 res where r: "j_discovery_result_id j = Some res" and e: "expire_due now d = Some d1"
    and c: "check_discovery_target j res (now - seconds ret) d1 = Inr ()"
    and i: "insert_job j d1 = Some d2" and l: "link_result (j_enrollment_id j) res d2 = Some (1, d')"
    using assms by (rule create_discovery_update)
  have d: "db_discovery_results d1 = db_discovery_results d" "db_discovery_results d2 = db_discovery_results d"
    using e i by (auto simp: expire_due_def dest!: update_jobs_results insert_job_results)
  obtain x where x: "find (\<lambda>r. dr_result_id r = res) (db_discovery_results d1) = Some x"
    "dr_linked_enrollment_id x = None"
    using c by (auto simp: check_discovery_target_def discovery_row_def split: option.splits
        Option.bind_splits if_splits prod.splits)
  have "\<not> all_linked res d" using x d by (auto simp: all_linked_def find_Some_iff)
  then show "\<exists>res. j_discovery_result_id j = Some res \<and> \<not> all_linked res d \<and> all_linked res d'"
    using r link_result_linked(1) [OF l] by blast
  show "all_linked i d \<Longrightarrow> all_linked i d'"
    using link_result_linked(2) [OF l] all_linked_cong [OF d(2)] by blast
qed

lemma run_journal_linked:
  assumes "run_journal x d = Inr (v, d')" and "all_linked i d"
  shows "all_linked i d'"
proof (cases x)
  case (OCreate j)
  then show ?thesis using assms create_update [of j d _ d']
    by (auto simp: reply_Inr all_linked_def dest!: insert_job_results)
next
  case (OCreateCapacity j now m)
  then obtain w where "create_with_capacity j now m d = Inr (w, d')" using assms by (auto simp: reply_Inr)
  then show ?thesis
    by (rule create_with_capacity_update) (use assms(2) in \<open>auto simp: all_linked_def expire_due_def
        dest!: update_jobs_results insert_job_results\<close>)
next
  case (OCreateDiscovery j now m ret)
  then obtain w where "create_discovery_with_capacity j now m ret d = Inr (w, d')"
    using assms by (auto simp: reply_Inr)
  then show ?thesis using create_discovery_linked(2) assms(2) by blast
next
  case (OCreateRotation j now m)
  then obtain w where "create_rotation_with_capacity j now m d = Inr (w, d')"
    using assms by (auto simp: reply_Inr)
  then show ?thesis
    by (rule create_rotation_update) (use assms(2) in \<open>auto simp: all_linked_def expire_due_def
        dest!: update_jobs_results insert_job_results\<close>)
next
  case (ORearm e ep pr n now ex)
  then obtain w where "rearm_expired_local e ep pr n now ex d = Inr (w, d')"
    using assms by (auto simp: reply_Inr)
  then show ?thesis by (rule rearm_expired_local_update) (use assms(2) in \<open>auto simp: all_linked_def
        dest!: update_jobs_results\<close>)
next
  case (OConsumeRotation e a n now)
  then obtain w where "consume_rotation e a n now d = Inr (w, d')" using assms by (auto simp: reply_Inr)
  then show ?thesis by (rule consume_rotation_update) (use assms(2) in \<open>auto simp: all_linked_def
        dest!: update_jobs_results\<close>)
qed (use assms in \<open>auto simp: reply_Inr set_state_def replace_if_state_def claim_pending_auto_def
    recheck_auto_dispatch_def recheck_cli_submission_def prepare_recovery_def claim_recovery_def
    renew_recovery_claim_def release_recovery_claim_def fail_recovery_claim_def
    release_recovery_residual_def mark_recovery_claim_error_def finish_terminal_cleanup_def
    mark_terminal_cleanup_failed_def Let_def all_linked_def dest!: update_jobs_results
    split: option.splits sum.splits if_splits\<close>)

text \<open>
  A discovery result starts at most one enrollment: once
  \<open>create_discovery_with_capacity\<close> has succeeded for a result, it fails for the same result
  after any further history of journal calls.
\<close>

theorem discovery_result_enrolled_once:
  assumes "create_discovery_with_capacity job now m ret d = Inr (v, d1)"
    and "j_discovery_result_id other = j_discovery_result_id job"
  shows "create_discovery_with_capacity other later m' ret' (history run_journal xs d1) \<noteq> Inr (w, d2)"
proof
  assume c: "create_discovery_with_capacity other later m' ret' (history run_journal xs d1) = Inr (w, d2)"
  obtain res where r: "j_discovery_result_id job = Some res" "all_linked res d1"
    using create_discovery_linked(1) [OF assms(1)] by blast
  have "all_linked res (history run_journal xs d1)"
    using r(2) run_journal_linked
    by (induction xs arbitrary: d1) (auto simp: after_def split: sum.splits prod.splits)
  then show False using create_discovery_linked(1) [OF c] r(1) assms(2) by auto
qed

definition discovery_db :: manager_db where
  "discovery_db = empty_db\<lparr>
     db_discovery_jobs := [\<lparr>d_job_id = ''dj'', d_scope_id = ''lab'', d_state = DCompleted,
       d_total_targets = 1, d_checked_targets = 1, d_found_targets = 1, d_cancel_requested = False,
       d_safe_error_code = None, d_start_audit_event_id = 1, d_deadline_at = 90, d_created_at = 0,
       d_updated_at = 9, d_completed_at = Some 9, d_aggregate_dispatch_state = Dispatched\<rparr>],
     db_discovery_results := [\<lparr>dr_result_id = ''res'', dr_job_id = ''dj'',
       dr_canonical_url = ''http://10.0.0.7:8100'', dr_ip = ''10.0.0.7'', dr_port = 8100,
       dr_transport_profile_id = ''lab'', dr_fingerprint_version = None, dr_found = True,
       dr_safe_error_code = None, dr_first_seen_at = 5, dr_last_seen_at = 5,
       dr_linked_enrollment_id = None\<rparr>]\<rparr>"

theorem discovery_result_enrolled_once_witness:
  "create_discovery_with_capacity ((pending_job ''e2'')\<lparr>j_discovery_result_id := Some ''res''\<rparr>) 20 9 9
     (history run_journal [OSetState ''e1'' CANCELLED 15 PENDING]
       (after discovery_db (create_discovery_with_capacity
         ((pending_job ''e1'')\<lparr>j_discovery_result_id := Some ''res''\<rparr>) 10 9 9 discovery_db)))
   \<noteq> Inr (pending_job ''e2'', empty_db)"
proof -
  have "create_discovery_with_capacity ((pending_job ''e1'')\<lparr>j_discovery_result_id := Some ''res''\<rparr>)
      10 9 9 discovery_db = Inr ((pending_job ''e1'')\<lparr>j_discovery_result_id := Some ''res''\<rparr>,
      after discovery_db (create_discovery_with_capacity
         ((pending_job ''e1'')\<lparr>j_discovery_result_id := Some ''res''\<rparr>) 10 9 9 discovery_db))"
    by code_simp
  then show ?thesis by (rule discovery_result_enrolled_once) simp
qed

section \<open>Re-arming a local enrollment\<close>

text \<open>
  \<open>rearm_expired_local\<close> succeeds only for an expired, ended \<open>LOCAL_SOCKET\<close> enrollment
  of the same endpoint, profile and name that holds no credential; it then makes it a fresh
  pending enrollment with the next recovery revision (so old claims are fenced off), keeps
  its identity columns and touches no other enrollment.
\<close>

theorem rearm_expired_local_spec:
  assumes "db_ok d" and "rearm_expired_local e ep pr n now ex d = Inr (v, d')"
  shows "\<exists>j. journal_get e d = Some j \<and> j_enrollment_method j = LOCAL_SOCKET \<and>
    j_normalized_endpoint j = ep \<and> j_transport_profile_id j = pr \<and>
    j_requested_display_name j = Some n \<and> j_state j \<in> {CANCELLED, EXPIRED, FAILED} \<and>
    j_expires_at j \<le> now \<and> j_credential_temp_ref j = None \<and>
    v = rearm now ex j \<and> valid_job v \<and> j_recovery_revision v = j_recovery_revision j + 1 \<and>
    (\<forall>k. journal_get k d' = (if k = e then Some v else journal_get k d))"
proof -
  obtain c where c: "journal_get e d = Some c" and v: "v = rearm now ex c" "valid_job v"
    and u: "update_jobs (rearmable e ep pr n now) (set_job (\<lambda>j. immutable_columns j v)) d = Some d'"
    and n: "rowcount (rearmable e ep pr n now) (db_jobs d) = 1"
    using assms(2) by (rule rearm_expired_local_update)
  define Q where "Q j \<longleftrightarrow> j_enrollment_method j = LOCAL_SOCKET \<and> j_normalized_endpoint j = ep \<and>
    j_transport_profile_id j = pr \<and> j_requested_display_name j = Some n \<and>
    j_state j \<in> {CANCELLED, EXPIRED, FAILED} \<and> j_expires_at j \<le> now \<and>
    j_credential_temp_ref j = None" for j :: enrollment_job
  have P: "rearmable e ep pr n now r \<longleftrightarrow> row_id r = e \<and> Q (row_job r)" for r
    by (simp add: rearmable_def Q_def Let_def)
  have Qc: "Q c" using n c keyed_rowcount(1) [OF assms(1) P] by simp
  have "journal_get k d' = map_option (\<lambda>j. if k = e \<and> Q j then immutable_columns j v else j)
      (journal_get k d)" for k
    by (rule keyed_update_get [OF assms(1) u P]) simp
  then have "journal_get k d' = (if k = e then Some v else journal_get k d)" for k
    using c Qc v(1) by (simp add: rearm_immutable option.map_ident)
  then show ?thesis using c v Qc by (auto simp: Q_def rearm_def)
qed

theorem rearm_expired_local_spec_witness:
  "\<exists>d'. rearm_expired_local ''e5'' ''http://10.0.0.7:8100'' ''lab'' ''this host'' 600000000 900000000 fleet_db
     = Inr (rearm 600000000 900000000 (local_failed_job ''e5''), d') \<and>
   journal_get ''e5'' d' = Some (rearm 600000000 900000000 (local_failed_job ''e5'')) \<and>
   journal_get ''e1'' d' = journal_get ''e1'' fleet_db"
proof -
  have c: "rearm_expired_local ''e5'' ''http://10.0.0.7:8100'' ''lab'' ''this host'' 600000000 900000000 fleet_db
     = Inr (rearm 600000000 900000000 (local_failed_job ''e5''), after fleet_db (rearm_expired_local
       ''e5'' ''http://10.0.0.7:8100'' ''lab'' ''this host'' 600000000 900000000 fleet_db))"
    by code_simp
  from rearm_expired_local_spec [OF fleet_db_ok c] c show ?thesis by auto
qed

end
