(* ===== verification/Py_Url.thy ===== *)
theory Py_Url
  imports Py_Text
begin

text \<open>
  \<open>urllib.parse.urlsplit\<close> and the attributes of its result, as far as \<open>_canonical_endpoint\<close>
  of \<open>storage/manager_registry.py\<close> uses them, and that function.  \<open>None\<close> stands for the
  \<open>ValueError\<close> of the library and, in \<open>canonical_endpoint\<close>, for the raised
  \<open>RegistryInvariantError\<close>.

  The model computes on ASCII host parts.  For a non-ASCII host the library normalises the
  name to another (ASCII) one or raises; the only caller compares the result with its
  argument and raises the same exception when they differ, so \<open>None\<close> stands for both
  outcomes there.
\<close>

definition is_ascii :: "string \<Rightarrow> bool" where
  "is_ascii s \<longleftrightarrow> list_all (\<lambda>c. (of_char c :: nat) < 128) s"

text \<open>\<open>s.partition(c)\<close> (\<open>None\<close> when the separator is missing) and the last part of \<open>rpartition\<close>.\<close>

definition partition_at :: "char \<Rightarrow> string \<Rightarrow> string \<times> string option" where
  "partition_at c s = (takeWhile (\<lambda>x. x \<noteq> c) s,
     case dropWhile (\<lambda>x. x \<noteq> c) s of [] \<Rightarrow> None | _ # r \<Rightarrow> Some r)"

definition after_last :: "char \<Rightarrow> string \<Rightarrow> string" where
  "after_last c s = rev (takeWhile (\<lambda>x. x \<noteq> c) (rev s))"

section \<open>urlsplit\<close>

record split_result =
  u_scheme :: string
  u_netloc :: string
  u_path :: string
  u_query :: string
  u_fragment :: string

definition scheme_char :: "char \<Rightarrow> bool" where
  "scheme_char c \<longleftrightarrow> is_lower c \<or> is_upper c \<or> is_digit c \<or> c \<in> set ''+-.''"

definition sanitise :: "string \<Rightarrow> string" where
  "sanitise url = filter (\<lambda>c. c \<notin> {CHR 0x09, CHR 0x0D, CHR 0x0A})
     (dropWhile (\<lambda>c. (of_char c :: nat) \<le> 32) url)"

definition split_scheme :: "string \<Rightarrow> string \<times> string" where
  "split_scheme url =
     (case partition_at CHR '':'' url of
        (c # cs, Some rest) \<Rightarrow>
          if (is_lower c \<or> is_upper c) \<and> list_all scheme_char (c # cs)
          then (map to_lower (c # cs), rest) else ([], url)
      | _ \<Rightarrow> ([], url))"

definition ipv_future :: "string \<Rightarrow> bool" where
  "ipv_future h \<longleftrightarrow>
     (case h of [] \<Rightarrow> False
      | v # rest \<Rightarrow> v = CHR ''v'' \<and>
          (let hex = takeWhile is_hex rest; tail = dropWhile is_hex rest in
           hex \<noteq> [] \<and> (case tail of d # x # _ \<Rightarrow> d = CHR ''.'' | _ \<Rightarrow> False)))"

definition bracketed_host_ok :: "string \<Rightarrow> bool" where
  "bracketed_host_ok h \<longleftrightarrow>
     (if h \<noteq> [] \<and> hd h = CHR ''v'' then ipv_future h
      else parse_ipv4 h = None \<and> parse_ipv6 h \<noteq> None)"

definition netloc_ok :: "string \<Rightarrow> bool" where
  "netloc_ok n \<longleftrightarrow>
     (CHR ''['' \<in> set n \<longleftrightarrow> CHR '']'' \<in> set n) \<and>
     (CHR ''['' \<in> set n \<longrightarrow>
        (case partition_at CHR ''['' n of
           (_, Some r) \<Rightarrow> bracketed_host_ok (fst (partition_at CHR '']'' r)) | _ \<Rightarrow> False))"

definition opt_tail :: "string option \<Rightarrow> string" where
  "opt_tail x = (case x of None \<Rightarrow> [] | Some s \<Rightarrow> s)"

definition urlsplit :: "string \<Rightarrow> split_result option" where
  "urlsplit url0 =
     (let (scheme, url) = split_scheme (sanitise url0);
          has_netloc = (take 2 url = ''//'');
          netloc = (if has_netloc then takeWhile (\<lambda>c. c \<notin> set ''/?#'') (drop 2 url) else []);
          rest = (if has_netloc then dropWhile (\<lambda>c. c \<notin> set ''/?#'') (drop 2 url) else url);
          (before_fragment, fragment) = partition_at CHR ''#'' rest;
          (path, query) = partition_at CHR ''?'' before_fragment in
      if \<not> netloc_ok netloc then None
      else Some \<lparr>u_scheme = scheme, u_netloc = netloc, u_path = path, u_query = opt_tail query,
        u_fragment = opt_tail fragment\<rparr>)"

section \<open>Attributes of the result\<close>

definition hostinfo :: "string \<Rightarrow> string \<times> string option" where
  "hostinfo netloc =
     (let info = after_last CHR ''@'' netloc;
          (host, port) = (case partition_at CHR ''['' info of
             (_, Some bracketed) \<Rightarrow>
               (let (h, r) = partition_at CHR '']'' bracketed in
                (h, snd (partition_at CHR '':'' (opt_tail r))))
           | _ \<Rightarrow> partition_at CHR '':'' info) in
      (host, if port = Some [] then None else port))"

definition hostname :: "string \<Rightarrow> string option" where
  "hostname netloc =
     (let h = fst (hostinfo netloc);
          (name, zone) = partition_at CHR 0x25 h in
      if h = [] then None
      else Some (map to_lower name @ (case zone of None \<Rightarrow> [] | Some z \<Rightarrow> CHR 0x25 # z)))"

definition read_int :: "string \<Rightarrow> int" where
  "read_int s = foldl (\<lambda>v c. v * 10 + int (digit_val c)) 0 s"

fun show_dec :: "int \<Rightarrow> string" where
  "show_dec n = (if n < 10 then [digit_char (nat n)]
     else show_dec (n div 10) @ [digit_char (nat (n mod 10))])"

declare show_dec.simps [simp del]

text \<open>\<open>port\<close>: \<open>None\<close> for a \<open>ValueError\<close>, \<open>Some None\<close> for no port.  \<open>int()\<close> refuses more than 4300 digits.\<close>

definition port :: "string \<Rightarrow> int option option" where
  "port netloc =
     (case snd (hostinfo netloc) of
        None \<Rightarrow> Some None
      | Some p \<Rightarrow>
        if list_all is_digit p \<and> int (length p) \<le> 4300 \<and> read_int p \<le> 65535
        then Some (Some (read_int p)) else None)"

text \<open>\<open>hostname.encode("idna")\<close> for an ASCII name.\<close>

definition idna_ok :: "string \<Rightarrow> bool" where
  "idna_ok h \<longleftrightarrow>
     (let labels = split_on CHR ''.'' h in
      list_all (\<lambda>l. 0 < length l \<and> length l < 64) (butlast labels) \<and> length (last labels) < 64)"

section \<open>Canonical endpoints\<close>

definition canonical_endpoint :: "string \<Rightarrow> string option" where
  "canonical_endpoint value =
     (case urlsplit value of
        None \<Rightarrow> None
      | Some parsed \<Rightarrow>
        (case port (u_netloc parsed) of
           None \<Rightarrow> None
         | Some p \<Rightarrow>
           let default = (if u_scheme parsed = ''https'' then 443 else 80 :: int);
               port_number = (case p of None \<Rightarrow> default | Some n \<Rightarrow> if n = 0 then default else n) in
           (case hostname (u_netloc parsed) of
              None \<Rightarrow> None
            | Some host \<Rightarrow>
              if u_scheme parsed \<notin> {''http'', ''https''} \<or> CHR ''@'' \<in> set (u_netloc parsed)
                 \<or> u_path parsed \<notin> {[], ''/''} \<or> u_query parsed \<noteq> [] \<or> u_fragment parsed \<noteq> []
                 \<or> \<not> is_ascii (u_netloc parsed) \<or> \<not> idna_ok host
              then None
              else
                let name = map to_lower host;
                    rendered = (if CHR '':'' \<in> set name then ''['' @ name @ '']'' else name) in
                Some (u_scheme parsed @ ''://'' @ rendered @ '':'' @ show_dec port_number))))"

end
