(* ===== verification/Manager_Registry.thy ===== *)
theory Manager_Registry
  imports Journal_Properties Py_Url
begin

text \<open>
  \<open>ManagerRegistryRepository\<close> of \<open>storage/manager_registry.py\<close>: the table of registered
  agents with optimistic locking on \<open>revision\<close>, the commit of an activated enrollment, the
  swap of a rotated credential and the deletion of an agent.  One definition per method.
  \<open>uuid4()\<close> is an argument of \<open>get_or_create_manager_id\<close>.

  The methods are collected in \<open>registry_op\<close> and \<open>run_registry\<close>.
\<close>

section \<open>Validation of records\<close>

definition known_sources :: "string list" where
  "known_sources = [''config_import'', ''manual'', ''discovery'', ''local_dev_bootstrap'']"

definition valid_record :: "agent_record \<Rightarrow> bool" where
  "valid_record a \<longleftrightarrow>
     \<not> is_blank (a_agent_id a) \<and> \<not> is_blank (a_display_name a) \<and>
     \<not> is_blank (a_normalized_endpoint a) \<and> \<not> is_blank (a_credential_ref a) \<and>
     \<not> is_blank (a_transport_profile_id a) \<and>
     credential_ref_re (a_credential_ref a) \<and>
     canonical_endpoint (a_normalized_endpoint a) = Some (a_normalized_endpoint a) \<and>
     1 \<le> a_revision a \<and>
     a_source a \<in> set known_sources \<and>
     (a_enrollment_method a = LOCAL_SOCKET \<longleftrightarrow> a_source a = ''local_dev_bootstrap'') \<and>
     (a_instance_id a \<noteq> None \<or> a_enrollment_method a = LEGACY_ADMIN_TOKEN) \<and>
     (a_remote_credential_id a \<noteq> None \<or> a_enrollment_method a = LEGACY_ADMIN_TOKEN)"

definition validate_record :: "agent_record \<Rightarrow> registry_error + unit" where
  "validate_record a = (if valid_record a then Inr () else Inl RegistryInvariantError)"

lemma validate_record_simps [simp]:
  "validate_record a = Inr u \<longleftrightarrow> valid_record a"
  "validate_record a = Inl e \<longleftrightarrow> \<not> valid_record a \<and> e = RegistryInvariantError"
  by (auto simp: validate_record_def)

lemma valid_record_check: "valid_record a \<Longrightarrow> check_agent a"
  by (auto simp: valid_record_def check_agent_def known_sources_def)

section \<open>Reads\<close>

definition agent_get :: "string \<Rightarrow> manager_db \<Rightarrow> agent_record option" where
  "agent_get i d = find (\<lambda>a. a_agent_id a = i) (db_agents d)"

text \<open>
  The rows that \<open>find_duplicate\<close> may return: its query has \<open>LIMIT 1\<close> and no \<open>ORDER BY\<close>, so
  the result is \<open>None\<close> exactly when the list is empty and one of the list otherwise.
\<close>

definition find_duplicate :: "string option \<Rightarrow> string \<Rightarrow> manager_db \<Rightarrow> agent_record list" where
  "find_duplicate instance_id endpoint d =
     (case instance_id of
        None \<Rightarrow> filter (\<lambda>a. a_normalized_endpoint a = endpoint) (db_agents d)
      | Some i \<Rightarrow> filter (\<lambda>a. sql_eq (a_instance_id a) (Some i) \<or> a_normalized_endpoint a = endpoint)
          (db_agents d))"

definition list_agents :: "agent_query \<Rightarrow> manager_db \<Rightarrow> registry_error + agent_page" where
  "list_agents q d =
     (if \<not> (1 \<le> q_limit q \<and> q_limit q \<le> 1000) then Inl RegistryInvariantError
      else
        let limit = nat (q_limit q);
            matching = (case q_cursor q of None \<Rightarrow> db_agents d
              | Some c \<Rightarrow> filter (\<lambda>a. c < a_agent_id a) (db_agents d));
            rows = take (limit + 1) (sort_key a_agent_id matching);
            items = take limit rows in
        Inr \<lparr>p_items = items,
             p_next_cursor = (if limit < length rows then Some (a_agent_id (last items)) else None)\<rparr>)"

definition credential_references :: "manager_db \<Rightarrow> string set" where
  "credential_references d = a_credential_ref ` set (db_agents d)"

section \<open>Identity of the Manager\<close>

definition get_or_create_manager_id :: "string \<Rightarrow> string repo" where
  "get_or_create_manager_id fresh d =
     (let (v, d') = (case db_manager_id d of
          None \<Rightarrow> (fresh, d\<lparr>db_manager_id := Some fresh\<rparr>)
        | Some v \<Rightarrow> (v, d)) in
      if uuid_canonical v then Inr (v, d') else Inl RegistryError)"

section \<open>Creation\<close>

abbreviation agent_conflict :: registry_error where
  "agent_conflict \<equiv> RegistryConflict ''agent ID, identity, or endpoint already exists''"

abbreviation identity_conflict :: registry_error where
  "identity_conflict \<equiv> RegistryConflict ''agent identity or endpoint already exists''"

definition create_agent :: "agent_record \<Rightarrow> agent_record repo" where
  "create_agent a d =
     (case validate_record a of Inl e \<Rightarrow> Inl e
      | Inr _ \<Rightarrow>
        (case insert_agent a d of None \<Rightarrow> Inl agent_conflict | Some d' \<Rightarrow> Inr (a, d')))"

definition fresh_status :: "string \<Rightarrow> int \<Rightarrow> string \<Rightarrow> instant \<Rightarrow> agent_status_record" where
  "fresh_status agent_id target connection now = \<lparr>s_agent_id = agent_id, s_target_revision = target,
     s_connection_status = connection, s_workload_status = ''unknown'', s_observed_at = None,
     s_stale_after = None, s_api_version = None, s_agent_version = None, s_capabilities = [],
     s_summary = JDict [], s_last_error_code = None, s_updated_at = now\<rparr>"

definition set_consumed ::
  "string option \<Rightarrow> instant \<Rightarrow> enrollment_job \<Rightarrow> enrollment_job" where
  "set_consumed receipt now j = (clear_claims j)\<lparr>j_state := CONSUMED,
     j_credential_temp_ref := None, j_validated_http_address := None,
     j_cli_accept_receipt := receipt, j_updated_at := now\<rparr>"

definition activated_claim :: "enrollment_job \<Rightarrow> job_row \<Rightarrow> bool" where
  "activated_claim job r \<longleftrightarrow> row_id r = j_enrollment_id job \<and> j_state (row_job r) = ACTIVATED \<and>
     sql_eq (j_recovery_owner (row_job r)) (j_recovery_owner job) \<and>
     j_recovery_revision (row_job r) = j_recovery_revision job"

definition commit_activated_enrollment ::
  "enrollment_job \<Rightarrow> agent_record \<Rightarrow> instant \<Rightarrow> string option \<Rightarrow> agent_record repo" where
  "commit_activated_enrollment job a now receipt d =
     (if j_state job \<noteq> ACTIVATED then Inl RegistryInvariantError
      else case validate_record a of Inl e \<Rightarrow> Inl e
      | Inr _ \<Rightarrow>
        (case (case agent_get (a_agent_id a) d of
                 None \<Rightarrow> (case insert_agent a d of None \<Rightarrow> Inl agent_conflict | Some d1 \<Rightarrow> Inr d1)
               | Some existing \<Rightarrow> if existing \<noteq> a then Inl agent_conflict else Inr d) of
           Inl e \<Rightarrow> Inl e
         | Inr d1 \<Rightarrow>
           (case insert_status_or_ignore
               (fresh_status (a_agent_id a) (a_revision a) ''unknown'' now) d1 of
              None \<Rightarrow> Inl agent_conflict
            | Some d2 \<Rightarrow>
              (case update_jobs (activated_claim job) (set_job (set_consumed receipt now)) d2 of
                 None \<Rightarrow> Inl agent_conflict
               | Some d3 \<Rightarrow>
                 if rowcount (activated_claim job) (db_jobs d2) \<noteq> 1 then Inl RevisionConflict
                 else Inr (a, d3)))))"

section \<open>Updates\<close>

definition overwrite :: "agent_record \<Rightarrow> agent_record \<Rightarrow> agent_record" where
  "overwrite new old = new\<lparr>a_agent_id := a_agent_id old\<rparr>"

definition at_revision :: "string \<Rightarrow> int \<Rightarrow> agent_record \<Rightarrow> bool" where
  "at_revision i n a \<longleftrightarrow> a_agent_id a = i \<and> a_revision a = n"

definition update_if_revision ::
  "agent_record \<Rightarrow> int \<Rightarrow> string option \<Rightarrow> string option \<Rightarrow> agent_record repo" where
  "update_if_revision a expected_revision owner_enrollment_id owner_removal_id d =
     (if expected_revision < 1 then Inl RegistryInvariantError
      else
        let updated = a\<lparr>a_revision := expected_revision + 1\<rparr>;
            P = at_revision (a_agent_id a) expected_revision in
        case validate_record updated of Inl e \<Rightarrow> Inl e
        | Inr _ \<Rightarrow>
          (case assert_agent_mutation_allowed (a_agent_id a) owner_enrollment_id owner_removal_id d of
             Inl e \<Rightarrow> Inl e
           | Inr _ \<Rightarrow>
             (case update_agents P (overwrite updated) d of
                None \<Rightarrow> Inl identity_conflict
              | Some d' \<Rightarrow>
                if rowcount P (db_agents d) \<noteq> 1 then Inl RevisionConflict else Inr (updated, d'))))"

definition update_and_reset_status ::
  "agent_record \<Rightarrow> int \<Rightarrow> instant \<Rightarrow> string option \<Rightarrow> string option \<Rightarrow> agent_record repo" where
  "update_and_reset_status a expected_revision now owner_enrollment_id owner_removal_id d =
     (let updated = a\<lparr>a_revision := expected_revision + 1, a_updated_at := now\<rparr>;
          P = at_revision (a_agent_id a) expected_revision in
      case validate_record updated of Inl e \<Rightarrow> Inl e
      | Inr _ \<Rightarrow>
        (case assert_agent_mutation_allowed (a_agent_id a) owner_enrollment_id owner_removal_id d of
           Inl e \<Rightarrow> Inl e
         | Inr _ \<Rightarrow>
           (case update_agents P (overwrite updated) d of
              None \<Rightarrow> Inl identity_conflict
            | Some d1 \<Rightarrow>
              if rowcount P (db_agents d) \<noteq> 1 then Inl RevisionConflict
              else case upsert_status (fresh_status (a_agent_id updated) (a_revision updated)
                     (if a_enabled updated then ''unknown'' else ''disabled'') now) d1 of
                None \<Rightarrow> Inl identity_conflict
              | Some d2 \<Rightarrow> Inr (updated, d2))))"

section \<open>Swapping a rotated credential\<close>

definition py_or :: "string option \<Rightarrow> string \<Rightarrow> string" where
  "py_or x y = (case x of None \<Rightarrow> y | Some s \<Rightarrow> if s = [] then y else s)"

definition rotation_complete :: "enrollment_job \<Rightarrow> bool" where
  "rotation_complete job \<longleftrightarrow> j_state job = ACTIVATED \<and> j_replace_agent_id job \<noteq> None \<and>
     j_credential_temp_ref job \<noteq> None \<and> j_old_credential_ref job \<noteq> None \<and>
     j_old_registry_revision job \<noteq> None \<and> j_old_enrollment_method job \<noteq> None \<and>
     j_old_source job \<noteq> None \<and> j_old_display_name job \<noteq> None"

definition rotated :: "enrollment_job \<Rightarrow> instant \<Rightarrow> agent_record \<Rightarrow> agent_record" where
  "rotated job now old = \<lparr>a_agent_id = a_agent_id old, a_instance_id = j_remote_instance_id job,
     a_display_name = py_or (j_old_display_name job) (a_display_name old),
     a_normalized_endpoint = j_normalized_endpoint job,
     a_credential_ref = py_or (j_credential_temp_ref job) [],
     a_remote_credential_id = j_remote_credential_id job,
     a_transport_profile_id = j_transport_profile_id job,
     a_enrollment_method = j_enrollment_method job,
     a_enabled = (j_old_enabled job = Some True),
     a_source = py_or (j_old_source job) (a_source old),
     a_revision = (case j_old_registry_revision job of None \<Rightarrow> a_revision old
       | Some n \<Rightarrow> if n = 0 then a_revision old else n) + 1,
     a_created_at = a_created_at old, a_updated_at = now\<rparr>"

definition captured_agent :: "enrollment_job \<Rightarrow> string \<Rightarrow> agent_record \<Rightarrow> bool" where
  "captured_agent job i a \<longleftrightarrow> a_agent_id a = i \<and>
     sql_eq (Some (a_revision a)) (j_old_registry_revision job) \<and>
     sql_eq (Some (a_credential_ref a)) (j_old_credential_ref job) \<and>
     sql_eq (a_instance_id a) (j_old_instance_id job)"

definition swap_rotation :: "enrollment_job \<Rightarrow> instant \<Rightarrow> agent_record repo" where
  "swap_rotation job now d =
     (if \<not> rotation_complete job then Inl RegistryInvariantError
      else case Option.bind (j_replace_agent_id job) (\<lambda>i. agent_get i d) of
        None \<Rightarrow> Inl (RegistryConflict ''agent_not_found'')
      | Some old \<Rightarrow>
        (case assert_agent_mutation_allowed (a_agent_id old) (Some (j_enrollment_id job)) None d of
           Inl e \<Rightarrow> Inl e
         | Inr _ \<Rightarrow>
           if Some (a_revision old) \<noteq> j_old_registry_revision job
              \<or> Some (a_credential_ref old) \<noteq> j_old_credential_ref job
              \<or> a_instance_id old \<noteq> j_old_instance_id job
           then Inl RevisionConflict
           else let updated = rotated job now old; P = captured_agent job (a_agent_id updated) in
             (case validate_record updated of Inl e \<Rightarrow> Inl e
              | Inr _ \<Rightarrow>
                (case update_agents P (overwrite updated) d of
                   None \<Rightarrow> Inl identity_conflict
                 | Some d1 \<Rightarrow>
                   if rowcount P (db_agents d) \<noteq> 1 then Inl RevisionConflict
                   else case upsert_status (fresh_status (a_agent_id updated) (a_revision updated)
                          ''unknown'' now) d1 of
                     None \<Rightarrow> Inl identity_conflict
                   | Some d2 \<Rightarrow> Inr (updated, d2)))))"

section \<open>Deletion\<close>

definition delete_agent :: "string \<Rightarrow> string option \<Rightarrow> string option \<Rightarrow> unit repo" where
  "delete_agent agent_id owner_enrollment_id owner_removal_id d =
     (case assert_agent_mutation_allowed agent_id owner_enrollment_id owner_removal_id d of
        Inl e \<Rightarrow> Inl e
      | Inr _ \<Rightarrow>
        (case delete_agents (\<lambda>a. a_agent_id a = agent_id) d of
           None \<Rightarrow> Inl RegistryError | Some d' \<Rightarrow> Inr ((), d')))"

definition matches_agent :: "string \<Rightarrow> int \<Rightarrow> string \<Rightarrow> agent_record \<Rightarrow> bool" where
  "matches_agent i n ref a \<longleftrightarrow> a_agent_id a = i \<and> a_revision a = n \<and> a_credential_ref a = ref"

definition detach :: "job_row \<Rightarrow> job_row" where
  "detach r = r\<lparr>row_tombstone := j_replace_agent_id (row_job r),
     row_job := (row_job r)\<lparr>j_replace_agent_id := None\<rparr>\<rparr>"

definition detachable :: "string \<Rightarrow> job_row \<Rightarrow> bool" where
  "detachable i r \<longleftrightarrow> j_replace_agent_id (row_job r) = Some i \<and> terminal (j_state (row_job r))"

definition delete_if_revision_and_credential ::
  "string \<Rightarrow> int \<Rightarrow> string \<Rightarrow> string option \<Rightarrow> string option \<Rightarrow> bool repo" where
  "delete_if_revision_and_credential agent_id expected_revision expected_ref
     owner_enrollment_id owner_removal_id d =
     (case assert_agent_mutation_allowed agent_id owner_enrollment_id owner_removal_id d of
        Inl e \<Rightarrow> Inl e
      | Inr _ \<Rightarrow>
        let P = matches_agent agent_id expected_revision expected_ref in
        if find P (db_agents d) = None then Inr (False, d)
        else if find (active_rotation agent_id) (db_jobs d) \<noteq> None
        then Inl (RegistryConflict ''agent_mutation_in_progress'')
        else case update_jobs (detachable agent_id) detach d of
          None \<Rightarrow> Inl RegistryError
        | Some d1 \<Rightarrow>
          (case delete_agents P d1 of
             None \<Rightarrow> Inl RegistryError
           | Some d2 \<Rightarrow>
             if rowcount P (db_agents d1) \<noteq> 1 then Inl RegistryError else Inr (True, d2)))"

section \<open>The registry as a transaction system\<close>

datatype registry_op =
    RManagerId string
  | RCreate agent_record
  | RCommit enrollment_job agent_record instant "string option"
  | RUpdate agent_record int "string option" "string option"
  | RUpdateReset agent_record int instant "string option" "string option"
  | RSwap enrollment_job instant
  | RDelete string "string option" "string option"
  | RDeleteIf string int string "string option" "string option"

datatype registry_reply = RText string | RAgent agent_record | RDone | RFlag bool

definition answer :: "('a \<Rightarrow> registry_reply) \<Rightarrow> registry_error + 'a \<times> manager_db
    \<Rightarrow> registry_error + registry_reply \<times> manager_db" where
  "answer g r = (case r of Inl e \<Rightarrow> Inl e | Inr (v, d) \<Rightarrow> Inr (g v, d))"

fun run_registry :: "registry_op \<Rightarrow> registry_reply repo" where
  "run_registry (RManagerId u) d = answer RText (get_or_create_manager_id u d)"
| "run_registry (RCreate a) d = answer RAgent (create_agent a d)"
| "run_registry (RCommit j a now rc) d = answer RAgent (commit_activated_enrollment j a now rc d)"
| "run_registry (RUpdate a n oe orm) d = answer RAgent (update_if_revision a n oe orm d)"
| "run_registry (RUpdateReset a n now oe orm) d =
     answer RAgent (update_and_reset_status a n now oe orm d)"
| "run_registry (RSwap j now) d = answer RAgent (swap_rotation j now d)"
| "run_registry (RDelete i oe orm) d = answer (\<lambda>_. RDone) (delete_agent i oe orm d)"
| "run_registry (RDeleteIf i n ref oe orm) d =
     answer RFlag (delete_if_revision_and_credential i n ref oe orm d)"

lemma answer_Inr: "answer g r = Inr (v, d) \<longleftrightarrow> (\<exists>w. r = Inr (w, d) \<and> v = g w)"
  by (auto simp: answer_def split: sum.splits prod.splits)

end
