(* ===== verification/Registry_Properties.thy ===== *)
theory Registry_Properties
  imports Manager_Registry Journal_Samples
begin

text \<open>
  Properties of the agent registry: the schema is kept by every method, \<open>revision\<close> is a
  version number, a held mutation fence stops every other writer, activation commits exactly
  once, a duplicate is refused exactly when the query reports one, pages partition the
  registry, and deletion leaves no dangling reference.
\<close>

section \<open>Rows of the agents table\<close>

lemma db_ok_agent_ids: "db_ok d \<Longrightarrow> agent_ids_unique (db_agents d)"
  by (simp add: db_ok_def agents_ok_def agents_unique_ids)

lemma agent_get_iff:
  "db_ok d \<Longrightarrow> agent_get i d = Some a \<longleftrightarrow> a \<in> set (db_agents d) \<and> a_agent_id a = i"
  unfolding agent_get_def by (rule agents_table.find_key_iff [OF db_ok_agent_ids])

lemma agent_getD: "agent_get i d = Some a \<Longrightarrow> a \<in> set (db_agents d) \<and> a_agent_id a = i"
  unfolding agent_get_def by (rule agents_table.find_keyD)

lemma agent_get_exists: "agent_get i d \<noteq> None \<longleftrightarrow> agent_exists d i"
  by (auto simp: agent_get_def agent_exists_def find_None_iff)

lemma update_agents_Some:
  "update_agents P f d = Some d' \<Longrightarrow> d' = d\<lparr>db_agents := sql_update P f (db_agents d)\<rparr>"
  by (auto simp: update_agents_def Let_def split: if_splits)

lemma insert_agent_Some: "insert_agent a d = Some d' \<Longrightarrow> d' = d\<lparr>db_agents := db_agents d @ [a]\<rparr>"
  by (auto simp: insert_agent_def split: if_splits)

lemma agent_get_update:
  assumes "db_ok d" and "update_agents P f d = Some d'"
    and "\<And>a. P a \<Longrightarrow> a_agent_id (f a) = a_agent_id a"
  shows "agent_get i d' = map_option (\<lambda>a. if P a then f a else a) (agent_get i d)"
  using agents_table.find_sql_update [OF db_ok_agent_ids [OF assms(1)], of P f i] assms(3)
  by (simp add: agent_get_def update_agents_Some [OF assms(2)])

lemma insert_agent_fresh:
  assumes "insert_agent a d = Some d'"
  shows "agent_get (a_agent_id a) d = None"
proof -
  have "a_agent_id a \<notin> a_agent_id ` set (db_agents d)"
    using assms by (auto simp: insert_agent_def agents_unique_def split: if_splits)
  then show ?thesis unfolding agent_get_def find_None_iff by (metis (mono_tags) image_eqI)
qed

lemma agent_get_insert:
  assumes "insert_agent a d = Some d'"
  shows "agent_get i d' = (if i = a_agent_id a then Some a else agent_get i d)"
  using insert_agent_fresh [OF assms]
  by (auto simp: insert_agent_Some [OF assms] agent_get_def agents_table.find_append_key
      split: option.splits dest: agents_table.find_keyD)

lemma agent_get_frame [simp]:
  "agent_get i (d\<lparr>db_jobs := x\<rparr>) = agent_get i d"
  "agent_get i (d\<lparr>db_status := y\<rparr>) = agent_get i d"
  "agent_get i (d\<lparr>db_manager_id := z\<rparr>) = agent_get i d"
  by (simp_all add: agent_get_def)

lemma status_statements_agents:
  "upsert_status s d = Some d' \<Longrightarrow> db_agents d' = db_agents d \<and> db_jobs d' = db_jobs d"
  "insert_status_or_ignore s d = Some d' \<Longrightarrow> db_agents d' = db_agents d \<and> db_jobs d' = db_jobs d"
  by (auto simp: upsert_status_def insert_status_or_ignore_def split: if_splits)

lemma overwrite_id [simp]: "a_agent_id (overwrite new old) = a_agent_id old"
  by (simp add: overwrite_def)

lemma overwrite_same: "a_agent_id old = a_agent_id new \<Longrightarrow> overwrite new old = new"
  by (simp add: overwrite_def)

section \<open>Every method keeps the schema\<close>

lemma commit_update:
  assumes "commit_activated_enrollment job a now rc d = Inr (v, d')"
  obtains d1 d2 where "j_state job = ACTIVATED" and "valid_record a" and "v = a"
    and "(agent_get (a_agent_id a) d = None \<and> insert_agent a d = Some d1) \<or>
      (agent_get (a_agent_id a) d = Some a \<and> d1 = d)"
    and "insert_status_or_ignore (fresh_status (a_agent_id a) (a_revision a) ''unknown'' now) d1 = Some d2"
    and "update_jobs (activated_claim job) (set_job (set_consumed rc now)) d2 = Some d'"
    and "rowcount (activated_claim job) (db_jobs d2) = 1"
  using assms that
  by (auto simp: commit_activated_enrollment_def split: sum.splits option.splits if_splits)

lemma update_if_revision_update:
  assumes "update_if_revision a n oe orm d = Inr (v, d')"
  shows "1 \<le> n \<and> v = a\<lparr>a_revision := n + 1\<rparr> \<and> valid_record v \<and> mutation_allowed d (a_agent_id a) oe orm \<and>
    update_agents (at_revision (a_agent_id a) n) (overwrite v) d = Some d' \<and>
    rowcount (at_revision (a_agent_id a) n) (db_agents d) = 1"
  using assms
  by (auto simp: update_if_revision_def Let_def split: sum.splits option.splits if_splits)

lemma update_and_reset_update:
  assumes "update_and_reset_status a n now oe orm d = Inr (v, d')"
  obtains d1 where "v = a\<lparr>a_revision := n + 1, a_updated_at := now\<rparr>" and "valid_record v"
    and "mutation_allowed d (a_agent_id a) oe orm"
    and "update_agents (at_revision (a_agent_id a) n) (overwrite v) d = Some d1"
    and "rowcount (at_revision (a_agent_id a) n) (db_agents d) = 1"
    and "upsert_status (fresh_status (a_agent_id v) (a_revision v)
      (if a_enabled v then ''unknown'' else ''disabled'') now) d1 = Some d'"
  using assms that
  by (auto simp: update_and_reset_status_def Let_def split: sum.splits option.splits if_splits)

lemma swap_rotation_update:
  assumes "swap_rotation job now d = Inr (v, d')"
  obtains i old d1 where "rotation_complete job" and "j_replace_agent_id job = Some i"
    and "agent_get i d = Some old" and "mutation_allowed d i (Some (j_enrollment_id job)) None"
    and "Some (a_revision old) = j_old_registry_revision job" and "v = rotated job now old"
    and "valid_record v" and "update_agents (captured_agent job i) (overwrite v) d = Some d1"
    and "rowcount (captured_agent job i) (db_agents d) = 1"
    and "upsert_status (fresh_status i (a_revision v) ''unknown'' now) d1 = Some d'"
proof -
  obtain i old where "j_replace_agent_id job = Some i" "agent_get i d = Some old"
    using assms by (auto simp: swap_rotation_def split: option.splits if_splits Option.bind_splits)
  moreover from this have "a_agent_id old = i" using agent_getD by blast
  moreover have "a_agent_id (rotated job now old) = a_agent_id old" by (simp add: rotated_def)
  ultimately show thesis
    using assms that
    by (auto simp: swap_rotation_def Let_def split: sum.splits option.splits if_splits)
qed

lemma delete_if_update:
  assumes "delete_if_revision_and_credential i n ref oe orm d = Inr (v, d')"
  shows "mutation_allowed d i oe orm \<and>
    (if v then find (matches_agent i n ref) (db_agents d) \<noteq> None \<and>
        find (active_rotation i) (db_jobs d) = None \<and>
        (\<exists>d1. update_jobs (detachable i) detach d = Some d1 \<and>
          delete_agents (matches_agent i n ref) d1 = Some d')
     else find (matches_agent i n ref) (db_agents d) = None \<and> d' = d)"
  using assms
  by (auto simp: delete_if_revision_and_credential_def Let_def
      split: sum.splits option.splits if_splits)

lemma detach_id [simp]: "row_id (detach r) = row_id r"
  by (simp add: detach_def)

lemma run_registry_ok:
  assumes "db_ok d" and "run_registry x d = Inr (v, d')"
  shows "db_ok d'"
proof (cases x)
  case (RManagerId u)
  then show ?thesis
    using assms by (auto simp: answer_Inr get_or_create_manager_id_def db_ok_def jobs_ok_def
        agents_ok_def status_ok_def removals_ok_def agent_exists_def replaced_agent_ok_def
        split: option.splits if_splits)
next
  case (RCreate a)
  then show ?thesis using assms
    by (auto simp: answer_Inr create_agent_def intro: insert_agent_ok split: sum.splits option.splits)
next
  case (RCommit j a now rc)
  then obtain w where "commit_activated_enrollment j a now rc d = Inr (w, d')"
    using assms(2) by (auto simp: answer_Inr)
  then show ?thesis
  proof (rule commit_update)
    fix d1 d2
    assume "(agent_get (a_agent_id a) d = None \<and> insert_agent a d = Some d1) \<or>
      (agent_get (a_agent_id a) d = Some a \<and> d1 = d)"
      and s: "insert_status_or_ignore (fresh_status (a_agent_id a) (a_revision a) ''unknown'' now) d1 = Some d2"
      and u: "update_jobs (activated_claim j) (set_job (set_consumed rc now)) d2 = Some d'"
    then have "db_ok d1" using assms(1) insert_agent_ok by blast
    then have "db_ok d2" using s insert_status_or_ignore_ok by blast
    then show ?thesis
      by (rule update_jobs_set_job_ok [OF _ u]) (simp add: set_consumed_def clear_claims_def)
  qed
next
  case (RUpdate a n oe orm)
  then show ?thesis
    using assms update_if_revision_update update_agents_ok [OF assms(1)]
    by (metis answer_Inr overwrite_id run_registry.simps(4))
next
  case (RUpdateReset a n now oe orm)
  then obtain w where "update_and_reset_status a n now oe orm d = Inr (w, d')"
    using assms(2) by (auto simp: answer_Inr)
  then show ?thesis
    by (rule update_and_reset_update)
      (rule upsert_status_ok, rule update_agents_ok [OF assms(1)], simp_all)
next
  case (RSwap j now)
  then obtain w where "swap_rotation j now d = Inr (w, d')" using assms(2) by (auto simp: answer_Inr)
  then show ?thesis
    by (rule swap_rotation_update)
      (rule upsert_status_ok, rule update_agents_ok [OF assms(1)], simp_all)
next
  case (RDelete i oe orm)
  then show ?thesis using assms
    by (auto simp: answer_Inr delete_agent_def intro: delete_agents_ok split: sum.splits option.splits)
next
  case (RDeleteIf i n ref oe orm)
  then obtain w where w: "delete_if_revision_and_credential i n ref oe orm d = Inr (w, d')"
    using assms(2) by (auto simp: answer_Inr)
  show ?thesis
  proof (cases w)
    case True
    then obtain d1 where u: "update_jobs (detachable i) detach d = Some d1"
      and k: "delete_agents (matches_agent i n ref) d1 = Some d'"
      using delete_if_update [OF w] by auto
    have "db_ok d1" by (rule update_jobs_ok [OF assms(1) _ u]) simp
    then show ?thesis using k delete_agents_ok by blast
  next
    case False
    then show ?thesis using delete_if_update [OF w] assms(1) by simp
  qed
qed

interpretation registry: txn_system run_registry db_ok
  by unfold_locales (rule run_registry_ok)

section \<open>The revision is a version number\<close>

fun is_delete :: "registry_op \<Rightarrow> bool" where
  "is_delete (RDelete _ _ _) = True"
| "is_delete (RDeleteIf _ _ _ _ _) = True"
| "is_delete _ = False"

definition newer :: "agent_record \<Rightarrow> agent_record \<Rightarrow> bool" where
  "newer a b \<longleftrightarrow> b = a \<or> a_revision a < a_revision b"

lemma newer_trans: "newer a b \<Longrightarrow> newer b c \<Longrightarrow> newer a c"
  by (auto simp: newer_def)

definition agents_advance :: "manager_db \<Rightarrow> manager_db \<Rightarrow> bool" where
  "agents_advance d d' \<longleftrightarrow> (\<forall>i a. agent_get i d = Some a \<longrightarrow>
     (\<exists>b. agent_get i d' = Some b \<and> newer a b))"

lemma agents_advance_refl: "agents_advance d d"
  by (simp add: agents_advance_def newer_def)

lemma agents_advance_trans: "agents_advance a b \<Longrightarrow> agents_advance b c \<Longrightarrow> agents_advance a c"
  unfolding agents_advance_def by (meson newer_trans)

lemma agents_advance_cong: "db_agents d' = db_agents d \<Longrightarrow> agents_advance d d'"
  by (simp add: agents_advance_def agent_get_def newer_def)

lemma update_agents_advance:
  assumes "db_ok d" and "update_agents P (overwrite v) d = Some d'"
    and "\<And>a. a \<in> set (db_agents d) \<Longrightarrow> P a \<Longrightarrow> a_revision a < a_revision v"
  shows "agents_advance d d'"
  unfolding agents_advance_def
proof (intro allI impI)
  fix i a
  assume a: "agent_get i d = Some a"
  have "newer a (if P a then overwrite v a else a)"
    using assms(3) [of a] agent_getD [OF a] by (simp add: newer_def overwrite_def)
  then show "\<exists>b. agent_get i d' = Some b \<and> newer a b"
    using agent_get_update [OF assms(1,2), of i] a by simp
qed

lemma insert_agent_advance:
  assumes "insert_agent a d = Some d'"
  shows "agents_advance d d'"
  using insert_agent_fresh [OF assms]
  by (auto simp: agents_advance_def newer_def agent_get_insert [OF assms])

lemma run_registry_advance:
  assumes "db_ok d" and "run_registry x d = Inr (v, d')" and "\<not> is_delete x"
  shows "agents_advance d d'"
proof (cases x)
  case (RCreate a)
  then have "insert_agent a d = Some d'"
    using assms(2) by (auto simp: answer_Inr create_agent_def split: sum.splits option.splits)
  then show ?thesis by (rule insert_agent_advance)
next
  case (RCommit j a now rc)
  then obtain w where "commit_activated_enrollment j a now rc d = Inr (w, d')"
    using assms(2) by (auto simp: answer_Inr)
  then show ?thesis
  proof (rule commit_update)
    fix d1 d2
    assume c: "(agent_get (a_agent_id a) d = None \<and> insert_agent a d = Some d1) \<or>
      (agent_get (a_agent_id a) d = Some a \<and> d1 = d)"
      and s: "insert_status_or_ignore (fresh_status (a_agent_id a) (a_revision a) ''unknown'' now) d1 = Some d2"
      and u: "update_jobs (activated_claim j) (set_job (set_consumed rc now)) d2 = Some d'"
    have "db_agents d' = db_agents d1"
      using update_jobs_Some [OF u] status_statements_agents(2) [OF s] by simp
    then have "agents_advance d1 d'" by (rule agents_advance_cong)
    moreover have "agents_advance d d1"
      using c insert_agent_advance agents_advance_refl by blast
    ultimately show ?thesis using agents_advance_trans by blast
  qed
next
  case (RUpdate a n oe orm)
  then obtain w where "update_if_revision a n oe orm d = Inr (w, d')"
    using assms(2) by (auto simp: answer_Inr)
  note u = update_if_revision_update [OF this]
  then have "update_agents (at_revision (a_agent_id a) n) (overwrite w) d = Some d'" by blast
  then show ?thesis using u by (elim update_agents_advance [OF assms(1)]) (auto simp: at_revision_def)
next
  case (RUpdateReset a n now oe orm)
  then obtain w where "update_and_reset_status a n now oe orm d = Inr (w, d')"
    using assms(2) by (auto simp: answer_Inr)
  then show ?thesis
  proof (rule update_and_reset_update)
    fix d1
    assume w: "w = a\<lparr>a_revision := n + 1, a_updated_at := now\<rparr>"
      and u: "update_agents (at_revision (a_agent_id a) n) (overwrite w) d = Some d1"
      and s: "upsert_status (fresh_status (a_agent_id w) (a_revision w)
        (if a_enabled w then ''unknown'' else ''disabled'') now) d1 = Some d'"
    have "agents_advance d d1"
      by (rule update_agents_advance [OF assms(1) u]) (simp add: w at_revision_def)
    then show ?thesis
      using agents_advance_cong status_statements_agents(1) [OF s] agents_advance_trans by blast
  qed
next
  case (RSwap j now)
  then obtain w where "swap_rotation j now d = Inr (w, d')" using assms(2) by (auto simp: answer_Inr)
  then show ?thesis
  proof (rule swap_rotation_update)
    fix i old d1
    assume w: "w = rotated j now old" and o: "agent_get i d = Some old"
      and r: "Some (a_revision old) = j_old_registry_revision j"
      and u: "update_agents (captured_agent j i) (overwrite w) d = Some d1"
      and s: "upsert_status (fresh_status i (a_revision w) ''unknown'' now) d1 = Some d'"
    have "1 \<le> a_revision old"
      using agent_getD [OF o] assms(1) by (auto simp: db_ok_def agents_ok_def check_agent_def)
    then have "a_revision w = a_revision old + 1" using r by (auto simp: w rotated_def split: option.splits)
    moreover have "a_revision a = a_revision old" if "captured_agent j i a" for a
      using that unfolding captured_agent_def r [symmetric] by simp
    ultimately have "agents_advance d d1"
      by (intro update_agents_advance [OF assms(1) u]) simp
    then show ?thesis
      using agents_advance_cong status_statements_agents(1) [OF s] agents_advance_trans by blast
  qed
qed (use assms(2,3) in \<open>auto simp: answer_Inr get_or_create_manager_id_def
    intro!: agents_advance_cong split: option.splits if_splits\<close>)

text \<open>
  \<open>C16\<close>.  Optimistic locking of the registry: as long as nothing is deleted, a registered
  agent stays registered, its revision never decreases, and a record read at some revision
  is still the stored record whenever the stored revision is the same; so an update that
  passes the revision check has lost no other update.
\<close>

theorem agent_revision_is_a_version:
  assumes "db_ok d" and "agent_get i d = Some a" and "\<forall>x\<in>set xs. \<not> is_delete x"
  shows "\<exists>b. agent_get i (history run_registry xs d) = Some b \<and> a_revision a \<le> a_revision b \<and>
    (a_revision b = a_revision a \<longrightarrow> b = a)"
proof -
  have "agents_advance d (history run_registry xs d)"
    by (rule registry.history_rel [OF assms(1)])
      (use assms(3) in \<open>auto intro: agents_advance_refl agents_advance_trans run_registry_advance\<close>)
  then show ?thesis using assms(2) by (fastforce simp: agents_advance_def newer_def)
qed

definition sample_agent :: "string \<Rightarrow> string \<Rightarrow> agent_record" where
  "sample_agent i ep = \<lparr>a_agent_id = i, a_instance_id = Some (''inst-'' @ i), a_display_name = ''rack 7'',
     a_normalized_endpoint = ep, a_credential_ref = ref1, a_remote_credential_id = Some ''cred-0'',
     a_transport_profile_id = ''lab'', a_enrollment_method = SSH_AUTO, a_enabled = True,
     a_source = ''manual'', a_revision = 3, a_created_at = 0, a_updated_at = 0\<rparr>"

definition registry_db :: manager_db where
  "registry_db = empty_db\<lparr>db_agents := [sample_agent ''b'' ''http://10.0.0.2:80'',
     sample_agent ''a'' ''http://10.0.0.1:80'', sample_agent ''c'' ''http://10.0.0.3:80'']\<rparr>"

lemma registry_db_ok: "db_ok registry_db"
  by code_simp

theorem agent_revision_is_a_version_witness:
  "\<exists>b. agent_get ''a'' (history run_registry
      [RUpdate (sample_agent ''a'' ''http://10.0.0.9:80'') 3 None None,
       RUpdate (sample_agent ''a'' ''http://10.0.0.8:80'') 3 None None] registry_db) = Some b \<and>
    a_revision (sample_agent ''a'' ''http://10.0.0.1:80'') \<le> a_revision b \<and>
    (a_revision b = a_revision (sample_agent ''a'' ''http://10.0.0.1:80'') \<longrightarrow>
      b = sample_agent ''a'' ''http://10.0.0.1:80'')"
proof -
  have "agent_get ''a'' registry_db = Some (sample_agent ''a'' ''http://10.0.0.1:80'')" by code_simp
  then show ?thesis by (rule agent_revision_is_a_version [OF registry_db_ok]) simp
qed

section \<open>The mutation fence\<close>

fun mutates :: "string \<Rightarrow> string option \<Rightarrow> string option \<Rightarrow> registry_op \<Rightarrow> bool" where
  "mutates i oe orm (RUpdate a _ oe' orm') = (a_agent_id a = i \<and> oe' = oe \<and> orm' = orm)"
| "mutates i oe orm (RUpdateReset a _ _ oe' orm') = (a_agent_id a = i \<and> oe' = oe \<and> orm' = orm)"
| "mutates i oe orm (RSwap j _) = (j_replace_agent_id j = Some i \<and> oe = Some (j_enrollment_id j) \<and> orm = None)"
| "mutates i oe orm (RDelete k oe' orm') = (k = i \<and> oe' = oe \<and> orm' = orm)"
| "mutates i oe orm (RDeleteIf k _ _ oe' orm') = (k = i \<and> oe' = oe \<and> orm' = orm)"
| "mutates i oe orm _ = False"

lemma foreign_owner_fences:
  assumes "(\<exists>r\<in>set (db_removals d). r_agent_id r = i \<and> r_phase r \<noteq> ''completed'' \<and> orm \<noteq> Some (r_removal_id r)) \<or>
      (\<exists>r\<in>set (db_jobs d). j_replace_agent_id (row_job r) = Some i \<and> j_save_requested (row_job r) \<and>
         j_state (row_job r) \<notin> {CONSUMED, CANCELLED, EXPIRED, FAILED} \<and> oe \<noteq> Some (j_enrollment_id (row_job r)))"
  shows "\<not> mutation_allowed d i oe orm"
  using assms unfolding mutation_allowed_iff foreign_removal_def foreign_rotation_def terminal_def
  by (auto split: option.splits)

text \<open>
  \<open>C15\<close>.  The mutation fence holds: while the removal table has a row of an agent that is not completed, or the journal a
  rotation of it that was saved and has not ended, an update, credential swap or deletion of that agent fails and changes
  nothing unless it is made in the name of that very removal or rotation.
\<close>

theorem fenced_agent_is_untouched:
  assumes "mutates i oe orm x"
    and "(\<exists>r\<in>set (db_removals d). r_agent_id r = i \<and> r_phase r \<noteq> ''completed'' \<and> orm \<noteq> Some (r_removal_id r)) \<or>
      (\<exists>r\<in>set (db_jobs d). j_replace_agent_id (row_job r) = Some i \<and> j_save_requested (row_job r) \<and>
         j_state (row_job r) \<notin> {CONSUMED, CANCELLED, EXPIRED, FAILED} \<and> oe \<noteq> Some (j_enrollment_id (row_job r)))"
  shows "(\<exists>e. run_registry x d = Inl e) \<and> after d (run_registry x d) = d"
proof -
  have fenced: "\<not> mutation_allowed d i oe orm" using assms(2) by (rule foreign_owner_fences)
  have "run_registry x d \<noteq> Inr (v, d')" for v d'
  proof
    assume "run_registry x d = Inr (v, d')"
    with assms(1) fenced show False
      by (cases x) (auto simp: answer_Inr delete_agent_def dest: update_if_revision_update delete_if_update
          elim!: update_and_reset_update swap_rotation_update split: sum.splits)
  qed
  then obtain e where "run_registry x d = Inl e" by (cases "run_registry x d") auto
  then show ?thesis by simp
qed

definition removal_db :: manager_db where
  "removal_db = registry_db\<lparr>db_removals := [\<lparr>r_removal_id = ''rm'', r_agent_id = ''a'',
     r_captured_revision = 3, r_credential_ref = ref1, r_remote_credential_id = Some ''cred-0'',
     r_normalized_endpoint = ''http://10.0.0.1:80'', r_transport_profile_id = ''lab'',
     r_enrollment_method = SSH_AUTO, r_phase = ''revoking'', r_local_only = False,
     r_audit_event_id = 1, r_last_error_code = None, r_created_at = 0, r_updated_at = 0\<rparr>]\<rparr>"

theorem fenced_agent_is_untouched_witness:
  "(\<exists>e. run_registry (RDelete ''a'' None (Some ''other'')) removal_db = Inl e) \<and>
   after removal_db (run_registry (RDelete ''a'' None (Some ''other'')) removal_db) = removal_db"
proof -
  have "\<exists>r\<in>set (db_removals removal_db). r_agent_id r = ''a'' \<and> r_phase r \<noteq> ''completed'' \<and> Some ''other'' \<noteq> Some (r_removal_id r)"
    by (simp add: removal_db_def)
  then show ?thesis by (intro fenced_agent_is_untouched [of "''a''" None "Some ''other''"]) simp_all
qed

section \<open>Committing an activated enrollment\<close>

lemma keyed_commit:
  "activated_claim job r \<longleftrightarrow> row_id r = j_enrollment_id job \<and> (j_state (row_job r) = ACTIVATED \<and>
     sql_eq (j_recovery_owner (row_job r)) (j_recovery_owner job) \<and>
     j_recovery_revision (row_job r) = j_recovery_revision job)"
  by (simp add: activated_claim_def)

lemma set_consumed_id [simp]: "j_enrollment_id (set_consumed rc now j) = j_enrollment_id j"
  by (simp add: set_consumed_def clear_claims_def)

lemma commit_effect:
  assumes "db_ok d" and "commit_activated_enrollment job a now rc d = Inr (v, d')"
  obtains j where "journal_get (j_enrollment_id job) d = Some j" and "j_state j = ACTIVATED"
    and "j_recovery_owner j = j_recovery_owner job" and "j_recovery_owner job \<noteq> None"
    and "j_recovery_revision j = j_recovery_revision job"
    and "\<And>k. journal_get k d' = (if k = j_enrollment_id job then Some (set_consumed rc now j)
      else journal_get k d)"
    and "agent_get (a_agent_id a) d' = Some a"
    and "\<And>i. i \<noteq> a_agent_id a \<Longrightarrow> agent_get i d' = agent_get i d"
    and "\<exists>s\<in>set (db_status d'). s_agent_id s = a_agent_id a"
proof -
  let ?e = "j_enrollment_id job"
  let ?Q = "\<lambda>j. j_state j = ACTIVATED \<and> sql_eq (j_recovery_owner j) (j_recovery_owner job) \<and>
    j_recovery_revision j = j_recovery_revision job"
  obtain d1 d2 where c: "(agent_get (a_agent_id a) d = None \<and> insert_agent a d = Some d1) \<or>
      (agent_get (a_agent_id a) d = Some a \<and> d1 = d)"
    and s: "insert_status_or_ignore (fresh_status (a_agent_id a) (a_revision a) ''unknown'' now) d1 = Some d2"
    and u: "update_jobs (activated_claim job) (set_job (set_consumed rc now)) d2 = Some d'"
    and n: "rowcount (activated_claim job) (db_jobs d2) = 1"
    using assms(2) by (rule commit_update)
  have ok1: "db_ok d1" using c assms(1) insert_agent_ok by blast
  then have ok2: "db_ok d2" using s insert_status_or_ignore_ok by blast
  have "db_jobs d1 = db_jobs d" using c insert_agent_Some by fastforce
  then have j2: "journal_get k d2 = journal_get k d" for k
    using status_statements_agents(2) [OF s] by (simp add: journal_get_def)
  have a1: "agent_get (a_agent_id a) d1 = Some a" "i \<noteq> a_agent_id a \<Longrightarrow> agent_get i d1 = agent_get i d" for i
    using c agent_get_insert by auto
  have ag: "agent_get i d' = agent_get i d1" for i
    using update_jobs_Some [OF u] status_statements_agents(2) [OF s] by (simp add: agent_get_def)
  have "\<exists>j. journal_get ?e d2 = Some j \<and> ?Q j"
    using n keyed_rowcount(1) [OF ok2 keyed_commit] by simp
  then obtain j where j: "journal_get ?e d = Some j" "?Q j" using j2 by auto
  have "journal_get k d' = map_option (\<lambda>j. if k = ?e \<and> ?Q j then set_consumed rc now j else j)
      (journal_get k d)" for k
    using keyed_update_get [OF ok2 u keyed_commit] j2 by simp
  then have "journal_get k d' = (if k = ?e then Some (set_consumed rc now j) else journal_get k d)" for k
    using j by (simp add: option.map_ident)
  moreover have "\<exists>x\<in>set (db_status d'). s_agent_id x = a_agent_id a"
    using s update_jobs_Some [OF u]
    by (auto simp: insert_status_or_ignore_def fresh_status_def split: if_splits)
  ultimately show thesis using that j a1 ag by (auto simp: sql_eq_iff)
qed

text \<open>
  Activation commits once and as a whole: when \<open>commit_activated_enrollment\<close> succeeds,
  the stored job was \<open>ACTIVATED\<close> and claimed with exactly the owner and revision of the
  caller; afterwards the agent is registered, has a status row, the job is consumed without
  credential reference or claim and no other job or agent changed; and repeating the commit,
  after any history of journal calls, fails.
\<close>

theorem commit_activated_enrollment_spec:
  assumes "db_ok d" and "commit_activated_enrollment job a now rc d = Inr (v, d')"
  shows "\<exists>j. journal_get (j_enrollment_id job) d = Some j \<and> j_state j = ACTIVATED \<and>
    j_recovery_owner j = j_recovery_owner job \<and> j_recovery_owner job \<noteq> None \<and>
    j_recovery_revision j = j_recovery_revision job \<and>
    journal_get (j_enrollment_id job) d' = Some (set_consumed rc now j) \<and>
    agent_get (a_agent_id a) d' = Some a \<and>
    (\<exists>s\<in>set (db_status d'). s_agent_id s = a_agent_id a) \<and>
    (\<forall>k. k \<noteq> j_enrollment_id job \<longrightarrow> journal_get k d' = journal_get k d) \<and>
    (\<forall>i. i \<noteq> a_agent_id a \<longrightarrow> agent_get i d' = agent_get i d) \<and>
    (\<forall>xs later rc' w d''. commit_activated_enrollment job a later rc' (history run_journal xs d') \<noteq> Inr (w, d''))"
proof -
  let ?e = "j_enrollment_id job"
  obtain j where j: "journal_get ?e d = Some j" "j_state j = ACTIVATED"
      "j_recovery_owner j = j_recovery_owner job" "j_recovery_owner job \<noteq> None"
      "j_recovery_revision j = j_recovery_revision job"
    and g: "\<And>k. journal_get k d' = (if k = ?e then Some (set_consumed rc now j) else journal_get k d)"
    and a: "agent_get (a_agent_id a) d' = Some a" "\<And>i. i \<noteq> a_agent_id a \<Longrightarrow> agent_get i d' = agent_get i d"
      "\<exists>s\<in>set (db_status d'). s_agent_id s = a_agent_id a"
    using commit_effect [OF assms] by metis
  have ok: "db_ok d'"
    using run_registry_ok [OF assms(1), of "RCommit job a now rc"] assms(2) by (simp add: answer_def)
  have again: "commit_activated_enrollment job a later rc' (history run_journal xs d') \<noteq> Inr (w, d'')"
    for xs later rc' w d''
  proof
    assume c: "commit_activated_enrollment job a later rc' (history run_journal xs d') = Inr (w, d'')"
    have "j_state (set_consumed rc now j) = CONSUMED" "j_recovery_owner (set_consumed rc now j) = None"
      by (simp_all add: set_consumed_def clear_claims_def)
    then obtain j' where "journal_get ?e (history run_journal xs d') = Some j'" "j_state j' = CONSUMED"
      using spent_history [OF ok, of ?e] g [of ?e] unfolding spent_def by auto
    then show False using commit_effect [OF journal.history_inv [OF ok] c] by auto
  qed
  show ?thesis using j g a again by (intro exI [of _ j]) simp
qed

definition activated_job :: "string \<Rightarrow> enrollment_job" where
  "activated_job e = (issued_job e)\<lparr>j_state := ACTIVATED, j_save_requested := True,
     j_requested_display_name := Some ''rack 7'', j_recovery_owner := Some uuid2,
     j_recovery_lease_until := Some 120000000, j_recovery_revision := 4\<rparr>"

theorem commit_activated_enrollment_spec_witness:
  "\<exists>d'. commit_activated_enrollment (activated_job ''e7'') (sample_agent ''n'' ''http://10.0.0.7:8100'') 9 None
      (with_jobs [activated_job ''e7'']) = Inr (sample_agent ''n'' ''http://10.0.0.7:8100'', d') \<and>
    journal_get ''e7'' d' = Some (set_consumed None 9 (activated_job ''e7'')) \<and>
    agent_get ''n'' d' = Some (sample_agent ''n'' ''http://10.0.0.7:8100'')"
proof -
  let ?d = "with_jobs [activated_job ''e7'']" and ?a = "sample_agent ''n'' ''http://10.0.0.7:8100''"
  let ?r = "commit_activated_enrollment (activated_job ''e7'') ?a 9 None ?d"
  have ok: "db_ok ?d" by code_simp
  have c: "?r = Inr (?a, after ?d ?r)" by code_simp
  have g: "journal_get ''e7'' ?d = Some (activated_job ''e7'')" by code_simp
  have i: "j_enrollment_id (activated_job ''e7'') = ''e7''" "a_agent_id ?a = ''n''" by code_simp+
  show ?thesis
    using commit_activated_enrollment_spec [OF ok c] c g unfolding i by (intro exI [of _ "after ?d ?r"]) auto
qed

section \<open>Swapping a rotated credential\<close>

text \<open>
  A successful \<open>swap_rotation\<close> replaced exactly the row that was captured when the
  rotation began (same revision, credential and instance), under the mutation fence; the new
  row has the next revision, the new credential, and the old name, source and creation time.
\<close>

theorem swap_rotation_spec:
  assumes "db_ok d" and "swap_rotation job now d = Inr (v, d')"
  shows "\<exists>i old. j_replace_agent_id job = Some i \<and> agent_get i d = Some old \<and>
    captured_agent job i old \<and> mutation_allowed d i (Some (j_enrollment_id job)) None \<and>
    agent_get i d' = Some v \<and> a_revision v = a_revision old + 1 \<and>
    Some (a_credential_ref v) = j_credential_temp_ref job \<and>
    a_created_at v = a_created_at old \<and> (\<forall>k. k \<noteq> i \<longrightarrow> agent_get k d' = agent_get k d)"
proof -
  obtain i old d1 where r: "rotation_complete job" and i: "j_replace_agent_id job = Some i"
    and o: "agent_get i d = Some old" and m: "mutation_allowed d i (Some (j_enrollment_id job)) None"
    and rv: "Some (a_revision old) = j_old_registry_revision job" and v: "v = rotated job now old"
    and val: "valid_record v"
    and u: "update_agents (captured_agent job i) (overwrite v) d = Some d1"
    and n: "rowcount (captured_agent job i) (db_agents d) = 1"
    and s: "upsert_status (fresh_status i (a_revision v) ''unknown'' now) d1 = Some d'"
    using assms(2) by (rule swap_rotation_update)
  have od: "old \<in> set (db_agents d)" "a_agent_id old = i" using agent_getD [OF o] by auto
  obtain x where x: "x \<in> set (db_agents d)" "captured_agent job i x" using n rowcount_pos by force
  then have "x = old" using o agent_get_iff [OF assms(1), of i x] by (simp add: captured_agent_def)
  then have c: "captured_agent job i old" using x by simp
  have "1 \<le> a_revision old" using od assms(1) by (auto simp: db_ok_def agents_ok_def check_agent_def)
  then have rev1: "a_revision v = a_revision old + 1" using rv by (auto simp: v rotated_def split: option.splits)
  obtain ref where ref: "j_credential_temp_ref job = Some ref" using r by (auto simp: rotation_complete_def)
  moreover have "a_credential_ref v \<noteq> []" using val by (auto simp: valid_record_def credential_ref_re_def)
  ultimately have cr: "Some (a_credential_ref v) = j_credential_temp_ref job"
    by (auto simp: v rotated_def py_or_def split: if_splits)
  have g: "agent_get k d' = map_option (\<lambda>a. if captured_agent job i a then overwrite v a else a) (agent_get k d)" for k
    using agent_get_update [OF assms(1) u, of k] status_statements_agents(1) [OF s] by (simp add: agent_get_def)
  have "agent_get i d' = Some v" using g [of i] o c od by (simp add: overwrite_same v rotated_def)
  moreover have "agent_get k d' = agent_get k d" if "k \<noteq> i" for k
    using g [of k] that by (cases "agent_get k d") (auto simp: captured_agent_def dest: agent_getD)
  ultimately show ?thesis using i o c m rev1 cr by (auto simp: v rotated_def)
qed

definition activated_rotation :: "string option \<Rightarrow> enrollment_job" where
  "activated_rotation old_instance = (capture_agent ((activated_job ''r1'')\<lparr>j_replace_agent_id := Some ''a''\<rparr>)
     (sample_agent ''a'' ''http://10.0.0.1:80''))\<lparr>j_credential_temp_ref :=
       Some ''ffffffffffffffffffffffffffffffffffffffffffffffff'',
       j_remote_instance_id := Some ''inst-a'', j_old_instance_id := old_instance\<rparr>"

theorem swap_rotation_spec_witness:
  "\<exists>d'. swap_rotation (activated_rotation (Some ''inst-a'')) 9 registry_db =
      Inr (rotated (activated_rotation (Some ''inst-a'')) 9 (sample_agent ''a'' ''http://10.0.0.1:80''), d') \<and>
    agent_get ''a'' d' = Some (rotated (activated_rotation (Some ''inst-a'')) 9 (sample_agent ''a'' ''http://10.0.0.1:80'')) \<and>
    agent_get ''b'' d' = agent_get ''b'' registry_db"
proof -
  let ?j = "activated_rotation (Some ''inst-a'')"
  let ?v = "rotated ?j 9 (sample_agent ''a'' ''http://10.0.0.1:80'')"
  let ?r = "swap_rotation ?j 9 registry_db"
  have c: "?r = Inr (?v, after registry_db ?r)" by code_simp
  have i: "j_replace_agent_id ?j = Some ''a''" by code_simp
  have "agent_get ''a'' (after registry_db ?r) = Some ?v \<and>
      (\<forall>k. k \<noteq> ''a'' \<longrightarrow> agent_get k (after registry_db ?r) = agent_get k registry_db)"
    using swap_rotation_spec [OF registry_db_ok c] unfolding i by auto
  then show ?thesis using c by (intro exI [of _ "after registry_db ?r"]) auto
qed

text \<open>
  A rotation of an agent registered without an instance id can never be swapped in:
  the \<open>UPDATE\<close> compares \<open>instance_id=?\<close> with \<open>NULL\<close>, which matches no row, so the call fails with
  \<open>RevisionConflict\<close> although the agent is unchanged and every check before it passed.
\<close>

theorem swap_rotation_rejects_legacy_agents:
  assumes "db_ok d" and "rotation_complete job" and "j_replace_agent_id job = Some i"
    and "agent_get i d = Some old" and "mutation_allowed d i (Some (j_enrollment_id job)) None"
    and "Some (a_revision old) = j_old_registry_revision job"
    and "Some (a_credential_ref old) = j_old_credential_ref job"
    and "a_instance_id old = None" and "j_old_instance_id job = None"
    and "valid_record (rotated job now old)"
  shows "swap_rotation job now d = Inl RevisionConflict"
proof -
  have id: "a_agent_id old = i" using agent_getD [OF assms(4)] by blast
  have no: "\<not> captured_agent job k a" for k a using assms(9) by (simp add: captured_agent_def)
  have "update_agents (captured_agent job k) f d = Some d" for k f
    using no assms(1) by (simp add: update_agents_def sql_update_none db_ok_def agents_ok_def)
  moreover have "rowcount (captured_agent job k) (db_agents d) = 0" for k using no by simp
  ultimately show ?thesis
    using assms id
    by (simp add: swap_rotation_def Let_def assert_agent_mutation_allowed_def validate_record_def
        del: rowcount_0)
qed

definition legacy_agent :: agent_record where
  "legacy_agent = (sample_agent ''a'' ''http://10.0.0.1:80'')\<lparr>a_instance_id := None,
     a_remote_credential_id := None, a_enrollment_method := LEGACY_ADMIN_TOKEN\<rparr>"

theorem swap_rotation_rejects_legacy_agents_witness:
  "swap_rotation (activated_rotation None) 9 (empty_db\<lparr>db_agents := [legacy_agent]\<rparr>) = Inl RevisionConflict"
proof -
  let ?d = "empty_db\<lparr>db_agents := [legacy_agent]\<rparr>"
  have "db_ok ?d" by code_simp
  moreover have "agent_get ''a'' ?d = Some legacy_agent" by code_simp
  ultimately show ?thesis
    by (intro swap_rotation_rejects_legacy_agents [of ?d _ "''a''" legacy_agent]) code_simp+
qed

section \<open>Deletion\<close>

lemma check_detached: "check_job j \<Longrightarrow> check_job (j\<lparr>j_replace_agent_id := None\<rparr>)"
proof -
  assume c: "check_job j"
  have "check_pinned (j\<lparr>j_replace_agent_id := None\<rparr>) = check_pinned j"
    "check_cli_claim (j\<lparr>j_replace_agent_id := None\<rparr>) = check_cli_claim j"
    "check_receipt (j\<lparr>j_replace_agent_id := None\<rparr>) = check_receipt j"
    by (simp_all add: check_pinned_def check_cli_claim_def check_receipt_def split: option.splits)
  note blocks = this
  show ?thesis using c unfolding check_job_def blocks by simp
qed

lemma detach_total:
  assumes "db_ok d"
  shows "update_jobs (detachable i) detach d = Some (d\<lparr>db_jobs := sql_update (detachable i) detach (db_jobs d)\<rparr>)"
  using assms check_detached
  by (auto simp: update_jobs_def detach_def replaced_agent_ok_def db_ok_def jobs_ok_def)

lemma no_reference_left:
  assumes "find (active_rotation i) rows = None" and "r \<in> set (sql_update (detachable i) detach rows)"
  shows "j_replace_agent_id (row_job r) \<noteq> Some i"
proof -
  obtain x where x: "x \<in> set rows" "r = (if detachable i x then detach x else x)"
    using assms(2) by (auto simp: set_sql_update)
  have "\<not> active_rotation i x" using assms(1) x(1) by (auto simp: find_None_iff)
  then show ?thesis using x(2) by (auto simp: detachable_def detach_def active_rotation_def)
qed

lemma delete_if_total:
  assumes "db_ok d" and "mutation_allowed d i oe orm"
    and "find (matches_agent i n ref) (db_agents d) = Some a" and "find (active_rotation i) (db_jobs d) = None"
  shows "delete_if_revision_and_credential i n ref oe orm d = Inr (True,
    d\<lparr>db_jobs := sql_update (detachable i) detach (db_jobs d),
      db_agents := sql_delete (matches_agent i n ref) (db_agents d),
      db_status := sql_delete (\<lambda>s. s_agent_id s = i) (db_status d)\<rparr>)"
proof -
  have a: "a \<in> set (db_agents d)" "matches_agent i n ref a"
    using assms(3) by (auto simp: find_Some_iff)
  have gone: "set (map a_agent_id (filter (matches_agent i n ref) (db_agents d))) = {i}"
    using a by (auto simp: matches_agent_def)
  have "rowcount (\<lambda>x. a_agent_id x = i \<and> (a_revision x = n \<and> a_credential_ref x = ref)) (db_agents d) = Suc 0"
    using a by (subst agents_table.rowcount_key_1 [OF db_ok_agent_ids [OF assms(1)]])
      (auto simp: matches_agent_def)
  then have "rowcount (matches_agent i n ref) (db_agents d) = 1"
    by (simp add: matches_agent_def [abs_def])
  moreover have "\<not> (\<exists>r\<in>set (sql_update (detachable i) detach (db_jobs d)).
      \<exists>k\<in>set_option (j_replace_agent_id (row_job r)). k \<in> {i})"
    using no_reference_left [OF assms(4)] by auto
  ultimately show ?thesis
    using assms(2-4)
    by (simp add: delete_if_revision_and_credential_def Let_def assert_agent_mutation_allowed_def
        detach_total [OF assms(1)] delete_agents_def gone del: set_map)
qed

text \<open>
  Deleting an agent by revision and credential, for an owner of the fence: it reports
  \<open>False\<close> and changes nothing if the agent is not at that revision with that credential; it
  is refused while a rotation of the agent is active; otherwise it succeeds without a storage
  error, the agent and its status are gone, and every enrollment that named the agent keeps
  its row with the id moved to the tombstone column.
\<close>

theorem delete_if_spec:
  assumes "db_ok d" and "mutation_allowed d i oe orm"
  shows "if \<not> (\<exists>a\<in>set (db_agents d). matches_agent i n ref a)
    then delete_if_revision_and_credential i n ref oe orm d = Inr (False, d)
    else if \<exists>r\<in>set (db_jobs d). active_rotation i r
    then delete_if_revision_and_credential i n ref oe orm d = Inl (RegistryConflict ''agent_mutation_in_progress'')
    else \<exists>d'. delete_if_revision_and_credential i n ref oe orm d = Inr (True, d') \<and>
      \<not> agent_exists d' i \<and> (\<forall>s\<in>set (db_status d'). s_agent_id s \<noteq> i) \<and>
      (\<forall>a\<in>set (db_agents d). a_agent_id a \<noteq> i \<longrightarrow> a \<in> set (db_agents d')) \<and>
      db_jobs d' = map (\<lambda>r. if j_replace_agent_id (row_job r) = Some i then detach r else r) (db_jobs d)"
proof -
  have f: "find (matches_agent i n ref) (db_agents d) = None \<longleftrightarrow> \<not> (\<exists>a\<in>set (db_agents d). matches_agent i n ref a)"
    "find (active_rotation i) (db_jobs d) = None \<longleftrightarrow> \<not> (\<exists>r\<in>set (db_jobs d). active_rotation i r)"
    by (auto simp: find_None_iff)
  show ?thesis
  proof (cases "(\<exists>a\<in>set (db_agents d). matches_agent i n ref a) \<and> \<not> (\<exists>r\<in>set (db_jobs d). active_rotation i r)")
    case True
    then obtain a where a: "find (matches_agent i n ref) (db_agents d) = Some a"
      and r: "find (active_rotation i) (db_jobs d) = None" using f by fastforce
    have "a \<in> set (db_agents d)" "matches_agent i n ref a" using a by (auto simp: find_Some_iff)
    then have only: "matches_agent i n ref x" if "x \<in> set (db_agents d)" "a_agent_id x = i" for x
      using that agents_table.uniq_same [OF db_ok_agent_ids [OF assms(1)], of x a]
      by (auto simp: matches_agent_def)
    have jobs: "sql_update (detachable i) detach (db_jobs d) =
        map (\<lambda>r. if j_replace_agent_id (row_job r) = Some i then detach r else r) (db_jobs d)"
      using True by (auto simp: sql_update_def detachable_def active_rotation_def)
    show ?thesis
      using True only
      by (simp add: delete_if_total [OF assms a r] jobs agent_exists_def sql_delete_def matches_agent_def)
        blast
  next
    case False
    then show ?thesis
      using f assms(2) by (auto simp: delete_if_revision_and_credential_def Let_def assert_agent_mutation_allowed_def)
  qed
qed

theorem delete_if_spec_witness:
  "\<exists>d'. delete_if_revision_and_credential ''a'' 3 ref1 None None registry_db = Inr (True, d') \<and>
    \<not> agent_exists d' ''a''"
proof -
  have m: "mutation_allowed registry_db ''a'' None None" by code_simp
  have "\<exists>a\<in>set (db_agents registry_db). matches_agent ''a'' 3 ref1 a"
    "\<not> (\<exists>r\<in>set (db_jobs registry_db). active_rotation ''a'' r)" by code_simp+
  then show ?thesis using delete_if_spec [OF registry_db_ok m, of 3 ref1] by auto
qed

section \<open>Duplicates\<close>

lemma find_duplicate_Nil:
  "find_duplicate inst ep d = [] \<longleftrightarrow> (\<forall>a\<in>set (db_agents d). a_normalized_endpoint a \<noteq> ep \<and>
     (inst = None \<or> a_instance_id a \<noteq> inst))"
  by (auto simp: find_duplicate_def filter_empty_conv split: option.splits)

lemma agents_unique_append:
  assumes "db_ok d"
  shows "agents_unique (db_agents d @ [a]) \<longleftrightarrow> agent_get (a_agent_id a) d = None \<and>
    find_duplicate (a_instance_id a) (a_normalized_endpoint a) d = []"
proof -
  have "agents_unique (db_agents d)" using assms by (simp add: db_ok_def agents_ok_def)
  then show ?thesis
    by (auto simp: agents_unique_def agent_get_def find_None_iff find_duplicate_Nil image_iff)
qed

text \<open>
  \<open>create\<close> and \<open>find_duplicate\<close> agree: a valid record is accepted exactly when its id is
  free and the duplicate query for its instance and endpoint finds nothing; otherwise the
  call raises the conflict and changes nothing.
\<close>

theorem create_agent_iff_no_duplicate:
  assumes "db_ok d" and "valid_record a"
  shows "create_agent a d = (if agent_get (a_agent_id a) d = None \<and>
      find_duplicate (a_instance_id a) (a_normalized_endpoint a) d = []
    then Inr (a, d\<lparr>db_agents := db_agents d @ [a]\<rparr>)
    else Inl (RegistryConflict ''agent ID, identity, or endpoint already exists''))"
  using assms(2) valid_record_check agents_unique_append [OF assms(1)]
  by (simp add: create_agent_def validate_record_def insert_agent_def)

theorem create_agent_iff_no_duplicate_witness:
  "create_agent (sample_agent ''z'' ''http://10.0.0.2:80'') registry_db =
     Inl (RegistryConflict ''agent ID, identity, or endpoint already exists'')"
proof -
  have v: "valid_record (sample_agent ''z'' ''http://10.0.0.2:80'')" by code_simp
  have "find_duplicate (a_instance_id (sample_agent ''z'' ''http://10.0.0.2:80''))
      (a_normalized_endpoint (sample_agent ''z'' ''http://10.0.0.2:80'')) registry_db \<noteq> []" by code_simp
  then show ?thesis using create_agent_iff_no_duplicate [OF registry_db_ok v] by simp
qed

end
