(* ===== verification/Registry_Pages.thy ===== *)
theory Registry_Pages
  imports Registry_Properties
begin

text \<open>
  \<open>ManagerRegistryRepository.list\<close> as its callers use it: following \<open>next_cursor\<close> until it is
  \<open>None\<close>.  \<open>all_pages\<close> is that loop with a bound on the number of requests; the property shows
  that one request per agent is always enough.
\<close>

fun all_pages :: "nat \<Rightarrow> int \<Rightarrow> string option \<Rightarrow> manager_db \<Rightarrow> agent_record list" where
  "all_pages 0 l c d = []"
| "all_pages (Suc n) l c d =
     (case list_agents \<lparr>q_limit = l, q_cursor = c\<rparr> d of
        Inl _ \<Rightarrow> []
      | Inr p \<Rightarrow> p_items p @ (case p_next_cursor p of None \<Rightarrow> [] | Some c' \<Rightarrow> all_pages n l (Some c') d))"

definition registry_order :: "manager_db \<Rightarrow> agent_record list" where
  "registry_order d = sort_key a_agent_id (db_agents d)"

lemma filter_after_cursor:
  assumes "sorted (map f (pre @ x # suf))" and "distinct (map f (pre @ x # suf))"
  shows "filter (\<lambda>a. f x < f a) (pre @ x # suf) = suf"
proof -
  have "filter (\<lambda>a. f x < f a) pre = []"
    using assms(1) by (auto simp: filter_empty_conv sorted_append not_less)
  moreover have "filter (\<lambda>a. f x < f a) suf = suf"
    using assms by (auto simp: filter_id_conv sorted_append order.strict_iff_order image_iff)
  ultimately show ?thesis by simp
qed

lemma sorted_order:
  assumes "db_ok d"
  shows "sorted (map a_agent_id (registry_order d))" and "distinct (map a_agent_id (registry_order d))"
proof -
  show "sorted (map a_agent_id (registry_order d))" by (simp add: registry_order_def)
  have "distinct (map a_agent_id (db_agents d))"
    using db_ok_agent_ids [OF assms] by (simp add: agent_ids_unique_def)
  then have "distinct (db_agents d)" and "inj_on a_agent_id (set (db_agents d))"
    by (simp_all add: distinct_map)
  then show "distinct (map a_agent_id (registry_order d))"
    by (simp add: registry_order_def distinct_map)
qed

lemma list_agents_from:
  assumes "1 \<le> l" and "l \<le> 1000" and "sort_key a_agent_id (case c of None \<Rightarrow> db_agents d
      | Some k \<Rightarrow> filter (\<lambda>a. k < a_agent_id a) (db_agents d)) = suf"
  shows "list_agents \<lparr>q_limit = l, q_cursor = c\<rparr> d = Inr \<lparr>p_items = take (nat l) suf,
    p_next_cursor = (if nat l < length suf then Some (a_agent_id (last (take (nat l) suf))) else None)\<rparr>"
  using assms by (auto simp: list_agents_def Let_def min_def)

lemma all_pages_suffix:
  assumes "db_ok d" and "1 \<le> l" and "l \<le> 1000"
    and "registry_order d = pre @ suf" and "length suf \<le> n"
    and "c = (if pre = [] then None else Some (a_agent_id (last pre)))"
  shows "all_pages n l c d = suf"
  using assms(4-6)
proof (induction n arbitrary: pre suf c)
  case (Suc n)
  let ?m = "case c of None \<Rightarrow> db_agents d | Some k \<Rightarrow> filter (\<lambda>a. k < a_agent_id a) (db_agents d)"
  have m: "sort_key a_agent_id ?m = suf"
  proof (cases "pre = []")
    case True
    then show ?thesis using Suc.prems by (simp add: registry_order_def)
  next
    case False
    then have p: "registry_order d = butlast pre @ last pre # suf" using Suc.prems(1) by simp
    then have "filter (\<lambda>a. a_agent_id (last pre) < a_agent_id a) (registry_order d) = suf"
      using filter_after_cursor [of a_agent_id "butlast pre" "last pre" suf] sorted_order [OF assms(1)]
      by simp
    then show ?thesis using False Suc.prems(3) by (simp add: registry_order_def filter_sort)
  qed
  note page = list_agents_from [OF assms(2,3) m]
  show ?case
  proof (cases "nat l < length suf")
    case True
    let ?pre = "pre @ take (nat l) suf" and ?suf = "drop (nat l) suf"
    have ne: "take (nat l) suf \<noteq> []" using assms(2) True by auto
    have "all_pages n l (Some (a_agent_id (last (take (nat l) suf)))) d = ?suf"
      using Suc.prems assms(2) ne by (intro Suc.IH [of ?pre]) auto
    then show ?thesis using True by (simp add: page)
  next
    case False
    then show ?thesis by (simp add: page)
  qed
qed simp

text \<open>
  Paging through the registry: for every allowed page size, following the cursors
  returns every agent exactly once, in the order of the ids, and needs at most as many
  requests as there are agents.
\<close>

theorem paging_lists_every_agent_once:
  assumes "db_ok d" and "1 \<le> l" and "l \<le> 1000" and "length (db_agents d) \<le> n"
  shows "all_pages n l None d = sort_key a_agent_id (db_agents d)"
  using all_pages_suffix [OF assms(1-3), of "[]" "registry_order d" n None] assms(4)
  by (simp add: registry_order_def)

theorem paging_lists_every_agent_once_witness:
  "all_pages 3 1 None registry_db = sort_key a_agent_id (db_agents registry_db)"
  by (rule paging_lists_every_agent_once [OF registry_db_ok]) (simp_all add: registry_db_def)

end
