(* ===== verification/Agent_Status.thy ===== *)
theory Agent_Status
  imports Registry_Properties
begin

text \<open>
  \<open>AgentStatusRepository\<close> of \<open>storage/manager_registry.py\<close>: the validation of an observation
  (with \<open>_validate_json_value\<close>) and the batch update that stores all observations or none.
  A JSON value of the model is a tree, so the cycle test of \<open>_validate_json_value\<close> never
  fires; object keys are strings by type.  The stored JSON texts are read back as the values
  that were written, so the table holds the values.
\<close>

section \<open>Validation\<close>

text \<open>\<open>_validate_json_value\<close>; \<open>False\<close> stands for the raised error.\<close>

function json_ok :: "json \<Rightarrow> nat \<Rightarrow> bool" where
  "json_ok v depth =
     (if 32 < depth then False
      else case v of
         JFloat x \<Rightarrow> x \<noteq> None
       | JList vs \<Rightarrow> (\<forall>c\<in>set vs. json_ok c (depth + 1))
       | JDict kvs \<Rightarrow> (\<forall>kv\<in>set kvs. json_ok (snd kv) (depth + 1))
       | _ \<Rightarrow> True)"
  by pat_completeness auto
termination
  by (relation "measure (\<lambda>(v, n). 33 - n)") auto

declare json_ok.simps [simp del]

definition connection_statuses :: "string list" where
  "connection_statuses = [''disabled'', ''unknown'', ''ready'', ''degraded'', ''unavailable'']"

definition workload_statuses :: "string list" where
  "workload_statuses = [''unknown'', ''healthy'', ''warning'', ''critical'', ''stale'']"

definition serializable :: "agent_status_record \<Rightarrow> bool" where
  "serializable s \<longleftrightarrow> 1 \<le> s_target_revision s \<and>
     s_connection_status s \<in> set connection_statuses \<and>
     s_workload_status s \<in> set workload_statuses \<and>
     (\<forall>c\<in>set (s_capabilities s). c \<noteq> []) \<and>
     json_ok (JList (map JStr (s_capabilities s))) 0 \<and>
     json_ok (s_summary s) 0"

lemma capabilities_json_ok [simp]: "json_ok (JList (map JStr cs)) 0"
  by (simp add: json_ok.simps)

lemma serializable_check: "serializable s \<Longrightarrow> check_status s"
  by (simp add: serializable_def check_status_def connection_statuses_def workload_statuses_def)

section \<open>Operations\<close>

definition status_get :: "string \<Rightarrow> manager_db \<Rightarrow> agent_status_record option" where
  "status_get i d = find (\<lambda>s. s_agent_id s = i) (db_status d)"

definition stored_time_is_later :: "instant option \<Rightarrow> instant option \<Rightarrow> bool" where
  "stored_time_is_later stored candidate \<longleftrightarrow>
     (case stored of None \<Rightarrow> False
      | Some t \<Rightarrow> (case candidate of None \<Rightarrow> True | Some c \<Rightarrow> c < t))"

definition acceptable :: "manager_db \<Rightarrow> agent_status_record \<Rightarrow> bool" where
  "acceptable d s \<longleftrightarrow>
     (case agent_get (s_agent_id s) d of None \<Rightarrow> False
      | Some a \<Rightarrow> a_revision a = s_target_revision s) \<and>
     (case status_get (s_agent_id s) d of None \<Rightarrow> True
      | Some old \<Rightarrow> \<not> (s_target_revision old = s_target_revision s \<and>
          (stored_time_is_later (s_observed_at old) (s_observed_at s) \<or>
           stored_time_is_later (Some (s_updated_at old)) (Some (s_updated_at s)))))"

fun upsert_all :: "agent_status_record list \<Rightarrow> manager_db \<Rightarrow> manager_db option" where
  "upsert_all [] d = Some d"
| "upsert_all (s # ss) d = Option.bind (upsert_status s d) (upsert_all ss)"

definition update_many_if_target_revisions :: "agent_status_record list \<Rightarrow> bool repo" where
  "update_many_if_target_revisions observations d =
     (if observations = [] then Inl RegistryInvariantError
      else if \<not> distinct (map s_agent_id observations) then Inl RegistryInvariantError
      else if \<not> list_all serializable observations then Inl RegistryInvariantError
      else if \<not> list_all (acceptable d) observations then Inr (False, d)
      else case upsert_all observations d of
        None \<Rightarrow> Inl RegistryError
      | Some d' \<Rightarrow> Inr (True, d'))"

definition update_if_target_revision :: "agent_status_record \<Rightarrow> int \<Rightarrow> bool repo" where
  "update_if_target_revision observation expected_revision d =
     (if s_target_revision observation \<noteq> expected_revision \<or> expected_revision < 1
      then Inl RegistryInvariantError
      else update_many_if_target_revisions [observation] d)"

section \<open>Rows of the status table\<close>

lemma db_ok_status: "db_ok d \<Longrightarrow> status_unique (db_status d)"
  by (simp add: db_ok_def status_ok_def)

lemma status_get_upsert:
  assumes "db_ok d" and "upsert_status s d = Some d'"
  shows "status_get i d' = (if i = s_agent_id s then Some s else status_get i d)"
proof (cases "s_agent_id s \<in> s_agent_id ` set (db_status d)")
  case True
  then have d': "db_status d' = sql_update (\<lambda>x. s_agent_id x = s_agent_id s) (\<lambda>_. s) (db_status d)"
    using assms(2) by (auto simp: upsert_status_def split: if_splits)
  obtain x where x: "x \<in> set (db_status d)" "s_agent_id x = s_agent_id s" using True by auto
  then have f: "status_get (s_agent_id s) d = Some x"
    unfolding status_get_def using status_table.find_key_iff [OF db_ok_status [OF assms(1)]] by blast
  have m: "status_get i d' = map_option (\<lambda>x. if s_agent_id x = s_agent_id s then s else x) (status_get i d)"
    unfolding status_get_def d' by (rule status_table.find_sql_update [OF db_ok_status [OF assms(1)]]) simp
  show ?thesis
  proof (cases "i = s_agent_id s")
    case True
    then show ?thesis using m f x(2) by simp
  next
    case False
    have "s_agent_id y = i" if "status_get i d = Some y" for y
      using that status_table.find_keyD unfolding status_get_def by blast
    then show ?thesis using m False by (cases "status_get i d") simp_all
  qed
next
  case False
  then have d': "db_status d' = db_status d @ [s]"
    using assms(2) by (auto simp: upsert_status_def split: if_splits)
  have "find (\<lambda>y. s_agent_id y = s_agent_id s) (db_status d) = None"
    using False unfolding find_None_iff by (metis (mono_tags) image_eqI)
  then show ?thesis
    unfolding status_get_def d' status_table.find_append_key by (simp split: option.splits)
qed

lemma upsert_status_total:
  assumes "check_status s" and "agent_get (s_agent_id s) d \<noteq> None"
  shows "\<exists>d'. upsert_status s d = Some d'"
  using assms agent_get_exists by (simp add: upsert_status_def)

lemma upsert_status_frame:
  "upsert_status s d = Some d' \<Longrightarrow> db_agents d' = db_agents d \<and> db_jobs d' = db_jobs d \<and>
     db_removals d' = db_removals d \<and> db_manager_id d' = db_manager_id d"
  by (auto simp: upsert_status_def split: if_splits)

lemma upsert_all_effect:
  assumes "db_ok d" and "distinct (map s_agent_id ss)"
    and "\<And>s. s \<in> set ss \<Longrightarrow> check_status s \<and> agent_get (s_agent_id s) d \<noteq> None"
  shows "\<exists>d'. upsert_all ss d = Some d' \<and> db_ok d' \<and> db_agents d' = db_agents d \<and> db_jobs d' = db_jobs d \<and>
    db_removals d' = db_removals d \<and>
    (\<forall>i. status_get i d' = (case find (\<lambda>s. s_agent_id s = i) ss of None \<Rightarrow> status_get i d | Some s \<Rightarrow> Some s))"
  using assms
proof (induction ss arbitrary: d)
  case (Cons s ss)
  obtain d1 where d1: "upsert_status s d = Some d1"
    using upsert_status_total [of s d] Cons.prems(3) by auto
  have ok1: "db_ok d1" by (rule upsert_status_ok [OF Cons.prems(1) d1])
  have f: "db_agents d1 = db_agents d" "db_jobs d1 = db_jobs d" "db_removals d1 = db_removals d"
    using upsert_status_frame [OF d1] by auto
  obtain d' where d': "upsert_all ss d1 = Some d'" "db_ok d'" "db_agents d' = db_agents d1"
      "db_jobs d' = db_jobs d1" "db_removals d' = db_removals d1"
    and g: "\<And>i. status_get i d' = (case find (\<lambda>s. s_agent_id s = i) ss of None \<Rightarrow> status_get i d1 | Some s \<Rightarrow> Some s)"
    using Cons.IH [OF ok1] Cons.prems(2,3) f by (auto simp: agent_get_def)
  have none: "find (\<lambda>x. s_agent_id x = s_agent_id s) ss = None"
    using Cons.prems(2) by (auto simp: find_None_iff image_iff)
  have "status_get i d' = (case find (\<lambda>s. s_agent_id s = i) (s # ss) of None \<Rightarrow> status_get i d | Some s \<Rightarrow> Some s)" for i
    using g [of i] status_get_upsert [OF Cons.prems(1) d1, of i] none by (auto split: option.splits)
  then show ?case using d1 d' f by simp
qed simp

section \<open>Properties\<close>

text \<open>
  A batch of observations is stored as a whole or not at all, and without a storage
  error: for a well-formed batch the call returns \<open>True\<close> and stores exactly the given
  observations when each targets the current revision of its agent and is not older than the
  stored one; otherwise it returns \<open>False\<close> and changes nothing.
\<close>

theorem status_batch_all_or_nothing:
  assumes "db_ok d" and "observations \<noteq> []" and "distinct (map s_agent_id observations)"
    and "list_all serializable observations"
  shows "if list_all (acceptable d) observations
    then \<exists>d'. update_many_if_target_revisions observations d = Inr (True, d') \<and>
      db_agents d' = db_agents d \<and> db_jobs d' = db_jobs d \<and>
      (\<forall>i. status_get i d' = (case find (\<lambda>s. s_agent_id s = i) observations of
         None \<Rightarrow> status_get i d | Some s \<Rightarrow> Some s))
    else update_many_if_target_revisions observations d = Inr (False, d)"
proof (cases "list_all (acceptable d) observations")
  case True
  have "check_status s \<and> agent_get (s_agent_id s) d \<noteq> None" if "s \<in> set observations" for s
    using that True assms(4) serializable_check
    by (auto simp: list_all_iff acceptable_def split: option.splits)
  with upsert_all_effect [OF assms(1,3)] show ?thesis
    using True assms(2-4) by (auto simp: update_many_if_target_revisions_def)
next
  case False
  then show ?thesis using assms(2-4) by (simp add: update_many_if_target_revisions_def)
qed

definition sample_status :: "string \<Rightarrow> instant \<Rightarrow> agent_status_record" where
  "sample_status i t = (fresh_status i 3 ''ready'' t)\<lparr>s_observed_at := Some t,
     s_summary := JDict [(''cpu'', JFloat (Some (1 / 2)))]\<rparr>"

theorem status_batch_all_or_nothing_witness:
  "\<exists>d'. update_many_if_target_revisions [sample_status ''a'' 5, sample_status ''c'' 6] registry_db = Inr (True, d') \<and>
    status_get ''c'' d' = Some (sample_status ''c'' 6) \<and> status_get ''b'' d' = status_get ''b'' registry_db"
proof -
  let ?o = "[sample_status ''a'' 5, sample_status ''c'' 6]"
  have i: "s_agent_id (sample_status k t) = k" for k t by (simp add: sample_status_def fresh_status_def)
  have "list_all serializable ?o"
    by (simp add: serializable_def sample_status_def fresh_status_def connection_statuses_def
        workload_statuses_def json_ok.simps)
  moreover have "list_all (acceptable registry_db) ?o" by code_simp
  moreover have "distinct (map s_agent_id ?o)" by (simp add: i)
  ultimately obtain d' where "update_many_if_target_revisions ?o registry_db = Inr (True, d')"
    "\<forall>k. status_get k d' = (case find (\<lambda>s. s_agent_id s = k) ?o of None \<Rightarrow> status_get k registry_db | Some s \<Rightarrow> Some s)"
    using status_batch_all_or_nothing [OF registry_db_ok, of ?o] by auto
  then show ?thesis by (intro exI [of _ d']) (simp add: i)
qed

end
