(* ===== verification/Removal_Journal.thy ===== *)
theory Removal_Journal
  imports Registry_Properties
begin

text \<open>
  \<open>AgentRemovalRepository\<close> of \<open>storage/removal_journal.py\<close>: the journal of agent removals and
  the audit rows it finalises.  \<open>str(uuid4())\<close> is an argument of \<open>create_for_agent\<close>.
\<close>

section \<open>Validation\<close>

definition valid_removal :: "agent_removal_job \<Rightarrow> bool" where
  "valid_removal r \<longleftrightarrow> r_phase r \<in> set removal_phases \<and> credential_ref_re (r_credential_ref r) \<and>
     \<not> (r_enrollment_method r \<noteq> LEGACY_ADMIN_TOKEN \<and> r_remote_credential_id r = None)"

section \<open>Operations\<close>

definition removal_of :: "agent_record \<Rightarrow> string \<Rightarrow> int \<Rightarrow> bool \<Rightarrow> instant \<Rightarrow> agent_removal_job" where
  "removal_of agent removal_id audit_event_id local_only now = \<lparr>r_removal_id = removal_id,
     r_agent_id = a_agent_id agent, r_captured_revision = a_revision agent,
     r_credential_ref = a_credential_ref agent, r_remote_credential_id = a_remote_credential_id agent,
     r_normalized_endpoint = a_normalized_endpoint agent,
     r_transport_profile_id = a_transport_profile_id agent,
     r_enrollment_method = a_enrollment_method agent, r_phase = ''pending'',
     r_local_only = local_only, r_audit_event_id = audit_event_id, r_last_error_code = None,
     r_created_at = now, r_updated_at = now\<rparr>"

definition pending_removal_audit :: "int \<Rightarrow> string \<Rightarrow> audit_event \<Rightarrow> bool" where
  "pending_removal_audit audit_event_id agent_id e \<longleftrightarrow> e_id e = audit_event_id \<and>
     e_result e = ''pending'' \<and> e_agent_id e = Some agent_id \<and> e_operation e = ''agents.v2.remove''"

definition create_for_agent ::
  "string \<Rightarrow> string \<Rightarrow> int \<Rightarrow> bool \<Rightarrow> instant \<Rightarrow> agent_removal_job repo" where
  "create_for_agent uuid agent_id audit_event_id local_only now d =
     (if audit_event_id < 1 then Inl RegistryInvariantError
      else if find (pending_removal_audit audit_event_id agent_id) (db_audit d) = None
      then Inl (RegistryConflict ''agent_removal_audit_invalid'')
      else case agent_get agent_id d of
        None \<Rightarrow> Inl (RegistryConflict ''agent_not_found'')
      | Some agent \<Rightarrow>
        (case assert_agent_mutation_allowed (a_agent_id agent) None None d of
           Inl e \<Rightarrow> Inl e
         | Inr _ \<Rightarrow>
           let job = removal_of agent uuid audit_event_id local_only now in
           if \<not> valid_removal job then Inl RegistryInvariantError
           else case insert_removal job d of
             None \<Rightarrow> Inl (RegistryConflict ''agent_removal_in_progress'')
           | Some d' \<Rightarrow> Inr (job, d')))"

definition removal_get :: "string \<Rightarrow> manager_db \<Rightarrow> agent_removal_job option" where
  "removal_get removal_id d = find (\<lambda>r. r_removal_id r = removal_id) (db_removals d)"

definition list_recoverable :: "manager_db \<Rightarrow> agent_removal_job list" where
  "list_recoverable d = sort_key (\<lambda>r. (r_created_at r, r_removal_id r))
     (filter (\<lambda>r. r_phase r \<noteq> ''completed'' \<or>
        (\<exists>e\<in>set (db_audit d). e_id e = r_audit_event_id r \<and> e_result e = ''pending'')) (db_removals d))"

definition blocks_usage :: "string \<Rightarrow> manager_db \<Rightarrow> bool" where
  "blocks_usage agent_id d \<longleftrightarrow>
     find (\<lambda>r. r_agent_id r = agent_id \<and> r_phase r \<noteq> ''completed'') (db_removals d) \<noteq> None"

text \<open>\<open>ORDER BY created_at DESC LIMIT 1\<close>; among rows of the same instant the first stored one is taken.\<close>

definition audit_is_recoverable :: "int \<Rightarrow> manager_db \<Rightarrow> bool" where
  "audit_is_recoverable audit_event_id d =
     (case sort_key (\<lambda>r. - r_created_at r)
         (filter (\<lambda>r. r_audit_event_id r = audit_event_id) (db_removals d)) of
        [] \<Rightarrow> False
      | r # _ \<Rightarrow> r_phase r \<noteq> ''completed'' \<and> r_last_error_code r \<notin>
          {Some ''agent_changed'', Some ''agent_credential_unavailable'', Some ''agent_not_found''})"

definition set_phase ::
  "string \<Rightarrow> string option \<Rightarrow> instant \<Rightarrow> agent_removal_job \<Rightarrow> agent_removal_job" where
  "set_phase phase err now r = r\<lparr>r_phase := phase, r_last_error_code := err, r_updated_at := now\<rparr>"

definition in_phase :: "string \<Rightarrow> string \<Rightarrow> agent_removal_job \<Rightarrow> bool" where
  "in_phase removal_id phase r \<longleftrightarrow> r_removal_id r = removal_id \<and> r_phase r = phase"

definition transition ::
  "agent_removal_job \<Rightarrow> string \<Rightarrow> instant \<Rightarrow> string option \<Rightarrow> agent_removal_job repo" where
  "transition job phase now err d =
     (let updated = set_phase phase err now job; P = in_phase (r_removal_id job) (r_phase job) in
      if \<not> valid_removal updated then Inl RegistryInvariantError
      else case update_removals P (set_phase phase err now) d of
        None \<Rightarrow> Inl RegistryError
      | Some d' \<Rightarrow> if rowcount P (db_removals d) \<noteq> 1 then Inl RevisionConflict else Inr (updated, d'))"

definition finalize_audit_if_pending :: "agent_removal_job \<Rightarrow> bool \<Rightarrow> bool repo" where
  "finalize_audit_if_pending job success d =
     (let P = (\<lambda>e. e_id e = r_audit_event_id job \<and> e_result e = ''pending'') in
      Inr (rowcount P (db_audit d) = 1,
        d\<lparr>db_audit := sql_update P (\<lambda>e. e\<lparr>e_result := (if success then ''success'' else ''failed''),
             e_dispatch_state := (if r_local_only job \<or> r_enrollment_method job = LEGACY_ADMIN_TOKEN
               then ''not_dispatched'' else ''dispatched''),
             e_failure_category := (if r_local_only job then Some ''remote_credential_residual'' else None)\<rparr>)
           (db_audit d)\<rparr>))"

definition orphaned_audit :: "manager_db \<Rightarrow> audit_event \<Rightarrow> bool" where
  "orphaned_audit d e \<longleftrightarrow> e_operation e = ''agents.v2.remove'' \<and> e_result e = ''pending'' \<and>
     \<not> (\<exists>r\<in>set (db_removals d). r_audit_event_id r = e_id e)"

definition finalize_orphaned_pending_audits :: "nat repo" where
  "finalize_orphaned_pending_audits d =
     Inr (rowcount (orphaned_audit d) (db_audit d),
       d\<lparr>db_audit := sql_update (orphaned_audit d) (\<lambda>e. e\<lparr>e_result := ''failed'',
         e_dispatch_state := ''not_dispatched'',
         e_failure_category := Some ''agent_removal_interrupted''\<rparr>) (db_audit d)\<rparr>)"

section \<open>The removal journal as a transaction system\<close>

datatype removal_op =
    MCreate string string int bool instant
  | MTransition agent_removal_job string instant "string option"
  | MFinalize agent_removal_job bool
  | MOrphans

fun run_removal :: "removal_op \<Rightarrow> unit repo" where
  "run_removal (MCreate u i a l now) d = map_sum id (\<lambda>(_, d). ((), d)) (create_for_agent u i a l now d)"
| "run_removal (MTransition r p now err) d = map_sum id (\<lambda>(_, d). ((), d)) (transition r p now err d)"
| "run_removal (MFinalize r s) d = map_sum id (\<lambda>(_, d). ((), d)) (finalize_audit_if_pending r s d)"
| "run_removal MOrphans d = map_sum id (\<lambda>(_, d). ((), d)) (finalize_orphaned_pending_audits d)"

definition removal_ids_unique :: "agent_removal_job list \<Rightarrow> bool" where
  "removal_ids_unique rows \<longleftrightarrow> distinct (map r_removal_id rows)"

interpretation removals_table: keyed_table r_removal_id removal_ids_unique
  by unfold_locales (simp add: removal_ids_unique_def)

lemma db_ok_removal_ids: "db_ok d \<Longrightarrow> removal_ids_unique (db_removals d)"
  by (simp add: db_ok_def removals_ok_def removals_unique_def removal_ids_unique_def)

lemma map_sum_Inr: "map_sum id g r = Inr x \<longleftrightarrow> (\<exists>y. r = Inr y \<and> x = g y)"
  by (cases r) auto

lemma transition_update:
  assumes "transition job phase now err d = Inr (v, d')"
  shows "v = set_phase phase err now job \<and> valid_removal v \<and>
    update_removals (in_phase (r_removal_id job) (r_phase job)) (set_phase phase err now) d = Some d' \<and>
    rowcount (in_phase (r_removal_id job) (r_phase job)) (db_removals d) = 1"
  using assms by (auto simp: transition_def Let_def split: option.splits if_splits)

lemma create_for_agent_update:
  assumes "create_for_agent u i a l now d = Inr (v, d')"
  obtains agent where "1 \<le> a" and "\<exists>e\<in>set (db_audit d). pending_removal_audit a i e"
    and "agent_get i d = Some agent" and "mutation_allowed d i None None"
    and "v = removal_of agent u a l now" and "valid_removal v" and "insert_removal v d = Some d'"
proof -
  obtain agent where "agent_get i d = Some agent"
    using assms by (auto simp: create_for_agent_def split: option.splits if_splits)
  moreover from this have "a_agent_id agent = i" using agent_getD by blast
  ultimately show thesis
    using assms that [of agent]
    by (auto simp: create_for_agent_def Let_def find_None_iff split: sum.splits option.splits if_splits)
qed

lemma run_removal_ok:
  assumes "db_ok d" and "run_removal x d = Inr (v, d')"
  shows "db_ok d'"
proof (cases x)
  case (MCreate u i a l now)
  then obtain w where "create_for_agent u i a l now d = Inr (w, d')" using assms(2) by (auto simp: map_sum_Inr)
  then show ?thesis by (rule create_for_agent_update) (rule insert_removal_ok [OF assms(1)])
next
  case (MTransition r p now err)
  then obtain w where "transition r p now err d = Inr (w, d')" using assms(2) by (auto simp: map_sum_Inr)
  then show ?thesis using transition_update update_removals_ok [OF assms(1)] by blast
qed (use assms in \<open>auto simp: map_sum_Inr finalize_audit_if_pending_def
    finalize_orphaned_pending_audits_def Let_def\<close>)

interpretation removals: txn_system run_removal db_ok
  by unfold_locales (rule run_removal_ok)

end
