(* ===== verification/Removal_Saga.thy ===== *)
theory Removal_Saga
  imports Removal_Journal
begin

text \<open>
  \<open>EnrollmentOrchestrator._resume_removal\<close> of \<open>enrollment/orchestrator.py\<close>: the saga that
  revokes the remote credential of an agent, deletes its registry row and deletes its local
  credential, recording each completed step as a phase of the removal row before the next
  one starts.

  The world of the saga is the Manager's database, the references present in the credential
  store and the removals whose revocation the agent acknowledged.  What lies outside the
  sources or on the network is a parameter (\<open>removal_env\<close>): whether an agent client is
  configured, the code and dispatch state of the \<open>EnrollmentValidationError\<close> that \<open>prepare\<close> and
  \<open>revoke\<close> raise (\<open>None\<close> when they return), which calls of the credential store work (0 for
  \<open>read\<close>, 1 for \<open>lifecycle_lease\<close>, 2 for \<open>delete_if_exists\<close>), whether the directory can be synced
  after a file was unlinked, and the clock (indexed by the call).  A step that raises keeps what
  earlier steps committed, so a run is a function \<open>world \<Rightarrow> result \<times> world\<close>.  What other requests
  commit while the saga awaits the agent's answer to \<open>revoke\<close> is not part of this model, and
  neither is an error when the lock of the lease is released.

  \<open>saga_ok P m Q\<close> is the rule format of the proofs: from a sound world that satisfies \<open>P\<close>,
  the step \<open>m\<close> ends in a sound world, and if it returns, its result satisfies \<open>Q\<close>.
\<close>

section \<open>The saga\<close>

record removal_world =
  w_db :: manager_db
  w_creds :: "string list"
  w_revoked :: "string list"

record removal_env =
  re_client :: bool
  re_prepare :: "agent_removal_job \<Rightarrow> (string \<times> string) option"
  re_answer :: "agent_removal_job \<Rightarrow> (string \<times> string) option"
  re_store_ok :: "nat \<Rightarrow> bool"
  re_sync_ok :: bool
  re_clock :: "nat \<Rightarrow> instant"

datatype saga_error =
    MutationSagaError string string bool
  | EnrollmentConflict string
  | SagaRegistry registry_error
  | SagaStore

type_synonym 'a saga = "removal_world \<Rightarrow> (saga_error + 'a) \<times> removal_world"

definition saga_return :: "'a \<Rightarrow> 'a saga" where
  "saga_return v w = (Inr v, w)"

definition saga_raise :: "saga_error \<Rightarrow> 'a saga" where
  "saga_raise e w = (Inl e, w)"

definition saga_bind :: "'a saga \<Rightarrow> ('a \<Rightarrow> 'b saga) \<Rightarrow> 'b saga" where
  "saga_bind m f w = (case m w of (Inl e, w') \<Rightarrow> (Inl e, w') | (Inr v, w') \<Rightarrow> f v w')"

definition db_call :: "'a repo \<Rightarrow> 'a saga" where
  "db_call t w = (case t (w_db w) of Inl e \<Rightarrow> (Inl (SagaRegistry e), w)
     | Inr (v, d) \<Rightarrow> (Inr v, w\<lparr>w_db := d\<rparr>))"

definition move :: "removal_env \<Rightarrow> nat \<Rightarrow> agent_removal_job \<Rightarrow> string \<Rightarrow> string option
    \<Rightarrow> agent_removal_job saga" where
  "move env k job phase err = db_call (transition job phase (re_clock env k) err)"

definition managed :: "agent_removal_job \<Rightarrow> bool" where
  "managed job \<longleftrightarrow> \<not> r_local_only job \<and> r_enrollment_method job \<noteq> LEGACY_ADMIN_TOKEN"

definition acknowledge :: "agent_removal_job \<Rightarrow> agent_removal_job saga" where
  "acknowledge job w = (Inr job, w\<lparr>w_revoked := r_removal_id job # w_revoked w\<rparr>)"

text \<open>The handlers of the saga: the row is left \<open>residual\<close> with the error's code, then the error is raised.\<close>

definition leave_residual :: "removal_env \<Rightarrow> nat \<Rightarrow> agent_removal_job \<Rightarrow> string \<Rightarrow> string \<Rightarrow> 'a saga" where
  "leave_residual env k job code state = saga_bind (move env k job ''residual'' (Some code))
     (\<lambda>_. saga_raise (MutationSagaError code state True))"

definition credential_readable :: "removal_env \<Rightarrow> string \<Rightarrow> removal_world \<Rightarrow> bool" where
  "credential_readable env reference w \<longleftrightarrow> re_store_ok env 0 \<and> credential_ref_re reference \<and> reference \<in> set (w_creds w)"

definition revoke_with_token :: "removal_env \<Rightarrow> agent_removal_job \<Rightarrow> agent_removal_job saga" where
  "revoke_with_token env job w = (case re_prepare env job of
     Some (code, state) \<Rightarrow> leave_residual env 1 job code state w
   | None \<Rightarrow>
       if \<not> credential_readable env (r_credential_ref job) w
       then leave_residual env 1 job ''agent_credential_unavailable'' ''not_dispatched'' w
       else (case re_answer env job of
           Some (code, state) \<Rightarrow> leave_residual env 1 job code state w
         | None \<Rightarrow> acknowledge job w))"

definition remote_revoke :: "removal_env \<Rightarrow> agent_removal_job \<Rightarrow> agent_removal_job saga" where
  "remote_revoke env job =
     (if \<not> re_client env then saga_raise (EnrollmentConflict ''agent_removal_unavailable'')
      else saga_bind
        (if r_phase job \<noteq> ''revoking'' then move env 0 job ''revoking'' None else saga_return job)
        (revoke_with_token env))"

definition revoke_phase :: "removal_env \<Rightarrow> agent_removal_job \<Rightarrow> agent_removal_job saga" where
  "revoke_phase env job =
     (if r_phase job \<in> {''pending'', ''revoking'', ''residual''}
      then saga_bind (if managed job then remote_revoke env job else saga_return job)
        (\<lambda>current. move env 2 current ''revoked'' None)
      else saga_return job)"

definition local_dispatch :: "agent_removal_job \<Rightarrow> string" where
  "local_dispatch job = (if r_local_only job then ''not_dispatched'' else ''dispatched'')"

definition delete_phase :: "removal_env \<Rightarrow> agent_removal_job \<Rightarrow> agent_removal_job saga" where
  "delete_phase env job =
     (if r_phase job = ''revoked''
      then saga_bind
        (db_call (delete_if_revision_and_credential (r_agent_id job) (r_captured_revision job)
           (r_credential_ref job) None (Some (r_removal_id job))))
        (\<lambda>deleted w.
           if \<not> deleted \<and> agent_get (r_agent_id job) (w_db w) \<noteq> None
           then leave_residual env 3 job ''agent_changed'' (local_dispatch job) w
           else move env 4 job ''registry_deleted'' None w)
      else saga_return job)"

text \<open>
  \<open>CredentialStore.delete_if_exists\<close>: \<open>False\<close> is a \<open>CredentialStoreError\<close>.  The file is unlinked before the
  directory is synced, so it can be gone although the call raised.
\<close>

definition drop_credential :: "removal_env \<Rightarrow> string \<Rightarrow> bool saga" where
  "drop_credential env reference w =
     (if \<not> re_store_ok env 2 \<or> \<not> credential_ref_re reference then (Inr False, w)
      else if reference \<in> set (w_creds w)
      then (Inr (re_sync_ok env), w\<lparr>w_creds := removeAll reference (w_creds w)\<rparr>)
      else (Inr True, w))"

definition credential_phase :: "removal_env \<Rightarrow> agent_removal_job \<Rightarrow> agent_removal_job saga" where
  "credential_phase env job =
     (if r_phase job = ''registry_deleted''
      then if \<not> re_store_ok env 1 then saga_raise SagaStore
        else saga_bind (drop_credential env (r_credential_ref job))
          (\<lambda>dropped. if dropped then move env 5 job ''credential_deleted'' None
            else leave_residual env 6 job ''credential_cleanup_failed'' (local_dispatch job))
      else saga_return job)"

definition finish_phase :: "removal_env \<Rightarrow> agent_removal_job \<Rightarrow> agent_removal_job saga" where
  "finish_phase env job =
     (if r_phase job = ''credential_deleted'' then move env 7 job ''completed'' None
      else saga_return job)"

definition resume_removal :: "removal_env \<Rightarrow> agent_removal_job \<Rightarrow> agent_removal_job saga" where
  "resume_removal env job =
     saga_bind (revoke_phase env job) (\<lambda>j1. saga_bind (delete_phase env j1) (\<lambda>j2.
       saga_bind (credential_phase env j2) (finish_phase env)))"

section \<open>What a phase means\<close>

definition row_truth :: "removal_world \<Rightarrow> agent_removal_job \<Rightarrow> bool" where
  "row_truth w r \<longleftrightarrow>
     (managed r \<and> r_phase r \<in> {''revoked'', ''registry_deleted'', ''credential_deleted'', ''completed''}
        \<longrightarrow> r_removal_id r \<in> set (w_revoked w)) \<and>
     (r_phase r \<in> {''registry_deleted'', ''credential_deleted'', ''completed''}
        \<longrightarrow> \<not> agent_exists (w_db w) (r_agent_id r)) \<and>
     (r_phase r \<in> {''credential_deleted'', ''completed''}
        \<longrightarrow> r_credential_ref r \<notin> set (w_creds w))"

definition sound :: "removal_world \<Rightarrow> bool" where
  "sound w \<longleftrightarrow> db_ok (w_db w) \<and> (\<forall>r\<in>set (db_removals (w_db w)). row_truth w r)"

definition stored :: "agent_removal_job \<Rightarrow> removal_world \<Rightarrow> bool" where
  "stored job w \<longleftrightarrow> job \<in> set (db_removals (w_db w))"

definition saga_ok :: "(removal_world \<Rightarrow> bool) \<Rightarrow> 'a saga \<Rightarrow> ('a \<Rightarrow> removal_world \<Rightarrow> bool) \<Rightarrow> bool" where
  "saga_ok P m Q \<longleftrightarrow> (\<forall>w. sound w \<and> P w \<longrightarrow> sound (snd (m w)) \<and>
     (case fst (m w) of Inl _ \<Rightarrow> True | Inr v \<Rightarrow> Q v (snd (m w))))"

lemma saga_bind_ok:
  assumes "saga_ok P m Q" and "\<And>v. saga_ok (Q v) (f v) R"
  shows "saga_ok P (saga_bind m f) R"
  unfolding saga_ok_def
proof (intro allI impI)
  fix w
  assume w: "sound w \<and> P w"
  show "sound (snd (saga_bind m f w)) \<and> (case fst (saga_bind m f w) of Inl _ \<Rightarrow> True
      | Inr v \<Rightarrow> R v (snd (saga_bind m f w)))"
  proof (cases "m w")
    case (Pair r w')
    have m: "sound w' \<and> (case r of Inl _ \<Rightarrow> True | Inr v \<Rightarrow> Q v w')"
      using assms(1) [unfolded saga_ok_def, rule_format, OF w] unfolding Pair fst_conv snd_conv .
    then show ?thesis
    proof (cases r)
      case (Inr v)
      then have bind: "saga_bind m f w = f v w'" by (simp add: saga_bind_def Pair)
      show ?thesis
        unfolding bind using assms(2) [of v, unfolded saga_ok_def, rule_format, of w'] m Inr by simp
    qed (simp add: saga_bind_def Pair)
  qed
qed

lemma saga_return_ok: "(\<And>w. P w \<Longrightarrow> Q v w) \<Longrightarrow> saga_ok P (saga_return v) Q"
  by (simp add: saga_ok_def saga_return_def)

lemma saga_raise_ok: "saga_ok P (saga_raise e) Q"
  by (simp add: saga_ok_def saga_raise_def)

lemma saga_if_ok:
  assumes "saga_ok (\<lambda>w. P w \<and> C w) a Q" and "saga_ok (\<lambda>w. P w \<and> \<not> C w) b Q"
  shows "saga_ok P (\<lambda>w. if C w then a w else b w) Q"
  unfolding saga_ok_def
proof (intro allI impI)
  fix w
  assume "sound w \<and> P w"
  then show "sound (snd (if C w then a w else b w)) \<and> (case fst (if C w then a w else b w) of Inl _ \<Rightarrow> True
      | Inr v \<Rightarrow> Q v (snd (if C w then a w else b w)))"
    using assms [unfolded saga_ok_def, rule_format, of w] by (cases "C w") simp_all
qed

lemma saga_weaken: "saga_ok P m Q \<Longrightarrow> (\<And>w. P' w \<Longrightarrow> P w) \<Longrightarrow> saga_ok P' m Q"
  by (auto simp: saga_ok_def)

section \<open>Rows of the removal table\<close>

lemma update_removals_Some:
  "update_removals P f d = Some d' \<Longrightarrow> d' = d\<lparr>db_removals := sql_update P f (db_removals d)\<rparr>"
  by (auto simp: update_removals_def Let_def split: if_splits)

lemma transition_rows:
  assumes "db_ok d" and "job \<in> set (db_removals d)" and "transition job phase now err d = Inr (v, d')"
  shows "v = set_phase phase err now job" and "db_agents d' = db_agents d" and "db_jobs d' = db_jobs d"
    and "set (db_removals d') = insert v (set (db_removals d) - {job})"
    and "db_ok d'"
proof -
  let ?P = "in_phase (r_removal_id job) (r_phase job)"
  have t: "v = set_phase phase err now job"
    and u: "update_removals ?P (set_phase phase err now) d = Some d'"
    using transition_update [OF assms(3)] by auto
  show "v = set_phase phase err now job" by (rule t)
  have d': "d' = d\<lparr>db_removals := sql_update ?P (set_phase phase err now) (db_removals d)\<rparr>"
    by (rule update_removals_Some [OF u])
  then show "db_agents d' = db_agents d" and "db_jobs d' = db_jobs d" by simp_all
  have "?P r \<longleftrightarrow> r = job" if "r \<in> set (db_removals d)" for r
    using that assms(2) removals_table.uniq_same [OF db_ok_removal_ids [OF assms(1)]] by (auto simp: in_phase_def)
  then show "set (db_removals d') = insert v (set (db_removals d) - {job})"
    using assms(2) by (auto simp: d' set_sql_update t image_iff)
  show "db_ok d'" using update_removals_ok [OF assms(1) u] .
qed

lemma row_truth_cong:
  assumes "db_agents (w_db w') = db_agents (w_db w)" and "w_creds w' = w_creds w" and "w_revoked w' = w_revoked w"
  shows "row_truth w' r = row_truth w r"
  using assms by (simp add: row_truth_def agent_exists_def)

lemma row_truth_phase: "row_truth w (set_phase phase err t r) = row_truth w (r\<lparr>r_phase := phase\<rparr>)"
  by (simp add: row_truth_def managed_def set_phase_def)

lemma move_ok:
  "saga_ok (\<lambda>w. stored job w \<and> row_truth w (job\<lparr>r_phase := phase\<rparr>)) (move env k job phase err)
     (\<lambda>j w. stored j w \<and> j = set_phase phase err (re_clock env k) job)"
  unfolding saga_ok_def
proof (intro allI impI)
  fix w
  assume w: "sound w \<and> stored job w \<and> row_truth w (job\<lparr>r_phase := phase\<rparr>)"
  show "sound (snd (move env k job phase err w)) \<and> (case fst (move env k job phase err w) of
      Inl _ \<Rightarrow> True | Inr j \<Rightarrow> stored j (snd (move env k job phase err w)) \<and>
        j = set_phase phase err (re_clock env k) job)"
  proof (cases "transition job phase (re_clock env k) err (w_db w)")
    case (Inl e)
    then show ?thesis using w by (simp add: move_def db_call_def)
  next
    case (Inr p)
    then obtain v d' where t: "transition job phase (re_clock env k) err (w_db w) = Inr (v, d')"
      by (cases p) auto
    note rows = transition_rows [OF _ _ t]
    have ok: "db_ok (w_db w)" "job \<in> set (db_removals (w_db w))" using w by (auto simp: sound_def stored_def)
    have ag: "db_agents d' = db_agents (w_db w)" by (rule rows(2) [OF ok])
    have "row_truth (w\<lparr>w_db := d'\<rparr>) r" if "r \<in> set (db_removals d')" for r
    proof -
      have "row_truth (w\<lparr>w_db := d'\<rparr>) r = row_truth w r" by (rule row_truth_cong) (simp_all add: ag)
      moreover have "r = v \<or> r \<in> set (db_removals (w_db w))" using that rows(4) [OF ok] by auto
      ultimately show ?thesis
        using w rows(1) [OF ok] by (auto simp: sound_def row_truth_phase)
    qed
    then show ?thesis
      using rows [OF ok] by (simp add: move_def db_call_def t sound_def stored_def)
  qed
qed

section \<open>Every phase is true\<close>

lemma move_early_ok:
  assumes "phase \<in> {''pending'', ''revoking'', ''residual''}"
  shows "saga_ok (stored job) (move env k job phase err)
    (\<lambda>j w. stored j w \<and> j = set_phase phase err (re_clock env k) job)"
  using assms by (intro saga_weaken [OF move_ok]) (auto simp: row_truth_def managed_def)

lemma leave_residual_ok: "saga_ok (stored job) (leave_residual env k job code state) Q"
  unfolding leave_residual_def by (rule saga_bind_ok [OF move_early_ok]) (simp_all add: saga_raise_ok)

lemma acknowledge_ok:
  "saga_ok (stored job) (acknowledge job) (\<lambda>j w. j = job \<and> stored job w \<and> r_removal_id job \<in> set (w_revoked w))"
  by (auto simp: saga_ok_def acknowledge_def sound_def stored_def row_truth_def)

definition revoked_ok :: "agent_removal_job \<Rightarrow> removal_world \<Rightarrow> bool" where
  "revoked_ok j w \<longleftrightarrow> stored j w \<and> (managed j \<longrightarrow> r_removal_id j \<in> set (w_revoked w))"

lemma revoke_with_token_cases:
  obtains (residual) code state where "revoke_with_token env job w = leave_residual env 1 job code state w"
  | (acknowledged) "revoke_with_token env job w = acknowledge job w" "r_credential_ref job \<in> set (w_creds w)"
  by (cases "re_prepare env job"; cases "re_answer env job"; cases "credential_readable env (r_credential_ref job) w")
    (auto simp: revoke_with_token_def credential_readable_def)

lemma revoke_with_token_ok: "saga_ok (stored job) (revoke_with_token env job) revoked_ok"
  unfolding saga_ok_def
proof (intro allI impI)
  fix w
  assume w: "sound w \<and> stored job w"
  show "sound (snd (revoke_with_token env job w)) \<and> (case fst (revoke_with_token env job w) of Inl _ \<Rightarrow> True
      | Inr j \<Rightarrow> revoked_ok j (snd (revoke_with_token env job w)))"
  proof (cases rule: revoke_with_token_cases [of env job w])
    case (residual code state)
    then show ?thesis
      using leave_residual_ok [of job env 1 code state revoked_ok, unfolded saga_ok_def, rule_format, OF w]
      by (simp only:)
  next
    case acknowledged
    then show ?thesis
      using acknowledge_ok [of job, unfolded saga_ok_def, rule_format, OF w] by (auto simp: revoked_ok_def split: sum.splits)
  qed
qed

lemma remote_revoke_ok: "saga_ok (stored job) (remote_revoke env job) revoked_ok"
proof -
  have step: "saga_ok (stored job)
      (if r_phase job \<noteq> ''revoking'' then move env 0 job ''revoking'' None else saga_return job) stored"
  proof (cases "r_phase job \<noteq> ''revoking''")
    case True
    have "saga_ok (stored job) (move env 0 job ''revoking'' None)
      (\<lambda>j w. stored j w \<and> j = set_phase ''revoking'' None (re_clock env 0) job)"
      by (rule move_early_ok) simp
    then show ?thesis using True by (auto simp: saga_ok_def split: sum.splits)
  qed (simp add: saga_return_ok)
  show ?thesis
  proof (cases "re_client env")
    case True
    show ?thesis
      unfolding remote_revoke_def using saga_bind_ok [OF step revoke_with_token_ok]
      by (simp only: True not_True_eq_False if_False)
  qed (simp add: remote_revoke_def saga_raise_ok)
qed

lemma revoke_phase_ok: "saga_ok (stored job) (revoke_phase env job) stored"
proof (cases "r_phase job \<in> {''pending'', ''revoking'', ''residual''}")
  case True
  have first: "saga_ok (stored job) (if managed job then remote_revoke env job else saga_return job) revoked_ok"
    using remote_revoke_ok by (auto intro: saga_return_ok simp: revoked_ok_def)
  have "saga_ok (revoked_ok current) (move env 2 current ''revoked'' None)
      (\<lambda>j w. stored j w \<and> j = set_phase ''revoked'' None (re_clock env 2) current)" for current
    by (rule saga_weaken [OF move_ok]) (auto simp: revoked_ok_def row_truth_def managed_def)
  then have "saga_ok (revoked_ok current) (move env 2 current ''revoked'' None) stored" for current
    by (fastforce simp: saga_ok_def split: sum.splits)
  then show ?thesis using True by (simp add: revoke_phase_def saga_bind_ok [OF first])
qed (simp add: revoke_phase_def saga_return_ok)

lemma delete_if_gone:
  assumes "db_ok d" and "delete_if_revision_and_credential i n ref oe orm d = Inr (b, d')"
  shows "db_ok d' \<and> db_removals d' = db_removals d \<and> (b \<longrightarrow> \<not> agent_exists d' i) \<and>
    (\<forall>k. agent_exists d' k \<longrightarrow> agent_exists d k)"
proof -
  have ok: "db_ok d'"
    using run_registry_ok [OF assms(1), of "RDeleteIf i n ref oe orm"] assms(2) by (simp add: answer_def)
  have u: "mutation_allowed d i oe orm" "if b then find (matches_agent i n ref) (db_agents d) \<noteq> None \<and>
      find (active_rotation i) (db_jobs d) = None else d' = d"
    using delete_if_update [OF assms(2)] by (auto split: if_splits)
  show ?thesis
  proof (cases b)
    case True
    then obtain a where a: "find (matches_agent i n ref) (db_agents d) = Some a"
      and r: "find (active_rotation i) (db_jobs d) = None" using u(2) by auto
    have d': "d' = d\<lparr>db_jobs := sql_update (detachable i) detach (db_jobs d),
        db_agents := sql_delete (matches_agent i n ref) (db_agents d),
        db_status := sql_delete (\<lambda>s. s_agent_id s = i) (db_status d)\<rparr>"
      using delete_if_total [OF assms(1) u(1) a r] assms(2) by simp
    have "a \<in> set (db_agents d)" "matches_agent i n ref a" using a by (auto simp: find_Some_iff)
    then have "matches_agent i n ref x" if "x \<in> set (db_agents d)" "a_agent_id x = i" for x
      using that agents_table.uniq_same [OF db_ok_agent_ids [OF assms(1)], of x a]
      by (auto simp: matches_agent_def)
    then show ?thesis using ok by (auto simp: d' agent_exists_def sql_delete_def)
  next
    case False
    then show ?thesis using u(2) ok by simp
  qed
qed

lemma agents_shrink_truth:
  assumes "\<And>k. agent_exists (w_db w') k \<Longrightarrow> agent_exists (w_db w) k" and "w_creds w' = w_creds w"
    and "w_revoked w' = w_revoked w" and "row_truth w r"
  shows "row_truth w' r"
  using assms by (auto simp: row_truth_def)

lemma delete_call_ok:
  "saga_ok (stored job) (db_call (delete_if_revision_and_credential (r_agent_id job)
      (r_captured_revision job) (r_credential_ref job) None (Some (r_removal_id job))))
    (\<lambda>deleted w. stored job w \<and> (deleted \<longrightarrow> \<not> agent_exists (w_db w) (r_agent_id job)))"
  unfolding saga_ok_def
proof (intro allI impI)
  fix w
  let ?t = "delete_if_revision_and_credential (r_agent_id job) (r_captured_revision job)
    (r_credential_ref job) None (Some (r_removal_id job))"
  assume w: "sound w \<and> stored job w"
  show "sound (snd (db_call ?t w)) \<and> (case fst (db_call ?t w) of Inl _ \<Rightarrow> True
      | Inr b \<Rightarrow> stored job (snd (db_call ?t w)) \<and>
          (b \<longrightarrow> \<not> agent_exists (w_db (snd (db_call ?t w))) (r_agent_id job)))"
  proof (cases "?t (w_db w)")
    case (Inl e)
    then show ?thesis using w by (simp add: db_call_def)
  next
    case (Inr p)
    then obtain b d' where t: "?t (w_db w) = Inr (b, d')" by (cases p) auto
    have g: "db_ok d' \<and> db_removals d' = db_removals (w_db w) \<and> (b \<longrightarrow> \<not> agent_exists d' (r_agent_id job)) \<and>
        (\<forall>k. agent_exists d' k \<longrightarrow> agent_exists (w_db w) k)"
      using delete_if_gone [OF _ t] w by (simp add: sound_def)
    then have "row_truth (w\<lparr>w_db := d'\<rparr>) r" if "row_truth w r" for r
      using that by (intro agents_shrink_truth [of "w\<lparr>w_db := d'\<rparr>" w]) simp_all
    then show ?thesis using g w by (simp add: db_call_def t sound_def stored_def)
  qed
qed

lemma stored_truth: "sound w \<Longrightarrow> stored job w \<Longrightarrow> row_truth w job"
  by (simp add: sound_def stored_def)

lemma move_stored:
  assumes "\<And>w. sound w \<Longrightarrow> P w \<Longrightarrow> stored job w \<and> row_truth w (job\<lparr>r_phase := phase\<rparr>)"
  shows "saga_ok P (move env k job phase err) stored"
  using move_ok [of job phase env k err] assms unfolding saga_ok_def by (fastforce split: sum.splits)

lemma delete_phase_ok: "saga_ok (stored job) (delete_phase env job) stored"
proof (cases "r_phase job = ''revoked''")
  case True
  have rest: "saga_ok (\<lambda>w. stored job w \<and> (deleted \<longrightarrow> \<not> agent_exists (w_db w) (r_agent_id job)))
      (\<lambda>w. if \<not> deleted \<and> agent_get (r_agent_id job) (w_db w) \<noteq> None
        then leave_residual env 3 job ''agent_changed'' (local_dispatch job) w
        else move env 4 job ''registry_deleted'' None w) stored" for deleted
  proof -
    note a = leave_residual_ok [of job env 3 "''agent_changed''" "local_dispatch job" stored]
    have b: "saga_ok (\<lambda>w. stored job w \<and> \<not> agent_exists (w_db w) (r_agent_id job))
        (move env 4 job ''registry_deleted'' None) stored"
      using True by (intro move_stored) (auto simp: row_truth_def managed_def dest!: stored_truth)
    show ?thesis
      using agent_get_exists by (intro saga_if_ok saga_weaken [OF a] saga_weaken [OF b]) auto
  qed
  show ?thesis
    unfolding delete_phase_def using saga_bind_ok [OF delete_call_ok rest]
    by (simp only: True simp_thms if_True)
qed (simp add: delete_phase_def saga_return_ok)

lemma drop_credential_ok:
  "saga_ok (stored job) (drop_credential env reference) (\<lambda>dropped w. stored job w \<and> (dropped \<longrightarrow> reference \<notin> set (w_creds w)))"
  by (auto simp: saga_ok_def drop_credential_def sound_def stored_def row_truth_def)

lemma credential_phase_ok: "saga_ok (stored job) (credential_phase env job) stored"
proof (cases "r_phase job = ''registry_deleted'' \<and> re_store_ok env 1")
  case True
  have a: "saga_ok (\<lambda>w. stored job w \<and> r_credential_ref job \<notin> set (w_creds w))
      (move env 5 job ''credential_deleted'' None) stored"
    using True by (intro move_stored) (auto simp: row_truth_def managed_def dest!: stored_truth)
  have "saga_ok (\<lambda>w. stored job w \<and> (dropped \<longrightarrow> r_credential_ref job \<notin> set (w_creds w)))
      (if dropped then move env 5 job ''credential_deleted'' None
       else leave_residual env 6 job ''credential_cleanup_failed'' (local_dispatch job)) stored" for dropped
    using saga_weaken [OF a] leave_residual_ok by (cases dropped) simp_all
  then show ?thesis
    using True by (simp add: credential_phase_def saga_bind_ok [OF drop_credential_ok])
qed (auto simp: credential_phase_def saga_return_ok saga_raise_ok)

lemma finish_phase_ok: "saga_ok (stored job) (finish_phase env job) stored"
proof (cases "r_phase job = ''credential_deleted''")
  case True
  have "saga_ok (stored job) (move env 7 job ''completed'' None) stored"
    using True by (intro move_stored) (auto simp: row_truth_def managed_def dest!: stored_truth)
  then show ?thesis using True by (simp add: finish_phase_def)
qed (simp add: finish_phase_def saga_return_ok)

lemma resume_removal_ok: "saga_ok (stored job) (resume_removal env job) stored"
  unfolding resume_removal_def
  by (intro saga_bind_ok [OF revoke_phase_ok] saga_bind_ok [OF delete_phase_ok]
      saga_bind_ok [OF credential_phase_ok] finish_phase_ok)

text \<open>A removal that is retried: the stored row is read again and the saga resumed.\<close>

fun retry :: "removal_env list \<Rightarrow> string \<Rightarrow> removal_world \<Rightarrow> removal_world" where
  "retry [] removal_id w = w"
| "retry (env # envs) removal_id w =
     (case removal_get removal_id (w_db w) of
        None \<Rightarrow> w
      | Some job \<Rightarrow> retry envs removal_id (snd (resume_removal env job w)))"

lemma removal_get_stored: "removal_get i (w_db w) = Some job \<Longrightarrow> stored job w"
  by (auto simp: removal_get_def stored_def find_Some_iff)

text \<open>
  \<open>C13\<close>.  The phases of a removal tell the truth, whatever fails and however often the saga
  is retried: a row past \<open>revoked\<close> of a managed agent means the agent acknowledged the
  revocation, a row past \<open>registry_deleted\<close> means the agent is no longer registered, and a row
  past \<open>credential_deleted\<close> means the credential file is gone; the schema is kept as well.
\<close>

theorem removal_phases_are_true:
  assumes "sound w"
  shows "sound (retry envs removal_id w)"
  using assms
proof (induction envs arbitrary: w)
  case (Cons env envs)
  show ?case
  proof (cases "removal_get removal_id (w_db w)")
    case (Some job)
    then have "sound (snd (resume_removal env job w))"
      using resume_removal_ok [of job env] Cons.prems removal_get_stored [OF Some]
      by (simp add: saga_ok_def)
    then show ?thesis using Cons.IH Some by simp
  qed (simp add: Cons.prems)
qed simp

definition removal_env1 :: "(string \<times> string) option \<Rightarrow> (nat \<Rightarrow> bool) \<Rightarrow> bool \<Rightarrow> removal_env" where
  "removal_env1 reply_error store_works synced = \<lparr>re_client = True, re_prepare = (\<lambda>_. None), re_answer = (\<lambda>_. reply_error),
     re_store_ok = store_works, re_sync_ok = synced, re_clock = (\<lambda>k. int k)\<rparr>"

definition removal_world1 :: removal_world where
  "removal_world1 = \<lparr>w_db = removal_db, w_creds = [ref1], w_revoked = []\<rparr>"

lemma removal_world1_sound: "sound removal_world1"
  by code_simp

theorem removal_phases_are_true_witness:
  "sound (retry [removal_env1 None (\<lambda>k. k \<noteq> 0) True, removal_env1 (Some (''agent_timeout'', ''unknown'')) (\<lambda>_. True) True,
     removal_env1 None (\<lambda>k. k \<noteq> 1) True, removal_env1 None (\<lambda>_. True) True] ''rm'' removal_world1)"
  by (rule removal_phases_are_true [OF removal_world1_sound])

section \<open>Completion\<close>

lemma filter_active_update:
  fixes rows :: "agent_removal_job list"
  assumes "distinct (map r_agent_id (filter (\<lambda>r. r_phase r \<noteq> ''completed'') rows))"
    and "\<And>r. P r \<Longrightarrow> r_phase r \<noteq> ''completed''" and "\<And>r. r_agent_id (f r) = r_agent_id r"
  shows "distinct (map r_agent_id (filter (\<lambda>r. r_phase r \<noteq> ''completed'') (sql_update P f rows)))"
proof -
  define A where "A rs = map r_agent_id (filter (\<lambda>r. r_phase r \<noteq> ''completed'') rs)" for rs :: "agent_removal_job list"
  have A: "A [] = []" "A (r # rs) = (if r_phase r = ''completed'' then A rs else r_agent_id r # A rs)" for r rs
    by (simp_all add: A_def)
  have sub: "set (A (sql_update P f rs)) \<subseteq> set (A rs)" for rs
    using assms(2,3) by (induction rs) (auto simp: A)
  have "distinct (A rows) \<Longrightarrow> distinct (A (sql_update P f rows))"
    using assms(2,3) by (induction rows) (auto simp: A dest: subsetD [OF sub])
  then show ?thesis using assms(1) by (simp add: A_def)
qed

lemma transition_succeeds:
  assumes "db_ok d" and "job \<in> set (db_removals d)" and "valid_removal job"
    and "r_phase job \<noteq> ''completed''" and "phase \<in> set removal_phases"
  obtains d' where "transition job phase now err d = Inr (set_phase phase err now job, d')"
proof -
  let ?P = "in_phase (r_removal_id job) (r_phase job)" and ?f = "set_phase phase err now"
  have ok: "removals_unique (db_removals d)" "\<forall>r\<in>set (db_removals d). check_removal r"
    using assms(1) by (auto simp: db_ok_def removals_ok_def)
  have "distinct (map r_agent_id (filter (\<lambda>r. r_phase r \<noteq> ''completed'') (sql_update ?P ?f (db_removals d))))"
    using ok(1) assms(4) by (intro filter_active_update)
      (auto simp: removals_unique_def in_phase_def set_phase_def)
  moreover have "map r_removal_id (sql_update ?P ?f (db_removals d)) = map r_removal_id (db_removals d)"
    by (rule map_sql_update) (simp add: set_phase_def)
  ultimately have "removals_unique (sql_update ?P ?f (db_removals d))"
    using ok(1) unfolding removals_unique_def by simp
  then have u: "update_removals ?P ?f d = Some (d\<lparr>db_removals := sql_update ?P ?f (db_removals d)\<rparr>)"
    using ok(2) assms(5) by (simp add: update_removals_def check_removal_def set_phase_def)
  have "rowcount (\<lambda>r. r_removal_id r = r_removal_id job \<and> r_phase r = r_phase job) (db_removals d) = 1"
    using assms(2) removals_table.rowcount_key_1 [OF db_ok_removal_ids [OF assms(1)]] by auto
  moreover have "valid_removal (?f job)" using assms(3,5) by (simp add: valid_removal_def set_phase_def)
  ultimately show thesis
    using u that by (simp add: transition_def Let_def in_phase_def [abs_def])
qed

text \<open>
  The agent of a removal can be deleted: it is gone already, or it is still the captured
  one and no rotation of it is active.
\<close>

definition removable :: "agent_removal_job \<Rightarrow> manager_db \<Rightarrow> bool" where
  "removable job d \<longleftrightarrow> \<not> agent_exists d (r_agent_id job) \<or>
     (find (matches_agent (r_agent_id job) (r_captured_revision job) (r_credential_ref job)) (db_agents d) \<noteq> None
      \<and> find (active_rotation (r_agent_id job)) (db_jobs d) = None)"

definition ready :: "agent_removal_job \<Rightarrow> removal_world \<Rightarrow> bool" where
  "ready job w \<longleftrightarrow> sound w \<and> stored job w \<and> valid_removal job \<and> removable job (w_db w)"

definition favourable :: "removal_env \<Rightarrow> bool" where
  "favourable env \<longleftrightarrow> re_client env \<and> (\<forall>j. re_prepare env j = None \<and> re_answer env j = None) \<and>
     (\<forall>k. re_store_ok env k) \<and> re_sync_ok env"

lemma ready_frame:
  assumes "ready job w" and "sound w'" and "stored job' w'" and "valid_removal job'"
    and "db_agents (w_db w') = db_agents (w_db w)" and "db_jobs (w_db w') = db_jobs (w_db w)"
    and "r_agent_id job' = r_agent_id job" and "r_captured_revision job' = r_captured_revision job"
    and "r_credential_ref job' = r_credential_ref job"
  shows "ready job' w'"
  using assms by (simp add: ready_def removable_def agent_exists_def)

lemma move_ready:
  assumes "ready job w" and "r_phase job \<noteq> ''completed''" and "phase \<in> set removal_phases"
    and "row_truth w (job\<lparr>r_phase := phase\<rparr>)"
  obtains w' where "move env k job phase None w = (Inr (set_phase phase None (re_clock env k) job), w')"
    and "ready (set_phase phase None (re_clock env k) job) w'"
    and "db_agents (w_db w') = db_agents (w_db w)" and "w_creds w' = w_creds w" and "w_revoked w' = w_revoked w"
proof -
  let ?j = "set_phase phase None (re_clock env k) job"
  have ok: "db_ok (w_db w)" "job \<in> set (db_removals (w_db w))" "valid_removal job"
    using assms(1) by (auto simp: ready_def sound_def stored_def)
  obtain d' where t: "transition job phase (re_clock env k) None (w_db w) = Inr (?j, d')"
    using transition_succeeds [OF ok assms(2,3)] by blast
  then have m: "move env k job phase None w = (Inr ?j, w\<lparr>w_db := d'\<rparr>)"
    by (simp add: move_def db_call_def)
  have "sound (w\<lparr>w_db := d'\<rparr>) \<and> stored ?j (w\<lparr>w_db := d'\<rparr>)"
    using move_ok [of job phase env k None] assms(1,4) m
    by (auto simp: saga_ok_def ready_def dest!: spec [of _ w])
  moreover have "valid_removal ?j" using ok(3) assms(3) by (simp add: valid_removal_def set_phase_def)
  ultimately have "ready ?j (w\<lparr>w_db := d'\<rparr>)"
    using transition_rows(2,3) [OF ok(1,2) t]
    by (intro ready_frame [OF assms(1)]) (simp_all add: set_phase_def)
  then show thesis using that [OF m] transition_rows(2) [OF ok(1,2) t] by simp
qed

lemma phases_distinct:
  assumes "r_phase job \<in> {''pending'', ''revoking'', ''residual''}"
  shows "r_phase job \<noteq> ''completed''" and "r_phase job \<noteq> ''revoked''"
  using assms by auto

lemma phase_of_set_phase [simp]:
  "r_phase (set_phase phase err t job) = phase" "managed (set_phase phase err t job) = managed job"
  "r_removal_id (set_phase phase err t job) = r_removal_id job"
  "r_agent_id (set_phase phase err t job) = r_agent_id job"
  "r_credential_ref (set_phase phase err t job) = r_credential_ref job"
  by (simp_all add: set_phase_def managed_def)

lemma removal_phase_simps [simp]:
  "''revoking'' \<in> set removal_phases" "''revoked'' \<in> set removal_phases"
  "''registry_deleted'' \<in> set removal_phases" "''credential_deleted'' \<in> set removal_phases"
  "''completed'' \<in> set removal_phases"
  by (simp_all add: removal_phases_def)

lemma remote_revoke_ready:
  assumes "ready job w" and "favourable env" and "r_phase job \<in> {''pending'', ''revoking'', ''residual''}"
    and "r_credential_ref job \<in> set (w_creds w)"
  obtains j' w' where "remote_revoke env job w = (Inr j', w')" and "ready j' w'"
    and "r_phase j' = ''revoking''" and "r_removal_id j' = r_removal_id job" and "managed j' = managed job"
    and "r_removal_id j' \<in> set (w_revoked w')"
proof -
  have client: "re_client env" using assms(2) by (simp add: favourable_def)
  have token: "revoke_with_token env j v = acknowledge j v" if "ready j v" "r_credential_ref j \<in> set (w_creds v)" for j v
    using that assms(2) by (simp add: revoke_with_token_def credential_readable_def favourable_def ready_def valid_removal_def)
  have ack: "ready j (w\<lparr>w_revoked := r_removal_id j # w_revoked w\<rparr>)" if "ready j w" for j w
    using that by (auto simp: ready_def sound_def stored_def row_truth_def)
  show thesis
  proof (cases "r_phase job = ''revoking''")
    case True
    have "remote_revoke env job w = (Inr job, w\<lparr>w_revoked := r_removal_id job # w_revoked w\<rparr>)"
      using client True token [OF assms(1,4)] by (simp add: remote_revoke_def saga_bind_def saga_return_def acknowledge_def)
    then show thesis using that ack [OF assms(1)] True by simp
  next
    case False
    have "row_truth w (job\<lparr>r_phase := ''revoking''\<rparr>)" by (simp add: row_truth_def)
    then obtain w1 where m: "move env 0 job ''revoking'' None w = (Inr (set_phase ''revoking'' None (re_clock env 0) job), w1)"
      and r: "ready (set_phase ''revoking'' None (re_clock env 0) job) w1" and k: "w_creds w1 = w_creds w"
      using move_ready [OF assms(1) phases_distinct(1) [OF assms(3)]] removal_phase_simps(1) by blast
    have "remote_revoke env job w = (Inr (set_phase ''revoking'' None (re_clock env 0) job),
        w1\<lparr>w_revoked := r_removal_id job # w_revoked w1\<rparr>)"
      using client False m token [OF r] k assms(4) by (simp add: remote_revoke_def saga_bind_def acknowledge_def)
    then show thesis using that ack [OF r] by simp
  qed
qed

lemma revoke_phase_ready:
  assumes "ready job w" and "favourable env"
    and "managed job \<and> r_phase job \<in> {''pending'', ''revoking'', ''residual''} \<longrightarrow> r_credential_ref job \<in> set (w_creds w)"
  obtains j' w' where "revoke_phase env job w = (Inr j', w')" and "ready j' w'"
    and "r_removal_id j' = r_removal_id job" and "r_phase j' \<notin> {''pending'', ''revoking'', ''residual''}"
proof (cases "r_phase job \<in> {''pending'', ''revoking'', ''residual''}")
  case True
  have "\<exists>j1 w1. (if managed job then remote_revoke env job else saga_return job) w = (Inr j1, w1) \<and> ready j1 w1 \<and>
      r_phase j1 \<in> {''pending'', ''revoking'', ''residual''} \<and> r_removal_id j1 = r_removal_id job \<and>
      (managed j1 \<longrightarrow> r_removal_id j1 \<in> set (w_revoked w1))"
  proof (cases "managed job")
    case m: True
    obtain j1 w1 where "remote_revoke env job w = (Inr j1, w1)" "ready j1 w1"
      "r_phase j1 = ''revoking''" "r_removal_id j1 = r_removal_id job" "r_removal_id j1 \<in> set (w_revoked w1)"
      using remote_revoke_ready [OF assms(1,2) True] assms(3) True m by blast
    then show ?thesis using m by auto
  qed (use assms(1) True in \<open>simp add: saga_return_def\<close>)
  then obtain j1 w1 where f: "(if managed job then remote_revoke env job else saga_return job) w = (Inr j1, w1)"
    and r: "ready j1 w1" "r_phase j1 \<in> {''pending'', ''revoking'', ''residual''}"
      "r_removal_id j1 = r_removal_id job" "managed j1 \<longrightarrow> r_removal_id j1 \<in> set (w_revoked w1)"
    by blast
  have "row_truth w1 (j1\<lparr>r_phase := ''revoked''\<rparr>)" using r(4) by (simp add: row_truth_def managed_def)
  then obtain w2 where "move env 2 j1 ''revoked'' None w1 = (Inr (set_phase ''revoked'' None (re_clock env 2) j1), w2)"
    "ready (set_phase ''revoked'' None (re_clock env 2) j1) w2"
    using move_ready [OF r(1) phases_distinct(1) [OF r(2)]] removal_phase_simps(2) by blast
  moreover from this(1) have "revoke_phase env job w = (Inr (set_phase ''revoked'' None (re_clock env 2) j1), w2)"
    using True f by (simp add: revoke_phase_def saga_bind_def)
  ultimately show thesis using that r(3) by simp
next
  case False
  then show thesis using that assms(1) by (simp add: revoke_phase_def saga_return_def)
qed

lemma ready_no_rotation:
  assumes "ready job w"
  shows "find (active_rotation (r_agent_id job)) (db_jobs (w_db w)) = None"
proof (cases "agent_exists (w_db w) (r_agent_id job)")
  case True
  then show ?thesis using assms by (simp add: ready_def removable_def)
next
  case False
  have "replaced_agent_ok (w_db w) (row_job r)" if "r \<in> set (db_jobs (w_db w))" for r
    using that assms by (simp add: ready_def sound_def db_ok_def jobs_ok_def)
  then show ?thesis
    using False by (fastforce simp: find_None_iff active_rotation_def replaced_agent_ok_def)
qed

lemma owner_may_delete:
  assumes "ready job w" and "r_phase job \<noteq> ''completed''"
  shows "mutation_allowed (w_db w) (r_agent_id job) None (Some (r_removal_id job))"
proof -
  have ok: "db_ok (w_db w)" "job \<in> set (db_removals (w_db w))"
    using assms(1) by (auto simp: ready_def sound_def stored_def)
  have "distinct (map r_agent_id (filter (\<lambda>r. r_phase r \<noteq> ''completed'') (db_removals (w_db w))))"
    using ok(1) by (simp add: db_ok_def removals_ok_def removals_unique_def)
  then have "inj_on r_agent_id {r \<in> set (db_removals (w_db w)). r_phase r \<noteq> ''completed''}"
    by (simp add: distinct_map)
  then have only: "r = job" if "r \<in> set (db_removals (w_db w))" "r_phase r \<noteq> ''completed''"
      "r_agent_id r = r_agent_id job" for r
    using that ok(2) assms(2) by (auto dest: inj_onD)
  have "\<not> foreign_removal (r_agent_id job) (Some (r_removal_id job)) r" if "r \<in> set (db_removals (w_db w))" for r
    using only [OF that] by (auto simp: foreign_removal_def)
  moreover have "\<not> foreign_rotation (r_agent_id job) None r" if "r \<in> set (db_jobs (w_db w))" for r
    using that ready_no_rotation [OF assms(1)]
    by (auto simp: foreign_rotation_def active_rotation_def find_None_iff)
  ultimately show ?thesis by (simp add: mutation_allowed_iff)
qed

lemma delete_call_ready:
  assumes "ready job w" and "r_phase job \<noteq> ''completed''"
  obtains b w' where "db_call (delete_if_revision_and_credential (r_agent_id job) (r_captured_revision job)
      (r_credential_ref job) None (Some (r_removal_id job))) w = (Inr b, w')"
    and "ready job w'" and "\<not> agent_exists (w_db w') (r_agent_id job)"
proof -
  let ?i = "r_agent_id job" and ?n = "r_captured_revision job" and ?ref = "r_credential_ref job"
  let ?t = "delete_if_revision_and_credential ?i ?n ?ref None (Some (r_removal_id job))"
  have ok: "db_ok (w_db w)" using assms(1) by (simp add: ready_def sound_def)
  have "\<exists>b d'. ?t (w_db w) = Inr (b, d') \<and> \<not> agent_exists d' ?i"
  proof (cases "agent_exists (w_db w) ?i")
    case True
    then obtain a where a: "find (matches_agent ?i ?n ?ref) (db_agents (w_db w)) = Some a"
      and r: "find (active_rotation ?i) (db_jobs (w_db w)) = None"
      using assms(1) by (auto simp: ready_def removable_def)
    from delete_if_total [OF ok owner_may_delete [OF assms] a r]
    obtain d' where "?t (w_db w) = Inr (True, d')" by blast
    then show ?thesis using delete_if_gone [OF ok] by blast
  next
    case False
    then have "find (matches_agent ?i ?n ?ref) (db_agents (w_db w)) = None"
      by (auto simp: find_None_iff agent_exists_def matches_agent_def)
    then have "?t (w_db w) = Inr (False, w_db w)"
      using owner_may_delete [OF assms]
      by (simp add: delete_if_revision_and_credential_def assert_agent_mutation_allowed_def)
    then show ?thesis using False by blast
  qed
  then obtain b d' where t: "?t (w_db w) = Inr (b, d')" "\<not> agent_exists d' ?i" by blast
  then have c: "db_call ?t w = (Inr b, w\<lparr>w_db := d'\<rparr>)" by (simp add: db_call_def)
  have "sound (w\<lparr>w_db := d'\<rparr>) \<and> stored job (w\<lparr>w_db := d'\<rparr>)"
    using delete_call_ok [of job] assms(1) c by (auto simp: saga_ok_def ready_def dest!: spec [of _ w])
  then have "ready job (w\<lparr>w_db := d'\<rparr>)" using assms(1) t(2) by (simp add: ready_def removable_def)
  then show thesis using that [OF c] t(2) by simp
qed

lemma delete_phase_ready:
  assumes "ready job w" and "r_phase job \<notin> {''pending'', ''revoking'', ''residual''}"
  obtains j' w' where "delete_phase env job w = (Inr j', w')" and "ready j' w'"
    and "r_removal_id j' = r_removal_id job"
    and "r_phase j' \<in> {''registry_deleted'', ''credential_deleted'', ''completed''}"
proof (cases "r_phase job = ''revoked''")
  case True
  then have nc: "r_phase job \<noteq> ''completed''" by simp
  obtain b w1 where c: "db_call (delete_if_revision_and_credential (r_agent_id job) (r_captured_revision job)
      (r_credential_ref job) None (Some (r_removal_id job))) w = (Inr b, w1)"
    and r: "ready job w1" and g: "\<not> agent_exists (w_db w1) (r_agent_id job)"
    using delete_call_ready [OF assms(1) nc] by blast
  have "row_truth w1 job" using r by (simp add: ready_def sound_def stored_def)
  then have "row_truth w1 (job\<lparr>r_phase := ''registry_deleted''\<rparr>)"
    using True g by (simp add: row_truth_def managed_def)
  then obtain w2 where m: "move env 4 job ''registry_deleted'' None w1 =
      (Inr (set_phase ''registry_deleted'' None (re_clock env 4) job), w2)"
    and r2: "ready (set_phase ''registry_deleted'' None (re_clock env 4) job) w2"
    using move_ready [OF r nc] removal_phase_simps(3) by blast
  have "agent_get (r_agent_id job) (w_db w1) = None" using g agent_get_exists by blast
  then have "delete_phase env job w = (Inr (set_phase ''registry_deleted'' None (re_clock env 4) job), w2)"
    using True c m by (simp add: delete_phase_def saga_bind_def)
  then show thesis using that r2 by simp
next
  case False
  have "r_phase job \<in> set removal_phases" using assms(1) by (simp add: ready_def valid_removal_def)
  then have "r_phase job \<in> {''registry_deleted'', ''credential_deleted'', ''completed''}"
    using assms(2) False by (auto simp: removal_phases_def)
  then show thesis using that assms(1) False by (simp add: delete_phase_def saga_return_def)
qed

lemma credential_phase_ready:
  assumes "ready job w" and "favourable env" and "r_phase job \<in> {''registry_deleted'', ''credential_deleted'', ''completed''}"
  obtains j' w' where "credential_phase env job w = (Inr j', w')" and "ready j' w'"
    and "r_removal_id j' = r_removal_id job" and "r_phase j' \<in> {''credential_deleted'', ''completed''}"
proof (cases "r_phase job = ''registry_deleted''")
  case True
  then have nc: "r_phase job \<noteq> ''completed''" by simp
  let ?w = "w\<lparr>w_creds := removeAll (r_credential_ref job) (w_creds w)\<rparr>"
  have r: "ready job ?w"
    using assms(1) by (auto simp: ready_def sound_def stored_def row_truth_def)
  then have "row_truth ?w job" by (simp add: ready_def sound_def stored_def)
  then have "row_truth ?w (job\<lparr>r_phase := ''credential_deleted''\<rparr>)"
    using True by (simp add: row_truth_def managed_def)
  then obtain w2 where m: "move env 5 job ''credential_deleted'' None ?w =
      (Inr (set_phase ''credential_deleted'' None (re_clock env 5) job), w2)"
    and r2: "ready (set_phase ''credential_deleted'' None (re_clock env 5) job) w2"
    using move_ready [OF r nc] removal_phase_simps(4) by blast
  have "drop_credential env (r_credential_ref job) w = (Inr True, ?w)"
    using assms(1,2) by (auto simp: drop_credential_def favourable_def ready_def valid_removal_def)
  then have "credential_phase env job w = (Inr (set_phase ''credential_deleted'' None (re_clock env 5) job), w2)"
    using True assms(2) m by (simp add: credential_phase_def saga_bind_def favourable_def)
  then show thesis using that r2 by simp
next
  case False
  then show thesis using that assms(1,3) by (auto simp: credential_phase_def saga_return_def)
qed

lemma finish_phase_ready:
  assumes "ready job w" and "r_phase job \<in> {''credential_deleted'', ''completed''}"
  obtains j' w' where "finish_phase env job w = (Inr j', w')" and "ready j' w'"
    and "r_removal_id j' = r_removal_id job" and "r_phase j' = ''completed''"
proof (cases "r_phase job = ''credential_deleted''")
  case True
  then have nc: "r_phase job \<noteq> ''completed''" by simp
  have "row_truth w job" using assms(1) by (simp add: ready_def sound_def stored_def)
  then have "row_truth w (job\<lparr>r_phase := ''completed''\<rparr>)" using True by (simp add: row_truth_def managed_def)
  then obtain w2 where "move env 7 job ''completed'' None w = (Inr (set_phase ''completed'' None (re_clock env 7) job), w2)"
    "ready (set_phase ''completed'' None (re_clock env 7) job) w2"
    using move_ready [OF assms(1) nc] removal_phase_simps(5) by blast
  then show thesis using that True by (simp add: finish_phase_def)
next
  case False
  then show thesis using that assms by (auto simp: finish_phase_def saga_return_def)
qed

text \<open>
  \<open>C14\<close>.  One run of the saga finishes a removal, from any phase the stored row is in, when nothing
  stands in its way: the agent is gone already or is still the one captured, with no rotation of it
  active; the client is configured, the agent answers, the credential store works; and where the
  revocation is still to be made, for a managed agent, its credential is in the store.  The run ends
  without an error in phase \<open>completed\<close>, with the agent unregistered, the credential gone and, for a
  managed agent, the revocation acknowledged.
\<close>

theorem removal_completes:
  assumes "sound w" and "job \<in> set (db_removals (w_db w))" and "valid_removal job"
    and "removable job (w_db w)" and "re_client env" and "\<forall>j. re_prepare env j = None \<and> re_answer env j = None"
    and "\<forall>k. re_store_ok env k" and "re_sync_ok env"
    and "managed job \<and> r_phase job \<in> {''pending'', ''revoking'', ''residual''} \<longrightarrow> r_credential_ref job \<in> set (w_creds w)"
  shows "\<exists>j' w'. resume_removal env job w = (Inr j', w') \<and> r_removal_id j' = r_removal_id job \<and>
    j' \<in> set (db_removals (w_db w')) \<and> r_phase j' = ''completed'' \<and>
    \<not> agent_exists (w_db w') (r_agent_id j') \<and> r_credential_ref j' \<notin> set (w_creds w') \<and>
    (managed j' \<longrightarrow> r_removal_id j' \<in> set (w_revoked w'))"
proof -
  have r: "ready job w" using assms(1-4) by (simp add: ready_def stored_def)
  have f: "favourable env" using assms(5-8) by (simp add: favourable_def)
  obtain j1 w1 where s1: "revoke_phase env job w = (Inr j1, w1)" "ready j1 w1"
    "r_removal_id j1 = r_removal_id job" "r_phase j1 \<notin> {''pending'', ''revoking'', ''residual''}"
    using revoke_phase_ready [OF r f assms(9)] by blast
  obtain j2 w2 where s2: "delete_phase env j1 w1 = (Inr j2, w2)" "ready j2 w2"
    "r_removal_id j2 = r_removal_id j1" "r_phase j2 \<in> {''registry_deleted'', ''credential_deleted'', ''completed''}"
    using delete_phase_ready [OF s1(2,4)] by blast
  obtain j3 w3 where s3: "credential_phase env j2 w2 = (Inr j3, w3)" "ready j3 w3"
    "r_removal_id j3 = r_removal_id j2" "r_phase j3 \<in> {''credential_deleted'', ''completed''}"
    using credential_phase_ready [OF s2(2) f s2(4)] by blast
  obtain j4 w4 where s4: "finish_phase env j3 w3 = (Inr j4, w4)" "ready j4 w4"
    "r_removal_id j4 = r_removal_id j3" "r_phase j4 = ''completed''"
    using finish_phase_ready [OF s3(2,4)] by blast
  have "resume_removal env job w = (Inr j4, w4)"
    using s1(1) s2(1) s3(1) s4(1) by (simp add: resume_removal_def saga_bind_def)
  moreover have "row_truth w4 j4" "j4 \<in> set (db_removals (w_db w4))"
    using s4(2) by (simp_all add: ready_def sound_def stored_def)
  ultimately show ?thesis using s1(3) s2(3) s3(3) s4(3,4) by (auto simp: row_truth_def)
qed

theorem removal_completes_witness:
  "\<exists>j' w'. resume_removal (removal_env1 None (\<lambda>_. True) True) (hd (db_removals removal_db)) removal_world1 = (Inr j', w') \<and>
    r_phase j' = ''completed'' \<and> \<not> agent_exists (w_db w') (r_agent_id j')"
proof -
  let ?j = "hd (db_removals removal_db)"
  have "?j \<in> set (db_removals (w_db removal_world1))" "valid_removal ?j" "removable ?j (w_db removal_world1)"
    "r_credential_ref ?j \<in> set (w_creds removal_world1)"
    by code_simp+
  from removal_completes [OF removal_world1_sound this(1-3), of "removal_env1 None (\<lambda>_. True) True"] this(4)
  show ?thesis by (auto simp: removal_env1_def)
qed

section \<open>A removal that cannot be finished\<close>

text \<open>The row of a removal still has to be revoked at the agent, and the token to do so is gone.\<close>

definition stranded :: "string \<Rightarrow> removal_world \<Rightarrow> bool" where
  "stranded i w \<longleftrightarrow> db_ok (w_db w) \<and> (\<exists>job. stored job w \<and> r_removal_id job = i \<and> managed job \<and>
     r_phase job \<in> {''pending'', ''revoking'', ''residual''} \<and> r_credential_ref job \<notin> set (w_creds w))"

lemma move_cases:
  assumes "db_ok (w_db w)" and "stored job w"
  obtains e where "move env k job phase err w = (Inl e, w)"
  | w' where "move env k job phase err w = (Inr (set_phase phase err (re_clock env k) job), w')"
      "db_ok (w_db w')" "stored (set_phase phase err (re_clock env k) job) w'" "w_creds w' = w_creds w"
proof (cases "transition job phase (re_clock env k) err (w_db w)")
  case (Inl e)
  then show thesis using that(1) by (simp add: move_def db_call_def)
next
  case (Inr p)
  then obtain v d' where t: "transition job phase (re_clock env k) err (w_db w) = Inr (v, d')" by (cases p) auto
  then have "move env k job phase err w = (Inr v, w\<lparr>w_db := d'\<rparr>)" by (simp add: move_def db_call_def)
  moreover note transition_rows [OF assms(1) assms(2) [unfolded stored_def] t]
  ultimately show thesis using that(2) [of "w\<lparr>w_db := d'\<rparr>"] by (simp add: stored_def)
qed

lemma stranded_row:
  assumes "stranded i w" and "removal_get i (w_db w) = Some job"
  shows "stored job w \<and> managed job \<and> r_removal_id job = i \<and> r_phase job \<in> {''pending'', ''revoking'', ''residual''} \<and>
    r_credential_ref job \<notin> set (w_creds w)"
proof -
  from assms(1) obtain j where j: "db_ok (w_db w)" "stored j w" "r_removal_id j = i" "managed j"
    "r_phase j \<in> {''pending'', ''revoking'', ''residual''}" "r_credential_ref j \<notin> set (w_creds w)"
    unfolding stranded_def by blast
  have "stored job w" "r_removal_id job = i"
    using removal_get_stored [OF assms(2)] assms(2) by (auto simp: removal_get_def find_Some_iff)
  with j have "job = j" using removals_table.uniq_same [OF db_ok_removal_ids [OF j(1)], of job j] by (simp add: stored_def)
  with j show ?thesis by blast
qed

lemma leave_residual_strands:
  assumes "stranded (r_removal_id job) w" and "stored job w" and "managed job" and "r_credential_ref job \<notin> set (w_creds w)"
  shows "stranded (r_removal_id job) (snd (leave_residual env k job code state w)) \<and>
    (\<exists>e. fst (leave_residual env k job code state w) = Inl e)"
proof -
  have "db_ok (w_db w)" using assms(1) by (simp add: stranded_def)
  from this assms(2) show ?thesis
  proof (cases rule: move_cases [of w job env k "''residual''" "Some code"])
    case (1 e)
    then show ?thesis using assms(1) by (simp add: leave_residual_def saga_bind_def)
  next
    case (2 w')
    then show ?thesis
      using assms(3,4) by (auto simp: leave_residual_def saga_bind_def saga_raise_def stranded_def
          intro!: exI [of _ "set_phase ''residual'' (Some code) (re_clock env k) job"])
  qed
qed

lemma resume_stranded:
  assumes "stranded i w" and "removal_get i (w_db w) = Some job"
  shows "stranded i (snd (resume_removal env job w))"
proof -
  note job = stranded_row [OF assms]
  have ok: "db_ok (w_db w)" using assms(1) by (simp add: stranded_def)
  have token: "stranded i (snd (revoke_with_token env j v)) \<and> (\<exists>e. fst (revoke_with_token env j v) = Inl e)"
    if "stranded i v" "stored j v" "managed j" "r_removal_id j = i" "r_credential_ref j \<notin> set (w_creds v)" for j v
    using leave_residual_strands [of j v env 1] that by (cases rule: revoke_with_token_cases [of env j v]) simp_all
  have "stranded i (snd (remote_revoke env job w)) \<and> (\<exists>e. fst (remote_revoke env job w) = Inl e)"
  proof (cases "re_client env \<and> r_phase job \<noteq> ''revoking''")
    case True
    from ok conjunct1 [OF job] show ?thesis
    proof (cases rule: move_cases [of w job env 0 "''revoking''" None])
      case (1 e)
      then show ?thesis using True assms(1) by (simp add: remote_revoke_def saga_bind_def)
    next
      case (2 w')
      let ?j = "set_phase ''revoking'' None (re_clock env 0) job"
      have "stranded i w'" using 2 job by (auto simp: stranded_def intro!: exI [of _ ?j])
      then show ?thesis using token [of w' ?j] 2 True job by (simp add: remote_revoke_def saga_bind_def)
    qed
  next
    case False
    then show ?thesis
      using token [of w job] assms(1) job
      by (auto simp: remote_revoke_def saga_bind_def saga_return_def saga_raise_def)
  qed
  then obtain e w' where "remote_revoke env job w = (Inl e, w')" "stranded i w'" by (cases "remote_revoke env job w") auto
  then show ?thesis using job by (auto simp: resume_removal_def revoke_phase_def saga_bind_def)
qed

lemma retry_stranded: "stranded i w \<Longrightarrow> stranded i (retry envs i w)"
  by (induction envs arbitrary: w) (auto split: option.splits dest: resume_stranded)

text \<open>
  \<open>C38\<close>.  A directory sync that fails once strands a removal.  The row of a managed agent is in
  phase \<open>registry_deleted\<close>, the credential file is unlinked and the sync after it fails: the error leaves
  the row \<open>residual\<close>, a phase that is resumed by reading the token again.  While the file stays gone, no number
  of retries, whatever the agent and the store answer in them, ever completes the removal.
\<close>

theorem unsynced_delete_strands_removal:
  assumes "sound w" and "removal_get i (w_db w) = Some job" and "valid_removal job" and "managed job"
    and "r_phase job = ''registry_deleted''" and "r_credential_ref job \<in> set (w_creds w)"
    and "re_store_ok env 1" and "re_store_ok env 2" and "\<not> re_sync_ok env"
  shows "\<exists>j'. removal_get i (w_db (retry (env # envs) i w)) = Some j' \<and> r_removal_id j' = i \<and>
    r_phase j' \<in> {''pending'', ''revoking'', ''residual''}"
proof -
  let ?w = "w\<lparr>w_creds := removeAll (r_credential_ref job) (w_creds w)\<rparr>"
  let ?j = "set_phase ''residual'' (Some ''credential_cleanup_failed'') (re_clock env 6) job"
  have ok: "db_ok (w_db w)" using assms(1) by (simp add: sound_def)
  have s: "stored job w" "r_removal_id job = i"
    using removal_get_stored [OF assms(2)] assms(2) by (auto simp: removal_get_def find_Some_iff)
  have st: "job \<in> set (db_removals (w_db w))" "r_phase job \<noteq> ''completed''" "''residual'' \<in> set removal_phases"
    using s(1) assms(5) by (simp_all add: stored_def removal_phases_def)
  obtain d' where "transition job ''residual'' (re_clock env 6) (Some ''credential_cleanup_failed'') (w_db w) = Inr (?j, d')"
    by (rule transition_succeeds [OF ok st(1) assms(3) st(2,3)])
  then have returns: "fst (move env 6 job ''residual'' (Some ''credential_cleanup_failed'') ?w) \<noteq> Inl e" for e
    by (auto simp: move_def db_call_def split: sum.splits)
  obtain w' where m: "move env 6 job ''residual'' (Some ''credential_cleanup_failed'') ?w = (Inr ?j, w')"
    "db_ok (w_db w')" "stored ?j w'" "w_creds w' = w_creds ?w"
    by (rule move_cases [of ?w job env 6 "''residual''" "Some ''credential_cleanup_failed''"])
      (use ok s(1) returns in \<open>auto simp: stored_def\<close>)
  have "snd (resume_removal env job w) = w'"
    using assms(3,5-9) m(1) by (simp add: resume_removal_def saga_bind_def revoke_phase_def delete_phase_def
        saga_return_def credential_phase_def drop_credential_def leave_residual_def saga_raise_def valid_removal_def)
  moreover have "stranded i w'" using m s(2) assms(4) by (auto simp: stranded_def intro!: exI [of _ ?j])
  ultimately have str: "stranded i (retry (env # envs) i w)" using assms(2) retry_stranded by simp
  then have "removal_get i (w_db (retry (env # envs) i w)) \<noteq> None"
    by (auto simp: stranded_def stored_def removal_get_def find_None_iff)
  then obtain j' where "removal_get i (w_db (retry (env # envs) i w)) = Some j'" by blast
  then show ?thesis using stranded_row [OF str] by blast
qed

definition unsynced_world :: removal_world where
  "unsynced_world = snd (resume_removal (removal_env1 None (\<lambda>k. k \<noteq> 1) True) (hd (db_removals removal_db)) removal_world1)"

theorem unsynced_delete_strands_removal_witness:
  "\<exists>j'. removal_get ''rm'' (w_db (retry [removal_env1 None (\<lambda>_. True) False, removal_env1 None (\<lambda>_. True) True,
     removal_env1 None (\<lambda>_. True) True] ''rm'' unsynced_world)) = Some j' \<and> r_phase j' \<noteq> ''completed''"
proof -
  let ?env = "removal_env1 None (\<lambda>_. True) False" and ?ok = "removal_env1 None (\<lambda>_. True) True"
  let ?job = "hd (db_removals (w_db unsynced_world))"
  have "sound unsynced_world" "removal_get ''rm'' (w_db unsynced_world) = Some ?job" "valid_removal ?job" "managed ?job"
    "r_phase ?job = ''registry_deleted''" "r_credential_ref ?job \<in> set (w_creds unsynced_world)"
    by code_simp+
  from unsynced_delete_strands_removal [OF this, of ?env "[?ok, ?ok]"] show ?thesis
    by (auto simp: removal_env1_def)
qed

end
