(* ===== verification/Discovery_Store.thy ===== *)
theory Discovery_Store
  imports Journal_Machine
begin

text \<open>
  \<open>DiscoveryRepository\<close> of \<open>storage/discovery.py\<close> on the tables \<open>discovery_jobs\<close> and
  \<open>discovery_results\<close> of the migrations \<open>0010\<close> and \<open>0011\<close>.  \<open>uuid4()\<close> is an argument of
  \<open>record_result\<close>.  Methods that read the job back after their transaction are modelled with the
  state that transaction left.
\<close>

section \<open>Constraints\<close>

definition check_discovery_job :: "discovery_job \<Rightarrow> bool" where
  "check_discovery_job j \<longleftrightarrow> 0 \<le> d_total_targets j \<and> d_total_targets j \<le> 2048 \<and>
     0 \<le> d_checked_targets j \<and> d_checked_targets j \<le> d_total_targets j \<and>
     0 \<le> d_found_targets j \<and> d_found_targets j \<le> d_checked_targets j"

definition check_discovery_result :: "discovery_result \<Rightarrow> bool" where
  "check_discovery_result r \<longleftrightarrow> 1 \<le> dr_port r \<and> dr_port r \<le> 65535"

definition discovery_jobs_unique :: "discovery_job list \<Rightarrow> bool" where
  "discovery_jobs_unique rows \<longleftrightarrow> distinct (map d_job_id rows) \<and> distinct (map d_start_audit_event_id rows)"

definition result_key :: "discovery_result \<Rightarrow> string \<times> string \<times> int \<times> string" where
  "result_key r = (dr_job_id r, dr_ip r, dr_port r, dr_transport_profile_id r)"

definition discovery_results_unique :: "discovery_result list \<Rightarrow> bool" where
  "discovery_results_unique rows \<longleftrightarrow> distinct (map dr_result_id rows) \<and> distinct (map result_key rows) \<and>
     distinct (filter (\<lambda>x. x \<noteq> None) (map dr_linked_enrollment_id rows))"

text \<open>
  The constraints of the two tables that later proofs use.  The reference of \<open>start_audit_event_id\<close> to the
  audit events is checked where a job is inserted (\<open>insert_discovery_job\<close>) and is not part of this invariant.
\<close>

definition discovery_ok :: "manager_db \<Rightarrow> bool" where
  "discovery_ok d \<longleftrightarrow> discovery_jobs_unique (db_discovery_jobs d) \<and>
     discovery_results_unique (db_discovery_results d) \<and>
     (\<forall>j\<in>set (db_discovery_jobs d). check_discovery_job j) \<and>
     (\<forall>r\<in>set (db_discovery_results d). check_discovery_result r \<and> dr_job_id r \<in> d_job_id ` set (db_discovery_jobs d))"

section \<open>Statements\<close>

definition insert_discovery_job :: "discovery_job \<Rightarrow> manager_db \<Rightarrow> manager_db option" where
  "insert_discovery_job j d =
     (if check_discovery_job j \<and> discovery_jobs_unique (db_discovery_jobs d @ [j]) \<and>
         (\<exists>e\<in>set (db_audit d). e_id e = d_start_audit_event_id j)
      then Some (d\<lparr>db_discovery_jobs := db_discovery_jobs d @ [j]\<rparr>) else None)"

definition update_discovery_jobs ::
  "(discovery_job \<Rightarrow> bool) \<Rightarrow> (discovery_job \<Rightarrow> discovery_job) \<Rightarrow> manager_db \<Rightarrow> manager_db option" where
  "update_discovery_jobs P f d =
     (if \<forall>j\<in>set (db_discovery_jobs d). P j \<longrightarrow> check_discovery_job (f j)
      then Some (d\<lparr>db_discovery_jobs := sql_update P f (db_discovery_jobs d)\<rparr>) else None)"

text \<open>\<open>ON CONFLICT(job_id,ip,port,transport_profile_id) DO UPDATE\<close> of the observed columns.\<close>

definition merge_result :: "discovery_result \<Rightarrow> discovery_result \<Rightarrow> discovery_result" where
  "merge_result new r = r\<lparr>dr_fingerprint_version := dr_fingerprint_version new, dr_found := dr_found new,
     dr_safe_error_code := dr_safe_error_code new, dr_last_seen_at := dr_last_seen_at new\<rparr>"

definition upsert_result :: "discovery_result \<Rightarrow> manager_db \<Rightarrow> manager_db option" where
  "upsert_result r d =
     (let rows = db_discovery_results d in
      if \<not> check_discovery_result r then None
      else if result_key r \<in> result_key ` set rows
      then Some (d\<lparr>db_discovery_results := sql_update (\<lambda>x. result_key x = result_key r) (merge_result r) rows\<rparr>)
      else if dr_result_id r \<in> dr_result_id ` set rows \<or> dr_job_id r \<notin> d_job_id ` set (db_discovery_jobs d)
      then None
      else Some (d\<lparr>db_discovery_results := rows @ [r]\<rparr>))"

text \<open>\<open>DELETE FROM discovery_jobs\<close> with \<open>ON DELETE CASCADE\<close>.\<close>

definition delete_discovery_jobs :: "(discovery_job \<Rightarrow> bool) \<Rightarrow> manager_db \<Rightarrow> manager_db" where
  "delete_discovery_jobs P d =
     (let gone = d_job_id ` {j \<in> set (db_discovery_jobs d). P j} in
      d\<lparr>db_discovery_jobs := sql_delete P (db_discovery_jobs d),
        db_discovery_results := sql_delete (\<lambda>r. dr_job_id r \<in> gone) (db_discovery_results d)\<rparr>)"

section \<open>Reads\<close>

definition active_discovery :: "discovery_job \<Rightarrow> bool" where
  "active_discovery j \<longleftrightarrow> d_state j \<in> {DQueued, DRunning}"

definition get_job :: "string \<Rightarrow> manager_db \<Rightarrow> discovery_job option" where
  "get_job job_id d = find (\<lambda>j. d_job_id j = job_id) (db_discovery_jobs d)"

definition list_results :: "string \<Rightarrow> manager_db \<Rightarrow> discovery_result list" where
  "list_results job_id d = sort_key (\<lambda>r. (dr_ip r, dr_port r))
     (filter (\<lambda>r. dr_job_id r = job_id) (db_discovery_results d))"

definition get_result :: "string \<Rightarrow> manager_db \<Rightarrow> discovery_result option" where
  "get_result result_id d = find (\<lambda>r. dr_result_id r = result_id) (db_discovery_results d)"

definition result_keys :: "string \<Rightarrow> manager_db \<Rightarrow> (string \<times> int \<times> string) set" where
  "result_keys job_id d = (\<lambda>r. (dr_ip r, dr_port r, dr_transport_profile_id r)) `
     {r \<in> set (db_discovery_results d). dr_job_id r = job_id}"

definition start_audit :: "string list \<Rightarrow> discovery_job \<Rightarrow> audit_event \<Rightarrow> bool" where
  "start_audit results j e \<longleftrightarrow> e_id e = d_start_audit_event_id j \<and> e_operation e = ''discovery.start'' \<and>
     e_target e = ''discovery:'' @ d_scope_id j \<and> e_result e \<in> set results"

definition terminal_jobs_with_pending_audit :: "manager_db \<Rightarrow> discovery_job list" where
  "terminal_jobs_with_pending_audit d = sort_key d_created_at
     (filter (\<lambda>j. \<not> active_discovery j \<and> list_ex (start_audit [''pending''] j) (db_audit d)) (db_discovery_jobs d))"

section \<open>Writes\<close>

datatype store_error = StoreError registry_error | AssertionFailed

type_synonym 'a store = "manager_db \<Rightarrow> store_error + 'a \<times> manager_db"

definition set_timeout :: "instant \<Rightarrow> discovery_job \<Rightarrow> discovery_job" where
  "set_timeout now j = j\<lparr>d_state := DFailed, d_safe_error_code := Some ''job_timeout'', d_updated_at := now,
     d_completed_at := Some now\<rparr>"

definition set_cancelled_job :: "instant \<Rightarrow> discovery_job \<Rightarrow> discovery_job" where
  "set_cancelled_job now j = j\<lparr>d_state := DCancelled, d_updated_at := now, d_completed_at := Some now\<rparr>"

definition overdue :: "instant \<Rightarrow> discovery_job \<Rightarrow> bool" where
  "overdue now j \<longleftrightarrow> active_discovery j \<and> d_deadline_at j \<le> now"

definition expire_deadlines :: "instant \<Rightarrow> discovery_job list store" where
  "expire_deadlines now d =
     (case update_discovery_jobs (overdue now) (set_timeout now) d of
        None \<Rightarrow> Inl (StoreError RegistryError)
      | Some d' \<Rightarrow> Inr (map (set_timeout now) (filter (overdue now) (db_discovery_jobs d)), d'))"

definition create_job :: "discovery_job \<Rightarrow> int \<Rightarrow> discovery_job store" where
  "create_job job max_active_jobs d =
     (if max_active_jobs \<le> int (rowcount active_discovery (db_discovery_jobs d))
      then Inl (StoreError (RegistryConflict ''discovery_capacity''))
      else case insert_discovery_job (job\<lparr>d_completed_at := None\<rparr>) d of
        None \<Rightarrow> Inl (StoreError RegistryError)
      | Some d' \<Rightarrow> Inr (job, d'))"

definition merge_state :: "dispatch_state \<Rightarrow> dispatch_state \<Rightarrow> dispatch_state" where
  "merge_state stored incoming =
     (if stored = Dispatched \<or> incoming = Dispatched then Dispatched
      else if stored = Unknown \<or> incoming = Unknown then Unknown else Not_Dispatched)"

definition running_job :: "string \<Rightarrow> discovery_job \<Rightarrow> bool" where
  "running_job job_id j \<longleftrightarrow> d_job_id j = job_id \<and> d_state j = DRunning"

definition merge_dispatch :: "string \<Rightarrow> dispatch_state \<Rightarrow> instant \<Rightarrow> discovery_job store" where
  "merge_dispatch job_id incoming now d =
     (case update_discovery_jobs (running_job job_id)
        (\<lambda>j. j\<lparr>d_aggregate_dispatch_state := merge_state (d_aggregate_dispatch_state j) incoming,
           d_updated_at := now\<rparr>) d of
        None \<Rightarrow> Inl (StoreError RegistryError)
      | Some d' \<Rightarrow>
        (case get_job job_id d' of
           None \<Rightarrow> Inl (StoreError (RegistryConflict ''discovery_job_not_found''))
         | Some j \<Rightarrow> Inr (j, d')))"

definition cancelling :: "discovery_job \<Rightarrow> bool" where
  "cancelling j \<longleftrightarrow> active_discovery j \<and> d_cancel_requested j"

definition recover :: "instant \<Rightarrow> (discovery_job list \<times> discovery_job list) store" where
  "recover now d =
     (case update_discovery_jobs cancelling (set_cancelled_job now) d of
        None \<Rightarrow> Inl (StoreError RegistryError)
      | Some d1 \<Rightarrow>
        let expired = (\<lambda>j. overdue now j \<and> \<not> d_cancel_requested j) in
        (case update_discovery_jobs (\<lambda>j. d_state j = DRunning \<and> \<not> d_cancel_requested j \<and> now < d_deadline_at j)
            (\<lambda>j. j\<lparr>d_state := DQueued, d_updated_at := now\<rparr>) d1 of
           None \<Rightarrow> Inl (StoreError RegistryError)
         | Some d2 \<Rightarrow>
           (case update_discovery_jobs expired (set_timeout now) d2 of
              None \<Rightarrow> Inl (StoreError RegistryError)
            | Some d3 \<Rightarrow>
              Inr ((sort_key d_created_at (filter (\<lambda>j. d_state j = DQueued \<and> \<not> d_cancel_requested j)
                      (db_discovery_jobs d3)),
                    map (set_cancelled_job now) (filter cancelling (db_discovery_jobs d)) @
                    map (set_timeout now) (filter expired (db_discovery_jobs d1))), d3))))"

definition cleanable :: "instant \<Rightarrow> manager_db \<Rightarrow> discovery_job \<Rightarrow> bool" where
  "cleanable retained_after d j \<longleftrightarrow> \<not> active_discovery j \<and>
     (case d_completed_at j of None \<Rightarrow> False | Some t \<Rightarrow> t < retained_after) \<and>
     list_ex (start_audit [''success'', ''failed''] j) (db_audit d) \<and>
     \<not> (\<exists>r\<in>set (db_discovery_results d). dr_job_id r = d_job_id j \<and>
         (\<exists>e\<in>set (db_jobs d). dr_linked_enrollment_id r = Some (row_id e) \<and> \<not> terminal (j_state (row_job e))))"

definition cleanup :: "instant \<Rightarrow> nat store" where
  "cleanup retained_after d =
     Inr (rowcount (cleanable retained_after d) (db_discovery_jobs d),
          delete_discovery_jobs (cleanable retained_after d) d)"

definition claimable :: "string \<Rightarrow> discovery_job \<Rightarrow> bool" where
  "claimable job_id j \<longleftrightarrow> d_job_id j = job_id \<and> d_state j = DQueued \<and> \<not> d_cancel_requested j"

definition claim :: "string \<Rightarrow> instant \<Rightarrow> discovery_job option store" where
  "claim job_id now d =
     (case update_discovery_jobs (claimable job_id) (\<lambda>j. j\<lparr>d_state := DRunning, d_updated_at := now\<rparr>) d of
        None \<Rightarrow> Inl (StoreError RegistryError)
      | Some d' \<Rightarrow>
        Inr (if rowcount (claimable job_id) (db_discovery_jobs d) = 1 then get_job job_id d' else None, d'))"

definition request_cancel :: "string \<Rightarrow> instant \<Rightarrow> discovery_job store" where
  "request_cancel job_id now d =
     (let P = (\<lambda>j. d_job_id j = job_id \<and> active_discovery j) in
      case update_discovery_jobs P (\<lambda>j. j\<lparr>d_cancel_requested := True, d_updated_at := now\<rparr>) d of
        None \<Rightarrow> Inl (StoreError RegistryError)
      | Some d' \<Rightarrow>
        if rowcount P (db_discovery_jobs d) \<noteq> 1
        then Inl (StoreError (RegistryConflict ''discovery_not_cancellable''))
        else (case get_job job_id d' of None \<Rightarrow> Inl AssertionFailed | Some j \<Rightarrow> Inr (j, d')))"

definition observed_result ::
  "string \<Rightarrow> string \<Rightarrow> discovery_target \<Rightarrow> string option \<Rightarrow> string option \<Rightarrow> instant \<Rightarrow> discovery_result" where
  "observed_result uuid job_id target fingerprint err now = \<lparr>dr_result_id = uuid, dr_job_id = job_id,
     dr_canonical_url = canonical_url target, dr_ip = t_ip target, dr_port = t_port target,
     dr_transport_profile_id = t_transport_profile_id target, dr_fingerprint_version = fingerprint,
     dr_found = (fingerprint \<noteq> None), dr_safe_error_code = err, dr_first_seen_at = now,
     dr_last_seen_at = now, dr_linked_enrollment_id = None\<rparr>"

definition checked_count :: "string \<Rightarrow> manager_db \<Rightarrow> int" where
  "checked_count job_id d = int (rowcount (\<lambda>r. dr_job_id r = job_id) (db_discovery_results d))"

definition found_count :: "string \<Rightarrow> manager_db \<Rightarrow> int" where
  "found_count job_id d = int (rowcount (\<lambda>r. dr_job_id r = job_id \<and> dr_found r) (db_discovery_results d))"

definition record_result ::
  "string \<Rightarrow> string \<Rightarrow> discovery_target \<Rightarrow> string option \<Rightarrow> string option \<Rightarrow> instant \<Rightarrow> unit store" where
  "record_result uuid job_id target fingerprint err now d =
     (if find (running_job job_id) (db_discovery_jobs d) = None then Inr ((), d)
      else case upsert_result (observed_result uuid job_id target fingerprint err now) d of
        None \<Rightarrow> Inl (StoreError RegistryError)
      | Some d1 \<Rightarrow>
        (case update_discovery_jobs (running_job job_id)
            (\<lambda>j. j\<lparr>d_checked_targets := checked_count job_id d1, d_found_targets := found_count job_id d1,
               d_updated_at := now\<rparr>) d1 of
           None \<Rightarrow> Inl (StoreError RegistryError)
         | Some d2 \<Rightarrow> Inr ((), d2)))"

definition finishable :: "string \<Rightarrow> discovery_state \<Rightarrow> discovery_job \<Rightarrow> bool" where
  "finishable job_id st j \<longleftrightarrow> d_job_id j = job_id \<and> active_discovery j \<and>
     d_cancel_requested j = (st = DCancelled)"

definition finish :: "string \<Rightarrow> discovery_state \<Rightarrow> instant \<Rightarrow> string option \<Rightarrow> discovery_job store" where
  "finish job_id st now err d =
     (case update_discovery_jobs (finishable job_id st)
        (\<lambda>j. j\<lparr>d_state := st, d_safe_error_code := err, d_updated_at := now, d_completed_at := Some now\<rparr>) d of
        None \<Rightarrow> Inl (StoreError RegistryError)
      | Some d' \<Rightarrow> (case get_job job_id d' of None \<Rightarrow> Inl AssertionFailed | Some j \<Rightarrow> Inr (j, d')))"

section \<open>The repository as a transaction system\<close>

datatype discovery_op =
    DExpire instant
  | DCreate discovery_job int
  | DMerge string dispatch_state instant
  | DRecover instant
  | DCleanup instant
  | DClaim string instant
  | DCancel string instant
  | DRecord string string discovery_target "string option" "string option" instant
  | DFinish string discovery_state instant "string option"

definition done_with :: "store_error + 'a \<times> manager_db \<Rightarrow> store_error + unit \<times> manager_db" where
  "done_with r = map_sum id (\<lambda>(_, d). ((), d)) r"

fun run_discovery :: "discovery_op \<Rightarrow> unit store" where
  "run_discovery (DExpire now) d = done_with (expire_deadlines now d)"
| "run_discovery (DCreate j m) d = done_with (create_job j m d)"
| "run_discovery (DMerge i s now) d = done_with (merge_dispatch i s now d)"
| "run_discovery (DRecover now) d = done_with (recover now d)"
| "run_discovery (DCleanup t) d = done_with (cleanup t d)"
| "run_discovery (DClaim i now) d = done_with (claim i now d)"
| "run_discovery (DCancel i now) d = done_with (request_cancel i now d)"
| "run_discovery (DRecord u i t f e now) d = done_with (record_result u i t f e now d)"
| "run_discovery (DFinish i s now e) d = done_with (finish i s now e d)"

end
