(* ===== verification/Discovery_Properties.thy ===== *)
theory Discovery_Properties
  imports Discovery_Store
begin

text \<open>
  Properties of the discovery repository: every method keeps the constraints of the two tables,
  the progress counters of a job always equal what is stored for it, and a job whose
  cancellation was requested can no longer complete.
\<close>

section \<open>What the methods do to the job rows\<close>

text \<open>
  One rule per \<open>UPDATE\<close> of the repository; \<open>discovery_step x j j'\<close> is what the call \<open>x\<close> may do to
  a stored job apart from its counters.
\<close>

inductive discovery_step :: "discovery_op \<Rightarrow> discovery_job \<Rightarrow> discovery_job \<Rightarrow> bool" where
  timeout: "overdue now j \<Longrightarrow> discovery_step (DExpire now) j (set_timeout now j)"
| merged: "running_job i j \<Longrightarrow> discovery_step (DMerge i s now) j
     (j\<lparr>d_aggregate_dispatch_state := merge_state (d_aggregate_dispatch_state j) s, d_updated_at := now\<rparr>)"
| recovered_cancel: "cancelling j \<Longrightarrow> discovery_step (DRecover now) j (set_cancelled_job now j)"
| requeued: "d_state j = DRunning \<Longrightarrow> \<not> d_cancel_requested j \<Longrightarrow> now < d_deadline_at j \<Longrightarrow>
     discovery_step (DRecover now) j (j\<lparr>d_state := DQueued, d_updated_at := now\<rparr>)"
| recovered_timeout: "overdue now j \<Longrightarrow> \<not> d_cancel_requested j \<Longrightarrow>
     discovery_step (DRecover now) j (set_timeout now j)"
| claimed: "claimable i j \<Longrightarrow> discovery_step (DClaim i now) j (j\<lparr>d_state := DRunning, d_updated_at := now\<rparr>)"
| cancel_requested: "d_job_id j = i \<Longrightarrow> active_discovery j \<Longrightarrow>
     discovery_step (DCancel i now) j (j\<lparr>d_cancel_requested := True, d_updated_at := now\<rparr>)"
| recorded: "running_job i j \<Longrightarrow> discovery_step (DRecord u i t f e now) j
     (j\<lparr>d_checked_targets := c, d_found_targets := n, d_updated_at := now\<rparr>)"
| finished: "finishable i s j \<Longrightarrow> discovery_step (DFinish i s now e) j
     (j\<lparr>d_state := s, d_safe_error_code := e, d_updated_at := now, d_completed_at := Some now\<rparr>)"

inductive_cases discovery_stepE: "discovery_step x j j'"

lemma discovery_step_keys:
  "discovery_step x j j' \<Longrightarrow> d_job_id j' = d_job_id j \<and> d_start_audit_event_id j' = d_start_audit_event_id j"
  by (auto simp: set_timeout_def set_cancelled_job_def elim!: discovery_stepE)

definition job_rows :: "discovery_op \<Rightarrow> discovery_job list \<Rightarrow> discovery_job list \<Rightarrow> bool" where
  "job_rows x = list_all2 (\<lambda>j j'. (discovery_step x)\<^sup>*\<^sup>* j j')"

lemma job_rows_refl: "job_rows x rows rows"
  by (simp add: job_rows_def list.rel_refl)

lemma job_rows_trans: "job_rows x a b \<Longrightarrow> job_rows x b c \<Longrightarrow> job_rows x a c"
  unfolding job_rows_def
  by (rule list_all2_trans [of "(discovery_step x)\<^sup>*\<^sup>*" "(discovery_step x)\<^sup>*\<^sup>*" "(discovery_step x)\<^sup>*\<^sup>*",
        OF rtranclp_trans])

lemma steps_keys:
  "(discovery_step x)\<^sup>*\<^sup>* j j' \<Longrightarrow> d_job_id j' = d_job_id j \<and> d_start_audit_event_id j' = d_start_audit_event_id j"
  by (induction rule: rtranclp_induct) (auto dest: discovery_step_keys)

lemma job_rows_keys:
  assumes "job_rows x rows rows'"
  shows "map d_job_id rows' = map d_job_id rows" "map d_start_audit_event_id rows' = map d_start_audit_event_id rows"
  using assms unfolding job_rows_def by (induction rule: list_all2_induct) (auto dest: steps_keys)

section \<open>Constraints\<close>

lemma update_discovery_Some:
  "update_discovery_jobs P f d = Some d' \<longleftrightarrow> (\<forall>j\<in>set (db_discovery_jobs d). P j \<longrightarrow> check_discovery_job (f j)) \<and>
     d' = d\<lparr>db_discovery_jobs := sql_update P f (db_discovery_jobs d)\<rparr>"
  by (auto simp: update_discovery_jobs_def)

lemma update_discovery_rows:
  assumes "update_discovery_jobs P f d = Some d'" and "\<And>j. P j \<Longrightarrow> discovery_step x j (f j)"
  shows "job_rows x (db_discovery_jobs d) (db_discovery_jobs d') \<and>
    db_discovery_results d' = db_discovery_results d \<and> (discovery_ok d \<longrightarrow> discovery_ok d')"
proof -
  have d': "d' = d\<lparr>db_discovery_jobs := sql_update P f (db_discovery_jobs d)\<rparr>"
    and c: "\<And>j. j \<in> set (db_discovery_jobs d) \<Longrightarrow> P j \<Longrightarrow> check_discovery_job (f j)"
    using assms(1) by (auto simp: update_discovery_Some)
  have r: "job_rows x (db_discovery_jobs d) (db_discovery_jobs d')"
    using assms(2) by (auto simp: d' job_rows_def sql_update_def list_all2_map2 intro!: list.rel_refl_strong)
  have "set (map d_job_id (db_discovery_jobs d')) = set (map d_job_id (db_discovery_jobs d))"
    by (simp only: job_rows_keys [OF r])
  moreover have "check_discovery_job j" if "discovery_ok d" "j \<in> set (db_discovery_jobs d')" for j
    using that c by (auto simp: d' set_sql_update discovery_ok_def)
  ultimately have "discovery_ok d'" if "discovery_ok d"
    using that job_rows_keys [OF r] by (simp add: discovery_ok_def discovery_jobs_unique_def d')
  then show ?thesis using r d' by simp
qed

lemma upsert_result_ok:
  assumes "discovery_ok d" and "upsert_result r d = Some d'" and "dr_linked_enrollment_id r = None"
  shows "discovery_ok d' \<and> db_discovery_jobs d' = db_discovery_jobs d"
proof -
  let ?rows = "db_discovery_results d" and ?u = "sql_update (\<lambda>x. result_key x = result_key r) (merge_result r) (db_discovery_results d)"
  have m: "map dr_result_id ?u = map dr_result_id ?rows" "map result_key ?u = map result_key ?rows"
    "map dr_linked_enrollment_id ?u = map dr_linked_enrollment_id ?rows"
    by (rule map_sql_update; simp add: merge_result_def result_key_def)+
  have "check_discovery_result x \<and> dr_job_id x \<in> d_job_id ` set (db_discovery_jobs d)" if "x \<in> set ?u" for x
    using that assms(1) by (auto simp: set_sql_update discovery_ok_def merge_result_def check_discovery_result_def)
  then have "discovery_ok (d\<lparr>db_discovery_results := ?u\<rparr>)"
    using assms(1) m by (simp add: discovery_ok_def discovery_results_unique_def)
  then show ?thesis
    using assms by (auto simp: upsert_result_def Let_def discovery_ok_def discovery_results_unique_def split: if_splits)
qed

lemma delete_jobs_ok:
  assumes "discovery_ok d"
  shows "discovery_ok (delete_discovery_jobs P d)"
proof -
  have f: "distinct (filter Q (map g (filter R xs)))" if "distinct (filter Q (map g xs))" for Q g R and xs :: "discovery_result list"
    using that by (induction xs) auto
  have "discovery_jobs_unique (sql_delete P (db_discovery_jobs d))"
    "discovery_results_unique (sql_delete R (db_discovery_results d))" for R
    using assms by (simp_all add: discovery_ok_def discovery_jobs_unique_def discovery_results_unique_def
        sql_delete_def distinct_map_filter f)
  moreover have "dr_job_id r \<in> d_job_id ` set (sql_delete P (db_discovery_jobs d))"
    if "r \<in> set (db_discovery_results d)" "dr_job_id r \<notin> d_job_id ` {j \<in> set (db_discovery_jobs d). P j}" for r
    using that assms by (fastforce simp: discovery_ok_def sql_delete_def)
  ultimately show ?thesis
    using assms by (auto simp: delete_discovery_jobs_def discovery_ok_def Let_def) (auto simp: sql_delete_def)
qed

lemma done_with_Inr: "done_with r = Inr (u, d) \<longleftrightarrow> (\<exists>v. r = Inr (v, d))"
  by (cases r) (auto simp: done_with_def)

fun creates_job :: "discovery_op \<Rightarrow> bool" where
  "creates_job (DCreate _ _) = True"
| "creates_job _ = False"

fun deletes_job :: "discovery_op \<Rightarrow> bool" where
  "deletes_job (DCleanup _) = True"
| "deletes_job _ = False"

lemma recover_rows:
  assumes "recover now d = Inr (v, d')"
  shows "job_rows (DRecover now) (db_discovery_jobs d) (db_discovery_jobs d') \<and>
    db_discovery_results d' = db_discovery_results d \<and> (discovery_ok d \<longrightarrow> discovery_ok d')"
proof -
  obtain d1 d2 where u: "update_discovery_jobs cancelling (set_cancelled_job now) d = Some d1"
    "update_discovery_jobs (\<lambda>j. d_state j = DRunning \<and> \<not> d_cancel_requested j \<and> now < d_deadline_at j)
       (\<lambda>j. j\<lparr>d_state := DQueued, d_updated_at := now\<rparr>) d1 = Some d2"
    "update_discovery_jobs (\<lambda>j. overdue now j \<and> \<not> d_cancel_requested j) (set_timeout now) d2 = Some d'"
    using assms by (auto simp: recover_def Let_def split: option.splits)
  note r = update_discovery_rows [where x = "DRecover now", OF u(1)] update_discovery_rows [where x = "DRecover now", OF u(2)]
    update_discovery_rows [where x = "DRecover now", OF u(3)]
  have "job_rows (DRecover now) (db_discovery_jobs d) (db_discovery_jobs d1) \<and>
      db_discovery_results d1 = db_discovery_results d \<and> (discovery_ok d \<longrightarrow> discovery_ok d1)"
    by (rule r(1)) (rule discovery_step.recovered_cancel)
  moreover have "job_rows (DRecover now) (db_discovery_jobs d1) (db_discovery_jobs d2) \<and>
      db_discovery_results d2 = db_discovery_results d1 \<and> (discovery_ok d1 \<longrightarrow> discovery_ok d2)"
    by (rule r(2)) (auto intro: discovery_step.requeued)
  moreover have "job_rows (DRecover now) (db_discovery_jobs d2) (db_discovery_jobs d') \<and>
      db_discovery_results d' = db_discovery_results d2 \<and> (discovery_ok d2 \<longrightarrow> discovery_ok d')"
    by (rule r(3)) (auto intro: discovery_step.recovered_timeout)
  ultimately show ?thesis by (metis job_rows_trans)
qed

lemma record_rows:
  assumes "record_result u i t f e now d = Inr (v, d')" and "discovery_ok d"
  shows "job_rows (DRecord u i t f e now) (db_discovery_jobs d) (db_discovery_jobs d') \<and> discovery_ok d'"
proof (cases "find (running_job i) (db_discovery_jobs d)")
  case None
  then show ?thesis using assms by (auto simp: record_result_def job_rows_refl)
next
  case (Some j)
  then obtain d1 where d1: "upsert_result (observed_result u i t f e now) d = Some d1"
    and u: "update_discovery_jobs (running_job i)
      (\<lambda>j. j\<lparr>d_checked_targets := checked_count i d1, d_found_targets := found_count i d1, d_updated_at := now\<rparr>) d1 = Some d'"
    using assms(1) by (auto simp: record_result_def split: option.splits)
  have "discovery_ok d1 \<and> db_discovery_jobs d1 = db_discovery_jobs d"
    by (rule upsert_result_ok [OF assms(2) d1]) (simp add: observed_result_def)
  then show ?thesis
    using update_discovery_rows [OF u, of "DRecord u i t f e now"] by (auto intro: discovery_step.recorded)
qed

lemma run_discovery_rows:
  assumes "run_discovery x d = Inr (v, d')" and "discovery_ok d" and "\<not> creates_job x" and "\<not> deletes_job x"
  shows "job_rows x (db_discovery_jobs d) (db_discovery_jobs d') \<and> discovery_ok d'"
  using assms
  by (cases x)
    (auto simp: done_with_Inr expire_deadlines_def merge_dispatch_def claim_def request_cancel_def finish_def Let_def
      dest: update_discovery_rows recover_rows record_rows intro: discovery_step.intros
      split: option.splits if_splits)

lemma create_job_rows:
  assumes "create_job j m d = Inr (v, d')"
  shows "d' = d\<lparr>db_discovery_jobs := db_discovery_jobs d @ [j\<lparr>d_completed_at := None\<rparr>]\<rparr> \<and>
    check_discovery_job j \<and> discovery_jobs_unique (db_discovery_jobs d @ [j\<lparr>d_completed_at := None\<rparr>])"
  using assms by (auto simp: create_job_def insert_discovery_job_def check_discovery_job_def split: if_splits option.splits)

lemma create_job_ok:
  assumes "create_job j m d = Inr (v, d')" and "discovery_ok d"
  shows "discovery_ok d'"
  using create_job_rows [OF assms(1)] assms(2) by (auto simp: discovery_ok_def check_discovery_job_def)

interpretation discovery: txn_system run_discovery discovery_ok
proof
  fix d x v d'
  assume d: "discovery_ok d" and r: "run_discovery x d = Inr (v, d')"
  show "discovery_ok d'"
  proof (cases "creates_job x \<or> deletes_job x")
    case True
    then show ?thesis
      using r d by (cases x) (auto simp: done_with_Inr cleanup_def delete_jobs_ok dest: create_job_ok)
  next
    case False
    then show ?thesis using run_discovery_rows [OF r d] by blast
  qed
qed

section \<open>Counters\<close>

definition counters_true :: "manager_db \<Rightarrow> bool" where
  "counters_true d \<longleftrightarrow> (\<forall>j\<in>set (db_discovery_jobs d).
     d_checked_targets j = checked_count (d_job_id j) d \<and> d_found_targets j = found_count (d_job_id j) d)"

fun fresh_counters :: "discovery_op \<Rightarrow> bool" where
  "fresh_counters (DCreate j _) \<longleftrightarrow> d_checked_targets j = 0 \<and> d_found_targets j = 0"
| "fresh_counters _ \<longleftrightarrow> True"

lemma counts_frame [simp]:
  "checked_count i (d\<lparr>db_discovery_jobs := x\<rparr>) = checked_count i d"
  "found_count i (d\<lparr>db_discovery_jobs := x\<rparr>) = found_count i d"
  by (simp_all add: checked_count_def found_count_def)

lemma update_counters:
  assumes "update_discovery_jobs P f d = Some d'" and "counters_true d"
    and "\<And>j. d_job_id (f j) = d_job_id j \<and> d_checked_targets (f j) = d_checked_targets j \<and>
      d_found_targets (f j) = d_found_targets j"
  shows "counters_true d'"
  using assms by (auto simp: update_discovery_Some counters_true_def set_sql_update)

lemma upsert_counts:
  assumes "upsert_result r d = Some d'" and "i \<noteq> dr_job_id r"
  shows "checked_count i d' = checked_count i d \<and> found_count i d' = found_count i d"
proof -
  have "rowcount (\<lambda>x. dr_job_id x = i) (sql_update (\<lambda>x. result_key x = result_key r) (merge_result r) rows) =
      rowcount (\<lambda>x. dr_job_id x = i) rows \<and>
    rowcount (\<lambda>x. dr_job_id x = i \<and> dr_found x) (sql_update (\<lambda>x. result_key x = result_key r) (merge_result r) rows) =
      rowcount (\<lambda>x. dr_job_id x = i \<and> dr_found x) rows" for rows
    using assms(2) by (induction rows) (auto simp: merge_result_def result_key_def)
  then show ?thesis
    using assms by (auto simp: upsert_result_def Let_def checked_count_def found_count_def split: if_splits)
qed

lemma upsert_jobs: "upsert_result r d = Some d' \<Longrightarrow> db_discovery_jobs d' = db_discovery_jobs d"
  by (auto simp: upsert_result_def Let_def split: if_splits)

lemma record_counters:
  assumes "record_result u i t f e now d = Inr (v, d')" and "discovery_ok d" and "counters_true d"
  shows "counters_true d'"
proof (cases "find (running_job i) (db_discovery_jobs d)")
  case None
  then show ?thesis using assms by (auto simp: record_result_def)
next
  case (Some j)
  let ?r = "observed_result u i t f e now"
  obtain d1 where d1: "upsert_result ?r d = Some d1"
    and u: "update_discovery_jobs (running_job i)
      (\<lambda>j. j\<lparr>d_checked_targets := checked_count i d1, d_found_targets := found_count i d1, d_updated_at := now\<rparr>) d1 = Some d'"
    using assms(1) Some by (auto simp: record_result_def split: option.splits)
  have jobs: "db_discovery_jobs d1 = db_discovery_jobs d" using d1 by (rule upsert_jobs)
  have j: "j \<in> set (db_discovery_jobs d)" "running_job i j" using Some by (auto simp: find_Some_iff)
  have inj: "inj_on d_job_id (set (db_discovery_jobs d))"
    using assms(2) by (simp add: discovery_ok_def discovery_jobs_unique_def distinct_map)
  have run: "running_job i k" if "k \<in> set (db_discovery_jobs d)" "d_job_id k = i" for k
    using that j inj by (auto simp: running_job_def dest: inj_onD)
  have "d_checked_targets k = checked_count (d_job_id k) d1 \<and> d_found_targets k = found_count (d_job_id k) d1"
    if "k \<in> set (db_discovery_jobs d)" "d_job_id k \<noteq> i" for k
    using that assms(3) upsert_counts [OF d1, of "d_job_id k"] by (simp add: counters_true_def observed_result_def)
  then show ?thesis
    using u run by (auto simp: update_discovery_Some counters_true_def set_sql_update jobs running_job_def)
qed

lemma cleanup_counters:
  assumes "discovery_ok d" and "counters_true d"
  shows "counters_true (delete_discovery_jobs P d)"
proof -
  have inj: "inj_on d_job_id (set (db_discovery_jobs d))"
    using assms(1) by (simp add: discovery_ok_def discovery_jobs_unique_def distinct_map)
  have keep: "d_job_id j \<notin> d_job_id ` {k \<in> set (db_discovery_jobs d). P k}"
    if "j \<in> set (db_discovery_jobs d)" "\<not> P j" for j
    using that inj by (auto dest: inj_onD)
  have cnt: "rowcount Q (sql_delete G rows) = rowcount Q rows" if "\<And>r. Q r \<Longrightarrow> \<not> G r"
    for Q G and rows :: "discovery_result list"
    using that by (induction rows) (auto simp: sql_delete_def)
  have "checked_count i (delete_discovery_jobs P d) = checked_count i d \<and>
      found_count i (delete_discovery_jobs P d) = found_count i d"
    if "i \<notin> d_job_id ` {k \<in> set (db_discovery_jobs d). P k}" for i
    using that unfolding checked_count_def found_count_def delete_discovery_jobs_def Let_def
    by (intro conjI arg_cong [where f = int]) (simp, rule cnt, blast)+
  moreover have "set (db_discovery_jobs (delete_discovery_jobs P d)) = {j \<in> set (db_discovery_jobs d). \<not> P j}"
    by (auto simp: delete_discovery_jobs_def Let_def sql_delete_def)
  ultimately show ?thesis
    using assms(2) keep by (simp add: counters_true_def)
qed

lemma create_counters:
  assumes "create_job j m d = Inr (v, d')" and "discovery_ok d" and "counters_true d"
    and "d_checked_targets j = 0" and "d_found_targets j = 0"
  shows "counters_true d'"
proof -
  have d': "d' = d\<lparr>db_discovery_jobs := db_discovery_jobs d @ [j\<lparr>d_completed_at := None\<rparr>]\<rparr>"
    and n: "d_job_id j \<notin> d_job_id ` set (db_discovery_jobs d)"
    using create_job_rows [OF assms(1)] by (auto simp: discovery_jobs_unique_def)
  have "dr_job_id r \<noteq> d_job_id j" if "r \<in> set (db_discovery_results d)" for r
    using that n assms(2) by (metis discovery_ok_def)
  then have "checked_count (d_job_id j) d = 0 \<and> found_count (d_job_id j) d = 0"
    by (simp add: checked_count_def found_count_def rowcount_def filter_empty_conv)
  then show ?thesis using assms(3-5) by (auto simp: d' counters_true_def)
qed

lemma recover_counters:
  assumes "recover now d = Inr (v, d')" and "counters_true d"
  shows "counters_true d'"
proof -
  obtain d1 d2 where u: "update_discovery_jobs cancelling (set_cancelled_job now) d = Some d1"
    "update_discovery_jobs (\<lambda>j. d_state j = DRunning \<and> \<not> d_cancel_requested j \<and> now < d_deadline_at j)
       (\<lambda>j. j\<lparr>d_state := DQueued, d_updated_at := now\<rparr>) d1 = Some d2"
    "update_discovery_jobs (\<lambda>j. overdue now j \<and> \<not> d_cancel_requested j) (set_timeout now) d2 = Some d'"
    using assms(1) by (auto simp: recover_def Let_def split: option.splits)
  show ?thesis
    by (rule update_counters [OF u(3)], rule update_counters [OF u(2)], rule update_counters [OF u(1) assms(2)])
      (simp_all add: set_timeout_def set_cancelled_job_def)
qed

lemma run_discovery_counters:
  assumes "run_discovery x d = Inr (v, d')" and "discovery_ok d" and "counters_true d" and "fresh_counters x"
  shows "counters_true d'"
  using assms
  by (cases x)
    (auto simp: done_with_Inr expire_deadlines_def merge_dispatch_def claim_def request_cancel_def finish_def
      cleanup_def cleanup_counters set_timeout_def Let_def
      dest: update_counters recover_counters record_counters create_counters split: option.splits if_splits)

text \<open>
  The progress a discovery job reports is true in every history: \<open>checked_targets\<close> is
  the number of results stored for it and \<open>found_targets\<close> the number of those that found an
  agent, however workers, restarts, cancellations, timeouts and cleanups interleave, if jobs are
  created with counters at zero; and both stay within \<open>total_targets\<close>, at most 2048.
\<close>

theorem discovery_progress_is_true:
  assumes "discovery_ok d" and "counters_true d" and "\<forall>x\<in>set xs. fresh_counters x"
    and "get_job i (history run_discovery xs d) = Some j"
  shows "d_checked_targets j = int (length (list_results i (history run_discovery xs d))) \<and>
    d_found_targets j = int (length (filter dr_found (list_results i (history run_discovery xs d)))) \<and>
    d_found_targets j \<le> d_checked_targets j \<and> d_checked_targets j \<le> d_total_targets j \<and> d_total_targets j \<le> 2048"
proof -
  let ?d = "history run_discovery xs d"
  have ok: "discovery_ok ?d" by (rule discovery.history_inv [OF assms(1)])
  have "counters_true d \<longrightarrow> counters_true ?d"
    by (rule discovery.history_rel [OF assms(1)]) (use assms(3) run_discovery_counters in blast)+
  then have c: "counters_true ?d" using assms(2) by blast
  have j: "j \<in> set (db_discovery_jobs ?d)" "d_job_id j = i"
    using assms(4) by (auto simp: get_job_def find_Some_iff)
  have "length (filter dr_found (list_results i ?d)) = rowcount (\<lambda>r. dr_job_id r = i \<and> dr_found r) (db_discovery_results ?d)"
    by (simp add: list_results_def rowcount_def filter_sort conj_commute)
  moreover have "length (list_results i ?d) = rowcount (\<lambda>r. dr_job_id r = i) (db_discovery_results ?d)"
    by (simp add: list_results_def rowcount_def)
  ultimately show ?thesis
    using c j ok by (auto simp: counters_true_def checked_count_def found_count_def discovery_ok_def check_discovery_job_def)
qed

definition scan_job :: discovery_job where
  "scan_job = \<lparr>d_job_id = ''dj'', d_scope_id = ''lan'', d_state = DQueued, d_total_targets = 4, d_checked_targets = 0,
     d_found_targets = 0, d_cancel_requested = False, d_safe_error_code = None, d_start_audit_event_id = 7,
     d_deadline_at = 100, d_created_at = 1, d_updated_at = 1, d_completed_at = None,
     d_aggregate_dispatch_state = Not_Dispatched\<rparr>"

definition scan_target :: discovery_target where
  "scan_target = \<lparr>t_ip = ''10.0.0.7'', t_port = 8100, t_transport_profile_id = ''http'', t_scheme = ''http''\<rparr>"

definition scan_db :: manager_db where
  "scan_db = empty_db\<lparr>db_audit := [\<lparr>e_id = 7, e_agent_id = None, e_operation = ''discovery.start'',
     e_target = ''discovery:lan'', e_result = ''pending'', e_dispatch_state = ''not_dispatched'',
     e_failure_category = None\<rparr>]\<rparr>"

definition scan_calls :: "discovery_op list" where
  "scan_calls = [DCreate scan_job 3, DClaim ''dj'' 2,
     DRecord ''u1'' ''dj'' scan_target None (Some ''connect_failed'') 3,
     DRecord ''u2'' ''dj'' (scan_target\<lparr>t_ip := ''10.0.0.8''\<rparr>) (Some ''v1'') None 4,
     DRecord ''u3'' ''dj'' scan_target (Some ''v1'') None 5]"

lemmas scan_defs = scan_job_def scan_target_def scan_db_def scan_calls_def empty_db_def

lemma scan_db_ok: "discovery_ok scan_db" "counters_true scan_db"
  by (simp_all add: scan_defs discovery_ok_def counters_true_def discovery_jobs_unique_def discovery_results_unique_def)

lemmas scan_ops = done_with_def create_job_def insert_discovery_job_def claim_def record_result_def request_cancel_def
  finish_def recover_def update_discovery_jobs_def upsert_result_def observed_result_def merge_result_def
  check_discovery_job_def check_discovery_result_def discovery_jobs_unique_def result_key_def claimable_def
  running_job_def active_discovery_def finishable_def cancelling_def overdue_def set_cancelled_job_def set_timeout_def
  checked_count_def found_count_def get_job_def sql_update_def rowcount_def Let_def

definition scanned_db :: manager_db where
  "scanned_db = scan_db\<lparr>
     db_discovery_jobs := [scan_job\<lparr>d_state := DRunning, d_checked_targets := 2, d_found_targets := 2, d_updated_at := 5\<rparr>],
     db_discovery_results := [
       (observed_result ''u1'' ''dj'' scan_target (Some ''v1'') None 5)\<lparr>dr_first_seen_at := 3\<rparr>,
       observed_result ''u2'' ''dj'' (scan_target\<lparr>t_ip := ''10.0.0.8''\<rparr>) (Some ''v1'') None 4]\<rparr>"

lemma scan_runs: "history run_discovery scan_calls scan_db = scanned_db"
  by (simp add: scan_defs scanned_db_def scan_ops)

theorem discovery_progress_is_true_witness:
  "map_option (\<lambda>j. (d_checked_targets j, d_found_targets j)) (get_job ''dj'' (history run_discovery scan_calls scan_db))
     = Some (2, 2) \<and>
   length (list_results ''dj'' (history run_discovery scan_calls scan_db)) = 2"
proof -
  have g: "map_option (\<lambda>j. (d_checked_targets j, d_found_targets j))
      (get_job ''dj'' (history run_discovery scan_calls scan_db)) = Some (2, 2)"
    unfolding scan_runs by (simp add: scanned_db_def scan_defs get_job_def)
  then obtain j where j: "get_job ''dj'' (history run_discovery scan_calls scan_db) = Some j" "d_checked_targets j = 2"
    by auto
  have "\<forall>x\<in>set scan_calls. fresh_counters x" by (simp add: scan_defs)
  from discovery_progress_is_true [OF scan_db_ok this j(1)] j(2) g show ?thesis by simp
qed

section \<open>Cancellation\<close>

text \<open>A job whose cancellation has been requested, and everything that can still become of it.\<close>

definition stopping :: "discovery_job \<Rightarrow> bool" where
  "stopping j \<longleftrightarrow> d_cancel_requested j \<and>
     (d_state j \<in> {DQueued, DRunning, DCancelled} \<or>
      d_state j = DFailed \<and> d_safe_error_code j = Some ''job_timeout'')"

lemma step_stopping: "discovery_step x j j' \<Longrightarrow> stopping j \<Longrightarrow> stopping j'"
  by (erule discovery_stepE)
    (auto simp: stopping_def set_timeout_def set_cancelled_job_def finishable_def)

lemma steps_stopping: "(discovery_step x)\<^sup>*\<^sup>* j j' \<Longrightarrow> stopping j \<Longrightarrow> stopping j'"
  by (induction rule: rtranclp_induct) (auto dest: step_stopping)

definition all_stopping :: "string \<Rightarrow> manager_db \<Rightarrow> bool" where
  "all_stopping i d \<longleftrightarrow> (\<forall>j\<in>set (db_discovery_jobs d). d_job_id j = i \<longrightarrow> stopping j)"

fun creates_id :: "string \<Rightarrow> discovery_op \<Rightarrow> bool" where
  "creates_id i (DCreate j _) \<longleftrightarrow> d_job_id j = i"
| "creates_id i _ \<longleftrightarrow> False"

lemma rows_stopping:
  assumes "job_rows x (db_discovery_jobs d) (db_discovery_jobs d')" and "all_stopping i d"
  shows "all_stopping i d'"
proof -
  have "\<exists>j\<in>set (db_discovery_jobs d). (discovery_step x)\<^sup>*\<^sup>* j k" if "k \<in> set (db_discovery_jobs d')" for k
    using that assms(1) unfolding job_rows_def by (metis list_all2_conv_all_nth in_set_conv_nth)
  then show ?thesis
    using assms(2) unfolding all_stopping_def by (metis steps_keys steps_stopping)
qed

lemma run_discovery_stopping:
  assumes "run_discovery x d = Inr (v, d')" and "discovery_ok d" and "all_stopping i d" and "\<not> creates_id i x"
  shows "all_stopping i d'"
proof (cases "creates_job x \<or> deletes_job x")
  case True
  then show ?thesis
    using assms by (cases x) (auto simp: done_with_Inr cleanup_def delete_discovery_jobs_def sql_delete_def
        all_stopping_def Let_def dest!: create_job_rows)
next
  case False
  then show ?thesis using run_discovery_rows [OF assms(1,2)] assms(3) by (blast intro: rows_stopping)
qed

lemma request_cancel_stopping:
  assumes "request_cancel i now d = Inr (j, d')" and "discovery_ok d"
  shows "all_stopping i d' \<and> discovery_ok d'"
proof -
  have r: "run_discovery (DCancel i now) d = Inr ((), d')" using assms(1) by (auto simp: done_with_def)
  let ?P = "\<lambda>j. d_job_id j = i \<and> active_discovery j"
  have u: "d' = d\<lparr>db_discovery_jobs := sql_update ?P (\<lambda>j. j\<lparr>d_cancel_requested := True, d_updated_at := now\<rparr>) (db_discovery_jobs d)\<rparr>"
    and n: "rowcount ?P (db_discovery_jobs d) = 1"
    using assms(1) by (auto simp: request_cancel_def Let_def update_discovery_Some split: option.splits if_splits)
  have "filter ?P (db_discovery_jobs d) \<noteq> []" using n by (auto simp: rowcount_def)
  then obtain k where k: "k \<in> set (db_discovery_jobs d)" "?P k" unfolding filter_empty_conv by blast
  have "inj_on d_job_id (set (db_discovery_jobs d))"
    using assms(2) by (simp add: discovery_ok_def discovery_jobs_unique_def distinct_map)
  then have act: "active_discovery m" if "m \<in> set (db_discovery_jobs d)" "d_job_id m = i" for m
    using that k by (auto dest: inj_onD)
  have "stopping (m\<lparr>d_cancel_requested := True, d_updated_at := now\<rparr>)" if "active_discovery m" for m
    using that by (simp add: stopping_def active_discovery_def) blast
  then have "all_stopping i d'"
    using act by (auto simp: u all_stopping_def set_sql_update)
  then show ?thesis using discovery.run_inv [OF assms(2) r] by blast
qed

text \<open>
  A cancellation that was accepted is final: after \<open>request_cancel\<close> succeeded, and
  whatever workers, restarts, timeouts and cleanups do afterwards, the job is never reported
  completed and never loses its request; it can only wait, be cancelled, or fail with
  \<open>job_timeout\<close>, and no worker can claim it any more.
\<close>

theorem cancel_request_prevents_completion:
  assumes "discovery_ok d" and "request_cancel i now d = Inr (j, d1)" and "\<forall>x\<in>set xs. \<not> creates_id i x"
    and "get_job i (history run_discovery xs d1) = Some k"
  shows "d_cancel_requested k \<and>
    (d_state k \<in> {DQueued, DRunning, DCancelled} \<or>
     d_state k = DFailed \<and> d_safe_error_code k = Some ''job_timeout'') \<and>
    (\<exists>d2. claim i t (history run_discovery xs d1) = Inr (None, d2) \<and> d2 = history run_discovery xs d1)"
proof -
  let ?d = "history run_discovery xs d1"
  have 1: "all_stopping i d1" "discovery_ok d1" using request_cancel_stopping [OF assms(2,1)] by blast+
  have "all_stopping i d1 \<longrightarrow> all_stopping i ?d"
    by (rule discovery.history_rel [OF 1(2)]) (use assms(3) run_discovery_stopping in blast)+
  then have s: "all_stopping i ?d" using 1 by blast
  have no: "\<not> claimable i m" if "m \<in> set (db_discovery_jobs ?d)" for m
    using that s by (auto simp: all_stopping_def stopping_def claimable_def)
  then have "filter (claimable i) (db_discovery_jobs ?d) = []" by (simp add: filter_empty_conv)
  moreover have "sql_update (claimable i) f (db_discovery_jobs ?d) = db_discovery_jobs ?d" for f
    using no by (simp add: sql_update_def map_idI)
  moreover have "stopping k"
    using s assms(4) by (auto simp: all_stopping_def get_job_def find_Some_iff)
  ultimately show ?thesis
    using no by (simp add: claim_def update_discovery_jobs_def rowcount_def stopping_def)
qed

theorem cancel_request_prevents_completion_witness:
  "map_option d_state (get_job ''dj'' (history run_discovery [DFinish ''dj'' DCompleted 7 None, DRecover 8]
      (after scanned_db (request_cancel ''dj'' 6 scanned_db)))) = Some DCancelled"
proof -
  let ?xs = "[DFinish ''dj'' DCompleted 7 None, DRecover 8]"
  have ok: "discovery_ok scanned_db" using discovery.history_inv [OF scan_db_ok(1), of scan_calls] by (simp add: scan_runs)
  have "\<exists>j d1. request_cancel ''dj'' 6 scanned_db = Inr (j, d1)"
    by (simp add: scanned_db_def scan_defs scan_ops)
  then obtain j d1 where r: "request_cancel ''dj'' 6 scanned_db = Inr (j, d1)" by blast
  have e: "map_option d_state (get_job ''dj'' (history run_discovery ?xs
      (after scanned_db (request_cancel ''dj'' 6 scanned_db)))) = Some DCancelled"
    by (simp add: scanned_db_def scan_defs scan_ops)
  then obtain k where k: "get_job ''dj'' (history run_discovery ?xs d1) = Some k" by (auto simp: r)
  have n: "\<forall>x\<in>set ?xs. \<not> creates_id ''dj'' x" by simp
  from cancel_request_prevents_completion [OF ok r n k] e show ?thesis by simp
qed

end
