(* ===== verification/Manager_System.thy ===== *)
theory Manager_System
  imports Journal_Rotation Registry_Pages Agent_Status Removal_Saga Discovery_Properties
begin

text \<open>
  The Manager's database as one system: the enrollment journal, the registry, the status cache,
  the removal journal and the discovery repository write the same SQLite file, so a history of
  the Manager interleaves their transactions.  The theory shows that they keep each other's
  constraints, and that what one component settles no other component undoes.
\<close>

section \<open>The interleaved system\<close>

datatype manager_op =
    JournalCall journal_op
  | RegistryCall registry_op
  | StatusCall "agent_status_record list"
  | RemovalCall removal_op
  | DiscoveryCall discovery_op

definition as_store :: "registry_error + 'a \<times> manager_db \<Rightarrow> store_error + unit \<times> manager_db" where
  "as_store r = map_sum StoreError (\<lambda>(_, d). ((), d)) r"

fun run_manager :: "manager_op \<Rightarrow> unit store" where
  "run_manager (JournalCall x) d = as_store (run_journal x d)"
| "run_manager (RegistryCall x) d = as_store (run_registry x d)"
| "run_manager (StatusCall ss) d = as_store (update_many_if_target_revisions ss d)"
| "run_manager (RemovalCall x) d = as_store (run_removal x d)"
| "run_manager (DiscoveryCall x) d = run_discovery x d"

lemma as_store_Inr: "as_store r = Inr (u, d) \<longleftrightarrow> (\<exists>v. r = Inr (v, d))"
  by (cases r) (auto simp: as_store_def)

text \<open>The reference \<open>discovery_results.linked_enrollment_id\<close>, which crosses two components.\<close>

definition links_ok :: "manager_db \<Rightarrow> bool" where
  "links_ok d \<longleftrightarrow> (\<forall>r\<in>set (db_discovery_results d). \<forall>e\<in>set_option (dr_linked_enrollment_id r).
     e \<in> row_id ` set (db_jobs d))"

definition manager_ok :: "manager_db \<Rightarrow> bool" where
  "manager_ok d \<longleftrightarrow> db_ok d \<and> discovery_ok d \<and> links_ok d"

section \<open>Frames\<close>

definition same_discovery :: "manager_db \<Rightarrow> manager_db \<Rightarrow> bool" where
  "same_discovery d d' \<longleftrightarrow> db_discovery_jobs d' = db_discovery_jobs d \<and>
     db_discovery_results d' = db_discovery_results d"

definition keeps_jobs :: "manager_db \<Rightarrow> manager_db \<Rightarrow> bool" where
  "keeps_jobs d d' \<longleftrightarrow> row_id ` set (db_jobs d) \<subseteq> row_id ` set (db_jobs d')"

lemma same_discovery_refl [simp]: "same_discovery d d"
  by (simp add: same_discovery_def)

lemma same_discovery_trans: "same_discovery a b \<Longrightarrow> same_discovery b c \<Longrightarrow> same_discovery a c"
  by (simp add: same_discovery_def)

lemma statements_keep_discovery [discovery_frames]:
  "insert_job j d = Some d' \<Longrightarrow> same_discovery d d'"
  "update_jobs P f d = Some d' \<Longrightarrow> same_discovery d d'"
  "insert_agent a d = Some d' \<Longrightarrow> same_discovery d d'"
  "update_agents Q g d = Some d' \<Longrightarrow> same_discovery d d'"
  "delete_agents Q d = Some d' \<Longrightarrow> same_discovery d d'"
  "upsert_status s d = Some d' \<Longrightarrow> same_discovery d d'"
  "insert_status_or_ignore s d = Some d' \<Longrightarrow> same_discovery d d'"
  "insert_removal r d = Some d' \<Longrightarrow> same_discovery d d'"
  "update_removals R h d = Some d' \<Longrightarrow> same_discovery d d'"
  by (auto simp: same_discovery_def insert_job_def update_jobs_def insert_agent_def update_agents_def
      delete_agents_def upsert_status_def insert_status_or_ignore_def insert_removal_def update_removals_def Let_def
      split: if_splits)

lemma expire_due_discovery [discovery_frames]: "expire_due now d = Some d' \<Longrightarrow> same_discovery d d'"
  by (simp add: expire_due_def statements_keep_discovery)

lemma journal_rows_keep_discovery:
  assumes "run_journal x d = Inr (v, d')" and "\<not> is_creation x"
  shows "same_discovery d d'"
  using assms
  by (cases x)
    (auto simp: reply_Inr consume_rotation_def rearm_expired_local_def set_state_def replace_if_state_def
      claim_pending_auto_def recheck_auto_dispatch_def recheck_cli_submission_def prepare_recovery_def
      claim_recovery_def renew_recovery_claim_def release_recovery_claim_def fail_recovery_claim_def
      release_recovery_residual_def mark_recovery_claim_error_def finish_terminal_cleanup_def
      mark_terminal_cleanup_failed_def Let_def
      intro: same_discovery_trans dest!: statements_keep_discovery(2) split: sum.splits option.splits if_splits)

fun links_a_result :: "journal_op \<Rightarrow> bool" where
  "links_a_result (OCreateDiscovery _ _ _ _) = True"
| "links_a_result _ = False"

lemma journal_keeps_discovery:
  assumes "run_journal x d = Inr (v, d')" and "\<not> links_a_result x"
  shows "same_discovery d d'"
proof (cases "is_creation x")
  case True
  then show ?thesis
    using assms by (cases x)
      (auto simp: reply_Inr create_def dest: discovery_frames intro: same_discovery_trans elim!: create_with_capacity_update create_rotation_update
        split: sum.splits option.splits)
next
  case False
  then show ?thesis using assms(1) journal_rows_keep_discovery by blast
qed

lemma registry_keeps_discovery [component_frames]:
  assumes "run_registry x d = Inr (v, d')"
  shows "same_discovery d d'"
  using assms
  by (cases x)
    (auto simp: answer_Inr get_or_create_manager_id_def create_agent_def delete_agent_def same_discovery_def
      dest!: update_if_revision_update delete_if_update discovery_frames
      elim!: commit_update update_and_reset_update swap_rotation_update split: sum.splits option.splits if_splits)

lemma removal_keeps_discovery [component_frames]:
  assumes "run_removal x d = Inr (v, d')"
  shows "same_discovery d d'"
  using assms
  by (cases x)
    (auto simp: map_sum_Inr finalize_audit_if_pending_def finalize_orphaned_pending_audits_def same_discovery_def Let_def
      dest!: transition_update discovery_frames elim!: create_for_agent_update split: if_splits)

text \<open>What the registry writes into the journal's table.\<close>

definition registry_row :: "job_row \<Rightarrow> job_row \<Rightarrow> bool" where
  "registry_row r r' \<longleftrightarrow> r' = r \<or>
     j_state (row_job r) = ACTIVATED \<and> (\<exists>rc now. r' = set_job (set_consumed rc now) r) \<or>
     terminal (j_state (row_job r)) \<and> r' = detach r"

lemma update_registry_rows:
  assumes "update_jobs P f d = Some d'" and "\<And>r. P r \<Longrightarrow> registry_row r (f r)"
  shows "list_all2 registry_row (db_jobs d) (db_jobs d')"
  using assms(2) unfolding update_jobs_Some [OF assms(1)]
  by (auto simp: sql_update_def list_all2_map2 registry_row_def intro!: list.rel_refl_strong)

lemma statements_keep_jobs [job_frames]:
  "insert_agent a d = Some d' \<Longrightarrow> db_jobs d' = db_jobs d"
  "update_agents Q g d = Some d' \<Longrightarrow> db_jobs d' = db_jobs d"
  "delete_agents Q d = Some d' \<Longrightarrow> db_jobs d' = db_jobs d"
  "upsert_status s d = Some d' \<Longrightarrow> db_jobs d' = db_jobs d"
  "insert_status_or_ignore s d = Some d' \<Longrightarrow> db_jobs d' = db_jobs d"
  "insert_removal r d = Some d' \<Longrightarrow> db_jobs d' = db_jobs d"
  "update_removals R h d = Some d' \<Longrightarrow> db_jobs d' = db_jobs d"
  by (auto simp: insert_agent_def update_agents_def delete_agents_def upsert_status_def
      insert_status_or_ignore_def insert_removal_def update_removals_def Let_def split: if_splits)

lemma registry_rows:
  assumes "run_registry x d = Inr (v, d')"
  shows "list_all2 registry_row (db_jobs d) (db_jobs d')"
proof -
  have same: ?thesis if "db_jobs d' = db_jobs d"
    by (simp add: that registry_row_def list.rel_refl)
  show ?thesis
  proof (cases x)
    case (RCommit j a now rc)
    then obtain w where "commit_activated_enrollment j a now rc d = Inr (w, d')"
      using assms by (auto simp: answer_Inr)
    then show ?thesis
    proof (rule commit_update)
      fix d1 d2
      assume "(agent_get (a_agent_id a) d = None \<and> insert_agent a d = Some d1) \<or>
          (agent_get (a_agent_id a) d = Some a \<and> d1 = d)"
        and "insert_status_or_ignore (fresh_status (a_agent_id a) (a_revision a) ''unknown'' now) d1 = Some d2"
        and u: "update_jobs (activated_claim j) (set_job (set_consumed rc now)) d2 = Some d'"
      then have "db_jobs d2 = db_jobs d" by (auto dest!: job_frames)
      moreover have "list_all2 registry_row (db_jobs d2) (db_jobs d')"
        by (rule update_registry_rows [OF u]) (auto simp: registry_row_def activated_claim_def)
      ultimately show ?thesis by simp
    qed
  next
    case (RDeleteIf i n ref oe orm)
    then obtain w where w: "delete_if_revision_and_credential i n ref oe orm d = Inr (w, d')"
      using assms by (auto simp: answer_Inr)
    have "list_all2 registry_row (db_jobs d) (db_jobs d1)"
      if "update_jobs (detachable i) detach d = Some d1" for d1
      by (rule update_registry_rows [OF that]) (simp add: registry_row_def detachable_def)
    then show ?thesis
      using delete_if_update [OF w] same by (auto dest: job_frames split: if_splits)
  qed (use assms same in \<open>auto simp: answer_Inr get_or_create_manager_id_def create_agent_def delete_agent_def
      dest!: update_if_revision_update job_frames
      elim!: update_and_reset_update swap_rotation_update split: sum.splits option.splits if_splits\<close>)
qed

lemma removal_keeps_jobs: "run_removal x d = Inr (v, d') \<Longrightarrow> db_jobs d' = db_jobs d"
  by (cases x)
    (auto simp: map_sum_Inr finalize_audit_if_pending_def finalize_orphaned_pending_audits_def Let_def
      dest!: transition_update job_frames elim!: create_for_agent_update split: if_splits)

definition only_discovery :: "manager_db \<Rightarrow> manager_db \<Rightarrow> bool" where
  "only_discovery d d' \<longleftrightarrow>
     d' = d\<lparr>db_discovery_jobs := db_discovery_jobs d', db_discovery_results := db_discovery_results d'\<rparr>"

lemma only_discovery_ok:
  assumes "only_discovery d d'"
  shows "db_ok d' = db_ok d" "db_jobs d' = db_jobs d"
proof -
  have d': "d' = d\<lparr>db_discovery_jobs := db_discovery_jobs d', db_discovery_results := db_discovery_results d'\<rparr>"
    using assms by (simp add: only_discovery_def)
  show "db_ok d' = db_ok d" by (subst d') simp
  show "db_jobs d' = db_jobs d" by (subst d') simp
qed

lemma discovery_statements:
  "insert_discovery_job j d = Some d' \<Longrightarrow> only_discovery d d'"
  "update_discovery_jobs P f d = Some d' \<Longrightarrow> only_discovery d d'"
  "upsert_result r d = Some d' \<Longrightarrow> only_discovery d d'"
  "only_discovery d (delete_discovery_jobs P d)"
  "only_discovery d d"
  by (auto simp: only_discovery_def insert_discovery_job_def update_discovery_jobs_def upsert_result_def
      delete_discovery_jobs_def Let_def split: if_splits)

lemma only_discovery_trans: "only_discovery a b \<Longrightarrow> only_discovery b c \<Longrightarrow> only_discovery a c"
  by (cases a; cases b; cases c) (simp add: only_discovery_def)

lemma discovery_keeps_the_rest:
  assumes "run_discovery x d = Inr (v, d')"
  shows "only_discovery d d'"
  using assms
  by (cases x)
    (auto simp: done_with_Inr expire_deadlines_def create_job_def merge_dispatch_def recover_def cleanup_def claim_def
      request_cancel_def record_result_def finish_def Let_def discovery_statements
      dest!: discovery_statements(1-3) intro: only_discovery_trans split: option.splits if_splits)

lemma status_batch_frame:
  assumes "db_ok d" and "update_many_if_target_revisions ss d = Inr (v, d')"
  shows "db_ok d' \<and> db_jobs d' = db_jobs d \<and> same_discovery d d'"
proof -
  have "db_ok b \<and> db_jobs b = db_jobs a \<and> same_discovery a b" if "upsert_all xs a = Some b" "db_ok a" for xs a b
    using that
  proof (induction xs arbitrary: a)
    case (Cons s xs)
    then obtain c where c: "upsert_status s a = Some c" "upsert_all xs c = Some b" by (auto simp: bind_eq_Some_conv)
    have "db_ok c" by (rule upsert_status_ok [OF Cons.prems(2) c(1)])
    from Cons.IH [OF c(2) this] statements_keep_jobs(4) [OF c(1)] statements_keep_discovery(6) [OF c(1)]
    show ?case by (simp add: same_discovery_def)
  qed simp
  then show ?thesis
    using assms by (auto simp: update_many_if_target_revisions_def split: option.splits if_splits)
qed

lemma registry_row_id: "registry_row r r' \<Longrightarrow> row_id r' = row_id r"
  by (auto simp: registry_row_def set_consumed_def clear_claims_def)

lemma rows_keep_ids:
  assumes "list_all2 R xs ys" and "\<And>x y. R x y \<Longrightarrow> row_id y = row_id x"
  shows "row_id ` set ys = row_id ` set xs"
  using assms by (induction rule: list_all2_induct) auto

lemma journal_keeps_jobs:
  assumes "db_ok d" and "run_journal x d = Inr (v, d')"
  shows "keeps_jobs d d'"
proof -
  obtain olds news where "db_jobs d' = olds @ news" "list_all2 (row_advance x) (db_jobs d) olds"
    using run_journal_refines [OF assms] by (auto simp: jobs_advance_def)
  then show ?thesis
    using rows_keep_ids [of "row_advance x" "db_jobs d" olds]
    by (auto simp: keeps_jobs_def row_advance_def dest: journal_steps_id)
qed

lemma run_manager_db_ok:
  assumes "db_ok d" and "run_manager x d = Inr (v, d')"
  shows "db_ok d' \<and> keeps_jobs d d'"
proof (cases x)
  case (JournalCall y)
  then show ?thesis using assms journal_keeps_jobs by (auto simp: as_store_Inr dest: journal.run_inv)
next
  case (RegistryCall y)
  then show ?thesis
    using assms rows_keep_ids [OF registry_rows registry_row_id]
    by (auto simp: as_store_Inr keeps_jobs_def dest: registry.run_inv)
next
  case (StatusCall ss)
  then obtain w where "update_many_if_target_revisions ss d = Inr (w, d')" using assms(2) by (auto simp: as_store_Inr)
  then show ?thesis using status_batch_frame [OF assms(1)] by (simp add: keeps_jobs_def)
next
  case (RemovalCall y)
  then obtain w where "run_removal y d = Inr (w, d')" using assms(2) by (auto simp: as_store_Inr)
  then show ?thesis using removal_keeps_jobs removals.run_inv [OF assms(1)] by (simp add: keeps_jobs_def)
next
  case (DiscoveryCall y)
  then have "only_discovery d d'" using assms(2) discovery_keeps_the_rest by simp
  then show ?thesis using only_discovery_ok assms(1) by (simp add: keeps_jobs_def)
qed

section \<open>Links between discovery results and enrollments\<close>

definition link_of :: "discovery_result \<Rightarrow> string \<times> string option" where
  "link_of r = (dr_result_id r, dr_linked_enrollment_id r)"

lemma discovery_jobs_statement_results:
  "insert_discovery_job j d = Some d' \<Longrightarrow> db_discovery_results d' = db_discovery_results d"
  "update_discovery_jobs P f d = Some d' \<Longrightarrow> db_discovery_results d' = db_discovery_results d"
  by (auto simp: insert_discovery_job_def update_discovery_jobs_def split: if_splits)

lemma upsert_links:
  assumes "upsert_result r d = Some d'" and "dr_linked_enrollment_id r = None"
  shows "\<exists>news. map link_of (db_discovery_results d') = map link_of (db_discovery_results d) @ news \<and>
    (\<forall>p\<in>set news. snd p = None)"
proof -
  have "map link_of (sql_update P (merge_result r) rows) = map link_of rows" for P rows
    by (rule map_sql_update) (simp add: merge_result_def link_of_def)
  then show ?thesis
    using assms by (auto simp: upsert_result_def Let_def link_of_def split: if_splits)
qed

lemma discovery_links:
  assumes "run_discovery x d = Inr (v, d')" and "\<not> deletes_job x"
  shows "\<exists>news. map link_of (db_discovery_results d') = map link_of (db_discovery_results d) @ news \<and>
    (\<forall>p\<in>set news. snd p = None)"
proof -
  have same: ?thesis if "db_discovery_results d' = db_discovery_results d" using that by simp
  show ?thesis
  proof (cases x)
    case (DRecord u i t f e now)
    show ?thesis
    proof (cases "d' = d")
      case False
      then obtain d1 where "upsert_result (observed_result u i t f e now) d = Some d1"
        and "db_discovery_results d' = db_discovery_results d1"
        using assms(1) DRecord
        by (auto simp: done_with_Inr record_result_def dest: discovery_jobs_statement_results(2)
            split: option.splits if_splits)
      then show ?thesis using upsert_links [of "observed_result u i t f e now" d d1] by (simp add: observed_result_def)
    qed simp
  qed (use assms same in \<open>auto simp: done_with_Inr expire_deadlines_def create_job_def merge_dispatch_def recover_def
      claim_def request_cancel_def finish_def Let_def dest!: discovery_jobs_statement_results
      split: option.splits if_splits\<close>)
qed

lemma discovery_keeps_links:
  assumes "run_discovery x d = Inr (v, d')" and "r' \<in> set (db_discovery_results d')"
    and "dr_linked_enrollment_id r' = Some e"
  shows "\<exists>r\<in>set (db_discovery_results d). dr_linked_enrollment_id r = Some e"
proof (cases "deletes_job x")
  case True
  then show ?thesis
    using assms by (cases x) (auto simp: done_with_Inr cleanup_def delete_discovery_jobs_def sql_delete_def Let_def)
next
  case False
  then obtain news where n: "map link_of (db_discovery_results d') = map link_of (db_discovery_results d) @ news"
    "\<forall>p\<in>set news. snd p = None" using discovery_links [OF assms(1)] by blast
  have "link_of r' \<in> set (map link_of (db_discovery_results d'))" using assms(2) by simp
  then have "link_of r' \<in> set (map link_of (db_discovery_results d))"
    using assms(3) n(2) unfolding n(1) by (auto simp: link_of_def)
  then show ?thesis using assms(3) by (auto simp: link_of_def)
qed

lemma link_distinct:
  assumes "distinct (map dr_result_id rows)" and "distinct (filter (\<lambda>x. x \<noteq> None) (map dr_linked_enrollment_id rows))"
    and "\<forall>r\<in>set rows. dr_linked_enrollment_id r \<noteq> Some e"
  shows "distinct (filter (\<lambda>x. x \<noteq> None) (map dr_linked_enrollment_id
    (sql_update (linkable res) (\<lambda>r. r\<lparr>dr_linked_enrollment_id := Some e\<rparr>) rows)))"
  using assms
proof (induction rows)
  case (Cons r rows)
  let ?u = "sql_update (linkable res) (\<lambda>r. r\<lparr>dr_linked_enrollment_id := Some e\<rparr>)"
  show ?case
  proof (cases "linkable res r")
    case True
    then have "\<not> linkable res x" if "x \<in> set rows" for x
      using that Cons.prems(1) by (auto simp: linkable_def image_iff)
    then have "?u rows = rows" by (simp add: sql_update_def map_idI)
    then show ?thesis using Cons.prems True by (auto split: if_splits)
  next
    case False
    have sub: "dr_linked_enrollment_id ` set (?u rows) \<subseteq> insert (Some e) (dr_linked_enrollment_id ` set rows)"
      by (auto simp: set_sql_update)
    have "dr_linked_enrollment_id r \<notin> dr_linked_enrollment_id ` set (?u rows)" if "dr_linked_enrollment_id r \<noteq> None"
    proof
      assume "dr_linked_enrollment_id r \<in> dr_linked_enrollment_id ` set (?u rows)"
      then have "dr_linked_enrollment_id r \<in> insert (Some e) (dr_linked_enrollment_id ` set rows)"
        using sub by (rule rev_subsetD)
      then show False using Cons.prems(2,3) that by auto
    qed
    moreover have "distinct (filter (\<lambda>x. x \<noteq> None) (map dr_linked_enrollment_id (?u rows)))"
      using Cons.prems by (intro Cons.IH) (auto split: if_splits)
    ultimately show ?thesis using False by simp
  qed
qed simp

lemma link_result_ok:
  assumes "link_result e res d = Some (n, d')" and "discovery_ok d"
  shows "discovery_ok d'"
proof -
  let ?f = "\<lambda>r :: discovery_result. r\<lparr>dr_linked_enrollment_id := Some e\<rparr>" and ?rows = "db_discovery_results d"
  have d': "d' = d\<lparr>db_discovery_results := sql_update (linkable res) ?f ?rows\<rparr>"
    using assms(1) by (auto simp: link_result_def Let_def split: if_splits)
  have m: "map dr_result_id (sql_update (linkable res) ?f ?rows) = map dr_result_id ?rows"
    "map result_key (sql_update (linkable res) ?f ?rows) = map result_key ?rows"
    by (rule map_sql_update; simp add: result_key_def)+
  have l: "distinct (filter (\<lambda>x. x \<noteq> None) (map dr_linked_enrollment_id (sql_update (linkable res) ?f ?rows)))"
  proof (cases "\<exists>r\<in>set ?rows. linkable res r")
    case True
    then show ?thesis
      using assms by (intro link_distinct) (auto simp: link_result_def Let_def discovery_ok_def
          discovery_results_unique_def split: if_splits)
  next
    case False
    then have "sql_update (linkable res) ?f ?rows = ?rows" by (auto simp: sql_update_def intro: map_idI)
    then show ?thesis using assms(2) by (simp add: discovery_ok_def discovery_results_unique_def)
  qed
  have "check_discovery_result x \<and> dr_job_id x \<in> d_job_id ` set (db_discovery_jobs d)"
    if "x \<in> set (sql_update (linkable res) ?f ?rows)" for x
    using that assms(2) by (auto simp: set_sql_update discovery_ok_def check_discovery_result_def)
  then show ?thesis
    using assms(2) m l by (simp add: d' discovery_ok_def discovery_results_unique_def)
qed

lemma same_discovery_ok:
  assumes "same_discovery d d'" and "keeps_jobs d d'"
  shows "(discovery_ok d \<longrightarrow> discovery_ok d') \<and> (links_ok d \<longrightarrow> links_ok d')"
  using assms by (auto simp: same_discovery_def keeps_jobs_def discovery_ok_def links_ok_def)

lemma linking_ok:
  assumes "run_journal (OCreateDiscovery j now m ret) d = Inr (v, d')" and "manager_ok d"
  shows "discovery_ok d' \<and> links_ok d'"
proof -
  obtain w where "create_discovery_with_capacity j now m ret d = Inr (w, d')"
    using assms(1) by (auto simp: reply_Inr)
  then obtain d1 d2 res where d1: "expire_due now d = Some d1" and d2: "insert_job j d1 = Some d2"
    and l: "link_result (j_enrollment_id j) res d2 = Some (1, d')" by (rule create_discovery_update)
  have s: "same_discovery d d2"
    using expire_due_discovery [OF d1] statements_keep_discovery(1) [OF d2] by (rule same_discovery_trans)
  then have "discovery_ok d2" using assms(2) by (simp add: manager_ok_def discovery_ok_def same_discovery_def)
  then have "discovery_ok d'" by (rule link_result_ok [OF l])
  moreover have "links_ok d'"
  proof -
    have jobs: "db_jobs d' = db_jobs d2" using link_result_jobs [OF l] by simp
    have r: "db_discovery_results d' = sql_update (linkable res)
        (\<lambda>r. r\<lparr>dr_linked_enrollment_id := Some (j_enrollment_id j)\<rparr>) (db_discovery_results d)"
      using l s by (auto simp: link_result_def Let_def same_discovery_def split: if_splits)
    have new: "j_enrollment_id j \<in> row_id ` set (db_jobs d')"
      using d2 by (auto simp: jobs insert_job_def split: if_splits)
    have "row_id ` set (db_jobs d) \<subseteq> row_id ` set (db_jobs d')"
      using journal_keeps_jobs [OF _ assms(1)] assms(2) by (auto simp: manager_ok_def keeps_jobs_def)
    moreover have "dr_linked_enrollment_id x = Some (j_enrollment_id j) \<or> x \<in> set (db_discovery_results d)"
      if "x \<in> set (db_discovery_results d')" for x
      using that by (auto simp: r set_sql_update)
    moreover have "links_ok d" using assms(2) by (simp add: manager_ok_def)
    ultimately show ?thesis
      using new unfolding links_ok_def by (metis option.set_sel option.simps(14) elem_set option.inject subsetD)
  qed
  ultimately show ?thesis by blast
qed

lemma journal_spares_links:
  assumes "run_journal x d = Inr (v, d')" and "r \<in> set (db_discovery_results d)"
    and "dr_linked_enrollment_id r = Some e"
  shows "link_of r \<in> link_of ` set (db_discovery_results d')"
proof (cases "links_a_result x")
  case True
  then obtain c now m ret where x: "x = OCreateDiscovery c now m ret" by (cases x) auto
  obtain u where "create_discovery_with_capacity c now m ret d = Inr (u, d')"
    using assms(1) x by (auto simp: reply_Inr)
  then obtain d1 d2 res where d1: "expire_due now d = Some d1" and d2: "insert_job c d1 = Some d2"
    and l: "link_result (j_enrollment_id c) res d2 = Some (1, d')" by (rule create_discovery_update)
  have "same_discovery d d2"
    using expire_due_discovery [OF d1] statements_keep_discovery(1) [OF d2] by (rule same_discovery_trans)
  then have "db_discovery_results d' = sql_update (linkable res)
      (\<lambda>r. r\<lparr>dr_linked_enrollment_id := Some (j_enrollment_id c)\<rparr>) (db_discovery_results d)"
    using l by (auto simp: link_result_def Let_def same_discovery_def split: if_splits)
  moreover have "\<not> linkable res r" using assms(3) by (simp add: linkable_def)
  ultimately show ?thesis using assms(2) by (auto simp: set_sql_update)
next
  case False
  then show ?thesis using journal_keeps_discovery [OF assms(1)] assms(2) by (simp add: same_discovery_def)
qed

lemma discovery_spares_links:
  assumes "run_discovery x d = Inr (v, d')" and "db_ok d" and "r \<in> set (db_discovery_results d)"
    and "dr_linked_enrollment_id r = Some e" and "journal_get e d = Some j" and "\<not> terminal (j_state j)"
  shows "link_of r \<in> link_of ` set (db_discovery_results d')"
proof (cases "deletes_job x")
  case True
  then obtain t where x: "x = DCleanup t" by (cases x) auto
  obtain row where "row \<in> set (db_jobs d)" "row_id row = e" "row_job row = j"
    using assms(2,5) by (auto simp: journal_get_iff)
  then have "\<not> cleanable t d k" if "d_job_id k = dr_job_id r" for k
    using that assms(3,4,6) by (auto simp: cleanable_def)
  then have "r \<in> set (db_discovery_results d')"
    using assms(1,3) x by (auto simp: done_with_Inr cleanup_def delete_discovery_jobs_def sql_delete_def Let_def)
  then show ?thesis by (rule imageI)
next
  case False
  then obtain news where n: "map link_of (db_discovery_results d') = map link_of (db_discovery_results d) @ news"
    using discovery_links [OF assms(1)] by blast
  have "link_of r \<in> set (map link_of (db_discovery_results d'))" unfolding n using assms(3) by simp
  then show ?thesis by simp
qed

lemma run_manager_ok:
  assumes "manager_ok d" and "run_manager x d = Inr (v, d')"
  shows "manager_ok d'"
proof -
  have db: "db_ok d" "discovery_ok d" "links_ok d" using assms(1) by (auto simp: manager_ok_def)
  have k: "db_ok d'" "keeps_jobs d d'" using run_manager_db_ok [OF db(1) assms(2)] by auto
  have frame: "discovery_ok d' \<and> links_ok d'" if "same_discovery d d'"
    using same_discovery_ok [OF that k(2)] db by blast
  have "discovery_ok d' \<and> links_ok d'"
  proof (cases x)
    case (JournalCall y)
    then obtain w where w: "run_journal y d = Inr (w, d')" using assms(2) by (auto simp: as_store_Inr)
    show ?thesis
    proof (cases "links_a_result y")
      case True
      then show ?thesis using w linking_ok [OF _ assms(1)] by (cases y) auto
    qed (use w journal_keeps_discovery frame in blast)
  next
    case (DiscoveryCall y)
    then have r: "run_discovery y d = Inr ((), d')" using assms(2) by simp
    show ?thesis
      using discovery.run_inv [OF db(2) r] discovery_keeps_links [OF r] db(3) k(2)
      by (fastforce simp: links_ok_def keeps_jobs_def)
  qed (use assms(2) frame db(1) in \<open>auto simp: as_store_Inr dest: component_frames status_batch_frame\<close>)
  then show ?thesis using k by (simp add: manager_ok_def)
qed

interpretation manager: txn_system run_manager manager_ok
  by unfold_locales (rule run_manager_ok)

section \<open>Consumed enrollments and sample states\<close>

lemma fleet_manager_ok: "manager_ok fleet_db"
  using fleet_db_ok by (simp add: manager_ok_def links_ok_def discovery_ok_def discovery_jobs_unique_def
      discovery_results_unique_def with_jobs_def empty_db_def)

definition closed_with :: "enrollment_job \<Rightarrow> enrollment_job \<Rightarrow> bool" where
  "closed_with j j' \<longleftrightarrow> (\<exists>b \<in> {j_replace_agent_id j, None}. spent (j\<lparr>j_replace_agent_id := b\<rparr>) j')"

lemma replace_last:
  "j\<lparr>j_last_error_code := c, j_updated_at := t, j_replace_agent_id := b\<rparr> =
   j\<lparr>j_replace_agent_id := b, j_last_error_code := c, j_updated_at := t\<rparr>" for j :: enrollment_job
  by (rule enrollment_job.equality) simp_all

lemma closed_detach:
  assumes "closed_with j k"
  shows "closed_with j (k\<lparr>j_replace_agent_id := None\<rparr>)"
proof -
  obtain b where "k\<lparr>j_last_error_code := j_last_error_code j, j_updated_at := j_updated_at j\<rparr> = j\<lparr>j_replace_agent_id := b\<rparr>"
    using assms unfolding closed_with_def spent_def by (elim bexE conjE) (rule that, simp)
  from arg_cong [OF this, of "\<lambda>x. x\<lparr>j_replace_agent_id := None\<rparr>"]
  have "k\<lparr>j_replace_agent_id := None, j_last_error_code := j_last_error_code j, j_updated_at := j_updated_at j\<rparr> =
      j\<lparr>j_replace_agent_id := None\<rparr>" by (simp add: replace_last)
  moreover have "j_state k = CONSUMED \<and> j_recovery_owner k = None \<and> j_recovery_lease_until k = None"
    using assms by (auto simp: closed_with_def spent_def)
  ultimately show ?thesis
    unfolding closed_with_def by (intro bexI [of _ None]) (simp_all add: spent_def)
qed

lemma registry_job_row:
  assumes "db_ok d" and "run_registry x d = Inr (v, d')" and "journal_get i d = Some k"
  obtains r r' where "registry_row r r'" and "row_job r = k" and "journal_get i d' = Some (row_job r')"
proof -
  obtain r where r: "r \<in> set (db_jobs d)" "row_id r = i" "row_job r = k"
    using assms(1,3) by (auto simp: journal_get_iff)
  obtain r' where r': "r' \<in> set (db_jobs d')" "registry_row r r'"
    using registry_rows [OF assms(2)] r(1) by (metis in_set_conv_nth list_all2_conv_all_nth)
  then have "journal_get i d' = Some (row_job r')"
    using r(2) registry_row_id by (auto simp: journal_get_iff [OF registry.run_inv [OF assms(1,2)]])
  then show thesis using that r' r by blast
qed

text \<open>
  What a stored enrollment keeps: a predicate that the journal's steps and the registry's writes
  preserve holds of it after any call, and any history, of the Manager.
\<close>

lemma run_manager_job_inv:
  assumes "db_ok d" and "run_manager x d = Inr (v, d')" and "journal_get i d = Some k" and "P k"
    and "\<And>y a b. x = JournalCall y \<Longrightarrow> journal_step y a b \<Longrightarrow> j_enrollment_id a = i \<Longrightarrow> P a \<Longrightarrow> P b"
    and "\<And>r r'. registry_row r r' \<Longrightarrow> P (row_job r) \<Longrightarrow> P (row_job r')"
  shows "\<exists>k'. journal_get i d' = Some k' \<and> P k'"
proof -
  have same: ?thesis if "db_jobs d' = db_jobs d"
  proof -
    have "journal_get i d' = journal_get i d" by (simp add: journal_get_def that)
    then show ?thesis using assms(3,4) by simp
  qed
  show ?thesis
  proof (cases x)
    case (JournalCall y)
    then obtain u where u: "run_journal y d = Inr (u, d')" using assms(2) by (auto simp: as_store_Inr)
    have adv: "jobs_advance y d d'" "db_ok d'" using run_journal_refines [OF assms(1) u] by auto
    obtain k' where k': "journal_get i d' = Some k'" "(journal_step y)\<^sup>*\<^sup>* k k'"
      using jobs_advance_get [OF assms(1) adv(2,1) assms(3)] .
    have "j_enrollment_id k' = i \<and> P k'"
      using k'(2) journal_get_id [OF assms(3)] assms(4)
    proof (induction rule: rtranclp_induct)
      case (step b c)
      then show ?case using assms(5) [OF JournalCall, of b c] journal_step_id [of y b c] by simp
    qed simp
    then show ?thesis using k'(1) by blast
  next
    case (RegistryCall y)
    then obtain u where u: "run_registry y d = Inr (u, d')" using assms(2) by (auto simp: as_store_Inr)
    obtain r r' where r: "registry_row r r'" "row_job r = k" "journal_get i d' = Some (row_job r')"
      using registry_job_row [OF assms(1) u assms(3)] .
    then show ?thesis using assms(6) [OF r(1)] assms(4) by simp
  next
    case (DiscoveryCall y)
    then show ?thesis using assms(2) same only_discovery_ok(2) [OF discovery_keeps_the_rest] by auto
  qed (use assms(1,2) same in \<open>auto simp: as_store_Inr dest: removal_keeps_jobs status_batch_frame\<close>)
qed

lemma manager_history_job_inv:
  assumes "manager_ok d" and "journal_get i d = Some k" and "P k"
    and "\<And>y a b. JournalCall y \<in> set xs \<Longrightarrow> journal_step y a b \<Longrightarrow> j_enrollment_id a = i \<Longrightarrow> P a \<Longrightarrow> P b"
    and "\<And>r r'. registry_row r r' \<Longrightarrow> P (row_job r) \<Longrightarrow> P (row_job r')"
  shows "\<exists>k'. journal_get i (history run_manager xs d) = Some k' \<and> P k'"
proof -
  let ?R = "\<lambda>a b. \<forall>k. journal_get i a = Some k \<and> P k \<longrightarrow> (\<exists>k'. journal_get i b = Some k' \<and> P k')"
  have "?R d (history run_manager xs d)"
  proof (rule manager.history_rel [OF assms(1)])
    fix d x v d'
    assume x: "x \<in> set xs" and d: "manager_ok d" and r: "run_manager x d = Inr (v, d')"
    have ok: "db_ok d" using d by (simp add: manager_ok_def)
    show "?R d d'"
    proof (intro allI impI, elim conjE)
      fix k
      assume k: "journal_get i d = Some k" "P k"
      show "\<exists>k'. journal_get i d' = Some k' \<and> P k'"
        by (rule run_manager_job_inv [where P = P, OF ok r k]) (use assms(4,5) x in blast)+
    qed
  qed blast+
  then show ?thesis using assms(2,3) by blast
qed

lemma closed_journal_step: "journal_step x a b \<Longrightarrow> closed_with j a \<Longrightarrow> closed_with j b"
  unfolding closed_with_def by (blast dest: spent_step)

lemma closed_registry_row:
  assumes "registry_row r r'" and "closed_with j (row_job r)"
  shows "closed_with j (row_job r')"
proof -
  have "j_state (row_job r) = CONSUMED" using assms(2) by (auto simp: closed_with_def spent_def)
  then show ?thesis using assms by (auto simp: registry_row_def detach_def closed_detach)
qed

definition linked_db :: manager_db where
  "linked_db = fleet_db\<lparr>db_audit := [\<lparr>e_id = 1, e_agent_id = None, e_operation = ''discovery.start'',
       e_target = ''discovery:lab'', e_result = ''success'', e_dispatch_state = ''dispatched'', e_failure_category = None\<rparr>],
     db_discovery_jobs := db_discovery_jobs discovery_db,
     db_discovery_results := map (\<lambda>r. r\<lparr>dr_linked_enrollment_id := Some ''e1''\<rparr>) (db_discovery_results discovery_db)\<rparr>"

lemma linked_db_ok: "manager_ok linked_db"
  unfolding manager_ok_def
proof (intro conjI)
  show "db_ok linked_db" using fleet_db_ok by (simp add: linked_db_def)
  show "discovery_ok linked_db"
    by (simp add: linked_db_def discovery_db_def discovery_ok_def discovery_jobs_unique_def discovery_results_unique_def
        check_discovery_job_def check_discovery_result_def)
  show "links_ok linked_db"
    by (simp add: links_ok_def linked_db_def discovery_db_def with_jobs_def pending_job_def)
qed


end
