(* ===== verification/Manager_Credentials.thy ===== *)
theory Manager_Credentials
  imports Py_Text "HOL-Library.Char_ord" "HOL-Library.List_Lexorder"
begin

text \<open>
  The credentials an agent hands out to Managers: \<open>enrollment/models.py\<close>, the table of
  migration \<open>0004\<close> with \<open>SQLiteManagerCredentialRepository\<close> of \<open>storage/manager_credentials.py\<close>,
  and \<open>EnrollmentService\<close> of \<open>enrollment/service.py\<close>.

  Arguments of the model: the token hash (SHA-256 in the code), the generated token and
  \<open>uuid4()\<close>, the current time (always passed), and whether the audit sink accepts an intent
  (it raises otherwise, before anything is changed; a failing outcome record is ignored by
  the code).  The audit trail itself is kept in the state of the service.
\<close>

section \<open>Models\<close>

datatype enrollment_error =
    DuplicateEnrollment
  | EnrollmentCapacityExceeded
  | EnrollmentForbidden
  | CredentialNotFound
  | CredentialStorageError
  | ValueError
  | AuditUnavailable

datatype credential_state = CPending | CActive | CRevoked

record manager_credential =
  mc_credential_id :: string
  mc_manager_id :: string
  mc_enrollment_id :: string
  mc_token_hash :: string
  mc_state :: credential_state
  mc_pending_expires_at :: "instant option"
  mc_created_at :: instant
  mc_activated_at :: "instant option"
  mc_last_used_at :: "instant option"
  mc_revoked_at :: "instant option"

record credential_context =
  cx_credential_id :: string
  cx_manager_id :: string
  cx_state :: credential_state

definition actor_id :: "credential_state \<Rightarrow> string \<Rightarrow> string" where
  "actor_id st manager_id =
     (if st = CActive \<or> st = CRevoked then ''manager:'' else ''pending-manager:'') @ manager_id"

text \<open>\<open>int(text, 16)\<close> succeeds.\<close>

definition strip :: "string \<Rightarrow> string" where
  "strip s = rev (dropWhile is_space (rev (dropWhile is_space s)))"

definition int16_ok :: "string \<Rightarrow> bool" where
  "int16_ok s =
     (let t = strip s;
          u = (if t \<noteq> [] \<and> hd t \<in> {CHR ''+'', CHR ''-''} then tl t else t);
          v = (if take 2 u \<in> {''0x'', ''0X''}
               then (if take 1 (drop 2 u) = ''_'' then drop 3 u else drop 2 u) else u) in
      list_all (\<lambda>p. p \<noteq> [] \<and> list_all is_hex p) (split_on CHR ''_'' v))"

text \<open>\<open>_record(row)\<close>: the checks a stored row passes before it is used.\<close>

definition readable :: "manager_credential \<Rightarrow> bool" where
  "readable c \<longleftrightarrow> uuid_canonical (mc_credential_id c) \<and> uuid_canonical (mc_manager_id c) \<and>
     enrollment_id_re (mc_enrollment_id c) \<and> length (mc_token_hash c) = 64 \<and>
     int16_ok (mc_token_hash c) \<and>
     (mc_state c = CPending \<longrightarrow> mc_pending_expires_at c \<noteq> None) \<and>
     (mc_state c = CActive \<longrightarrow> mc_activated_at c \<noteq> None) \<and>
     (mc_state c = CRevoked \<longrightarrow> mc_revoked_at c \<noteq> None)"

section \<open>The table\<close>

definition credentials_unique :: "manager_credential list \<Rightarrow> bool" where
  "credentials_unique rows \<longleftrightarrow> distinct (map mc_credential_id rows) \<and>
     distinct (map mc_enrollment_id rows) \<and> distinct (map mc_token_hash rows)"

definition credential_ids_unique :: "manager_credential list \<Rightarrow> bool" where
  "credential_ids_unique rows \<longleftrightarrow> distinct (map mc_credential_id rows)"

interpretation credentials_table: keyed_table mc_credential_id credential_ids_unique
  by unfold_locales (simp add: credential_ids_unique_def)

type_synonym 'a cred_repo = "manager_credential list \<Rightarrow> enrollment_error + 'a \<times> manager_credential list"

definition pending_count :: "instant \<Rightarrow> manager_credential list \<Rightarrow> nat" where
  "pending_count now rows =
     rowcount (\<lambda>c. mc_state c = CPending \<and> sql_gt (mc_pending_expires_at c) now) rows"

definition insert_credential :: "manager_credential \<Rightarrow> manager_credential list \<Rightarrow> manager_credential list option" where
  "insert_credential c rows = (if credentials_unique (rows @ [c]) then Some (rows @ [c]) else None)"

definition credential_get :: "string \<Rightarrow> manager_credential list \<Rightarrow> manager_credential option" where
  "credential_get i rows = find (\<lambda>c. mc_credential_id c = i) rows"

section \<open>SQLiteManagerCredentialRepository\<close>

definition issue :: "manager_credential \<Rightarrow> instant \<Rightarrow> int \<Rightarrow> unit cred_repo" where
  "issue record now max_pending rows =
     (if find (\<lambda>c. mc_enrollment_id c = mc_enrollment_id record) rows \<noteq> None
      then Inl DuplicateEnrollment
      else if max_pending \<le> int (pending_count now rows) then Inl EnrollmentCapacityExceeded
      else case insert_credential record rows of
        None \<Rightarrow> Inl CredentialStorageError
      | Some rows' \<Rightarrow> Inr ((), rows'))"

definition retryable :: "manager_credential \<Rightarrow> instant \<Rightarrow> manager_credential \<Rightarrow> bool" where
  "retryable record now existing \<longleftrightarrow> mc_manager_id existing = mc_manager_id record \<and>
     (mc_state existing = CRevoked \<or>
      (mc_state existing = CPending \<and>
        (case mc_pending_expires_at existing of None \<Rightarrow> False | Some t \<Rightarrow> t \<le> now)))"

definition reissued :: "manager_credential \<Rightarrow> manager_credential \<Rightarrow> manager_credential" where
  "reissued record c = c\<lparr>mc_credential_id := mc_credential_id record,
     mc_manager_id := mc_manager_id record, mc_token_hash := mc_token_hash record,
     mc_state := CPending, mc_pending_expires_at := mc_pending_expires_at record,
     mc_created_at := mc_created_at record, mc_activated_at := None, mc_last_used_at := None,
     mc_revoked_at := None\<rparr>"

definition reissue_expired :: "manager_credential \<Rightarrow> instant \<Rightarrow> int \<Rightarrow> unit cred_repo" where
  "reissue_expired record now max_pending rows =
     (case find (\<lambda>c. mc_enrollment_id c = mc_enrollment_id record) rows of
        None \<Rightarrow>
          if max_pending \<le> int (pending_count now rows) then Inl EnrollmentCapacityExceeded
          else (case insert_credential record rows of
            None \<Rightarrow> Inl CredentialStorageError | Some rows' \<Rightarrow> Inr ((), rows'))
      | Some existing \<Rightarrow>
          if \<not> readable existing then Inl CredentialStorageError
          else if \<not> retryable record now existing then Inl DuplicateEnrollment
          else if max_pending \<le> int (pending_count now rows) then Inl EnrollmentCapacityExceeded
          else
            let rows' = sql_update (\<lambda>c. mc_enrollment_id c = mc_enrollment_id record \<and>
                  mc_credential_id c = mc_credential_id existing) (reissued record) rows in
            if credentials_unique rows' then Inr ((), rows') else Inl CredentialStorageError)"

definition list_all_credentials :: "manager_credential list \<Rightarrow> enrollment_error + manager_credential list" where
  "list_all_credentials rows =
     (if list_all readable rows then Inr (sort_key mc_credential_id rows) else Inl CredentialStorageError)"

definition authenticatable :: "manager_credential list \<Rightarrow> enrollment_error + manager_credential list" where
  "authenticatable rows =
     (let some = filter (\<lambda>c. mc_state c \<in> {CPending, CActive}) rows in
      if list_all readable some then Inr (sort_key mc_credential_id some) else Inl CredentialStorageError)"

definition set_active :: "instant \<Rightarrow> manager_credential \<Rightarrow> manager_credential" where
  "set_active now c = c\<lparr>mc_state := CActive, mc_pending_expires_at := None, mc_activated_at := Some now\<rparr>"

definition activate :: "string \<Rightarrow> string \<Rightarrow> string \<Rightarrow> instant \<Rightarrow> manager_credential option cred_repo" where
  "activate credential_id enrollment_id token_hash now rows =
     (case credential_get credential_id rows of
        None \<Rightarrow> Inr (None, rows)
      | Some c \<Rightarrow>
        if \<not> readable c then Inl CredentialStorageError
        else if mc_enrollment_id c \<noteq> enrollment_id \<or> mc_token_hash c \<noteq> token_hash then Inr (None, rows)
        else if mc_state c = CActive then Inr (Some c, rows)
        else if mc_state c \<noteq> CPending \<or>
           (case mc_pending_expires_at c of None \<Rightarrow> True | Some t \<Rightarrow> t \<le> now) then Inr (None, rows)
        else
          let rows' = sql_update (\<lambda>x. mc_credential_id x = credential_id \<and> mc_state x = CPending)
                (set_active now) rows in
          case credential_get credential_id rows' of
            None \<Rightarrow> Inl CredentialStorageError
          | Some c' \<Rightarrow> if readable c' then Inr (Some c', rows') else Inl CredentialStorageError)"

definition set_revoked :: "instant \<Rightarrow> manager_credential \<Rightarrow> manager_credential" where
  "set_revoked now c = c\<lparr>mc_state := CRevoked, mc_pending_expires_at := None, mc_revoked_at := Some now\<rparr>"

definition revoke :: "string \<Rightarrow> instant \<Rightarrow> manager_credential option cred_repo" where
  "revoke credential_id now rows =
     (case credential_get credential_id rows of
        None \<Rightarrow> Inr (None, rows)
      | Some c \<Rightarrow>
        if \<not> readable c then Inl CredentialStorageError
        else if mc_state c = CRevoked then Inr (Some c, rows)
        else
          let rows' = sql_update (\<lambda>x. mc_credential_id x = credential_id \<and> mc_state x \<noteq> CRevoked)
                (set_revoked now) rows in
          case credential_get credential_id rows' of
            None \<Rightarrow> Inl CredentialStorageError
          | Some c' \<Rightarrow> if readable c' then Inr (Some c', rows') else Inl CredentialStorageError)"

section \<open>EnrollmentService\<close>

record audit_entry =
  au_operation :: string
  au_actor :: string
  au_credential :: "string option"
  au_result :: "string option"

record service_config =
  sc_hash :: "string \<Rightarrow> string"
  sc_pending_ttl :: int
  sc_max_pending :: int

record service_state =
  ss_credentials :: "manager_credential list"
  ss_audit :: "audit_entry list"

type_synonym 'a service = "service_state \<Rightarrow> (enrollment_error + 'a) \<times> service_state"

definition log_entry :: "string \<Rightarrow> string \<Rightarrow> string option \<Rightarrow> string option \<Rightarrow> service_state \<Rightarrow> service_state" where
  "log_entry operation actor cid result s = s\<lparr>ss_audit := ss_audit s @
     [\<lparr>au_operation = operation, au_actor = actor, au_credential = cid, au_result = result\<rparr>]\<rparr>"

definition ttl :: "int \<Rightarrow> int" where
  "ttl s = s * 1000000"

definition pending_record ::
  "service_config \<Rightarrow> string \<Rightarrow> string \<Rightarrow> string \<Rightarrow> string \<Rightarrow> instant \<Rightarrow> manager_credential" where
  "pending_record cfg uuid token manager_id enrollment_id now = \<lparr>mc_credential_id = uuid,
     mc_manager_id = manager_id, mc_enrollment_id = enrollment_id,
     mc_token_hash = sc_hash cfg token, mc_state = CPending,
     mc_pending_expires_at = Some (now + ttl (sc_pending_ttl cfg)),
     mc_created_at = now, mc_activated_at = None, mc_last_used_at = None, mc_revoked_at = None\<rparr>"

definition issue_pending ::
  "service_config \<Rightarrow> bool \<Rightarrow> bool \<Rightarrow> string \<Rightarrow> string \<Rightarrow> string \<Rightarrow> string \<Rightarrow> instant
     \<Rightarrow> (manager_credential \<times> string) service" where
  "issue_pending cfg audit_up expired_retry uuid token manager_id enrollment_id now s =
     (if \<not> uuid_canonical manager_id \<or> \<not> enrollment_id_re enrollment_id then (Inl ValueError, s)
      else if \<not> audit_up then (Inl AuditUnavailable, s)
      else
        let s1 = log_entry ''credential.issue'' ''local-admin'' None None s;
            record = pending_record cfg uuid token manager_id enrollment_id now in
        case (if expired_retry then reissue_expired record now (sc_max_pending cfg) (ss_credentials s1)
              else issue record now (sc_max_pending cfg) (ss_credentials s1)) of
          Inl e \<Rightarrow> (Inl e, log_entry ''credential.issue'' ''local-admin'' None (Some ''failed'') s1)
        | Inr (_, rows) \<Rightarrow> (Inr (record, token),
            log_entry ''credential.issue'' ''local-admin'' (Some uuid) (Some ''success'')
              (s1\<lparr>ss_credentials := rows\<rparr>)))"

text \<open>The loop keeps the last record whose hash matches.\<close>

definition last_match :: "string \<Rightarrow> manager_credential list \<Rightarrow> manager_credential option" where
  "last_match h records = foldl (\<lambda>m c. if h = mc_token_hash c then Some c else m) None records"

definition context_of :: "manager_credential \<Rightarrow> credential_context" where
  "context_of c = \<lparr>cx_credential_id = mc_credential_id c, cx_manager_id = mc_manager_id c,
     cx_state = mc_state c\<rparr>"

definition authenticate ::
  "service_config \<Rightarrow> string \<Rightarrow> instant \<Rightarrow> manager_credential list
     \<Rightarrow> enrollment_error + credential_context option" where
  "authenticate cfg token now rows =
     (case authenticatable rows of
        Inl e \<Rightarrow> Inl e
      | Inr records \<Rightarrow>
        (case last_match (sc_hash cfg token) records of
           None \<Rightarrow> Inr None
         | Some c \<Rightarrow>
           if mc_state c = CPending \<and> (case mc_pending_expires_at c of None \<Rightarrow> True | Some t \<Rightarrow> t \<le> now)
           then Inr None else Inr (Some (context_of c))))"

definition authenticate_revoked_for_revoke ::
  "service_config \<Rightarrow> string \<Rightarrow> string \<Rightarrow> manager_credential list
     \<Rightarrow> enrollment_error + credential_context option" where
  "authenticate_revoked_for_revoke cfg token credential_id rows =
     (if \<not> uuid_canonical credential_id then Inr None
      else case list_all_credentials rows of
        Inl e \<Rightarrow> Inl e
      | Inr records \<Rightarrow>
        (case last_match (sc_hash cfg token) records of
           None \<Rightarrow> Inr None
         | Some c \<Rightarrow> if mc_state c \<noteq> CRevoked \<or> mc_credential_id c \<noteq> credential_id then Inr None
             else Inr (Some (context_of c))))"

definition service_activate ::
  "service_config \<Rightarrow> bool \<Rightarrow> string \<Rightarrow> string \<Rightarrow> string \<Rightarrow> instant \<Rightarrow> manager_credential service" where
  "service_activate cfg audit_up credential_id enrollment_id token now s =
     (if \<not> uuid_canonical credential_id \<or> \<not> enrollment_id_re enrollment_id then (Inl ValueError, s)
      else case authenticate cfg token now (ss_credentials s) of
        Inl e \<Rightarrow> (Inl e, s)
      | Inr context \<Rightarrow>
        let actor = (case context of None \<Rightarrow> ''unknown'' | Some cx \<Rightarrow> actor_id (cx_state cx) (cx_manager_id cx));
            entry = log_entry ''credential.activate'';
            s1 = entry actor (Some credential_id) None s;
            denied = (Inl EnrollmentForbidden, entry actor (Some credential_id) (Some ''denied'') s1) in
        if \<not> audit_up then (Inl AuditUnavailable, s)
        else if (case context of None \<Rightarrow> True | Some cx \<Rightarrow> cx_credential_id cx \<noteq> credential_id \<or>
               cx_state cx \<notin> {CPending, CActive}) then denied
        else case activate credential_id enrollment_id (sc_hash cfg token) now (ss_credentials s1) of
          Inl e \<Rightarrow> (Inl e, s1)
        | Inr (None, _) \<Rightarrow> denied
        | Inr (Some c, rows) \<Rightarrow> (Inr c, entry (actor_id (mc_state c) (mc_manager_id c)) (Some credential_id)
            (Some ''success'') (s1\<lparr>ss_credentials := rows\<rparr>)))"

definition service_revoke ::
  "bool \<Rightarrow> string \<Rightarrow> string \<Rightarrow> string option \<Rightarrow> instant \<Rightarrow> manager_credential service" where
  "service_revoke audit_up credential_id actor manager_id now s =
     (if \<not> uuid_canonical credential_id \<or> (\<exists>m\<in>set_option manager_id. \<not> uuid_canonical m)
      then (Inl ValueError, s)
      else if \<not> audit_up then (Inl AuditUnavailable, s)
      else
        let entry = log_entry ''credential.revoke'' actor (Some credential_id); s1 = entry None s in
        case credential_get credential_id (ss_credentials s) of
          None \<Rightarrow> (Inl CredentialNotFound, entry (Some ''failed'') s1)
        | Some c \<Rightarrow>
          if \<not> readable c then (Inl CredentialStorageError, s1)
          else if actor \<noteq> ''local-admin'' \<and> manager_id \<noteq> Some (mc_manager_id c)
          then (Inl EnrollmentForbidden, entry (Some ''denied'') s1)
          else case revoke credential_id now (ss_credentials s1) of
            Inl e \<Rightarrow> (Inl e, s1)
          | Inr (None, _) \<Rightarrow> (Inl CredentialNotFound, entry (Some ''failed'') s1)
          | Inr (Some r, rows) \<Rightarrow> (Inr r, entry (Some ''success'') (s1\<lparr>ss_credentials := rows\<rparr>)))"

definition service_list :: "string \<Rightarrow> service_state \<Rightarrow> enrollment_error + manager_credential list" where
  "service_list actor s = (if actor \<noteq> ''local-admin'' then Inl EnrollmentForbidden
     else list_all_credentials (ss_credentials s))"

end
