(* ===== verification/Credential_Properties.thy ===== *)
theory Credential_Properties
  imports Manager_Credentials
begin

text \<open>
  Properties of the agent's credential service: uniqueness in every history, finality of a
  revocation, the round trip from issue to activation to authentication, and who may
  activate or revoke what.
\<close>

section \<open>The service as a transaction system\<close>

datatype service_op =
    SIssue bool bool string string string string instant
  | SActivate bool string string string instant
  | SRevoke bool string string "string option" instant

definition outcome :: "(enrollment_error + 'a) \<times> service_state
    \<Rightarrow> unit + enrollment_error option \<times> service_state" where
  "outcome r = Inr (case fst r of Inl e \<Rightarrow> Some e | Inr _ \<Rightarrow> None, snd r)"

fun run_service :: "service_config \<Rightarrow> service_op \<Rightarrow> service_state
    \<Rightarrow> unit + enrollment_error option \<times> service_state" where
  "run_service cfg (SIssue up retry u tok m e now) s = outcome (issue_pending cfg up retry u tok m e now s)"
| "run_service cfg (SActivate up c e tok now) s = outcome (service_activate cfg up c e tok now s)"
| "run_service cfg (SRevoke up c a m now) s = outcome (service_revoke up c a m now s)"

definition service_ok :: "service_state \<Rightarrow> bool" where
  "service_ok s \<longleftrightarrow> credentials_unique (ss_credentials s)"

lemma log_entry_credentials [simp]: "ss_credentials (log_entry op a c r s) = ss_credentials s"
  by (simp add: log_entry_def)

text \<open>What a service call may do to the rows.\<close>

inductive rows_step :: "service_op \<Rightarrow> manager_credential list \<Rightarrow> manager_credential list \<Rightarrow> bool" where
  nothing: "rows_step x rows rows"
| inserted: "credentials_unique (rows @ [c]) \<Longrightarrow> mc_credential_id c = u \<Longrightarrow>
     rows_step (SIssue up retry u tok m e now) rows (rows @ [c])"
| reissue: "credentials_unique (sql_update P (reissued c) rows) \<Longrightarrow> mc_credential_id c = u \<Longrightarrow>
     rows_step (SIssue up retry u tok m e now) rows (sql_update P (reissued c) rows)"
| activated: "rows_step (SActivate up i e tok now) rows
     (sql_update (\<lambda>x. mc_credential_id x = i \<and> mc_state x = CPending) (set_active now) rows)"
| revoked: "rows_step (SRevoke up i a m now) rows
     (sql_update (\<lambda>x. mc_credential_id x = i \<and> mc_state x \<noteq> CRevoked) (set_revoked now) rows)"

lemma insert_credential_Some:
  "insert_credential c rows = Some rows' \<longleftrightarrow> rows' = rows @ [c] \<and> credentials_unique (rows @ [c])"
  by (auto simp: insert_credential_def)

lemma pending_record_id [simp]: "mc_credential_id (pending_record cfg u tok m e now) = u"
  by (simp add: pending_record_def)

lemma issue_rows:
  "issue c now m rows = Inr (v, rows') \<Longrightarrow> rows' = rows @ [c] \<and> credentials_unique (rows @ [c])"
  by (auto simp: issue_def insert_credential_Some split: if_splits option.splits)

lemma reissue_rows:
  "reissue_expired c now m rows = Inr (v, rows') \<Longrightarrow> credentials_unique rows' \<and>
     (rows' = rows @ [c] \<or> (\<exists>P. rows' = sql_update P (reissued c) rows))"
  by (auto simp: reissue_expired_def insert_credential_Some Let_def split: if_splits option.splits)

lemma run_service_rows:
  assumes "run_service cfg x s = Inr (v, s')"
  shows "rows_step x (ss_credentials s) (ss_credentials s')"
proof (cases x)
  case (SIssue up retry u tok m e now)
  then show ?thesis
    using assms
    by (auto simp: outcome_def issue_pending_def Let_def dest!: issue_rows reissue_rows
        intro!: rows_step.nothing rows_step.inserted rows_step.reissue split: if_splits sum.splits)
next
  case (SActivate up i e tok now)
  then show ?thesis
    using assms
    by (auto simp: outcome_def service_activate_def activate_def Let_def
        intro: rows_step.intros split: if_splits sum.splits option.splits)
next
  case (SRevoke up i a m now)
  then show ?thesis
    using assms
    by (auto simp: outcome_def service_revoke_def revoke_def Let_def
        intro: rows_step.intros split: if_splits sum.splits option.splits)
qed

lemma unique_update:
  assumes "credentials_unique rows"
    and "\<And>c. P c \<Longrightarrow> mc_credential_id (f c) = mc_credential_id c \<and> mc_enrollment_id (f c) = mc_enrollment_id c \<and>
      mc_token_hash (f c) = mc_token_hash c"
  shows "credentials_unique (sql_update P f rows)"
  using assms by (simp add: credentials_unique_def map_sql_update)

lemma rows_step_unique: "rows_step x rows rows' \<Longrightarrow> credentials_unique rows \<Longrightarrow> credentials_unique rows'"
  by (erule rows_step.cases) (auto simp: set_active_def set_revoked_def intro!: unique_update)

interpretation service: txn_system "run_service cfg" service_ok for cfg
  by unfold_locales (auto simp: service_ok_def dest: run_service_rows rows_step_unique)

section \<open>Revocation is final\<close>

fun issues_id :: "string \<Rightarrow> service_op \<Rightarrow> bool" where
  "issues_id i (SIssue _ _ u _ _ _ _) = (u = i)"
| "issues_id i _ = False"

definition dead :: "string \<Rightarrow> manager_credential list \<Rightarrow> bool" where
  "dead i rows \<longleftrightarrow> (\<forall>c\<in>set rows. mc_credential_id c = i \<longrightarrow> mc_state c = CRevoked)"

lemma dead_update:
  assumes "dead i rows" and "\<And>c. P c \<Longrightarrow> mc_credential_id (f c) = i \<Longrightarrow> mc_state (f c) = CRevoked \<or> False"
  shows "dead i (sql_update P f rows)"
  using assms unfolding dead_def set_sql_update ball_simps by simp

lemma dead_step: "rows_step x rows rows' \<Longrightarrow> \<not> issues_id i x \<Longrightarrow> dead i rows \<Longrightarrow> dead i rows'"
proof (induction rule: rows_step.induct)
  case (activated up k e tok now rows)
  then show ?case unfolding dead_def set_sql_update ball_simps by (auto simp: set_active_def)
next
  case (revoked up k a m now rows)
  then show ?case by (intro dead_update) (auto simp: set_revoked_def)
next
  case (reissue P c rows u up retry tok m e now)
  then show ?case by (intro dead_update) (auto simp: reissued_def)
qed (auto simp: dead_def)

lemma last_match_Some:
  assumes "last_match h records = Some c"
  shows "c \<in> set records \<and> mc_token_hash c = h"
proof -
  have "foldl (\<lambda>m c. if h = mc_token_hash c then Some c else m) acc records = Some c \<Longrightarrow>
      acc = Some c \<or> (c \<in> set records \<and> mc_token_hash c = h)" for acc
    by (induction records arbitrary: acc) (auto split: if_splits)
  then show ?thesis using assms by (auto simp: last_match_def)
qed

lemma authenticate_Some:
  assumes "authenticate cfg tok now rows = Inr (Some cx)"
  obtains c where "c \<in> set rows" and "mc_token_hash c = sc_hash cfg tok" and "cx = context_of c"
    and "mc_state c = CActive \<or> (mc_state c = CPending \<and> (\<exists>t. mc_pending_expires_at c = Some t \<and> now < t))"
proof -
  obtain records c where r: "authenticatable rows = Inr records"
    and c: "last_match (sc_hash cfg tok) records = Some c" "cx = context_of c"
      "\<not> (mc_state c = CPending \<and> (case mc_pending_expires_at c of None \<Rightarrow> True | Some t \<Rightarrow> t \<le> now))"
    using assms by (auto simp: authenticate_def split: sum.splits option.splits if_splits)
  have "c \<in> set records" "mc_token_hash c = sc_hash cfg tok" using last_match_Some [OF c(1)] by auto
  moreover have "set records = {c \<in> set rows. mc_state c \<in> {CPending, CActive}}"
    using r by (auto simp: authenticatable_def Let_def split: if_splits)
  ultimately show thesis using that c(2,3) by (fastforce split: option.splits)
qed

lemma activate_Some:
  assumes "activate i e h now rows = Inr (Some c, rows')"
  shows "\<exists>x\<in>set rows. mc_credential_id x = i \<and> mc_enrollment_id x = e \<and> mc_token_hash x = h \<and>
    (mc_state x = CActive \<or> (mc_state x = CPending \<and> (\<exists>t. mc_pending_expires_at x = Some t \<and> now < t)))"
  using assms
  by (auto simp: activate_def credential_get_def Let_def dest!: credentials_table.find_keyD
      split: option.splits if_splits)

text \<open>
  \<open>C24\<close>.  A revocation is final: once a credential is revoked, in every history of service
  calls that does not reuse its generated id, no token ever authenticates as that credential
  and it can never be activated again.
\<close>

theorem revoked_credential_stays_dead:
  assumes "service_ok s" and "c \<in> set (ss_credentials s)" and "mc_state c = CRevoked"
    and "\<forall>x\<in>set xs. \<not> issues_id (mc_credential_id c) x"
  shows "(\<forall>tok now cx. authenticate cfg tok now (ss_credentials (history (run_service cfg) xs s)) = Inr (Some cx)
      \<longrightarrow> cx_credential_id cx \<noteq> mc_credential_id c) \<and>
    (\<forall>up e tok now r s'. service_activate cfg up (mc_credential_id c) e tok now (history (run_service cfg) xs s)
      \<noteq> (Inr r, s'))"
proof -
  let ?s = "history (run_service cfg) xs s" and ?i = "mc_credential_id c"
  have "dead ?i (ss_credentials s)"
    using assms(1-3) credentials_table.uniq_same [of "ss_credentials s" _ c]
    by (auto simp: dead_def service_ok_def credentials_unique_def credential_ids_unique_def)
  moreover have "dead ?i (ss_credentials s) \<longrightarrow> dead ?i (ss_credentials ?s)"
    by (rule service.history_rel [OF assms(1)])
      (use assms(4) in \<open>auto intro: dead_step dest!: run_service_rows\<close>)
  ultimately have d: "dead ?i (ss_credentials ?s)" by blast
  have "cx_credential_id cx \<noteq> ?i" if a: "authenticate cfg tok now (ss_credentials ?s) = Inr (Some cx)" for tok now cx
    using a d by (elim authenticate_Some) (auto simp: dead_def context_of_def)
  moreover have "service_activate cfg up ?i e tok now ?s \<noteq> (Inr r, s')" for up e tok now r s'
    using d by (auto simp: service_activate_def dead_def Let_def dest!: activate_Some
        split: if_splits sum.splits option.splits)
  ultimately show ?thesis by blast
qed

definition demo_config :: service_config where
  "demo_config = \<lparr>sc_hash = (\<lambda>t. take 64 (t @ replicate 64 CHR ''0'')), sc_pending_ttl = 600,
     sc_max_pending = 64\<rparr>"

definition demo_credential :: "credential_state \<Rightarrow> manager_credential" where
  "demo_credential st = \<lparr>mc_credential_id = ''3f2504e0-4f89-41d3-9a0c-0305e82c3301'',
     mc_manager_id = ''7d444840-9dc0-41d1-b245-5ffdce74fad2'', mc_enrollment_id = ''enr-1'',
     mc_token_hash = sc_hash demo_config ''abc'', mc_state = st, mc_pending_expires_at = None,
     mc_created_at = 0, mc_activated_at = Some 1, mc_last_used_at = None, mc_revoked_at = Some 2\<rparr>"

definition demo_state :: "credential_state \<Rightarrow> service_state" where
  "demo_state st = \<lparr>ss_credentials = [demo_credential st], ss_audit = []\<rparr>"

theorem revoked_credential_stays_dead_witness:
  "\<not> (\<exists>r s'. service_activate demo_config True ''3f2504e0-4f89-41d3-9a0c-0305e82c3301'' ''enr-1'' ''abc'' 9
      (history (run_service demo_config)
        [SActivate True ''3f2504e0-4f89-41d3-9a0c-0305e82c3301'' ''enr-1'' ''abc'' 9] (demo_state CRevoked)) =
      (Inr r, s'))"
proof -
  have "service_ok (demo_state CRevoked)" "demo_credential CRevoked \<in> set (ss_credentials (demo_state CRevoked))"
    "mc_state (demo_credential CRevoked) = CRevoked"
    "mc_credential_id (demo_credential CRevoked) = ''3f2504e0-4f89-41d3-9a0c-0305e82c3301''"
    by (simp_all add: service_ok_def demo_state_def demo_credential_def credentials_unique_def)
  then show ?thesis
    using revoked_credential_stays_dead [of "demo_state CRevoked" "demo_credential CRevoked"
      "[SActivate True ''3f2504e0-4f89-41d3-9a0c-0305e82c3301'' ''enr-1'' ''abc'' 9]" demo_config]
    by (metis issues_id.simps(2) list.set_cases set_ConsD empty_iff list.set(1))
qed

section \<open>From issue to authentication\<close>

lemma last_match_unique:
  assumes "c \<in> set records" and "mc_token_hash c = h"
    and "\<And>x. x \<in> set records \<Longrightarrow> mc_token_hash x = h \<Longrightarrow> x = c"
  shows "last_match h records = Some c"
proof -
  have "foldl (\<lambda>m c. if h = mc_token_hash c then Some c else m) acc records \<noteq> None"
    if "acc \<noteq> None \<or> c \<in> set records" for acc
    using that assms(2) by (induction records arbitrary: acc) auto
  then have "last_match h records \<noteq> None" using assms(1) by (simp add: last_match_def)
  then obtain x where "last_match h records = Some x" by blast
  then show ?thesis using last_match_Some assms(3) by blast
qed

lemma unique_hash:
  assumes "credentials_unique rows" and "x \<in> set rows" and "y \<in> set rows" and "mc_token_hash x = mc_token_hash y"
  shows "x = y"
proof -
  have "inj_on mc_token_hash (set rows)" using assms(1) by (simp add: credentials_unique_def distinct_map)
  then show ?thesis using assms(2-4) by (auto dest: inj_onD)
qed

lemma authenticate_known:
  assumes "credentials_unique rows" and "list_all readable rows" and "c \<in> set rows"
    and "mc_token_hash c = sc_hash cfg tok"
    and "mc_state c = CActive \<or> (mc_state c = CPending \<and> (\<exists>t. mc_pending_expires_at c = Some t \<and> now < t))"
  shows "authenticate cfg tok now rows = Inr (Some (context_of c))"
proof -
  let ?some = "filter (\<lambda>c. mc_state c \<in> {CPending, CActive}) rows"
  have "authenticatable rows = Inr (sort_key mc_credential_id ?some)"
    using assms(2) by (auto simp: authenticatable_def Let_def list_all_iff)
  moreover have "last_match (sc_hash cfg tok) (sort_key mc_credential_id ?some) = Some c"
    using assms(3-5) unique_hash [OF assms(1)] by (intro last_match_unique) auto
  ultimately show ?thesis using assms(5) by (auto simp: authenticate_def)
qed

lemma reissued_pending:
  "mc_enrollment_id c = e \<Longrightarrow> reissued (pending_record cfg u tok m e now) c = pending_record cfg u tok m e now"
  by (simp add: reissued_def pending_record_def)

lemma reissue_contains:
  assumes "reissue_expired r now k rows = Inr (v, rows')" and "r = pending_record cfg u tok m e now"
  shows "r \<in> set rows' \<and> set rows' \<subseteq> insert r (set rows)"
proof (cases "find (\<lambda>c. mc_enrollment_id c = mc_enrollment_id r) rows")
  case None
  then show ?thesis
    using assms by (auto simp: reissue_expired_def insert_credential_Some split: if_splits option.splits)
next
  case (Some c)
  have c: "c \<in> set rows" "mc_enrollment_id c = mc_enrollment_id r"
    using Some by (auto simp: find_Some_iff)
  have e: "mc_enrollment_id r = e" using assms(2) by (simp add: pending_record_def)
  have same: "reissued r x = r" if "mc_enrollment_id x = mc_enrollment_id r" for x
    using that e reissued_pending assms(2) by simp
  have rows': "rows' = sql_update (\<lambda>x. mc_enrollment_id x = mc_enrollment_id r \<and>
      mc_credential_id x = mc_credential_id c) (reissued r) rows"
    using assms(1) Some by (auto simp: reissue_expired_def Let_def split: if_splits)
  show ?thesis using c same by (force simp: rows' set_sql_update)
qed

lemma issue_pending_rows:
  assumes "issue_pending cfg True retry u tok m e now s = (Inr (c, t), s1)"
    and "list_all readable (ss_credentials s)"
    and "uuid_canonical u" and "length (sc_hash cfg tok) = 64" and "int16_ok (sc_hash cfg tok)"
  shows "t = tok \<and> c = pending_record cfg u tok m e now \<and> c \<in> set (ss_credentials s1) \<and>
    credentials_unique (ss_credentials s1) \<and> list_all readable (ss_credentials s1) \<and>
    enrollment_id_re e"
proof -
  let ?r = "pending_record cfg u tok m e now" and ?rows = "ss_credentials s"
  have m: "uuid_canonical m" "enrollment_id_re e" and ct: "c = ?r" "t = tok"
    using assms(1) by (auto simp: issue_pending_def Let_def split: if_splits sum.splits prod.splits)
  have "(if retry then reissue_expired ?r now (sc_max_pending cfg) ?rows else
      issue ?r now (sc_max_pending cfg) ?rows) = Inr ((), ss_credentials s1)"
    using assms(1) by (auto simp: issue_pending_def Let_def split: if_splits sum.splits prod.splits)
  then have "?r \<in> set (ss_credentials s1) \<and> set (ss_credentials s1) \<subseteq> insert ?r (set ?rows) \<and>
      credentials_unique (ss_credentials s1)"
    by (auto dest: issue_rows reissue_rows reissue_contains [OF _ refl] split: if_splits)
  moreover have "readable ?r" using m assms(3-5) by (simp add: readable_def pending_record_def)
  ultimately show ?thesis using ct m assms(2) by (auto simp: list_all_iff)
qed

lemma credential_get_member:
  "credentials_unique rows \<Longrightarrow> c \<in> set rows \<Longrightarrow> credential_get (mc_credential_id c) rows = Some c"
  unfolding credential_get_def
  by (rule credentials_table.find_key_only) (auto simp: credentials_unique_def credential_ids_unique_def)

lemma activate_pending:
  assumes "credentials_unique rows" and "list_all readable rows" and "c \<in> set rows"
    and "mc_state c = CPending" and "mc_pending_expires_at c = Some x" and "now < x"
  defines "rows' \<equiv> sql_update (\<lambda>x. mc_credential_id x = mc_credential_id c \<and> mc_state x = CPending)
      (set_active now) rows"
  shows "activate (mc_credential_id c) (mc_enrollment_id c) (mc_token_hash c) now rows =
      Inr (Some (set_active now c), rows') \<and>
    credentials_unique rows' \<and> list_all readable rows' \<and> set_active now c \<in> set rows'"
proof -
  have u: "credentials_unique rows'"
    unfolding rows'_def using assms(1) by (intro unique_update) (auto simp: set_active_def)
  have r: "list_all readable rows'"
    unfolding rows'_def list_all_iff set_sql_update ball_simps
    using assms(2) by (auto simp: list_all_iff readable_def set_active_def)
  have i: "set_active now c \<in> set rows'"
    unfolding rows'_def set_sql_update using assms(3,4) by force
  have g: "credential_get (mc_credential_id c) rows' = Some (set_active now c)"
    using credential_get_member [OF u i] by (simp add: set_active_def)
  have rr: "readable c" "readable (set_active now c)" using assms(2,3) r i by (auto simp: list_all_iff)
  show ?thesis
    using u r i g rr assms(3-6) credential_get_member [OF assms(1,3)]
    by (simp add: activate_def rows'_def [symmetric] Let_def)
qed

lemma activate_active:
  assumes "credentials_unique rows" and "list_all readable rows" and "c \<in> set rows" and "mc_state c = CActive"
  shows "activate (mc_credential_id c) (mc_enrollment_id c) (mc_token_hash c) now rows = Inr (Some c, rows)"
  using assms credential_get_member [OF assms(1,3)] by (simp add: activate_def list_all_iff)

text \<open>The service call, once the token authenticates as the credential it names.\<close>

lemma service_activate_known:
  assumes "authenticate cfg tok now (ss_credentials s) = Inr (Some (context_of c))"
    and "activate (mc_credential_id c) e (sc_hash cfg tok) now (ss_credentials s) = Inr (Some c', rows)"
    and "mc_state c \<in> {CPending, CActive}" and "uuid_canonical (mc_credential_id c)" and "enrollment_id_re e"
  shows "\<exists>s'. service_activate cfg True (mc_credential_id c) e tok now s = (Inr c', s') \<and> ss_credentials s' = rows"
  using assms by (auto simp: service_activate_def context_of_def Let_def)

text \<open>
  \<open>C25\<close>.  Issue, activate, authenticate: a credential that was just issued can be activated
  with the returned token until its pending time ends; the activated credential is the
  issued one, activating it again returns it unchanged, and the token authenticates as an
  active credential of the same manager from then on.
\<close>

theorem issued_credential_activates:
  assumes "service_ok s" and "list_all readable (ss_credentials s)"
    and "issue_pending cfg True retry uuid tok m e now s = (Inr (c, t), s1)"
    and "uuid_canonical uuid" and "length (sc_hash cfg tok) = 64" and "int16_ok (sc_hash cfg tok)"
    and "later < now + ttl (sc_pending_ttl cfg)"
  shows "t = tok \<and> (\<exists>s2. service_activate cfg True uuid e tok later s1 = (Inr (set_active later c), s2) \<and>
    (\<forall>any. authenticate cfg tok any (ss_credentials s2) =
      Inr (Some \<lparr>cx_credential_id = uuid, cx_manager_id = m, cx_state = CActive\<rparr>)) \<and>
    (\<exists>s3. service_activate cfg True uuid e tok (later + 1) s2 = (Inr (set_active later c), s3) \<and>
      ss_credentials s3 = ss_credentials s2))"
proof -
  note rows1 = issue_pending_rows [OF assms(3,2,4-6)]
  then have c: "c = pending_record cfg uuid tok m e now" by blast
  let ?rows1 = "ss_credentials s1" and ?a = "set_active later c"
  have cf: "mc_credential_id c = uuid" "mc_enrollment_id c = e" "mc_token_hash c = sc_hash cfg tok"
    "mc_manager_id c = m" "mc_state c = CPending" "mc_pending_expires_at c = Some (now + ttl (sc_pending_ttl cfg))"
    by (simp_all add: c pending_record_def)
  have af: "mc_credential_id ?a = uuid" "mc_enrollment_id ?a = e" "mc_token_hash ?a = sc_hash cfg tok"
    "mc_manager_id ?a = m" "mc_state ?a = CActive"
    using cf by (simp_all add: set_active_def)
  obtain rows2 where act: "activate uuid e (sc_hash cfg tok) later ?rows1 = Inr (Some ?a, rows2)"
    and rows2: "credentials_unique rows2" "list_all readable rows2" "?a \<in> set rows2"
    using activate_pending [of ?rows1 c _ later] rows1 cf assms(7) by auto
  have "authenticate cfg tok later ?rows1 = Inr (Some (context_of c))"
    using rows1 cf assms(7) by (intro authenticate_known) auto
  then obtain s2 where s2: "service_activate cfg True uuid e tok later s1 = (Inr ?a, s2)" "ss_credentials s2 = rows2"
    using service_activate_known [of cfg tok later s1 c e] act cf rows1 assms(4) by auto
  have auth: "authenticate cfg tok any rows2 = Inr (Some (context_of ?a))" for any
    using rows2 af by (intro authenticate_known) auto
  have "activate uuid e (sc_hash cfg tok) again rows2 = Inr (Some ?a, rows2)" for again
    using activate_active [OF rows2] af by simp
  then have "\<exists>s3. service_activate cfg True uuid e tok (later + 1) s2 = (Inr ?a, s3) \<and> ss_credentials s3 = rows2"
    using service_activate_known [of cfg tok "later + 1" s2 ?a e] auth s2 af rows1 assms(4) by auto
  then show ?thesis using rows1 s2 auth af by (auto simp: context_of_def)
qed

definition empty_service :: service_state where
  "empty_service = \<lparr>ss_credentials = [], ss_audit = []\<rparr>"

theorem issued_credential_activates_witness:
  "\<exists>c s1 s2. issue_pending demo_config True False ''3f2504e0-4f89-41d3-9a0c-0305e82c3301'' ''abc''
      ''7d444840-9dc0-41d1-b245-5ffdce74fad2'' ''enr-1'' 0 empty_service = (Inr (c, ''abc''), s1) \<and>
    service_activate demo_config True ''3f2504e0-4f89-41d3-9a0c-0305e82c3301'' ''enr-1'' ''abc'' 7 s1 =
      (Inr (set_active 7 c), s2)"
proof -
  let ?u = "''3f2504e0-4f89-41d3-9a0c-0305e82c3301''" and ?m = "''7d444840-9dc0-41d1-b245-5ffdce74fad2''"
  have k: "uuid_canonical ?u" "uuid_canonical ?m" "enrollment_id_re ''enr-1''"
    "length (sc_hash demo_config ''abc'') = 64" "int16_ok (sc_hash demo_config ''abc'')"
    by code_simp+
  have "\<exists>c s1. issue_pending demo_config True False ?u ''abc'' ?m ''enr-1'' 0 empty_service = (Inr (c, ''abc''), s1)"
    using k by (simp add: issue_pending_def issue_def pending_count_def insert_credential_def
        empty_service_def demo_config_def credentials_unique_def Let_def rowcount_def log_entry_def)
  then obtain c s1 where i: "issue_pending demo_config True False ?u ''abc'' ?m ''enr-1'' 0 empty_service =
    (Inr (c, ''abc''), s1)" by blast
  have "service_ok empty_service" "list_all readable (ss_credentials empty_service)"
    "7 < (0::int) + ttl (sc_pending_ttl demo_config)"
    by (simp_all add: service_ok_def empty_service_def credentials_unique_def ttl_def demo_config_def)
  then show ?thesis
    using issued_credential_activates [OF _ _ i k(1,4,5), of 7] i by blast
qed

section \<open>Who may change what\<close>

lemma sql_update_lost:
  "c \<in> set rows \<Longrightarrow> c \<notin> set (sql_update P f rows) \<Longrightarrow> P c"
  by (auto simp: set_sql_update)

lemma issue_lost:
  assumes "issue_pending cfg up retry u tok m e now s = (r, s')"
    and "c \<in> set (ss_credentials s)" and "c \<notin> set (ss_credentials s')" and "credentials_unique (ss_credentials s)"
  shows "retry \<and> mc_enrollment_id c = e \<and> mc_manager_id c = m \<and>
    (mc_state c = CRevoked \<or> (mc_state c = CPending \<and> (\<exists>t. mc_pending_expires_at c = Some t \<and> t \<le> now)))"
proof -
  let ?rows = "ss_credentials s" and ?r = "pending_record cfg u tok m e now"
  have f: "mc_enrollment_id ?r = e" "mc_manager_id ?r = m" by (simp_all add: pending_record_def)
  have "\<exists>v. (if retry then reissue_expired ?r now (sc_max_pending cfg) ?rows else
      issue ?r now (sc_max_pending cfg) ?rows) = Inr (v, ss_credentials s')"
    using assms(1-3) by (auto simp: issue_pending_def Let_def split: if_splits sum.splits prod.splits)
  then obtain v where retry: retry and re: "reissue_expired ?r now (sc_max_pending cfg) ?rows = Inr (v, ss_credentials s')"
    using assms(2,3) by (auto dest: issue_rows split: if_splits)
  obtain x where x: "find (\<lambda>c. mc_enrollment_id c = e) ?rows = Some x" "retryable ?r now x"
    and rows': "ss_credentials s' = sql_update (\<lambda>y. mc_enrollment_id y = e \<and>
      mc_credential_id y = mc_credential_id x) (reissued ?r) ?rows"
    using re assms(2,3) by (auto simp: reissue_expired_def insert_credential_Some f Let_def eq_commute [of "ss_credentials s @ _"]
        split: if_splits option.splits)
  have c: "mc_enrollment_id c = e \<and> mc_credential_id c = mc_credential_id x"
    using sql_update_lost [OF assms(2)] assms(3) rows' by simp
  have "x \<in> set ?rows" using x(1) by (auto simp: find_Some_iff)
  then have "c = x" using credentials_table.uniq_same [of ?rows c x] c assms(2,4)
    by (auto simp: credentials_unique_def credential_ids_unique_def)
  then show ?thesis using retry c x(2) by (auto simp: retryable_def f split: option.splits)
qed

lemma activate_lost:
  assumes "service_activate cfg up i e tok now s = (r, s')"
    and "c \<in> set (ss_credentials s)" and "c \<notin> set (ss_credentials s')" and "credentials_unique (ss_credentials s)"
  shows "mc_credential_id c = i \<and> mc_enrollment_id c = e \<and> mc_token_hash c = sc_hash cfg tok \<and>
    mc_state c = CPending \<and> (\<exists>t. mc_pending_expires_at c = Some t \<and> now < t)"
proof -
  let ?rows = "ss_credentials s"
  obtain c' where act: "activate i e (sc_hash cfg tok) now ?rows = Inr (Some c', ss_credentials s')"
    using assms(1-3) by (auto simp: service_activate_def Let_def split: if_splits sum.splits prod.splits option.splits)
  then have rows': "ss_credentials s' = sql_update (\<lambda>x. mc_credential_id x = i \<and> mc_state x = CPending) (set_active now) ?rows"
    using assms(2,3) by (auto simp: activate_def Let_def split: if_splits option.splits)
  have c: "mc_credential_id c = i" "mc_state c = CPending"
    using sql_update_lost [OF assms(2) assms(3) [unfolded rows']] by simp_all
  then have "credential_get i ?rows = Some c" using credential_get_member [OF assms(4,2)] by simp
  then show ?thesis using act c by (auto simp: activate_def Let_def split: if_splits option.splits)
qed

lemma revoke_lost:
  assumes "service_revoke up i actor m now s = (r, s')"
    and "c \<in> set (ss_credentials s)" and "c \<notin> set (ss_credentials s')" and "credentials_unique (ss_credentials s)"
  shows "mc_credential_id c = i \<and> (actor = ''local-admin'' \<or> m = Some (mc_manager_id c)) \<and> mc_state c \<noteq> CRevoked"
proof -
  let ?rows = "ss_credentials s"
  obtain c' where rv: "revoke i now ?rows = Inr (Some c', ss_credentials s')"
    using assms(1-3) by (auto simp: service_revoke_def Let_def split: if_splits sum.splits prod.splits option.splits)
  then have rows': "ss_credentials s' = sql_update (\<lambda>x. mc_credential_id x = i \<and> mc_state x \<noteq> CRevoked) (set_revoked now) ?rows"
    using assms(2,3) by (auto simp: revoke_def Let_def split: if_splits option.splits)
  have c: "mc_credential_id c = i" "mc_state c \<noteq> CRevoked"
    using sql_update_lost [OF assms(2) assms(3) [unfolded rows']] by simp_all
  then have "credential_get i ?rows = Some c" using credential_get_member [OF assms(4,2)] by simp
  then show ?thesis
    using assms(1-3) c by (auto simp: service_revoke_def Let_def split: if_splits sum.splits prod.splits option.splits)
qed

fun authorised :: "service_config \<Rightarrow> service_op \<Rightarrow> manager_credential \<Rightarrow> bool" where
  "authorised cfg (SIssue _ retry _ _ m e now) c \<longleftrightarrow> retry \<and> mc_enrollment_id c = e \<and> mc_manager_id c = m \<and>
     (mc_state c = CRevoked \<or> (mc_state c = CPending \<and> (\<exists>t\<in>set_option (mc_pending_expires_at c). t \<le> now)))"
| "authorised cfg (SActivate _ i e tok now) c \<longleftrightarrow> mc_credential_id c = i \<and> mc_enrollment_id c = e \<and>
     mc_token_hash c = sc_hash cfg tok \<and> mc_state c = CPending \<and>
     (\<exists>t\<in>set_option (mc_pending_expires_at c). now < t)"
| "authorised cfg (SRevoke _ i actor m now) c \<longleftrightarrow> mc_credential_id c = i \<and>
     (actor = ''local-admin'' \<or> m = Some (mc_manager_id c)) \<and> mc_state c \<noteq> CRevoked"

text \<open>
  Every change to a stored credential is authorised: a call that alters a row of the
  table either activates it with the matching id, enrollment id and token before it expires,
  or revokes it for the local administrator or its own manager, or re-issues the same
  enrollment to the same manager after the credential expired or was revoked.  No credential
  row is ever changed in another way, and none disappears.
\<close>

theorem credential_changes_are_authorised:
  assumes "service_ok s" and "run_service cfg x s = Inr (v, s')"
    and "c \<in> set (ss_credentials s)" and "c \<notin> set (ss_credentials s')"
  shows "authorised cfg x c \<and> length (ss_credentials s') = length (ss_credentials s)"
proof -
  have u: "credentials_unique (ss_credentials s)" using assms(1) by (simp add: service_ok_def)
  have "authorised cfg x c"
  proof (cases x)
    case (SIssue up retry u' tok m e now)
    then show ?thesis using assms(2-4) u issue_lost [of cfg up retry u' tok m e now s _ s' c]
      by (cases "issue_pending cfg up retry u' tok m e now s") (auto simp: outcome_def)
  next
    case (SActivate up i e tok now)
    then show ?thesis using assms(2-4) u activate_lost [of cfg up i e tok now s _ s' c]
      by (cases "service_activate cfg up i e tok now s") (auto simp: outcome_def)
  next
    case (SRevoke up i actor m now)
    then show ?thesis using assms(2-4) u revoke_lost [of up i actor m now s _ s' c]
      by (cases "service_revoke up i actor m now s") (auto simp: outcome_def)
  qed
  moreover have "length (ss_credentials s') = length (ss_credentials s)"
    using run_service_rows [OF assms(2)] assms(3,4) by (cases rule: rows_step.cases) (auto simp: length_sql_update)
  ultimately show ?thesis ..
qed

theorem credential_changes_are_authorised_witness:
  "authorised demo_config (SRevoke True ''3f2504e0-4f89-41d3-9a0c-0305e82c3301'' ''manager:x''
      (Some ''7d444840-9dc0-41d1-b245-5ffdce74fad2'') 9) (demo_credential CActive)"
proof -
  let ?x = "SRevoke True ''3f2504e0-4f89-41d3-9a0c-0305e82c3301'' ''manager:x''
      (Some ''7d444840-9dc0-41d1-b245-5ffdce74fad2'') 9" and ?s = "demo_state CActive" and ?c = "demo_credential CActive"
  have ok: "service_ok ?s" "?c \<in> set (ss_credentials ?s)"
    by (simp_all add: service_ok_def demo_state_def demo_credential_def credentials_unique_def)
  have r: "uuid_canonical ''3f2504e0-4f89-41d3-9a0c-0305e82c3301''" "uuid_canonical ''7d444840-9dc0-41d1-b245-5ffdce74fad2''"
    "readable ?c" "readable (set_revoked 9 ?c)"
    by code_simp+
  have f: "mc_credential_id ?c = ''3f2504e0-4f89-41d3-9a0c-0305e82c3301''" "mc_state ?c = CActive"
    "mc_manager_id ?c = ''7d444840-9dc0-41d1-b245-5ffdce74fad2''" "ss_credentials ?s = [?c]"
    by (simp_all add: demo_credential_def demo_state_def)
  have i: "mc_credential_id (set_revoked 9 ?c) = ''3f2504e0-4f89-41d3-9a0c-0305e82c3301''"
    using f by (simp add: set_revoked_def)
  have "\<exists>v s'. run_service demo_config ?x ?s = Inr (v, s') \<and> ss_credentials s' = [set_revoked 9 ?c]"
    using r f i by (simp add: outcome_def service_revoke_def revoke_def credential_get_def sql_update_def Let_def)
  then obtain v s' where s': "run_service demo_config ?x ?s = Inr (v, s')" "ss_credentials s' = [set_revoked 9 ?c]" by blast
  moreover have "?c \<noteq> set_revoked 9 ?c" by (simp add: set_revoked_def demo_credential_def)
  ultimately show ?thesis using credential_changes_are_authorised [OF ok(1) s'(1) ok(2)] by simp
qed

end
