(* ===== verification/Py_Json.thy ===== *)
theory Py_Json
  imports Fleet_Models
begin

text \<open>
  The part of \<open>json.dumps\<close> that \<open>enrollment_input_fingerprint\<close> of \<open>enrollment/jobs.py\<close> uses:
  strings with \<open>ensure_ascii\<close> (the escapes of \<open>json.encoder\<close>), integers and \<open>null\<close>.  Main
  result: a serialised value followed by its delimiter can be read back in one way only.
\<close>

abbreviation quote :: char where "quote \<equiv> CHR 0x22"
abbreviation backslash :: char where "backslash \<equiv> CHR 0x5C"
abbreviation comma :: char where "comma \<equiv> CHR 0x2C"

definition short_escapes :: "(char \<times> char) list" where
  "short_escapes = [(quote, quote), (backslash, backslash), (CHR 0x0A, CHR ''n''),
     (CHR 0x0D, CHR ''r''), (CHR 0x09, CHR ''t''), (CHR 0x0C, CHR ''f''), (CHR 0x08, CHR ''b'')]"

definition json_char :: "char \<Rightarrow> string" where
  "json_char c = (let n = (of_char c :: nat) in
     case map_of short_escapes c of
       Some e \<Rightarrow> [backslash, e]
     | None \<Rightarrow>
         if 32 \<le> n \<and> n \<le> 126 then [c]
         else [backslash, CHR ''u'', CHR ''0'', CHR ''0'', digit_char (n div 16), digit_char (n mod 16)])"

definition json_string :: "string \<Rightarrow> string" where
  "json_string s = [quote] @ concat (map json_char s) @ [quote]"

definition json_opt_string :: "string option \<Rightarrow> string" where
  "json_opt_string x = (case x of None \<Rightarrow> ''null'' | Some s \<Rightarrow> json_string s)"

definition json_opt_int :: "int option \<Rightarrow> string" where
  "json_opt_int x = (case x of None \<Rightarrow> ''null'' | Some n \<Rightarrow> show_int n)"

section \<open>Reading back\<close>

definition json_read :: "string \<Rightarrow> (char \<times> string) option" where
  "json_read s = (case s of
     [] \<Rightarrow> None
   | x # r \<Rightarrow> if x \<noteq> backslash then Some (x, r)
       else (case r of
         [] \<Rightarrow> None
       | y # r' \<Rightarrow> (case map_of (map prod.swap short_escapes) y of
           Some c \<Rightarrow> Some (c, r')
         | None \<Rightarrow> Some (char_of (16 * digit_val (r' ! 2) + digit_val (r' ! 3)), drop 4 r'))))"

lemma digit_val_char: "n < 16 \<Longrightarrow> digit_val (digit_char n) = n"
  by (auto simp: digit_val_def digit_char_def)

lemma json_read_char: "json_read (json_char c @ r) = Some (c, r)"
proof (cases "map_of short_escapes c")
  case (Some e)
  then show ?thesis
    by (auto simp: json_char_def json_read_def short_escapes_def split: if_splits)
next
  case None
  have n: "(of_char c :: nat) div 16 < 16" "(of_char c :: nat) mod 16 < 16"
    using nat_of_char_less_256 [of c] by (simp_all add: less_mult_imp_div_less)
  show ?thesis
    using None n by (auto simp: json_char_def json_read_def short_escapes_def digit_val_char Let_def split: if_splits)
qed

lemma json_char_prefix_free:
  assumes "json_char c @ r = json_char c' @ r'"
  shows "c = c' \<and> r = r'"
proof -
  have "Some (c, r) = Some (c', r')"
    unfolding json_read_char [symmetric] assms ..
  then show ?thesis by simp
qed

lemma json_char_hd: "json_char c \<noteq> [] \<and> hd (json_char c @ r) \<noteq> quote"
  by (auto simp: json_char_def short_escapes_def Let_def)

lemma json_chars_prefix_free:
  "concat (map json_char s) @ quote # r = concat (map json_char s') @ quote # r' \<Longrightarrow> s = s' \<and> r = r'"
proof (induction s arbitrary: s')
  case Nil
  then show ?case using json_char_hd by (cases s') (auto, metis hd_append2 list.sel(1))
next
  case (Cons c s)
  show ?case
  proof (cases s')
    case Nil
    then show ?thesis using Cons.prems json_char_hd [of c] by (auto, metis hd_append2 list.sel(1))
  next
    case s': (Cons c' t)
    then have "json_char c @ (concat (map json_char s) @ quote # r) =
        json_char c' @ (concat (map json_char t) @ quote # r')"
      using Cons.prems by simp
    from json_char_prefix_free [OF this] have "c = c'"
      and "concat (map json_char s) @ quote # r = concat (map json_char t) @ quote # r'" by auto
    with Cons.IH s' show ?thesis by blast
  qed
qed

lemma json_string_prefix_free: "json_string s @ r = json_string s' @ r' \<Longrightarrow> s = s' \<and> r = r'"
  using json_chars_prefix_free [of s r s' r'] by (simp add: json_string_def)

lemma json_opt_string_prefix_free:
  "json_opt_string x @ r = json_opt_string x' @ r' \<Longrightarrow> x = x' \<and> r = r'"
  by (cases x; cases x') (auto simp: json_opt_string_def json_string_def dest: json_chars_prefix_free)

lemma json_opt_string_inj: "json_opt_string x = json_opt_string x' \<Longrightarrow> x = x'"
  using json_opt_string_prefix_free [of x "[]" x' "[]"] by simp

section \<open>Integers\<close>

lemma read_show_base: "2 \<le> b \<Longrightarrow> b \<le> 16 \<Longrightarrow> read_base b (show_base b n) = n"
proof (induction b n rule: show_base.induct)
  case (1 b n)
  show ?case
  proof (cases "n < b")
    case True
    then show ?thesis using 1 by (simp add: show_base.simps [of b n] read_base_def digit_val_char)
  next
    case False
    moreover have "n mod b < 16" using 1 by (metis mod_less_divisor less_le_trans zero_less_numeral)
    ultimately show ?thesis
      using 1 by (simp add: show_base.simps [of b n] read_base_def digit_val_char)
  qed
qed

lemma show_base_hex: "c \<in> set (show_base 10 n) \<Longrightarrow> is_lower_hex c"
  using show_base_chars [of 10 n] by (simp add: list_all_iff)

lemma show_int_chars: "c \<in> set (show_int n) \<Longrightarrow> is_lower_hex c \<or> c = CHR ''-''"
  by (auto simp: show_int_def dest: show_base_hex split: if_splits)

lemma show_base_not_minus: "show_base 10 n \<noteq> CHR ''-'' # s"
proof
  assume "show_base 10 n = CHR ''-'' # s"
  then have "CHR ''-'' \<in> set (show_base 10 n)" by simp
  then show False by (auto dest!: show_base_hex simp: is_lower_hex_def is_digit_def)
qed

lemma show_base_inj: "show_base 10 m = show_base 10 n \<Longrightarrow> m = n"
  by (drule arg_cong [where f = "read_base 10"]) (simp add: read_show_base)

lemma show_int_inj:
  assumes "show_int m = show_int n"
  shows "m = n"
proof (cases "m < 0 \<longleftrightarrow> n < 0")
  case True
  then have "nat \<bar>m\<bar> = nat \<bar>n\<bar>"
    using assms by (intro show_base_inj) (simp add: show_int_def split: if_splits)
  then show ?thesis using True by linarith
next
  case False
  then have "CHR ''-'' # show_base 10 (nat (- m)) = show_base 10 (nat n) \<or>
      show_base 10 (nat m) = CHR ''-'' # show_base 10 (nat (- n))"
    using assms by (auto simp: show_int_def split: if_splits)
  then show ?thesis using show_base_not_minus by metis
qed

lemma show_int_not_null: "show_int n \<noteq> ''null''"
proof
  assume "show_int n = ''null''"
  then have "CHR ''n'' \<in> set (show_int n)" by simp
  then show False by (auto dest!: show_int_chars simp: is_lower_hex_def is_digit_def)
qed

lemma json_opt_int_inj: "json_opt_int x = json_opt_int y \<Longrightarrow> x = y"
  using show_int_not_null
  by (cases x; cases y) (simp_all add: json_opt_int_def show_int_inj, metis)

lemma json_opt_int_no_comma: "comma \<notin> set (json_opt_int x)"
  by (cases x) (auto simp: json_opt_int_def is_lower_hex_def is_digit_def dest!: show_int_chars)

lemma json_opt_int_prefix_free:
  assumes "json_opt_int x @ comma # r = json_opt_int y @ comma # r'"
  shows "x = y \<and> r = r'"
proof -
  have "s = s' \<and> r = r'" if "s @ comma # r = s' @ comma # r'" "comma \<notin> set s" "comma \<notin> set s'" for s s'
    using that
  proof (induction s arbitrary: s')
    case Nil then show ?case by (cases s') auto
  next
    case (Cons a s) then show ?case by (cases s') auto
  qed
  then show ?thesis using assms json_opt_int_no_comma json_opt_int_inj by blast
qed

end
