(* ===== verification/Enrollment_Jobs.thy ===== *)
theory Enrollment_Jobs
  imports Journal_Lifecycle Py_Json
begin

text \<open>
  \<open>EnrollmentJobs\<close> of \<open>enrollment/jobs.py\<close>, the API's view of the enrollment journal: it builds
  the job from a request, translates the repository's exceptions into the codes the API
  reports, expires a job on reading it, and takes the two user decisions \<open>cancel\<close> and
  \<open>consume\<close> (save).

  \<open>get\<close>, \<open>cancel\<close> and \<open>consume\<close> run several transactions one after the other.  What other
  threads and processes commit in between is an argument: \<open>jobs_get\<close> takes the effect
  of the others between its read and its write (\<open>o1\<close>) and between a failed write and the
  second read (\<open>o2\<close>); \<open>cancel\<close> and \<open>consume\<close> also between the returned job and their own
  write (\<open>o3\<close>).  A call returns its result with the database it leaves, because \<open>get\<close> may
  commit the expiry before a later step raises.  \<open>uuid4()\<close> and SHA-256 are arguments.
\<close>

section \<open>Requests and errors\<close>

datatype job_error =
    EnrollmentConflict string
  | JournalError registry_error

record enrollment_job_request =
  q_normalized_endpoint :: string
  q_transport_profile_id :: string
  q_display_name :: "string option"
  q_ssh_user :: "string option"
  q_ssh_host :: "string option"
  q_ssh_port :: "int option"
  q_enrollment_method :: enrollment_method
  q_discovery_result_id :: "string option"
  q_replace_agent_id :: "string option"

record jobs_config =
  jc_manager_id :: string
  jc_pending_ttl_seconds :: int
  jc_max_active :: int
  jc_discovery_retention_seconds :: int

text \<open>The serialised payload: \<open>sort_keys=True\<close>, \<open>separators=(",", ":")\<close>.\<close>

definition fingerprint_payload :: "enrollment_job_request \<Rightarrow> string" where
  "fingerprint_payload q =
     ''{'' @ json_string ''endpoint'' @ '':'' @ json_string (q_normalized_endpoint q) @ '','' @
     json_string ''profile'' @ '':'' @ json_string (q_transport_profile_id q) @ '','' @
     json_string ''ssh_host'' @ '':'' @ json_opt_string (q_ssh_host q) @ '','' @
     json_string ''ssh_port'' @ '':'' @ json_opt_int (q_ssh_port q) @ '','' @
     json_string ''ssh_user'' @ '':'' @ json_opt_string (q_ssh_user q) @ ''}''"

definition enrollment_input_fingerprint :: "(string \<Rightarrow> string) \<Rightarrow> enrollment_job_request \<Rightarrow> string" where
  "enrollment_input_fingerprint sha256 q = sha256 (fingerprint_payload q)"

definition job_request :: "enrollment_job \<Rightarrow> enrollment_job_request" where
  "job_request j = \<lparr>q_normalized_endpoint = j_normalized_endpoint j,
     q_transport_profile_id = j_transport_profile_id j, q_display_name = None,
     q_ssh_user = j_ssh_user j, q_ssh_host = j_ssh_host j, q_ssh_port = j_ssh_port j,
     q_enrollment_method = j_enrollment_method j, q_discovery_result_id = None,
     q_replace_agent_id = None\<rparr>"

definition job_input_fingerprint :: "(string \<Rightarrow> string) \<Rightarrow> enrollment_job \<Rightarrow> string" where
  "job_input_fingerprint sha256 j = enrollment_input_fingerprint sha256 (job_request j)"

section \<open>Creation\<close>

definition requested_job ::
  "jobs_config \<Rightarrow> enrollment_job_request \<Rightarrow> string \<Rightarrow> enrollment_state \<Rightarrow> instant \<Rightarrow> enrollment_job" where
  "requested_job cfg q e st now = \<lparr>j_enrollment_id = e, j_manager_id = jc_manager_id cfg, j_state = st,
     j_normalized_endpoint = q_normalized_endpoint q,
     j_transport_profile_id = q_transport_profile_id q,
     j_discovery_result_id = q_discovery_result_id q, j_replace_agent_id = q_replace_agent_id q,
     j_requested_display_name = q_display_name q, j_ssh_user = q_ssh_user q,
     j_ssh_host = q_ssh_host q, j_ssh_port = q_ssh_port q,
     j_enrollment_method = q_enrollment_method q, j_remote_instance_id = None,
     j_remote_credential_id = None, j_credential_temp_ref = None, j_old_credential_ref = None,
     j_old_remote_credential_id = None, j_save_requested = False,
     j_expires_at = now + seconds (jc_pending_ttl_seconds cfg), j_last_error_code = None,
     j_created_at = now, j_updated_at = now, j_recovery_owner = None,
     j_recovery_lease_until = None, j_recovery_revision = 0, j_validated_http_address = None,
     j_cli_resume_nonce = None, j_cli_peer_uid = None, j_cli_input_fingerprint = None,
     j_cli_pinned_address = None, j_cli_accept_receipt = None, j_old_normalized_endpoint = None,
     j_old_transport_profile_id = None, j_old_instance_id = None, j_old_registry_revision = None,
     j_old_enrollment_method = None, j_old_source = None, j_old_enabled = None,
     j_old_display_name = None\<rparr>"

text \<open>
  \<open>except RegistryConflict\<close>: the listed codes pass through, any other becomes
  \<open>agent_enrollment_conflict\<close>; the other exceptions of the repository are not caught.
\<close>

definition translate :: "string list \<Rightarrow> registry_error \<Rightarrow> job_error" where
  "translate codes e = (case e of
     RegistryConflict code \<Rightarrow> EnrollmentConflict (if code \<in> set codes then code else ''agent_enrollment_conflict'')
   | _ \<Rightarrow> JournalError e)"

type_synonym 'a jobs_call = "manager_db \<Rightarrow> (job_error + 'a) \<times> manager_db"

definition settle :: "(registry_error \<Rightarrow> job_error) \<Rightarrow> 'a repo \<Rightarrow> 'a jobs_call" where
  "settle f r d = (case r d of Inl e \<Rightarrow> (Inl (f e), d) | Inr (v, d') \<Rightarrow> (Inr v, d'))"

definition create_codes :: "string list" where
  "create_codes = [''agent_enrollment_capacity'', ''agent_validation_changed'', ''transport_profile_mismatch'']"

definition jobs_create ::
  "jobs_config \<Rightarrow> string \<Rightarrow> string option \<Rightarrow> enrollment_job_request \<Rightarrow> enrollment_state \<Rightarrow> instant
     \<Rightarrow> enrollment_job jobs_call" where
  "jobs_create cfg uuid enrollment_id q st now =
     (let job = requested_job cfg q (case enrollment_id of Some e \<Rightarrow> e | None \<Rightarrow> uuid) st now in
      settle (translate create_codes)
        (if q_discovery_result_id q \<noteq> None
         then create_discovery_with_capacity job now (jc_max_active cfg) (jc_discovery_retention_seconds cfg)
         else create_with_capacity job now (jc_max_active cfg)))"

definition rotation_codes :: "string list" where
  "rotation_codes = [''agent_not_found'', ''agent_enrollment_capacity'', ''agent_mutation_in_progress'']"

definition jobs_create_rotation ::
  "jobs_config \<Rightarrow> string \<Rightarrow> enrollment_job_request \<Rightarrow> instant \<Rightarrow> enrollment_job jobs_call" where
  "jobs_create_rotation cfg uuid q now =
     (if q_replace_agent_id q = None then (\<lambda>d. (Inl (EnrollmentConflict ''agent_not_found''), d))
      else settle (translate rotation_codes)
        (create_rotation_with_capacity
          ((requested_job cfg q uuid PENDING now)\<lparr>j_discovery_result_id := None\<rparr>) now (jc_max_active cfg)))"

definition jobs_rearm_expired_local ::
  "jobs_config \<Rightarrow> enrollment_job_request \<Rightarrow> string \<Rightarrow> instant \<Rightarrow> enrollment_job jobs_call" where
  "jobs_rearm_expired_local cfg q e now =
     (if q_enrollment_method q \<noteq> LOCAL_SOCKET
      then (\<lambda>d. (Inl (EnrollmentConflict ''agent_enrollment_conflict''), d))
      else settle (translate [''local_bootstrap_retry_pending''])
        (rearm_expired_local e (q_normalized_endpoint q) (q_transport_profile_id q)
          (case q_display_name q of Some n \<Rightarrow> n | None \<Rightarrow> []) now
          (now + seconds (jc_pending_ttl_seconds cfg))))"

section \<open>Reading, cancelling, saving\<close>

type_synonym interference = "manager_db \<Rightarrow> manager_db"

definition jobs_get :: "string \<Rightarrow> instant \<Rightarrow> interference \<Rightarrow> interference \<Rightarrow> enrollment_job jobs_call" where
  "jobs_get e now o1 o2 d =
     (case journal_get e d of
        None \<Rightarrow> (Inl (EnrollmentConflict ''agent_enrollment_not_found''), d)
      | Some job \<Rightarrow>
        if expirable (j_state job) \<and> j_expires_at job \<le> now then
          let d1 = o1 d in
          (case replace_if_state (set_expired_cleared now job) (j_state job) None None None d1 of
             Inr (job', d2) \<Rightarrow> (Inr job', d2)
           | Inl RevisionConflict \<Rightarrow>
               let d2 = o2 d1 in (Inr (case journal_get e d2 of Some job' \<Rightarrow> job' | None \<Rightarrow> job), d2)
           | Inl err \<Rightarrow> (Inl (JournalError err), d1))
        else (Inr job, d))"

definition replace_or_conflict ::
  "enrollment_job \<Rightarrow> enrollment_state \<Rightarrow> enrollment_job jobs_call" where
  "replace_or_conflict job st =
     settle (\<lambda>err. if err = RevisionConflict then EnrollmentConflict ''agent_enrollment_conflict''
       else JournalError err) (replace_if_state job st None None None)"

definition set_cancelled :: "instant \<Rightarrow> enrollment_job \<Rightarrow> enrollment_job" where
  "set_cancelled now j = (clear_claims j)\<lparr>j_state := CANCELLED, j_updated_at := now\<rparr>"

definition jobs_cancel ::
  "string \<Rightarrow> instant \<Rightarrow> interference \<Rightarrow> interference \<Rightarrow> interference \<Rightarrow> enrollment_job jobs_call" where
  "jobs_cancel e now o1 o2 o3 d =
     (case jobs_get e now o1 o2 d of
        (Inl err, d1) \<Rightarrow> (Inl err, d1)
      | (Inr job, d1) \<Rightarrow>
        if j_state job = EXPIRED then (Inl (EnrollmentConflict ''agent_enrollment_expired''), d1)
        else if j_state job \<notin> {PENDING, RUNNING, AWAITING_CLI, CREDENTIAL_ISSUED, VERIFYING, VERIFIED}
        then (Inl (EnrollmentConflict ''agent_enrollment_not_cancellable''), d1)
        else replace_or_conflict (set_cancelled now job) (j_state job) (o3 d1))"

definition jobs_consume ::
  "(string \<Rightarrow> string) \<Rightarrow> string \<Rightarrow> string \<Rightarrow> string \<Rightarrow> instant
     \<Rightarrow> interference \<Rightarrow> interference \<Rightarrow> interference \<Rightarrow> enrollment_job jobs_call" where
  "jobs_consume sha256 e display_name input_fingerprint now o1 o2 o3 d =
     (case jobs_get e now o1 o2 d of
        (Inl err, d1) \<Rightarrow> (Inl err, d1)
      | (Inr job, d1) \<Rightarrow>
        if j_state job = CONSUMED then (Inl (EnrollmentConflict ''agent_enrollment_consumed''), d1)
        else if j_state job = EXPIRED then (Inl (EnrollmentConflict ''agent_enrollment_expired''), d1)
        else if j_state job \<noteq> VERIFIED then (Inl (EnrollmentConflict ''agent_enrollment_not_verified''), d1)
        else if input_fingerprint \<noteq> job_input_fingerprint sha256 job
        then (Inl (EnrollmentConflict ''agent_enrollment_input_changed''), d1)
        else replace_or_conflict (set_saved display_name now job) VERIFIED (o3 d1))"

definition consume_rotation_codes :: "string list" where
  "consume_rotation_codes = [''agent_enrollment_not_found'', ''agent_enrollment_consumed'',
     ''agent_enrollment_expired'', ''agent_enrollment_not_verified'', ''agent_enrollment_conflict'',
     ''agent_not_found'', ''agent_changed'', ''agent_mutation_in_progress'']"

definition jobs_consume_rotation :: "string \<Rightarrow> string \<Rightarrow> string \<Rightarrow> instant \<Rightarrow> enrollment_job jobs_call" where
  "jobs_consume_rotation e agent_id display_name now =
     settle (\<lambda>err. if err = RevisionConflict then EnrollmentConflict ''agent_enrollment_conflict''
       else translate consume_rotation_codes err) (consume_rotation e agent_id display_name now)"

section \<open>The fingerprint\<close>

text \<open>
  The input fingerprint binds the target: two requests have the same serialised
  payload exactly when they name the same endpoint, transport profile and SSH user, host and
  port, whatever characters these contain.  With a collision-free hash a save is therefore
  accepted only for the target that was validated.
\<close>

theorem fingerprint_binds_target:
  "fingerprint_payload q = fingerprint_payload q' \<longleftrightarrow>
     q_normalized_endpoint q = q_normalized_endpoint q' \<and>
     q_transport_profile_id q = q_transport_profile_id q' \<and> q_ssh_host q = q_ssh_host q' \<and>
     q_ssh_port q = q_ssh_port q' \<and> q_ssh_user q = q_ssh_user q'"
    (is "?l \<longleftrightarrow> ?r")
proof
  assume ?r
  then show ?l by (simp add: fingerprint_payload_def)
next
  assume ?l
  then show ?r
    by (auto simp: fingerprint_payload_def
        dest!: json_string_prefix_free json_opt_string_prefix_free json_opt_int_prefix_free
          json_opt_string_inj)
qed

section \<open>One decision per enrollment\<close>

datatype decision = Cancel instant | Save string string instant

fun decide :: "(string \<Rightarrow> string) \<Rightarrow> decision \<Rightarrow> string \<Rightarrow> interference \<Rightarrow> interference \<Rightarrow> interference
    \<Rightarrow> enrollment_job jobs_call" where
  "decide sha256 (Cancel now) e o1 o2 o3 = jobs_cancel e now o1 o2 o3"
| "decide sha256 (Save name fp now) e o1 o2 o3 = jobs_consume sha256 e name fp now o1 o2 o3"

definition keeps_schema :: "interference \<Rightarrow> bool" where
  "keeps_schema f \<longleftrightarrow> (\<forall>d. db_ok d \<longrightarrow> db_ok (f d))"

lemma keeps_schema_history: "keeps_schema (history run_journal xs)"
  by (simp add: keeps_schema_def journal.history_inv)

lemma replace_unfenced:
  assumes "db_ok d" and "replace_if_state j st None None None d = Inr (v, d')"
  shows "v = j \<and> valid_job j \<and> j_state j \<in> set (allowed_transitions st) \<and>
    journal_get (j_enrollment_id j) d' = Some j \<and> db_ok d' \<and>
    (\<exists>j0. journal_get (j_enrollment_id j) d = Some j0 \<and> j_state j0 = st)"
proof -
  let ?P = "\<lambda>r. row_id r = j_enrollment_id j \<and> j_state (row_job r) = st"
  have u: "update_jobs ?P (set_job (\<lambda>x. j\<lparr>j_enrollment_id := j_enrollment_id x\<rparr>)) d = Some d'"
    and v: "v = j" "valid_job j" "j_state j \<in> set (allowed_transitions st)" "rowcount ?P (db_jobs d) = Suc 0"
    using assms(2) by (auto simp: replace_if_state_def fence_matches_def Let_def
        split: sum.splits if_splits option.splits)
  obtain r where r: "r \<in> set (db_jobs d)" "?P r"
    using v(4) jobs_table.rowcount_key_1 [OF db_ok_unique [OF assms(1)], of "j_enrollment_id j"
      "\<lambda>r. j_state (row_job r) = st"] by auto
  have f: "find (\<lambda>x. row_id x = j_enrollment_id j) (db_jobs d) = Some r"
    using jobs_table.find_key_iff [OF db_ok_unique [OF assms(1)]] r by blast
  have "journal_get (j_enrollment_id j) d' = Some j"
    using journal_get_update [OF assms(1) u, of "j_enrollment_id j"] f r(2) by simp
  moreover have "db_ok d'" by (rule update_jobs_set_job_ok [OF assms(1) u]) simp
  ultimately show ?thesis using v f r(2) by (simp add: journal_get_def)
qed

lemma replace_or_conflict_Inr:
  "replace_or_conflict j st d = (Inr v, d') \<longleftrightarrow> replace_if_state j st None None None d = Inr (v, d')"
  by (auto simp: replace_or_conflict_def settle_def split: sum.splits)

lemma jobs_get_job:
  assumes "db_ok d" and "keeps_schema o1" and "keeps_schema o2" and "jobs_get e now o1 o2 d = (r, d')"
  shows "db_ok d' \<and> (\<forall>j. r = Inr j \<longrightarrow> j_enrollment_id j = e)"
proof (cases "journal_get e d")
  case None
  then show ?thesis using assms(1,4) by (auto simp: jobs_get_def)
next
  case (Some job)
  then have e: "j_enrollment_id job = e" by (rule journal_get_id)
  have o: "db_ok (o1 d)" "db_ok (o2 (o1 d))" using assms(1-3) by (auto simp: keeps_schema_def)
  have "r = Inr j' \<Longrightarrow> j_enrollment_id j' = e" for j'
    using assms(4) Some e
    by (auto simp: jobs_get_def Let_def dest: journal_get_id dest!: replace_unfenced [OF o(1)]
        split: if_splits sum.splits prod.splits registry_error.splits option.splits)
  moreover have "db_ok d'"
    using assms(1,4) Some o
    by (auto simp: jobs_get_def Let_def dest!: replace_unfenced [OF o(1)] split: if_splits sum.splits prod.splits registry_error.splits)
  ultimately show ?thesis by blast
qed

lemma set_cancelled_simps [simp]:
  "j_enrollment_id (set_cancelled now j) = j_enrollment_id j" "j_state (set_cancelled now j) = CANCELLED"
  by (simp_all add: set_cancelled_def clear_claims_def)

lemma cancel_Inr:
  assumes "jobs_cancel e now o1 o2 o3 d = (Inr j, d')"
  obtains job d1 where "jobs_get e now o1 o2 d = (Inr job, d1)" and "expirable (j_state job)"
    and "replace_if_state (set_cancelled now job) (j_state job) None None None (o3 d1) = Inr (j, d')"
  using assms that
  by (auto simp: jobs_cancel_def replace_or_conflict_Inr expirable_def split: prod.splits sum.splits if_splits)

lemma consume_Inr:
  assumes "jobs_consume sha256 e n fp now o1 o2 o3 d = (Inr j, d')"
  obtains job d1 where "jobs_get e now o1 o2 d = (Inr job, d1)" and "j_state job = VERIFIED"
    and "fp = job_input_fingerprint sha256 job"
    and "replace_if_state (set_saved n now job) VERIFIED None None None (o3 d1) = Inr (j, d')"
  using assms that
  by (auto simp: jobs_consume_def replace_or_conflict_Inr split: prod.splits sum.splits if_splits)

lemma decide_decides:
  assumes "db_ok d" and "keeps_schema o1" and "keeps_schema o2" and "keeps_schema o3"
    and "decide sha256 x e o1 o2 o3 d = (Inr j, d')"
  shows "db_ok d' \<and> journal_get e d' = Some j \<and> \<not> expirable (j_state j)"
proof -
  obtain now job d1 st v where g: "jobs_get e now o1 o2 d = (Inr job, d1)"
    and v: "j_enrollment_id v = j_enrollment_id job" "\<not> expirable (j_state v)"
    and rep: "replace_if_state v st None None None (o3 d1) = Inr (j, d')"
  proof (cases x)
    case (Cancel now)
    then have "jobs_cancel e now o1 o2 o3 d = (Inr j, d')" using assms(5) by simp
    then show thesis
      by (rule cancel_Inr) (rule that [rotated 3], assumption, auto simp: expirable_def)
  next
    case (Save n fp now)
    then have "jobs_consume sha256 e n fp now o1 o2 o3 d = (Inr j, d')" using assms(5) by simp
    then show thesis
      by (rule consume_Inr) (rule that [rotated 3], assumption, auto simp: expirable_def set_saved_def)
  qed
  have "db_ok (o3 d1)" "j_enrollment_id job = e"
    using jobs_get_job [OF assms(1-3) g] assms(4) by (auto simp: keeps_schema_def)
  then show ?thesis using replace_unfenced [OF _ rep] v by auto
qed

text \<open>A job that is past its decision is not touched by another one, whatever happens meanwhile.\<close>

lemma decided_rejects:
  assumes "journal_get e d = Some j" and "\<not> expirable (j_state j)"
  shows "\<exists>code. decide sha256 x e o1 o2 o3 d = (Inl (EnrollmentConflict code), d)"
  using assms
  by (cases x; cases "j_state j") (auto simp: jobs_cancel_def jobs_consume_def jobs_get_def expirable_def)

lemma decided_step:
  "journal_step x a b \<Longrightarrow> \<not> rearms e x \<Longrightarrow> j_enrollment_id a = e \<and> \<not> expirable (j_state a) \<Longrightarrow>
   j_enrollment_id b = e \<and> \<not> expirable (j_state b)"
  by (erule journal_step.cases; cases "j_state a") (auto simp: set_clause_defs expirable_def recoverable_def)

text \<open>
  \<open>C18\<close>.  One decision per enrollment: once a cancellation or a save of an enrollment has
  succeeded, with any interference of other processes, every later cancellation or save of it
  fails with an \<open>EnrollmentConflict\<close> and writes nothing, in every history of the journal in
  which the enrollment is not re-armed.
\<close>

theorem one_decision_per_enrollment:
  assumes "db_ok d" and "keeps_schema o1" and "keeps_schema o2" and "keeps_schema o3"
    and "decide sha256 x e o1 o2 o3 d = (Inr j, d')"
    and "\<forall>y\<in>set xs. \<not> rearms e y"
  shows "\<exists>code. decide sha256 x' e p1 p2 p3 (history run_journal xs d') =
    (Inl (EnrollmentConflict code), history run_journal xs d')"
proof -
  have d': "db_ok d'" "journal_get e d' = Some j" "\<not> expirable (j_state j)"
    using decide_decides [OF assms(1-5)] by auto
  obtain j' where "journal_get e (history run_journal xs d') = Some j'"
    and "j_enrollment_id j' = e \<and> \<not> expirable (j_state j')"
    using history_job_inv [OF d'(1,2), of "\<lambda>j. j_enrollment_id j = e \<and> \<not> expirable (j_state j)" xs]
      d'(3) journal_get_id [OF d'(2)] decided_step assms(6) by blast
  then show ?thesis using decided_rejects by blast
qed

section \<open>What a cancellation does\<close>

text \<open>
  Both ways to end an enrollment early set the same columns.  The hypothesis on the temporary
  credential excludes jobs that hold one before its address is pinned: validation refuses their
  terminal form.
\<close>

definition pinned_credential :: "enrollment_job \<Rightarrow> bool" where
  "pinned_credential j \<longleftrightarrow> j_credential_temp_ref j = None \<or> credential_state (j_state j) \<or>
     j_enrollment_method j = LEGACY_ADMIN_TOKEN"

definition ended :: "enrollment_state \<Rightarrow> instant \<Rightarrow> enrollment_job \<Rightarrow> enrollment_job" where
  "ended st now j = (clear_claims j)\<lparr>j_state := st, j_updated_at := now\<rparr>"

lemma ended_simps:
  "set_cancelled now j = ended CANCELLED now j" "set_expired_cleared now j = ended EXPIRED now j"
  by (simp_all add: ended_def set_cancelled_def set_expired_cleared_def)

lemma valid_ended:
  assumes "valid_job j" and "expirable (j_state j)" and "pinned_credential j" and "st \<in> {CANCELLED, EXPIRED}"
  shows "valid_job (ended st now j)"
proof -
  let ?k = "ended st now j"
  have "valid_identity ?k" "valid_ssh ?k" "valid_request ?k" "valid_references ?k"
    using assms(1) by (simp_all add: valid_job_def valid_identity_def valid_ssh_def valid_request_def
        valid_references_def ended_def clear_claims_def)
  moreover have "valid_rotation ?k"
    using assms(1,2,4)
    by (auto simp: valid_job_def valid_rotation_def no_rotation_metadata_def full_rotation_metadata_def
        ended_def clear_claims_def expirable_def)
  moreover have "valid_phase ?k" "valid_cli_claim ?k" "valid_receipt ?k"
    using assms(4) by (auto simp: valid_phase_def credential_state_def activation_state_def valid_cli_claim_def
        no_cli_claim_def valid_receipt_def ended_def clear_claims_def)
  moreover have "valid_recovery ?k"
    using assms(1) by (simp add: valid_job_def valid_recovery_def ended_def clear_claims_def)
  moreover have "valid_pin ?k"
    using assms by (cases "j_state j") (auto simp: valid_job_def valid_pin_def valid_phase_def
        credential_pin_required_def credential_state_def pinned_credential_def expirable_def ended_def clear_claims_def)
  ultimately show ?thesis by (simp add: valid_job_def)
qed

definition put_job :: "enrollment_job \<Rightarrow> manager_db \<Rightarrow> manager_db" where
  "put_job j d = d\<lparr>db_jobs := sql_update (\<lambda>r. row_id r = j_enrollment_id j) (set_job (\<lambda>_. j)) (db_jobs d)\<rparr>"

lemma replace_succeeds:
  assumes "db_ok d" and "journal_get (j_enrollment_id k) d = Some j" and "valid_job k" and "storable k"
    and "j_state k \<in> set (allowed_transitions (j_state j))" and "j_replace_agent_id k = j_replace_agent_id j"
    and fence: "fence_matches u n t j" "u \<noteq> None \<longrightarrow> j_recovery_revision k = j_recovery_revision j + 1"
  shows "replace_if_state k (j_state j) u n t d = Inr (k, put_job k d)"
proof -
  let ?P = "\<lambda>r. row_id r = j_enrollment_id k \<and> j_state (row_job r) = j_state j \<and> fence_matches u n t (row_job r)"
  have same: "row_job r = j" if "r \<in> set (db_jobs d)" "row_id r = j_enrollment_id k" for r
    using that assms(1,2) journal_get_iff [of d "j_enrollment_id k" "row_job r"] by auto
  have c: "rowcount ?P (db_jobs d) = Suc 0"
    using keyed_rowcount(1) [OF assms(1), of ?P "j_enrollment_id k" "\<lambda>x. j_state x = j_state j \<and> fence_matches u n t x"]
      assms(2) fence(1) by auto
  have k: "check_job k" using assms(3,4) by (rule valid_job_check)
  have "sql_update ?P (set_job (\<lambda>x. k\<lparr>j_enrollment_id := j_enrollment_id x\<rparr>)) (db_jobs d) = db_jobs (put_job k d)"
    using same fence(1) by (auto simp: put_job_def sql_update_def set_job_def job_id_update)
  then have "update_jobs ?P (set_job (\<lambda>x. k\<lparr>j_enrollment_id := j_enrollment_id x\<rparr>)) d = Some (put_job k d)"
    using k same assms(6) by (auto simp: update_jobs_def put_job_def job_id_update)
  then show ?thesis
    using assms(3,5) c fence
    by (auto simp: replace_if_state_def validate_job_def Let_def fence_matches_def split: option.splits)
qed

text \<open>
  Cancellation without interference, on every branch.  A job that is not in an
  early state is refused and nothing is written; a due job is expired with its claims cleared,
  the expiry is kept and the call reports it; any other job is stored as cancelled, with its
  recovery and CLI claims cleared and its revision advanced, and no other row changes.
\<close>

theorem jobs_cancel_spec:
  assumes "db_ok d" and "journal_get e d = Some j" and "valid_job j" and "storable j" and "pinned_credential j"
  shows "jobs_cancel e now id id id d =
    (if \<not> expirable (j_state j)
     then (Inl (EnrollmentConflict (if j_state j = EXPIRED then ''agent_enrollment_expired''
        else ''agent_enrollment_not_cancellable'')), d)
     else if j_expires_at j \<le> now
     then (Inl (EnrollmentConflict ''agent_enrollment_expired''), put_job (set_expired_cleared now j) d)
     else (Inr (set_cancelled now j), put_job (set_cancelled now j) d))"
proof (cases "expirable (j_state j)")
  case False
  then show ?thesis
    using assms(2) by (cases "j_state j") (auto simp: jobs_cancel_def jobs_get_def expirable_def)
next
  case True
  have e: "j_enrollment_id j = e" using assms(2) by (rule journal_get_id)
  have r: "replace_if_state (ended st now j) (j_state j) None None None d =
      Inr (ended st now j, put_job (ended st now j) d)" if "st \<in> {CANCELLED, EXPIRED}" for st
  proof (rule replace_succeeds [OF assms(1)])
    show "valid_job (ended st now j)" using assms(3) True assms(5) that by (rule valid_ended)
    show "j_state (ended st now j) \<in> set (allowed_transitions (j_state j))"
      using True that by (cases "j_state j") (auto simp: ended_def expirable_def)
  qed (use assms(2,4) e in \<open>simp_all add: ended_def clear_claims_def storable_def unscoped_def fence_matches_def\<close>)
  have x: "j_state (ended st now j) = st" for st by (simp add: ended_def)
  show ?thesis
  proof (cases "j_expires_at j \<le> now")
    case due: True
    then show ?thesis
      using True assms(2) r [of EXPIRED] by (simp add: jobs_cancel_def jobs_get_def ended_simps x)
  next
    case False
    moreover have "j_state j \<noteq> EXPIRED" "j_state j \<in> {PENDING, RUNNING, AWAITING_CLI, CREDENTIAL_ISSUED, VERIFYING, VERIFIED}"
      using True by (auto simp: expirable_def)
    ultimately show ?thesis
      using True assms(2) r [of CANCELLED]
      by (simp add: jobs_cancel_def jobs_get_def ended_simps replace_or_conflict_def settle_def)
  qed
qed

theorem jobs_cancel_spec_witness:
  "jobs_cancel ''e2'' 5 id id id fleet_db =
     (Inr (set_cancelled 5 (issued_job ''e2'')), put_job (set_cancelled 5 (issued_job ''e2'')) fleet_db)"
proof -
  have "valid_job (issued_job ''e2'')" "storable (issued_job ''e2'')" "pinned_credential (issued_job ''e2'')"
    and x: "expirable (j_state (issued_job ''e2''))" "\<not> j_expires_at (issued_job ''e2'') \<le> 5"
    by code_simp+
  from jobs_cancel_spec [OF fleet_db_ok fleet_get(2) this(1-3), of 5] x show ?thesis by simp
qed

theorem one_decision_per_enrollment_witness:
  "\<exists>code. decide id (Save ''rack 7'' hex1 9) ''e2'' id id id
     (put_job (set_cancelled 5 (issued_job ''e2'')) fleet_db) =
       (Inl (EnrollmentConflict code), put_job (set_cancelled 5 (issued_job ''e2'')) fleet_db)"
proof -
  have c: "decide id (Cancel 5) ''e2'' id id id fleet_db =
     (Inr (set_cancelled 5 (issued_job ''e2'')), put_job (set_cancelled 5 (issued_job ''e2'')) fleet_db)"
    by code_simp
  have k: "keeps_schema id" by (simp add: keeps_schema_def)
  show ?thesis
    using one_decision_per_enrollment [OF fleet_db_ok k k k c, of "[]" "Save ''rack 7'' hex1 9" id id id]
    by (simp only: history.simps list.set ball_empty simp_thms)
qed

end
