(* ===== verification/Py_Ip.thy ===== *)
theory Py_Ip
  imports Py_Url
begin

text \<open>
  The address objects of Python's \<open>ipaddress\<close> module, as the target policy of the Manager uses
  them: parsing and printing, equality (an IPv6 address with a scope id differs from the one
  without), membership in a network (which ignores the scope id) and the address classes.
  The class predicates are those of CPython 3.11 and 3.12, where an IPv4-mapped IPv6 address is
  classified as the IPv6 address it is (and lies in the reserved block \<open>::/8\<close>).
\<close>

datatype ip =
    V4 "nat list"
  | V6 "nat list" "string option"

definition ip_address :: "string \<Rightarrow> ip option" where
  "ip_address s = (case parse_ipv4 s of
     Some os \<Rightarrow> Some (V4 os)
   | None \<Rightarrow> map_option (\<lambda>(g, z). V6 g z) (parse_ipv6 s))"

fun ip_str :: "ip \<Rightarrow> string" where
  "ip_str (V4 os) = str_ipv4 os"
| "ip_str (V6 g z) = str_ipv6 (g, z)"

fun ip_int :: "ip \<Rightarrow> int" where
  "ip_int (V4 os) = foldl (\<lambda>v b. v * 256 + int b) 0 os"
| "ip_int (V6 g z) = foldl (\<lambda>v b. v * 65536 + int b) 0 g"

fun ip_width :: "ip \<Rightarrow> nat" where
  "ip_width (V4 _) = 32"
| "ip_width (V6 _ _) = 128"

text \<open>\<open>address in network\<close> for equal versions: the bits under the netmask agree.\<close>

datatype network = Net4 int nat | Net6 int nat

fun net_int :: "network \<Rightarrow> int" where
  "net_int (Net4 n _) = n"
| "net_int (Net6 n _) = n"

fun net_shift :: "network \<Rightarrow> nat" where
  "net_shift (Net4 _ p) = 32 - p"
| "net_shift (Net6 _ p) = 128 - p"

fun same_version :: "ip \<Rightarrow> network \<Rightarrow> bool" where
  "same_version (V4 _) (Net4 _ _) = True"
| "same_version (V6 _ _) (Net6 _ _) = True"
| "same_version _ _ = False"

definition in_network :: "ip \<Rightarrow> network \<Rightarrow> bool" where
  "in_network a n \<longleftrightarrow> same_version a n \<and> ip_int a div 2 ^ net_shift n = net_int n div 2 ^ net_shift n"

definition in_any :: "ip \<Rightarrow> network list \<Rightarrow> bool" where
  "in_any a ns \<longleftrightarrow> list_ex (in_network a) ns"

section \<open>Address classes\<close>

fun net6 :: "nat \<Rightarrow> nat \<Rightarrow> network" where
  "net6 h p = Net6 (int h * 2 ^ 112) p"

fun net4 :: "nat \<Rightarrow> nat \<Rightarrow> nat \<Rightarrow> network" where
  "net4 a b p = Net4 (int a * 2 ^ 24 + int b * 2 ^ 16) p"

definition is_loopback :: "ip \<Rightarrow> bool" where
  "is_loopback a = (case a of V4 _ \<Rightarrow> in_network a (net4 127 0 8) | V6 _ _ \<Rightarrow> ip_int a = 1)"

definition is_link_local :: "ip \<Rightarrow> bool" where
  "is_link_local a = (case a of V4 _ \<Rightarrow> in_network a (net4 169 254 16) | V6 _ _ \<Rightarrow> in_network a (net6 0xfe80 10))"

definition is_multicast :: "ip \<Rightarrow> bool" where
  "is_multicast a = (case a of V4 _ \<Rightarrow> in_network a (net4 224 0 4) | V6 _ _ \<Rightarrow> in_network a (net6 0xff00 8))"

definition is_unspecified :: "ip \<Rightarrow> bool" where
  "is_unspecified a \<longleftrightarrow> ip_int a = 0"

definition reserved6 :: "network list" where
  "reserved6 = [net6 0 8, net6 0x100 8, net6 0x200 7, net6 0x400 6, net6 0x800 5, net6 0x1000 4,
     net6 0x4000 3, net6 0x6000 3, net6 0x8000 3, net6 0xa000 3, net6 0xc000 3, net6 0xe000 4,
     net6 0xf000 5, net6 0xf800 6, net6 0xfe00 9]"

definition is_reserved :: "ip \<Rightarrow> bool" where
  "is_reserved a = (case a of V4 _ \<Rightarrow> in_network a (net4 240 0 4) | V6 _ _ \<Rightarrow> in_any a reserved6)"

section \<open>Scope ids\<close>

fun with_scope :: "string option \<Rightarrow> ip \<Rightarrow> ip" where
  "with_scope z (V4 os) = V4 os"
| "with_scope z (V6 g _) = V6 g z"

lemma scope_blind [simp]:
  "ip_int (with_scope z a) = ip_int a" "in_network (with_scope z a) n = in_network a n"
  "in_any (with_scope z a) ns = in_any a ns" "is_loopback (with_scope z a) = is_loopback a"
  "is_link_local (with_scope z a) = is_link_local a" "is_multicast (with_scope z a) = is_multicast a"
  "is_unspecified (with_scope z a) = is_unspecified a" "is_reserved (with_scope z a) = is_reserved a"
proof -
  show i: "ip_int (with_scope z a) = ip_int a" for a by (cases a) simp_all
  have v: "same_version (with_scope z a) n = same_version a n" for n by (cases a; cases n) simp_all
  show n: "in_network (with_scope z a) n = in_network a n" for n by (simp add: in_network_def i v)
  then show y: "in_any (with_scope z a) ns = in_any a ns" for ns by (simp add: in_any_def list_ex_iff)
  show "is_loopback (with_scope z a) = is_loopback a" "is_link_local (with_scope z a) = is_link_local a"
    "is_multicast (with_scope z a) = is_multicast a" "is_reserved (with_scope z a) = is_reserved a"
    using n y i by (cases a; simp add: is_loopback_def is_link_local_def is_multicast_def is_reserved_def)+
  show "is_unspecified (with_scope z a) = is_unspecified a" by (simp add: is_unspecified_def i)
qed

end
