(* ===== verification/Target_Policy.thy ===== *)
theory Target_Policy
  imports Py_Ip
begin

text \<open>
  \<open>fleet/target_policy.py\<close>: which endpoints the Manager may connect to as agents.  An endpoint is
  parsed, resolved once, every resolved address is checked against the forbidden classes, the
  Manager's own listeners and the allow lists, and the first address is pinned; a stored pinned
  address is checked again before each later use.

  The DNS resolver is an argument (\<open>None\<close> for \<open>OSError\<close>), as is the IDNA encoding of non-ASCII
  host names (\<open>None\<close> for \<open>UnicodeError\<close>).  Networks are given parsed, as the configuration
  models hold them.  \<open>TargetPolicyError\<close> is kept as its code.
\<close>

section \<open>Data\<close>

datatype transport_profile =
    VerifiedTls string
  | TrustedLanHttp string "network list"

record safety_validated_target =
  vt_normalized_endpoint :: string
  vt_scheme :: string
  vt_hostname :: string
  vt_port :: int
  vt_resolved_addresses :: "ip list"
  vt_pinned_address :: ip
  vt_host_header :: string
  vt_sni_hostname :: "string option"

record validated_target = safety_validated_target +
  vt_warning_code :: "string option"
  vt_profile :: transport_profile

record agent_target_policy =
  tp_allowed :: "network list"
  tp_self_targets :: "(ip \<times> int) list"
  tp_resolver :: "string \<Rightarrow> int \<Rightarrow> string list option"
  tp_idna :: "string \<Rightarrow> string option"

type_synonym 'a checked = "string + 'a"

text \<open>The constructor.\<close>

definition make_policy ::
  "network list \<Rightarrow> (ip \<times> int) list \<Rightarrow> (string \<Rightarrow> int \<Rightarrow> string list option) \<Rightarrow> (string \<Rightarrow> string option)
     \<Rightarrow> agent_target_policy checked" where
  "make_policy allowed self_targets resolver idna =
     (if self_targets = [] \<or> list_ex (\<lambda>(_, p). p < 1 \<or> 65535 < p) self_targets
      then Inl ''target_policy_invalid''
      else Inr \<lparr>tp_allowed = allowed, tp_self_targets = self_targets, tp_resolver = resolver, tp_idna = idna\<rparr>)"

section \<open>Helpers\<close>

definition url_host :: "string \<Rightarrow> string" where
  "url_host h = (if CHR '':'' \<in> set h then ''['' @ h @ '']'' else h)"

definition encode_host :: "(string \<Rightarrow> string option) \<Rightarrow> string \<Rightarrow> string option" where
  "encode_host idna h = map_option (map to_lower)
     (if is_ascii h then if idna_ok h then Some h else None else idna h)"

definition parse_endpoint :: "(string \<Rightarrow> string option) \<Rightarrow> string \<Rightarrow> (string \<times> string \<times> int) checked" where
  "parse_endpoint idna endpoint =
     (case urlsplit endpoint of
        None \<Rightarrow> Inl ''target_url_invalid''
      | Some parsed \<Rightarrow>
        (case (port (u_netloc parsed), hostname (u_netloc parsed)) of
           (Some p, Some host) \<Rightarrow>
             if u_scheme parsed \<notin> {''http'', ''https''} \<or> host = [] \<or> CHR ''@'' \<in> set (u_netloc parsed)
                \<or> u_path parsed \<noteq> [] \<or> u_query parsed \<noteq> [] \<or> u_fragment parsed \<noteq> []
                \<or> CHR ''?'' \<in> set endpoint \<or> CHR ''#'' \<in> set endpoint \<or> CHR 0x5C \<in> set endpoint
                \<or> list_ex (\<lambda>c. (of_char c :: nat) < 32) endpoint \<or> p = Some 0
             then Inl ''target_url_invalid''
             else (case encode_host idna host of
               None \<Rightarrow> Inl ''target_url_invalid''
             | Some name \<Rightarrow> Inr (u_scheme parsed, name,
                 case p of Some n \<Rightarrow> n | None \<Rightarrow> if u_scheme parsed = ''https'' then 443 else 80))
         | _ \<Rightarrow> Inl ''target_url_invalid''))"

definition scheme_matches :: "string \<Rightarrow> transport_profile \<Rightarrow> bool" where
  "scheme_matches scheme p = (case p of VerifiedTls _ \<Rightarrow> scheme = ''https'' | TrustedLanHttp _ _ \<Rightarrow> scheme = ''http'')"

definition metadata_addresses :: "ip list" where
  "metadata_addresses = [V4 [169, 254, 169, 254], V6 [0xfd00, 0xec2, 0, 0, 0, 0, 0, 0x254] None]"

definition is_forbidden :: "ip \<Rightarrow> bool" where
  "is_forbidden a \<longleftrightarrow> a \<in> set metadata_addresses \<or> is_loopback a \<or> is_link_local a \<or> is_multicast a \<or>
     is_unspecified a \<or> is_reserved a"

definition profile_allowlist :: "agent_target_policy \<Rightarrow> transport_profile \<Rightarrow> network list" where
  "profile_allowlist pol p = (case p of VerifiedTls _ \<Rightarrow> tp_allowed pol | TrustedLanHttp _ cidrs \<Rightarrow> cidrs)"

definition host_header :: "string \<Rightarrow> string \<Rightarrow> int \<Rightarrow> string" where
  "host_header scheme name p = (if p = (if scheme = ''https'' then 443 else 80) then url_host name
     else url_host name @ '':'' @ show_dec p)"

definition warning_code :: "transport_profile \<Rightarrow> string option" where
  "warning_code p = (case p of TrustedLanHttp _ _ \<Rightarrow> Some ''trusted_lan_http_unencrypted'' | _ \<Rightarrow> None)"

text \<open>The fields shared by every constructed target.\<close>

definition make_safety :: "string \<Rightarrow> string \<Rightarrow> int \<Rightarrow> ip list \<Rightarrow> ip \<Rightarrow> safety_validated_target" where
  "make_safety scheme name p addresses pinned = \<lparr>
     vt_normalized_endpoint = scheme @ ''://'' @ url_host name @ '':'' @ show_dec p,
     vt_scheme = scheme, vt_hostname = name, vt_port = p, vt_resolved_addresses = addresses,
     vt_pinned_address = pinned, vt_host_header = host_header scheme name p,
     vt_sni_hostname = (if scheme = ''https'' then Some name else None)\<rparr>"

definition add_profile :: "safety_validated_target \<Rightarrow> transport_profile \<Rightarrow> validated_target" where
  "add_profile s p = safety_validated_target.extend s \<lparr>vt_warning_code = warning_code p, vt_profile = p\<rparr>"

definition pinned_url :: "validated_target \<Rightarrow> string" where
  "pinned_url t = vt_scheme t @ ''://'' @ url_host (ip_str (vt_pinned_address t)) @ '':'' @ show_dec (vt_port t)"

section \<open>Resolution\<close>

definition from_keys :: "'a list \<Rightarrow> 'a list" where
  "from_keys xs = foldl (\<lambda>seen x. if x \<in> set seen then seen else seen @ [x]) [] xs"

definition resolve_once :: "agent_target_policy \<Rightarrow> string \<Rightarrow> int \<Rightarrow> ip list checked" where
  "resolve_once pol name p =
     (case (case ip_address name of
              Some literal \<Rightarrow> Some [literal]
            | None \<Rightarrow> map_option from_keys (Option.bind (tp_resolver pol name p) (\<lambda>raw. all_some (map ip_address raw)))) of
        None \<Rightarrow> Inl ''agent_network_error''
      | Some addresses \<Rightarrow> if addresses = [] then Inl ''agent_network_error'' else Inr addresses)"

definition validate_safety_gen :: "agent_target_policy \<Rightarrow> bool \<Rightarrow> string \<Rightarrow> safety_validated_target checked" where
  "validate_safety_gen pol allow_loopback_http endpoint =
     (case parse_endpoint (tp_idna pol) endpoint of
        Inl e \<Rightarrow> Inl e
      | Inr (scheme, name, p) \<Rightarrow>
        if allow_loopback_http \<and> scheme \<noteq> ''http'' then Inl ''transport_profile_mismatch''
        else (case resolve_once pol name p of
          Inl e \<Rightarrow> Inl e
        | Inr addresses \<Rightarrow>
          if allow_loopback_http \<and> list_ex (\<lambda>a. \<not> is_loopback a) addresses then Inl ''target_address_forbidden''
          else if list_ex (\<lambda>a. is_forbidden a \<and> \<not> (allow_loopback_http \<and> is_loopback a)) addresses
          then Inl ''target_address_forbidden''
          else if list_ex (\<lambda>a. (a, p) \<in> set (tp_self_targets pol)) addresses then Inl ''target_is_manager''
          else Inr (make_safety scheme name p addresses (hd addresses))))"

definition validate_safety :: "agent_target_policy \<Rightarrow> string \<Rightarrow> safety_validated_target checked" where
  "validate_safety pol endpoint = validate_safety_gen pol False endpoint"

definition validate_legacy_import_http_safety ::
  "agent_target_policy \<Rightarrow> string \<Rightarrow> safety_validated_target checked" where
  "validate_legacy_import_http_safety pol endpoint = validate_safety_gen pol True endpoint"

definition resolve_validated ::
  "agent_target_policy \<Rightarrow> safety_validated_target \<Rightarrow> transport_profile \<Rightarrow> validated_target checked" where
  "resolve_validated pol safety profile =
     (if \<not> scheme_matches (vt_scheme safety) profile then Inl ''transport_profile_mismatch''
      else if list_ex (\<lambda>a. \<not> in_any a (tp_allowed pol) \<or> \<not> in_any a (profile_allowlist pol profile))
           (vt_resolved_addresses safety)
      then Inl ''target_address_not_allowed''
      else Inr (add_profile safety profile))"

definition resolve :: "agent_target_policy \<Rightarrow> string \<Rightarrow> transport_profile \<Rightarrow> validated_target checked" where
  "resolve pol endpoint profile =
     (case validate_safety pol endpoint of Inl e \<Rightarrow> Inl e | Inr safety \<Rightarrow> resolve_validated pol safety profile)"

section \<open>Stored addresses\<close>

definition revalidate_pinned_target ::
  "agent_target_policy \<Rightarrow> string \<Rightarrow> transport_profile \<Rightarrow> string \<Rightarrow> validated_target checked" where
  "revalidate_pinned_target pol endpoint profile stored_ip =
     (case parse_endpoint (tp_idna pol) endpoint of
        Inl e \<Rightarrow> Inl e
      | Inr (scheme, name, p) \<Rightarrow>
        if \<not> scheme_matches scheme profile then Inl ''transport_profile_mismatch''
        else (case ip_address stored_ip of
          None \<Rightarrow> Inl ''target_address_forbidden''
        | Some a \<Rightarrow>
          if ip_str a \<noteq> stored_ip \<or> is_forbidden a then Inl ''target_address_forbidden''
          else if (a, p) \<in> set (tp_self_targets pol) then Inl ''target_is_manager''
          else if \<not> in_any a (tp_allowed pol) \<or> \<not> in_any a (profile_allowlist pol profile)
          then Inl ''target_address_not_allowed''
          else Inr (add_profile (make_safety scheme name p [a] a) profile)))"

definition local_bootstrap_address :: ip where
  "local_bootstrap_address = V4 [127, 0, 0, 1]"

definition revalidate_local_socket_target ::
  "agent_target_policy \<Rightarrow> string \<Rightarrow> transport_profile \<Rightarrow> string \<Rightarrow> validated_target checked" where
  "revalidate_local_socket_target pol endpoint profile stored_ip =
     (case parse_endpoint (tp_idna pol) endpoint of
        Inl e \<Rightarrow> Inl e
      | Inr (scheme, name, p) \<Rightarrow>
        (case profile of
           VerifiedTls _ \<Rightarrow> Inl ''transport_profile_mismatch''
         | TrustedLanHttp _ cidrs \<Rightarrow>
           if scheme \<noteq> ''http'' then Inl ''transport_profile_mismatch''
           else (case ip_address name of
             None \<Rightarrow> Inl ''target_url_invalid''
           | Some endpoint_address \<Rightarrow>
             if ip_str endpoint_address \<noteq> name then Inl ''target_url_invalid''
             else (case ip_address stored_ip of
               None \<Rightarrow> Inl ''target_address_forbidden''
             | Some a \<Rightarrow>
               if ip_str a \<noteq> stored_ip \<or> a \<noteq> local_bootstrap_address \<or> a \<noteq> endpoint_address
               then Inl ''target_address_forbidden''
               else if (a, p) \<in> set (tp_self_targets pol) then Inl ''target_is_manager''
               else if \<not> in_any a (tp_allowed pol) \<or> \<not> in_any a cidrs then Inl ''target_address_not_allowed''
               else Inr (add_profile ((make_safety scheme name p [a] a)\<lparr>vt_sni_hostname := None\<rparr>) profile)))))"

definition resolve_local_socket ::
  "agent_target_policy \<Rightarrow> string \<Rightarrow> transport_profile \<Rightarrow> validated_target checked" where
  "resolve_local_socket pol endpoint profile =
     (case parse_endpoint (tp_idna pol) endpoint of
        Inl e \<Rightarrow> Inl e
      | Inr (_, name, _) \<Rightarrow>
        (case ip_address name of
           None \<Rightarrow> Inl ''target_url_invalid''
         | Some a \<Rightarrow> revalidate_local_socket_target pol endpoint profile (ip_str a)))"

end
