(* ===== verification/Ip_Roundtrip.thy ===== *)
theory Ip_Roundtrip
  imports Py_Ip Py_Json
begin

text \<open>
  Printing an address and parsing the text gives the address back, for IPv4 and for IPv6 with
  its zero compression and scope id.
\<close>

section \<open>Splitting what was joined\<close>

lemma split_on_no_sep: "c \<notin> set w \<Longrightarrow> split_on c w = [w]"
  by (induction w) auto

lemma split_on_append: "c \<notin> set w \<Longrightarrow> split_on c (w @ c # r) = w # split_on c r"
  by (induction w) auto

lemma split_on_cover: "x \<in> set s \<Longrightarrow> x \<noteq> c \<Longrightarrow> \<exists>w\<in>set (split_on c s). x \<in> set w"
proof (induction s)
  case (Cons a s)
  then show ?case by (cases "split_on c s"; cases "x = a") auto
qed simp

lemma all_some_None: "None \<in> set xs \<Longrightarrow> all_some xs = None"
  by (induction xs rule: all_some.induct) auto

lemma split_join:
  assumes "ws \<noteq> []" and "\<And>w. w \<in> set ws \<Longrightarrow> c \<notin> set w"
  shows "split_on c (join_with [c] ws) = ws"
  using assms
  by (induction "[c]" ws rule: join_with.induct) (auto simp: split_on_no_sep split_on_append)

section \<open>Numerals\<close>

lemma digit_char_zero: "digit_char 0 = CHR ''0''"
  by code_simp

lemma digit_char_eq_zero: "n < 16 \<Longrightarrow> digit_char n = CHR ''0'' \<longleftrightarrow> n = 0"
  using digit_val_char [of n] digit_val_char [of 0] by (auto simp: digit_char_zero)

lemma show_base_hd: "2 \<le> b \<Longrightarrow> b \<le> 16 \<Longrightarrow> 0 < n \<Longrightarrow> hd (show_base b n) \<noteq> CHR ''0'' \<and> show_base b n \<noteq> []"
proof (induction b n rule: show_base.induct)
  case (1 b n)
  show ?case
  proof (cases "n < b")
    case True
    then show ?thesis using 1 by (auto simp: show_base.simps [of b n] digit_char_eq_zero)
  next
    case False
    moreover have "0 < n div b" using False 1 by (simp add: div_greater_zero_iff)
    ultimately show ?thesis using 1 by (simp add: show_base.simps [of b n] hd_append)
  qed
qed

lemma show_base_0: "show_base b 0 = ''0''"
  by (cases "b < 2") (simp_all add: show_base.simps [of b 0] digit_char_zero)

lemma show_base_eq_0: "2 \<le> b \<Longrightarrow> b \<le> 16 \<Longrightarrow> show_base b n = ''0'' \<longleftrightarrow> n = 0"
  using show_base_hd [of b n] show_base_0 by (cases "n = 0") auto

lemma show_base_digits:
  assumes "b \<le> 10" and "2 \<le> b"
  shows "list_all is_digit (show_base b n)"
  using assms
proof (induction b n rule: show_base.induct)
  case (1 b n)
  have "is_digit (digit_char k)" if "k < 10" for k using that by (simp add: digit_char_def is_digit_def)
  moreover have "n mod b < 10" using 1 by (metis mod_less_divisor less_le_trans zero_less_numeral)
  ultimately show ?case using 1 by (simp add: show_base.simps [of b n])
qed

lemma parse_octet_show: "n < 256 \<Longrightarrow> parse_octet (show_base 10 n) = Some n"
  using show_base_length [of 10 n 2] show_base_digits [of 10 n] show_base_hd [of 10 n] read_show_base [of 10 n]
  by (cases "n = 0") (auto simp: parse_octet_def show_base_0)

lemma parse_hextet_show: "n < 65536 \<Longrightarrow> parse_hextet (show_base 16 n) = Some n"
  using show_base_length [of 16 n 3] show_base_chars [of 16 n] read_show_base [of 16 n]
  by (auto simp: parse_hextet_def is_hex_def list_all_iff)

lemma all_some_map: "(\<And>x. x \<in> set xs \<Longrightarrow> f (g x) = Some x) \<Longrightarrow> all_some (map f (map g xs)) = Some xs"
  by (induction xs) auto

section \<open>IPv4\<close>

lemma hex_not_punct: "is_lower_hex c \<Longrightarrow> c \<notin> {CHR ''.'', CHR '':'', CHR 0x25, CHR ''/''}"
  by (auto simp: is_lower_hex_def is_digit_def)

lemma parse_str_ipv4:
  assumes "length os = 4" and "\<forall>n\<in>set os. n < 256"
  shows "parse_ipv4 (str_ipv4 os) = Some os"
proof -
  have "split_on CHR ''.'' (str_ipv4 os) = map (show_base 10) os"
    unfolding str_ipv4_def using assms(1) show_base_chars [of 10] hex_not_punct
    by (intro split_join) (auto simp: list_all_iff)
  then show ?thesis
    using assms all_some_map [of os parse_octet "show_base 10"] parse_octet_show by (simp add: parse_ipv4_def)
qed

section \<open>IPv6\<close>

lemma zero_run_zeros:
  assumes "zero_run hs i (bs, bl) (cs, cl) = (s, l)" and "i + length hs = length full" and "hs = drop i full"
    and "\<forall>k. bs \<le> k \<and> k < bs + bl \<longrightarrow> full ! k = ''0''" and "bs + bl \<le> i"
    and "\<forall>k. cs \<le> k \<and> k < cs + cl \<longrightarrow> full ! k = ''0''" and "0 < cl \<Longrightarrow> cs + cl = i"
  shows "\<forall>k. s \<le> k \<and> k < s + l \<longrightarrow> full ! k = ''0''"
  using assms
proof (induction hs arbitrary: i bs bl cs cl)
  case (Cons h hs)
  have h: "h = full ! i" "hs = drop (Suc i) full"
    using Cons.prems(2,3) by (metis Cons_nth_drop_Suc le_add1 length_drop list.inject zero_less_diff
        length_greater_0_conv list.distinct(1))+
  show ?case
  proof (cases "h = ''0''")
    case True
    let ?cs = "if cl = 0 then i else cs"
    let ?best = "if bl < Suc cl then (?cs, Suc cl) else (bs, bl)"
    have z: "\<forall>k. ?cs \<le> k \<and> k < ?cs + Suc cl \<longrightarrow> full ! k = ''0''"
      using Cons.prems(6,7) True h(1) by (auto simp: less_Suc_eq)
    have c: "?cs + Suc cl = Suc i" using Cons.prems(7) by auto
    have "zero_run hs (Suc i) (fst ?best, snd ?best) (?cs, Suc cl) = (s, l)"
      using Cons.prems(1) True by (simp add: Let_def del: surjective_pairing split: if_splits)
    then show ?thesis
    proof (rule Cons.IH)
      show "\<forall>k. fst ?best \<le> k \<and> k < fst ?best + snd ?best \<longrightarrow> full ! k = ''0''"
        using z Cons.prems(4) by simp
      show "fst ?best + snd ?best \<le> Suc i" using c Cons.prems(5) by auto
    qed (use Cons.prems(2) h z c in auto)
  next
    case False
    then have "zero_run hs (Suc i) (bs, bl) (0, 0) = (s, l)" using Cons.prems(1) by simp
    then show ?thesis by (rule Cons.IH) (use Cons.prems h in auto)
  qed
qed simp

lemma compress_shape:
  assumes "length hs = 8"
  obtains (same) "compress_hextets hs = hs"
  | (run) A B k where "hs = A @ replicate k ''0'' @ B" and "1 < k"
      and "compress_hextets hs = (if A = [] then [[]] else []) @ A @ [[]] @ B @ (if B = [] then [[]] else [])"
proof -
  obtain s l where z: "zero_run hs 0 (0, 0) (0, 0) = (s, l)" by fastforce
  have b: "s + l \<le> 8" using zero_run_bound [OF z] assms by simp
  have "\<forall>k. s \<le> k \<and> k < s + l \<longrightarrow> hs ! k = ''0''"
    by (rule zero_run_zeros [OF z]) simp_all
  then have "take l (drop s hs) = replicate l ''0''"
    using b assms by (intro nth_equalityI) auto
  then have split: "hs = take s hs @ replicate l ''0'' @ drop (s + l) hs"
    by (metis append_take_drop_id drop_drop add.commute)
  show thesis
  proof (cases "1 < l")
    case True
    then have "compress_hextets hs = (if take s hs = [] then [[]] else []) @ take s hs @ [[]] @ drop (s + l) hs
        @ (if drop (s + l) hs = [] then [[]] else [])"
      using z b assms by (auto simp: compress_hextets_def)
    with split True show thesis by (rule run)
  next
    case False
    then show thesis using z by (intro same) (simp add: compress_hextets_def)
  qed
qed

text \<open>The two ways \<open>_ip_int_from_string\<close> reads a list of parts.\<close>

lemma groups_full:
  assumes "length parts = 8" and "\<And>p. p \<in> set parts \<Longrightarrow> p \<noteq> []" and "all_some (map parse_hextet parts) = Some g"
  shows "ipv6_groups parts = Some g"
proof -
  have "filter (\<lambda>i. parts ! i = []) [1..<length parts - 1] = []"
    using assms(1,2) by (auto simp: filter_empty_conv)
  then show ?thesis using assms(1,3) by (simp add: ipv6_groups_def)
qed

lemma filter_single:
  assumes "k \<in> set xs" and "distinct xs" and "\<And>x. x \<in> set xs \<Longrightarrow> P x \<longleftrightarrow> x = k"
  shows "filter P xs = [k]"
proof -
  have "filter P xs = filter (\<lambda>x. x = k) xs" using assms(3) by (intro filter_cong) auto
  also have "\<dots> = [k]"
    using assms(1,2) by (induction xs) (auto simp: filter_empty_conv)
  finally show ?thesis .
qed

lemma groups_run:
  assumes "parts = (if A = [] then [[]] else []) @ A @ [[]] @ B @ (if B = [] then [[]] else [])"
    and "length A + length B < 7" and "\<And>p. p \<in> set A \<union> set B \<Longrightarrow> p \<noteq> []"
    and "all_some (map parse_hextet A) = Some a" and "all_some (map parse_hextet B) = Some b"
  shows "ipv6_groups parts = Some (a @ replicate (8 - (length A + length B)) 0 @ b)"
proof -
  let ?pre = "if A = [] then [[]] else [] :: string list" and ?n = "length parts"
  let ?k = "length A + length ?pre"
  have n: "?n = ?k + 1 + length B + (if B = [] then 1 else 0)" using assms(1) by simp
  have nth: "parts ! i = [] \<longleftrightarrow> i = ?k" if i: "i \<in> set [1..<?n - 1]" for i
  proof -
    have "(A @ B) ! j \<noteq> []" if "j < length (A @ B)" for j
      using that assms(3) nth_mem [OF that] by auto
    then have A: "A ! j \<noteq> []" if "j < length A" for j using that by (metis nth_append length_append trans_less_add1)
    have B: "B ! j \<noteq> []" if "j < length B" for j using that assms(3) by auto
    show ?thesis
      using i n A B unfolding assms(1)
      by (cases "A = []"; cases "B = []") (auto simp: nth_append nth_Cons' split: if_splits)
  qed
  have "?k \<in> set [1..<?n - 1]"
    using n by (auto simp: Suc_le_eq split: if_splits)
  then have inner: "filter (\<lambda>i. parts ! i = []) [1..<?n - 1] = [?k]"
    using nth by (intro filter_single) auto
  have hd: "hd parts = [] \<longleftrightarrow> A = []" and last: "last parts = [] \<longleftrightarrow> B = []"
    using assms(1,3) by (auto simp: hd_append hd_in_set last_in_set split: if_splits)
  have e: "ipv6_expand parts (length A) (length B) = Some (a @ replicate (8 - (length A + length B)) 0 @ b)"
  proof (cases "A = []")
    case True
    then show ?thesis using assms(1,4,5) n by (cases "B = []") (auto simp: ipv6_expand_def)
  next
    case False
    then show ?thesis using assms(1,4,5) n by (cases "B = []") (auto simp: ipv6_expand_def)
  qed
  have hi: "(if hd parts = [] then ?k - 1 else ?k) = length A" using hd by simp
  have lo: "(if last parts = [] then ?n - ?k - 2 else ?n - ?k - 1) = length B" using last n by auto
  show ?thesis
    unfolding ipv6_groups_def Let_def inner list.case hi lo
    using hd last assms(2) n e by (auto split: if_splits)
qed

lemma groups_compress:
  assumes "length g = 8" and "\<forall>n\<in>set g. n < 65536"
  shows "ipv6_groups (compress_hextets (map (show_base 16) g)) = Some g"
proof -
  let ?hs = "map (show_base 16) g"
  have len: "length ?hs = 8" using assms(1) by simp
  have ne: "show_base 16 n \<noteq> []" for n using show_base_hd [of 16 n] show_base_0 [of 16] by (cases "n = 0") auto
  from len show ?thesis
  proof (cases rule: compress_shape)
    case same
    moreover have "all_some (map parse_hextet ?hs) = Some g"
      using assms(2) parse_hextet_show by (intro all_some_map) auto
    moreover have "p \<noteq> []" if "p \<in> set ?hs" for p using that ne by auto
    ultimately show ?thesis using len groups_full by metis
  next
    case (run A B k)
    define a where "a = take (length A) g"
    define z where "z = take k (drop (length A) g)"
    define b where "b = drop (length A + k) g"
    have g: "g = a @ z @ b"
      unfolding a_def z_def b_def by (metis append_take_drop_id drop_drop add.commute)
    have l: "length A + k + length B = 8" using run(1) len by (metis add.assoc length_append length_replicate)
    then have "length a = length A" "length z = k" using assms(1) by (simp_all add: a_def z_def)
    moreover have "map (show_base 16) a @ map (show_base 16) z @ map (show_base 16) b = A @ replicate k ''0'' @ B"
      using run(1) g by simp
    ultimately have m: "map (show_base 16) a = A" "map (show_base 16) z = replicate k ''0''" "map (show_base 16) b = B"
      by (simp_all add: append_eq_append_conv)
    have "show_base 16 x = ''0''" if "x \<in> set z" for x
      using that m(2) by (metis image_eqI in_set_replicate list.set_map)
    then have z: "z = replicate k 0"
      using \<open>length z = k\<close> show_base_eq_0 [of 16] by (intro replicate_eqI) auto
    have h: "all_some (map parse_hextet (map (show_base 16) x)) = Some x" if "set x \<subseteq> set g" for x
      using that assms(2) parse_hextet_show by (intro all_some_map) auto
    have ab: "all_some (map parse_hextet A) = Some a" "all_some (map parse_hextet B) = Some b"
      using h [of a] h [of b] m(1,3) g by auto
    have "p \<noteq> []" if "p \<in> set A \<union> set B" for p using that m(1,3) ne by (metis Un_iff image_iff list.set_map)
    then have "ipv6_groups (compress_hextets ?hs) = Some (a @ replicate (8 - (length A + length B)) 0 @ b)"
      using run(2,3) ab l by (intro groups_run) auto
    moreover have "8 - (length A + length B) = k" using l by simp
    ultimately show ?thesis using g z by simp
  qed
qed

lemma parse_str_ipv6:
  assumes "length g = 8" and "\<forall>n\<in>set g. n < 65536"
    and "\<forall>s\<in>set_option z. s \<noteq> [] \<and> CHR 0x25 \<notin> set s \<and> CHR ''/'' \<notin> set s"
  shows "parse_ipv6 (str_ipv6 (g, z)) = Some (g, z)"
proof -
  define ws where "ws = compress_hextets (map (show_base 16) g)"
  let ?addr = "join_with '':'' ws"
  have len: "3 \<le> length ws" and sub: "set ws \<subseteq> insert [] (set (map (show_base 16) g))"
    using compress_hextets_props [of "map (show_base 16) g"] assms(1) by (auto simp: ws_def)
  have hex: "is_lower_hex c" if "w \<in> set ws" "c \<in> set w" for w c
    using that sub show_base_chars [of 16] by (fastforce simp: list_all_iff)
  have c: "is_lower_hex c \<or> c = CHR '':''" if "c \<in> set ?addr" for c
    using that set_join_with [of "'':''" ws] hex by fastforce
  have no: "CHR 0x25 \<notin> set ?addr" "CHR ''/'' \<notin> set ?addr"
    using c hex_not_punct by blast+
  have parts: "split_on CHR '':'' ?addr = ws"
    using len hex hex_not_punct by (intro split_join) auto
  have tail: "ipv6_tail ws = Some ws"
    using hex [OF last_in_set] hex_not_punct len by (fastforce simp: ipv6_tail_def)
  have ne: "?addr \<noteq> []" using parts len by (cases "?addr") auto
  have groups: "ipv6_groups ws = Some g" unfolding ws_def using assms(1,2) by (rule groups_compress)
  have take: "takeWhile (\<lambda>c. c \<noteq> CHR 0x25) (?addr @ r) = ?addr @ takeWhile (\<lambda>c. c \<noteq> CHR 0x25) r"
    "dropWhile (\<lambda>c. c \<noteq> CHR 0x25) (?addr @ r) = dropWhile (\<lambda>c. c \<noteq> CHR 0x25) r" for r
    by (rule takeWhile_append2 dropWhile_append2; use no(1) in blast)+
  have l: "\<not> length ws < 3" using len by simp
  show ?thesis
  proof (cases z)
    case None
    have td: "takeWhile (\<lambda>c. c \<noteq> CHR 0x25) ?addr = ?addr" "dropWhile (\<lambda>c. c \<noteq> CHR 0x25) ?addr = []"
      using take(1) [of "[]"] take(2) [of "[]"] by (simp_all only: append_Nil2 takeWhile.simps dropWhile.simps)
    show ?thesis
      using None no ne groups tail parts l
      by (simp add: parse_ipv6_def str_ipv6_def ws_def [symmetric] Let_def td)
  next
    case (Some t)
    then have t: "t \<noteq> []" "CHR 0x25 \<notin> set t" "CHR ''/'' \<notin> set t" using assms(3) by auto
    have "takeWhile (\<lambda>c. c \<noteq> CHR 0x25) (?addr @ CHR 0x25 # t) = ?addr"
      "dropWhile (\<lambda>c. c \<noteq> CHR 0x25) (?addr @ CHR 0x25 # t) = CHR 0x25 # t"
      using take [of "CHR 0x25 # t"] by simp_all
    then show ?thesis
      using Some no ne groups tail parts l t
      by (simp add: parse_ipv6_def str_ipv6_def ws_def [symmetric] Let_def)
  qed
qed

section \<open>Addresses\<close>

lemma parse_ipv6_shape:
  assumes "parse_ipv6 s = Some (g, z)"
  shows "length g = 8 \<and> (\<forall>n\<in>set g. n < 65536) \<and>
    (\<forall>t\<in>set_option z. t \<noteq> [] \<and> CHR 0x25 \<notin> set t \<and> CHR ''/'' \<notin> set t)"
proof -
  let ?rest = "dropWhile (\<lambda>c. c \<noteq> CHR 0x25) s"
  obtain ps where ps: "ipv6_groups ps = Some g" and z: "z = (if ?rest = [] then None else Some (tl ?rest))"
    and r: "CHR ''/'' \<notin> set s" "?rest \<noteq> [CHR 0x25]" "CHR 0x25 \<notin> set (tl ?rest)"
    using assms by (auto simp: parse_ipv6_def Let_def split: if_splits option.splits)
  have "tl ?rest \<noteq> []" if "?rest \<noteq> []"
    using that r(2) hd_dropWhile [OF that] by (cases ?rest) auto
  moreover have "CHR ''/'' \<notin> set (tl ?rest)"
    using r(1) by (metis list.set_sel(2) set_dropWhileD tl_Nil)
  ultimately show ?thesis using ipv6_groups_shape [OF ps] z r(3) by auto
qed

lemma parse_ipv4_shape:
  assumes "parse_ipv4 s = Some os"
  shows "length os = 4 \<and> (\<forall>n\<in>set os. n < 256)"
proof -
  have "length (split_on CHR ''.'' s) = 4" "all_some (map parse_octet (split_on CHR ''.'' s)) = Some os"
    using assms by (auto simp: parse_ipv4_def Let_def split: if_splits)
  then show ?thesis
    using all_some_length [of _ os] all_some_all [of parse_octet _ os "\<lambda>n. n < 256"] parse_octet_bound by fastforce
qed

lemma ipv6_text_not_ipv4: "parse_ipv6 s = Some x \<Longrightarrow> parse_ipv4 s = None"
proof -
  assume "parse_ipv6 s = Some x"
  then have "\<not> length (split_on CHR '':'' (takeWhile (\<lambda>c. c \<noteq> CHR 0x25) s)) < 3"
    by (auto simp: parse_ipv6_def Let_def split: if_splits)
  then have "CHR '':'' \<in> set s"
    using split_on_no_sep [of "CHR '':''" "takeWhile (\<lambda>c. c \<noteq> CHR 0x25) s"] set_takeWhileD by fastforce
  then obtain w where "w \<in> set (split_on CHR ''.'' s)" "CHR '':'' \<in> set w"
    using split_on_cover [of "CHR '':''" s "CHR ''.''"] by auto
  moreover from this have "\<not> list_all is_digit w" by (force simp: list_all_iff is_digit_def)
  ultimately have "None \<in> set (map parse_octet (split_on CHR ''.'' s))"
    by (auto simp: parse_octet_def intro!: image_eqI [of _ _ w])
  then show "parse_ipv4 s = None" using all_some_None by (metis parse_ipv4_def)
qed

lemma ip_address_str:
  assumes "ip_address s = Some a"
  shows "ip_address (ip_str a) = Some a"
proof (cases "parse_ipv4 s")
  case (Some os)
  then have "a = V4 os" using assms by (simp add: ip_address_def)
  then show ?thesis using parse_str_ipv4 parse_ipv4_shape [OF Some] by (simp add: ip_address_def)
next
  case None
  then obtain g z where a: "a = V6 g z" and p: "parse_ipv6 s = Some (g, z)"
    using assms by (auto simp: ip_address_def)
  have q: "parse_ipv6 (str_ipv6 (g, z)) = Some (g, z)"
    using parse_ipv6_shape [OF p] by (intro parse_str_ipv6) auto
  then show ?thesis using a ipv6_text_not_ipv4 [OF q] by (simp add: ip_address_def)
qed

end
