(* ===== verification/Target_Properties.thy ===== *)
theory Target_Properties
  imports Target_Policy Ip_Roundtrip "HOL-Library.Code_Target_Nat"
begin

text \<open>
  Properties of the target policy: exactly which endpoints are accepted, that a pinned address
  is accepted again later, and a gap: an IPv6 scope id hides an address from the checks that
  compare addresses for equality.
\<close>

definition permitted :: "agent_target_policy \<Rightarrow> transport_profile \<Rightarrow> int \<Rightarrow> ip \<Rightarrow> bool" where
  "permitted pol profile p a \<longleftrightarrow> \<not> is_forbidden a \<and> (a, p) \<notin> set (tp_self_targets pol) \<and>
     in_any a (tp_allowed pol) \<and> in_any a (profile_allowlist pol profile)"

lemma resolve_once_nonempty: "resolve_once pol name p = Inr as \<Longrightarrow> as \<noteq> []"
  by (auto simp: resolve_once_def split: option.splits if_splits)

lemma from_keys_set: "set (from_keys xs) = set xs"
proof -
  have "set (foldl (\<lambda>seen x. if x \<in> set seen then seen else seen @ [x]) acc xs) = set acc \<union> set xs" for acc
    by (induction xs arbitrary: acc) auto
  then show ?thesis by (simp add: from_keys_def)
qed

lemma all_some_member:
  "all_some (map f xs) = Some ys \<Longrightarrow> y \<in> set ys \<Longrightarrow> \<exists>x\<in>set xs. f x = Some y"
proof (induction xs arbitrary: ys)
  case (Cons x xs)
  then show ?case by (cases "f x") auto
qed simp

lemma resolved_parsed: "resolve_once pol name p = Inr as \<Longrightarrow> a \<in> set as \<Longrightarrow> \<exists>s. ip_address s = Some a"
  by (auto simp: resolve_once_def from_keys_set bind_eq_Some_conv dest: all_some_member
      split: option.splits if_splits)

lemma add_profile_simps [simp]:
  "vt_scheme (add_profile s pr) = vt_scheme s" "vt_port (add_profile s pr) = vt_port s"
  "vt_pinned_address (add_profile s pr) = vt_pinned_address s"
  "vt_resolved_addresses (add_profile s pr) = vt_resolved_addresses s" "vt_hostname (add_profile s pr) = vt_hostname s"
  "vt_profile (add_profile s pr) = pr"
  by (simp_all add: add_profile_def safety_validated_target.defs)

lemma make_safety_simps [simp]:
  "vt_scheme (make_safety sc n p as a) = sc" "vt_port (make_safety sc n p as a) = p" "vt_hostname (make_safety sc n p as a) = n"
  "vt_pinned_address (make_safety sc n p as a) = a" "vt_resolved_addresses (make_safety sc n p as a) = as"
  by (simp_all add: make_safety_def)

lemma resolve_iff:
  "resolve pol endpoint profile = Inr t \<longleftrightarrow>
     (\<exists>scheme name p as. parse_endpoint (tp_idna pol) endpoint = Inr (scheme, name, p) \<and>
       resolve_once pol name p = Inr as \<and> scheme_matches scheme profile \<and>
       list_all (permitted pol profile p) as \<and>
       t = add_profile (make_safety scheme name p as (hd as)) profile)"
  by (auto simp: resolve_def validate_safety_def validate_safety_gen_def resolve_validated_def
      permitted_def list_all_iff list_ex_iff split: sum.splits if_splits)

section \<open>Forbidden classes in numbers\<close>

text \<open>
  The addresses the classes leave over, by their leading octets or hextets.  IPv4: below the multicast
  and reserved blocks, outside \<open>127/8\<close> and \<open>169.254/16\<close>, not \<open>0.0.0.0\<close>.  IPv6: global unicast \<open>2000::/3\<close>, unique
  local \<open>fc00::/7\<close> and the former site local block \<open>fec0::/10\<close>, not the metadata address (which is compared
  with its scope id, so that only the address without one is excluded).
\<close>

fun usable :: "ip \<Rightarrow> bool" where
  "usable (V4 os) \<longleftrightarrow> os ! 0 < 224 \<and> os ! 0 \<noteq> 127 \<and> \<not> (os ! 0 = 169 \<and> os ! 1 = 254) \<and> os \<noteq> [0, 0, 0, 0]"
| "usable (V6 g z) \<longleftrightarrow> (0x2000 \<le> g ! 0 \<and> g ! 0 \<le> 0x3fff \<or> 0xfc00 \<le> g ! 0 \<and> g ! 0 \<le> 0xfdff \<or>
     0xfec0 \<le> g ! 0 \<and> g ! 0 \<le> 0xfeff) \<and> \<not> (g = [0xfd00, 0xec2, 0, 0, 0, 0, 0, 0x254] \<and> z = None)"

lemma div_range:
  assumes "0 < (k::nat)"
  shows "a div k = c \<longleftrightarrow> c * k \<le> a \<and> a < c * k + k"
  using div_nat_eqI [of k c a] assms dividend_less_times_div [of k a] div_times_less_eq_dividend [of a k]
  by (auto simp: algebra_simps)

lemma high_bits:
  assumes "0 \<le> r" and "r < 2 ^ m"
  shows "(int x * 2 ^ m + r) div 2 ^ (m + k) = int (x div 2 ^ k)"
proof -
  have "(int x * 2 ^ m + r) div 2 ^ (m + k) = (int x * 2 ^ m + r) div 2 ^ m div 2 ^ k"
    by (simp add: power_add zdiv_zmult2_eq)
  also have "(int x * 2 ^ m + r) div 2 ^ m = int x" using assms by simp
  finally show ?thesis by (simp add: zdiv_int)
qed

lemma forbidden_v4:
  assumes "length os = 4" and "\<forall>n\<in>set os. n < 256"
  shows "is_forbidden (V4 os) \<longleftrightarrow> \<not> usable (V4 os)"
proof -
  obtain a b c d where os: "os = [a, b, c, d]"
    using assms(1) by (auto simp: numeral_eq_Suc length_Suc_conv)
  have bounds: "a < 256" "b < 256" "c < 256" "d < 256" using assms(2) by (simp_all add: os)
  define r where "r = int b * 2 ^ 16 + int c * 2 ^ 8 + int d"
  have r: "0 \<le> r" "r < 2 ^ 24" "ip_int (V4 os) = int a * 2 ^ 24 + r" using bounds by (simp_all add: r_def os)
  define q where "q = int c * 2 ^ 8 + int d"
  have q: "0 \<le> q" "q < 2 ^ 16" "ip_int (V4 os) = int (a * 256 + b) * 2 ^ 16 + q" using bounds by (simp_all add: q_def os)
  have top: "ip_int (V4 os) div 2 ^ 24 = int a" "ip_int (V4 os) div 2 ^ 28 = int (a div 16)"
    using high_bits [OF r(1,2), of a 0] high_bits [OF r(1,2), of a 4] by (simp_all add: r(3) del: ip_int.simps)
  have top2: "ip_int (V4 os) div 2 ^ 16 = int (a * 256 + b)"
    using high_bits [OF q(1,2), of "a * 256 + b" 0] by (simp only: q(3) add_0_right power_0 div_by_1)
  have n8: "in_network (V4 os) (net4 127 0 8) \<longleftrightarrow> a = 127"
    using top(1) by (simp add: in_network_def del: ip_int.simps)
  have n4: "in_network (V4 os) (net4 224 0 4) \<longleftrightarrow> a div 16 = 14" "in_network (V4 os) (net4 240 0 4) \<longleftrightarrow> a div 16 = 15"
    using top(2) by (simp_all add: in_network_def del: ip_int.simps)
  have n16: "in_network (V4 os) (net4 169 254 16) \<longleftrightarrow> a = 169 \<and> b = 254"
  proof -
    have "(a * 256 + b) div 256 = a" "(a * 256 + b) mod 256 = b" using bounds(2) by simp_all
    then have "a * 256 + b = 43518 \<longleftrightarrow> a = 43518 div 256 \<and> b = 43518 mod 256" by (metis div_mult_mod_eq)
    then have "a * 256 + b = 43518 \<longleftrightarrow> a = 169 \<and> b = 254" by simp
    moreover have "in_network (V4 os) (net4 169 254 16) \<longleftrightarrow> int (a * 256 + b) = int 43518"
      using top2 by (simp add: in_network_def del: ip_int.simps of_nat_add of_nat_mult)
    ultimately show ?thesis by (simp only: of_nat_eq_iff)
  qed
  have z: "ip_int (V4 os) = 0 \<longleftrightarrow> os = [0, 0, 0, 0]" by (auto simp: os)
  show ?thesis
    using bounds by (auto simp: is_forbidden_def is_loopback_def is_link_local_def is_multicast_def is_unspecified_def
        is_reserved_def metadata_addresses_def n8 n4 n16 z div_range simp del: ip_int.simps net4.simps) (auto simp: os)
qed

lemma reserved_range:
  assumes "(a::nat) < 65536"
  shows "(a < 256 \<or> 256 \<le> a \<and> a < 512 \<or> 512 \<le> a \<and> a < 1024 \<or> 1024 \<le> a \<and> a < 2048 \<or> 2048 \<le> a \<and> a < 4096 \<or>
      4096 \<le> a \<and> a < 8192 \<or> 16384 \<le> a \<and> a < 24576 \<or> 24576 \<le> a \<and> a < 32768 \<or> 32768 \<le> a \<and> a < 40960 \<or>
      40960 \<le> a \<and> a < 49152 \<or> 49152 \<le> a \<and> a < 57344 \<or> 57344 \<le> a \<and> a < 61440 \<or> 61440 \<le> a \<and> a < 63488 \<or>
      63488 \<le> a \<and> a < 64512 \<or> 65024 \<le> a \<and> a < 65152) \<longleftrightarrow>
    (a < 0x2000 \<or> 0x4000 \<le> a \<and> a < 0xfc00 \<or> 0xfe00 \<le> a \<and> a < 0xfe80)"
  using assms by presburger

lemma forbidden_v6:
  assumes "length g = 8" and "\<forall>n\<in>set g. n < 65536"
  shows "is_forbidden (V6 g z) \<longleftrightarrow> \<not> usable (V6 g z)"
proof -
  obtain a b c d e f h i where g: "g = [a, b, c, d, e, f, h, i]"
    using assms(1) by (auto simp: numeral_eq_Suc length_Suc_conv)
  have bounds: "a < 65536" "b < 65536" "c < 65536" "d < 65536" "e < 65536" "f < 65536" "h < 65536" "i < 65536"
    using assms(2) by (simp_all add: g)
  define r where "r = ip_int (V6 [b, c, d, e, f, h, i] z)"
  have r: "0 \<le> r" "r < 2 ^ 112" "ip_int (V6 g z) = int a * 2 ^ 112 + r" using bounds by (simp_all add: g r_def)
  have net: "in_network (V6 g z) (net6 n p) \<longleftrightarrow> a div 2 ^ (16 - p) = n div 2 ^ (16 - p)" if "p \<le> 16" for n p
  proof -
    have p: "128 - p = 112 + (16 - p)" using that by simp
    have "int n * 2 ^ 112 div 2 ^ (112 + (16 - p)) = int (n div 2 ^ (16 - p))"
      using high_bits [of 0 112 n "16 - p"] by (simp only: add_0_right order_refl zero_less_power zero_less_numeral simp_thms)
    then show ?thesis
      by (simp only: in_network_def net6.simps net_int.simps net_shift.simps same_version.simps simp_thms p r(3)
          high_bits [OF r(1,2)] of_nat_eq_iff)
  qed
  have small: "a = 0" if "ip_int (V6 g z) \<in> {0, 1}" using that r by auto
  have reserved: "is_reserved (V6 g z) \<longleftrightarrow> a < 0x2000 \<or> 0x4000 \<le> a \<and> a < 0xfc00 \<or> 0xfe00 \<le> a \<and> a < 0xfe80"
  proof -
    have "is_reserved (V6 g z) \<longleftrightarrow> a div 256 = 0 \<or> a div 256 = 1 \<or> a div 512 = 1 \<or> a div 1024 = 1 \<or> a div 2048 = 1 \<or>
        a div 4096 = 1 \<or> a div 8192 = 2 \<or> a div 8192 = 3 \<or> a div 8192 = 4 \<or> a div 8192 = 5 \<or> a div 8192 = 6 \<or>
        a div 4096 = 14 \<or> a div 2048 = 30 \<or> a div 1024 = 62 \<or> a div 128 = 508"
      by (simp add: is_reserved_def in_any_def reserved6_def net del: ip_int.simps net6.simps)
    then show ?thesis using reserved_range [OF bounds(1)] by (simp add: div_range)
  qed
  have link: "is_link_local (V6 g z) \<longleftrightarrow> 0xfe80 \<le> a \<and> a < 0xfec0" and multi: "is_multicast (V6 g z) \<longleftrightarrow> 0xff00 \<le> a"
    using bounds(1) by (simp_all add: is_link_local_def is_multicast_def net div_range del: ip_int.simps net6.simps)
  have meta: "V6 g z \<in> set metadata_addresses \<longleftrightarrow> g = [0xfd00, 0xec2, 0, 0, 0, 0, 0, 0x254] \<and> z = None"
    by (auto simp: metadata_addresses_def)
  have "is_loopback (V6 g z) \<or> is_unspecified (V6 g z) \<Longrightarrow> a = 0"
    using small by (auto simp: is_loopback_def is_unspecified_def simp del: ip_int.simps)
  then have "is_forbidden (V6 g z) \<longleftrightarrow> (g = [0xfd00, 0xec2, 0, 0, 0, 0, 0, 0x254] \<and> z = None) \<or> a < 0x2000 \<or>
      0x4000 \<le> a \<and> a < 0xfc00 \<or> 0xfe00 \<le> a \<and> a < 0xfec0 \<or> 0xff00 \<le> a"
    unfolding is_forbidden_def meta reserved link multi by linarith
  moreover have "\<not> usable (V6 g z) \<longleftrightarrow> (g = [0xfd00, 0xec2, 0, 0, 0, 0, 0, 0x254] \<and> z = None) \<or> \<not> (0x2000 \<le> a \<and> a \<le> 0x3fff \<or>
      0xfc00 \<le> a \<and> a \<le> 0xfdff \<or> 0xfec0 \<le> a \<and> a \<le> 0xfeff)"
    by (auto simp: g)
  moreover have "(a < 0x2000 \<or> 0x4000 \<le> a \<and> a < 0xfc00 \<or> 0xfe00 \<le> a \<and> a < 0xfec0 \<or> 0xff00 \<le> a) \<longleftrightarrow>
      \<not> (0x2000 \<le> a \<and> a \<le> 0x3fff \<or> 0xfc00 \<le> a \<and> a \<le> 0xfdff \<or> 0xfec0 \<le> a \<and> a \<le> 0xfeff)"
    using bounds(1) by presburger
  ultimately show ?thesis by blast
qed

lemma forbidden_iff: "ip_address s = Some a \<Longrightarrow> is_forbidden a \<longleftrightarrow> \<not> usable a"
  using forbidden_v4 forbidden_v6 parse_ipv4_shape parse_ipv6_shape
  by (fastforce simp: ip_address_def split: option.splits)

section \<open>Which targets are accepted\<close>

text \<open>
  What a host stands for: a literal address for itself, a name for the addresses the resolver gives, all of
  which have to parse, each kept at its first place.
\<close>

definition resolves_to :: "agent_target_policy \<Rightarrow> string \<Rightarrow> int \<Rightarrow> ip list \<Rightarrow> bool" where
  "resolves_to pol name p as \<longleftrightarrow> as \<noteq> [] \<and> (case ip_address name of
     Some a \<Rightarrow> as = [a]
   | None \<Rightarrow> \<exists>raw. tp_resolver pol name p = Some raw \<and> list_all (\<lambda>s. ip_address s \<noteq> None) raw \<and>
       as = rev (remdups (rev (map (\<lambda>s. the (ip_address s)) raw))))"

lemma from_keys_remdups: "from_keys xs = rev (remdups (rev xs))"
  by (induction xs rule: rev_induct) (auto simp: from_keys_def foldl_conv_fold)

lemma all_some_the: "all_some (map f xs) = Some ys \<longleftrightarrow> list_all (\<lambda>x. f x \<noteq> None) xs \<and> ys = map (\<lambda>x. the (f x)) xs"
proof (induction xs arbitrary: ys)
  case (Cons x xs)
  then show ?case by (cases "f x") auto
qed auto

lemma resolve_once_iff: "resolve_once pol name p = Inr as \<longleftrightarrow> resolves_to pol name p as"
proof (cases "ip_address name")
  case None
  have "resolve_once pol name p = Inr as \<longleftrightarrow> as \<noteq> [] \<and>
      (\<exists>raw. tp_resolver pol name p = Some raw \<and> (\<exists>ys. all_some (map ip_address raw) = Some ys \<and> as = from_keys ys))"
    by (auto simp: resolve_once_def None bind_eq_Some_conv split: option.splits if_splits)
  then show ?thesis by (simp add: resolves_to_def None all_some_the from_keys_remdups)
qed (auto simp: resolve_once_def resolves_to_def)

lemma parse_endpoint_bounds:
  assumes "parse_endpoint idna endpoint = Inr (scheme, name, p)"
  shows "scheme \<in> {''http'', ''https''} \<and> 1 \<le> p \<and> p \<le> 65535"
proof -
  have "0 \<le> v \<Longrightarrow> 0 \<le> foldl (\<lambda>v c. v * 10 + int (digit_val c)) v x" for v x by (induction x arbitrary: v) simp_all
  then have "0 \<le> read_int x" for x by (simp add: read_int_def)
  then have "read_int x \<noteq> 0 \<longleftrightarrow> 1 \<le> read_int x" for x by (metis int_one_le_iff_zero_less order_less_le)
  then show ?thesis using assms by (auto simp: parse_endpoint_def port_def split: option.splits if_splits)
qed

text \<open>
  \<open>C19\<close>.  The policy accepts an endpoint exactly when it parses to a scheme, a host and a port in range, the
  scheme is \<open>https\<close> for a TLS profile and \<open>http\<close> for a LAN profile, the host resolves, and \<^emph>\<open>every\<close> address it
  resolves to is usable by its leading octets or hextets (which leaves out loopback, link-local,
  multicast, reserved, unspecified and metadata addresses), is not a listener of the Manager on that
  port, and lies inside the Manager's allow list and inside that of a LAN profile.  Listeners and the IPv6
  metadata address are compared with the scope id, so a scoped address is not recognised as one of them.
  The target returned carries all addresses and pins the first.
\<close>

theorem policy_accepts_exactly_permitted_targets:
  "resolve pol endpoint profile = Inr t \<longleftrightarrow>
     (\<exists>scheme name p as. parse_endpoint (tp_idna pol) endpoint = Inr (scheme, name, p) \<and> 1 \<le> p \<and> p \<le> 65535 \<and>
       scheme = (case profile of VerifiedTls _ \<Rightarrow> ''https'' | TrustedLanHttp _ _ \<Rightarrow> ''http'') \<and>
       resolves_to pol name p as \<and>
       list_all (\<lambda>a. usable a \<and> (a, p) \<notin> set (tp_self_targets pol) \<and> list_ex (in_network a) (tp_allowed pol) \<and>
         (case profile of VerifiedTls _ \<Rightarrow> True | TrustedLanHttp _ cidrs \<Rightarrow> list_ex (in_network a) cidrs)) as \<and>
       vt_scheme t = scheme \<and> vt_hostname t = name \<and> vt_port t = p \<and> vt_profile t = profile \<and>
       vt_resolved_addresses t = as \<and> vt_pinned_address t = hd as \<and>
       t = add_profile (make_safety scheme name p as (hd as)) profile)"
proof -
  have ok: "list_all (permitted pol profile p) as \<longleftrightarrow> list_all (\<lambda>a. usable a \<and> (a, p) \<notin> set (tp_self_targets pol) \<and>
      list_ex (in_network a) (tp_allowed pol) \<and>
      (case profile of VerifiedTls _ \<Rightarrow> True | TrustedLanHttp _ cidrs \<Rightarrow> list_ex (in_network a) cidrs)) as"
    if "resolve_once pol name p = Inr as" for name p as
    using resolved_parsed [OF that] forbidden_iff
    by (fastforce simp: list_all_iff permitted_def in_any_def profile_allowlist_def split: transport_profile.splits)
  have scheme: "scheme_matches x profile \<longleftrightarrow> x = (case profile of VerifiedTls _ \<Rightarrow> ''https'' | TrustedLanHttp _ _ \<Rightarrow> ''http'')" for x
    by (simp add: scheme_matches_def split: transport_profile.splits)
  show ?thesis
    unfolding resolve_iff scheme resolve_once_iff [symmetric]
    using ok parse_endpoint_bounds [of "tp_idna pol" endpoint] by fastforce
qed

section \<open>Stored addresses\<close>

text \<open>
  What was accepted once is accepted again from the stored text: if an endpoint was
  resolved to a target, then revalidating the endpoint with the printed pinned address succeeds
  without asking the resolver, and gives the same target with the pinned address as its only one.
\<close>

theorem pinned_target_revalidates:
  assumes "resolve pol endpoint profile = Inr t"
  shows "revalidate_pinned_target pol endpoint profile (ip_str (vt_pinned_address t)) =
    Inr (t\<lparr>vt_resolved_addresses := [vt_pinned_address t]\<rparr>)"
proof -
  obtain scheme name p as where p: "parse_endpoint (tp_idna pol) endpoint = Inr (scheme, name, p)"
    and r: "resolve_once pol name p = Inr as" and m: "scheme_matches scheme profile"
    and ok: "list_all (permitted pol profile p) as"
    and t: "t = add_profile (make_safety scheme name p as (hd as)) profile"
    using assms by (auto simp: resolve_iff)
  have hd: "hd as \<in> set as" using resolve_once_nonempty [OF r] by simp
  then have "permitted pol profile p (hd as)" using ok by (simp add: list_all_iff)
  moreover have "ip_address (ip_str (hd as)) = Some (hd as)"
    using resolved_parsed [OF r hd] ip_address_str by blast
  ultimately show ?thesis
    using p m by (simp add: revalidate_pinned_target_def permitted_def t)
      (simp add: add_profile_def make_safety_def safety_validated_target.defs)
qed

definition lan_policy :: agent_target_policy where
  "lan_policy = \<lparr>tp_allowed = [Net4 (10 * 2 ^ 24) 8, Net6 (0xfd12 * 2 ^ 112) 64],
     tp_self_targets = [(V4 [10, 0, 0, 1], 8000), (V6 [0xfd12, 0, 0, 0, 0, 0, 0, 5] None, 8000)],
     tp_resolver = (\<lambda>_ _. Some [''10.0.0.7'', ''10.0.0.8'']), tp_idna = (\<lambda>_. None)\<rparr>"

definition lan_profile :: transport_profile where
  "lan_profile = TrustedLanHttp ''lab'' [Net4 (10 * 2 ^ 24) 8, Net6 (0xfd12 * 2 ^ 112) 64]"

lemma lan_node7:
  "parse_endpoint (tp_idna lan_policy) ''http://node7:8100'' = Inr (''http'', ''node7'', 8100)"
  "resolve_once lan_policy ''node7'' 8100 = Inr [V4 [10, 0, 0, 7], V4 [10, 0, 0, 8]]"
  "scheme_matches ''http'' lan_profile"
  "list_all (permitted lan_policy lan_profile 8100) [V4 [10, 0, 0, 7], V4 [10, 0, 0, 8]]"
  by code_simp+

theorem policy_accepts_exactly_permitted_targets_witness:
  "\<exists>t. resolve lan_policy ''http://node7:8100'' lan_profile = Inr t"
proof -
  let ?as = "[V4 [10, 0, 0, 7], V4 [10, 0, 0, 8]]"
  have "resolves_to lan_policy ''node7'' 8100 ?as" using lan_node7(2) resolve_once_iff by blast
  moreover have "list_all (\<lambda>a. usable a \<and> (a, 8100) \<notin> set (tp_self_targets lan_policy) \<and>
      list_ex (in_network a) (tp_allowed lan_policy) \<and> (case lan_profile of VerifiedTls _ \<Rightarrow> True
      | TrustedLanHttp _ cidrs \<Rightarrow> list_ex (in_network a) cidrs)) ?as"
    by code_simp
  ultimately show ?thesis
    using lan_node7(1) unfolding policy_accepts_exactly_permitted_targets
    by (intro exI [of _ "add_profile (make_safety ''http'' ''node7'' 8100 ?as (hd ?as)) lan_profile"] exI [of _ "''http''"]
        exI [of _ "''node7''"] exI [of _ "8100 :: int"] exI [of _ ?as] conjI) (simp_all add: lan_profile_def)
qed

theorem pinned_target_revalidates_witness:
  "\<exists>t. revalidate_pinned_target lan_policy ''http://node7:8100'' lan_profile (ip_str (V4 [10, 0, 0, 7])) = Inr t"
proof -
  have "resolve lan_policy ''http://node7:8100'' lan_profile =
      Inr (add_profile (make_safety ''http'' ''node7'' 8100 [V4 [10, 0, 0, 7], V4 [10, 0, 0, 8]] (V4 [10, 0, 0, 7])) lan_profile)"
    unfolding resolve_iff using lan_node7 by auto
  from pinned_target_revalidates [OF this] show ?thesis by simp
qed

section \<open>Scope ids\<close>

lemma forbidden_scope:
  assumes "z \<noteq> None"
  shows "is_forbidden (V6 g z) \<longleftrightarrow> is_loopback (V6 g None) \<or> is_link_local (V6 g None) \<or>
    is_multicast (V6 g None) \<or> is_unspecified (V6 g None) \<or> is_reserved (V6 g None)"
  using assms scope_blind [of z "V6 g None"] by (auto simp: is_forbidden_def metadata_addresses_def)

text \<open>
  A scope id hides an IPv6 address from the policy: networks ignore the scope, but
  the Manager's listeners and the metadata addresses are compared with it.  Whenever the
  unscoped address is inside the allow lists and in none of the forbidden classes, the endpoint
  that spells it with a scope id is accepted, even if the unscoped address is a listener of the
  Manager or the metadata address \<open>fd00:ec2::254\<close>.
\<close>

theorem scoped_address_hides_from_policy:
  assumes "parse_endpoint (tp_idna pol) endpoint = Inr (scheme, name, p)"
    and "ip_address name = Some (V6 g (Some z))" and "scheme_matches scheme profile"
    and "in_any (V6 g None) (tp_allowed pol)" and "in_any (V6 g None) (profile_allowlist pol profile)"
    and "\<not> is_loopback (V6 g None)" and "\<not> is_link_local (V6 g None)" and "\<not> is_multicast (V6 g None)"
    and "\<not> is_unspecified (V6 g None)" and "\<not> is_reserved (V6 g None)"
    and "\<forall>(a, q)\<in>set (tp_self_targets pol). with_scope None a = a"
  shows "\<exists>t. resolve pol endpoint profile = Inr t \<and> vt_pinned_address t = V6 g (Some z) \<and>
    ip_int (vt_pinned_address t) = ip_int (V6 g None)"
proof -
  have "resolve_once pol name p = Inr [V6 g (Some z)]" using assms(2) by (simp add: resolve_once_def)
  moreover have "(V6 g (Some z), p) \<notin> set (tp_self_targets pol)" using assms(11) by fastforce
  moreover have "\<not> is_forbidden (V6 g (Some z))" using assms(6-10) by (simp add: forbidden_scope)
  moreover have "in_any (V6 g (Some z)) ns = in_any (V6 g None) ns" for ns
    using scope_blind(3) [of "Some z" "V6 g None"] by simp
  ultimately have "resolve pol endpoint profile =
      Inr (add_profile (make_safety scheme name p [V6 g (Some z)] (V6 g (Some z))) profile)"
    unfolding resolve_iff using assms(1,3,4,5) by (auto simp: permitted_def)
  then show ?thesis by simp
qed

lemma listener_classes:
  fixes g :: "nat list"
  defines "g \<equiv> [0xfd12, 0, 0, 0, 0, 0, 0, 5]"
  shows "\<not> is_loopback (V6 g None)" "\<not> is_link_local (V6 g None)" "\<not> is_multicast (V6 g None)"
    "\<not> is_unspecified (V6 g None)" "\<not> is_reserved (V6 g None)"
    "in_any (V6 g None) (tp_allowed lan_policy)" "in_any (V6 g None) (profile_allowlist lan_policy lan_profile)"
  by (simp_all add: g_def is_loopback_def is_link_local_def is_multicast_def is_unspecified_def is_reserved_def
      reserved6_def in_any_def in_network_def lan_policy_def lan_profile_def profile_allowlist_def)

theorem scoped_address_hides_from_policy_witness:
  "(V6 [0xfd12, 0, 0, 0, 0, 0, 0, 5] None, 8000) \<in> set (tp_self_targets lan_policy) \<and>
   resolve lan_policy ''http://[fd12::5]:8000'' lan_profile = Inl ''target_is_manager'' \<and>
   (\<exists>t. resolve lan_policy (''http://[fd12::5'' @ [CHR 0x25] @ ''eth0]:8000'') lan_profile = Inr t \<and>
     vt_pinned_address t = V6 [0xfd12, 0, 0, 0, 0, 0, 0, 5] (Some ''eth0''))"
proof -
  let ?g = "[0xfd12, 0, 0, 0, 0, 0, 0, 5] :: nat list"
    and ?e = "''http://[fd12::5'' @ [CHR 0x25] @ ''eth0]:8000''"
  have self: "(V6 ?g None, 8000) \<in> set (tp_self_targets lan_policy)"
    "\<forall>(a, q)\<in>set (tp_self_targets lan_policy). with_scope None a = a"
    by (simp_all add: lan_policy_def)
  have scoped: "parse_endpoint (tp_idna lan_policy) ?e = Inr (''http'', ''fd12::5'' @ [CHR 0x25] @ ''eth0'', 8000)"
    "ip_address (''fd12::5'' @ [CHR 0x25] @ ''eth0'') = Some (V6 ?g (Some ''eth0''))"
    "scheme_matches ''http'' lan_profile"
    by code_simp+
  have plain: "parse_endpoint (tp_idna lan_policy) ''http://[fd12::5]:8000'' = Inr (''http'', ''fd12::5'', 8000)"
    "ip_address ''fd12::5'' = Some (V6 ?g None)"
    by code_simp+
  have "\<not> is_forbidden (V6 ?g None)"
    using listener_classes by (simp add: is_forbidden_def metadata_addresses_def)
  then have "resolve lan_policy ''http://[fd12::5]:8000'' lan_profile = Inl ''target_is_manager''"
    using plain self(1) by (simp add: resolve_def validate_safety_def validate_safety_gen_def resolve_once_def)
  moreover have "\<exists>t. resolve lan_policy ?e lan_profile = Inr t \<and> vt_pinned_address t = V6 ?g (Some ''eth0'')"
    using scoped_address_hides_from_policy [OF scoped listener_classes(6,7,1-5) self(2)] by blast
  ultimately show ?thesis using self(1) by blast
qed

end
