(* ===== verification/Recovery_Saga.thy ===== *)
theory Recovery_Saga
  imports Manager_System Target_Policy
begin

text \<open>
  The recovery of saved enrollments in \<open>enrollment/orchestrator.py\<close>: \<open>_recover_activation\<close>,
  \<open>_recover_rotation\<close>, \<open>_recover_validation\<close>, their compensations, the leased network calls they make
  and the loop \<open>recover\<close> that drives them; with \<open>prepare_pinned\<close> and \<open>prepare_local_pinned\<close> of
  \<open>enrollment/agent_client.py\<close>.

  A run works on a \<open>recovery_world\<close>: the Manager's database, the references in the credential store,
  the in-memory dictionaries of the orchestrator and a trace of the effects outside the database, in
  the order they happened.  What is decided elsewhere is an environment indexed by a counter of the
  world: the clock, the answers of the agent, the success of file operations, how many lease intervals
  a network call takes, and what other threads and processes do while the run awaits: the transactions
  \<open>v_others\<close> they commit and the changes \<open>v_store_others\<close> they make to the store.  A step that raises keeps
  what earlier steps did.  The lifecycle lease of the store is a lock; taking it can fail (\<open>StoreFailure\<close>).
  The trace records the remote effects the agent acknowledged.
\<close>

section \<open>World and environment\<close>

datatype effect =
    Activated "string option"
  | Revoked "string option"
  | Registered string
  | Swapped string
  | CredentialDeleted string
  | CredentialStored string
  | AuditIntent string
  | AuditOutcome nat string string "string option"
  | HelperCalled string

record recovery_world =
  rw_db :: manager_db
  rw_creds :: "string list"
  rw_failures :: "string \<rightharpoonup> string \<times> string"
  rw_cache :: "string \<rightharpoonup> string"
  rw_tasks :: "string list"
  rw_trace :: "effect list"
  rw_tick :: nat

datatype net_outcome = NetValue string | NetRefused string string | NetFailed

record recovery_env =
  v_owner :: string
  v_lease_seconds :: int
  v_client :: bool
  v_policy :: agent_target_policy
  v_profiles :: "transport_profile list"
  v_sha256 :: "string \<Rightarrow> string"
  v_clock :: "nat \<Rightarrow> instant"
  v_net :: "nat \<Rightarrow> net_outcome"
  v_intervals :: "nat \<Rightarrow> nat"
  v_store_ok :: "nat \<Rightarrow> bool"
  v_sync_ok :: "nat \<Rightarrow> bool"
  v_others :: "nat \<Rightarrow> manager_op list"
  v_store_others :: "nat \<Rightarrow> string list \<Rightarrow> string list"

text \<open>
  The exceptions a run ends with: of the registry, of the credential store, \<open>EnrollmentValidationError\<close> and
  \<open>MutationSagaError\<close> with their code and dispatch state, \<open>EnrollmentConflict\<close>, \<open>SshEnrollmentError\<close>,
  \<open>LocalEnrollmentSocketError\<close>, \<open>_AutoStateLost\<close>, \<open>CancelledError\<close> and any other.
\<close>

datatype recovery_error =
    RegistryFailure registry_error
  | StoreFailure
  | Invalid string string
  | SagaFailure string string
  | Conflict string
  | SshFailure string string
  | SocketFailure string
  | StateLost
  | TaskCancelled
  | OtherFailure

type_synonym 'a recovery = "recovery_world \<Rightarrow> (recovery_error + 'a) \<times> recovery_world"

definition give :: "'a \<Rightarrow> 'a recovery" where
  "give v w = (Inr v, w)"

definition then_do :: "'a recovery \<Rightarrow> ('a \<Rightarrow> 'b recovery) \<Rightarrow> 'b recovery" where
  "then_do m f w = (case m w of (Inl e, w') \<Rightarrow> (Inl e, w') | (Inr v, w') \<Rightarrow> f v w')"

definition step :: "nat recovery" where
  "step w = (Inr (rw_tick w), w\<lparr>rw_tick := Suc (rw_tick w)\<rparr>)"

definition now_at :: "recovery_env \<Rightarrow> instant recovery" where
  "now_at env = then_do step (\<lambda>k. give (v_clock env k))"

definition log_effect :: "effect \<Rightarrow> unit recovery" where
  "log_effect e w = (Inr (), w\<lparr>rw_trace := rw_trace w @ [e]\<rparr>)"

definition others_act :: "recovery_env \<Rightarrow> unit recovery" where
  "others_act env = then_do step (\<lambda>k w. (Inr (),
     w\<lparr>rw_db := history run_manager (v_others env k) (rw_db w), rw_creds := v_store_others env k (rw_creds w)\<rparr>))"

definition transact :: "'a repo \<Rightarrow> 'a recovery" where
  "transact t w = (case t (rw_db w) of Inl e \<Rightarrow> (Inl (RegistryFailure e), w)
     | Inr (v, d) \<Rightarrow> (Inr v, w\<lparr>rw_db := d\<rparr>))"

text \<open>\<open>try\<close> with a handler for the exceptions of the registry it accepts.\<close>

definition except_registry :: "'a recovery \<Rightarrow> (registry_error \<Rightarrow> 'a recovery option) \<Rightarrow> 'a recovery" where
  "except_registry m h w = (case m w of
     (Inl (RegistryFailure e), w') \<Rightarrow> (case h e of None \<Rightarrow> (Inl (RegistryFailure e), w') | Some n \<Rightarrow> n w')
   | r \<Rightarrow> r)"

section \<open>The credential store\<close>

text \<open>
  \<open>False\<close> is a \<open>CredentialStoreError\<close>.  A file can be gone although the call reports an error: \<open>delete\<close> unlinks it and
  then syncs the directory.
\<close>

definition store_read :: "recovery_env \<Rightarrow> string option \<Rightarrow> bool recovery" where
  "store_read env ref = then_do step (\<lambda>k w. (Inr (v_store_ok env k \<and> (case ref of None \<Rightarrow> False
     | Some r \<Rightarrow> credential_ref_re r \<and> r \<in> set (rw_creds w))), w))"

definition store_lease :: "recovery_env \<Rightarrow> unit recovery" where
  "store_lease env = then_do step (\<lambda>k w. (if v_store_ok env k then Inr () else Inl StoreFailure, w))"

definition store_delete_if_exists :: "recovery_env \<Rightarrow> string \<Rightarrow> bool recovery" where
  "store_delete_if_exists env ref = then_do step (\<lambda>k w.
     if \<not> v_store_ok env k \<or> \<not> credential_ref_re ref then (Inr False, w)
     else if ref \<in> set (rw_creds w)
     then (Inr (v_sync_ok env k), w\<lparr>rw_creds := removeAll ref (rw_creds w), rw_trace := rw_trace w @ [CredentialDeleted ref]\<rparr>)
     else (Inr True, w))"

section \<open>Pinned targets\<close>

definition profile_id :: "transport_profile \<Rightarrow> string" where
  "profile_id p = (case p of VerifiedTls i \<Rightarrow> i | TrustedLanHttp i _ \<Rightarrow> i)"

definition profile_of :: "recovery_env \<Rightarrow> string \<Rightarrow> transport_profile option" where
  "profile_of env i = find (\<lambda>p. profile_id p = i) (rev (v_profiles env))"

definition prepare_pinned :: "recovery_env \<Rightarrow> string \<Rightarrow> string \<Rightarrow> string \<Rightarrow> (string \<times> string) + validated_target" where
  "prepare_pinned env endpoint pid stored_ip = (case profile_of env pid of
     None \<Rightarrow> Inl (''transport_profile_invalid'', ''not_dispatched'')
   | Some profile \<Rightarrow> (case revalidate_pinned_target (v_policy env) endpoint profile stored_ip of
       Inl code \<Rightarrow> Inl (code, ''not_dispatched'') | Inr t \<Rightarrow> Inr t))"

definition prepare_local_pinned ::
  "recovery_env \<Rightarrow> string \<Rightarrow> string \<Rightarrow> string \<Rightarrow> (string \<times> string) + validated_target" where
  "prepare_local_pinned env endpoint pid stored_ip = (case profile_of env pid of
     None \<Rightarrow> Inl (''transport_profile_invalid'', ''not_dispatched'')
   | Some profile \<Rightarrow> (case revalidate_local_socket_target (v_policy env) endpoint profile stored_ip of
       Inl code \<Rightarrow> Inl (code, ''not_dispatched'') | Inr t \<Rightarrow> Inr t))"

definition falsy :: "string option \<Rightarrow> bool" where
  "falsy x \<longleftrightarrow> x = None \<or> x = Some []"

definition prepare_pinned_job :: "recovery_env \<Rightarrow> enrollment_job \<Rightarrow> (string \<times> string) + validated_target" where
  "prepare_pinned_job env j =
     (if \<not> v_client env \<or> falsy (j_validated_http_address j) then Inl (''enrollment_unavailable'', ''not_dispatched'')
      else let ip = the (j_validated_http_address j) in
        if j_enrollment_method j = LOCAL_SOCKET
        then prepare_local_pinned env (j_normalized_endpoint j) (j_transport_profile_id j) ip
        else prepare_pinned env (j_normalized_endpoint j) (j_transport_profile_id j) ip)"

section \<open>Claim methods\<close>

definition renew_claim :: "recovery_env \<Rightarrow> enrollment_job \<Rightarrow> enrollment_job option recovery" where
  "renew_claim env j = then_do (now_at env) (\<lambda>now. except_registry
     (transact (renew_recovery_claim (j_enrollment_id j) (v_owner env) (j_recovery_revision j) now (v_lease_seconds env)))
     (\<lambda>_. Some (give None)))"

definition fail_claim :: "recovery_env \<Rightarrow> enrollment_job \<Rightarrow> string \<Rightarrow> unit recovery" where
  "fail_claim env j code = then_do (now_at env) (\<lambda>now. except_registry
     (then_do (transact (fail_recovery_claim (j_enrollment_id j) (v_owner env) (j_recovery_revision j) code now))
       (\<lambda>_. give ()))
     (\<lambda>_. Some (give ())))"

definition residual_claim :: "recovery_env \<Rightarrow> enrollment_job \<Rightarrow> string \<Rightarrow> unit recovery" where
  "residual_claim env j code = then_do (now_at env) (\<lambda>now. except_registry
     (then_do (transact (release_recovery_residual (j_enrollment_id j) (v_owner env) (j_recovery_revision j) code now))
       (\<lambda>_. give ()))
     (\<lambda>_. Some (give ())))"

definition mark_claim_error :: "recovery_env \<Rightarrow> enrollment_job \<Rightarrow> string \<Rightarrow> enrollment_job option recovery" where
  "mark_claim_error env j code = then_do (now_at env) (\<lambda>now. except_registry
     (then_do (transact (mark_recovery_claim_error (j_enrollment_id j) (v_owner env) (j_recovery_revision j) code now))
       (\<lambda>marked. give (if \<not> marked then None else Some (j\<lparr>j_last_error_code := Some code,
          j_recovery_revision := j_recovery_revision j + 1, j_updated_at := now\<rparr>))))
     (\<lambda>_. Some (give None)))"

definition record_mutation_failure :: "enrollment_job \<Rightarrow> string \<Rightarrow> string \<Rightarrow> unit recovery" where
  "record_mutation_failure j code dispatch w =
     (Inr (), w\<lparr>rw_failures := (rw_failures w)(j_enrollment_id j \<mapsto> (code, dispatch))\<rparr>)"

text \<open>The acceptance receipt: SHA-256 over a tag and the length-prefixed fields.\<close>

definition length_prefixed :: "string \<Rightarrow> string" where
  "length_prefixed s = map (\<lambda>e. char_of (length s div 256 ^ e mod 256)) [3, 2, 1, 0] @ s"

definition receipt_payload :: "string \<Rightarrow> string \<Rightarrow> int \<Rightarrow> string \<Rightarrow> string \<Rightarrow> string" where
  "receipt_payload enrollment_id nonce peer_uid input_fingerprint pinned_address =
     ''ic-env-guard.cli-accept-receipt.v1'' @ [CHR 0x00] @
     concat (map length_prefixed [enrollment_id, nonce, show_int peer_uid, input_fingerprint, pinned_address])"

definition cli_accept_receipt :: "recovery_env \<Rightarrow> enrollment_job \<Rightarrow> string" where
  "cli_accept_receipt env j = v_sha256 env (receipt_payload (j_enrollment_id j) (py_or (j_cli_resume_nonce j) [])
     (case j_cli_peer_uid j of None \<Rightarrow> 0 | Some n \<Rightarrow> n) (py_or (j_cli_input_fingerprint j) [])
     (py_or (j_cli_pinned_address j) []))"

definition claimed_update ::
  "recovery_env \<Rightarrow> instant \<Rightarrow> enrollment_state \<Rightarrow> bool \<Rightarrow> enrollment_job \<Rightarrow> enrollment_job" where
  "claimed_update env now st clear j =
     (let clear_cli = st \<in> {CANCELLED, EXPIRED, FAILED, CONSUMED};
          receipt = (if st = CONSUMED \<and> j_cli_resume_nonce j \<noteq> None \<and> j_cli_peer_uid j \<noteq> None \<and>
                        j_cli_input_fingerprint j \<noteq> None \<and> j_cli_pinned_address j \<noteq> None
                     then Some (cli_accept_receipt env j)
                     else if st \<in> {CANCELLED, EXPIRED, FAILED} then None else j_cli_accept_receipt j)
      in j\<lparr>j_state := st, j_updated_at := now,
           j_recovery_owner := (if clear then None else j_recovery_owner j),
           j_recovery_lease_until := (if clear then None else j_recovery_lease_until j),
           j_recovery_revision := j_recovery_revision j + 1,
           j_cli_resume_nonce := (if clear_cli then None else j_cli_resume_nonce j),
           j_cli_peer_uid := (if clear_cli then None else j_cli_peer_uid j),
           j_cli_input_fingerprint := (if clear_cli then None else j_cli_input_fingerprint j),
           j_cli_pinned_address := (if clear_cli then None else j_cli_pinned_address j),
           j_cli_accept_receipt := receipt\<rparr>)"

definition transition_claimed ::
  "recovery_env \<Rightarrow> enrollment_job \<Rightarrow> enrollment_state \<Rightarrow> bool \<Rightarrow> enrollment_job option recovery" where
  "transition_claimed env j st clear = then_do (now_at env) (\<lambda>now. except_registry
     (then_do (transact (replace_if_state (claimed_update env now st clear j) (j_state j) (Some (v_owner env))
          (Some (j_recovery_revision j)) (Some now)))
       (\<lambda>v. give (Some v)))
     (\<lambda>e. if e = RevisionConflict then Some (give None) else None))"

section \<open>Leased network calls\<close>

fun lease_loop :: "recovery_env \<Rightarrow> nat \<Rightarrow> enrollment_job \<Rightarrow> enrollment_job option recovery" where
  "lease_loop env 0 current = give (Some current)"
| "lease_loop env (Suc n) current = then_do (others_act env) (\<lambda>_. then_do (renew_claim env current)
     (\<lambda>renewed. case renewed of None \<Rightarrow> give None | Some j \<Rightarrow> lease_loop env n j))"

definition acknowledged :: "effect option \<Rightarrow> net_outcome \<Rightarrow> unit recovery" where
  "acknowledged eff out = (case (eff, out) of (Some e, NetValue _) \<Rightarrow> log_effect e | _ \<Rightarrow> give ())"

definition run_with_recovery_lease ::
  "recovery_env \<Rightarrow> enrollment_job \<Rightarrow> effect option \<Rightarrow> (enrollment_job \<times> net_outcome) option recovery" where
  "run_with_recovery_lease env j eff = then_do step (\<lambda>k. then_do (lease_loop env (v_intervals env k) j)
     (\<lambda>waiting. case waiting of None \<Rightarrow> give None
      | Some current \<Rightarrow> then_do (others_act env) (\<lambda>_. then_do (acknowledged eff (v_net env k))
          (\<lambda>_. then_do (renew_claim env current)
            (\<lambda>renewed. give (map_option (\<lambda>c. (c, v_net env k)) renewed))))))"

fun error_code_of :: "net_outcome \<Rightarrow> string" where
  "error_code_of (NetRefused code _) = code"
| "error_code_of _ = ''agent_network_error''"

fun error_dispatch_of :: "net_outcome \<Rightarrow> string" where
  "error_dispatch_of (NetRefused _ dispatch) = dispatch"
| "error_dispatch_of _ = ''unknown''"

fun failed_call :: "net_outcome \<Rightarrow> bool" where
  "failed_call (NetValue _) = False"
| "failed_call _ = True"

section \<open>Activation of a new agent\<close>

definition activated_record :: "enrollment_job \<Rightarrow> instant \<Rightarrow> instant \<Rightarrow> agent_record" where
  "activated_record j created updated = \<lparr>a_agent_id = j_enrollment_id j, a_instance_id = j_remote_instance_id j,
     a_display_name = py_or (j_requested_display_name j) [], a_normalized_endpoint = j_normalized_endpoint j,
     a_credential_ref = py_or (j_credential_temp_ref j) [], a_remote_credential_id = j_remote_credential_id j,
     a_transport_profile_id = j_transport_profile_id j, a_enrollment_method = j_enrollment_method j,
     a_enabled = True,
     a_source = (if j_enrollment_method j = LOCAL_SOCKET then ''local_dev_bootstrap''
       else if j_discovery_result_id j \<noteq> None then ''discovery'' else ''manual''),
     a_revision = 1, a_created_at = created, a_updated_at = updated\<rparr>"

definition same_committed_agent :: "agent_record \<Rightarrow> agent_record \<Rightarrow> bool" where
  "same_committed_agent existing expected \<longleftrightarrow>
     a_agent_id existing = a_agent_id expected \<and> a_instance_id existing = a_instance_id expected \<and>
     a_display_name existing = a_display_name expected \<and>
     a_normalized_endpoint existing = a_normalized_endpoint expected \<and>
     a_credential_ref existing = a_credential_ref expected \<and>
     a_remote_credential_id existing = a_remote_credential_id expected \<and>
     a_transport_profile_id existing = a_transport_profile_id expected \<and>
     a_enrollment_method existing = a_enrollment_method expected \<and>
     a_enabled existing = a_enabled expected \<and> a_source existing = a_source expected"

definition compensate_activated_add_conflict :: "recovery_env \<Rightarrow> enrollment_job \<Rightarrow> unit recovery" where
  "compensate_activated_add_conflict env j =
     (let finish = (\<lambda>current.
        then_do (store_lease env) (\<lambda>_. then_do (store_delete_if_exists env (py_or (j_credential_temp_ref current) []))
          (\<lambda>deleted. if \<not> deleted then residual_claim env current ''credential_cleanup_failed''
           else then_do (transition_claimed env (current\<lparr>j_credential_temp_ref := None,
               j_validated_http_address := None, j_last_error_code := Some ''agent_already_registered''\<rparr>) FAILED True)
             (\<lambda>failed. case failed of None \<Rightarrow> give ()
              | Some f \<Rightarrow> record_mutation_failure f ''agent_already_registered'' ''dispatched''))))
      in if j_enrollment_method j = LEGACY_ADMIN_TOKEN then finish j
         else then_do (store_read env (j_credential_temp_ref j)) (\<lambda>readable.
           if \<not> readable then residual_claim env j ''credential_store_unavailable''
           else then_do (run_with_recovery_lease env j (Some (Revoked (j_remote_credential_id j))))
             (\<lambda>outcome. case outcome of None \<Rightarrow> give ()
              | Some (current, out) \<Rightarrow>
                if failed_call out
                then then_do (record_mutation_failure current (error_code_of out) (error_dispatch_of out))
                  (\<lambda>_. residual_claim env current (error_code_of out))
                else finish current)))"

datatype commit_result = Committed | AddConflict | GaveUp

definition commit_agent :: "recovery_env \<Rightarrow> enrollment_job \<Rightarrow> commit_result recovery" where
  "commit_agent env j =
     then_do (now_at env) (\<lambda>created. then_do (now_at env) (\<lambda>updated.
       let record = activated_record j created updated;
           receipt = (if j_enrollment_method j = SSH_CLI then Some (cli_accept_receipt env j) else None)
       in then_do (store_lease env) (\<lambda>_. then_do (now_at env) (\<lambda>now.
         except_registry
           (then_do (transact (commit_activated_enrollment j record now receipt))
             (\<lambda>_. then_do (log_effect (Registered (j_enrollment_id j))) (\<lambda>_. give Committed)))
           (\<lambda>e. Some (case e of
              RegistryConflict _ \<Rightarrow> (\<lambda>w. case agent_get (a_agent_id record) (rw_db w) of
                  None \<Rightarrow> (Inr AddConflict, w)
                | Some existing \<Rightarrow> (Inr (if same_committed_agent existing record then GaveUp else AddConflict), w))
            | _ \<Rightarrow> give GaveUp))))))"

definition register_activated :: "recovery_env \<Rightarrow> enrollment_job \<Rightarrow> unit recovery" where
  "register_activated env j = then_do (renew_claim env j) (\<lambda>renewed. case renewed of None \<Rightarrow> give ()
     | Some current \<Rightarrow> then_do (commit_agent env current) (\<lambda>r.
         if r = AddConflict then compensate_activated_add_conflict env current else give ()))"

definition activate_and_register :: "recovery_env \<Rightarrow> enrollment_job \<Rightarrow> unit recovery" where
  "activate_and_register env j =
     (let activated = (\<lambda>current. then_do (transition_claimed env current ACTIVATED False)
        (\<lambda>t. case t of None \<Rightarrow> give () | Some c \<Rightarrow> register_activated env c))
      in if j_state j \<noteq> ACTIVATION_REQUESTED then register_activated env j
         else if j_enrollment_method j = LEGACY_ADMIN_TOKEN then activated j
         else then_do (store_read env (j_credential_temp_ref j)) (\<lambda>readable.
           if \<not> readable then fail_claim env j ''credential_store_unavailable''
           else then_do (run_with_recovery_lease env j (Some (Activated (j_remote_credential_id j))))
             (\<lambda>outcome. case outcome of None \<Rightarrow> give ()
              | Some (current, out) \<Rightarrow>
                if failed_call out
                then then_do (record_mutation_failure current (error_code_of out) (error_dispatch_of out))
                  (\<lambda>_. if j_enrollment_method current = LOCAL_SOCKET
                       then residual_claim env current (error_code_of out)
                       else fail_claim env current (error_code_of out))
                else activated current)))"

definition recover_new_agent :: "recovery_env \<Rightarrow> enrollment_job \<Rightarrow> unit recovery" where
  "recover_new_agent env j =
     (if falsy (j_credential_temp_ref j) \<or> falsy (j_requested_display_name j)
      then fail_claim env j ''credential_store_unavailable''
      else if j_enrollment_method j = LEGACY_ADMIN_TOKEN then activate_and_register env j
      else if \<not> v_client env \<or> falsy (j_remote_credential_id j) \<or> falsy (j_validated_http_address j)
      then fail_claim env j ''enrollment_unavailable''
      else case prepare_pinned_job env j of
        Inl (code, dispatch) \<Rightarrow> then_do (record_mutation_failure j code dispatch) (\<lambda>_. fail_claim env j code)
      | Inr _ \<Rightarrow> activate_and_register env j)"

section \<open>Rotation of a credential\<close>

definition compensate_rotation_registry_mismatch :: "recovery_env \<Rightarrow> enrollment_job \<Rightarrow> unit recovery" where
  "compensate_rotation_registry_mismatch env job = then_do (mark_claim_error env job ''agent_changed'')
     (\<lambda>marked. case marked of None \<Rightarrow> give ()
      | Some j \<Rightarrow> then_do (run_with_recovery_lease env j (Some (Revoked (j_remote_credential_id j))))
        (\<lambda>outcome. case outcome of None \<Rightarrow> give ()
         | Some (current, out) \<Rightarrow>
           if failed_call out
           then then_do (record_mutation_failure current (error_code_of out) (error_dispatch_of out))
             (\<lambda>_. residual_claim env current ''agent_changed'')
           else then_do (transition_claimed env (current\<lparr>j_credential_temp_ref := None, j_old_credential_ref := None,
               j_old_remote_credential_id := None, j_validated_http_address := None,
               j_last_error_code := Some ''agent_changed''\<rparr>) FAILED True)
             (\<lambda>failed. case failed of None \<Rightarrow> give ()
              | Some f \<Rightarrow> then_do (record_mutation_failure f ''agent_changed'' ''dispatched'')
                  (\<lambda>_. then_do (store_lease env)
                    (\<lambda>_. then_do (store_delete_if_exists env (py_or (j_credential_temp_ref current) []))
                      (\<lambda>_. give ()))))))"

definition finish_rotation :: "recovery_env \<Rightarrow> enrollment_job \<Rightarrow> unit recovery" where
  "finish_rotation env current = then_do (store_lease env)
     (\<lambda>_. then_do (store_delete_if_exists env (py_or (j_old_credential_ref current) []))
       (\<lambda>deleted. if \<not> deleted then residual_claim env current ''credential_cleanup_failed''
        else then_do (transition_claimed env (current\<lparr>j_credential_temp_ref := None, j_old_credential_ref := None,
            j_old_remote_credential_id := None, j_validated_http_address := None\<rparr>) CONSUMED True)
          (\<lambda>_. give ())))"

definition retire_old_credential :: "recovery_env \<Rightarrow> enrollment_job \<Rightarrow> unit recovery" where
  "retire_old_credential env j = then_do (renew_claim env j) (\<lambda>renewed. case renewed of None \<Rightarrow> give ()
     | Some current \<Rightarrow>
       if j_old_enrollment_method current = Some LEGACY_ADMIN_TOKEN then finish_rotation env current
       else then_do (run_with_recovery_lease env current (Some (Revoked (j_old_remote_credential_id current))))
         (\<lambda>outcome. case outcome of None \<Rightarrow> give ()
          | Some (c, out) \<Rightarrow>
            if failed_call out
            then then_do (record_mutation_failure c (error_code_of out) (error_dispatch_of out))
              (\<lambda>_. residual_claim env c (error_code_of out))
            else finish_rotation env c))"

datatype swap_result = SwapDone | SwapLost | SwapUnavailable

definition swap_agent :: "recovery_env \<Rightarrow> enrollment_job \<Rightarrow> swap_result recovery" where
  "swap_agent env j = then_do (now_at env) (\<lambda>now. except_registry
     (then_do (transact (swap_rotation j now))
       (\<lambda>a. then_do (log_effect (Swapped (a_agent_id a))) (\<lambda>_. give SwapDone)))
     (\<lambda>e. Some (give (case e of RegistryConflict _ \<Rightarrow> SwapLost | RevisionConflict \<Rightarrow> SwapLost | _ \<Rightarrow> SwapUnavailable))))"

definition swap_and_retire :: "recovery_env \<Rightarrow> enrollment_job \<Rightarrow> unit recovery" where
  "swap_and_retire env j w =
     (case agent_get (py_or (j_replace_agent_id j) []) (rw_db w) of
        None \<Rightarrow> residual_claim env j ''agent_not_found'' w
      | Some registered \<Rightarrow>
        if Some (a_revision registered) = j_old_registry_revision j \<and> Some (a_credential_ref registered) = j_old_credential_ref j
        then then_do (swap_agent env j) (\<lambda>r. case r of
            SwapDone \<Rightarrow> retire_old_credential env j
          | SwapLost \<Rightarrow> compensate_rotation_registry_mismatch env j
          | SwapUnavailable \<Rightarrow> residual_claim env j ''agent_registry_unavailable'') w
        else if Some (a_credential_ref registered) \<noteq> j_credential_temp_ref j
        then compensate_rotation_registry_mismatch env j w
        else retire_old_credential env j w)"

definition activate_and_swap :: "recovery_env \<Rightarrow> enrollment_job \<Rightarrow> unit recovery" where
  "activate_and_swap env j =
     (if j_state j \<noteq> ACTIVATION_REQUESTED then swap_and_retire env j
      else then_do (run_with_recovery_lease env j (Some (Activated (j_remote_credential_id j))))
        (\<lambda>outcome. case outcome of None \<Rightarrow> give ()
         | Some (current, out) \<Rightarrow>
           if failed_call out
           then then_do (record_mutation_failure current (error_code_of out) (error_dispatch_of out))
             (\<lambda>_. residual_claim env current (error_code_of out))
           else then_do (transition_claimed env current ACTIVATED False)
             (\<lambda>t. case t of None \<Rightarrow> give () | Some c \<Rightarrow> swap_and_retire env c)))"

definition recover_rotation :: "recovery_env \<Rightarrow> enrollment_job \<Rightarrow> unit recovery" where
  "recover_rotation env j =
     (if j_old_enrollment_method j \<noteq> Some LEGACY_ADMIN_TOKEN \<and> j_remote_instance_id j \<noteq> j_old_instance_id j
      then residual_claim env j ''agent_identity_changed''
      else if \<not> v_client env \<or> j_replace_agent_id j = None \<or> j_credential_temp_ref j = None \<or>
        j_old_credential_ref j = None \<or> j_old_registry_revision j = None \<or> j_old_enrollment_method j = None \<or>
        j_old_display_name j = None \<or> j_validated_http_address j = None
      then residual_claim env j ''enrollment_unavailable''
      else case prepare_pinned_job env j of
        Inl (code, _) \<Rightarrow> residual_claim env j code
      | Inr _ \<Rightarrow> then_do (store_read env (j_credential_temp_ref j)) (\<lambda>readable.
          if \<not> readable then residual_claim env j ''credential_store_unavailable''
          else activate_and_swap env j))"

definition recover_activation :: "recovery_env \<Rightarrow> enrollment_job \<Rightarrow> unit recovery" where
  "recover_activation env j = (if j_replace_agent_id j \<noteq> None then recover_rotation env j else recover_new_agent env j)"

section \<open>Validation of an issued credential\<close>

definition release_claim :: "recovery_env \<Rightarrow> enrollment_job \<Rightarrow> bool recovery" where
  "release_claim env j = then_do (now_at env)
     (\<lambda>now. transact (release_recovery_claim (j_enrollment_id j) (v_owner env) (j_recovery_revision j) now))"

definition cache_validation :: "enrollment_job \<Rightarrow> net_outcome \<Rightarrow> unit recovery" where
  "cache_validation j out w = (case out of NetValue v \<Rightarrow> (Inr (), w\<lparr>rw_cache := (rw_cache w)(j_enrollment_id j \<mapsto> v)\<rparr>)
     | _ \<Rightarrow> (Inr (), w))"

definition validate_issued :: "recovery_env \<Rightarrow> enrollment_job \<Rightarrow> unit recovery" where
  "validate_issued env current = (case prepare_pinned_job env current of
     Inl (code, _) \<Rightarrow> fail_claim env current code
   | Inr _ \<Rightarrow> then_do (store_read env (j_credential_temp_ref current)) (\<lambda>readable.
       if \<not> readable then fail_claim env current ''credential_store_unavailable''
       else if falsy (j_remote_instance_id current) then fail_claim env current ''agent_identity_missing''
       else then_do (run_with_recovery_lease env current None)
         (\<lambda>outcome. case outcome of None \<Rightarrow> give ()
          | Some (c, out) \<Rightarrow>
            if failed_call out then fail_claim env c (error_code_of out)
            else if j_state c = VERIFIED
            then then_do (release_claim env c) (\<lambda>released. if released then cache_validation c out else give ())
            else then_do (transition_claimed env c VERIFIED True)
              (\<lambda>t. case t of None \<Rightarrow> give () | Some v \<Rightarrow> cache_validation v out))))"

definition recover_validation :: "recovery_env \<Rightarrow> enrollment_job \<Rightarrow> unit recovery" where
  "recover_validation env j =
     (if \<not> v_client env then fail_claim env j ''enrollment_unavailable''
      else if falsy (j_credential_temp_ref j) then fail_claim env j ''credential_store_unavailable''
      else if j_enrollment_method j = LEGACY_ADMIN_TOKEN \<and> j_state j = VERIFIED
      then then_do (release_claim env j) (\<lambda>_. give ())
      else if j_enrollment_method j = LEGACY_ADMIN_TOKEN then fail_claim env j ''enrollment_recovery_unavailable''
      else if falsy (j_validated_http_address j) then fail_claim env j ''target_address_forbidden''
      else if j_state j = CREDENTIAL_ISSUED
      then then_do (transition_claimed env j VERIFYING False)
        (\<lambda>t. case t of None \<Rightarrow> give () | Some c \<Rightarrow> validate_issued env c)
      else validate_issued env j)"

section \<open>The recovery loop\<close>

definition recover_one :: "recovery_env \<Rightarrow> string \<Rightarrow> unit recovery" where
  "recover_one env enrollment_id = then_do (now_at env) (\<lambda>now.
     then_do (transact (claim_recovery enrollment_id (v_owner env) now (v_lease_seconds env)))
       (\<lambda>claimed. case claimed of None \<Rightarrow> give ()
        | Some j \<Rightarrow> except_registry
            (if j_state j \<in> {ACTIVATION_REQUESTED, ACTIVATED} \<and> j_save_requested j then recover_activation env j
             else if j_state j \<in> {CREDENTIAL_ISSUED, VERIFYING, VERIFIED} then recover_validation env j
             else give ())
            (\<lambda>_. Some (give ()))))"

definition cleanup_terminal :: "recovery_env \<Rightarrow> enrollment_job \<Rightarrow> unit recovery" where
  "cleanup_terminal env j = (case j_credential_temp_ref j of None \<Rightarrow> give ()
     | Some reference \<Rightarrow> then_do (store_lease env) (\<lambda>_. then_do (store_delete_if_exists env reference)
         (\<lambda>deleted. then_do (now_at env) (\<lambda>now.
           if \<not> deleted
           then then_do (transact (mark_terminal_cleanup_failed (j_enrollment_id j) (j_state j) reference now)) (\<lambda>_. give ())
           else then_do (transact (finish_terminal_cleanup (j_enrollment_id j) (j_state j) reference now)) (\<lambda>_. give ())))))"

fun for_each :: "('a \<Rightarrow> unit recovery) \<Rightarrow> 'a list \<Rightarrow> unit recovery" where
  "for_each f [] = give ()"
| "for_each f (x # xs) = then_do (f x) (\<lambda>_. for_each f xs)"

definition recover_enrollments :: "recovery_env \<Rightarrow> unit recovery" where
  "recover_enrollments env = then_do (now_at env) (\<lambda>now. then_do (transact (prepare_recovery now))
     (\<lambda>ids. then_do (for_each (recover_one env) ids)
       (\<lambda>_ w. for_each (cleanup_terminal env) (list_terminal_cleanup (rw_db w)) w)))"

end
