(* ===== verification/Enrollment_Flows.thy ===== *)
theory Enrollment_Flows
  imports Recovery_Saga Enrollment_Jobs
begin

text \<open>
  The flows of \<open>enrollment/orchestrator.py\<close> that issue a credential and the calls of the API they serve:
  \<open>create_auto\<close> and \<open>start_rotation\<close> with the background task \<open>_run_auto\<close>, the CLI submission, the local
  bootstrap, the validation of a legacy token, \<open>consume\<close>, \<open>consume_rotation\<close>, \<open>update_agent\<close> and the start-up
  convergence \<open>_recover_auto_startup\<close>; with \<open>put\<close> of \<open>enrollment/credential_store.py\<close> and the \<open>prepare\<close>
  methods of \<open>enrollment/agent_client.py\<close>.

  They run on the world of \<open>Recovery_Saga\<close>.  Other coroutines act at every \<open>await\<close>, which is also where a
  task is cancelled.  The environment adds what these flows draw or are given: UUIDs and references, the
  audit log, the result of the SSH, CLI or socket helper, and whether the process is shutting down.
\<close>

section \<open>Environment\<close>

record helper_result =
  h_instance_id :: string
  h_credential_id :: string
  h_token :: string
  h_target :: validated_target

record issuing_env =
  i_run :: recovery_env
  i_jobs :: jobs_config
  i_uuid :: "nat \<Rightarrow> string"
  i_ref :: "nat \<Rightarrow> string"
  i_audit :: bool
  i_audit_ok :: "nat \<Rightarrow> bool"
  i_closing :: "nat \<Rightarrow> bool"
  i_cancelled :: "nat \<Rightarrow> bool"
  i_adapter :: "enrollment_method \<Rightarrow> bool option"
  i_service_key :: bool
  i_helper :: "nat \<Rightarrow> recovery_error + helper_result"
  i_name :: "string \<Rightarrow> string option"

definition raising :: "recovery_error \<Rightarrow> 'a recovery" where
  "raising e w = (Inl e, w)"

definition catching :: "'a recovery \<Rightarrow> (recovery_error \<Rightarrow> 'a recovery) \<Rightarrow> 'a recovery" where
  "catching m h w = (case m w of (Inl e, w') \<Rightarrow> h e w' | (Inr v, w') \<Rightarrow> (Inr v, w'))"

definition clock :: "issuing_env \<Rightarrow> instant recovery" where
  "clock env = now_at (i_run env)"

definition closing :: "issuing_env \<Rightarrow> bool recovery" where
  "closing env = then_do step (\<lambda>k. give (i_closing env k))"

text \<open>
  A \<open>SELECT\<close> outside a transaction; that the read itself raises (a locked or broken database file) is not modelled here.
\<close>

definition reading :: "(manager_db \<Rightarrow> 'a) \<Rightarrow> 'a recovery" where
  "reading f w = (Inr (f (rw_db w)), w)"

text \<open>Calls of \<open>EnrollmentJobs\<close>; the others act between the transactions of one call.\<close>

definition jobs_call :: "'a jobs_call \<Rightarrow> 'a recovery" where
  "jobs_call c w = (case c (rw_db w) of
     (Inl (EnrollmentConflict code), d) \<Rightarrow> (Inl (Conflict code), w\<lparr>rw_db := d\<rparr>)
   | (Inl (JournalError e), d) \<Rightarrow> (Inl (RegistryFailure e), w\<lparr>rw_db := d\<rparr>)
   | (Inr v, d) \<Rightarrow> (Inr v, w\<lparr>rw_db := d\<rparr>))"

definition meanwhile :: "issuing_env \<Rightarrow> interference recovery" where
  "meanwhile env = then_do step (\<lambda>k. give (history run_manager (v_others (i_run env) k)))"

definition get_enrollment :: "issuing_env \<Rightarrow> string \<Rightarrow> enrollment_job recovery" where
  "get_enrollment env e = then_do (clock env) (\<lambda>now. then_do (meanwhile env) (\<lambda>o1. then_do (meanwhile env)
     (\<lambda>o2. jobs_call (jobs_get e now o1 o2))))"

definition replace_now :: "enrollment_job \<Rightarrow> enrollment_state \<Rightarrow> enrollment_job recovery" where
  "replace_now j expected_state = transact (replace_if_state j expected_state None None None)"

text \<open>A call of the agent that is awaited without a lease.\<close>

definition network_call :: "issuing_env \<Rightarrow> string recovery" where
  "network_call env = then_do step (\<lambda>k. then_do (others_act (i_run env)) (\<lambda>_.
     if i_cancelled env k then raising TaskCancelled
     else case v_net (i_run env) k of NetValue v \<Rightarrow> give v
      | NetRefused code dispatch \<Rightarrow> raising (Invalid code dispatch)
      | NetFailed \<Rightarrow> raising OtherFailure))"

section \<open>Storing a credential\<close>

fun put_attempts :: "issuing_env \<Rightarrow> nat \<Rightarrow> string recovery" where
  "put_attempts env 0 = raising StoreFailure"
| "put_attempts env (Suc n) = then_do step (\<lambda>k w.
     if \<not> v_store_ok (i_run env) k then (Inl StoreFailure, w)
     else if i_ref env k \<in> set (rw_creds w) then put_attempts env n w
     else let w' = w\<lparr>rw_creds := rw_creds w @ [i_ref env k], rw_trace := rw_trace w @ [CredentialStored (i_ref env k)]\<rparr>
       in (if v_sync_ok (i_run env) k then Inr (i_ref env k) else Inl StoreFailure, w'))"

definition store_put :: "issuing_env \<Rightarrow> string \<Rightarrow> string recovery" where
  "store_put env secret = (if secret = [] then raising StoreFailure
     else then_do (store_lease (i_run env)) (\<lambda>_. put_attempts env 8))"

section \<open>Audit\<close>

definition record_intent :: "issuing_env \<Rightarrow> string \<Rightarrow> nat recovery" where
  "record_intent env e = then_do step (\<lambda>k w. if \<not> i_audit_ok env k then (Inl OtherFailure, w)
     else (Inr k, w\<lparr>rw_trace := rw_trace w @ [AuditIntent e]\<rparr>))"

definition record_auto_outcome ::
  "issuing_env \<Rightarrow> nat option \<Rightarrow> string \<Rightarrow> string \<Rightarrow> string option \<Rightarrow> unit recovery" where
  "record_auto_outcome env event result dispatch category = (case event of None \<Rightarrow> give ()
     | Some i \<Rightarrow> if \<not> i_audit env then give ()
       else then_do step (\<lambda>k w. (Inr (), if i_audit_ok env k
         then w\<lparr>rw_trace := rw_trace w @ [AuditOutcome i result dispatch category]\<rparr> else w)))"

section \<open>Publishing the helper's credential\<close>

definition publishable :: "enrollment_method \<Rightarrow> enrollment_job \<Rightarrow> enrollment_job \<Rightarrow> bool" where
  "publishable method job current \<longleftrightarrow> j_state current = RUNNING \<and> j_enrollment_method current = method \<and>
     (method = SSH_CLI \<longrightarrow> j_recovery_owner current = j_recovery_owner job \<and>
        j_recovery_revision current = j_recovery_revision job)"

definition issued_update ::
  "helper_result \<Rightarrow> string \<Rightarrow> bool \<Rightarrow> instant \<Rightarrow> enrollment_job \<Rightarrow> enrollment_job" where
  "issued_update helper reference cli now j = j\<lparr>j_state := CREDENTIAL_ISSUED,
     j_remote_instance_id := Some (h_instance_id helper), j_remote_credential_id := Some (h_credential_id helper),
     j_credential_temp_ref := Some reference,
     j_validated_http_address := Some (ip_str (vt_pinned_address (h_target helper))),
     j_recovery_owner := (if cli then None else j_recovery_owner j),
     j_recovery_lease_until := (if cli then None else j_recovery_lease_until j),
     j_recovery_revision := (if cli then j_recovery_revision j + 1 else j_recovery_revision j),
     j_updated_at := now\<rparr>"

definition journal_issued ::
  "issuing_env \<Rightarrow> helper_result \<Rightarrow> string \<Rightarrow> bool \<Rightarrow> enrollment_job \<Rightarrow> enrollment_job recovery" where
  "journal_issued env helper reference cli current = then_do (clock env) (\<lambda>now.
     let issued = issued_update helper reference cli now current in
     if cli then then_do (clock env) (\<lambda>recovery_now. transact (replace_if_state issued RUNNING
         (j_recovery_owner current) (Some (j_recovery_revision current)) (Some recovery_now)))
     else replace_now issued RUNNING)"

definition drop_reference :: "issuing_env \<Rightarrow> string \<Rightarrow> recovery_error \<Rightarrow> 'a recovery" where
  "drop_reference env reference e = then_do (store_delete_if_exists (i_run env) reference)
     (\<lambda>ok. raising (if ok then e else StoreFailure))"

definition publish_issued ::
  "issuing_env \<Rightarrow> enrollment_job \<Rightarrow> helper_result \<Rightarrow> enrollment_method \<Rightarrow> enrollment_job recovery" where
  "publish_issued env job helper method = then_do (store_lease (i_run env)) (\<lambda>_.
     then_do (reading (journal_get (j_enrollment_id job))) (\<lambda>found. case found of None \<Rightarrow> raising StateLost
      | Some current \<Rightarrow>
        if \<not> publishable method job current then raising StateLost
        else then_do (store_put env (h_token helper)) (\<lambda>reference.
          catching (journal_issued env helper reference (method = SSH_CLI) current) (drop_reference env reference))))"

definition drop_validation :: "string \<Rightarrow> unit recovery" where
  "drop_validation e w = (Inr (), w\<lparr>rw_cache := (rw_cache w)(e := None)\<rparr>)"

definition keep_validation :: "string \<Rightarrow> string \<Rightarrow> unit recovery" where
  "keep_validation e v w = (Inr (), w\<lparr>rw_cache := (rw_cache w)(e \<mapsto> v)\<rparr>)"

definition validate_published :: "issuing_env \<Rightarrow> enrollment_job \<Rightarrow> unit recovery" where
  "validate_published env issued = then_do (clock env) (\<lambda>now.
     then_do (replace_now (issued\<lparr>j_state := VERIFYING, j_updated_at := now\<rparr>) CREDENTIAL_ISSUED) (\<lambda>verifying.
       if \<not> v_client (i_run env) then raising (Invalid ''enrollment_unavailable'' ''not_dispatched'')
       else then_do (store_read (i_run env) (j_credential_temp_ref verifying)) (\<lambda>readable.
         if \<not> readable then raising StoreFailure
         else then_do (network_call env) (\<lambda>validation.
           then_do (keep_validation (j_enrollment_id verifying) validation) (\<lambda>_.
             then_do (clock env) (\<lambda>later. catching
               (then_do (replace_now (verifying\<lparr>j_state := VERIFIED, j_updated_at := later\<rparr>) VERIFYING) (\<lambda>_. give ()))
               (\<lambda>e. then_do (drop_validation (j_enrollment_id verifying)) (\<lambda>_. raising e))))))))"

definition publish_managed_helper ::
  "issuing_env \<Rightarrow> enrollment_job \<Rightarrow> helper_result \<Rightarrow> enrollment_method \<Rightarrow> unit recovery" where
  "publish_managed_helper env job helper method =
     then_do (publish_issued env job helper method) (validate_published env)"

section \<open>Automatic enrollment over SSH\<close>

definition converge_auto :: "issuing_env \<Rightarrow> string \<Rightarrow> string \<Rightarrow> enrollment_state \<Rightarrow> unit recovery" where
  "converge_auto env e code st = then_do (reading (journal_get e)) (\<lambda>found. case found of None \<Rightarrow> give ()
     | Some current \<Rightarrow> if j_state current \<noteq> RUNNING then give ()
       else then_do (clock env) (\<lambda>now. except_registry
         (then_do (replace_now (current\<lparr>j_state := st, j_last_error_code := Some code, j_updated_at := now\<rparr>) RUNNING)
           (\<lambda>_. give ()))
         (\<lambda>_. Some (give ()))))"

definition adapter_of :: "issuing_env \<Rightarrow> enrollment_method \<Rightarrow> bool option" where
  "adapter_of env method = i_adapter env (if method = SSH_SERVICE_KEY then SSH_SERVICE_KEY else SSH_AUTO)"

definition call_helper :: "issuing_env \<Rightarrow> string \<Rightarrow> helper_result recovery" where
  "call_helper env e = then_do (log_effect (HelperCalled e)) (\<lambda>_. then_do step (\<lambda>k.
     then_do (others_act (i_run env)) (\<lambda>_. if i_cancelled env k then raising TaskCancelled
       else case i_helper env k of Inl err \<Rightarrow> raising err | Inr helper \<Rightarrow> give helper)))"

definition issue_and_validate_auto :: "issuing_env \<Rightarrow> enrollment_job \<Rightarrow> unit recovery" where
  "issue_and_validate_auto env job =
     (if adapter_of env (j_enrollment_method job) = None \<or> falsy (j_ssh_user job) \<or> falsy (j_ssh_host job) \<or>
         j_ssh_port job = None \<or> j_ssh_port job = Some 0
      then raising (SshFailure ''ssh_unavailable'' ''not_dispatched'')
      else if profile_of (i_run env) (j_transport_profile_id job) = None
      then raising (SshFailure ''ssh_unavailable'' ''not_dispatched'')
      else then_do (call_helper env (j_enrollment_id job)) (\<lambda>helper. then_do (closing env) (\<lambda>c.
        if c then raising StateLost else publish_managed_helper env job helper (j_enrollment_method job))))"

definition auto_failure :: "issuing_env \<Rightarrow> string \<Rightarrow> nat \<Rightarrow> recovery_error \<Rightarrow> unit recovery" where
  "auto_failure env e event err = (let outcome = record_auto_outcome env (Some event) ''failure'' in
     case err of
       TaskCancelled \<Rightarrow> then_do (closing env) (\<lambda>c. if c then raising TaskCancelled
         else then_do (outcome ''unknown'' (Some ''agent_enrollment_cancelled'')) (\<lambda>_. raising TaskCancelled))
     | StateLost \<Rightarrow> then_do (closing env) (\<lambda>c. if c then give ()
         else outcome ''unknown'' (Some ''agent_enrollment_cancelled''))
     | SshFailure code dispatch \<Rightarrow> then_do (converge_auto env e code
           (if code = ''ssh_interaction_required'' then AWAITING_CLI else FAILED))
         (\<lambda>_. outcome dispatch (Some code))
     | StoreFailure \<Rightarrow> then_do (converge_auto env e ''credential_store_unavailable'' FAILED)
         (\<lambda>_. outcome ''dispatched'' (Some ''credential_store_unavailable''))
     | Invalid code dispatch \<Rightarrow> outcome dispatch (Some code)
     | RegistryFailure _ \<Rightarrow> then_do (converge_auto env e ''storage_unavailable'' FAILED)
         (\<lambda>_. outcome ''dispatched'' (Some ''storage_unavailable''))
     | _ \<Rightarrow> then_do (converge_auto env e ''ssh_remote_command_failed'' FAILED)
         (\<lambda>_. outcome ''dispatched'' (Some ''ssh_remote_command_failed'')))"

definition auto_attempt :: "issuing_env \<Rightarrow> string \<Rightarrow> nat \<Rightarrow> unit recovery" where
  "auto_attempt env e i = then_do (clock env) (\<lambda>now. then_do (transact (recheck_auto_dispatch e now))
     (\<lambda>dispatch. case dispatch of
        None \<Rightarrow> record_auto_outcome env (Some i) ''failure'' ''not_dispatched'' (Some ''agent_enrollment_cancelled'')
      | Some j \<Rightarrow> then_do (issue_and_validate_auto env j)
          (\<lambda>_. record_auto_outcome env (Some i) ''success'' ''dispatched'' None)))"

definition run_auto :: "issuing_env \<Rightarrow> enrollment_job \<Rightarrow> unit recovery" where
  "run_auto env job = (let e = j_enrollment_id job in
     if \<not> i_audit env then converge_auto env e ''audit_unavailable'' FAILED
     else then_do (catching (then_do (record_intent env e) (\<lambda>i. give (Some i))) (\<lambda>_. give None))
       (\<lambda>event. case event of None \<Rightarrow> converge_auto env e ''audit_unavailable'' FAILED
        | Some i \<Rightarrow> catching (auto_attempt env e i) (auto_failure env e i)))"

definition schedule_auto :: "issuing_env \<Rightarrow> enrollment_job \<Rightarrow> unit recovery" where
  "schedule_auto env job = then_do (closing env) (\<lambda>c w.
     (Inr (), if c \<or> j_enrollment_id job \<in> set (rw_tasks w) then w
       else w\<lparr>rw_tasks := rw_tasks w @ [j_enrollment_id job]\<rparr>))"

definition awaiting_cli :: "instant \<Rightarrow> enrollment_job \<Rightarrow> enrollment_job" where
  "awaiting_cli now j = j\<lparr>j_state := AWAITING_CLI, j_enrollment_method := SSH_CLI,
     j_last_error_code := Some ''ssh_unavailable'', j_updated_at := now\<rparr>"

definition auto_method :: "issuing_env \<Rightarrow> enrollment_method" where
  "auto_method env = (if i_service_key env then SSH_SERVICE_KEY else SSH_AUTO)"

definition dispatch_pending :: "issuing_env \<Rightarrow> enrollment_job \<Rightarrow> enrollment_job recovery" where
  "dispatch_pending env pending = then_do (closing env) (\<lambda>c.
     if c \<or> adapter_of env (auto_method env) \<noteq> Some True
     then then_do (clock env) (\<lambda>now. replace_now (awaiting_cli now pending) PENDING)
     else then_do (clock env) (\<lambda>now. then_do (transact (claim_pending_auto (j_enrollment_id pending) now))
       (\<lambda>claimed. case claimed of
          None \<Rightarrow> then_do (reading (journal_get (j_enrollment_id pending))) (\<lambda>current. case current of
             None \<Rightarrow> raising (RegistryFailure RegistryError) | Some j \<Rightarrow> give j)
        | Some running \<Rightarrow> then_do (schedule_auto env running) (\<lambda>_. give running))))"

definition create_auto :: "issuing_env \<Rightarrow> enrollment_job_request \<Rightarrow> enrollment_job recovery" where
  "create_auto env q = then_do (clock env) (\<lambda>now. then_do step (\<lambda>k.
     then_do (jobs_call (jobs_create (i_jobs env) (i_uuid env k) None (q\<lparr>q_enrollment_method := auto_method env\<rparr>) PENDING now))
       (dispatch_pending env)))"

definition start_rotation ::
  "issuing_env \<Rightarrow> string \<Rightarrow> string \<Rightarrow> string \<Rightarrow> int \<Rightarrow> enrollment_job recovery" where
  "start_rotation env agent_id ssh_user ssh_host ssh_port = then_do (clock env) (\<lambda>now. then_do step (\<lambda>k.
     then_do (jobs_call (jobs_create_rotation (i_jobs env) (i_uuid env k)
         \<lparr>q_normalized_endpoint = ''rotation-captured'', q_transport_profile_id = ''rotation-captured'',
          q_display_name = None, q_ssh_user = Some ssh_user, q_ssh_host = Some ssh_host, q_ssh_port = Some ssh_port,
          q_enrollment_method = auto_method env, q_discovery_result_id = None, q_replace_agent_id = Some agent_id\<rparr> now))
       (dispatch_pending env)))"

section \<open>Start-up\<close>

definition ssh_methods :: "enrollment_method list" where
  "ssh_methods = [SSH_AUTO, SSH_CLI, SSH_SERVICE_KEY]"

definition interrupted :: "instant \<Rightarrow> enrollment_job \<Rightarrow> enrollment_job" where
  "interrupted now j = j\<lparr>j_state := AWAITING_CLI, j_enrollment_method := SSH_CLI,
     j_last_error_code := Some ''ssh_interaction_required'', j_recovery_owner := None, j_recovery_lease_until := None,
     j_recovery_revision := j_recovery_revision j + 1, j_updated_at := now\<rparr>"

definition startup_one :: "issuing_env \<Rightarrow> enrollment_job \<Rightarrow> unit recovery" where
  "startup_one env job =
     (if j_enrollment_method job \<notin> set ssh_methods then give ()
      else if j_enrollment_method job \<in> {SSH_AUTO, SSH_SERVICE_KEY} \<and> j_state job = PENDING
      then if adapter_of env (j_enrollment_method job) \<noteq> Some True
        then then_do (clock env) (\<lambda>now. then_do (replace_now (awaiting_cli now job) PENDING) (\<lambda>_. give ()))
        else then_do (clock env) (\<lambda>now. then_do (transact (claim_pending_auto (j_enrollment_id job) now))
          (\<lambda>claimed. case claimed of None \<Rightarrow> give () | Some running \<Rightarrow> schedule_auto env running))
      else if j_enrollment_method job = SSH_CLI then give ()
      else (\<lambda>w. if j_state job = RUNNING \<and> j_credential_temp_ref job = None \<and>
            j_enrollment_id job \<notin> set (rw_tasks w)
          then then_do (clock env) (\<lambda>now. then_do (replace_now (interrupted now job) RUNNING) (\<lambda>_. give ())) w
          else give () w))"

definition recover_auto_startup :: "issuing_env \<Rightarrow> unit recovery" where
  "recover_auto_startup env = then_do (reading list_non_terminal) (for_each (startup_one env))"

section \<open>Targets\<close>

definition prepared :: "issuing_env \<Rightarrow> string \<Rightarrow> (transport_profile \<Rightarrow> validated_target checked) \<Rightarrow> validated_target recovery" where
  "prepared env pid f = (case profile_of (i_run env) pid of
     None \<Rightarrow> raising (Invalid ''transport_profile_invalid'' ''not_dispatched'')
   | Some profile \<Rightarrow> (case f profile of Inl code \<Rightarrow> raising (Invalid code ''not_dispatched'') | Inr t \<Rightarrow> give t))"

definition prepare :: "issuing_env \<Rightarrow> string \<Rightarrow> string \<Rightarrow> validated_target recovery" where
  "prepare env endpoint pid = prepared env pid (resolve (v_policy (i_run env)) endpoint)"

definition prepare_local :: "issuing_env \<Rightarrow> string \<Rightarrow> string \<Rightarrow> validated_target recovery" where
  "prepare_local env endpoint pid = prepared env pid (resolve_local_socket (v_policy (i_run env)) endpoint)"

definition cli_target :: "agent_target_policy \<Rightarrow> string \<Rightarrow> string \<Rightarrow> int \<Rightarrow> string \<Rightarrow> transport_profile
    \<Rightarrow> validated_target checked" where
  "cli_target pol endpoint ssh_host ssh_port pinned_address profile =
     (case resolve pol endpoint profile of Inl code \<Rightarrow> Inl code
      | Inr http_target \<Rightarrow>
        let scheme = (case profile of TrustedLanHttp _ _ \<Rightarrow> ''http'' | _ \<Rightarrow> ''https'');
            url_host = (if CHR '':'' \<in> set ssh_host then ''['' @ ssh_host @ '']'' else ssh_host) in
        (case resolve pol (scheme @ ''://'' @ url_host @ '':'' @ show_int ssh_port) profile of Inl code \<Rightarrow> Inl code
         | Inr ssh_target \<Rightarrow>
           (case ip_address pinned_address of None \<Rightarrow> Inl ''target_address_forbidden''
            | Some pinned \<Rightarrow>
              if ip_str pinned \<noteq> pinned_address \<or> pinned \<notin> set (vt_resolved_addresses http_target) \<or>
                 pinned \<notin> set (vt_resolved_addresses ssh_target)
              then Inl ''agent_identity_mismatch'' else Inr (http_target\<lparr>vt_pinned_address := pinned\<rparr>))))"

definition prepare_cli_target ::
  "issuing_env \<Rightarrow> string \<Rightarrow> string \<Rightarrow> string \<Rightarrow> int \<Rightarrow> string \<Rightarrow> validated_target recovery" where
  "prepare_cli_target env endpoint pid ssh_host ssh_port pinned_address =
     prepared env pid (cli_target (v_policy (i_run env)) endpoint ssh_host ssh_port pinned_address)"

definition pinned_target :: "issuing_env \<Rightarrow> string \<Rightarrow> string \<Rightarrow> string \<Rightarrow> validated_target recovery" where
  "pinned_target env endpoint pid stored_ip = (case prepare_pinned (i_run env) endpoint pid stored_ip of
     Inl (code, dispatch) \<Rightarrow> raising (Invalid code dispatch) | Inr t \<Rightarrow> give t)"

section \<open>Submission over the CLI\<close>

record cli_claim =
  cc_job :: enrollment_job
  cc_target :: "validated_target option"
  cc_input_fingerprint :: string
  cc_audit_event_id :: nat
  cc_nonce :: string
  cc_already_accepted :: bool

record cli_submission =
  cs_enrollment_id :: string
  cs_ssh_user :: string
  cs_ssh_host :: string
  cs_ssh_port :: int
  cs_pinned_address :: string
  cs_peer_uid :: int
  cs_resume_nonce :: "string option"

definition cli_fingerprint :: "issuing_env \<Rightarrow> enrollment_job \<Rightarrow> string" where
  "cli_fingerprint env job = job_input_fingerprint (v_sha256 (i_run env)) (job\<lparr>j_enrollment_method := SSH_CLI\<rparr>)"

definition receipt_for :: "issuing_env \<Rightarrow> string \<Rightarrow> string \<Rightarrow> int \<Rightarrow> string \<Rightarrow> string \<Rightarrow> string" where
  "receipt_for env e nonce uid fp pin = v_sha256 (i_run env) (receipt_payload e nonce uid fp pin)"

abbreviation cli_conflict :: "'a recovery" where
  "cli_conflict \<equiv> raising (Invalid ''agent_enrollment_conflict'' ''not_dispatched'')"

definition accepted_states :: "enrollment_state list" where
  "accepted_states = [CREDENTIAL_ISSUED, VERIFYING, VERIFIED, ACTIVATION_REQUESTED, ACTIVATED]"

definition resume_cli :: "issuing_env \<Rightarrow> cli_submission \<Rightarrow> nat \<Rightarrow> enrollment_job \<Rightarrow> string \<Rightarrow> cli_claim recovery" where
  "resume_cli env q event job nonce =
     (let fp = cli_fingerprint env job; pin = cs_pinned_address q; uid = cs_peer_uid q;
          accepted = \<lparr>cc_job = job, cc_target = None, cc_input_fingerprint = fp, cc_audit_event_id = event,
            cc_nonce = nonce, cc_already_accepted = True\<rparr>
      in if \<not> uuid_canonical nonce \<or> \<not> canonical_ip pin \<or> uid < 0 then cli_conflict
         else if j_state job = CONSUMED
         then if j_cli_accept_receipt job = Some (receipt_for env (j_enrollment_id job) nonce uid fp pin)
           then give accepted else cli_conflict
         else if \<not> (j_enrollment_method job = SSH_CLI \<and> j_cli_resume_nonce job = Some nonce \<and>
             j_cli_peer_uid job = Some uid \<and> j_cli_input_fingerprint job = Some fp \<and> j_cli_pinned_address job = Some pin)
         then cli_conflict
         else then_do (pinned_target env (j_normalized_endpoint job) (j_transport_profile_id job) pin) (\<lambda>target.
           if j_state job \<in> set accepted_states then give (accepted\<lparr>cc_target := Some target\<rparr>)
           else then_do (clock env) (\<lambda>now.
             if j_state job = RUNNING \<and> j_recovery_owner job = Some nonce \<and> sql_gt (j_recovery_lease_until job) now
             then give (accepted\<lparr>cc_target := Some target, cc_already_accepted := False\<rparr>)
             else cli_conflict)))"

definition cli_claimed :: "string \<Rightarrow> int \<Rightarrow> string \<Rightarrow> string \<Rightarrow> instant \<Rightarrow> enrollment_job \<Rightarrow> enrollment_job" where
  "cli_claimed nonce uid fp pin now j = j\<lparr>j_state := RUNNING, j_enrollment_method := SSH_CLI,
     j_recovery_owner := Some nonce, j_recovery_lease_until := Some (j_expires_at j),
     j_recovery_revision := j_recovery_revision j + 1, j_cli_resume_nonce := Some nonce,
     j_cli_peer_uid := Some uid, j_cli_input_fingerprint := Some fp, j_cli_pinned_address := Some pin,
     j_updated_at := now\<rparr>"

definition start_cli :: "issuing_env \<Rightarrow> cli_submission \<Rightarrow> nat \<Rightarrow> enrollment_job \<Rightarrow> cli_claim recovery" where
  "start_cli env q event job =
     (if j_state job \<noteq> AWAITING_CLI then cli_conflict
      else then_do (prepare_cli_target env (j_normalized_endpoint job) (j_transport_profile_id job) (cs_ssh_host q)
          (cs_ssh_port q) (cs_pinned_address q)) (\<lambda>target. then_do step (\<lambda>k.
        let nonce = i_uuid env k; fp = cli_fingerprint env job in
        then_do (clock env) (\<lambda>now.
          then_do (replace_now (cli_claimed nonce (cs_peer_uid q) fp (cs_pinned_address q) now job) AWAITING_CLI)
            (\<lambda>claimed. give \<lparr>cc_job = claimed, cc_target = Some target, cc_input_fingerprint = fp,
               cc_audit_event_id = event, cc_nonce = nonce, cc_already_accepted = False\<rparr>)))))"

definition code_or :: "string \<Rightarrow> recovery_error \<Rightarrow> string" where
  "code_or fallback e = (case e of Invalid code _ \<Rightarrow> code | SagaFailure code _ \<Rightarrow> code | Conflict code \<Rightarrow> code
     | SshFailure code _ \<Rightarrow> code | SocketFailure code \<Rightarrow> code | _ \<Rightarrow> fallback)"

definition begin_cli_submission :: "issuing_env \<Rightarrow> cli_submission \<Rightarrow> cli_claim recovery" where
  "begin_cli_submission env q = then_do (closing env) (\<lambda>c.
     if c \<or> \<not> v_client (i_run env) \<or> \<not> i_audit env
     then raising (Invalid ''enrollment_unavailable'' ''not_dispatched'')
     else then_do (catching (record_intent env (cs_enrollment_id q))
         (\<lambda>_. raising (Invalid ''audit_unavailable'' ''not_dispatched''))) (\<lambda>event.
       catching (then_do (get_enrollment env (cs_enrollment_id q)) (\<lambda>job.
         if (j_ssh_user job, j_ssh_host job, j_ssh_port job) \<noteq> (Some (cs_ssh_user q), Some (cs_ssh_host q), Some (cs_ssh_port q))
         then raising (Invalid ''agent_enrollment_input_changed'' ''not_dispatched'')
         else case cs_resume_nonce q of Some nonce \<Rightarrow> resume_cli env q event job nonce | None \<Rightarrow> start_cli env q event job))
       (\<lambda>e. then_do (record_auto_outcome env (Some event) ''failure'' ''not_dispatched''
           (Some (case e of Invalid code _ \<Rightarrow> code | _ \<Rightarrow> ''storage_unavailable''))) (\<lambda>_. raising e))))"

definition complete_cli :: "issuing_env \<Rightarrow> cli_claim \<Rightarrow> string \<Rightarrow> string \<Rightarrow> enrollment_job recovery" where
  "complete_cli env c input_fingerprint nonce =
     (if nonce \<noteq> cc_nonce c \<or> input_fingerprint \<noteq> cc_input_fingerprint c
      then raising (Invalid ''agent_enrollment_input_changed'' ''dispatched'')
      else let e = j_enrollment_id (cc_job c) in
        then_do (clock env) (\<lambda>now. then_do (transact (recheck_cli_submission e (cc_nonce c)
            (j_recovery_revision (cc_job c)) now)) (\<lambda>checked. case checked of
          None \<Rightarrow> then_do (reading (journal_get e)) (\<lambda>latest. raising (Invalid
            (if \<exists>j\<in>set_option latest. j_state j = EXPIRED then ''agent_enrollment_expired''
             else ''agent_enrollment_conflict'') ''dispatched''))
        | Some current \<Rightarrow>
          if cc_target c = None then raising (Invalid ''agent_enrollment_conflict'' ''dispatched'')
          else then_do step (\<lambda>k. case i_helper env k of Inl err \<Rightarrow> raising err
            | Inr helper \<Rightarrow>
              then_do (publish_managed_helper env current (helper\<lparr>h_target := the (cc_target c)\<rparr>) SSH_CLI) (\<lambda>_.
                then_do (record_auto_outcome env (Some (cc_audit_event_id c)) ''success'' ''dispatched'' None)
                  (\<lambda>_. get_enrollment env e))))))"

definition complete_cli_submission :: "issuing_env \<Rightarrow> cli_claim \<Rightarrow> string \<Rightarrow> string \<Rightarrow> enrollment_job recovery" where
  "complete_cli_submission env c input_fingerprint nonce =
     catching (complete_cli env c input_fingerprint nonce) (\<lambda>e. if e = TaskCancelled then raising e
       else then_do (record_auto_outcome env (Some (cc_audit_event_id c)) ''failure'' ''dispatched''
           (Some (code_or ''ssh_remote_command_failed'' e))) (\<lambda>_. raising e))"

definition release_cli_connection :: "issuing_env \<Rightarrow> cli_claim \<Rightarrow> bool \<Rightarrow> string \<Rightarrow> unit recovery" where
  "release_cli_connection env c result_received code =
     (if code = ''already_accepted''
      then record_auto_outcome env (Some (cc_audit_event_id c)) ''success'' ''not_dispatched'' None
      else record_auto_outcome env (Some (cc_audit_event_id c)) ''failure''
        (if result_received then ''dispatched'' else ''unknown'') (Some code))"

section \<open>Saving an enrollment\<close>

definition pop_failure :: "string \<Rightarrow> (string \<times> string) option recovery" where
  "pop_failure e w = (Inr (rw_failures w e), w\<lparr>rw_failures := (rw_failures w)(e := None)\<rparr>)"

text \<open>What \<open>consume\<close> and \<open>consume_rotation\<close> report after the recovery run they trigger.\<close>

definition saved_record :: "string \<Rightarrow> string \<Rightarrow> agent_record recovery" where
  "saved_record e agent_id = then_do (reading (journal_get e)) (\<lambda>current. then_do (reading (agent_get agent_id)) (\<lambda>found.
     case (current, found) of
       (Some j, Some a) \<Rightarrow> if j_state j = CONSUMED then give a
         else then_do (pop_failure e) (\<lambda>f. case f of Some (code, dispatch) \<Rightarrow> raising (SagaFailure code dispatch)
           | None \<Rightarrow> raising (SagaFailure (py_or (j_last_error_code j) ''agent_enrollment_activation_pending'') ''unknown''))
     | _ \<Rightarrow> then_do (pop_failure e) (\<lambda>f. case f of Some (code, dispatch) \<Rightarrow> raising (SagaFailure code dispatch)
           | None \<Rightarrow> raising (SagaFailure (py_or (Option.bind current j_last_error_code)
               ''agent_enrollment_activation_pending'') ''unknown''))))"

definition consume_enrollment ::
  "issuing_env \<Rightarrow> string \<Rightarrow> string option \<Rightarrow> string \<Rightarrow> agent_record recovery" where
  "consume_enrollment env e display_name input_fingerprint =
     then_do (get_enrollment env e) (\<lambda>current.
       if j_state current = CONSUMED then raising (Conflict ''agent_enrollment_consumed'')
       else if j_state current = EXPIRED then raising (Conflict ''agent_enrollment_expired'')
       else if j_state current \<noteq> VERIFIED then raising (Conflict ''agent_enrollment_not_verified'')
       else if input_fingerprint \<noteq> job_input_fingerprint (v_sha256 (i_run env)) current
       then raising (Conflict ''agent_enrollment_input_changed'')
       else (\<lambda>w. let name = py_or display_name (py_or (j_requested_display_name current)
                (case rw_cache w e of None \<Rightarrow> [] | Some v \<Rightarrow> py_or (i_name env v) [])) in
         (if name = [] then raising (Conflict ''agent_display_name_required'')
          else then_do (reading (find_duplicate (j_remote_instance_id current) (j_normalized_endpoint current))) (\<lambda>dup.
            if dup \<noteq> [] then raising (Conflict ''agent_already_registered'')
            else then_do (clock env) (\<lambda>now. then_do (meanwhile env) (\<lambda>o1. then_do (meanwhile env) (\<lambda>o2.
              then_do (meanwhile env) (\<lambda>o3. then_do (jobs_call
                  (jobs_consume (v_sha256 (i_run env)) e name input_fingerprint now o1 o2 o3)) (\<lambda>requested.
                then_do (recover_enrollments (i_run env)) (\<lambda>_.
                  saved_record (j_enrollment_id requested) (j_enrollment_id requested))))))))) w))"

definition consume_rotation_flow :: "issuing_env \<Rightarrow> string \<Rightarrow> string \<Rightarrow> agent_record recovery" where
  "consume_rotation_flow env agent_id e = then_do (get_enrollment env e) (\<lambda>current.
     then_do (reading (agent_get agent_id)) (\<lambda>registered. case registered of
       None \<Rightarrow> raising (Conflict ''agent_not_found'')
     | Some a \<Rightarrow>
       if j_replace_agent_id current \<noteq> Some agent_id then raising (Conflict ''agent_enrollment_conflict'')
       else if j_old_enrollment_method current \<noteq> Some LEGACY_ADMIN_TOKEN \<and>
          j_remote_instance_id current \<noteq> j_old_instance_id current
       then raising (SagaFailure ''agent_identity_changed'' ''not_dispatched'')
       else then_do (clock env) (\<lambda>now. then_do (jobs_call (jobs_consume_rotation e agent_id
           (py_or (j_old_display_name current) (a_display_name a)) now)) (\<lambda>requested.
         then_do (recover_enrollments (i_run env)) (\<lambda>_. saved_record (j_enrollment_id requested) agent_id)))))"

section \<open>Local bootstrap\<close>

record local_bootstrap_request =
  lb_agent_id :: string
  lb_display_name :: string
  lb_base_url :: string
  lb_transport_profile_id :: string

definition local_bootstrap_profile_id :: string where
  "local_bootstrap_profile_id = ''local-loopback-http''"

definition local_bootstrap_source :: string where
  "local_bootstrap_source = ''local_dev_bootstrap''"

definition normalize_local_error :: "recovery_error \<Rightarrow> string \<times> string" where
  "normalize_local_error e = (case e of
     Invalid code dispatch \<Rightarrow> (code, dispatch)
   | SagaFailure code dispatch \<Rightarrow> (code, dispatch)
   | SocketFailure code \<Rightarrow> (code, if code \<in> {''local_socket_path_rejected'', ''local_enrollment_request_invalid''}
       then ''not_dispatched'' else ''unknown'')
   | StoreFailure \<Rightarrow> (''credential_store_unavailable'', ''unknown'')
   | RegistryFailure _ \<Rightarrow> (''storage_unavailable'', ''unknown'')
   | Conflict code \<Rightarrow> (code, ''not_dispatched'')
   | _ \<Rightarrow> (''local_bootstrap_failed'', ''unknown''))"

definition revoke_call :: "issuing_env \<Rightarrow> string \<Rightarrow> bool recovery" where
  "revoke_call env credential_id = catching
     (then_do (network_call env) (\<lambda>_. then_do (log_effect (Revoked (Some credential_id))) (\<lambda>_. give True)))
     (\<lambda>e. if e = TaskCancelled then raising e else give False)"

definition clean_quietly :: "issuing_env \<Rightarrow> enrollment_job option \<Rightarrow> unit recovery" where
  "clean_quietly env current = (case current of None \<Rightarrow> give ()
     | Some j \<Rightarrow> if \<not> terminal (j_state j) then give ()
       else catching (cleanup_terminal (i_run env) j) (\<lambda>_. give ()))"

definition compensate_local_bootstrap ::
  "issuing_env \<Rightarrow> string \<Rightarrow> helper_result option \<Rightarrow> string \<Rightarrow> unit recovery" where
  "compensate_local_bootstrap env e helper code = then_do (reading (journal_get e)) (\<lambda>current.
     if \<exists>j\<in>set_option current. j_state j \<in> {ACTIVATION_REQUESTED, ACTIVATED} then give ()
     else then_do (case helper of None \<Rightarrow> give True
         | Some h \<Rightarrow> if v_client (i_run env) then revoke_call env (h_credential_id h) else give True) (\<lambda>revoked.
       if \<not> revoked then give ()
       else case current of None \<Rightarrow> give ()
        | Some j \<Rightarrow>
          if terminal (j_state j) then give ()
          else if j_recovery_owner j = Some (v_owner (i_run env))
          then then_do (fail_claim (i_run env) j code) (\<lambda>_. then_do (reading (journal_get e)) (clean_quietly env))
          else then_do (clock env) (\<lambda>now. then_do (except_registry
              (then_do (replace_now (j\<lparr>j_state := FAILED, j_last_error_code := Some code, j_updated_at := now\<rparr>) (j_state j))
                (\<lambda>v. give (Some v)))
              (\<lambda>_. Some (give None))) (clean_quietly env))))"

definition finish_local_failure ::
  "issuing_env \<Rightarrow> string \<Rightarrow> helper_result option \<Rightarrow> nat option \<Rightarrow> string \<times> string \<Rightarrow> unit recovery" where
  "finish_local_failure env e helper event err = (let outcome =
       record_auto_outcome env event ''failure'' (snd err) (Some (fst err)) in
     catching (then_do (compensate_local_bootstrap env e helper (fst err)) (\<lambda>_. outcome))
       (\<lambda>x. then_do outcome (\<lambda>_. if x = TaskCancelled then raising x else give ())))"

definition local_job :: "issuing_env \<Rightarrow> local_bootstrap_request \<Rightarrow> validated_target \<Rightarrow> enrollment_job recovery" where
  "local_job env q target =
     (let e = lb_agent_id q;
          request = \<lparr>q_normalized_endpoint = vt_normalized_endpoint target,
            q_transport_profile_id = lb_transport_profile_id q, q_display_name = Some (lb_display_name q),
            q_ssh_user = None, q_ssh_host = None, q_ssh_port = None, q_enrollment_method = LOCAL_SOCKET,
            q_discovery_result_id = None, q_replace_agent_id = None\<rparr>;
          pending = raising (Invalid ''local_bootstrap_retry_pending'' ''not_dispatched'')
      in then_do (clock env) (\<lambda>now. then_do (reading (journal_get e)) (\<lambda>found. case found of
           None \<Rightarrow> jobs_call (jobs_create (i_jobs env) [] (Some e) request PENDING now)
         | Some _ \<Rightarrow> then_do (meanwhile env) (\<lambda>o1. then_do (meanwhile env) (\<lambda>o2.
             then_do (jobs_call (jobs_get e now o1 o2)) (\<lambda>current.
               if j_enrollment_method current \<noteq> LOCAL_SOCKET \<or>
                  j_normalized_endpoint current \<noteq> vt_normalized_endpoint target \<or>
                  j_transport_profile_id current \<noteq> lb_transport_profile_id q \<or>
                  j_requested_display_name current \<noteq> Some (lb_display_name q)
               then raising (Invalid ''local_bootstrap_conflict'' ''not_dispatched'')
               else if j_state current = CONSUMED \<or> \<not> terminal (j_state current) \<or> now < j_expires_at current
               then pending
               else then_do (if j_credential_temp_ref current = None then give ()
                     else cleanup_terminal (i_run env) current) (\<lambda>_.
                 then_do (reading (journal_get e)) (\<lambda>cleaned.
                   if j_credential_temp_ref current \<noteq> None \<and>
                      (\<exists>j\<in>set_option cleaned. j_credential_temp_ref j \<noteq> None) then pending
                   else catching (jobs_call (jobs_rearm_expired_local (i_jobs env) request e now))
                     (\<lambda>x. raising (case x of Conflict code \<Rightarrow> Invalid code ''not_dispatched'' | _ \<Rightarrow> x))))))))))"

definition local_issue ::
  "issuing_env \<Rightarrow> local_bootstrap_request \<Rightarrow> enrollment_job \<Rightarrow> nat \<Rightarrow>
     ((recovery_error \<times> helper_result option) + agent_record) recovery" where
  "local_issue env q running event = (let e = j_enrollment_id running in
     catching (then_do (call_helper env e) (\<lambda>helper.
         catching (then_do (closing env) (\<lambda>c. if c then raising (Invalid ''local_bootstrap_cancelled'' ''unknown'')
           else then_do (publish_managed_helper env running helper LOCAL_SOCKET) (\<lambda>_.
             then_do (consume_enrollment env e (Some (lb_display_name q))
               (job_input_fingerprint (v_sha256 (i_run env)) running)) (\<lambda>a. give (Inr a)))))
         (\<lambda>x. give (Inl (x, Some helper)))))
       (\<lambda>x. give (Inl (x, None))))"

definition bootstrap_local_body :: "issuing_env \<Rightarrow> local_bootstrap_request \<Rightarrow> bool \<Rightarrow> agent_record recovery" where
  "bootstrap_local_body env q enabled = then_do (closing env) (\<lambda>c.
     if \<not> enabled \<or> \<not> v_client (i_run env) \<or> c then raising (Invalid ''local_bootstrap_disabled'' ''not_dispatched'')
     else if lb_transport_profile_id q \<noteq> local_bootstrap_profile_id
     then raising (Invalid ''local_bootstrap_profile_invalid'' ''not_dispatched'')
     else then_do (reading (agent_get (lb_agent_id q))) (\<lambda>existing. case existing of
       Some a \<Rightarrow> if a_enrollment_method a = LOCAL_SOCKET \<and> a_source a = local_bootstrap_source \<and>
            a_normalized_endpoint a = lb_base_url q \<and> a_transport_profile_id a = lb_transport_profile_id q \<and>
            a_display_name a = lb_display_name q
          then give a else raising (Invalid ''local_bootstrap_conflict'' ''not_dispatched'')
     | None \<Rightarrow> then_do (prepare_local env (lb_base_url q) (lb_transport_profile_id q)) (\<lambda>target.
         then_do (local_job env q target) (\<lambda>pending. then_do (clock env) (\<lambda>now.
           then_do (replace_now (pending\<lparr>j_state := RUNNING, j_updated_at := now\<rparr>) PENDING) (\<lambda>running.
             let e = j_enrollment_id running;
                 failed = (\<lambda>event helper x. if x = TaskCancelled
                   then then_do (catching (finish_local_failure env e helper event (''local_bootstrap_cancelled'', ''unknown''))
                     (\<lambda>_. give ())) (\<lambda>_. raising TaskCancelled)
                   else then_do (finish_local_failure env e helper event (normalize_local_error x))
                     (\<lambda>_. raising (case normalize_local_error x of (code, dispatch) \<Rightarrow> Invalid code dispatch)))
             in then_do (catching (then_do (if i_audit env then record_intent env e else raising OtherFailure)
                   (\<lambda>i. give (Some i))) (\<lambda>_. give None)) (\<lambda>event. case event of
                 None \<Rightarrow> failed None None (Invalid ''audit_unavailable'' ''not_dispatched'')
               | Some i \<Rightarrow> then_do (local_issue env q running i) (\<lambda>r. case r of
                   Inl (x, helper) \<Rightarrow> failed (Some i) helper x
                 | Inr a \<Rightarrow> then_do (record_auto_outcome env (Some i) ''success'' ''dispatched'' None) (\<lambda>_. give a)))))))))"

definition bootstrap_local :: "issuing_env \<Rightarrow> local_bootstrap_request \<Rightarrow> bool \<Rightarrow> agent_record recovery" where
  "bootstrap_local env q enabled = catching (bootstrap_local_body env q enabled)
     (\<lambda>x. raising (if x = TaskCancelled then x else case normalize_local_error x of (code, dispatch) \<Rightarrow> Invalid code dispatch))"

end
