(* ===== verification/Agent_Updates.thy ===== *)
theory Agent_Updates
  imports Enrollment_Flows
begin

text \<open>
  The remaining calls of \<open>enrollment/orchestrator.py\<close> that change agents and credentials: \<open>validate_legacy\<close>,
  \<open>update_agent\<close>, \<open>cancel\<close>, and \<open>cleanup_orphans\<close> of \<open>enrollment/credential_store.py\<close>.
\<close>

section \<open>Validation of a legacy token\<close>

definition legacy_failed :: "issuing_env \<Rightarrow> string \<Rightarrow> recovery_error \<Rightarrow> 'a recovery" where
  "legacy_failed env e x =
     (let code = (case x of Invalid code _ \<Rightarrow> code | _ \<Rightarrow> ''credential_store_unavailable'') in
      then_do (reading (journal_get e)) (\<lambda>found. then_do (case found of None \<Rightarrow> give ()
          | Some current \<Rightarrow> if terminal (j_state current) then give ()
            else catching (then_do (clock env) (\<lambda>now. then_do (replace_now
                (current\<lparr>j_state := FAILED, j_last_error_code := Some code, j_updated_at := now\<rparr>) (j_state current))
              (cleanup_terminal (i_run env)))) (\<lambda>_. give ()))
        (\<lambda>_. raising (if x = StoreFailure then Invalid ''credential_store_unavailable'' ''not_dispatched'' else x))))"

definition legacy_body :: "issuing_env \<Rightarrow> string \<Rightarrow> enrollment_job \<Rightarrow> enrollment_job recovery" where
  "legacy_body env token job =
     then_do (store_lease (i_run env)) (\<lambda>_. then_do (store_put env token) (\<lambda>reference.
       then_do (clock env) (\<lambda>t1. then_do (replace_now (job\<lparr>j_state := RUNNING, j_updated_at := t1\<rparr>) PENDING) (\<lambda>running.
         then_do (clock env) (\<lambda>t2. then_do (replace_now (running\<lparr>j_state := CREDENTIAL_ISSUED,
             j_credential_temp_ref := Some reference, j_updated_at := t2\<rparr>) RUNNING) (\<lambda>issued.
           then_do (clock env) (\<lambda>t3. then_do (replace_now (issued\<lparr>j_state := VERIFYING, j_updated_at := t3\<rparr>)
               CREDENTIAL_ISSUED) (\<lambda>verifying.
             then_do (store_read (i_run env) (Some reference)) (\<lambda>readable. if \<not> readable then raising StoreFailure
               else then_do (network_call env) (\<lambda>validation. then_do (clock env) (\<lambda>t4.
                 then_do (replace_now (verifying\<lparr>j_state := VERIFIED, j_updated_at := t4\<rparr>) VERIFYING) (\<lambda>verified.
                   then_do (keep_validation (j_enrollment_id verified) validation) (\<lambda>_. give verified)))))))))))))"

definition validate_legacy :: "issuing_env \<Rightarrow> string \<Rightarrow> string \<Rightarrow> string \<Rightarrow> enrollment_job recovery" where
  "validate_legacy env base_url pid token =
     (if \<not> v_client (i_run env) then raising (Invalid ''enrollment_unavailable'' ''not_dispatched'')
      else then_do (prepare env base_url pid) (\<lambda>target. then_do (clock env) (\<lambda>now. then_do step (\<lambda>k.
        then_do (jobs_call (jobs_create (i_jobs env) (i_uuid env k) None \<lparr>q_normalized_endpoint = vt_normalized_endpoint target,
            q_transport_profile_id = pid, q_display_name = None, q_ssh_user = None, q_ssh_host = None, q_ssh_port = None,
            q_enrollment_method = LEGACY_ADMIN_TOKEN, q_discovery_result_id = None, q_replace_agent_id = None\<rparr> PENDING now))
          (\<lambda>job. catching (legacy_body env token job) (\<lambda>x. case x of
             Invalid _ _ \<Rightarrow> legacy_failed env (j_enrollment_id job) x
           | StoreFailure \<Rightarrow> legacy_failed env (j_enrollment_id job) x
           | _ \<Rightarrow> raising x))))))"

section \<open>Changing an agent\<close>

record agent_change =
  u_display_name :: "string option"
  u_enabled :: "bool option"
  u_base_url :: "string option"
  u_transport_profile_id :: "string option"
  u_legacy_token :: "string option"

definition as_saga_error :: "recovery_error \<Rightarrow> string \<Rightarrow> recovery_error" where
  "as_saga_error x dispatch = (case x of Invalid code d \<Rightarrow> SagaFailure code d
     | StoreFailure \<Rightarrow> SagaFailure ''agent_credential_unavailable'' dispatch | _ \<Rightarrow> x)"

text \<open>
  The new target is validated with the legacy token, which then replaces the stored one, or with the
  agent's credential; the answer names the endpoint to store and the instance that answered.
\<close>

definition validated_change :: "issuing_env \<Rightarrow> (string \<Rightarrow> string \<times> string option) \<Rightarrow> agent_change \<Rightarrow> agent_record \<Rightarrow> string \<Rightarrow> string
    \<Rightarrow> (string \<times> string option) recovery" where
  "validated_change env said u current endpoint pid =
     (if a_instance_id current = None
      then if falsy (u_legacy_token u) then raising (Conflict ''legacy_revalidation_required'')
        else if \<not> v_client (i_run env) then raising (Conflict ''agent_validation_unavailable'')
        else catching (then_do (prepare env endpoint pid) (\<lambda>_. then_do (network_call env) (\<lambda>v.
            then_do (store_put env (the (u_legacy_token u))) (\<lambda>reference. give (fst (said v), Some reference)))))
          (\<lambda>x. raising (as_saga_error x ''dispatched''))
      else if \<not> v_client (i_run env) then raising (Conflict ''agent_validation_unavailable'')
      else then_do (catching (then_do (prepare env endpoint pid) (\<lambda>_.
            then_do (store_read (i_run env) (Some (a_credential_ref current))) (\<lambda>readable.
              if \<not> readable then raising StoreFailure else network_call env)))
          (\<lambda>x. raising (as_saga_error x ''not_dispatched''))) (\<lambda>v.
        if snd (said v) \<noteq> a_instance_id current then raising (SagaFailure ''agent_identity_changed'' ''dispatched'')
        else give (fst (said v), None)))"

definition changed_record :: "agent_change \<Rightarrow> string \<Rightarrow> string \<Rightarrow> string option \<Rightarrow> agent_record \<Rightarrow> agent_record" where
  "changed_record u endpoint pid reference current = current\<lparr>
     a_display_name := py_or (u_display_name u) (a_display_name current),
     a_enabled := (case u_enabled u of None \<Rightarrow> a_enabled current | Some b \<Rightarrow> b),
     a_normalized_endpoint := endpoint, a_transport_profile_id := pid,
     a_credential_ref := py_or reference (a_credential_ref current)\<rparr>"

definition drop_quietly :: "issuing_env \<Rightarrow> string \<Rightarrow> unit recovery" where
  "drop_quietly env reference = then_do (store_delete_if_exists (i_run env) reference) (\<lambda>_. give ())"

definition commit_change ::
  "issuing_env \<Rightarrow> agent_record \<Rightarrow> int \<Rightarrow> string option \<Rightarrow> string \<Rightarrow> agent_record recovery" where
  "commit_change env candidate revision reference dispatch = then_do (clock env) (\<lambda>now.
     catching (transact (update_and_reset_status candidate revision now None None)) (\<lambda>x.
       then_do (case reference of None \<Rightarrow> give () | Some r \<Rightarrow> drop_quietly env r) (\<lambda>_. raising (case x of
           RegistryFailure RevisionConflict \<Rightarrow> SagaFailure ''agent_changed'' dispatch
         | RegistryFailure (RegistryConflict code) \<Rightarrow> SagaFailure (if code = ''agent_mutation_in_progress''
             then ''agent_mutation_in_progress'' else ''agent_already_registered'') dispatch
         | RegistryFailure _ \<Rightarrow> SagaFailure ''agent_registry_unavailable'' dispatch
         | _ \<Rightarrow> x))))"

definition update_agent ::
  "issuing_env \<Rightarrow> (string \<Rightarrow> string \<times> string option) \<Rightarrow> string \<Rightarrow> agent_change \<Rightarrow> agent_record recovery" where
  "update_agent env said agent_id u = then_do (reading (agent_get agent_id)) (\<lambda>found. case found of
     None \<Rightarrow> raising (Conflict ''agent_not_found'')
   | Some current \<Rightarrow>
     let endpoint = py_or (u_base_url u) (a_normalized_endpoint current);
         pid = py_or (u_transport_profile_id u) (a_transport_profile_id current);
         target_changed = (endpoint \<noteq> a_normalized_endpoint current \<or> pid \<noteq> a_transport_profile_id current)
     in then_do (if target_changed then validated_change env said u current endpoint pid else give (endpoint, None))
       (\<lambda>(endpoint', reference).
         then_do (commit_change env (changed_record u endpoint' pid reference current) (a_revision current) reference
             (if target_changed then ''dispatched'' else ''not_dispatched'')) (\<lambda>updated.
           then_do (if reference = None then give () else drop_quietly env (a_credential_ref current)) (\<lambda>_. give updated))))"

section \<open>Cancelling and orphans\<close>

definition cancel_enrollment :: "issuing_env \<Rightarrow> string \<Rightarrow> unit recovery" where
  "cancel_enrollment env e = then_do (store_lease (i_run env)) (\<lambda>_. then_do (clock env) (\<lambda>now.
     then_do (meanwhile env) (\<lambda>o1. then_do (meanwhile env) (\<lambda>o2. then_do (meanwhile env) (\<lambda>o3.
       then_do (jobs_call (jobs_cancel e now o1 o2 o3)) (cleanup_terminal (i_run env)))))))"

definition store_delete :: "issuing_env \<Rightarrow> string \<Rightarrow> unit recovery" where
  "store_delete env reference = then_do (store_delete_if_exists (i_run env) reference)
     (\<lambda>ok. if ok then give () else raising StoreFailure)"

definition sweep_one :: "issuing_env \<Rightarrow> string set \<Rightarrow> string \<Rightarrow> unit recovery" where
  "sweep_one env retained entry =
     (if \<not> credential_ref_re entry \<or> entry \<in> retained then give () else store_delete env entry)"

definition cleanup_orphans :: "issuing_env \<Rightarrow> unit recovery" where
  "cleanup_orphans env = then_do (store_lease (i_run env)) (\<lambda>_.
     then_do (reading credential_references) (\<lambda>registered. then_do (reading recovery_credential_references) (\<lambda>journaled w.
       for_each (sweep_one env (registered \<union> journaled)) (sort (rw_creds w)) w)))"

end
