(* ===== verification/Recovery_Properties.thy ===== *)
theory Recovery_Properties
  imports Recovery_Saga
begin

text \<open>
  Properties of the recovery runs of \<open>Recovery_Saga\<close> under interference: whatever other threads and
  processes commit while a run awaits the network, its effects outside the database happen in a fixed
  order, and what it believes of its job stays true as long as it holds the claim.

  \<open>runs P m Q\<close> is the rule format: from a world that satisfies \<open>P\<close> the step \<open>m\<close> ends with a
  result and a world that satisfy \<open>Q\<close>.
\<close>

section \<open>Rules\<close>

definition runs :: "(recovery_world \<Rightarrow> bool) \<Rightarrow> 'a recovery \<Rightarrow> (recovery_error + 'a \<Rightarrow> recovery_world \<Rightarrow> bool) \<Rightarrow> bool" where
  "runs P m Q \<longleftrightarrow> (\<forall>w. P w \<longrightarrow> Q (fst (m w)) (snd (m w)))"

lemma runs_then:
  assumes "runs P m (\<lambda>r w. case r of Inl e \<Rightarrow> Q (Inl e) w | Inr v \<Rightarrow> R v w)" and "\<And>v. runs (R v) (f v) Q"
  shows "runs P (then_do m f) Q"
  using assms unfolding runs_def then_do_def
  by (fastforce split: prod.splits sum.splits)

lemma runs_weaken:
  assumes "runs P m Q" and "\<And>w. P' w \<Longrightarrow> P w" and "\<And>r w. Q r w \<Longrightarrow> Q' r w"
  shows "runs P' m Q'"
  using assms unfolding runs_def by blast

lemma runs_give: "(\<And>w. P w \<Longrightarrow> Q (Inr v) w) \<Longrightarrow> runs P (give v) Q"
  by (simp add: runs_def give_def)

lemma runs_pre: "(\<And>w. P w \<Longrightarrow> C) \<Longrightarrow> (C \<Longrightarrow> runs P m Q) \<Longrightarrow> runs P m Q"
  unfolding runs_def by blast

section \<open>The claim under interference\<close>

text \<open>
  The calls that could write a job being saved without moving its recovery revision: a replacement
  without a fence, \<open>set_state\<close> and the cleanup mark of a job in a saving state, and re-arming.  The
  Manager makes none of them (it replaces without a fence, and marks, only jobs in other states).
\<close>

definition saving :: "enrollment_state \<Rightarrow> bool" where
  "saving s \<longleftrightarrow> s \<in> {ACTIVATION_REQUESTED, ACTIVATED}"

fun bypasses_fence :: "string \<Rightarrow> manager_op \<Rightarrow> bool" where
  "bypasses_fence e (JournalCall (OReplace j st None _ _)) \<longleftrightarrow> j_enrollment_id j = e \<and> saving st"
| "bypasses_fence e (JournalCall (OSetState i _ _ st)) \<longleftrightarrow> i = e \<and> saving st"
| "bypasses_fence e (JournalCall (OMarkCleanup i st _ _)) \<longleftrightarrow> i = e \<and> saving st"
| "bypasses_fence e (JournalCall (ORearm i _ _ _ _ _)) \<longleftrightarrow> i = e"
| "bypasses_fence e _ \<longleftrightarrow> False"

text \<open>\<open>k\<close> is \<open>j\<close> itself, still being saved, or a later version of it.\<close>

definition same_or_later :: "enrollment_job \<Rightarrow> enrollment_job \<Rightarrow> bool" where
  "same_or_later j k \<longleftrightarrow> j_enrollment_id k = j_enrollment_id j \<and>
     (k = j \<and> saving (j_state j) \<or>
      j_recovery_revision j < j_recovery_revision k \<and> (saving (j_state k) \<or> terminal (j_state k)))"

lemma saving_transitions: "saving s \<Longrightarrow> t \<in> set (allowed_transitions s) \<Longrightarrow> saving t \<or> terminal t"
  by (cases s; cases t) (auto simp: saving_def state_class_defs)

lemma fenced_step:
  assumes "journal_step x a b" and "\<not> bypasses_fence (j_enrollment_id a) (JournalCall x)"
    and "saving (j_state a) \<or> terminal (j_state a)"
  shows "j_recovery_revision a \<le> j_recovery_revision b \<and> (saving (j_state b) \<or> terminal (j_state b)) \<and>
    (saving (j_state a) \<longrightarrow> j_recovery_revision a < j_recovery_revision b)"
  using assms
  by (cases rule: journal_step.cases)
    (auto simp: set_clause_defs saving_def state_class_defs no_transition_from_terminal dest: saving_transitions
      split: option.splits)

lemma same_or_later_step:
  assumes "journal_step x a b" and "\<not> bypasses_fence (j_enrollment_id a) (JournalCall x)" and "same_or_later j a"
  shows "same_or_later j b"
  using fenced_step [OF assms(1,2)] journal_step_id [OF assms(1)] assms(3) by (auto simp: same_or_later_def)

lemma same_or_later_row:
  assumes "registry_row r r'" and "same_or_later j (row_job r)"
  shows "same_or_later j (row_job r')"
proof -
  let ?k = "row_job r"
  have k: "j_enrollment_id ?k = j_enrollment_id j" "j_recovery_revision j \<le> j_recovery_revision ?k"
    and later: "terminal (j_state ?k) \<Longrightarrow> j_recovery_revision j < j_recovery_revision ?k"
    using assms(2) by (auto simp: same_or_later_def saving_def terminal_def)
  consider "r' = r" | rc now where "r' = set_job (set_consumed rc now) r" | "terminal (j_state ?k)" "r' = detach r"
    using assms(1) unfolding registry_row_def by blast
  then show ?thesis
  proof cases
    case 2
    then show ?thesis using k by (simp add: same_or_later_def set_consumed_def clear_claims_def terminal_def)
  next
    case 3
    then show ?thesis using k later by (simp add: same_or_later_def detach_def)
  qed (use assms(2) in simp)
qed

lemma same_or_later_history:
  assumes "manager_ok d" and "journal_get e d = Some k" and "same_or_later j k"
    and "\<forall>x\<in>set xs. \<not> bypasses_fence e x"
  shows "\<exists>k'. journal_get e (history run_manager xs d) = Some k' \<and> same_or_later j k'"
  by (rule manager_history_job_inv [where P = "same_or_later j", OF assms(1-3)]) (use assms(4) same_or_later_step same_or_later_row in blast)+

section \<open>The local copy of the job\<close>

text \<open>
  \<open>knows j tr w\<close>: the run's copy \<open>j\<close> is the stored job or has been overtaken by a later version, and
  \<open>tr\<close> are the effects so far.  \<open>fenced env e\<close> is the rely condition on the others.
\<close>

definition knows :: "enrollment_job \<Rightarrow> effect list \<Rightarrow> recovery_world \<Rightarrow> bool" where
  "knows j tr w \<longleftrightarrow> manager_ok (rw_db w) \<and> rw_trace w = tr \<and>
     (\<exists>k. journal_get (j_enrollment_id j) (rw_db w) = Some k \<and> same_or_later j k)"

definition fenced :: "recovery_env \<Rightarrow> string \<Rightarrow> bool" where
  "fenced env e \<longleftrightarrow> (\<forall>n. \<forall>x\<in>set (v_others env n). \<not> bypasses_fence e x)"

lemma knows_cong:
  "rw_db w' = rw_db w \<Longrightarrow> rw_trace w' = rw_trace w \<Longrightarrow> knows j tr w' \<longleftrightarrow> knows j tr w"
  by (simp add: knows_def)

lemma others_keep:
  assumes "fenced env (j_enrollment_id j)" and "knows j tr w"
    and "rw_db w' = history run_manager (v_others env n) (rw_db w)" and "rw_trace w' = rw_trace w"
  shows "knows j tr w'"
  using assms manager.history_inv [of "rw_db w" "v_others env n"]
    same_or_later_history [of "rw_db w" "j_enrollment_id j" _ j "v_others env n"]
  by (auto simp: knows_def fenced_def)

lemma runs_others:
  "fenced env (j_enrollment_id j) \<Longrightarrow> runs (knows j tr) (others_act env) (\<lambda>r w. (\<exists>u. r = Inr u) \<and> knows j tr w)"
  by (auto simp: runs_def others_act_def then_do_def step_def intro: others_keep)

section \<open>Fenced writes\<close>

text \<open>What a claim method that succeeds tells of the stored job before and after it.\<close>

lemma renew_effect:
  assumes "db_ok d" and "renew_recovery_claim e u n now l d = Inr (Some c, d')"
  shows "\<exists>k. journal_get e d = Some k \<and> j_recovery_revision k = n \<and> c = set_renewed now l k \<and> journal_get e d' = Some c"
proof -
  let ?P = "\<lambda>r. held e u n r \<and> lease_live now r"
  let ?Q = "\<lambda>j. j_recovery_owner j = Some u \<and> j_recovery_revision j = n \<and> sql_gt (j_recovery_lease_until j) now"
  have u: "update_jobs ?P (set_job (set_renewed now l)) d = Some d'" and c: "rowcount ?P (db_jobs d) = Suc 0"
    and g: "journal_get e d' = Some c"
    using assms(2) by (auto simp: renew_recovery_claim_def Let_def split: option.splits if_splits)
  have P: "?P r \<longleftrightarrow> row_id r = e \<and> ?Q (row_job r)" for r by (auto simp: held_def lease_live_def)
  obtain k where "journal_get e d = Some k" "?Q k" using keyed_rowcount(1) [OF assms(1) P] c by auto
  then show ?thesis using keyed_update_get [OF assms(1) u P, of e] g by simp
qed

lemma mark_effect:
  assumes "db_ok d" and "mark_recovery_claim_error e u n code now d = Inr (True, d')"
  shows "\<exists>k. journal_get e d = Some k \<and> j_recovery_revision k = n \<and> journal_get e d' = Some (set_marked code now k)"
proof -
  let ?P = "\<lambda>r. held e u n r \<and> lease_live now r \<and> j_state (row_job r) = ACTIVATED"
  let ?Q = "\<lambda>j. j_recovery_owner j = Some u \<and> j_recovery_revision j = n \<and> sql_gt (j_recovery_lease_until j) now \<and>
    j_state j = ACTIVATED"
  have u: "update_jobs ?P (set_job (set_marked code now)) d = Some d'" and c: "rowcount ?P (db_jobs d) = Suc 0"
    using assms(2) by (auto simp: mark_recovery_claim_error_def Let_def split: option.splits if_splits)
  have P: "?P r \<longleftrightarrow> row_id r = e \<and> ?Q (row_job r)" for r by (auto simp: held_def lease_live_def)
  obtain k where "journal_get e d = Some k" "?Q k" using keyed_rowcount(1) [OF assms(1) P] c by auto
  then show ?thesis using keyed_update_get [OF assms(1) u P, of e] by simp
qed

lemma replace_effect:
  assumes "db_ok d" and "replace_if_state j st (Some u) (Some n) (Some t) d = Inr (v, d')"
  shows "v = j \<and> (\<exists>k. journal_get (j_enrollment_id j) d = Some k \<and> j_recovery_revision k = n \<and> j_state k = st) \<and>
    journal_get (j_enrollment_id j) d' = Some j"
proof -
  let ?e = "j_enrollment_id j"
  let ?P = "\<lambda>r. row_id r = ?e \<and> j_state (row_job r) = st \<and> fence_matches (Some u) (Some n) (Some t) (row_job r)"
  let ?Q = "\<lambda>k. j_state k = st \<and> fence_matches (Some u) (Some n) (Some t) k"
  have u: "update_jobs ?P (set_job (\<lambda>x. j\<lparr>j_enrollment_id := j_enrollment_id x\<rparr>)) d = Some d'"
    and v: "v = j" and c: "rowcount ?P (db_jobs d) = Suc 0"
    using assms(2) by (auto simp: replace_if_state_def Let_def split: sum.splits option.splits if_splits)
  have P: "?P r \<longleftrightarrow> row_id r = ?e \<and> ?Q (row_job r)" for r by auto
  obtain k where k: "journal_get ?e d = Some k" "?Q k" using keyed_rowcount(1) [OF assms(1) P] c by auto
  moreover have "journal_get ?e d' = Some (j\<lparr>j_enrollment_id := j_enrollment_id k\<rparr>)"
    using keyed_update_get [OF assms(1) u P, of ?e] k by simp
  ultimately show ?thesis using v journal_get_id [OF k(1)] by (auto simp: fence_matches_def)
qed

lemma journal_call_ok:
  assumes "manager_ok d" and "run_journal x d = Inr (v, d')"
  shows "manager_ok d'"
  by (rule manager.run_inv [OF assms(1), of "JournalCall x" "()"]) (simp add: as_store_def assms(2))

section \<open>Steps without effects\<close>

definition quiet :: "'a recovery \<Rightarrow> bool" where
  "quiet m \<longleftrightarrow> (\<forall>w. rw_trace (snd (m w)) = rw_trace w)"

lemma quiet_then:
  assumes "quiet m" and "\<And>v. quiet (f v)"
  shows "quiet (then_do m f)"
  unfolding quiet_def
proof
  fix w
  obtain r w' where m: "m w = (r, w')" by (cases "m w")
  have "rw_trace w' = rw_trace w" using assms(1) m unfolding quiet_def by (metis snd_conv)
  then show "rw_trace (snd (then_do m f w)) = rw_trace w"
    using assms(2) by (cases r) (simp_all add: then_do_def m quiet_def)
qed

lemma quiet_except:
  assumes "quiet m" and "\<And>e n. h e = Some n \<Longrightarrow> quiet n"
  shows "quiet (except_registry m h)"
  unfolding quiet_def
proof
  fix w
  show "rw_trace (snd (except_registry m h w)) = rw_trace w"
    using assms unfolding quiet_def except_registry_def
    by (cases "m w") (auto split: sum.splits recovery_error.splits option.splits, (metis snd_conv)+)
qed

lemma quiet_basic: "quiet (give v)" "quiet step" "quiet (now_at env)" "quiet (transact t)" "quiet (others_act env)"
  "quiet (record_mutation_failure j c s)" "quiet (store_read env ref)" "quiet (store_lease env)"
  by (auto simp: quiet_def give_def step_def now_at_def then_do_def transact_def others_act_def
      record_mutation_failure_def store_read_def store_lease_def split: sum.splits)

lemma quiet_claims: "quiet (renew_claim env j)" "quiet (fail_claim env j c)" "quiet (residual_claim env j c)"
  "quiet (mark_claim_error env j c)" "quiet (transition_claimed env j st b)"
  unfolding renew_claim_def fail_claim_def residual_claim_def mark_claim_error_def transition_claimed_def
  by (auto intro!: quiet_then quiet_except quiet_basic split: if_splits)

lemma runs_quiet: "quiet m \<Longrightarrow> runs (\<lambda>w. rw_trace w = tr) m (\<lambda>_ w. rw_trace w = tr)"
  by (simp add: runs_def quiet_def)

section \<open>Claim methods under interference\<close>

definition core :: "enrollment_job \<Rightarrow> string \<times> enrollment_method \<times> string option \<times> string option \<times> string option
    \<times> string option \<times> enrollment_method option \<times> string option" where
  "core j = (j_enrollment_id j, j_enrollment_method j, j_remote_credential_id j, j_credential_temp_ref j,
     j_old_credential_ref j, j_old_remote_credential_id j, j_old_enrollment_method j, j_replace_agent_id j)"

lemma core_id: "core c = core j \<Longrightarrow> j_enrollment_id c = j_enrollment_id j"
  by (simp add: core_def)

text \<open>\<open>held_copy j tr r w\<close>: the result is no job, or a newer copy of \<open>j\<close> that is what is stored.\<close>

definition copied :: "enrollment_job \<Rightarrow> enrollment_state \<Rightarrow> effect list \<Rightarrow> recovery_error + enrollment_job option
    \<Rightarrow> recovery_world \<Rightarrow> bool" where
  "copied j st tr r w \<longleftrightarrow> rw_trace w = tr \<and>
     (\<forall>c. r = Inr (Some c) \<longrightarrow> core c = core j \<and> j_state c = st \<and> knows c tr w)"

lemma knows_stored:
  assumes "manager_ok (rw_db w)" and "rw_trace w = tr" and "journal_get (j_enrollment_id c) (rw_db w) = Some c"
    and "saving (j_state c)"
  shows "knows c tr w"
  using assms by (simp add: knows_def same_or_later_def)

lemma knows_current:
  assumes "knows j tr w" and "journal_get (j_enrollment_id j) (rw_db w) = Some k"
    and "j_recovery_revision k = j_recovery_revision j"
  shows "k = j \<and> saving (j_state j)"
  using assms by (auto simp: knows_def same_or_later_def)

lemma runs_now: "runs (knows j tr) (now_at env) (\<lambda>r w. (\<exists>t. r = Inr t) \<and> knows j tr w)"
  by (auto simp: runs_def now_at_def then_do_def step_def give_def knows_def)

lemma renew_copied:
  assumes k: "knows j tr w"
    and r: "renew_recovery_claim (j_enrollment_id j) u (j_recovery_revision j) now l (rw_db w) = Inr (v, d')"
  shows "copied j (j_state j) tr (Inr v) (w\<lparr>rw_db := d'\<rparr>)"
proof -
  have ok: "manager_ok (rw_db w)" "db_ok (rw_db w)" and tr: "rw_trace w = tr"
    using k by (auto simp: knows_def manager_ok_def)
  have ok': "manager_ok d'"
    by (rule journal_call_ok [OF ok(1), of "ORenew (j_enrollment_id j) u (j_recovery_revision j) now l"])
      (simp add: reply_def r)
  have "core c = core j \<and> j_state c = j_state j \<and> knows c tr (w\<lparr>rw_db := d'\<rparr>)" if vc: "v = Some c" for c
  proof -
    obtain x where x: "journal_get (j_enrollment_id j) (rw_db w) = Some x" "j_recovery_revision x = j_recovery_revision j"
      and c: "c = set_renewed now l x" "journal_get (j_enrollment_id j) d' = Some c"
      using renew_effect [OF ok(2), of "j_enrollment_id j" u "j_recovery_revision j" now l c d'] r vc by blast
    then show ?thesis
      using knows_current [OF k x] ok' tr by (auto simp: core_def set_renewed_def intro!: knows_stored)
  qed
  then show ?thesis using tr by (simp add: copied_def)
qed

lemma mark_copied:
  assumes k: "knows j tr w"
    and r: "mark_recovery_claim_error (j_enrollment_id j) u (j_recovery_revision j) code now (rw_db w) = Inr (v, d')"
  shows "copied j (j_state j) tr (Inr (if \<not> v then None else Some (j\<lparr>j_last_error_code := Some code,
      j_recovery_revision := j_recovery_revision j + 1, j_updated_at := now\<rparr>))) (w\<lparr>rw_db := d'\<rparr>)"
proof -
  have ok: "manager_ok (rw_db w)" "db_ok (rw_db w)" and tr: "rw_trace w = tr"
    using k by (auto simp: knows_def manager_ok_def)
  have ok': "manager_ok d'"
    by (rule journal_call_ok [OF ok(1), of "OMarkError (j_enrollment_id j) u (j_recovery_revision j) code now"])
      (simp add: reply_def r)
  have "knows (set_marked code now j) tr (w\<lparr>rw_db := d'\<rparr>)" if vt: "v"
  proof -
    obtain x where x: "journal_get (j_enrollment_id j) (rw_db w) = Some x" "j_recovery_revision x = j_recovery_revision j"
      and g: "journal_get (j_enrollment_id j) d' = Some (set_marked code now x)"
      using mark_effect [OF ok(2), of "j_enrollment_id j" u "j_recovery_revision j" code now d'] r vt by auto
    then show ?thesis
      using knows_current [OF k x] ok' tr by (auto simp: set_marked_def intro!: knows_stored)
  qed
  then show ?thesis using tr by (auto simp: copied_def core_def set_marked_def)
qed

lemma transition_copied:
  assumes k: "knows j tr w" and c: "j_enrollment_id c = j_enrollment_id j" "core c = core j" and s: "saving (j_state c)"
    and r: "replace_if_state c st (Some u) (Some n) (Some now) (rw_db w) = Inr (v, d')"
  shows "copied j (j_state c) tr (Inr (Some v)) (w\<lparr>rw_db := d'\<rparr>)"
proof -
  have ok: "manager_ok (rw_db w)" "db_ok (rw_db w)" and tr: "rw_trace w = tr"
    using k by (auto simp: knows_def manager_ok_def)
  have "manager_ok d'"
    by (rule journal_call_ok [OF ok(1), of "OReplace c st (Some u) (Some n) (Some now)"]) (simp add: reply_def r)
  then show ?thesis
    using replace_effect [OF ok(2) r] c s tr by (auto simp: copied_def intro: knows_stored)
qed

lemma then_do_give: "then_do m give = m"
  by (rule ext) (simp add: then_do_def give_def split: sum.splits prod.splits)

lemma knows_tick: "knows j tr (w\<lparr>rw_tick := n\<rparr>) = knows j tr w"
  by (simp add: knows_def)

text \<open>The common form of the claim methods: read the clock, run a transaction, handle some errors.\<close>

lemma runs_claim:
  assumes "\<And>now w v d'. knows j tr w \<Longrightarrow> t now (rw_db w) = Inr (v, d') \<Longrightarrow>
      copied j st tr (Inr (g now v)) (w\<lparr>rw_db := d'\<rparr>)"
    and "\<And>e n. h e = Some n \<Longrightarrow> n = give None"
  shows "runs (knows j tr) (then_do (now_at env)
    (\<lambda>now. except_registry (then_do (transact (t now)) (\<lambda>v. give (g now v))) h)) (copied j st tr)"
  unfolding runs_def
proof (intro allI impI)
  fix w
  assume k: "knows j tr w"
  let ?w = "w\<lparr>rw_tick := Suc (rw_tick w)\<rparr>" and ?now = "v_clock env (rw_tick w)"
  let ?m = "then_do (now_at env) (\<lambda>now. except_registry (then_do (transact (t now)) (\<lambda>v. give (g now v))) h)"
  have k': "knows j tr ?w" using k by (simp add: knows_tick)
  have tr: "rw_trace w = tr" using k by (simp add: knows_def)
  show "copied j st tr (fst (?m w)) (snd (?m w))"
  proof (cases "t ?now (rw_db w)")
    case (Inl e)
    then show ?thesis
      using assms(2) [of e] tr
      by (cases "h e") (auto simp: now_at_def step_def then_do_def give_def except_registry_def transact_def copied_def)
  next
    case (Inr b)
    then show ?thesis
      using assms(1) [OF k', of ?now "fst b" "snd b"]
      by (cases b) (simp add: now_at_def step_def then_do_def give_def except_registry_def transact_def)
  qed
qed

lemma runs_renew: "runs (knows j tr) (renew_claim env j) (copied j (j_state j) tr)"
  unfolding renew_claim_def
  by (subst then_do_give [symmetric, of "transact _"], rule runs_claim [where g = "\<lambda>_ v. v"])
    (simp_all add: renew_copied)

lemma runs_mark: "runs (knows j tr) (mark_claim_error env j code) (copied j (j_state j) tr)"
  unfolding mark_claim_error_def
  by (rule runs_claim, rule mark_copied) auto

lemma claimed_update_core [simp]:
  "core (claimed_update env now st b j) = core j" "j_state (claimed_update env now st b j) = st"
  "j_enrollment_id (claimed_update env now st b j) = j_enrollment_id j"
  by (simp_all add: claimed_update_def Let_def core_def)

lemma runs_activated: "runs (knows j tr) (transition_claimed env j ACTIVATED b) (copied j ACTIVATED tr)"
  unfolding transition_claimed_def
  by (rule runs_claim) (auto simp: saving_def dest: transition_copied [rotated 4] split: if_splits)

section \<open>Leased calls\<close>

lemma copied_core: "copied c st tr r w \<Longrightarrow> core c = core j \<Longrightarrow> copied j st tr r w"
  by (simp add: copied_def)

lemma runs_lease_loop:
  assumes "fenced env (j_enrollment_id j)"
  shows "runs (knows j tr) (lease_loop env n j) (copied j (j_state j) tr)"
  using assms
proof (induction n arbitrary: j)
  case 0
  show ?case by (auto intro!: runs_give simp: copied_def knows_def)
next
  case (Suc n)
  show ?case
    unfolding lease_loop.simps
  proof (rule runs_then [where R = "\<lambda>_. knows j tr"], rule runs_weaken [OF runs_others [OF Suc.prems]])
    show "runs (knows j tr) (then_do (renew_claim env j)
        (\<lambda>renewed. case renewed of None \<Rightarrow> give None | Some c \<Rightarrow> lease_loop env n c)) (copied j (j_state j) tr)"
    proof (rule runs_then [where R = "\<lambda>v. copied j (j_state j) tr (Inr v)"], rule runs_weaken [OF runs_renew])
      fix v
      show "runs (copied j (j_state j) tr (Inr v)) (case v of None \<Rightarrow> give None | Some c \<Rightarrow> lease_loop env n c)
          (copied j (j_state j) tr)"
      proof (cases v)
        case (Some c)
        show ?thesis
        proof (rule runs_pre [where C = "core c = core j \<and> j_state c = j_state j"])
          assume c: "core c = core j \<and> j_state c = j_state j"
          then have "fenced env (j_enrollment_id c)" using Suc.prems core_id by metis
          from runs_weaken [OF Suc.IH [OF this], of "copied j (j_state j) tr (Inr v)" "copied j (j_state j) tr"] c
          show "runs (copied j (j_state j) tr (Inr v)) (case v of None \<Rightarrow> give None | Some c \<Rightarrow> lease_loop env n c)
              (copied j (j_state j) tr)" by (auto simp: Some copied_def)
        qed (simp add: copied_def Some)
      qed (auto intro!: runs_give simp: copied_def)
    qed (auto simp: copied_def split: sum.splits)
  qed auto
qed

definition leased :: "enrollment_job \<Rightarrow> effect list \<Rightarrow> effect list \<Rightarrow> recovery_error + (enrollment_job \<times> net_outcome) option
    \<Rightarrow> recovery_world \<Rightarrow> bool" where
  "leased j tr eff r w \<longleftrightarrow> (case r of Inl _ \<Rightarrow> rw_trace w = tr \<or> rw_trace w = tr @ eff
     | Inr None \<Rightarrow> rw_trace w = tr \<or> rw_trace w = tr @ eff
     | Inr (Some (c, out)) \<Rightarrow> core c = core j \<and> j_state c = j_state j \<and>
         knows c (if failed_call out then tr else tr @ eff) w)"

definition effects_of :: "effect option \<Rightarrow> effect list" where
  "effects_of eff = (case eff of None \<Rightarrow> [] | Some e \<Rightarrow> [e])"

lemma runs_acknowledged:
  "runs (knows j tr) (acknowledged eff out) (\<lambda>r w. (\<exists>u. r = Inr u) \<and>
     knows j (if failed_call out then tr else tr @ effects_of eff) w)"
  by (cases out) (auto simp: runs_def acknowledged_def log_effect_def give_def knows_def effects_of_def split: option.splits)

lemma runs_leased:
  assumes "fenced env (j_enrollment_id j)"
  shows "runs (knows j tr) (run_with_recovery_lease env j eff) (leased j tr (effects_of eff))"
  unfolding run_with_recovery_lease_def
proof (rule runs_then [where R = "\<lambda>_. knows j tr"])
  show "runs (knows j tr) step (\<lambda>r w. case r of Inl e \<Rightarrow> leased j tr (effects_of eff) (Inl e) w | Inr _ \<Rightarrow> knows j tr w)"
    by (simp add: runs_def step_def knows_tick)
next
  fix k
  let ?Q = "leased j tr (effects_of eff)" and ?out = "v_net env k"
  let ?tr = "if failed_call ?out then tr else tr @ effects_of eff"
  have last: "runs (knows c ?tr) (then_do (renew_claim env c) (\<lambda>renewed. give (map_option (\<lambda>c. (c, ?out)) renewed))) ?Q"
    if c: "core c = core j \<and> j_state c = j_state j" for c
  proof (rule runs_then [where R = "\<lambda>v. copied c (j_state c) ?tr (Inr v)"], rule runs_weaken [OF runs_renew])
    fix v
    show "runs (copied c (j_state c) ?tr (Inr v)) (give (map_option (\<lambda>c. (c, ?out)) v)) ?Q"
      using c by (intro runs_give) (cases v; auto simp: copied_def leased_def split: if_splits)
  qed (auto simp: copied_def leased_def split: sum.splits if_splits)
  have mid: "runs (knows c tr) (then_do (others_act env) (\<lambda>_. then_do (acknowledged eff ?out)
      (\<lambda>_. then_do (renew_claim env c) (\<lambda>renewed. give (map_option (\<lambda>c. (c, ?out)) renewed))))) ?Q"
    if c: "core c = core j \<and> j_state c = j_state j" for c
  proof (rule runs_then [where R = "\<lambda>_. knows c tr"])
    have "fenced env (j_enrollment_id c)" using assms c core_id by metis
    from runs_others [OF this] show "runs (knows c tr) (others_act env)
        (\<lambda>r w. case r of Inl e \<Rightarrow> ?Q (Inl e) w | Inr _ \<Rightarrow> knows c tr w)" by (rule runs_weaken) auto
    show "runs (knows c tr) (then_do (acknowledged eff ?out) (\<lambda>_. then_do (renew_claim env c)
        (\<lambda>renewed. give (map_option (\<lambda>c. (c, ?out)) renewed)))) ?Q" for v :: unit
    proof (rule runs_then [where R = "\<lambda>_. knows c ?tr"], rule runs_weaken [OF runs_acknowledged])
      show "case r of Inl e \<Rightarrow> ?Q (Inl e) w | Inr _ \<Rightarrow> knows c ?tr w"
        if "(\<exists>u. r = Inr u) \<and> knows c ?tr w" for r :: "recovery_error + unit" and w
        using that by fastforce
    qed (assumption, rule last [OF c])
  qed
  show "runs (knows j tr) (then_do (lease_loop env (v_intervals env k) j)
      (\<lambda>waiting. case waiting of None \<Rightarrow> give None
        | Some c \<Rightarrow> then_do (others_act env) (\<lambda>_. then_do (acknowledged eff ?out)
            (\<lambda>_. then_do (renew_claim env c) (\<lambda>renewed. give (map_option (\<lambda>c. (c, ?out)) renewed)))))) ?Q"
  proof (rule runs_then [where R = "\<lambda>v. copied j (j_state j) tr (Inr v)"], rule runs_weaken [OF runs_lease_loop [OF assms]])
    fix v
    show "runs (copied j (j_state j) tr (Inr v)) (case v of None \<Rightarrow> give None
        | Some c \<Rightarrow> then_do (others_act env) (\<lambda>_. then_do (acknowledged eff ?out)
            (\<lambda>_. then_do (renew_claim env c) (\<lambda>renewed. give (map_option (\<lambda>c. (c, ?out)) renewed))))) ?Q"
    proof (cases v)
      case (Some c)
      show ?thesis
        by (rule runs_pre [where C = "core c = core j \<and> j_state c = j_state j"])
          (auto simp: Some copied_def intro: runs_weaken [OF mid])
    qed (auto intro!: runs_give simp: copied_def leased_def)
  qed (auto simp: copied_def leased_def split: sum.splits)
qed

end
