(* ===== verification/Recovery_Order.thy ===== *)
theory Recovery_Order
  imports Recovery_Properties "HOL-Library.Sublist"
begin

text \<open>
  The order of the effects of a recovery run outside the database: activation before registration,
  revocation at the agent before the credential file is deleted, the registry switched to the new
  credential before the old one is retired.  A run may stop after any of them: an answer of the agent,
  a lost claim or a store that cannot be written ends it.
\<close>

section \<open>Runs that end with given effects\<close>

definition ends :: "effect list \<Rightarrow> (effect list \<Rightarrow> recovery_world \<Rightarrow> bool) \<Rightarrow> 'r \<Rightarrow> recovery_world \<Rightarrow> bool" where
  "ends tr S r w \<longleftrightarrow> (\<exists>t. rw_trace w = tr @ t \<and> S t w)"

definition at_trace :: "effect list \<Rightarrow> recovery_world \<Rightarrow> bool" where
  "at_trace tr w \<longleftrightarrow> rw_trace w = tr"

lemma knows_at_trace: "knows j tr w \<Longrightarrow> at_trace tr w"
  by (simp add: knows_def at_trace_def)

lemma knows_trace: "knows j tr w \<Longrightarrow> rw_trace w = tr"
  by (simp add: knows_def)

lemma ends_stop: "(\<And>w. S [] w) \<Longrightarrow> rw_trace w = tr \<Longrightarrow> ends tr S r w"
  by (simp add: ends_def)

lemma ends_mono: "ends tr S r w \<Longrightarrow> (\<And>t. S t w \<Longrightarrow> S' t w) \<Longrightarrow> ends tr S' r w"
  unfolding ends_def by blast

lemma ends_after: "ends (tr @ us) S r w \<Longrightarrow> (\<And>t. S t w \<Longrightarrow> S' (us @ t) w) \<Longrightarrow> ends tr S' r w"
  unfolding ends_def by auto

lemma runs_ends_quiet: "quiet m \<Longrightarrow> (\<And>w. S [] w) \<Longrightarrow> runs (at_trace tr) m (ends tr S)"
  by (simp add: runs_def quiet_def at_trace_def ends_def)

lemma runs_ends_then_quiet:
  assumes "quiet m" and "\<And>w. S [] w" and "\<And>v. runs (at_trace tr) (f v) (ends tr S)"
  shows "runs (at_trace tr) (then_do m f) (ends tr S)"
  by (rule runs_then [where R = "\<lambda>_. at_trace tr", OF _ assms(3)])
    (use assms(1,2) in \<open>auto simp: runs_def quiet_def at_trace_def ends_def split: sum.splits\<close>)

lemma runs_knows: "runs (at_trace tr) m Q \<Longrightarrow> runs (knows j tr) m Q"
  using knows_at_trace by (auto simp: runs_def)

text \<open>Deleting a credential file, under the lifecycle lease of the store, ends a run.\<close>

lemma runs_ends_delete:
  assumes "\<And>v. quiet (f v)" and "\<And>w. S [] w" and "\<And>w. S [CredentialDeleted ref] w"
  shows "runs (at_trace tr) (then_do (store_lease env) (\<lambda>_. then_do (store_delete_if_exists env ref) f)) (ends tr S)"
proof (rule runs_ends_then_quiet [where S = S, OF quiet_basic(8)])
  show "runs (at_trace tr) (then_do (store_delete_if_exists env ref) f) (ends tr S)"
  proof (rule runs_then [where R = "\<lambda>v. ends tr (\<lambda>t _. t = [] \<or> t = [CredentialDeleted ref]) (Inr v)"])
    show "runs (ends tr (\<lambda>t _. t = [] \<or> t = [CredentialDeleted ref]) (Inr v)) (f v) (ends tr S)" for v
      using assms(1) [of v] assms(2,3) by (auto simp: runs_def quiet_def ends_def)
  qed (auto simp: runs_def store_delete_if_exists_def then_do_def step_def at_trace_def ends_def)
qed (rule assms(2))

text \<open>A claim method that lost its claim ends the run; otherwise it goes on with the newer copy.\<close>

lemma runs_ends_copied:
  assumes "runs (knows j tr) m (copied j st tr)" and "\<And>w. S [] w"
    and "\<And>c. core c = core j \<Longrightarrow> j_state c = st \<Longrightarrow> runs (knows c tr) (f c) (ends tr S)"
  shows "runs (knows j tr) (then_do m (\<lambda>r. case r of None \<Rightarrow> give () | Some c \<Rightarrow> f c)) (ends tr S)"
proof (rule runs_then [where R = "\<lambda>v. copied j st tr (Inr v)"], rule runs_weaken [OF assms(1)])
  fix v
  show "runs (copied j st tr (Inr v)) (case v of None \<Rightarrow> give () | Some c \<Rightarrow> f c) (ends tr S)"
  proof (cases v)
    case None
    then show ?thesis by (auto intro!: runs_give ends_stop assms(2) simp: copied_def)
  next
    case (Some c)
    show ?thesis
      by (rule runs_pre [where C = "core c = core j \<and> j_state c = st"])
        (auto simp: Some copied_def intro: runs_weaken [OF assms(3)])
  qed
qed (auto simp: copied_def intro: ends_stop assms(2) split: sum.splits)

text \<open>A leased call of the agent: a lost claim ends the run, a refusal is recorded, an answer counts.\<close>

lemma runs_ends_leased:
  assumes fenced: "fenced env (j_enrollment_id j)" and S: "\<And>w. S [] w" "\<And>w. S [eff] w"
    and bad: "\<And>c out. quiet (bad c out)"
    and good: "\<And>c. core c = core j \<Longrightarrow> j_state c = j_state j \<Longrightarrow>
      runs (knows c (tr @ [eff])) (good c) (ends tr S)"
  shows "runs (knows j tr) (then_do (run_with_recovery_lease env j (Some eff)) (\<lambda>outcome. case outcome of
      None \<Rightarrow> give () | Some (c, out) \<Rightarrow> if failed_call out then bad c out else good c)) (ends tr S)"
proof (rule runs_then [where R = "\<lambda>v. leased j tr [eff] (Inr v)"])
  show "runs (knows j tr) (run_with_recovery_lease env j (Some eff))
      (\<lambda>r w. case r of Inl e \<Rightarrow> ends tr S (Inl e) w | Inr v \<Rightarrow> leased j tr [eff] (Inr v) w)"
    using S by (intro runs_weaken [OF runs_leased [OF fenced]])
      (auto simp: effects_of_def ends_def split: sum.splits, auto simp: leased_def)
next
  fix v
  show "runs (leased j tr [eff] (Inr v)) (case v of None \<Rightarrow> give ()
      | Some (c, out) \<Rightarrow> if failed_call out then bad c out else good c) (ends tr S)"
  proof (cases v)
    case None
    then show ?thesis using S by (auto intro!: runs_give simp: leased_def ends_def)
  next
    case (Some p)
    obtain c out where p: "p = (c, out)" by force
    show ?thesis
    proof (rule runs_pre [where C = "core c = core j \<and> j_state c = j_state j"])
      assume c: "core c = core j \<and> j_state c = j_state j"
      show ?thesis
      proof (cases "failed_call out")
        case True
        have "runs (knows c tr) (bad c out) (ends tr S)" by (intro runs_knows runs_ends_quiet bad S(1))
        from runs_weaken [OF this, of "leased j tr [eff] (Inr v)" "ends tr S"] show ?thesis
          by (simp add: Some p True leased_def)
      next
        case False
        have "runs (knows c (tr @ [eff])) (good c) (ends tr S)" using good c by blast
        from runs_weaken [OF this, of "leased j tr [eff] (Inr v)" "ends tr S"] show ?thesis
          by (simp add: Some p False leased_def)
      qed
    qed (simp add: Some p leased_def)
  qed
qed

section \<open>Compensation of a new agent\<close>

definition managed_method :: "enrollment_method \<Rightarrow> bool" where
  "managed_method m \<longleftrightarrow> m \<noteq> LEGACY_ADMIN_TOKEN"

definition undo_effects :: "enrollment_job \<Rightarrow> effect list" where
  "undo_effects j = (if managed_method (j_enrollment_method j) then [Revoked (j_remote_credential_id j)] else []) @
     [CredentialDeleted (py_or (j_credential_temp_ref j) [])]"

lemma core_undo: "core c = core j \<Longrightarrow> undo_effects c = undo_effects j"
  by (simp add: core_def undo_effects_def)

lemmas quiet_intros = quiet_then quiet_basic quiet_claims

lemma quiet_case_option: "quiet n \<Longrightarrow> (\<And>x. quiet (f x)) \<Longrightarrow> quiet (case v of None \<Rightarrow> n | Some x \<Rightarrow> f x)"
  by (cases v) auto

lemma quiet_if: "quiet m \<Longrightarrow> quiet n \<Longrightarrow> quiet (if b then m else n)"
  by simp

lemma runs_ends_readable:
  assumes "quiet bad" and "\<And>w. S [] w" and "runs P good (ends tr S)"
    and "\<And>w n. P w \<Longrightarrow> P (w\<lparr>rw_tick := n\<rparr>) \<and> rw_trace w = tr"
  shows "runs P (then_do (store_read env ref) (\<lambda>readable. if \<not> readable then bad else good)) (ends tr S)"
proof (rule runs_then [where R = "\<lambda>_. P"])
  show "runs P (store_read env ref) (\<lambda>r w. case r of Inl e \<Rightarrow> ends tr S (Inl e) w | Inr _ \<Rightarrow> P w)"
    using assms(4) by (auto simp: runs_def store_read_def then_do_def step_def)
  have "runs P bad (ends tr S)"
    using runs_ends_quiet [of bad S tr, OF assms(1)] assms(2,4) by (auto simp: runs_def at_trace_def)
  then show "runs P (if \<not> v then bad else good) (ends tr S)" for v using assms(3) by simp
qed

lemma knows_ticks: "knows j tr w \<Longrightarrow> knows j tr (w\<lparr>rw_tick := n\<rparr>) \<and> rw_trace w = tr"
  by (simp add: knows_def)

lemma runs_undo:
  assumes "fenced env (j_enrollment_id j)"
  shows "runs (knows j tr) (compensate_activated_add_conflict env j) (ends tr (\<lambda>t _. prefix t (undo_effects j)))"
proof (cases "managed_method (j_enrollment_method j)")
  case True
  then have m: "j_enrollment_method j \<noteq> LEGACY_ADMIN_TOKEN" by (simp add: managed_method_def)
  let ?S = "\<lambda>t _. prefix t [CredentialDeleted (py_or (j_credential_temp_ref j) [])]"
  show ?thesis
    unfolding compensate_activated_add_conflict_def Let_def if_not_P [OF m]
  proof (rule runs_ends_readable, goal_cases)
    case 3
    show ?case
    proof (rule runs_ends_leased [OF assms], goal_cases)
      case (4 c)
      then have c: "j_credential_temp_ref c = j_credential_temp_ref j" by (simp add: core_def)
      show ?case unfolding c
        by (rule runs_knows, rule runs_weaken [OF runs_ends_delete [where S = ?S]])
          (assumption | intro quiet_intros quiet_if quiet_case_option | simp add: undo_effects_def True
            | erule ends_after)+
    qed (auto intro!: quiet_intros simp: undo_effects_def True)
  qed (auto intro: quiet_intros knows_ticks [THEN conjunct1] knows_trace)
next
  case False
  then have m: "j_enrollment_method j = LEGACY_ADMIN_TOKEN" by (simp add: managed_method_def)
  show ?thesis
    unfolding compensate_activated_add_conflict_def Let_def if_P [OF m]
    by (intro runs_knows runs_ends_delete quiet_intros quiet_if quiet_case_option) (auto simp: undo_effects_def False)
qed

section \<open>Registration of an activated agent\<close>

text \<open>What the commit leaves: a consumed job without claim and the agent under the new credential.\<close>

definition committed_as :: "enrollment_job \<Rightarrow> recovery_world \<Rightarrow> bool" where
  "committed_as j w \<longleftrightarrow> (\<exists>k a. journal_get (j_enrollment_id j) (rw_db w) = Some k \<and> j_state k = CONSUMED \<and>
     j_recovery_owner k = None \<and> j_credential_temp_ref k = None \<and>
     agent_get (j_enrollment_id j) (rw_db w) = Some a \<and> a_credential_ref a = py_or (j_credential_temp_ref j) [] \<and>
     a_remote_credential_id a = j_remote_credential_id j \<and> a_enrollment_method a = j_enrollment_method j)"

lemma core_committed: "core c = core j \<Longrightarrow> committed_as c w = committed_as j w"
  by (simp add: core_def committed_as_def)

lemma commit_committed:
  assumes "db_ok (rw_db w)" and "commit_activated_enrollment j (activated_record j t u) now rc (rw_db w) = Inr (v, d)"
    and "rw_db w' = d"
  shows "committed_as j w'"
proof -
  obtain k where "journal_get (j_enrollment_id j) d = Some (set_consumed rc now k)"
      "agent_get (j_enrollment_id j) d = Some (activated_record j t u)"
    using commit_effect [OF assms(1,2)] by (simp add: activated_record_def) metis
  then show ?thesis
    by (simp add: committed_as_def assms(3) set_consumed_def clear_claims_def activated_record_def)
qed

definition commit_outcome :: "enrollment_job \<Rightarrow> effect list \<Rightarrow> recovery_error + commit_result \<Rightarrow> recovery_world \<Rightarrow> bool" where
  "commit_outcome j tr r w \<longleftrightarrow> (case r of
     Inr Committed \<Rightarrow> rw_trace w = tr @ [Registered (j_enrollment_id j)] \<and> committed_as j w
   | _ \<Rightarrow> knows j tr w)"

lemma runs_commit: "runs (knows j tr) (commit_agent env j) (commit_outcome j tr)"
  unfolding runs_def
proof (intro allI impI)
  fix w
  assume k: "knows j tr w"
  then have ok: "db_ok (rw_db w)" and tr: "rw_trace w = tr" by (auto simp: knows_def manager_ok_def)
  show "commit_outcome j tr (fst (commit_agent env j w)) (snd (commit_agent env j w))"
    using k tr commit_committed [OF ok]
    by (auto simp: commit_agent_def commit_outcome_def then_do_def now_at_def step_def give_def Let_def store_lease_def
        except_registry_def transact_def log_effect_def knows_tick split: sum.splits option.splits registry_error.splits)
qed

definition register_ends :: "enrollment_job \<Rightarrow> effect list \<Rightarrow> recovery_world \<Rightarrow> bool" where
  "register_ends j t w \<longleftrightarrow> prefix t (undo_effects j) \<or> t = [Registered (j_enrollment_id j)] \<and> committed_as j w"

lemma core_register:
  assumes "core c = core j"
  shows "register_ends c = register_ends j"
  by (intro ext) (simp add: register_ends_def core_undo [OF assms] core_committed [OF assms] core_id [OF assms])

lemma runs_register:
  assumes "fenced env (j_enrollment_id j)"
  shows "runs (knows j tr) (register_activated env j) (ends tr (register_ends j))"
  unfolding register_activated_def
proof (rule runs_ends_copied [OF runs_renew])
  fix c
  assume c: "core c = core j"
  then have f: "fenced env (j_enrollment_id c)" using assms core_id by metis
  show "runs (knows c tr) (then_do (commit_agent env c)
      (\<lambda>r. if r = AddConflict then compensate_activated_add_conflict env c else give ())) (ends tr (register_ends j))"
    unfolding core_register [OF c, symmetric]
  proof (rule runs_then [where R = "\<lambda>v. commit_outcome c tr (Inr v)"], rule runs_weaken [OF runs_commit])
    fix v
    show "runs (commit_outcome c tr (Inr v))
        (if v = AddConflict then compensate_activated_add_conflict env c else give ()) (ends tr (register_ends c))"
      by (cases v) (auto intro!: runs_weaken [OF runs_undo [OF f]] runs_give
          simp: commit_outcome_def ends_def register_ends_def, auto simp: knows_def)
  qed (auto simp: commit_outcome_def ends_def register_ends_def dest: knows_trace split: sum.splits)
qed (simp add: register_ends_def)

section \<open>Activation and registration\<close>

definition activation_effect :: "enrollment_job \<Rightarrow> effect list" where
  "activation_effect j = (if j_state j = ACTIVATION_REQUESTED \<and> managed_method (j_enrollment_method j)
     then [Activated (j_remote_credential_id j)] else [])"

definition new_agent_ends :: "enrollment_job \<Rightarrow> effect list \<Rightarrow> recovery_world \<Rightarrow> bool" where
  "new_agent_ends j t w \<longleftrightarrow> prefix t (activation_effect j @ undo_effects j) \<or>
     t = activation_effect j @ [Registered (j_enrollment_id j)] \<and> committed_as j w"

lemma register_new_agent: "register_ends j t w \<Longrightarrow> new_agent_ends j (activation_effect j @ t) w"
  by (auto simp: register_ends_def new_agent_ends_def)

lemma runs_register_copy:
  assumes "fenced env (j_enrollment_id j)" and "core c = core j"
  shows "runs (knows c (tr @ activation_effect j)) (register_activated env c) (ends tr (new_agent_ends j))"
proof -
  have "fenced env (j_enrollment_id c)" using assms core_id by metis
  then show ?thesis
    by (rule runs_weaken [OF runs_register]) (auto simp: core_register [OF assms(2)] intro: ends_after register_new_agent)
qed

lemma runs_activated_copy:
  assumes "fenced env (j_enrollment_id j)" and "core c = core j"
  shows "runs (knows c (tr @ activation_effect j)) (then_do (transition_claimed env c ACTIVATED False)
      (\<lambda>t. case t of None \<Rightarrow> give () | Some c \<Rightarrow> register_activated env c)) (ends tr (new_agent_ends j))"
proof (rule runs_weaken [OF runs_ends_copied [OF runs_activated, where S = "\<lambda>t. new_agent_ends j (activation_effect j @ t)"]])
  show "runs (knows d (tr @ activation_effect j)) (register_activated env d)
      (ends (tr @ activation_effect j) (\<lambda>t. new_agent_ends j (activation_effect j @ t)))" if "core d = core c" for d
  proof -
    have "fenced env (j_enrollment_id d)" using assms core_id that by metis
    then show ?thesis
      by (rule runs_weaken [OF runs_register])
        (auto simp: core_register [OF trans [OF that assms(2)]] intro: ends_mono register_new_agent)
  qed
qed (auto simp: new_agent_ends_def intro: ends_after)

lemma runs_new_agent:
  assumes "fenced env (j_enrollment_id j)"
  shows "runs (knows j tr) (activate_and_register env j) (ends tr (new_agent_ends j))"
proof -
  have stop: "new_agent_ends j [] w" for w by (simp add: new_agent_ends_def)
  consider "j_state j \<noteq> ACTIVATION_REQUESTED" | "j_state j = ACTIVATION_REQUESTED" "\<not> managed_method (j_enrollment_method j)"
    | "j_state j = ACTIVATION_REQUESTED" "managed_method (j_enrollment_method j)" by blast
  then show ?thesis
  proof cases
    case 1
    then show ?thesis
      using runs_register_copy [OF assms refl, of tr] by (simp add: activate_and_register_def activation_effect_def)
  next
    case 2
    then show ?thesis
      using runs_activated_copy [OF assms refl, of tr]
      by (simp add: activate_and_register_def activation_effect_def managed_method_def)
  next
    case 3
    then have a: "activation_effect j = [Activated (j_remote_credential_id j)]" by (simp add: activation_effect_def)
    have g: "runs (knows c (tr @ [Activated (j_remote_credential_id j)])) (then_do (transition_claimed env c ACTIVATED False)
        (\<lambda>t. case t of None \<Rightarrow> give () | Some c \<Rightarrow> register_activated env c)) (ends tr (new_agent_ends j))"
      if "core c = core j" for c
      using runs_activated_copy [OF assms that, of tr] a by simp
    show ?thesis
      using 3 unfolding activate_and_register_def Let_def managed_method_def
      by simp (intro runs_ends_readable runs_ends_leased assms g stop quiet_intros quiet_if knows_ticks;
          simp add: new_agent_ends_def a)
  qed
qed

lemma runs_recover_new_agent:
  assumes "fenced env (j_enrollment_id j)"
  shows "runs (knows j tr) (recover_new_agent env j) (ends tr (new_agent_ends j))"
  unfolding recover_new_agent_def
  using runs_new_agent [OF assms]
  by (auto intro!: runs_knows [OF runs_ends_quiet] quiet_intros simp: new_agent_ends_def split: sum.splits prod.splits)

section \<open>Rotation\<close>

definition abandon_effects :: "enrollment_job \<Rightarrow> effect list" where
  "abandon_effects j = [Revoked (j_remote_credential_id j), CredentialDeleted (py_or (j_credential_temp_ref j) [])]"

definition retire_effects :: "enrollment_job \<Rightarrow> effect list" where
  "retire_effects j = (if j_old_enrollment_method j = Some LEGACY_ADMIN_TOKEN then []
     else [Revoked (j_old_remote_credential_id j)]) @ [CredentialDeleted (py_or (j_old_credential_ref j) [])]"

lemma core_rotation:
  assumes "core c = core j"
  shows "abandon_effects c = abandon_effects j" and "retire_effects c = retire_effects j"
  using assms by (simp_all add: core_def abandon_effects_def retire_effects_def)

lemma runs_finish_rotation:
  "runs (at_trace tr) (finish_rotation env c)
    (ends tr (\<lambda>t _. prefix t [CredentialDeleted (py_or (j_old_credential_ref c) [])]))"
  unfolding finish_rotation_def by (intro runs_ends_delete quiet_intros quiet_if) simp_all

lemma runs_retire:
  assumes "fenced env (j_enrollment_id j)"
  shows "runs (knows j tr) (retire_old_credential env j) (ends tr (\<lambda>t _. prefix t (retire_effects j)))"
  unfolding retire_old_credential_def
proof (rule runs_ends_copied [OF runs_renew], goal_cases)
  case (2 c)
  then have c: "core c = core j" and f: "fenced env (j_enrollment_id c)" using assms core_id by metis+
  show ?case
  proof (cases "j_old_enrollment_method c = Some LEGACY_ADMIN_TOKEN")
    case True
    then show ?thesis
      unfolding core_rotation(2) [OF c, symmetric]
      using runs_knows [OF runs_finish_rotation] by (simp add: retire_effects_def)
  next
    case False
    have "runs (knows d (tr @ [Revoked (j_old_remote_credential_id c)])) (finish_rotation env d)
        (ends tr (\<lambda>t _. prefix t (retire_effects c)))" if "core d = core c" for d
      using that by (intro runs_knows runs_weaken [OF runs_finish_rotation])
        (auto intro: ends_after simp: retire_effects_def False core_def)
    then show ?thesis
      unfolding core_rotation(2) [OF c, symmetric]
      by (simp only: False if_False) (intro runs_ends_leased f quiet_intros; simp add: retire_effects_def False)
  qed
qed simp

lemma runs_ends_closed_then_delete:
  "runs (at_trace tr) (then_do (transition_claimed env x FAILED True) (\<lambda>failed. case failed of None \<Rightarrow> give ()
      | Some f \<Rightarrow> then_do (record_mutation_failure f a b) (\<lambda>_. then_do (store_lease env)
          (\<lambda>_. then_do (store_delete_if_exists env ref) (\<lambda>_. give ())))))
    (ends tr (\<lambda>t _. prefix t [CredentialDeleted ref]))"
proof (rule runs_ends_then_quiet [OF quiet_claims(5)], goal_cases)
  case (2 v)
  show ?case
  proof (cases v)
    case (Some f)
    then show ?thesis
      by simp (rule runs_ends_then_quiet [OF quiet_basic(6)], simp, rule runs_ends_delete, auto intro: quiet_intros)
  qed (simp add: runs_ends_quiet quiet_intros)
qed simp

lemma runs_abandon:
  assumes "fenced env (j_enrollment_id j)"
  shows "runs (knows j tr) (compensate_rotation_registry_mismatch env j) (ends tr (\<lambda>t _. prefix t (abandon_effects j)))"
  unfolding compensate_rotation_registry_mismatch_def
proof (rule runs_ends_copied [OF runs_mark], goal_cases)
  case (2 c)
  then have c: "core c = core j" and f: "fenced env (j_enrollment_id c)" using assms core_id by metis+
  show ?case
    unfolding core_rotation(1) [OF c, symmetric]
  proof (rule runs_ends_leased [OF f], goal_cases)
    case (4 d)
    then have d: "j_credential_temp_ref d = j_credential_temp_ref c" by (simp add: core_def)
    show ?case unfolding d
      by (intro runs_knows runs_weaken [OF runs_ends_closed_then_delete])
        (auto intro: ends_after simp: abandon_effects_def)
  qed (auto intro!: quiet_intros simp: abandon_effects_def)
qed simp

text \<open>The swap leaves the job as it is, so the copy stays good.\<close>

lemma swap_keeps_knowledge:
  assumes "knows j tr w" and "swap_rotation j now (rw_db w) = Inr (a, d)"
  shows "knows j (tr @ [x]) (w\<lparr>rw_db := d, rw_trace := rw_trace w @ [x]\<rparr>) \<and> a_agent_id a = py_or (j_replace_agent_id j) []"
proof -
  have "manager_ok d"
    by (rule manager.run_inv [of "rw_db w" "RegistryCall (RSwap j now)" "()"])
      (use assms in \<open>auto simp: as_store_def answer_def knows_def\<close>)
  moreover have "db_jobs d = db_jobs (rw_db w) \<and> a_agent_id a = py_or (j_replace_agent_id j) []"
  proof -
    obtain i old d1 where u: "rotation_complete j" "j_replace_agent_id j = Some i" "agent_get i (rw_db w) = Some old"
      "a = rotated j now old" "update_agents (captured_agent j i) (overwrite a) (rw_db w) = Some d1"
      "upsert_status (fresh_status i (a_revision a) ''unknown'' now) d1 = Some d"
      using assms(2) by (rule swap_rotation_update) blast
    have "a_agent_id a = i" using u(3,4) agent_getD by (force simp: rotated_def)
    then show ?thesis using u(1,2) statements_keep_jobs(2) [OF u(5)] statements_keep_jobs(4) [OF u(6)]
      by (auto simp: py_or_def rotation_complete_def)
  qed
  ultimately show ?thesis using assms(1) by (auto simp: knows_def journal_get_def)
qed

definition swap_outcome :: "enrollment_job \<Rightarrow> effect list \<Rightarrow> recovery_error + swap_result \<Rightarrow> recovery_world \<Rightarrow> bool" where
  "swap_outcome j tr r w \<longleftrightarrow>
     knows j (if r = Inr SwapDone then tr @ [Swapped (py_or (j_replace_agent_id j) [])] else tr) w"

lemma runs_swap: "runs (knows j tr) (swap_agent env j) (swap_outcome j tr)"
  unfolding runs_def
proof (intro allI impI)
  fix w
  assume k: "knows j tr w"
  let ?now = "v_clock env (rw_tick w)" and ?w = "w\<lparr>rw_tick := Suc (rw_tick w)\<rparr>"
  have k': "knows j tr ?w" using k by (simp add: knows_tick)
  show "swap_outcome j tr (fst (swap_agent env j w)) (snd (swap_agent env j w))"
  proof (cases "swap_rotation j ?now (rw_db w)")
    case (Inl e)
    then show ?thesis using k'
      by (cases e) (auto simp: swap_agent_def swap_outcome_def now_at_def step_def then_do_def give_def
          except_registry_def transact_def)
  next
    case (Inr b)
    then obtain a d where "swap_rotation j ?now (rw_db ?w) = Inr (a, d)" by (cases b) auto
    from swap_keeps_knowledge [OF k' this] this show ?thesis
      by (simp add: swap_agent_def swap_outcome_def now_at_def step_def then_do_def give_def
          except_registry_def transact_def log_effect_def)
  qed
qed

text \<open>The registry already names the new credential: an earlier run swapped it and stopped.\<close>

definition switched :: "enrollment_job \<Rightarrow> recovery_world \<Rightarrow> bool" where
  "switched j w \<longleftrightarrow> (\<exists>a. agent_get (py_or (j_replace_agent_id j) []) (rw_db w) = Some a \<and>
     Some (a_credential_ref a) = j_credential_temp_ref j)"

text \<open>
  The run ended with the retirement of the old credential, which it began, after the effects \<open>tr\<close>, in a world whose
  registry named the new one.
\<close>

definition retired_from :: "recovery_env \<Rightarrow> enrollment_job \<Rightarrow> effect list \<Rightarrow> recovery_world \<Rightarrow> bool" where
  "retired_from env j tr w \<longleftrightarrow> (\<exists>c v. core c = core j \<and> switched j v \<and> rw_trace v = tr \<and> w = snd (retire_old_credential env c v))"

definition rotation_ends ::
  "recovery_env \<Rightarrow> bool \<Rightarrow> enrollment_job \<Rightarrow> effect list \<Rightarrow> effect list \<Rightarrow> recovery_world \<Rightarrow> bool" where
  "rotation_ends env b j tr t w \<longleftrightarrow> prefix t (abandon_effects j) \<or>
     prefix t (Swapped (py_or (j_replace_agent_id j) []) # retire_effects j) \<or>
     b \<and> prefix t (retire_effects j) \<and> retired_from env j tr w"

lemma core_rotation_ends:
  assumes "core c = core j"
  shows "rotation_ends env b c = rotation_ends env b j"
proof -
  have "j_replace_agent_id c = j_replace_agent_id j" "j_credential_temp_ref c = j_credential_temp_ref j"
    using assms by (simp_all add: core_def)
  then show ?thesis by (intro ext) (simp add: rotation_ends_def retired_from_def switched_def core_rotation [OF assms] assms)
qed

lemma runs_swap_and_retire:
  assumes "fenced env (j_enrollment_id j)"
  shows "runs (\<lambda>w. knows j tr w \<and> (switched j w \<longrightarrow> b)) (swap_and_retire env j) (ends tr (rotation_ends env b j tr))"
proof -
  let ?E = "ends tr (rotation_ends env b j tr)"
  have stop: "runs (knows j tr) (residual_claim env j c) ?E" for c
    by (intro runs_knows runs_ends_quiet quiet_intros) (simp add: rotation_ends_def)
  have abandon: "runs (knows j tr) (compensate_rotation_registry_mismatch env j) ?E"
    by (rule runs_weaken [OF runs_abandon [OF assms]]) (auto intro: ends_mono simp: rotation_ends_def)
  have retire: "runs (\<lambda>w. knows j tr w \<and> switched j w \<and> b) (retire_old_credential env j) ?E"
    using runs_retire [OF assms, of tr] knows_trace [of j tr]
    unfolding runs_def ends_def rotation_ends_def retired_from_def by blast
  have lost: "?E (Inl e) w" if "swap_outcome j tr (Inl e) w" for e :: recovery_error and w
    using that knows_trace [of j tr w] by (auto intro!: ends_stop simp: swap_outcome_def rotation_ends_def)
  have swap: "runs (knows j tr) (then_do (swap_agent env j) (\<lambda>r. case r of
      SwapDone \<Rightarrow> retire_old_credential env j
    | SwapLost \<Rightarrow> compensate_rotation_registry_mismatch env j
    | SwapUnavailable \<Rightarrow> residual_claim env j ''agent_registry_unavailable'')) ?E"
  proof (rule runs_then [where R = "\<lambda>v. swap_outcome j tr (Inr v)"], rule runs_weaken [OF runs_swap])
    fix v
    show "runs (swap_outcome j tr (Inr v)) (case v of SwapDone \<Rightarrow> retire_old_credential env j
      | SwapLost \<Rightarrow> compensate_rotation_registry_mismatch env j
      | SwapUnavailable \<Rightarrow> residual_claim env j ''agent_registry_unavailable'') ?E"
    proof (cases v)
      case SwapDone
      have "runs (knows j (tr @ [Swapped (py_or (j_replace_agent_id j) [])])) (retire_old_credential env j) ?E"
        by (rule runs_weaken [OF runs_retire [OF assms]]) (auto intro: ends_after simp: rotation_ends_def)
      from runs_weaken [OF this, of "swap_outcome j tr (Inr v)" ?E] show ?thesis
        by (simp add: SwapDone swap_outcome_def)
    qed (auto simp: swap_outcome_def intro: runs_weaken [OF abandon] runs_weaken [OF stop])
  qed (use lost in \<open>auto split: sum.splits\<close>)
  show ?thesis
    unfolding runs_def
  proof (intro allI impI)
    fix w
    assume w: "knows j tr w \<and> (switched j w \<longrightarrow> b)"
    let ?a = "agent_get (py_or (j_replace_agent_id j) []) (rw_db w)"
    have "?a = Some x \<Longrightarrow> Some (a_credential_ref x) = j_credential_temp_ref j \<Longrightarrow> switched j w \<and> b" for x
      using w by (auto simp: switched_def)
    then show "?E (fst (swap_and_retire env j w)) (snd (swap_and_retire env j w))"
      using w stop abandon retire swap unfolding runs_def swap_and_retire_def by (cases ?a) auto
  qed
qed

definition recovered_rotation ::
  "recovery_env \<Rightarrow> bool \<Rightarrow> enrollment_job \<Rightarrow> effect list \<Rightarrow> effect list \<Rightarrow> recovery_world \<Rightarrow> bool" where
  "recovered_rotation env b j tr t w \<longleftrightarrow> (if j_state j = ACTIVATION_REQUESTED
     then t = [] \<or> (\<exists>u. t = Activated (j_remote_credential_id j) # u \<and>
       rotation_ends env True j (tr @ [Activated (j_remote_credential_id j)]) u w)
     else rotation_ends env b j tr t w)"

lemma runs_activate_and_swap:
  assumes f: "fenced env (j_enrollment_id j)"
  shows "runs (\<lambda>w. knows j tr w \<and> (switched j w \<longrightarrow> b)) (activate_and_swap env j)
    (ends tr (recovered_rotation env b j tr))"
proof (cases "j_state j = ACTIVATION_REQUESTED")
  case False
  then have "recovered_rotation env b j tr = rotation_ends env b j tr" by (intro ext) (simp add: recovered_rotation_def)
  then show ?thesis
    using False runs_swap_and_retire [OF assms] by (simp add: activate_and_swap_def)
next
  case s: True
  show ?thesis
    unfolding activate_and_swap_def if_not_P [OF not_not [THEN iffD2, OF s]]
  proof (rule runs_weaken [OF runs_ends_leased [OF f, where tr = tr and S = "recovered_rotation env b j tr"]], goal_cases)
    case (4 c)
    let ?a = "Activated (j_remote_credential_id j)"
    have swap: "runs (knows d tr') (swap_and_retire env d) (ends tr' (rotation_ends env True j tr'))" if "core d = core c" for d tr'
    proof -
      have d: "core d = core j" using that 4 by simp
      then have "fenced env (j_enrollment_id d)" using f core_id by metis
      from runs_swap_and_retire [OF this, of tr' True] show ?thesis by (simp add: core_rotation_ends [OF d])
    qed
    have "runs (knows c (tr @ [?a])) (then_do (transition_claimed env c ACTIVATED False)
        (\<lambda>t. case t of None \<Rightarrow> give () | Some c \<Rightarrow> swap_and_retire env c))
        (ends (tr @ [?a]) (rotation_ends env True j (tr @ [?a])))"
      by (rule runs_ends_copied [OF runs_activated]) (rule swap, assumption | simp add: rotation_ends_def)+
    then show ?case
      by (rule runs_weaken) (auto intro: ends_after simp: recovered_rotation_def s)
  qed (auto intro!: quiet_intros simp: recovered_rotation_def s rotation_ends_def)
qed

lemma runs_recover_rotation:
  assumes "fenced env (j_enrollment_id j)"
  shows "runs (\<lambda>w. knows j tr w \<and> (switched j w \<longrightarrow> b)) (recover_rotation env j)
    (ends tr (recovered_rotation env b j tr))"
proof -
  let ?P = "\<lambda>w. knows j tr w \<and> (switched j w \<longrightarrow> b)" and ?E = "ends tr (recovered_rotation env b j tr)"
  have stop: "recovered_rotation env b j tr [] w" for w by (simp add: recovered_rotation_def rotation_ends_def)
  have residual: "runs ?P (residual_claim env j c) ?E" for c
    by (rule runs_weaken [OF runs_knows [OF runs_ends_quiet [where tr = tr, OF quiet_claims(3)]]]) (auto intro: stop)
  have "runs ?P (then_do (store_read env (j_credential_temp_ref j)) (\<lambda>readable.
      if \<not> readable then residual_claim env j ''credential_store_unavailable'' else activate_and_swap env j)) ?E"
    by (rule runs_ends_readable [OF quiet_claims(3) _ runs_activate_and_swap [OF assms]])
      (auto simp: stop switched_def knows_def)
  then show ?thesis
    unfolding recover_rotation_def using residual by (auto split: sum.splits)
qed

end
