(* ===== verification/Recovery_Completion.thy ===== *)
theory Recovery_Completion
  imports Recovery_Order Enrollment_Jobs
begin

text \<open>
  Recovery makes progress: when the agent answers, the credential store works and nobody interferes, one
  run takes a saved enrollment to its end, however many lease intervals its network calls last.
\<close>

section \<open>A calm environment\<close>

definition calm :: "recovery_env \<Rightarrow> bool" where
  "calm env \<longleftrightarrow> v_client env \<and> 1 \<le> v_lease_seconds env \<and> (\<forall>n. v_others env n = [] \<and> v_store_ok env n \<and> v_sync_ok env n \<and>
     \<not> failed_call (v_net env n)) \<and> (\<forall>n xs. v_store_others env n xs = xs) \<and>
     (\<forall>n k. k \<le> 4 \<longrightarrow> v_clock env (n + k) < v_clock env n + seconds (v_lease_seconds env)) \<and> (\<forall>x. hex64_re (v_sha256 env x))"

text \<open>
  The run holds the claim on a valid job, and its lease outlasts the next \<open>b\<close> steps of the run.  At most three steps lie
  before the next renewal, a fourth reads the clock for it; how long the whole run takes is not bounded.
\<close>

definition holding :: "recovery_env \<Rightarrow> nat \<Rightarrow> enrollment_job \<Rightarrow> recovery_world \<Rightarrow> bool" where
  "holding env b j w \<longleftrightarrow> manager_ok (rw_db w) \<and> journal_get (j_enrollment_id j) (rw_db w) = Some j \<and>
     valid_job j \<and> storable j \<and> j_recovery_owner j = Some (v_owner env) \<and> 1 \<le> j_recovery_revision j \<and>
     (\<forall>k\<le>b. sql_gt (j_recovery_lease_until j) (v_clock env (rw_tick w + k)))"

definition holds_claim :: "recovery_env \<Rightarrow> enrollment_job \<Rightarrow> recovery_world \<Rightarrow> bool" where
  "holds_claim env j w \<longleftrightarrow> holding env 3 j w"

lemma holding_less: "holding env b j w \<Longrightarrow> a \<le> b \<Longrightarrow> holding env a j w"
  by (simp add: holding_def)

lemma holding_step: "holding env (Suc b) j w \<Longrightarrow> holding env b j (w\<lparr>rw_tick := Suc (rw_tick w)\<rparr>)"
  by (auto simp: holding_def dest: spec [of _ "Suc k" for k])

definition request_of :: "enrollment_job \<Rightarrow> enrollment_job" where
  "request_of j = j\<lparr>j_state := PENDING, j_recovery_lease_until := None, j_recovery_revision := 0, j_updated_at := 0\<rparr>"

definition same_fleet :: "recovery_world \<Rightarrow> recovery_world \<Rightarrow> bool" where
  "same_fleet w w' \<longleftrightarrow> db_agents (rw_db w') = db_agents (rw_db w) \<and> db_status (rw_db w') = db_status (rw_db w) \<and>
     rw_creds w' = rw_creds w"

lemma same_fleet_reads:
  assumes "same_fleet w w'"
  shows "agent_get i (rw_db w') = agent_get i (rw_db w)" "find_duplicate x y (rw_db w') = find_duplicate x y (rw_db w)"
  using assms by (simp_all add: same_fleet_def agent_get_def find_duplicate_def split: option.splits)

text \<open>From \<open>(j, w)\<close> the run has come to the copy \<open>c\<close> in state \<open>st\<close> and the world \<open>w'\<close>.\<close>

definition arrives :: "recovery_env \<Rightarrow> nat \<Rightarrow> enrollment_job \<Rightarrow> recovery_world \<Rightarrow> enrollment_state \<Rightarrow> effect list \<Rightarrow>
    enrollment_job \<Rightarrow> recovery_world \<Rightarrow> bool" where
  "arrives env b j w st effs c w' \<longleftrightarrow> holding env b c w' \<and> request_of c = request_of j \<and> j_state c = st \<and>
     same_fleet w w' \<and> rw_trace w' = rw_trace w @ effs"

lemma arrives_trans:
  "arrives env a j w st effs c w' \<Longrightarrow> arrives env b c w' st' effs' c' w'' \<Longrightarrow> arrives env b j w st' (effs @ effs') c' w''"
  by (simp add: arrives_def same_fleet_def)

lemma arrives_refl: "holding env b j w \<Longrightarrow> arrives env b j w (j_state j) [] j w"
  by (simp add: arrives_def same_fleet_def)

lemma request_fields:
  assumes "request_of c = request_of j"
  shows "j_enrollment_id c = j_enrollment_id j" "j_enrollment_method c = j_enrollment_method j"
    "j_credential_temp_ref c = j_credential_temp_ref j" "j_remote_credential_id c = j_remote_credential_id j"
    "activated_record c t u = activated_record j t u" "j_remote_instance_id c = j_remote_instance_id j"
    "j_normalized_endpoint c = j_normalized_endpoint j"
proof -
  have f: "g c = g j" if "\<And>x. g (request_of x) = g x" for g :: "enrollment_job \<Rightarrow> 'a"
    using arg_cong [OF assms, of g] that by simp
  show "j_enrollment_id c = j_enrollment_id j" "j_enrollment_method c = j_enrollment_method j"
    "j_credential_temp_ref c = j_credential_temp_ref j" "j_remote_credential_id c = j_remote_credential_id j"
    "activated_record c t u = activated_record j t u" "j_remote_instance_id c = j_remote_instance_id j"
    "j_normalized_endpoint c = j_normalized_endpoint j"
    by (rule f, simp add: request_of_def activated_record_def)+
qed

section \<open>Claim methods succeed\<close>

lemma valid_blocks_renewed [simp]:
  "valid_identity (set_renewed now l j) = valid_identity j" "valid_ssh (set_renewed now l j) = valid_ssh j"
  "valid_request (set_renewed now l j) = valid_request j" "valid_rotation (set_renewed now l j) = valid_rotation j"
  "valid_phase (set_renewed now l j) = valid_phase j" "valid_cli_claim (set_renewed now l j) = valid_cli_claim j"
  "valid_receipt (set_renewed now l j) = valid_receipt j" "valid_pin (set_renewed now l j) = valid_pin j"
  "valid_references (set_renewed now l j) = valid_references j" "storable (set_renewed now l j) = storable j"
  by (simp_all add: set_renewed_def valid_identity_def valid_ssh_def valid_request_def valid_rotation_def
      no_rotation_metadata_def full_rotation_metadata_def valid_phase_def valid_cli_claim_def no_cli_claim_def
      valid_receipt_def valid_pin_def credential_pin_required_def valid_references_def storable_def unscoped_def
      split: option.splits)

lemma valid_renewed: "valid_job j \<Longrightarrow> j_recovery_owner j \<noteq> None \<Longrightarrow> valid_job (set_renewed now l j)"
  unfolding valid_job_def valid_blocks_renewed by (auto simp: valid_recovery_def set_renewed_def)

lemma renew_arrives:
  assumes "calm env" and h: "holding env b j w"
  shows "\<exists>c w'. renew_claim env j w = (Inr (Some c), w') \<and> arrives env 3 j w (j_state j) [] c w'"
proof -
  let ?now = "v_clock env (rw_tick w)" and ?l = "v_lease_seconds env"
  let ?c = "set_renewed ?now ?l j" and ?e = "j_enrollment_id j" and ?d = "rw_db w"
  let ?P = "\<lambda>r. held ?e (v_owner env) (j_recovery_revision j) r \<and> lease_live ?now r"
  let ?Q = "\<lambda>x. j_recovery_owner x = Some (v_owner env) \<and> j_recovery_revision x = j_recovery_revision j \<and>
    sql_gt (j_recovery_lease_until x) ?now"
  have ok: "db_ok ?d" "manager_ok ?d" and g: "journal_get ?e ?d = Some j" and Q: "?Q j"
    using h by (auto simp: holding_def manager_ok_def dest: spec [of _ 0])
  have P: "?P r \<longleftrightarrow> row_id r = ?e \<and> ?Q (row_job r)" for r by (auto simp: held_def lease_live_def)
  have c: "valid_job ?c" "storable ?c" using h by (auto simp: holding_def intro: valid_renewed)
  have row: "row_job r = j" if "r \<in> set (db_jobs ?d)" "row_id r = ?e" for r
    using that ok(1) g journal_get_iff [of ?d ?e "row_job r"] by auto
  obtain d' where u: "update_jobs ?P (set_job (set_renewed ?now ?l)) ?d = Some d'"
    using update_jobs_total [OF ok(1), of ?P "set_renewed ?now ?l"] row valid_job_check [OF c] P
    by (auto simp: set_renewed_def)
  have n: "rowcount ?P (db_jobs ?d) = Suc 0" using keyed_rowcount(1) [OF ok(1) P] g Q by blast
  have g': "journal_get ?e d' = Some ?c"
    using keyed_update_get [OF ok(1) u P, of ?e] g Q by (simp add: set_renewed_def)
  have r: "renew_recovery_claim ?e (v_owner env) (j_recovery_revision j) ?now ?l ?d = Inr (Some ?c, d')"
    using assms n u g' by (simp add: renew_recovery_claim_def calm_def holding_def Let_def)
  have ok': "manager_ok d'"
    by (rule journal_call_ok [OF ok(2), of "ORenew ?e (v_owner env) (j_recovery_revision j) ?now ?l"])
      (simp add: reply_def r)
  have fleet: "db_agents d' = db_agents ?d \<and> db_status d' = db_status ?d"
    using update_jobs_Some [OF u] by simp
  have clock: "\<forall>n k. k \<le> 4 \<longrightarrow> v_clock env (n + k) < v_clock env n + seconds ?l"
    using assms(1) unfolding calm_def by blast
  have "v_clock env (Suc (rw_tick w) + k) < ?now + seconds ?l" if "k \<le> 3" for k
    using clock [rule_format, of "Suc k" "rw_tick w"] that by simp
  then have "\<forall>k\<le>3. sql_gt (j_recovery_lease_until ?c) (v_clock env (Suc (rw_tick w) + k))" by (simp add: set_renewed_def)
  moreover have "j_enrollment_id ?c = ?e" "j_recovery_owner ?c = j_recovery_owner j" "j_state ?c = j_state j"
    "j_recovery_revision ?c = j_recovery_revision j + 1" "request_of ?c = request_of j"
    by (simp_all add: set_renewed_def request_of_def)
  ultimately have "arrives env 3 j w (j_state j) [] ?c (w\<lparr>rw_tick := Suc (rw_tick w), rw_db := d'\<rparr>)"
    using c ok' g' h fleet by (simp add: arrives_def same_fleet_def holding_def)
  then show ?thesis
    by (intro exI [of _ ?c] exI [of _ "w\<lparr>rw_tick := Suc (rw_tick w), rw_db := d'\<rparr>"])
      (simp add: renew_claim_def then_do_def now_at_def step_def give_def except_registry_def transact_def r)
qed

lemma valid_activated:
  assumes "valid_job j" and s: "j_state j = ACTIVATION_REQUESTED"
  shows "valid_job (claimed_update env now ACTIVATED False j)"
proof -
  let ?k = "claimed_update env now ACTIVATED False j"
  have "valid_identity ?k = valid_identity j" "valid_ssh ?k = valid_ssh j" "valid_request ?k = valid_request j"
    "valid_references ?k = valid_references j" "valid_rotation ?k = valid_rotation j"
    by (simp_all add: claimed_update_def Let_def valid_identity_def valid_ssh_def valid_request_def valid_references_def
        valid_rotation_def no_rotation_metadata_def full_rotation_metadata_def s split: option.splits)
  moreover have "valid_phase ?k = valid_phase j" "valid_cli_claim ?k = valid_cli_claim j" "valid_pin ?k = valid_pin j"
    by (simp_all add: claimed_update_def Let_def valid_phase_def activation_state_def credential_state_def
        valid_cli_claim_def no_cli_claim_def claim_state_def valid_pin_def credential_pin_required_def s split: option.splits)
  moreover have "valid_receipt j \<Longrightarrow> valid_receipt ?k" "valid_recovery j \<Longrightarrow> valid_recovery ?k"
    by (auto simp: claimed_update_def Let_def valid_receipt_def valid_recovery_def s split: option.splits)
  ultimately show ?thesis using assms(1) unfolding valid_job_def by blast
qed

lemma activate_arrives:
  assumes "calm env" and h: "holding env (Suc b) j w" and s: "j_state j = ACTIVATION_REQUESTED"
  shows "\<exists>c w'. transition_claimed env j ACTIVATED False w = (Inr (Some c), w') \<and> arrives env b j w ACTIVATED [] c w'"
proof -
  let ?now = "v_clock env (rw_tick w)" and ?d = "rw_db w"
  let ?c = "claimed_update env ?now ACTIVATED False j"
  have ok: "db_ok ?d" "manager_ok ?d" and g: "journal_get (j_enrollment_id ?c) ?d = Some j"
    using h by (auto simp: holding_def manager_ok_def)
  have c: "valid_job ?c" using h s by (auto simp: holding_def intro: valid_activated)
  have f: "storable ?c" "j_replace_agent_id ?c = j_replace_agent_id j" "j_recovery_owner ?c = j_recovery_owner j"
    "j_recovery_lease_until ?c = j_recovery_lease_until j" "j_recovery_revision ?c = j_recovery_revision j + 1"
    "request_of ?c = request_of j"
    using h s by (simp_all add: holding_def claimed_update_def Let_def storable_def unscoped_def request_of_def)
  have "fence_matches (Some (v_owner env)) (Some (j_recovery_revision j)) (Some ?now) j"
    using h by (auto simp: holding_def fence_matches_def dest: spec [of _ 0])
  from replace_succeeds [OF ok(1) g c f(1) _ f(2) this] f(5)
  have r: "replace_if_state ?c (j_state j) (Some (v_owner env)) (Some (j_recovery_revision j)) (Some ?now) ?d =
      Inr (?c, put_job ?c ?d)" by (simp add: s)
  have "manager_ok (put_job ?c ?d)"
    by (rule journal_call_ok [OF ok(2), of "OReplace ?c (j_state j) (Some (v_owner env)) (Some (j_recovery_revision j)) (Some ?now)"])
      (simp add: reply_def r)
  then have "arrives env b j w ACTIVATED [] ?c (w\<lparr>rw_tick := Suc (rw_tick w), rw_db := put_job ?c ?d\<rparr>)"
    using c f holding_step [OF h] h replace_effect [OF ok(1) r]
    by (simp add: arrives_def same_fleet_def holding_def put_job_def)
  then show ?thesis
    by (intro exI [of _ ?c] exI [of _ "w\<lparr>rw_tick := Suc (rw_tick w), rw_db := put_job ?c ?d\<rparr>"])
      (simp add: transition_claimed_def then_do_def now_at_def step_def give_def except_registry_def transact_def r)
qed

section \<open>Leased calls are answered\<close>

lemma calm_others: "calm env \<Longrightarrow> others_act env w = (Inr (), w\<lparr>rw_tick := Suc (rw_tick w)\<rparr>)"
  by (simp add: calm_def others_act_def then_do_def step_def)

lemma lease_loop_arrives:
  assumes "calm env" and "holding env 1 j w"
  shows "\<exists>c w'. lease_loop env n j w = (Inr (Some c), w') \<and> arrives env 1 j w (j_state j) [] c w'"
  using assms(2)
proof (induction n arbitrary: j w)
  case 0
  then show ?case by (auto simp: give_def intro: arrives_refl)
next
  case (Suc n)
  let ?w = "w\<lparr>rw_tick := Suc (rw_tick w)\<rparr>"
  have "holding env 0 j ?w" using holding_step [of env 0 j w] Suc.prems by simp
  then obtain c w1 where c: "renew_claim env j ?w = (Inr (Some c), w1)" "arrives env 3 j ?w (j_state j) [] c w1"
    using renew_arrives [OF assms(1)] by blast
  then have "holding env 1 c w1" by (auto simp: arrives_def intro: holding_less)
  then obtain c' w2 where c': "lease_loop env n c w1 = (Inr (Some c'), w2)" "arrives env 1 c w1 (j_state c) [] c' w2"
    using Suc.IH by blast
  have "arrives env 1 j w (j_state j) [] c' w2"
    using arrives_trans [OF c(2) c'(2)] c(2) by (simp add: arrives_def same_fleet_def)
  then show ?case using c(1) c'(1) by (auto simp: then_do_def calm_others [OF assms(1)])
qed

lemma leased_arrives:
  assumes calm: "calm env" and "holding env 2 j w"
  shows "\<exists>c out w'. run_with_recovery_lease env j (Some eff) w = (Inr (Some (c, out)), w') \<and> \<not> failed_call out \<and>
    arrives env 3 j w (j_state j) [eff] c w'"
proof -
  let ?w = "w\<lparr>rw_tick := Suc (rw_tick w)\<rparr>" and ?k = "rw_tick w"
  have "holding env 1 j ?w" using holding_step [of env 1 j w] assms(2) by (simp add: numeral_2_eq_2)
  then obtain c w1 where c: "lease_loop env (v_intervals env ?k) j ?w = (Inr (Some c), w1)" "arrives env 1 j ?w (j_state j) [] c w1"
    using lease_loop_arrives [OF calm, of j ?w "v_intervals env ?k"] by blast
  have out: "\<not> failed_call (v_net env ?k)" using calm by (simp add: calm_def)
  let ?w2 = "w1\<lparr>rw_tick := Suc (rw_tick w1), rw_trace := rw_trace w1 @ [eff]\<rparr>"
  have a: "acknowledged (Some eff) (v_net env ?k) (w1\<lparr>rw_tick := Suc (rw_tick w1)\<rparr>) = (Inr (), ?w2)"
    using out by (cases "v_net env ?k") (simp_all add: acknowledged_def log_effect_def)
  have "holding env 0 c (w1\<lparr>rw_tick := Suc (rw_tick w1)\<rparr>)" using holding_step [of env 0 c w1] c(2) by (simp add: arrives_def)
  then have "arrives env 0 c w1 (j_state c) [eff] c ?w2"
    by (simp add: arrives_def same_fleet_def holding_def)
  moreover from this obtain c' w3 where c': "renew_claim env c ?w2 = (Inr (Some c'), w3)"
      "arrives env 3 c ?w2 (j_state c) [] c' w3"
    using renew_arrives [OF calm, of 0 c ?w2] by (auto simp: arrives_def)
  ultimately have "arrives env 3 j w (j_state j) [eff] c' w3"
    using c(2) by (auto simp: arrives_def same_fleet_def)
  then show ?thesis
    using c(1) c'(1) a out
    by (auto simp: run_with_recovery_lease_def then_do_def step_def give_def calm_others [OF calm])
qed

section \<open>The commit succeeds\<close>

lemma check_consumed:
  assumes "check_job j" and "\<forall>x\<in>set_option rc. hex64_re x \<and> j_enrollment_method j = SSH_CLI"
  shows "check_job (set_consumed rc now j)"
proof -
  have "check_pinned (set_consumed rc now j)" "check_cli_claim (set_consumed rc now j)" "check_receipt (set_consumed rc now j)"
    using assms by (auto simp: check_job_def check_pinned_def check_cli_claim_def check_receipt_def set_consumed_def
        clear_claims_def terminal_def credential_state_def hex64_check split: option.splits)
  then show ?thesis
    using assms(1) unfolding check_job_def
    by (simp add: set_consumed_def clear_claims_def credential_state_def activation_state_def)
qed

lemma fresh_status_total:
  assumes "agent_exists d i" and "1 \<le> n"
  shows "\<exists>d'. insert_status_or_ignore (fresh_status i n ''unknown'' now) d = Some d'"
  using assms by (simp add: insert_status_or_ignore_def check_status_def fresh_status_def)

lemma commit_arrives:
  assumes calm: "calm env" and h: "holding env b j w" and s: "j_state j = ACTIVATED"
    and v: "valid_record (activated_record j 0 0)" and free: "agent_get (j_enrollment_id j) (rw_db w) = None"
      "find_duplicate (j_remote_instance_id j) (j_normalized_endpoint j) (rw_db w) = []"
  shows "\<exists>w'. commit_agent env j w = (Inr Committed, w') \<and>
    rw_trace w' = rw_trace w @ [Registered (j_enrollment_id j)] \<and> committed_as j w'"
proof -
  let ?d = "rw_db w" and ?k = "rw_tick w" and ?e = "j_enrollment_id j"
  let ?a = "activated_record j (v_clock env ?k) (v_clock env (Suc ?k))" and ?now = "v_clock env (?k + 3)"
  define rc where "rc = (if j_enrollment_method j = SSH_CLI then Some (cli_accept_receipt env j) else None)"
  have ok: "db_ok ?d" and g: "journal_get ?e ?d = Some j" using h by (auto simp: holding_def manager_ok_def)
  have a: "a_agent_id ?a = ?e" "a_revision ?a = 1" "valid_record ?a"
    using v by (simp_all add: activated_record_def valid_record_def)
  have "agents_unique (db_agents ?d @ [?a])"
    using agents_unique_append [OF ok, of ?a] free by (simp add: activated_record_def)
  then have i: "insert_agent ?a ?d = Some (?d\<lparr>db_agents := db_agents ?d @ [?a]\<rparr>)"
    using valid_record_check [OF a(3)] by (simp add: insert_agent_def)
  obtain d2 where st: "insert_status_or_ignore (fresh_status ?e 1 ''unknown'' ?now) (?d\<lparr>db_agents := db_agents ?d @ [?a]\<rparr>) = Some d2"
    and d2: "db_jobs d2 = db_jobs ?d"
    using fresh_status_total [of "?d\<lparr>db_agents := db_agents ?d @ [?a]\<rparr>" ?e 1 ?now] a(1)
      statements_keep_jobs(5) [of "fresh_status ?e 1 ''unknown'' ?now" "?d\<lparr>db_agents := db_agents ?d @ [?a]\<rparr>"]
    by (auto simp: agent_exists_def)
  have ok2: "db_ok d2" using insert_status_or_ignore_ok [OF _ st] insert_agent_ok [OF ok i] by blast
  have g2: "journal_get ?e d2 = Some j" using g d2 by (simp add: journal_get_def)
  have row: "row_job r = j" if "r \<in> set (db_jobs d2)" "row_id r = ?e" for r
    using that ok2 g2 journal_get_iff [of d2 ?e "row_job r"] by auto
  have "\<forall>x\<in>set_option rc. hex64_re x \<and> j_enrollment_method j = SSH_CLI"
    using calm by (auto simp: rc_def calm_def cli_accept_receipt_def split: if_splits)
  then obtain d3 where u: "update_jobs (activated_claim j) (set_job (set_consumed rc ?now)) d2 = Some d3"
    using update_jobs_total [OF ok2, of "activated_claim j" "set_consumed rc ?now"] row check_consumed [of j rc ?now]
    by (auto simp: activated_claim_def set_consumed_def clear_claims_def)
  have n: "rowcount (activated_claim j) (db_jobs d2) = Suc 0"
    using keyed_rowcount(1) [OF ok2, of "activated_claim j" ?e "\<lambda>x. j_state x = ACTIVATED \<and>
        sql_eq (j_recovery_owner x) (j_recovery_owner j) \<and> j_recovery_revision x = j_recovery_revision j"] g2 s h
    by (auto simp: activated_claim_def holding_def)
  have c: "commit_activated_enrollment j ?a ?now rc ?d = Inr (?a, d3)"
    using s a free(1) i st u n by (simp add: commit_activated_enrollment_def validate_record_def)
  let ?w = "w\<lparr>rw_tick := ?k + 4, rw_db := d3, rw_trace := rw_trace w @ [Registered ?e]\<rparr>"
  have "commit_agent env j w = (Inr Committed, ?w)"
    using c calm unfolding rc_def
    by (simp add: commit_agent_def then_do_def now_at_def step_def give_def Let_def store_lease_def calm_def
        except_registry_def transact_def log_effect_def eval_nat_numeral)
  moreover have "committed_as j ?w" by (rule commit_committed [OF ok c]) simp
  ultimately show ?thesis by (intro exI [of _ ?w]) simp
qed

section \<open>One run registers the agent\<close>

lemma register_arrives:
  assumes calm: "calm env" and h: "holding env b j w" and s: "j_state j = ACTIVATED"
    and v: "valid_record (activated_record j 0 0)" and free: "agent_get (j_enrollment_id j) (rw_db w) = None"
      "find_duplicate (j_remote_instance_id j) (j_normalized_endpoint j) (rw_db w) = []"
  shows "\<exists>w'. register_activated env j w = (Inr (), w') \<and>
    rw_trace w' = rw_trace w @ [Registered (j_enrollment_id j)] \<and> committed_as j w'"
proof -
  obtain c w1 where r: "renew_claim env j w = (Inr (Some c), w1)" and c: "arrives env 3 j w ACTIVATED [] c w1"
    using renew_arrives [OF calm h] s by auto
  have q: "request_of c = request_of j" using c by (simp add: arrives_def)
  have "\<exists>w'. commit_agent env c w1 = (Inr Committed, w') \<and>
      rw_trace w' = rw_trace w1 @ [Registered (j_enrollment_id c)] \<and> committed_as c w'"
    by (rule commit_arrives [OF calm]) (use c free v request_fields [OF q] same_fleet_reads in \<open>auto simp: arrives_def\<close>)
  then obtain w2 where k: "commit_agent env c w1 = (Inr Committed, w2)"
    "rw_trace w2 = rw_trace w1 @ [Registered (j_enrollment_id c)]" "committed_as c w2" by blast
  then show ?thesis
    using r c request_fields [OF q] by (auto simp: register_activated_def then_do_def give_def arrives_def committed_as_def)
qed

lemma run_activates:
  assumes calm: "calm env" and h: "holding env 3 j w" and s: "j_state j = ACTIVATION_REQUESTED"
    and m: "managed_method (j_enrollment_method j)"
    and ref: "j_credential_temp_ref j = Some ref" "credential_ref_re ref" "ref \<in> set (rw_creds w)"
  shows "\<exists>c w'. arrives env 2 j w ACTIVATED [Activated (j_remote_credential_id j)] c w' \<and>
    activate_and_register env j w = register_activated env c w'"
proof -
  let ?w = "w\<lparr>rw_tick := Suc (rw_tick w)\<rparr>" and ?a = "Activated (j_remote_credential_id j)"
  have read: "store_read env (Some ref) w = (Inr True, ?w)"
    using calm ref by (simp add: store_read_def then_do_def step_def calm_def)
  obtain c out w1 where l: "run_with_recovery_lease env j (Some ?a) ?w = (Inr (Some (c, out)), w1)" "\<not> failed_call out"
    and c: "arrives env 3 j ?w (j_state j) [?a] c w1"
    using leased_arrives [OF calm, of j ?w ?a] holding_step [of env 2 j w] h by (auto simp: numeral_3_eq_3 numeral_2_eq_2)
  obtain c' w2 where t: "transition_claimed env c ACTIVATED False w1 = (Inr (Some c'), w2)"
    and c': "arrives env 2 c w1 ACTIVATED [] c' w2"
    using activate_arrives [OF calm, of 2 c w1] c s by (auto simp: arrives_def numeral_3_eq_3 numeral_2_eq_2)
  have "arrives env 2 j w ACTIVATED [?a] c' w2" using arrives_trans [OF c c'] by (simp add: arrives_def same_fleet_def)
  moreover have "activate_and_register env j w = register_activated env c' w2"
    using m s by (simp add: activate_and_register_def Let_def managed_method_def ref(1) then_do_def read l t)
  ultimately show ?thesis by blast
qed

lemma valid_saved:
  assumes "valid_job j" and "saving (j_state j)"
  shows "\<exists>ref. j_credential_temp_ref j = Some ref \<and> credential_ref_re ref" "\<not> falsy (j_requested_display_name j)"
proof -
  show "\<exists>ref. j_credential_temp_ref j = Some ref \<and> credential_ref_re ref"
    using assms by (auto simp: valid_job_def valid_phase_def valid_references_def saving_def credential_state_def)
  show "\<not> falsy (j_requested_display_name j)"
    using assms by (auto simp: valid_job_def valid_phase_def saving_def activation_state_def falsy_def nonempty_def
        split: option.splits)
qed

text \<open>
  \<open>C8\<close>.  A saved enrollment of a managed method completes when nothing goes wrong.  Assume that nobody else changes the
  database or the store, that the agent and the store answer every call, and that fewer than a lease's length passes in any
  four steps of the run (how long the run takes in all is not bounded).  Then a run that holds the claim on a valid
  job in \<open>activation_requested\<close> or \<open>activated\<close>, whose pinned target passes the policy, whose credential is in the store and
  whose identity and endpoint no registered agent has, ends without error with the agent registered and the job consumed,
  its claim released; in the first state the agent has acknowledged the activation before.  The network call may take
  any number of lease intervals: it is the renewals that keep the claim, whose lease at the start need only last for three steps.
\<close>

theorem recovery_registers_agent:
  assumes calm: "calm env" and h: "holds_claim env j w" and s: "saving (j_state j)"
    and m: "managed_method (j_enrollment_method j)" and t: "prepare_pinned_job env j = Inr target"
    and id: "\<not> falsy (j_remote_credential_id j)" and ref: "the (j_credential_temp_ref j) \<in> set (rw_creds w)"
    and v: "valid_record (activated_record j 0 0)" and free: "agent_get (j_enrollment_id j) (rw_db w) = None"
      "find_duplicate (j_remote_instance_id j) (j_normalized_endpoint j) (rw_db w) = []"
  shows "\<exists>w'. recover_new_agent env j w = (Inr (), w') \<and> committed_as j w' \<and>
    rw_trace w' = rw_trace w @ activation_effect j @ [Registered (j_enrollment_id j)]"
proof -
  obtain r where r: "j_credential_temp_ref j = Some r" "credential_ref_re r" and n: "\<not> falsy (j_requested_display_name j)"
    using h s valid_saved [of j] by (auto simp: holds_claim_def holding_def)
  have "r \<noteq> []" using r(2) by (auto simp: credential_ref_re_def)
  then have "recover_new_agent env j w = activate_and_register env j w"
    using m t id n r calm
    by (auto simp: recover_new_agent_def managed_method_def calm_def falsy_def prepare_pinned_job_def split: if_splits)
  moreover have "\<exists>w'. activate_and_register env j w = (Inr (), w') \<and> committed_as j w' \<and>
    rw_trace w' = rw_trace w @ activation_effect j @ [Registered (j_enrollment_id j)]"
  proof (cases "j_state j = ACTIVATED")
    case True
    then show ?thesis
      using register_arrives [OF calm h [unfolded holds_claim_def] True v free] by (auto simp: activate_and_register_def activation_effect_def)
  next
    case False
    then have s: "j_state j = ACTIVATION_REQUESTED" using s by (simp add: saving_def)
    obtain c w1 where c: "arrives env 2 j w ACTIVATED [Activated (j_remote_credential_id j)] c w1"
      and run: "activate_and_register env j w = register_activated env c w1"
      using run_activates [OF calm h [unfolded holds_claim_def] s m r] ref r by auto
    have q: "request_of c = request_of j" using c by (simp add: arrives_def)
    have "\<exists>w'. register_activated env c w1 = (Inr (), w') \<and>
        rw_trace w' = rw_trace w1 @ [Registered (j_enrollment_id c)] \<and> committed_as c w'"
      by (rule register_arrives [OF calm]) (use c v free request_fields [OF q] same_fleet_reads in \<open>auto simp: arrives_def\<close>)
    then show ?thesis
      using c run request_fields [OF q] s m by (auto simp: arrives_def activation_effect_def committed_as_def)
  qed
  ultimately show ?thesis by simp
qed

end
