(* ===== verification/Recovery_Results.thy ===== *)
theory Recovery_Results
  imports Recovery_Completion Target_Properties
begin

text \<open>
  What the recovery of saved enrollments guarantees, with sample runs: the order of its effects under
  interference, its completion, and a credential it can lose.
\<close>

section \<open>Order of effects\<close>

lemma knows_initially:
  assumes "manager_ok (rw_db w)" and "journal_get (j_enrollment_id j) (rw_db w) = Some j" and "saving (j_state j)"
  shows "knows j (rw_trace w) w"
  using assms by (simp add: knows_stored)

text \<open>
  \<open>C6\<close>.  Recovery of a new agent, under any interference that respects the fence.  Its effects outside the
  database are a prefix of: activation at the agent (when it was requested and the credential is a managed one),
  revocation at the agent, deletion of the credential file; or activation followed by registration, and then
  the job is consumed, its claim is gone and the registry holds the agent with that credential.  So no agent is
  registered before it acknowledged the activation, none is registered and revoked by the same run, and the run
  deletes the file of a managed credential only after the agent acknowledged its revocation.
\<close>

theorem recovered_activation_order:
  assumes "manager_ok (rw_db w)" and "journal_get (j_enrollment_id j) (rw_db w) = Some j" and "saving (j_state j)"
    and "fenced env (j_enrollment_id j)" and "recover_new_agent env j w = (r, w')"
  shows "\<exists>t. rw_trace w' = rw_trace w @ t \<and>
    (prefix t (activation_effect j @ undo_effects j) \<or>
     t = activation_effect j @ [Registered (j_enrollment_id j)] \<and> committed_as j w')"
  using runs_recover_new_agent [OF assms(4), of "rw_trace w"] knows_initially [OF assms(1-3)] assms(5)
  by (fastforce simp: runs_def ends_def new_agent_ends_def)

text \<open>
  \<open>C7\<close>.  Recovery of a rotation, under any interference that respects the fence.  After the activation of the
  new credential (when it was requested) the run either gives the new credential up, revoking it before deleting
  its file, or switches the registry to it and only then revokes the old credential and, after that, deletes
  the old file.  It retires the old credential without switching only when the registry named the new one
  already: in the world \<open>v\<close> in which the retirement began, before any further effect, and for an \<open>activated\<close> job
  also when the run started.
\<close>

theorem recovered_rotation_order:
  assumes "manager_ok (rw_db w)" and "journal_get (j_enrollment_id j) (rw_db w) = Some j" and "saving (j_state j)"
    and "fenced env (j_enrollment_id j)" and "recover_rotation env j w = (r, w')"
  shows "\<exists>act t. rw_trace w' = rw_trace w @ act @ t \<and>
    (j_state j = ACTIVATED \<and> act = [] \<or>
     j_state j = ACTIVATION_REQUESTED \<and> (act = [Activated (j_remote_credential_id j)] \<or> act = [] \<and> t = [])) \<and>
    (prefix t (abandon_effects j) \<or> prefix t (Swapped (py_or (j_replace_agent_id j) []) # retire_effects j) \<or>
     prefix t (retire_effects j) \<and> (j_state j = ACTIVATED \<longrightarrow> switched j w) \<and>
     (\<exists>c v. core c = core j \<and> switched j v \<and> rw_trace v = rw_trace w @ act \<and> w' = snd (retire_old_credential env c v)))"
proof -
  have "runs (\<lambda>w'. knows j (rw_trace w) w' \<and> (switched j w' \<longrightarrow> switched j w)) (recover_rotation env j)
      (ends (rw_trace w) (recovered_rotation env (switched j w) j (rw_trace w)))"
    by (rule runs_recover_rotation [OF assms(4)])
  then obtain t where t: "rw_trace w' = rw_trace w @ t" "recovered_rotation env (switched j w) j (rw_trace w) t w'"
    using knows_initially [OF assms(1-3)] assms(5) by (fastforce simp: runs_def ends_def)
  show ?thesis
  proof (cases "j_state j = ACTIVATED")
    case True
    then show ?thesis using t by (intro exI [of _ "[]"] exI [of _ t]) (auto simp: recovered_rotation_def rotation_ends_def retired_from_def)
  next
    case False
    then have s: "j_state j = ACTIVATION_REQUESTED" using assms(3) by (simp add: saving_def)
    show ?thesis
    proof (cases t)
      case Nil
      then show ?thesis using t(1) s by (intro exI [of _ "[]"]) simp
    next
      case (Cons x u)
      then show ?thesis
        using t s by (intro exI [of _ "[x]"] exI [of _ u]) (auto simp: recovered_rotation_def rotation_ends_def retired_from_def)
    qed
  qed
qed

section \<open>A failed revalidation\<close>

lemma check_failed:
  assumes "check_job j" and "saving (j_state j)" and "j_cli_accept_receipt j = None"
  shows "check_job (set_failed code now j)"
proof -
  have c: "check_pinned j" "credential_state (j_state j) \<longrightarrow> j_credential_temp_ref j \<noteq> None"
    using assms(1) by (simp_all add: check_job_def)
  have "check_pinned (set_failed code now j)"
    using c assms(2) by (auto simp: check_pinned_def set_failed_def clear_claims_def terminal_def credential_state_def saving_def)
  moreover have "check_cli_claim (set_failed code now j)" "check_receipt (set_failed code now j)"
    using assms(3) by (simp_all add: check_cli_claim_def check_receipt_def set_failed_def clear_claims_def)
  ultimately show ?thesis
    using assms(1) unfolding check_job_def
    by (simp add: set_failed_def clear_claims_def credential_state_def activation_state_def)
qed

lemma fail_succeeds:
  assumes h: "holds_claim env j w" and s: "saving (j_state j)" and c: "error_code_re code"
  shows "\<exists>w'. fail_claim env j code w = (Inr (), w') \<and> manager_ok (rw_db w') \<and> rw_trace w' = rw_trace w \<and>
    rw_creds w' = rw_creds w \<and> journal_get (j_enrollment_id j) (rw_db w') =
      Some (set_failed code (v_clock env (rw_tick w)) j)"
proof -
  let ?d = "rw_db w" and ?now = "v_clock env (rw_tick w)" and ?e = "j_enrollment_id j"
  let ?P = "\<lambda>r. held ?e (v_owner env) (j_recovery_revision j) r \<and> lease_live ?now r"
  let ?Q = "\<lambda>x. j_recovery_owner x = Some (v_owner env) \<and> j_recovery_revision x = j_recovery_revision j \<and>
    sql_gt (j_recovery_lease_until x) ?now"
  have ok: "db_ok ?d" "manager_ok ?d" and g: "journal_get ?e ?d = Some j" and Q: "?Q j"
    using h by (auto simp: holds_claim_def holding_def manager_ok_def)
  have P: "?P r \<longleftrightarrow> row_id r = ?e \<and> ?Q (row_job r)" for r by (auto simp: held_def lease_live_def)
  have row: "row_job r = j" if "r \<in> set (db_jobs ?d)" "row_id r = ?e" for r
    using that ok(1) g journal_get_iff [of ?d ?e "row_job r"] by auto
  have "j_cli_accept_receipt j = None"
    using h s by (auto simp: holds_claim_def holding_def valid_job_def valid_receipt_def saving_def split: option.splits)
  then obtain d' where u: "update_jobs ?P (set_job (set_failed code ?now)) ?d = Some d'"
    using update_jobs_total [OF ok(1), of ?P "set_failed code ?now"] row check_failed [OF _ s] P
    by (auto simp: set_failed_def clear_claims_def)
  have n: "rowcount ?P (db_jobs ?d) = Suc 0" using keyed_rowcount(1) [OF ok(1) P] g Q by blast
  have r: "fail_recovery_claim ?e (v_owner env) (j_recovery_revision j) code ?now ?d = Inr (True, d')"
    using c u n by (simp add: fail_recovery_claim_def Let_def)
  have "manager_ok d'"
    by (rule journal_call_ok [OF ok(2), of "OFail ?e (v_owner env) (j_recovery_revision j) code ?now"])
      (simp add: reply_def r)
  moreover have "journal_get ?e d' = Some (set_failed code ?now j)"
    using keyed_update_get [OF ok(1) u P, of ?e] g Q by (simp add: set_failed_def clear_claims_def)
  ultimately show ?thesis
    by (intro exI [of _ "w\<lparr>rw_tick := Suc (rw_tick w), rw_db := d'\<rparr>"])
      (simp add: fail_claim_def then_do_def now_at_def step_def give_def except_registry_def transact_def r)
qed

lemma failed_then_cleaned:
  assumes ok: "manager_ok (rw_db w)" and g: "journal_get (j_enrollment_id k) (rw_db w) = Some k" and s: "j_state k = FAILED"
    and ref: "j_credential_temp_ref k = Some ref" "credential_ref_re ref" "ref \<in> set (rw_creds w)"
    and store: "\<forall>n. v_store_ok env n \<and> v_sync_ok env n"
  shows "\<exists>w' c. cleanup_terminal env k w = (Inr (), w') \<and> rw_trace w' = rw_trace w @ [CredentialDeleted ref] \<and>
    ref \<notin> set (rw_creds w') \<and> journal_get (j_enrollment_id k) (rw_db w') = Some c \<and> j_state c = FAILED \<and>
    j_credential_temp_ref c = None \<and> k \<in> set (list_terminal_cleanup (rw_db w))"
proof -
  let ?now = "v_clock env (rw_tick w + 2)"
  have "db_ok (rw_db w)" using ok by (simp add: manager_ok_def)
  from finish_terminal_cleanup_spec [OF this, of FAILED "j_enrollment_id k" ref ?now]
  obtain d where f: "finish_terminal_cleanup (j_enrollment_id k) FAILED ref ?now (rw_db w) = Inr (Some (set_cleaned ?now k), d)"
    "journal_get (j_enrollment_id k) d = Some (set_cleaned ?now k)"
    using g s ref(1) by auto
  let ?w = "w\<lparr>rw_tick := rw_tick w + 3, rw_creds := removeAll ref (rw_creds w),
    rw_trace := rw_trace w @ [CredentialDeleted ref], rw_db := d\<rparr>"
  have "cleanup_terminal env k w = (Inr (), ?w)"
    using store ref s f(1)
    by (simp add: cleanup_terminal_def store_lease_def store_delete_if_exists_def then_do_def step_def now_at_def give_def
        transact_def eval_nat_numeral)
  moreover have "k \<in> set (list_terminal_cleanup (rw_db w))"
    using g s ref(1) \<open>db_ok (rw_db w)\<close> by (auto simp: list_terminal_cleanup_def journal_get_iff)
  ultimately show ?thesis using f(2) s by (intro exI [of _ ?w] exI [of _ "set_cleaned ?now k"]) (simp add: set_cleaned_def)
qed

text \<open>
  \<open>C37\<close>.  A credential can be lost.  When the pinned target of an \<open>activated\<close> enrollment no longer
  passes the target policy (say, an allowlist was narrowed and the Manager restarted), the run fails the
  job instead of keeping it for a revocation: nothing is revoked at the agent, the terminal cleanup that
  follows finds the job, deletes the only copy of the credential and forgets its reference.
\<close>

theorem activated_credential_is_orphaned:
  assumes h: "holds_claim env j w" and s: "j_state j = ACTIVATED" and m: "managed_method (j_enrollment_method j)"
    and t: "prepare_pinned_job env j = Inl (code, dispatch)" and c: "error_code_re code" and client: "v_client env"
    and id: "\<not> falsy (j_remote_credential_id j)" and addr: "\<not> falsy (j_validated_http_address j)"
    and ref: "j_credential_temp_ref j = Some ref" "ref \<in> set (rw_creds w)" and store: "\<forall>n. v_store_ok env n \<and> v_sync_ok env n"
  shows "\<exists>w1 k w2 f. recover_new_agent env j w = (Inr (), w1) \<and> k \<in> set (list_terminal_cleanup (rw_db w1)) \<and>
    j_enrollment_id k = j_enrollment_id j \<and> j_state k = FAILED \<and> cleanup_terminal env k w1 = (Inr (), w2) \<and>
    rw_trace w2 = rw_trace w @ [CredentialDeleted ref] \<and> ref \<notin> set (rw_creds w2) \<and>
    journal_get (j_enrollment_id j) (rw_db w2) = Some f \<and> j_state f = FAILED \<and> j_credential_temp_ref f = None"
proof -
  have sv: "saving (j_state j)" using s by (simp add: saving_def)
  have v: "credential_ref_re ref" "\<not> falsy (j_requested_display_name j)"
    using h ref(1) valid_saved [OF _ sv] by (auto simp: holds_claim_def holding_def)
  let ?w = "w\<lparr>rw_failures := (rw_failures w)(j_enrollment_id j \<mapsto> (code, dispatch))\<rparr>"
  have "holds_claim env j ?w" using h by (simp add: holds_claim_def holding_def)
  from fail_succeeds [OF this sv c]
  obtain w1 where w1: "fail_claim env j code ?w = (Inr (), w1)" "manager_ok (rw_db w1)" "rw_trace w1 = rw_trace w"
    "rw_creds w1 = rw_creds w" and g: "journal_get (j_enrollment_id j) (rw_db w1) = Some (set_failed code (v_clock env (rw_tick w)) j)"
    by auto
  let ?k = "set_failed code (v_clock env (rw_tick w)) j"
  have k: "j_enrollment_id ?k = j_enrollment_id j" "j_state ?k = FAILED" "j_credential_temp_ref ?k = j_credential_temp_ref j"
    by (simp_all add: set_failed_def clear_claims_def)
  have "ref \<noteq> []" using v(1) by (auto simp: credential_ref_re_def)
  then have run: "recover_new_agent env j w = (Inr (), w1)"
    using w1(1) t m client id addr ref(1) v(2)
    by (auto simp: recover_new_agent_def managed_method_def falsy_def record_mutation_failure_def then_do_def)
  obtain w2 f where "cleanup_terminal env ?k w1 = (Inr (), w2)" "rw_trace w2 = rw_trace w1 @ [CredentialDeleted ref]"
    "ref \<notin> set (rw_creds w2)" "journal_get (j_enrollment_id ?k) (rw_db w2) = Some f" "j_state f = FAILED"
    "j_credential_temp_ref f = None" "?k \<in> set (list_terminal_cleanup (rw_db w1))"
    using failed_then_cleaned [OF w1(2), of ?k ref env] g k ref w1(4) v(1) store by auto
  then show ?thesis using run k w1(3) by (intro exI [of _ w1] exI [of _ ?k] exI [of _ w2] exI [of _ f]) simp
qed

section \<open>Sample runs\<close>

definition saved_job :: "string \<Rightarrow> enrollment_job" where
  "saved_job e = (activated_job e)\<lparr>j_state := ACTIVATION_REQUESTED\<rparr>"

definition world_of :: "manager_db \<Rightarrow> recovery_world" where
  "world_of d = \<lparr>rw_db = d, rw_creds = [ref1], rw_failures = Map.empty, rw_cache = Map.empty, rw_tasks = [], rw_trace = [], rw_tick = 0\<rparr>"

text \<open>
  A calm environment, whose first network call lasts two lease intervals, and one in which another process
  keeps claiming the enrollment and the agent refuses.
\<close>

definition calm_env :: recovery_env where
  "calm_env = \<lparr>v_owner = uuid2, v_lease_seconds = 60, v_client = True, v_policy = lan_policy, v_profiles = [lan_profile],
     v_sha256 = (\<lambda>_. hex1), v_clock = (\<lambda>n. 1000 + 14000000 * int n), v_net = (\<lambda>_. NetValue []), v_intervals = (\<lambda>_. 2),
     v_store_ok = (\<lambda>_. True), v_sync_ok = (\<lambda>_. True), v_others = (\<lambda>_. []), v_store_others = (\<lambda>_ xs. xs)\<rparr>"

definition busy_env :: recovery_env where
  "busy_env = calm_env\<lparr>v_net := (\<lambda>_. NetRefused ''agent_unauthorized'' ''dispatched''),
     v_others := (\<lambda>_. [JournalCall (OClaim ''e7'' uuid1 200000000 60)])\<rparr>"

lemma sample_facts:
  "manager_ok (with_jobs [saved_job ''e7''])" "manager_ok (with_jobs [activated_job ''e7''])"
  "valid_job (saved_job ''e7'')" "valid_job (activated_job ''e7'')" "storable (saved_job ''e7'')" "storable (activated_job ''e7'')"
  "valid_record (activated_record (saved_job ''e7'') 0 0)"
  by code_simp+

definition rotating_db :: manager_db where
  "rotating_db = registry_db\<lparr>db_jobs := [\<lparr>row_job = activated_rotation (Some ''inst-a''), row_tombstone = None\<rparr>]\<rparr>"

lemma rotation_facts:
  "manager_ok rotating_db" "journal_get ''r1'' rotating_db = Some (activated_rotation (Some ''inst-a''))"
  "j_enrollment_id (activated_rotation (Some ''inst-a'')) = ''r1''" "j_state (activated_rotation (Some ''inst-a'')) = ACTIVATED"
  by code_simp+

lemma saved_fields:
  "j_enrollment_id (saved_job e) = e" "j_state (saved_job e) = ACTIVATION_REQUESTED"
  "j_enrollment_id (activated_job e) = e" "j_state (activated_job e) = ACTIVATED"
  "journal_get e (with_jobs [saved_job e]) = Some (saved_job e)"
  "journal_get e (with_jobs [activated_job e]) = Some (activated_job e)"
  by (simp_all add: saved_job_def activated_job_def issued_job_def pending_job_def with_jobs_def empty_db_def journal_get_def)

lemma busy_fenced: "fenced busy_env e"
  by (simp add: fenced_def busy_env_def calm_env_def)

theorem recovered_activation_order_witness:
  "\<exists>t. rw_trace (snd (recover_new_agent busy_env (saved_job ''e7'') (world_of (with_jobs [saved_job ''e7''])))) = t \<and>
    (prefix t [Activated (Some ''cred-1''), Revoked (Some ''cred-1''), CredentialDeleted ref1] \<or>
     t = [Activated (Some ''cred-1''), Registered ''e7''])"
proof -
  let ?j = "saved_job ''e7''" and ?w = "world_of (with_jobs [saved_job ''e7''])"
  obtain r w' where run: "recover_new_agent busy_env ?j ?w = (r, w')" by fastforce
  have "activation_effect ?j = [Activated (Some ''cred-1'')]"
    "undo_effects ?j = [Revoked (Some ''cred-1''), CredentialDeleted ref1]"
    by (simp_all add: activation_effect_def undo_effects_def managed_method_def saved_job_def activated_job_def issued_job_def
        pending_job_def py_or_def)
  with recovered_activation_order [of ?w ?j busy_env r w'] run busy_fenced show ?thesis
    by (auto simp: world_of_def saved_fields sample_facts saving_def)
qed

theorem recovered_rotation_order_witness:
  "\<exists>t. rw_trace (snd (recover_rotation busy_env (activated_rotation (Some ''inst-a'')) (world_of rotating_db))) = t \<and>
    (prefix t (abandon_effects (activated_rotation (Some ''inst-a''))) \<or>
     prefix t (Swapped ''a'' # retire_effects (activated_rotation (Some ''inst-a''))))"
proof -
  let ?j = "activated_rotation (Some ''inst-a'')" and ?w = "world_of rotating_db"
  obtain r w' where run: "recover_rotation busy_env ?j ?w = (r, w')" by fastforce
  have "\<not> switched ?j ?w" "py_or (j_replace_agent_id ?j) [] = ''a''"
    by (simp_all add: switched_def world_of_def rotating_db_def registry_db_def agent_get_def sample_agent_def
        activated_rotation_def activated_job_def capture_agent_def py_or_def)
  with recovered_rotation_order [of ?w ?j busy_env r w'] run busy_fenced show ?thesis
    by (auto simp: world_of_def rotation_facts saving_def)
qed

lemma calm_env_calm: "calm calm_env"
proof -
  have "hex64_re hex1" by code_simp
  then show ?thesis by (simp add: calm_def calm_env_def seconds_def)
qed

lemma sample_claims:
  "holds_claim calm_env (saved_job ''e7'') (world_of (with_jobs [saved_job ''e7'']))"
  "holds_claim calm_env (activated_job ''e7'') (world_of (with_jobs [activated_job ''e7'']))"
  using sample_facts by (simp_all add: holds_claim_def holding_def world_of_def saved_fields)
    (simp_all add: saved_job_def activated_job_def calm_env_def)

lemma calm_target: "\<exists>t. prepare_pinned_job calm_env (saved_job ''e7'') = Inr t"
proof -
  have "isl (revalidate_pinned_target lan_policy ''http://10.0.0.7:8100'' lan_profile ''10.0.0.7'') = False" by code_simp
  then have "\<exists>t. revalidate_pinned_target lan_policy ''http://10.0.0.7:8100'' lan_profile ''10.0.0.7'' = Inr t"
    by (metis isl_def sum.exhaust)
  then show ?thesis
    by (auto simp: prepare_pinned_job_def prepare_pinned_def profile_of_def profile_id_def calm_env_def lan_profile_def
        saved_job_def activated_job_def issued_job_def pending_job_def falsy_def)
qed

theorem recovery_registers_agent_witness:
  "\<exists>w'. recover_new_agent calm_env (saved_job ''e7'') (world_of (with_jobs [saved_job ''e7''])) = (Inr (), w') \<and>
    rw_trace w' = [Activated (Some ''cred-1''), Registered ''e7'']"
proof -
  let ?j = "saved_job ''e7''" and ?d = "with_jobs [saved_job ''e7'']"
  obtain t where t: "prepare_pinned_job calm_env ?j = Inr t" using calm_target by blast
  have f: "managed_method (j_enrollment_method ?j)" "\<not> falsy (j_remote_credential_id ?j)"
    "the (j_credential_temp_ref ?j) \<in> set (rw_creds (world_of ?d))" "activation_effect ?j = [Activated (Some ''cred-1'')]"
    by (simp_all add: saved_job_def activated_job_def issued_job_def pending_job_def managed_method_def falsy_def world_of_def
        activation_effect_def)
  have "agent_get ''e7'' ?d = None" "find_duplicate x y ?d = []" for x y
    by (simp_all add: with_jobs_def empty_db_def agent_get_def find_duplicate_def split: option.splits)
  then have "\<exists>w'. recover_new_agent calm_env ?j (world_of ?d) = (Inr (), w') \<and> committed_as ?j w' \<and>
      rw_trace w' = rw_trace (world_of ?d) @ activation_effect ?j @ [Registered (j_enrollment_id ?j)]"
    by (intro recovery_registers_agent [OF calm_env_calm sample_claims(1) _ f(1) t f(2,3) sample_facts(7)])
      (simp_all add: saved_fields saving_def world_of_def)
  then show ?thesis by (auto simp: f(4) world_of_def saved_fields)
qed

theorem activated_credential_is_orphaned_witness:
  "\<exists>w1 k w2. recover_new_agent (calm_env\<lparr>v_profiles := []\<rparr>) (activated_job ''e7'')
      (world_of (with_jobs [activated_job ''e7''])) = (Inr (), w1) \<and>
    cleanup_terminal (calm_env\<lparr>v_profiles := []\<rparr>) k w1 = (Inr (), w2) \<and> rw_trace w2 = [CredentialDeleted ref1]"
proof -
  let ?j = "activated_job ''e7''" and ?w = "world_of (with_jobs [activated_job ''e7''])" and ?env = "calm_env\<lparr>v_profiles := []\<rparr>"
  have h: "holds_claim ?env ?j ?w" using sample_claims(2) by (simp add: holds_claim_def holding_def)
  have t: "prepare_pinned_job ?env ?j = Inl (''transport_profile_invalid'', ''not_dispatched'')"
    by (simp add: prepare_pinned_job_def prepare_pinned_def profile_of_def calm_env_def activated_job_def issued_job_def
        pending_job_def falsy_def)
  have c: "error_code_re ''transport_profile_invalid''" by code_simp
  have f: "managed_method (j_enrollment_method ?j)" "\<not> falsy (j_remote_credential_id ?j)" "\<not> falsy (j_validated_http_address ?j)"
    "j_credential_temp_ref ?j = Some ref1" "ref1 \<in> set (rw_creds ?w)" "v_client ?env" "\<forall>n. v_store_ok ?env n \<and> v_sync_ok ?env n"
    by (simp_all add: activated_job_def issued_job_def pending_job_def managed_method_def falsy_def world_of_def calm_env_def)
  show ?thesis
    using activated_credential_is_orphaned [OF h saved_fields(4) f(1) t c f(6,2,3,4,5,7)]
    by (auto simp: world_of_def)
qed

end
