(* ===== verification/Flow_Properties.thy ===== *)
theory Flow_Properties
  imports Agent_Updates Recovery_Results
begin

text \<open>
  Properties of the flows that issue credentials: what is stored before the journal names it, the audit
  trail of automatic enrollment, the resumption of a CLI submission, the update of an agent and the sweep of
  orphaned credential files.
\<close>

section \<open>Storing and publishing\<close>

definition stored_as :: "string list \<Rightarrow> effect list \<Rightarrow> recovery_error + string \<Rightarrow> recovery_world \<Rightarrow> bool" where
  "stored_as cs tr r w \<longleftrightarrow> (case r of
     Inr ref \<Rightarrow> ref \<notin> set cs \<and> rw_creds w = cs @ [ref] \<and> rw_trace w = tr @ [CredentialStored ref]
   | Inl e \<Rightarrow> e = StoreFailure \<and> (rw_creds w = cs \<and> rw_trace w = tr \<or>
       (\<exists>ref. ref \<notin> set cs \<and> rw_creds w = cs @ [ref] \<and> rw_trace w = tr @ [CredentialStored ref])))"

definition standing :: "manager_db \<Rightarrow> string list \<Rightarrow> effect list \<Rightarrow> recovery_world \<Rightarrow> bool" where
  "standing d cs tr w \<longleftrightarrow> rw_db w = d \<and> rw_creds w = cs \<and> rw_trace w = tr"

lemma put_attempts_stored:
  "rw_creds w = cs \<Longrightarrow> rw_trace w = tr \<Longrightarrow> stored_as cs tr (fst (put_attempts env n w)) (snd (put_attempts env n w)) \<and>
    rw_db (snd (put_attempts env n w)) = rw_db w"
  by (induction n arbitrary: w)
    (auto simp: raising_def stored_as_def then_do_def step_def Let_def split: sum.splits)

lemma store_put_stored:
  assumes "store_put env secret w = (r, w')"
  shows "stored_as (rw_creds w) (rw_trace w) r w' \<and> rw_db w' = rw_db w"
  using assms put_attempts_stored [of "w\<lparr>rw_tick := Suc (rw_tick w)\<rparr>" "rw_creds w" "rw_trace w" env 8]
  by (cases "secret = []"; cases "v_store_ok (i_run env) (rw_tick w)")
    (auto simp: store_put_def raising_def stored_as_def store_lease_def then_do_def step_def)

text \<open>A replacement that succeeds stores the job it was given, whatever the fence.\<close>

lemma replace_stores:
  assumes "db_ok d" and "replace_if_state j st u n t d = Inr (v, d')"
  shows "v = j \<and> journal_get (j_enrollment_id j) d' = Some j"
proof -
  let ?e = "j_enrollment_id j"
  let ?P = "\<lambda>r. row_id r = ?e \<and> j_state (row_job r) = st \<and> fence_matches u n t (row_job r)"
  let ?Q = "\<lambda>k. j_state k = st \<and> fence_matches u n t k"
  have u: "update_jobs ?P (set_job (\<lambda>x. j\<lparr>j_enrollment_id := j_enrollment_id x\<rparr>)) d = Some d'"
    and v: "v = j" and c: "rowcount ?P (db_jobs d) = Suc 0"
    using assms(2) by (auto simp: replace_if_state_def Let_def split: sum.splits option.splits if_splits)
  have P: "?P r \<longleftrightarrow> row_id r = ?e \<and> ?Q (row_job r)" for r by auto
  obtain k where k: "journal_get ?e d = Some k" "?Q k" using keyed_rowcount(1) [OF assms(1) P] c by auto
  moreover have "journal_get ?e d' = Some (j\<lparr>j_enrollment_id := j_enrollment_id k\<rparr>)"
    using keyed_update_get [OF assms(1) u P, of ?e] k by simp
  ultimately show ?thesis using v journal_get_id [OF k(1)] by auto
qed

lemma transact_cases:
  assumes "transact t w = (r, w')"
  shows "(\<exists>e. r = Inl (RegistryFailure e) \<and> t (rw_db w) = Inl e \<and> w' = w) \<or>
    (\<exists>v d. r = Inr v \<and> t (rw_db w) = Inr (v, d) \<and> w' = w\<lparr>rw_db := d\<rparr>)"
  using assms by (auto simp: transact_def split: sum.splits)

lemma journal_issued_spec:
  assumes "db_ok (rw_db w)" and "journal_issued env helper ref cli current w = (r, w')"
  shows "rw_creds w' = rw_creds w \<and> rw_trace w' = rw_trace w \<and> (case r of Inl e \<Rightarrow> rw_db w' = rw_db w
    | Inr j \<Rightarrow> journal_get (j_enrollment_id current) (rw_db w') = Some j \<and> j_state j = CREDENTIAL_ISSUED \<and>
        j_credential_temp_ref j = Some ref)"
proof -
  obtain now u n t w1 where w1: "rw_db w1 = rw_db w" "rw_creds w1 = rw_creds w" "rw_trace w1 = rw_trace w"
    and t: "transact (replace_if_state (issued_update helper ref cli now current) RUNNING u n t) w1 = (r, w')"
  proof (cases cli)
    case True
    then show ?thesis
      using assms(2) that [of "w\<lparr>rw_tick := Suc (Suc (rw_tick w))\<rparr>"]
      by (simp add: journal_issued_def clock_def now_at_def then_do_def step_def give_def Let_def)
  next
    case False
    then show ?thesis
      using assms(2) that [of "w\<lparr>rw_tick := Suc (rw_tick w)\<rparr>"]
      by (simp add: journal_issued_def clock_def now_at_def then_do_def step_def give_def Let_def replace_now_def)
  qed
  have i: "j_enrollment_id (issued_update helper ref cli now current) = j_enrollment_id current"
    "j_state (issued_update helper ref cli now current) = CREDENTIAL_ISSUED"
    "j_credential_temp_ref (issued_update helper ref cli now current) = Some ref"
    by (simp_all add: issued_update_def)
  show ?thesis
    using transact_cases [OF t] replace_stores [of "rw_db w1"] assms(1) w1 i by (auto split: sum.splits) metis+
qed

lemma drop_reference_spec:
  assumes "drop_reference env ref e w = (r, w')"
  shows "rw_db w' = rw_db w \<and> (rw_creds w' = removeAll ref (rw_creds w) \<and> r = Inl e \<or> r = Inl StoreFailure)"
  using assms by (auto simp: drop_reference_def then_do_def store_delete_if_exists_def step_def raising_def
      split: if_splits)

text \<open>
  \<open>C9\<close>.  A credential is durable before the journal names it.  When the publication of a helper's result
  succeeds, the stored job is \<open>credential_issued\<close> with a reference that was free before and that names a
  file of the store.  When it fails, the journal is as before, and so is the store, unless the store
  itself failed.
\<close>

theorem published_credential_is_stored:
  assumes "db_ok (rw_db w)" and "publish_issued env job helper method w = (r, w')"
  shows "case r of
      Inr j \<Rightarrow> \<exists>ref. j_credential_temp_ref j = Some ref \<and> ref \<notin> set (rw_creds w) \<and> rw_creds w' = rw_creds w @ [ref] \<and>
        journal_get (j_enrollment_id job) (rw_db w') = Some j \<and> j_state j = CREDENTIAL_ISSUED \<and>
        rw_trace w' = rw_trace w @ [CredentialStored ref]
    | Inl e \<Rightarrow> rw_db w' = rw_db w \<and> (rw_creds w' = rw_creds w \<or> e = StoreFailure)"
proof -
  obtain w1 where w1: "rw_db w1 = rw_db w" "rw_creds w1 = rw_creds w" "rw_trace w1 = rw_trace w"
    and l: "store_lease (i_run env) w = (if v_store_ok (i_run env) (rw_tick w) then Inr () else Inl StoreFailure, w1)"
    using that [of "w\<lparr>rw_tick := Suc (rw_tick w)\<rparr>"] by (simp add: store_lease_def then_do_def step_def)
  let ?found = "journal_get (j_enrollment_id job) (rw_db w)"
  consider "r = Inl StoreFailure" "w' = w1" | "r = Inl StateLost" "w' = w1"
    | current where "?found = Some current" and "then_do (store_put env (h_token helper)) (\<lambda>reference. catching
        (journal_issued env helper reference (method = SSH_CLI) current) (drop_reference env reference)) w1 = (r, w')"
    using assms(2) l w1 by (auto simp: publish_issued_def then_do_def reading_def raising_def split: if_splits option.splits)
  then show ?thesis
  proof cases
    case 3
    obtain s w2 where put: "store_put env (h_token helper) w1 = (s, w2)" by (cases "store_put env (h_token helper) w1")
    note stored = store_put_stored [OF put]
    show ?thesis
    proof (cases s)
      case (Inl e)
      then show ?thesis using 3 put stored w1 by (auto simp: then_do_def stored_as_def)
    next
      case (Inr ref)
      obtain q w3 where issued: "journal_issued env helper ref (method = SSH_CLI) current w2 = (q, w3)"
        by (cases "journal_issued env helper ref (method = SSH_CLI) current w2")
      have "db_ok (rw_db w2)" using assms(1) stored w1 by simp
      note spec = journal_issued_spec [OF this issued]
      have ref: "ref \<notin> set (rw_creds w)" "rw_creds w2 = rw_creds w @ [ref]" "rw_trace w2 = rw_trace w @ [CredentialStored ref]"
        "rw_db w2 = rw_db w" using stored Inr w1 by (auto simp: stored_as_def)
      have id: "j_enrollment_id current = j_enrollment_id job" by (rule journal_get_id [OF 3(1)])
      show ?thesis
      proof (cases q)
        case (Inl e)
        then have "drop_reference env ref e w3 = (r, w')" using 3 put \<open>s = Inr ref\<close> issued
          by (simp add: then_do_def catching_def)
        then show ?thesis using drop_reference_spec spec ref Inl by fastforce
      next
        case (Inr j)
        then show ?thesis using 3 put \<open>s = Inr ref\<close> issued spec ref id by (auto simp: then_do_def catching_def)
      qed
    qed
  qed (use w1 in auto)
qed

section \<open>The audit trail of automatic enrollment\<close>

text \<open>
  The effects of one run: nothing, or an intent, then the helper at most once with the credential it
  gave stored and possibly dropped again, then at most one outcome.
\<close>

definition store_trail :: "effect list \<Rightarrow> bool" where
  "store_trail s \<longleftrightarrow> s = [] \<or> (\<exists>r. s = [CredentialStored r] \<or> s = [CredentialStored r, CredentialDeleted r])"

definition issue_trail :: "string \<Rightarrow> effect list \<Rightarrow> bool" where
  "issue_trail e mid \<longleftrightarrow> mid = [] \<or> (\<exists>s. mid = HelperCalled e # s \<and> store_trail s)"

definition audited :: "issuing_env \<Rightarrow> bool" where
  "audited env \<longleftrightarrow> i_audit env \<and> (\<forall>k. i_audit_ok env k \<and> \<not> i_closing env k)"

definition outcome_trail :: "issuing_env \<Rightarrow> nat \<Rightarrow> string \<Rightarrow> effect list \<Rightarrow> bool" where
  "outcome_trail env i result out \<longleftrightarrow> (out = [] \<and> \<not> audited env \<or> (\<exists>d c. out = [AuditOutcome i result d c]))"

abbreviation traced :: "effect list \<Rightarrow> recovery_world \<Rightarrow> bool" where
  "traced tr w \<equiv> rw_trace w = tr"

lemma runs_catching:
  assumes "runs P m (\<lambda>r w. case r of Inl e \<Rightarrow> R e w | Inr v \<Rightarrow> Q (Inr v) w)" and "\<And>e. runs (R e) (h e) Q"
  shows "runs P (catching m h) Q"
  using assms unfolding runs_def catching_def by (fastforce split: prod.splits sum.splits)

lemma runs_raising: "(\<And>w. P w \<Longrightarrow> Q (Inl e) w) \<Longrightarrow> runs P (raising e) Q"
  by (simp add: runs_def raising_def)

lemma quiet_catching: "quiet m \<Longrightarrow> (\<And>e. quiet (h e)) \<Longrightarrow> quiet (catching m h)"
  unfolding quiet_def catching_def by (auto split: prod.splits sum.splits) (metis snd_conv)+

lemma quiet_flow_basic: "quiet (raising x)" "quiet (clock env)" "quiet (closing env)" "quiet (reading f)"
  "quiet (meanwhile env)" "quiet (replace_now j st)" "quiet (keep_validation e v)" "quiet (drop_validation e)"
  by (auto simp: quiet_def raising_def clock_def closing_def reading_def meanwhile_def replace_now_def keep_validation_def
      drop_validation_def now_at_def then_do_def step_def give_def transact_def split: sum.splits)

lemma quiet_network: "quiet (network_call env)"
  unfolding network_call_def
  by (auto intro!: quiet_then quiet_basic quiet_flow_basic split: net_outcome.splits)

lemma quiet_validate_published: "quiet (validate_published env j)"
  unfolding validate_published_def
  by (intro quiet_then quiet_catching quiet_basic quiet_flow_basic quiet_network; auto intro!: quiet_flow_basic
      quiet_then quiet_catching quiet_basic quiet_network)

lemma runs_put:
  "runs (traced tr) (store_put env secret) (\<lambda>r w. case r of Inr ref \<Rightarrow> traced (tr @ [CredentialStored ref]) w
     | Inl e \<Rightarrow> \<exists>s. store_trail s \<and> traced (tr @ s) w)"
  unfolding runs_def
proof (intro allI impI)
  fix w :: recovery_world
  assume w: "rw_trace w = tr"
  obtain r w' where p: "store_put env secret w = (r, w')" by (cases "store_put env secret w")
  then show "case fst (store_put env secret w) of Inr ref \<Rightarrow> traced (tr @ [CredentialStored ref]) (snd (store_put env secret w))
     | Inl e \<Rightarrow> \<exists>s. store_trail s \<and> traced (tr @ s) (snd (store_put env secret w))"
    using store_put_stored [OF p] w by (auto simp: stored_as_def store_trail_def split: sum.splits)
qed

lemma runs_drop_reference:
  "runs (traced (tr @ [CredentialStored ref])) (drop_reference env ref e)
     (\<lambda>r w. \<exists>x s. r = Inl x \<and> store_trail s \<and> traced (tr @ s) w)"
  unfolding runs_def drop_reference_def
  by (auto simp: then_do_def store_delete_if_exists_def step_def raising_def store_trail_def)

lemma quiet_journal_issued: "quiet (journal_issued env helper ref cli current)"
  unfolding journal_issued_def Let_def
  by (auto intro!: quiet_then quiet_basic quiet_flow_basic)

lemma runs_publish_issued:
  "runs (traced tr) (publish_issued env job helper method) (\<lambda>r w. case r of
     Inr _ \<Rightarrow> (\<exists>ref. traced (tr @ [CredentialStored ref]) w) | Inl _ \<Rightarrow> \<exists>s. store_trail s \<and> traced (tr @ s) w)"
  unfolding publish_issued_def
proof (rule runs_then [where R = "\<lambda>_. traced tr"], rule runs_weaken [OF runs_quiet])
  let ?Q = "\<lambda>r w. case r of Inr _ \<Rightarrow> (\<exists>ref. traced (tr @ [CredentialStored ref]) w)
    | Inl _ \<Rightarrow> \<exists>s. store_trail s \<and> traced (tr @ s) w"
  show "quiet (store_lease (i_run env))" by (rule quiet_basic)
  have put: "runs (traced tr) (then_do (store_put env (h_token helper)) (\<lambda>ref. catching (journal_issued env helper ref
      (method = SSH_CLI) current) (drop_reference env ref))) ?Q" for current
  proof (rule runs_then [where R = "\<lambda>ref. traced (tr @ [CredentialStored ref])"], rule runs_weaken [OF runs_put])
    fix ref
    show "runs (traced (tr @ [CredentialStored ref])) (catching (journal_issued env helper ref (method = SSH_CLI) current)
        (drop_reference env ref)) ?Q"
    proof (rule runs_catching [where R = "\<lambda>_. traced (tr @ [CredentialStored ref])"],
        rule runs_weaken [OF runs_quiet [OF quiet_journal_issued]])
      show "runs (traced (tr @ [CredentialStored ref])) (drop_reference env ref e) ?Q" for e
        by (rule runs_weaken [OF runs_drop_reference]) auto
    qed (auto split: sum.splits)
  qed (auto split: sum.splits)
  show "runs (traced tr) (then_do (reading (journal_get (j_enrollment_id job))) (\<lambda>found. case found of None \<Rightarrow> raising StateLost
      | Some current \<Rightarrow> if \<not> publishable method job current then raising StateLost
        else then_do (store_put env (h_token helper)) (\<lambda>reference.
          catching (journal_issued env helper reference (method = SSH_CLI) current) (drop_reference env reference)))) ?Q"
    for u :: unit
  proof (rule runs_then [where R = "\<lambda>_. traced tr"], rule runs_weaken [OF runs_quiet [OF quiet_flow_basic(4)]])
    fix found
    have "runs (traced tr) (raising StateLost :: enrollment_job recovery) ?Q" by (rule runs_raising) (auto simp: store_trail_def)
    with put show "runs (traced tr) (case found of None \<Rightarrow> raising StateLost
      | Some current \<Rightarrow> if \<not> publishable method job current then raising StateLost
        else then_do (store_put env (h_token helper)) (\<lambda>reference.
          catching (journal_issued env helper reference (method = SSH_CLI) current) (drop_reference env reference))) ?Q"
      by (cases found) simp_all
  qed (auto simp: store_trail_def split: sum.splits)
qed (auto simp: store_trail_def split: sum.splits)

lemma runs_publish_managed:
  "runs (traced tr) (publish_managed_helper env job helper method) (\<lambda>r w. case r of
     Inr _ \<Rightarrow> (\<exists>ref. traced (tr @ [CredentialStored ref]) w) | Inl _ \<Rightarrow> \<exists>s. store_trail s \<and> traced (tr @ s) w)"
  unfolding publish_managed_helper_def
proof (rule runs_then [where R = "\<lambda>_ w. \<exists>ref. traced (tr @ [CredentialStored ref]) w"], rule runs_weaken [OF runs_publish_issued])
  show "runs (\<lambda>w. \<exists>ref. traced (tr @ [CredentialStored ref]) w) (validate_published env j) (\<lambda>r w. case r of
     Inr _ \<Rightarrow> (\<exists>ref. traced (tr @ [CredentialStored ref]) w) | Inl _ \<Rightarrow> \<exists>s. store_trail s \<and> traced (tr @ s) w)" for j
    using quiet_validate_published [of env j] by (auto simp: runs_def quiet_def store_trail_def split: sum.splits)
qed (auto split: sum.splits)

lemma runs_call_helper:
  "runs (traced tr) (call_helper env e) (\<lambda>_ w. traced (tr @ [HelperCalled e]) w)"
proof -
  have "quiet (then_do step (\<lambda>k. then_do (others_act (i_run env)) (\<lambda>_. if i_cancelled env k then raising TaskCancelled
       else case i_helper env k of Inl err \<Rightarrow> raising err | Inr helper \<Rightarrow> give helper)))"
    by (auto intro!: quiet_then quiet_basic quiet_flow_basic split: sum.splits)
  then show ?thesis by (simp add: call_helper_def runs_def quiet_def then_do_def [of "log_effect _"] log_effect_def)
qed

lemma runs_issue:
  "runs (traced tr) (issue_and_validate_auto env job) (\<lambda>r w. case r of
     Inr _ \<Rightarrow> (\<exists>ref. traced (tr @ [HelperCalled (j_enrollment_id job), CredentialStored ref]) w)
   | Inl _ \<Rightarrow> \<exists>mid. issue_trail (j_enrollment_id job) mid \<and> traced (tr @ mid) w)" (is "runs _ _ ?Q")
proof -
  let ?e = "j_enrollment_id job"
  have rest: "runs (traced (tr @ [HelperCalled ?e])) (then_do (closing env) (\<lambda>c. if c then raising StateLost
      else publish_managed_helper env job helper (j_enrollment_method job))) ?Q" for helper
  proof (rule runs_then [where R = "\<lambda>_. traced (tr @ [HelperCalled ?e])"], rule runs_weaken [OF runs_quiet [OF quiet_flow_basic(3)]])
    fix c
    have "runs (traced (tr @ [HelperCalled ?e])) (raising StateLost) ?Q"
      by (rule runs_raising) (auto simp: issue_trail_def store_trail_def)
    moreover have "runs (traced (tr @ [HelperCalled ?e])) (publish_managed_helper env job helper (j_enrollment_method job)) ?Q"
      by (rule runs_weaken [OF runs_publish_managed]) (auto simp: issue_trail_def split: sum.splits)
    ultimately show "runs (traced (tr @ [HelperCalled ?e])) (if c then raising StateLost
        else publish_managed_helper env job helper (j_enrollment_method job)) ?Q" by simp
  qed (auto simp: issue_trail_def store_trail_def split: sum.splits)
  have stop: "runs (traced tr) (raising x) ?Q" for x by (rule runs_raising) (simp add: issue_trail_def)
  have "runs (traced tr) (then_do (call_helper env ?e) (\<lambda>helper. then_do (closing env) (\<lambda>c. if c then raising StateLost
      else publish_managed_helper env job helper (j_enrollment_method job)))) ?Q"
    by (rule runs_then [OF runs_weaken [OF runs_call_helper] rest]) (auto simp: issue_trail_def store_trail_def split: sum.splits)
  with stop show ?thesis by (simp add: issue_and_validate_auto_def)
qed

lemma runs_outcome:
  "runs (traced tr) (record_auto_outcome env (Some i) result d c)
     (\<lambda>r w. r = Inr () \<and> (\<exists>out. outcome_trail env i result out \<and> traced (tr @ out) w))"
  by (auto simp: runs_def record_auto_outcome_def give_def then_do_def step_def outcome_trail_def audited_def)

lemma runs_converge: "runs (traced tr) (converge_auto env e code st) (\<lambda>r w. r = Inr () \<and> traced tr w)"
  by (auto simp: runs_def converge_auto_def reading_def then_do_def give_def clock_def now_at_def step_def except_registry_def
      replace_now_def transact_def split: option.splits sum.splits)

lemma runs_converged_outcome:
  "runs (traced tr) (then_do (converge_auto env e code st) (\<lambda>_. record_auto_outcome env (Some i) result d c))
     (\<lambda>r w. r = Inr () \<and> (\<exists>out. outcome_trail env i result out \<and> traced (tr @ out) w))"
  by (rule runs_then [OF runs_weaken [OF runs_converge] runs_outcome]) auto

lemma runs_auto_failure:
  "runs (traced tr) (auto_failure env e i x)
     (\<lambda>r w. \<exists>out. outcome_trail env i ''failure'' out \<and> traced (tr @ out) w)" (is "runs _ _ ?Q")
proof -
  have out: "runs (traced tr) (record_auto_outcome env (Some i) ''failure'' d c) ?Q" for d c
    by (rule runs_weaken [OF runs_outcome]) auto
  have conv: "runs (traced tr) (then_do (converge_auto env e code st) (\<lambda>_. record_auto_outcome env (Some i) ''failure'' d c)) ?Q"
    for code st d c by (rule runs_weaken [OF runs_converged_outcome]) auto
  have guarded: "runs (traced tr) (then_do (closing env) (\<lambda>c. if c then a else b)) ?Q"
    if "\<not> audited env \<Longrightarrow> runs (traced tr) a ?Q" and "runs (traced tr) b ?Q" for a b :: "unit recovery"
  proof (rule runs_then [where R = "\<lambda>c w. (c \<longrightarrow> \<not> audited env) \<and> traced tr w"])
    show "runs (traced tr) (closing env) (\<lambda>r w. case r of Inl e \<Rightarrow> ?Q (Inl e) w | Inr c \<Rightarrow> (c \<longrightarrow> \<not> audited env) \<and> traced tr w)"
      by (auto simp: runs_def closing_def then_do_def step_def give_def audited_def)
    show "runs (\<lambda>w. (c \<longrightarrow> \<not> audited env) \<and> traced tr w) (if c then a else b) ?Q" for c
      using that by (cases c) (auto simp: runs_def)
  qed
  have silent: "runs (traced tr) a ?Q" if "\<not> audited env" "quiet a" for a :: "unit recovery"
    using that by (auto simp: runs_def quiet_def outcome_trail_def)
  have again: "runs (traced tr) (then_do (record_auto_outcome env (Some i) ''failure'' d c) (\<lambda>_. raising TaskCancelled)) ?Q"
    for d c
    by (rule runs_then [where R = "\<lambda>_ w. \<exists>out. outcome_trail env i ''failure'' out \<and> traced (tr @ out) w"],
        rule runs_weaken [OF runs_outcome]) (auto intro!: runs_raising split: sum.splits)
  show ?thesis
    by (cases x) (auto simp: auto_failure_def Let_def intro!: out conv guarded again dest: silent
        intro: silent quiet_basic quiet_flow_basic)
qed

text \<open>The effects one run of the background task may have.\<close>

definition auto_trail :: "issuing_env \<Rightarrow> string \<Rightarrow> effect list \<Rightarrow> bool" where
  "auto_trail env e t \<longleftrightarrow> t = [] \<and> \<not> audited env \<or>
     (\<exists>mid i result out. t = AuditIntent e # mid @ out \<and> issue_trail e mid \<and> outcome_trail env i result out \<and>
        (result = ''success'' \<longrightarrow> (\<exists>ref. mid = [HelperCalled e, CredentialStored ref])))"

lemma recheck_auto_id:
  "runs (traced tr) (transact (recheck_auto_dispatch e now))
     (\<lambda>r w. traced tr w \<and> (\<forall>j. r = Inr (Some j) \<longrightarrow> j_enrollment_id j = e))"
  by (auto simp: runs_def transact_def recheck_auto_dispatch_def find_Some_iff split: sum.splits option.splits)

text \<open>What an attempt leaves: its own outcome, or the trail of the issue the failure handler closes.\<close>

definition attempted :: "issuing_env \<Rightarrow> string \<Rightarrow> nat \<Rightarrow> effect list \<Rightarrow> recovery_error + unit \<Rightarrow> recovery_world \<Rightarrow> bool" where
  "attempted env e i tr r w \<longleftrightarrow> (case r of Inl _ \<Rightarrow> \<exists>mid. issue_trail e mid \<and> traced (tr @ mid) w
     | Inr _ \<Rightarrow> \<exists>mid result out. traced (tr @ mid @ out) w \<and> issue_trail e mid \<and> outcome_trail env i result out \<and>
          (result = ''success'' \<longrightarrow> (\<exists>ref. mid = [HelperCalled e, CredentialStored ref])))"

lemma attemptedI:
  "issue_trail e mid \<Longrightarrow> outcome_trail env i result out \<Longrightarrow>
    (result = ''success'' \<Longrightarrow> \<exists>ref. mid = [HelperCalled e, CredentialStored ref]) \<Longrightarrow> traced (tr @ mid @ out) w \<Longrightarrow>
    attempted env e i tr (Inr u) w"
  unfolding attempted_def sum.case by blast

lemma auto_trailI:
  "issue_trail e mid \<Longrightarrow> outcome_trail env i result out \<Longrightarrow>
    (result = ''success'' \<Longrightarrow> \<exists>ref. mid = [HelperCalled e, CredentialStored ref]) \<Longrightarrow>
    auto_trail env e (AuditIntent e # mid @ out)"
  unfolding auto_trail_def by blast

lemma runs_issue_outcome:
  "runs (traced tr) (then_do (issue_and_validate_auto env j)
       (\<lambda>_. record_auto_outcome env (Some i) ''success'' ''dispatched'' None)) (attempted env (j_enrollment_id j) i tr)"
proof (rule runs_then [where R = "\<lambda>_ w. \<exists>ref. traced (tr @ [HelperCalled (j_enrollment_id j), CredentialStored ref]) w"],
    rule runs_weaken [OF runs_issue])
  show "runs (\<lambda>w. \<exists>ref. traced (tr @ [HelperCalled (j_enrollment_id j), CredentialStored ref]) w)
      (record_auto_outcome env (Some i) ''success'' ''dispatched'' None) (attempted env (j_enrollment_id j) i tr)"
    unfolding runs_def
  proof (intro allI impI, elim exE)
    fix w ref
    let ?m = "record_auto_outcome env (Some i) ''success'' ''dispatched'' None" and ?mid = "[HelperCalled (j_enrollment_id j), CredentialStored ref]"
    assume "traced (tr @ ?mid) w"
    then obtain out where out: "outcome_trail env i ''success'' out" "traced (tr @ ?mid @ out) (snd (?m w))"
      using runs_outcome [of "tr @ ?mid" env i "''success''" "''dispatched''" None] by (auto simp: runs_def)
    have "issue_trail (j_enrollment_id j) ?mid" by (simp add: issue_trail_def store_trail_def)
    with out show "attempted env (j_enrollment_id j) i tr (fst (?m w)) (snd (?m w))"
      using runs_outcome [of "rw_trace w" env i "''success''" "''dispatched''" None]
      by (auto simp: attempted_def runs_def intro!: exI [of _ ?mid])
  qed
qed (auto simp: attempted_def split: sum.splits)

lemma runs_attempt: "runs (traced tr) (auto_attempt env e i) (attempted env e i tr)"
  unfolding auto_attempt_def
proof (rule runs_then [where R = "\<lambda>_. traced tr"], rule runs_weaken [OF runs_quiet [OF quiet_flow_basic(2)]])
  fix now
  show "runs (traced tr) (then_do (transact (recheck_auto_dispatch e now)) (\<lambda>dispatch. case dispatch of
        None \<Rightarrow> record_auto_outcome env (Some i) ''failure'' ''not_dispatched'' (Some ''agent_enrollment_cancelled'')
      | Some j \<Rightarrow> then_do (issue_and_validate_auto env j)
          (\<lambda>_. record_auto_outcome env (Some i) ''success'' ''dispatched'' None))) (attempted env e i tr)"
  proof (rule runs_then [where R = "\<lambda>d w. traced tr w \<and> (\<forall>j. d = Some j \<longrightarrow> j_enrollment_id j = e)"],
      rule runs_weaken [OF recheck_auto_id])
    fix d
    have "runs (traced tr) (record_auto_outcome env (Some i) ''failure'' a b) (attempted env e i tr)" for a b
      by (rule runs_weaken [OF runs_outcome [of tr]]) (auto simp: issue_trail_def intro!: attemptedI [where mid = "[]"])
    then show "runs (\<lambda>w. traced tr w \<and> (\<forall>j. d = Some j \<longrightarrow> j_enrollment_id j = e)) (case d of
        None \<Rightarrow> record_auto_outcome env (Some i) ''failure'' ''not_dispatched'' (Some ''agent_enrollment_cancelled'')
      | Some j \<Rightarrow> then_do (issue_and_validate_auto env j)
          (\<lambda>_. record_auto_outcome env (Some i) ''success'' ''dispatched'' None)) (attempted env e i tr)"
      using runs_issue_outcome [of tr env "the d" i] by (cases d) (auto simp: runs_def)
  qed (auto simp: attempted_def issue_trail_def split: sum.splits)
qed (auto simp: attempted_def issue_trail_def split: sum.splits)

lemma runs_closed_attempt:
  "runs (traced (tr @ [AuditIntent e])) (catching (auto_attempt env e i) (auto_failure env e i))
     (\<lambda>_ v. \<exists>t. rw_trace v = tr @ t \<and> auto_trail env e t)" (is "runs _ _ ?Q")
proof (rule runs_catching [where R = "\<lambda>_ v. \<exists>mid. issue_trail e mid \<and> traced ((tr @ [AuditIntent e]) @ mid) v"],
    rule runs_weaken [OF runs_attempt])
  show "runs (\<lambda>v. \<exists>mid. issue_trail e mid \<and> traced ((tr @ [AuditIntent e]) @ mid) v) (auto_failure env e i x) ?Q" for x
    unfolding runs_def
  proof (intro allI impI, elim exE conjE)
    fix v mid
    assume mid: "issue_trail e mid" "traced ((tr @ [AuditIntent e]) @ mid) v"
    then obtain out where "outcome_trail env i ''failure'' out" "rw_trace (snd (auto_failure env e i x v)) = tr @ AuditIntent e # mid @ out"
      using runs_auto_failure [of "(tr @ [AuditIntent e]) @ mid" env e i x] by (auto simp: runs_def)
    then show "\<exists>t. rw_trace (snd (auto_failure env e i x v)) = tr @ t \<and> auto_trail env e t"
      using auto_trailI [OF mid(1), of env i "''failure''" out] by auto
  qed
  show "case r of Inl x \<Rightarrow> \<exists>mid. issue_trail e mid \<and> traced ((tr @ [AuditIntent e]) @ mid) v | Inr u \<Rightarrow> ?Q (Inr u) v"
    if "attempted env e i (tr @ [AuditIntent e]) r v" for r v
    using that auto_trailI [of e _ env i] by (cases r) (fastforce simp: attempted_def)+
qed

text \<open>
  \<open>C10\<close>.  Automatic enrollment is audited around its one remote effect: the helper runs only after an
  intent was recorded, at most once, before a credential is stored, and at most one outcome follows; a
  success outcome is recorded only when the credential was stored and kept.  While the audit log works and the
  process is not shutting down, every run leaves exactly one intent and one outcome.
\<close>

theorem auto_enrollment_is_audited:
  "\<exists>t. rw_trace (snd (run_auto env job w)) = rw_trace w @ t \<and> auto_trail env (j_enrollment_id job) t"
proof -
  let ?e = "j_enrollment_id job" and ?tr = "rw_trace w"
  let ?Q = "\<lambda>_ v. \<exists>t. rw_trace v = ?tr @ t \<and> auto_trail env ?e t"
  have silent: "runs (\<lambda>v. traced ?tr v \<and> \<not> audited env) (converge_auto env ?e c st) ?Q" for c st
    using runs_converge [of ?tr env ?e c st] by (auto simp: runs_def auto_trail_def)
  have "runs (traced ?tr) (run_auto env job) ?Q"
  proof (cases "i_audit env")
    case True
    let ?intent = "catching (then_do (record_intent env ?e) (\<lambda>i. give (Some i))) (\<lambda>_. give None)"
    let ?R = "\<lambda>event v. case event of None \<Rightarrow> traced ?tr v \<and> \<not> audited env | Some i \<Rightarrow> traced (?tr @ [AuditIntent ?e]) v"
    have "runs (traced ?tr) (then_do ?intent (\<lambda>event. case event of None \<Rightarrow> converge_auto env ?e ''audit_unavailable'' FAILED
        | Some i \<Rightarrow> catching (auto_attempt env ?e i) (auto_failure env ?e i))) ?Q"
    proof (rule runs_then [where R = ?R])
      show "runs (traced ?tr) ?intent (\<lambda>r v. case r of Inl x \<Rightarrow> ?Q (Inl x) v | Inr event \<Rightarrow> ?R event v)"
        by (auto simp: runs_def catching_def record_intent_def then_do_def step_def give_def audited_def)
      show "runs (?R event) (case event of None \<Rightarrow> converge_auto env ?e ''audit_unavailable'' FAILED
        | Some i \<Rightarrow> catching (auto_attempt env ?e i) (auto_failure env ?e i)) ?Q" for event
        using silent runs_closed_attempt by (cases event) simp_all
    qed
    then show ?thesis using True by (simp add: run_auto_def Let_def)
  next
    case False
    then show ?thesis
      using runs_weaken [OF silent, of "traced ?tr" ?Q] by (simp add: run_auto_def Let_def audited_def)
  qed
  then show ?thesis by (simp add: runs_def)
qed

end
