(* ===== verification/Flow_Safety.thy ===== *)
theory Flow_Safety
  imports Flow_Properties
begin

text \<open>
  Properties of the calls around the enrollment flows: the sweep of orphaned credential files at start-up, the
  update of a registered agent, and the resumption of a CLI submission.
\<close>

section \<open>Orphaned credentials\<close>

definition orphan :: "string set \<Rightarrow> string \<Rightarrow> bool" where
  "orphan retained x \<longleftrightarrow> credential_ref_re x \<and> x \<notin> retained"

lemma sweep_one_spec:
  assumes "sweep_one env retained x w = (r, w')"
  shows "rw_db w' = rw_db w \<and> (r = Inr () \<longrightarrow> orphan retained x \<longrightarrow> x \<notin> set (rw_creds w')) \<and>
    (rw_creds w' = rw_creds w \<or> orphan retained x \<and> rw_creds w' = removeAll x (rw_creds w))"
  using assms
  by (auto simp: sweep_one_def store_delete_def store_delete_if_exists_def then_do_def step_def give_def raising_def
      orphan_def split: if_splits)

lemma sweep_spec:
  assumes "for_each (sweep_one env retained) xs w = (r, w')"
  shows "rw_db w' = rw_db w \<and> (\<exists>gone. gone \<subseteq> {x \<in> set xs. orphan retained x} \<and>
    rw_creds w' = filter (\<lambda>x. x \<notin> gone) (rw_creds w) \<and>
    (r = Inr () \<longrightarrow> (\<forall>x\<in>set xs. orphan retained x \<longrightarrow> x \<notin> set (rw_creds w'))))"
  using assms
proof (induction xs arbitrary: w)
  case Nil
  then show ?case by (auto simp: give_def intro!: exI [of _ "{}"])
next
  case (Cons x xs)
  obtain s w1 where s: "sweep_one env retained x w = (s, w1)" by (cases "sweep_one env retained x w")
  note one = sweep_one_spec [OF s]
  obtain g where g: "g \<subseteq> (if orphan retained x then {x} else {})" "rw_creds w1 = filter (\<lambda>y. y \<notin> g) (rw_creds w)"
    "rw_db w1 = rw_db w" "s = Inr () \<longrightarrow> orphan retained x \<longrightarrow> x \<notin> set (rw_creds w1)"
  proof (cases "rw_creds w1 = rw_creds w")
    case True
    then show ?thesis using one by (intro that [of "{}"]) simp_all
  next
    case False
    then have "orphan retained x" "rw_creds w1 = removeAll x (rw_creds w)" using one by blast+
    then show ?thesis using one by (intro that [of "{x}"]) (simp_all add: removeAll_filter_not_eq eq_commute)
  qed
  show ?case
  proof (cases s)
    case (Inl e)
    then have "r = Inl e" "w' = w1" using Cons.prems s by (auto simp: then_do_def)
    then show ?thesis using g by (intro conjI exI [of _ g]) (auto split: if_splits)
  next
    case (Inr u)
    then have "for_each (sweep_one env retained) xs w1 = (r, w')" using Cons.prems s by (simp add: then_do_def)
    from Cons.IH [OF this] obtain g' where g': "g' \<subseteq> {x \<in> set xs. orphan retained x}"
      "rw_creds w' = filter (\<lambda>x. x \<notin> g') (rw_creds w1)" "rw_db w' = rw_db w1"
      "r = Inr () \<longrightarrow> (\<forall>x\<in>set xs. orphan retained x \<longrightarrow> x \<notin> set (rw_creds w'))" by blast
    have "rw_creds w' = filter (\<lambda>x. x \<notin> g \<union> g') (rw_creds w)" using g(2) g'(2) by (simp add: conj_commute)
    then show ?thesis using g g' Inr by (intro conjI exI [of _ "g \<union> g'"]) (auto split: if_splits)
  qed
qed

text \<open>The two queries return the credentials that the rows of the two tables name.\<close>

lemma references_are_rows:
  "credential_references d \<union> recovery_credential_references d = {x. (\<exists>a\<in>set (db_agents d). a_credential_ref a = x) \<or>
    (\<exists>row\<in>set (db_jobs d). j_credential_temp_ref (row_job row) = Some x \<or> j_old_credential_ref (row_job row) = Some x)}"
  by (force simp: credential_references_def recovery_credential_references_def)

text \<open>
  \<open>C12\<close>.  The sweep of orphaned credentials is exact.  It never removes a credential that the row of a registered agent
  names, or that a row of the enrollment journal, terminal or not, names as its new or its old credential, nor a file it
  does not recognise; when it finishes without an error exactly the recognised files that no such row names are gone; and
  it does not touch the database.
\<close>

theorem orphan_sweep_is_exact:
  assumes "cleanup_orphans env w = (r, w')"
  defines "retained \<equiv> {x. (\<exists>a\<in>set (db_agents (rw_db w)). a_credential_ref a = x) \<or>
    (\<exists>row\<in>set (db_jobs (rw_db w)). j_credential_temp_ref (row_job row) = Some x \<or> j_old_credential_ref (row_job row) = Some x)}"
  shows "rw_db w' = rw_db w \<and>
    (\<forall>x\<in>set (rw_creds w). x \<in> retained \<or> \<not> credential_ref_re x \<longrightarrow> x \<in> set (rw_creds w')) \<and>
    (r = Inr () \<longrightarrow> rw_creds w' = filter (\<lambda>x. x \<in> retained \<or> \<not> credential_ref_re x) (rw_creds w))"
proof -
  let ?w = "w\<lparr>rw_tick := Suc (rw_tick w)\<rparr>"
  have refs: "credential_references (rw_db w) \<union> recovery_credential_references (rw_db w) = retained"
    unfolding retained_def by (rule references_are_rows)
  consider "r \<noteq> Inr ()" "w' = ?w" | "for_each (sweep_one env retained) (sort (rw_creds w)) ?w = (r, w')"
    using assms(1) refs by (auto simp: cleanup_orphans_def store_lease_def then_do_def step_def reading_def split: if_splits)
  then show ?thesis
  proof cases
    case 2
    from sweep_spec [OF this] obtain gone where gone: "gone \<subseteq> {x \<in> set (rw_creds w). orphan retained x}"
      "rw_creds w' = filter (\<lambda>x. x \<notin> gone) (rw_creds w)" "rw_db w' = rw_db w"
      "r = Inr () \<longrightarrow> (\<forall>x\<in>set (rw_creds w). orphan retained x \<longrightarrow> x \<notin> set (rw_creds w'))" by auto
    have "gone = {x \<in> set (rw_creds w). orphan retained x}" if "r = Inr ()" using gone that by auto
    then show ?thesis using gone by (auto simp: orphan_def intro!: filter_cong)
  qed auto
qed

section \<open>Updating an agent\<close>

text \<open>The database after at most one \<open>await\<close>.\<close>

definition awaited :: "issuing_env \<Rightarrow> manager_db \<Rightarrow> manager_db \<Rightarrow> bool" where
  "awaited env d d' \<longleftrightarrow> d' = d \<or> (\<exists>k. d' = history run_manager (v_others (i_run env) k) d)"

lemma awaited_ok: "awaited env d d' \<Longrightarrow> manager_ok d \<Longrightarrow> manager_ok d'"
  using manager.history_inv by (auto simp: awaited_def)

lemma prepare_spec: "prepare env endpoint pid w = (r, w') \<Longrightarrow> w' = w"
  by (auto simp: prepare_def prepared_def raising_def give_def split: option.splits sum.splits)

lemma network_call_spec:
  assumes "network_call env w = (r, w')"
  shows "awaited env (rw_db w) (rw_db w') \<and> (\<forall>v. r = Inr v \<longrightarrow> (\<exists>k. v_net (i_run env) k = NetValue v))"
  using assms
  by (auto simp: network_call_def then_do_def step_def others_act_def awaited_def raising_def give_def
      split: if_splits net_outcome.splits)

text \<open>
  What the validation of a changed target guarantees: it waits at most once, and its result is the answer of
  the agent at the new target; a managed agent answered with the instance that is registered.
\<close>

definition answered :: "issuing_env \<Rightarrow> (string \<Rightarrow> string \<times> string option) \<Rightarrow> agent_record \<Rightarrow> string \<Rightarrow> string option \<Rightarrow> bool" where
  "answered env said current endpoint reference \<longleftrightarrow> (\<exists>k v. v_net (i_run env) k = NetValue v \<and> endpoint = fst (said v) \<and>
     (a_instance_id current \<noteq> None \<longrightarrow> snd (said v) = a_instance_id current \<and> reference = None))"

definition validating :: "issuing_env \<Rightarrow> (string \<Rightarrow> string \<times> string option) \<Rightarrow> agent_record \<Rightarrow> manager_db
    \<Rightarrow> recovery_error + (string \<times> string option) \<Rightarrow> recovery_world \<Rightarrow> bool" where
  "validating env said current d r w \<longleftrightarrow> awaited env d (rw_db w) \<and>
     (\<forall>endpoint reference. r = Inr (endpoint, reference) \<longrightarrow> answered env said current endpoint reference)"

lemma runs_prepare: "runs (\<lambda>w. rw_db w = d) (prepare env endpoint pid) (\<lambda>_ w. rw_db w = d)"
  using prepare_spec by (auto simp: runs_def) (metis prod.collapse)

lemma runs_network: "runs (\<lambda>w. rw_db w = d) (network_call env)
   (\<lambda>r w. awaited env d (rw_db w) \<and> (\<forall>v. r = Inr v \<longrightarrow> (\<exists>k. v_net (i_run env) k = NetValue v)))"
  using network_call_spec by (auto simp: runs_def) (metis prod.collapse)+

lemma runs_put_db: "runs (\<lambda>w. rw_db w = d) (store_put env secret) (\<lambda>_ w. rw_db w = d)"
  using store_put_stored by (auto simp: runs_def) (metis prod.collapse)

lemma awaited_refl: "awaited env d d"
  by (simp add: awaited_def)

lemma runs_validated_legacy:
  assumes "a_instance_id current = None"
  shows "runs (\<lambda>w. rw_db w = d) (then_do (prepare env endpoint pid) (\<lambda>_. then_do (network_call env) (\<lambda>v.
      then_do (store_put env token) (\<lambda>reference. give (fst (said v), Some reference))))) (validating env said current d)"
proof (rule runs_then [where R = "\<lambda>_ w. rw_db w = d"], rule runs_weaken [OF runs_prepare])
  show "runs (\<lambda>w. rw_db w = d) (then_do (network_call env) (\<lambda>v. then_do (store_put env token)
      (\<lambda>reference. give (fst (said v), Some reference)))) (validating env said current d)" for t :: validated_target
  proof (rule runs_then [where R = "\<lambda>v w. awaited env d (rw_db w) \<and> (\<exists>k. v_net (i_run env) k = NetValue v)"],
      rule runs_weaken [OF runs_network])
    fix v
    show "runs (\<lambda>w. awaited env d (rw_db w) \<and> (\<exists>k. v_net (i_run env) k = NetValue v)) (then_do (store_put env token)
        (\<lambda>reference. give (fst (said v), Some reference))) (validating env said current d)"
      by (rule runs_then [where R = "\<lambda>_ w. awaited env d (rw_db w) \<and> (\<exists>k. v_net (i_run env) k = NetValue v)"])
        (use runs_put_db [of _ env token] assms in \<open>auto simp: runs_def validating_def answered_def give_def split: sum.splits\<close>)
  qed (auto simp: validating_def split: sum.splits)
qed (auto simp: validating_def awaited_refl split: sum.splits)

lemma runs_validated_managed:
  "runs (\<lambda>w. rw_db w = d) (then_do (prepare env endpoint pid) (\<lambda>_. then_do (store_read (i_run env) ref) (\<lambda>readable.
     if \<not> readable then raising StoreFailure else network_call env)))
     (\<lambda>r w. awaited env d (rw_db w) \<and> (\<forall>v. r = Inr v \<longrightarrow> (\<exists>k. v_net (i_run env) k = NetValue v)))" (is "runs _ _ ?Q")
proof (rule runs_then [where R = "\<lambda>_ w. rw_db w = d"], rule runs_weaken [OF runs_prepare])
  show "runs (\<lambda>w. rw_db w = d) (then_do (store_read (i_run env) ref) (\<lambda>readable.
     if \<not> readable then raising StoreFailure else network_call env)) ?Q" for t :: validated_target
  proof (rule runs_then [where R = "\<lambda>_ w. rw_db w = d"])
    show "runs (\<lambda>w. rw_db w = d) (store_read (i_run env) ref) (\<lambda>r w. case r of Inl e \<Rightarrow> ?Q (Inl e) w | Inr _ \<Rightarrow> rw_db w = d)"
      by (auto simp: runs_def store_read_def then_do_def step_def)
    show "runs (\<lambda>w. rw_db w = d) (if \<not> readable then raising StoreFailure else network_call env) ?Q" for readable
      using runs_network [of d env] by (auto intro!: runs_raising simp: awaited_refl)
  qed
qed (auto simp: awaited_refl split: sum.splits)

lemma runs_rethrown: "runs P m Q \<Longrightarrow> (\<And>e w. Q (Inl e) w \<Longrightarrow> Q (Inl (f e)) w) \<Longrightarrow> runs P (catching m (\<lambda>e. raising (f e))) Q"
  by (rule runs_catching [where R = "\<lambda>e. Q (Inl e)"]) (auto intro!: runs_raising elim!: runs_weaken split: sum.splits)

lemma runs_validated_change:
  "runs (\<lambda>w. rw_db w = d) (validated_change env said u current endpoint pid) (validating env said current d)"
proof -
  have stop: "runs (\<lambda>w. rw_db w = d) (raising e) (validating env said current d)" for e
    by (rule runs_raising) (simp add: validating_def awaited_refl)
  have legacy: "runs (\<lambda>w. rw_db w = d) (catching (then_do (prepare env endpoint pid) (\<lambda>_. then_do (network_call env) (\<lambda>v.
      then_do (store_put env token) (\<lambda>reference. give (fst (said v), Some reference)))))
      (\<lambda>x. raising (as_saga_error x ''dispatched''))) (validating env said current d)"
    if "a_instance_id current = None" for token
    by (rule runs_rethrown [OF runs_validated_legacy [OF that]]) (simp add: validating_def)
  let ?Q = "\<lambda>r w. awaited env d (rw_db w) \<and> (\<forall>v. r = Inr v \<longrightarrow> (\<exists>k. v_net (i_run env) k = NetValue v))"
  have managed: "runs (\<lambda>w. rw_db w = d) (then_do (catching (then_do (prepare env endpoint pid) (\<lambda>_.
      then_do (store_read (i_run env) (Some (a_credential_ref current))) (\<lambda>readable.
        if \<not> readable then raising StoreFailure else network_call env))) (\<lambda>x. raising (as_saga_error x ''not_dispatched'')))
      (\<lambda>v. if snd (said v) \<noteq> a_instance_id current then raising (SagaFailure ''agent_identity_changed'' ''dispatched'')
        else give (fst (said v), None))) (validating env said current d)"
  proof (rule runs_then [where R = "\<lambda>v w. ?Q (Inr v) w"], rule runs_weaken [OF runs_rethrown [OF runs_validated_managed]])
    show "runs (\<lambda>w. ?Q (Inr v) w) (if snd (said v) \<noteq> a_instance_id current
        then raising (SagaFailure ''agent_identity_changed'' ''dispatched'') else give (fst (said v), None))
        (validating env said current d)" for v
    proof (cases "snd (said v) = a_instance_id current")
      case True
      then have "answered env said current (fst (said v)) None" if "v_net (i_run env) k = NetValue v" for k
        unfolding answered_def using that by blast
      then show ?thesis using True by (auto intro!: runs_give simp: validating_def)
    qed (auto intro!: runs_raising simp: validating_def)
  qed (auto simp: validating_def split: sum.splits)
  show ?thesis using stop legacy managed by (simp add: validated_change_def)
qed

lemma runs_drop_db: "runs (\<lambda>w. rw_db w = d) (drop_quietly env ref) (\<lambda>r w. r = Inr () \<and> rw_db w = d)"
  by (auto simp: runs_def drop_quietly_def store_delete_if_exists_def then_do_def step_def give_def)

lemma runs_commit_change:
  "runs (\<lambda>w. rw_db w = d) (commit_change env candidate n ref dispatch) (\<lambda>r w. case r of Inl e \<Rightarrow> rw_db w = d
     | Inr a \<Rightarrow> \<exists>now. update_and_reset_status candidate n now None None d = Inr (a, rw_db w))" (is "runs ?P _ ?Q")
  unfolding commit_change_def
proof (rule runs_then [where R = "\<lambda>_ w. rw_db w = d"])
  show "runs ?P (clock env) (\<lambda>r w. case r of Inl e \<Rightarrow> ?Q (Inl e) w | Inr _ \<Rightarrow> rw_db w = d)"
    by (auto simp: runs_def clock_def now_at_def then_do_def step_def give_def)
  fix now
  show "runs ?P (catching (transact (update_and_reset_status candidate n now None None)) (\<lambda>x.
       then_do (case ref of None \<Rightarrow> give () | Some r \<Rightarrow> drop_quietly env r) (\<lambda>_. raising (case x of
           RegistryFailure RevisionConflict \<Rightarrow> SagaFailure ''agent_changed'' dispatch
         | RegistryFailure (RegistryConflict code) \<Rightarrow> SagaFailure (if code = ''agent_mutation_in_progress''
             then ''agent_mutation_in_progress'' else ''agent_already_registered'') dispatch
         | RegistryFailure _ \<Rightarrow> SagaFailure ''agent_registry_unavailable'' dispatch
         | _ \<Rightarrow> x)))) ?Q" (is "runs _ (catching _ (\<lambda>x. then_do _ (\<lambda>_. raising (?f x)))) _")
  proof (rule runs_catching [where R = "\<lambda>_ w. rw_db w = d"])
    show "runs ?P (transact (update_and_reset_status candidate n now None None))
        (\<lambda>r w. case r of Inl e \<Rightarrow> rw_db w = d | Inr v \<Rightarrow> ?Q (Inr v) w)"
      by (auto simp: runs_def transact_def split: sum.splits)
    show "runs ?P (then_do (case ref of None \<Rightarrow> give () | Some r \<Rightarrow> drop_quietly env r) (\<lambda>_. raising (?f x))) ?Q" for x
      by (rule runs_then [where R = "\<lambda>_ w. rw_db w = d"])
        (use runs_drop_db [of d env] in \<open>auto simp: runs_def give_def raising_def split: option.splits\<close>)
  qed
qed

lemma update_and_reset_get:
  assumes "db_ok d" and "update_and_reset_status c n now None None d = Inr (a, d')"
  shows "a = c\<lparr>a_revision := n + 1, a_updated_at := now\<rparr> \<and> agent_get (a_agent_id c) d' = Some a \<and>
    (\<exists>before. agent_get (a_agent_id c) d = Some before \<and> a_revision before = n) \<and> mutation_allowed d (a_agent_id c) None None"
  using assms(2)
proof (rule update_and_reset_update)
  fix d1
  let ?P = "at_revision (a_agent_id c) n"
  assume a: "a = c\<lparr>a_revision := n + 1, a_updated_at := now\<rparr>" and m: "mutation_allowed d (a_agent_id c) None None"
    and u: "update_agents ?P (overwrite a) d = Some d1" and n: "rowcount ?P (db_agents d) = 1"
    and s: "upsert_status (fresh_status (a_agent_id a) (a_revision a) (if a_enabled a then ''unknown'' else ''disabled'') now) d1 = Some d'"
  obtain b where b: "b \<in> set (db_agents d)" "?P b"
    using rowcount_pos [of ?P "db_agents d" 0] n by auto
  then have g: "agent_get (a_agent_id c) d = Some b" using agent_get_iff [OF assms(1)] by (auto simp: at_revision_def)
  have "agent_get (a_agent_id c) d1 = Some (overwrite a b)"
    using agent_get_update [OF assms(1) u, of "a_agent_id c"] g b by simp
  moreover have "overwrite a b = a" by (rule overwrite_same) (use a b in \<open>simp add: at_revision_def\<close>)
  moreover have "agent_get i d' = agent_get i d1" for i using status_statements_agents(1) [OF s] by (simp add: agent_get_def)
  ultimately show ?thesis using a b g m by (auto simp: at_revision_def)
qed

text \<open>The commit of a change the target accepted.\<close>

definition committed :: "issuing_env \<Rightarrow> (string \<Rightarrow> string \<times> string option) \<Rightarrow> agent_change \<Rightarrow> agent_record \<Rightarrow> manager_db
    \<Rightarrow> recovery_error + agent_record \<Rightarrow> recovery_world \<Rightarrow> bool" where
  "committed env said u old d0 r w \<longleftrightarrow> (case r of Inl _ \<Rightarrow> awaited env d0 (rw_db w)
     | Inr a \<Rightarrow> \<exists>d ep pid ref now. awaited env d0 d \<and>
         (answered env said old ep ref \<or> (ep, pid, ref) = (a_normalized_endpoint old, a_transport_profile_id old, None)) \<and>
         update_and_reset_status (changed_record u ep pid ref old) (a_revision old) now None None d = Inr (a, rw_db w))"

lemma runs_committed:
  assumes "answered env said old ep ref \<or> (ep, pid, ref) = (a_normalized_endpoint old, a_transport_profile_id old, None)"
  shows "runs (\<lambda>w. awaited env d0 (rw_db w)) (then_do (commit_change env (changed_record u ep pid ref old) (a_revision old) ref dispatch)
     (\<lambda>updated. then_do (if ref = None then give () else drop_quietly env (a_credential_ref old)) (\<lambda>_. give updated)))
     (committed env said u old d0)"
proof (rule runs_then [where R = "\<lambda>a. committed env said u old d0 (Inr a)"])
  show "runs (\<lambda>w. awaited env d0 (rw_db w)) (commit_change env (changed_record u ep pid ref old) (a_revision old) ref dispatch)
     (\<lambda>r w. case r of Inl e \<Rightarrow> committed env said u old d0 (Inl e) w | Inr a \<Rightarrow> committed env said u old d0 (Inr a) w)"
    unfolding runs_def
  proof (intro allI impI)
    fix w :: recovery_world
    let ?m = "commit_change env (changed_record u ep pid ref old) (a_revision old) ref dispatch"
    assume w: "awaited env d0 (rw_db w)"
    have "case fst (?m w) of Inl e \<Rightarrow> rw_db (snd (?m w)) = rw_db w
       | Inr a \<Rightarrow> \<exists>now. update_and_reset_status (changed_record u ep pid ref old) (a_revision old) now None None (rw_db w) = Inr (a, rw_db (snd (?m w)))"
      using runs_commit_change [of "rw_db w"] by (auto simp: runs_def)
    with w assms show "case fst (?m w) of Inl e \<Rightarrow> committed env said u old d0 (Inl e) (snd (?m w))
        | Inr a \<Rightarrow> committed env said u old d0 (Inr a) (snd (?m w))"
      unfolding committed_def sum.case by (cases "fst (?m w)"; simp only: sum.case; blast)
  qed
  show "runs (committed env said u old d0 (Inr a)) (then_do (if ref = None then give () else drop_quietly env (a_credential_ref old))
     (\<lambda>_. give a)) (committed env said u old d0)" for a
    by (auto simp: runs_def committed_def then_do_def give_def drop_quietly_def store_delete_if_exists_def step_def)
qed

lemma runs_update:
  assumes "agent_get i d0 = Some old"
  shows "runs (\<lambda>w. rw_db w = d0) (update_agent env said i u) (committed env said u old d0)"
proof -
  let ?ep = "py_or (u_base_url u) (a_normalized_endpoint old)" and ?pid = "py_or (u_transport_profile_id u) (a_transport_profile_id old)"
  define changed where "changed \<longleftrightarrow> ?ep \<noteq> a_normalized_endpoint old \<or> ?pid \<noteq> a_transport_profile_id old"
  define dispatch where "dispatch = (if changed then ''dispatched'' else ''not_dispatched'')"
  let ?fits = "\<lambda>(ep, ref). answered env said old ep ref \<or> (ep, ?pid, ref) = (a_normalized_endpoint old, a_transport_profile_id old, None)"
  let ?rest = "\<lambda>(ep, ref). then_do (commit_change env (changed_record u ep ?pid ref old) (a_revision old) ref dispatch)
     (\<lambda>updated. then_do (if ref = None then give () else drop_quietly env (a_credential_ref old)) (\<lambda>_. give updated))"
  have first: "runs (\<lambda>w. rw_db w = d0) (if changed then validated_change env said u old ?ep ?pid else give (?ep, None))
      (\<lambda>r w. awaited env d0 (rw_db w) \<and> (\<forall>p. r = Inr p \<longrightarrow> ?fits p))"
  proof (cases changed)
    case True
    then show ?thesis using runs_weaken [OF runs_validated_change] by (auto simp: validating_def)
  qed (auto intro!: runs_give simp: awaited_refl changed_def)
  have "runs (\<lambda>w. rw_db w = d0) (then_do (if changed then validated_change env said u old ?ep ?pid else give (?ep, None)) ?rest)
      (committed env said u old d0)"
  proof (rule runs_then [where R = "\<lambda>p w. awaited env d0 (rw_db w) \<and> ?fits p"], rule runs_weaken [OF first])
    show "runs (\<lambda>w. awaited env d0 (rw_db w) \<and> ?fits p) (?rest p) (committed env said u old d0)" for p
    proof (rule runs_pre [where C = "?fits p"])
      show "runs (\<lambda>w. awaited env d0 (rw_db w) \<and> ?fits p) (?rest p) (committed env said u old d0)" if "?fits p"
        using runs_committed [of env said old "fst p" "snd p" ?pid d0 u dispatch] that by (cases p) (auto simp: runs_def)
    qed auto
  qed (auto simp: committed_def split: sum.splits)
  then show ?thesis
    using assms unfolding runs_def changed_def dispatch_def by (simp add: update_agent_def then_do_def [of "reading _"] reading_def Let_def)
qed

text \<open>
  Changing a registered agent.  The call waits at most once and is one transaction: when it fails,
  the database is what the others made of it.  When it succeeds, the agent keeps its id, instance and
  enrollment method, its revision is one more than that of the record the call read, which was still current when
  it committed, and no other mutation of the agent was in progress.  The endpoint and profile change only to a target
  the Manager validated: a managed agent's new target answered with the registered instance.
\<close>

theorem update_agent_spec:
  assumes "manager_ok (rw_db w)" and "update_agent env said i u w = (r, w')"
  shows "case r of
      Inl e \<Rightarrow> awaited env (rw_db w) (rw_db w')
    | Inr a \<Rightarrow> \<exists>old d before. agent_get i (rw_db w) = Some old \<and> awaited env (rw_db w) d \<and>
        agent_get i d = Some before \<and> a_revision before = a_revision old \<and> mutation_allowed d i None None \<and>
        agent_get i (rw_db w') = Some a \<and> a_agent_id a = i \<and> a_revision a = a_revision old + 1 \<and>
        a_instance_id a = a_instance_id old \<and> a_enrollment_method a = a_enrollment_method old \<and>
        ((a_normalized_endpoint a, a_transport_profile_id a, a_credential_ref a) =
           (a_normalized_endpoint old, a_transport_profile_id old, a_credential_ref old) \<or>
         (\<exists>k v. v_net (i_run env) k = NetValue v \<and> a_normalized_endpoint a = fst (said v) \<and>
            (a_instance_id old \<noteq> None \<longrightarrow> snd (said v) = a_instance_id old \<and> a_credential_ref a = a_credential_ref old)))"
proof (cases "agent_get i (rw_db w)")
  case None
  then show ?thesis using assms(2) by (auto simp: update_agent_def then_do_def reading_def raising_def awaited_refl)
next
  case (Some old)
  have c: "committed env said u old (rw_db w) r w'"
    using runs_update [OF Some, of env said u] assms(2) unfolding runs_def by (metis fst_conv snd_conv)
  show ?thesis
  proof (cases r)
    case (Inr a)
    then obtain d ep pid ref now where d: "awaited env (rw_db w) d"
      and t: "answered env said old ep ref \<or> (ep, pid, ref) = (a_normalized_endpoint old, a_transport_profile_id old, None)"
      and u: "update_and_reset_status (changed_record u ep pid ref old) (a_revision old) now None None d = Inr (a, rw_db w')"
      using c unfolding committed_def Inr sum.case by blast
    have "db_ok d" using awaited_ok [OF d assms(1)] by (simp add: manager_ok_def)
    note upd = update_and_reset_get [OF this u]
    have id: "a_agent_id old = i" using agent_getD [OF Some] by simp
    have "(a_normalized_endpoint a, a_transport_profile_id a, a_credential_ref a) =
        (a_normalized_endpoint old, a_transport_profile_id old, a_credential_ref old) \<or>
      (\<exists>k v. v_net (i_run env) k = NetValue v \<and> a_normalized_endpoint a = fst (said v) \<and>
         (a_instance_id old \<noteq> None \<longrightarrow> snd (said v) = a_instance_id old \<and> a_credential_ref a = a_credential_ref old))"
      using t upd by (auto simp: changed_record_def answered_def py_or_def)
    then show ?thesis using upd d Some id Inr by (auto simp: changed_record_def)
  qed (use c in \<open>auto simp: committed_def\<close>)
qed

section \<open>A publication that overtakes a recovery run\<close>

text \<open>
  The five calls of two tasks of one Manager, in order: a recovery run claims a job in \<open>verifying\<close>; the task that
  issued the credential, which read the job before, moves its copy to \<open>verified\<close>; the operator saves; the recovery
  that the save triggers claims the job; and the first run reports that its validation failed.  The result is the
  job of the second claim, whether the report was accepted and the database after it.
\<close>

definition overtaken_claim :: "(string \<Rightarrow> string) \<Rightarrow> string \<Rightarrow> string \<Rightarrow> int \<Rightarrow> string \<Rightarrow> string \<Rightarrow> (nat \<Rightarrow> instant) \<Rightarrow> manager_db
    \<Rightarrow> (enrollment_job \<times> bool \<times> manager_db) option" where
  "overtaken_claim sha256 e owner lease name code t d = (case journal_get e d of None \<Rightarrow> None
     | Some job \<Rightarrow> (case claim_recovery e owner (t 0) lease d of Inr (Some claim1, d1) \<Rightarrow>
         (case replace_if_state (job\<lparr>j_state := VERIFIED, j_updated_at := t 1\<rparr>) VERIFYING None None None d1 of Inr (_, d2) \<Rightarrow>
           (case jobs_consume sha256 e name (job_input_fingerprint sha256 job) (t 2) (\<lambda>d. d) (\<lambda>d. d) (\<lambda>d. d) d2 of (Inr _, d3) \<Rightarrow>
             (case claim_recovery e owner (t 3) lease d3 of Inr (Some claim2, d4) \<Rightarrow>
               (case fail_recovery_claim e owner (j_recovery_revision claim1) code (t 4) d4 of Inr (b, d5) \<Rightarrow> Some (claim2, b, d5)
                | _ \<Rightarrow> None)
              | _ \<Rightarrow> None)
            | _ \<Rightarrow> None)
          | _ \<Rightarrow> None)
        | _ \<Rightarrow> None))"

lemma fail_effect:
  assumes "db_ok d" and "fail_recovery_claim e u n code now d = Inr (b, d')" and "journal_get e d = Some k"
    and "j_recovery_owner k = Some u" and "j_recovery_revision k = n" and "sql_gt (j_recovery_lease_until k) now"
  shows "b \<and> journal_get e d' = Some (set_failed code now k)"
proof -
  let ?P = "\<lambda>r. held e u n r \<and> lease_live now r"
  let ?Q = "\<lambda>j. j_recovery_owner j = Some u \<and> j_recovery_revision j = n \<and> sql_gt (j_recovery_lease_until j) now"
  have u: "update_jobs ?P (set_job (set_failed code now)) d = Some d'" and b: "b \<longleftrightarrow> rowcount ?P (db_jobs d) = Suc 0"
    using assms(2) by (auto simp: fail_recovery_claim_def Let_def split: option.splits if_splits)
  have P: "?P r \<longleftrightarrow> row_id r = e \<and> ?Q (row_job r)" for r by (auto simp: held_def lease_live_def)
  show ?thesis using keyed_rowcount(1) [OF assms(1) P] keyed_update_get [OF assms(1) u P, of e] b assms(3-6) by simp
qed

lemma claim_returns:
  assumes "db_ok d" and "claim_recovery e u now l d = Inr (Some c, d')"
  shows "\<exists>j. journal_get e d = Some j \<and> c = set_claimed u now l j \<and> journal_get e d' = Some c \<and> db_ok d'"
proof -
  obtain j where j: "journal_get e d = Some j" "c = set_claimed u now l j"
    "\<not> (expirable (j_state j) \<and> j_expires_at j \<le> now)" "recoverable (j_state j)" "unclaimed now j"
    using claim_recovery_get(2) [OF assms] by (auto split: option.splits if_splits)
  then have "journal_get e d' = Some c" using claim_recovery_get(1) [OF assms] by auto
  moreover have "db_ok d'" using claim_recovery_advance [OF assms] by simp
  ultimately show ?thesis using j by blast
qed

text \<open>
  \<open>C39\<close>.  The move to \<open>verified\<close> after a published credential is validated is not fenced: it writes back the
  copy read before, which drops the claim a recovery run took meanwhile and resets its revision.  The next claim of
  the same Manager therefore gets the same fence, and the report of the overtaken run is accepted: it fails the job
  that is being saved.
\<close>

theorem overtaken_claim_fails_saved_job:
  assumes "db_ok d" and "overtaken_claim sha256 e owner lease name code t d = Some (claim2, accepted, d')" and "t 4 < t 3 + seconds lease"
  shows "j_state claim2 = ACTIVATION_REQUESTED \<and> j_save_requested claim2 \<and> accepted \<and>
    (\<exists>j. journal_get e d' = Some j \<and> j_state j = FAILED \<and> j_save_requested j)"
proof -
  obtain job where job: "journal_get e d = Some job" using assms(2) by (auto simp: overtaken_claim_def split: option.splits)
  then have id: "j_enrollment_id job = e" by (rule journal_get_id)
  let ?v = "job\<lparr>j_state := VERIFIED, j_updated_at := t 1\<rparr>"
  obtain claim1 d1 x d2 y d3 d4 where c1: "claim_recovery e owner (t 0) lease d = Inr (Some claim1, d1)"
    and r: "replace_if_state ?v VERIFYING None None None d1 = Inr (x, d2)"
    and s: "jobs_consume sha256 e name (job_input_fingerprint sha256 job) (t 2) (\<lambda>d. d) (\<lambda>d. d) (\<lambda>d. d) d2 = (Inr y, d3)"
    and c2: "claim_recovery e owner (t 3) lease d3 = Inr (Some claim2, d4)"
    and f: "fail_recovery_claim e owner (j_recovery_revision claim1) code (t 4) d4 = Inr (accepted, d')"
    using assms(2) job by (auto simp: overtaken_claim_def split: sum.splits option.splits prod.splits)
  have one: "claim1 = set_claimed owner (t 0) lease job" "db_ok d1" using claim_returns [OF assms(1) c1] job by auto
  have two: "journal_get e d2 = Some ?v" "db_ok d2" using replace_unfenced [OF one(2) r] id by auto
  have three: "journal_get e d3 = Some (set_saved name (t 2) ?v)" "db_ok d3"
    using s
  proof (atomize (full), elim consume_Inr)
    fix k d1'
    assume g: "jobs_get e (t 2) (\<lambda>d. d) (\<lambda>d. d) d2 = (Inr k, d1')" "j_state k = VERIFIED"
      and w: "replace_if_state (set_saved name (t 2) k) VERIFIED None None None d1' = Inr (y, d3)"
    have "k = ?v \<and> d1' = d2"
      using g two by (auto simp: jobs_get_def Let_def set_expired_cleared_def dest: replace_unfenced
          split: if_splits sum.splits registry_error.splits)
    then show "journal_get e d3 = Some (set_saved name (t 2) ?v) \<and> db_ok d3"
      using replace_unfenced [OF two(2), of "set_saved name (t 2) ?v" VERIFIED y d3] w id by (auto simp: set_saved_def)
  qed
  have four: "claim2 = set_claimed owner (t 3) lease (set_saved name (t 2) ?v)" "journal_get e d4 = Some claim2" "db_ok d4"
    using claim_returns [OF three(2) c2] three(1) by auto
  have "accepted \<and> journal_get e d' = Some (set_failed code (t 4) claim2)"
    by (rule fail_effect [OF four(3) f four(2)]) (use one four assms(3) in \<open>simp_all add: set_claimed_def set_saved_def\<close>)
  then show ?thesis using four by (simp add: set_claimed_def set_saved_def set_failed_def clear_claims_def)
qed

section \<open>Resuming an accepted CLI submission\<close>

lemma four_bytes:
  "n < 2 ^ 32 \<Longrightarrow> n = (n div 16777216 mod 256) * 16777216 + (n div 65536 mod 256) * 65536 + (n div 256 mod 256) * 256 + n mod (256::nat)"
proof -
  assume "n < 2 ^ 32"
  then have "n div 16777216 mod 256 = n div 16777216" by (simp add: less_mult_imp_div_less)
  moreover have "n div 65536 = n div 65536 div 256 * 256 + n div 65536 mod 256" by simp
  moreover have "n div 256 = n div 256 div 256 * 256 + n div 256 mod 256" by simp
  moreover have "n = n div 256 * 256 + n mod 256" by simp
  moreover have "n div 256 div 256 = n div 65536" "n div 65536 div 256 = n div 16777216" by (simp_all flip: div_mult2_eq)
  ultimately show ?thesis by linarith
qed

lemma length_prefixed_inject:
  assumes "length s < 2 ^ 32" "length t < 2 ^ 32" "length_prefixed s @ x = length_prefixed t @ y"
  shows "s = t \<and> x = y"
proof -
  have b: "m div k mod 256 = n div k mod 256" if "char_of (m div k mod 256) = (char_of (n div k mod 256) :: char)" for m n k :: nat
    using arg_cong [OF that, of "of_char :: char \<Rightarrow> nat"] by simp
  have "length s div 256 ^ e mod 256 = length t div 256 ^ e mod 256" if "e \<in> {3, 2, 1, 0}" for e :: nat
    using assms(3) that by (intro b) (auto simp: length_prefixed_def)
  from this [of 3] this [of 2] this [of 1] this [of 0]
  have "length s = length t" using four_bytes [OF assms(1)] four_bytes [OF assms(2)] by simp
  then show ?thesis using assms(3) by (simp add: length_prefixed_def)
qed

lemma length_prefixed_list_inject:
  assumes "length ss = length ts" "\<forall>s\<in>set ss \<union> set ts. length s < 2 ^ 32"
    "concat (map length_prefixed ss) = concat (map length_prefixed ts)"
  shows "ss = ts"
  using assms
proof (induction ss ts rule: list_induct2)
  case (Cons s ss t ts)
  then show ?case using length_prefixed_inject [of s t] by auto
qed simp

text \<open>The fields of a receipt fit their four-byte length prefix.\<close>

definition prefixable :: "string list \<Rightarrow> bool" where
  "prefixable xs \<longleftrightarrow> (\<forall>s\<in>set xs. length s < 2 ^ 32)"

lemma receipt_payload_inject:
  assumes "prefixable [e, n, show_int u, f, p, n', show_int u', p']"
  shows "receipt_payload e n u f p = receipt_payload e n' u' f p' \<longleftrightarrow> n = n' \<and> u = u' \<and> p = p'"
proof
  assume "receipt_payload e n u f p = receipt_payload e n' u' f p'"
  then have "concat (map length_prefixed [e, n, show_int u, f, p]) = concat (map length_prefixed [e, n', show_int u', f, p'])"
    by (simp add: receipt_payload_def)
  then have "[e, n, show_int u, f, p] = [e, n', show_int u', f, p']"
    by (intro length_prefixed_list_inject) (use assms in \<open>auto simp: prefixable_def\<close>)
  then show "n = n' \<and> u = u' \<and> p = p'" using show_int_inj by auto
qed simp

text \<open>
  The receipt of an accepted CLI submission is a round trip.  When the enrollment is consumed, its nonce, peer,
  input and pinned address are erased and only their receipt is kept; afterwards a submission is acknowledged as
  already accepted, without a target and without any effect, exactly when it comes with the nonce, the peer uid and
  the pinned address of the one that was accepted (provided the hash does not collide on the two payloads).
\<close>

theorem cli_receipt_round_trip:
  fixes now :: instant
  assumes "j_cli_resume_nonce job = Some nonce" and "j_cli_peer_uid job = Some uid"
    and "j_cli_input_fingerprint job = Some (cli_fingerprint env job)" and "j_cli_pinned_address job = Some pin"
    and "uuid_canonical nonce" and "canonical_ip pin" and "0 \<le> uid"
    and "prefixable [j_enrollment_id job, nonce, show_int uid, cli_fingerprint env job, pin, n, show_int (cs_peer_uid q), cs_pinned_address q]"
    and "inj_on (v_sha256 (i_run env)) {receipt_payload (j_enrollment_id job) nonce uid (cli_fingerprint env job) pin,
      receipt_payload (j_enrollment_id job) n (cs_peer_uid q) (cli_fingerprint env job) (cs_pinned_address q)}"
  defines "consumed \<equiv> set_consumed (Some (cli_accept_receipt (i_run env) job)) now job"
  shows "j_cli_resume_nonce consumed = None \<and> j_cli_pinned_address consumed = None \<and>
    resume_cli env q event consumed n w =
      (if n = nonce \<and> cs_peer_uid q = uid \<and> cs_pinned_address q = pin
       then (Inr \<lparr>cc_job = consumed, cc_target = None, cc_input_fingerprint = cli_fingerprint env job, cc_audit_event_id = event,
         cc_nonce = n, cc_already_accepted = True\<rparr>, w)
       else (Inl (Invalid ''agent_enrollment_conflict'' ''not_dispatched''), w))"
proof -
  let ?e = "j_enrollment_id job" and ?fp = "cli_fingerprint env job"
  have fp: "cli_fingerprint env consumed = ?fp"
    by (simp add: consumed_def set_consumed_def clear_claims_def cli_fingerprint_def job_input_fingerprint_def job_request_def)
  have receipt: "j_cli_accept_receipt consumed = Some (receipt_for env ?e nonce uid ?fp pin)"
    using assms(1-4) by (simp add: consumed_def set_consumed_def cli_accept_receipt_def receipt_for_def py_or_def)
  have "receipt_for env ?e nonce uid ?fp pin = receipt_for env ?e n (cs_peer_uid q) ?fp (cs_pinned_address q) \<longleftrightarrow>
      n = nonce \<and> cs_peer_uid q = uid \<and> cs_pinned_address q = pin"
    unfolding receipt_for_def using inj_on_eq_iff [OF assms(9)] receipt_payload_inject [OF assms(8)] by auto
  moreover have c: "j_state consumed = CONSUMED" "j_enrollment_id consumed = ?e" "j_cli_resume_nonce consumed = None"
    "j_cli_pinned_address consumed = None"
    by (simp_all add: consumed_def set_consumed_def clear_claims_def)
  ultimately show ?thesis
    using assms(5-7) by (auto simp: resume_cli_def Let_def fp receipt c raising_def give_def)
qed

end
