(* ===== verification/Startup_Convergence.thy ===== *)
theory Startup_Convergence
  imports Flow_Safety
begin

text \<open>
  The convergence of automatic enrollments at start-up: what \<open>_recover_auto_startup\<close> leaves of the jobs
  that an earlier process of the Manager had pending or running.
\<close>

section \<open>Writes and the other rows\<close>

lemma replace_others:
  assumes "db_ok d" and "replace_if_state j st None None None d = Inr (v, d')" and "k \<noteq> j_enrollment_id j"
  shows "journal_get k d' = journal_get k d"
proof -
  let ?P = "\<lambda>r. row_id r = j_enrollment_id j \<and> j_state (row_job r) = st"
  have u: "update_jobs ?P (set_job (\<lambda>x. j\<lparr>j_enrollment_id := j_enrollment_id x\<rparr>)) d = Some d'"
    using assms(2) by (auto simp: replace_if_state_def fence_matches_def Let_def split: sum.splits if_splits option.splits)
  have "journal_get k d' = map_option (\<lambda>x. if k = j_enrollment_id j \<and> j_state x = st
      then j\<lparr>j_enrollment_id := j_enrollment_id x\<rparr> else x) (journal_get k d)"
    by (rule keyed_update_get [OF assms(1) u]) auto
  then show ?thesis using assms(3) by (simp add: option.map_ident)
qed

lemma claim_auto_others:
  assumes "db_ok d" and "claim_pending_auto e now d = Inr (v, d')" and "k \<noteq> e"
  shows "journal_get k d' = journal_get k d"
proof -
  obtain d1 where u1: "update_jobs (\<lambda>r. row_id r = e \<and> j_state (row_job r) = PENDING \<and>
      j_expires_at (row_job r) \<le> now) (set_job (set_expired now)) d = Some d1"
    and u2: "update_jobs (\<lambda>r. row_id r = e \<and> j_state (row_job r) = PENDING \<and>
      now < j_expires_at (row_job r)) (set_job (set_moved RUNNING now)) d1 = Some d'"
    using assms(2) by (auto simp: claim_pending_auto_def Let_def split: option.splits if_splits)
  have ok1: "db_ok d1" by (rule update_jobs_set_job_ok [OF assms(1) u1]) simp
  show ?thesis
    using keyed_update_get [OF assms(1) u1, of e "\<lambda>j. j_state j = PENDING \<and> j_expires_at j \<le> now" k]
      keyed_update_get [OF ok1 u2, of e "\<lambda>j. j_state j = PENDING \<and> now < j_expires_at j" k] assms(3)
    by (simp add: option.map_ident)
qed

section \<open>One job\<close>

text \<open>
  What start-up makes of a stored job, with the tasks of the process before and after: jobs of other methods are left
  alone; a pending automatic enrollment is handed to the operator's CLI when its SSH adapter is missing or unhealthy,
  expired when it is overdue, and otherwise running with a task of this process; one that was running without a
  credential and without a task of this process is handed to the CLI, its claim withdrawn; the rest is left alone.
\<close>

definition converged ::
  "issuing_env \<Rightarrow> instant \<Rightarrow> string list \<Rightarrow> string list \<Rightarrow> enrollment_job \<Rightarrow> enrollment_job \<Rightarrow> bool" where
  "converged env now tasks tasks' j j' =
     (if j_enrollment_method j \<noteq> SSH_AUTO \<and> j_enrollment_method j \<noteq> SSH_SERVICE_KEY then j' = j
      else if j_state j = PENDING \<and> adapter_of env (j_enrollment_method j) \<noteq> Some True
      then j' = j\<lparr>j_state := AWAITING_CLI, j_enrollment_method := SSH_CLI, j_last_error_code := Some ''ssh_unavailable'',
        j_updated_at := now\<rparr>
      else if j_state j = PENDING \<and> j_expires_at j \<le> now then j' = j\<lparr>j_state := EXPIRED, j_updated_at := now\<rparr>
      else if j_state j = PENDING then j' = j\<lparr>j_state := RUNNING, j_updated_at := now\<rparr> \<and> j_enrollment_id j \<in> set tasks'
      else if j_state j = RUNNING \<and> j_credential_temp_ref j = None \<and> j_enrollment_id j \<notin> set tasks
      then j' = j\<lparr>j_state := AWAITING_CLI, j_enrollment_method := SSH_CLI, j_last_error_code := Some ''ssh_interaction_required'',
        j_recovery_owner := None, j_recovery_lease_until := None, j_recovery_revision := j_recovery_revision j + 1,
        j_updated_at := now\<rparr>
      else j' = j)"

lemma converged_tasks:
  "converged env now t1 t2 j j' \<Longrightarrow> j_enrollment_id j \<in> set t1 \<longleftrightarrow> j_enrollment_id j \<in> set t \<Longrightarrow> set t2 \<subseteq> set t' \<Longrightarrow>
    converged env now t t' j j'"
  unfolding converged_def by (auto split: if_splits)

lemma converged_attended:
  assumes "converged env now t t' j j'" and "set t \<subseteq> set t'"
  shows "j_enrollment_method j' \<in> {SSH_AUTO, SSH_SERVICE_KEY} \<longrightarrow>
    j_state j' \<noteq> PENDING \<and> (j_state j' = RUNNING \<longrightarrow> j_credential_temp_ref j' = None \<longrightarrow> j_enrollment_id j \<in> set t')"
proof -
  consider "j_state j' \<in> {AWAITING_CLI, EXPIRED}" | "j_state j' = RUNNING" "j_enrollment_id j \<in> set t'"
    | "j' = j" "j_enrollment_method j \<notin> {SSH_AUTO, SSH_SERVICE_KEY}"
    | "j' = j" "j_state j \<noteq> PENDING" "\<not> (j_state j = RUNNING \<and> j_credential_temp_ref j = None \<and> j_enrollment_id j \<notin> set t)"
    using assms(1) unfolding converged_def by (simp split: if_splits)
  then show ?thesis using assms(2) by cases auto
qed

definition converges :: "issuing_env \<Rightarrow> enrollment_job \<Rightarrow> recovery_world \<Rightarrow> recovery_world \<Rightarrow> bool" where
  "converges env j w w' \<longleftrightarrow> (\<exists>k j'. journal_get (j_enrollment_id j) (rw_db w') = Some j' \<and>
     converged env (v_clock (i_run env) k) (rw_tasks w) (rw_tasks w') j j')"

definition advances :: "issuing_env \<Rightarrow> enrollment_job \<Rightarrow> recovery_world \<Rightarrow> recovery_world \<Rightarrow> bool" where
  "advances env j w w' \<longleftrightarrow> db_ok (rw_db w') \<and> converges env j w w' \<and> set (rw_tasks w) \<subseteq> set (rw_tasks w') \<and>
     set (rw_tasks w') \<subseteq> insert (j_enrollment_id j) (set (rw_tasks w)) \<and>
     (\<forall>k. k \<noteq> j_enrollment_id j \<longrightarrow> journal_get k (rw_db w') = journal_get k (rw_db w))"

lemma startup_replaced:
  assumes "db_ok (rw_db w)" and "then_do (clock env) (\<lambda>now. then_do (replace_now (f now) st) (\<lambda>_. give ())) w = (Inr (), w')"
    and "\<And>now. j_enrollment_id (f now) = j_enrollment_id j" and "\<And>now. converged env now (rw_tasks w) (rw_tasks w) j (f now)"
  shows "advances env j w w'"
proof -
  obtain v d' where r: "replace_if_state (f (v_clock (i_run env) (rw_tick w))) st None None None (rw_db w) = Inr (v, d')"
    and w': "w' = w\<lparr>rw_tick := Suc (rw_tick w), rw_db := d'\<rparr>"
    using assms(2) by (auto simp: clock_def now_at_def then_do_def step_def give_def replace_now_def transact_def split: sum.splits)
  then show ?thesis
    using replace_unfenced [OF assms(1) r] replace_others [OF assms(1) r] assms(3,4) by (auto simp: advances_def converges_def)
qed

lemma startup_dispatched:
  assumes "db_ok (rw_db w)" and "\<forall>k. \<not> i_closing env k"
    and "then_do (clock env) (\<lambda>now. then_do (transact (claim_pending_auto (j_enrollment_id j) now)) (\<lambda>claimed. case claimed of
      None \<Rightarrow> give () | Some running \<Rightarrow> schedule_auto env running)) w = (Inr (), w')"
    and "journal_get (j_enrollment_id j) (rw_db w) = Some j" and "j_state j = PENDING"
    and "j_enrollment_method j \<in> {SSH_AUTO, SSH_SERVICE_KEY}" and "adapter_of env (j_enrollment_method j) = Some True"
  shows "advances env j w w'"
proof -
  let ?now = "v_clock (i_run env) (rw_tick w)" and ?e = "j_enrollment_id j"
  obtain v d' where c: "claim_pending_auto ?e ?now (rw_db w) = Inr (v, d')"
    and w': "rw_db w' = d'" "set (rw_tasks w') = set (rw_tasks w) \<union> j_enrollment_id ` set_option v"
    using assms(2,3)
    by (auto simp: clock_def now_at_def then_do_def step_def give_def transact_def schedule_auto_def closing_def insert_absorb
        split: sum.splits option.splits if_splits)
  have "db_ok d'" using claim_pending_auto_advance [OF assms(1) c] by simp
  moreover have "converges env j w w'"
    using claim_auto_get [OF assms(1) c] assms(4-7) w'
    by (auto simp: converges_def converged_def set_expired_def set_moved_def intro!: exI [of _ "rw_tick w"])
  moreover have "j_enrollment_id ` set_option v \<subseteq> {?e}"
    using claim_auto_get(2) [OF assms(1) c] assms(4) by (auto simp: set_moved_def split: if_splits)
  ultimately show ?thesis using claim_auto_others [OF assms(1) c] w' by (auto simp: advances_def)
qed

lemma startup_one_advances:
  assumes "db_ok (rw_db w)" and "\<forall>k. \<not> i_closing env k" and "journal_get (j_enrollment_id j) (rw_db w) = Some j"
    and "startup_one env j w = (Inr (), w')"
  shows "advances env j w w'"
proof -
  let ?e = "j_enrollment_id j" and ?m = "j_enrollment_method j"
  have skip: "advances env j w w" if "\<And>now. converged env now (rw_tasks w) (rw_tasks w) j j"
    using assms(1,3) that by (auto simp: advances_def converges_def)
  show ?thesis
  proof (cases "?m \<in> {SSH_AUTO, SSH_SERVICE_KEY}")
    case False
    then have "w' = w" using assms(4) by (cases ?m) (simp_all add: startup_one_def ssh_methods_def give_def)
    then show ?thesis using skip False by (auto simp: converged_def)
  next
    case True
    then have m: "?m \<in> set ssh_methods" "?m \<noteq> SSH_CLI" by (auto simp: ssh_methods_def)
    note one = assms(4) [unfolded startup_one_def]
    consider "j_state j = PENDING" "adapter_of env ?m = Some True" | "j_state j = PENDING" "adapter_of env ?m \<noteq> Some True"
      | "j_state j \<noteq> PENDING" "j_state j = RUNNING \<and> j_credential_temp_ref j = None \<and> ?e \<notin> set (rw_tasks w)"
      | "j_state j \<noteq> PENDING" "\<not> (j_state j = RUNNING \<and> j_credential_temp_ref j = None \<and> ?e \<notin> set (rw_tasks w))" by blast
    then show ?thesis
    proof cases
      case 1
      show ?thesis by (rule startup_dispatched [OF assms(1,2) _ assms(3) 1(1) True 1(2)]) (use one m True 1 in simp)
    next
      case 2
      show ?thesis
        by (rule startup_replaced [OF assms(1), where f = "\<lambda>now. awaiting_cli now j" and st = PENDING and env = env])
          (use one m True 2 in \<open>auto simp: awaiting_cli_def converged_def\<close>)
    next
      case 3
      show ?thesis
        by (rule startup_replaced [OF assms(1), where f = "\<lambda>now. interrupted now j" and st = RUNNING and env = env])
          (use one m True 3 in \<open>auto simp: interrupted_def converged_def\<close>)
    next
      case 4
      then have "w' = w" using one m True by (simp add: give_def split: if_splits)
      then show ?thesis using skip 4 by (auto simp: converged_def)
    qed
  qed
qed

section \<open>All jobs\<close>

lemma startup_loop:
  assumes "db_ok (rw_db w)" and "\<forall>k. \<not> i_closing env k" and "distinct (map j_enrollment_id js)"
    and "\<forall>j\<in>set js. journal_get (j_enrollment_id j) (rw_db w) = Some j"
    and "for_each (startup_one env) js w = (Inr (), w')"
  shows "(\<forall>j\<in>set js. converges env j w w') \<and> set (rw_tasks w) \<subseteq> set (rw_tasks w') \<and>
    (\<forall>k. k \<notin> j_enrollment_id ` set js \<longrightarrow> journal_get k (rw_db w') = journal_get k (rw_db w))"
  using assms
proof (induction js arbitrary: w)
  case Nil
  then show ?case by (simp add: give_def)
next
  case (Cons j js)
  let ?e = "j_enrollment_id j"
  obtain w1 where one: "startup_one env j w = (Inr (), w1)" and rest: "for_each (startup_one env) js w1 = (Inr (), w')"
    using Cons.prems(5) by (auto simp: then_do_def split: prod.splits sum.splits)
  have adv: "advances env j w w1" by (rule startup_one_advances [OF Cons.prems(1,2) _ one]) (use Cons.prems(4) in simp)
  have "\<forall>k\<in>set js. journal_get (j_enrollment_id k) (rw_db w1) = Some k"
    using adv Cons.prems(3,4) by (auto simp: advances_def image_iff)
  with Cons.IH [OF _ Cons.prems(2) _ _ rest] adv Cons.prems(3)
  have ih: "\<forall>k\<in>set js. converges env k w1 w'" "set (rw_tasks w1) \<subseteq> set (rw_tasks w')"
    "\<forall>k. k \<notin> j_enrollment_id ` set js \<longrightarrow> journal_get k (rw_db w') = journal_get k (rw_db w1)"
    by (auto simp: advances_def)
  have "converges env k w w'" if "k \<in> set js" for k
  proof -
    have "j_enrollment_id k \<noteq> ?e" using Cons.prems(3) that by (auto simp: image_iff)
    then have "j_enrollment_id k \<in> set (rw_tasks w1) \<longleftrightarrow> j_enrollment_id k \<in> set (rw_tasks w)" using adv by (auto simp: advances_def)
    then show ?thesis using ih(1) that converged_tasks [of env _ "rw_tasks w1" "rw_tasks w'" k _ "rw_tasks w" "rw_tasks w'"]
      unfolding converges_def by blast
  qed
  moreover have "converges env j w w'"
  proof -
    have "?e \<notin> j_enrollment_id ` set js" using Cons.prems(3) by simp
    then have "journal_get ?e (rw_db w') = journal_get ?e (rw_db w1)" using ih(3) by simp
    then show ?thesis
      using adv ih(2) converged_tasks [of env _ "rw_tasks w" "rw_tasks w1" j _ "rw_tasks w" "rw_tasks w'"]
      unfolding advances_def converges_def by fastforce
  qed
  ultimately show ?case using ih adv by (auto simp: advances_def)
qed

text \<open>
  \<open>C11\<close>.  Start-up converges the automatic enrollments of an earlier process.  When it finishes (and the Manager is not
  shutting down), every job of the journal is as \<open>converged\<close> says: a pending automatic enrollment has been handed to the
  operator's CLI, expired, or started with a task of this process; a running one without credential that nobody works on
  has been handed to the CLI and its claim withdrawn; every other job is unchanged.  So no automatic enrollment is left
  pending, and each that is running without a credential has a task.
\<close>

theorem startup_leaves_no_unattended_job:
  assumes "db_ok (rw_db w)" and "\<forall>k. \<not> i_closing env k" and "recover_auto_startup env w = (Inr (), w')"
    and "journal_get e (rw_db w) = Some j"
  shows "\<exists>k j'. journal_get e (rw_db w') = Some j' \<and>
    converged env (v_clock (i_run env) k) (rw_tasks w) (rw_tasks w') j j' \<and>
    (j_enrollment_method j' \<in> {SSH_AUTO, SSH_SERVICE_KEY} \<longrightarrow>
      j_state j' \<noteq> PENDING \<and> (j_state j' = RUNNING \<longrightarrow> j_credential_temp_ref j' = None \<longrightarrow> e \<in> set (rw_tasks w')))"
proof -
  let ?js = "list_non_terminal (rw_db w)"
  have loop: "for_each (startup_one env) ?js w = (Inr (), w')"
    using assms(3) by (simp add: recover_auto_startup_def then_do_def reading_def)
  have get: "\<forall>k\<in>set ?js. journal_get (j_enrollment_id k) (rw_db w) = Some k"
    using journal_get_iff [OF assms(1)] by (auto simp: list_non_terminal_def)
  have "distinct (map j_enrollment_id (filter (\<lambda>j. \<not> terminal (j_state j)) (map row_job (db_jobs (rw_db w)))))"
    using db_ok_unique [OF assms(1)] by (simp add: jobs_unique_def distinct_map_filter comp_def)
  then have "distinct (map j_enrollment_id ?js)"
    by (simp add: list_non_terminal_def distinct_map)
  note all = startup_loop [OF assms(1,2) this get loop]
  have id: "j_enrollment_id j = e" by (rule journal_get_id [OF assms(4)])
  obtain k j' where j': "journal_get e (rw_db w') = Some j'" "converged env (v_clock (i_run env) k) (rw_tasks w) (rw_tasks w') j j'"
  proof (cases "j \<in> set ?js")
    case True
    then have "converges env j w w'" using all by blast
    then show thesis using that id by (auto simp: converges_def)
  next
    case False
    then have t: "terminal (j_state j)" using assms(4) journal_get_iff [OF assms(1)] by (force simp: list_non_terminal_def)
    have "e \<notin> j_enrollment_id ` set ?js" using False get assms(4) by auto
    then have "journal_get e (rw_db w') = Some j" using all assms(4) by simp
    moreover have "j_state j \<noteq> PENDING" "j_state j \<noteq> RUNNING" using t by (auto simp: terminal_def)
    then have "converged env (v_clock (i_run env) 0) (rw_tasks w) (rw_tasks w') j j" by (simp add: converged_def)
    ultimately show thesis by (rule that)
  qed
  have tasks: "set (rw_tasks w) \<subseteq> set (rw_tasks w')" using all by simp
  show ?thesis
    by (intro exI [of _ k] exI [of _ j'] conjI j' converged_attended [OF j'(2) tasks, unfolded id])
qed

end
