(* ===== verification/Flow_Results.thy ===== *)
theory Flow_Results
  imports Startup_Convergence
begin

text \<open>The theorems on the enrollment flows at concrete worlds.\<close>

section \<open>Samples\<close>

definition issuing_sample :: issuing_env where
  "issuing_sample = \<lparr>i_run = calm_env,
     i_jobs = \<lparr>jc_manager_id = uuid1, jc_pending_ttl_seconds = 600, jc_max_active = 8, jc_discovery_retention_seconds = 86400\<rparr>,
     i_uuid = (\<lambda>_. uuid2), i_ref = (\<lambda>_. ''aa23456789abcdef0123456789abcdef0123456789abcdef''), i_audit = True,
     i_audit_ok = (\<lambda>_. True), i_closing = (\<lambda>_. False), i_cancelled = (\<lambda>_. False), i_adapter = (\<lambda>_. Some True),
     i_service_key = False, i_helper = (\<lambda>_. Inl OtherFailure), i_name = (\<lambda>_. None)\<rparr>"

definition helper_sample :: helper_result where
  "helper_sample = \<lparr>h_instance_id = ''inst-1'', h_credential_id = ''cred-1'', h_token = ''secret'',
     h_target = \<lparr>vt_normalized_endpoint = ''http://10.0.0.7:8100'', vt_scheme = ''http'', vt_hostname = ''10.0.0.7'',
       vt_port = 8100, vt_resolved_addresses = [V4 [10, 0, 0, 7]], vt_pinned_address = V4 [10, 0, 0, 7],
       vt_host_header = ''10.0.0.7:8100'', vt_sni_hostname = None, vt_warning_code = None, vt_profile = lan_profile\<rparr>\<rparr>"

definition dispatched_job :: "string \<Rightarrow> enrollment_job" where
  "dispatched_job e = (pending_job e)\<lparr>j_state := RUNNING\<rparr>"

abbreviation running_world :: recovery_world where
  "running_world \<equiv> world_of (with_jobs [dispatched_job ''e8''])"

section \<open>Witnesses\<close>

theorem published_credential_is_stored_witness:
  "\<exists>j ref. fst (publish_issued issuing_sample (dispatched_job ''e8'') helper_sample SSH_AUTO running_world) = Inr j \<and>
    j_credential_temp_ref j = Some ref \<and>
    ref \<in> set (rw_creds (snd (publish_issued issuing_sample (dispatched_job ''e8'') helper_sample SSH_AUTO running_world)))"
proof -
  let ?p = "publish_issued issuing_sample (dispatched_job ''e8'') helper_sample SSH_AUTO running_world"
  have ok: "db_ok (rw_db running_world)" by code_simp
  have "isl (fst ?p) = False" by code_simp
  then obtain j where "fst ?p = Inr j" by (metis isl_def sum.exhaust)
  then show ?thesis
    using published_credential_is_stored [OF ok, of issuing_sample "dispatched_job ''e8''" helper_sample SSH_AUTO "fst ?p" "snd ?p"]
      surjective_pairing [of ?p] by auto
qed

theorem orphan_sweep_is_exact_witness:
  "rw_creds (snd (cleanup_orphans issuing_sample (world_of registry_db))) = [ref1] \<and>
   rw_creds (snd (cleanup_orphans issuing_sample running_world)) = []"
proof -
  let ?a = "cleanup_orphans issuing_sample (world_of registry_db)" and ?b = "cleanup_orphans issuing_sample running_world"
  have r: "fst ?a = Inr ()" "fst ?b = Inr ()" by code_simp+
  have refs: "\<exists>a\<in>set (db_agents registry_db). a_credential_ref a = ref1"
    "db_agents (with_jobs [dispatched_job ''e8'']) = []"
    "\<forall>row\<in>set (db_jobs (with_jobs [dispatched_job ''e8''])).
      j_credential_temp_ref (row_job row) = None \<and> j_old_credential_ref (row_job row) = None" by code_simp+
  have "credential_ref_re ref1" by code_simp
  then show ?thesis
    using orphan_sweep_is_exact [of issuing_sample "world_of registry_db" "fst ?a" "snd ?a"]
      orphan_sweep_is_exact [of issuing_sample running_world "fst ?b" "snd ?b"] r refs
    by (auto simp: world_of_def)
qed

definition move_agent :: agent_change where
  "move_agent = \<lparr>u_display_name = None, u_enabled = Some False, u_base_url = Some ''http://10.0.0.9:80'',
     u_transport_profile_id = None, u_legacy_token = None\<rparr>"

definition says :: "string \<Rightarrow> string \<times> string option" where
  "says v = (''http://10.0.0.9:80'', Some ''inst-a'')"

lemma registry_manager_ok: "manager_ok registry_db"
  by code_simp

theorem update_agent_spec_witness:
  "\<exists>a. fst (update_agent issuing_sample says ''a'' move_agent (world_of registry_db)) = Inr a \<and>
    a_revision a = 4 \<and> a_instance_id a = Some ''inst-a''"
proof -
  let ?p = "update_agent issuing_sample says ''a'' move_agent (world_of registry_db)"
  have ok: "manager_ok (rw_db (world_of registry_db))" by (simp add: world_of_def registry_manager_ok)
  have "isl (fst ?p) = False" by code_simp
  then obtain a where a: "fst ?p = Inr a" by (metis isl_def sum.exhaust)
  have g: "agent_get ''a'' (rw_db (world_of registry_db)) = Some (sample_agent ''a'' ''http://10.0.0.1:80'')"
    by (simp add: world_of_def registry_db_def agent_get_def sample_agent_def)
  show ?thesis
    using update_agent_spec [OF ok, of issuing_sample says "''a''" move_agent "fst ?p" "snd ?p"] a g surjective_pairing [of ?p]
    by (auto simp: sample_agent_def)
qed

definition verifying_job :: "string \<Rightarrow> enrollment_job" where
  "verifying_job e = (issued_job e)\<lparr>j_state := VERIFYING\<rparr>"

theorem overtaken_claim_fails_saved_job_witness:
  "\<exists>c d'. overtaken_claim (\<lambda>_. hex1) ''e8'' uuid2 60 ''rack 8'' ''agent_network_error'' (\<lambda>k. 1000) (with_jobs [verifying_job ''e8'']) =
      Some (c, True, d') \<and> j_state c = ACTIVATION_REQUESTED \<and> map_option j_state (journal_get ''e8'' d') = Some FAILED"
proof -
  let ?o = "overtaken_claim (\<lambda>_. hex1) ''e8'' uuid2 60 ''rack 8'' ''agent_network_error'' (\<lambda>k. 1000) (with_jobs [verifying_job ''e8''])"
  have ok: "db_ok (with_jobs [verifying_job ''e8''])" by code_simp
  have "Option.is_none ?o = False" by code_simp
  then obtain c b d' where o: "?o = Some (c, b, d')" by (auto simp: Option.is_none_def)
  have "(1000 :: int) < 1000 + seconds 60" by (simp add: seconds_def)
  from overtaken_claim_fails_saved_job [OF ok o this] o show ?thesis by auto
qed

definition cli_submission_sample :: cli_submission where
  "cli_submission_sample = \<lparr>cs_enrollment_id = ''c1'', cs_ssh_user = ''ops'', cs_ssh_host = ''10.0.0.7'', cs_ssh_port = 22,
     cs_pinned_address = ''10.0.0.7'', cs_peer_uid = 1000, cs_resume_nonce = Some uuid2\<rparr>"

theorem cli_receipt_round_trip_witness:
  "\<exists>c. fst (resume_cli issuing_sample cli_submission_sample 4
      (set_consumed (Some (cli_accept_receipt calm_env (cli_job ''c1''))) 5 (cli_job ''c1'')) uuid2 running_world) = Inr c \<and>
    cc_already_accepted c"
proof -
  have fp: "j_cli_input_fingerprint (cli_job ''c1'') = Some (cli_fingerprint issuing_sample (cli_job ''c1''))"
    by (simp add: cli_job_def cli_fingerprint_def job_input_fingerprint_def enrollment_input_fingerprint_def issuing_sample_def calm_env_def)
  have u: "uuid_canonical uuid2" "canonical_ip ''10.0.0.7''" by code_simp+
  have p: "prefixable [j_enrollment_id (cli_job ''c1''), uuid2, show_int 1000, cli_fingerprint issuing_sample (cli_job ''c1''),
      ''10.0.0.7'', uuid2, show_int (cs_peer_uid cli_submission_sample), cs_pinned_address cli_submission_sample]"
    by code_simp
  show ?thesis
    using cli_receipt_round_trip [OF _ _ fp _ u _ p, of 5 4 running_world]
    by (simp add: cli_job_def cli_submission_sample_def issuing_sample_def)
qed

theorem startup_leaves_no_unattended_job_witness:
  "\<exists>k j'. journal_get ''e8'' (rw_db (snd (recover_auto_startup issuing_sample running_world))) = Some j' \<and>
    j' = (dispatched_job ''e8'')\<lparr>j_state := AWAITING_CLI, j_enrollment_method := SSH_CLI,
      j_last_error_code := Some ''ssh_interaction_required'', j_recovery_owner := None, j_recovery_lease_until := None,
      j_recovery_revision := j_recovery_revision (dispatched_job ''e8'') + 1, j_updated_at := v_clock (i_run issuing_sample) k\<rparr>"
proof -
  let ?p = "recover_auto_startup issuing_sample running_world"
  have ok: "db_ok (rw_db running_world)" by code_simp
  have c: "\<forall>k. \<not> i_closing issuing_sample k" by (simp add: issuing_sample_def)
  have "fst ?p = Inr ()" by code_simp
  then have p: "?p = (Inr (), snd ?p)" by (metis prod.collapse)
  have j: "journal_get ''e8'' (rw_db running_world) = Some (dispatched_job ''e8'')" by code_simp
  have f: "j_enrollment_method (dispatched_job ''e8'') = SSH_AUTO" "j_state (dispatched_job ''e8'') = RUNNING"
    "j_credential_temp_ref (dispatched_job ''e8'') = None" "j_enrollment_id (dispatched_job ''e8'') \<notin> set (rw_tasks running_world)"
    by code_simp+
  obtain k j' where j': "journal_get ''e8'' (rw_db (snd ?p)) = Some j'"
      "converged issuing_sample (v_clock (i_run issuing_sample) k) (rw_tasks running_world) (rw_tasks (snd ?p)) (dispatched_job ''e8'') j'"
    using startup_leaves_no_unattended_job [OF ok c p j] by blast
  then show ?thesis by (intro exI [of _ k] exI [of _ j']) (simp add: converged_def f)
qed

end
