(* ===== verification/Discovery_Service.thy ===== *)
theory Discovery_Service
  imports Manager_System Recovery_Saga
begin

text \<open>
  \<open>DiscoveryService\<close> of \<open>discovery/service.py\<close>: the targets of a scope, the workers that probe them, the end
  of a scan, starting, cancelling and resuming scans, and the classification of results.

  The workers of a scan run as coroutines.  A \<open>scan\<close> is the database, the shared queue, where each worker stands and
  the probes made so far; \<open>worker_step env i\<close> runs worker \<open>i\<close> to its next \<open>await\<close> or to the head of its loop, after
  what other threads and processes committed meanwhile.  A schedule is a list of worker indices, so a theorem about
  all schedules is one about all interleavings.  The environment, indexed by a counter, decides the clock, whether the
  deadline has passed, what a probe finds, whether a storage call raises (\<open>sqlite3.Error\<close>, a full or locked
  database) and when the task is cancelled.  The semaphore that all scans of the service share is not modelled: a
  schedule may run a worker at any time, which includes what the semaphore allows.
\<close>

section \<open>Targets of a scope\<close>

record discovery_endpoint =
  en_port :: int
  en_transport_profile_id :: string

record discovery_scope =
  so_id :: string
  so_name :: string
  so_cidr :: network
  so_endpoints :: "discovery_endpoint list"

fun ip_of_int :: "network \<Rightarrow> int \<Rightarrow> ip" where
  "ip_of_int (Net4 _ _) n = V4 (map (\<lambda>e. nat (n div 256 ^ e mod 256)) [3, 2, 1, 0])"
| "ip_of_int (Net6 _ _) n = V6 (map (\<lambda>e. nat (n div 65536 ^ e mod 65536)) [7, 6, 5, 4, 3, 2, 1, 0]) None"

text \<open>\<open>hosts()\<close> of \<open>ipaddress\<close>: the last two prefix lengths yield every address.\<close>

definition host_ints :: "network \<Rightarrow> int list" where
  "host_ints n = (let first = net_int n; size = 2 ^ net_shift n in
     if net_shift n \<le> 1 then [first .. first + size - 1]
     else case n of Net4 _ _ \<Rightarrow> [first + 1 .. first + size - 2] | Net6 _ _ \<Rightarrow> [first + 1 .. first + size - 1])"

definition profile_scheme :: "transport_profile \<Rightarrow> string" where
  "profile_scheme p = (case p of TrustedLanHttp _ _ \<Rightarrow> ''http'' | _ \<Rightarrow> ''https'')"

definition find_profile :: "transport_profile list \<Rightarrow> string \<Rightarrow> transport_profile option" where
  "find_profile profiles i = find (\<lambda>p. profile_id p = i) (rev profiles)"

text \<open>\<open>None\<close> is the \<open>KeyError\<close> of a profile that is not configured.\<close>

definition endpoint_target :: "transport_profile list \<Rightarrow> string \<Rightarrow> discovery_endpoint \<Rightarrow> discovery_target option" where
  "endpoint_target profiles address en = (case find_profile profiles (en_transport_profile_id en) of None \<Rightarrow> None
     | Some p \<Rightarrow> Some \<lparr>t_ip = address, t_port = en_port en, t_transport_profile_id = profile_id p, t_scheme = profile_scheme p\<rparr>)"

definition scope_targets :: "transport_profile list \<Rightarrow> discovery_scope \<Rightarrow> discovery_target list option" where
  "scope_targets profiles scope = all_some (concat (map (\<lambda>n. map (endpoint_target profiles (ip_str (ip_of_int (so_cidr scope) n)))
     (so_endpoints scope)) (host_ints (so_cidr scope))))"

section \<open>Workers\<close>

datatype probe_outcome = Matched string | Mismatched | ProbeTimeout | ProbeError string | ProbeFailed

datatype worker = Ready | Waiting discovery_target | Probing discovery_target | Ended

record scan =
  sc_db :: manager_db
  sc_queue :: "discovery_target list"
  sc_workers :: "worker list"
  sc_probes :: "discovery_target list"
  sc_tick :: nat

record service_env =
  s_profiles :: "transport_profile list"
  s_self_targets :: "string list"
  s_max_concurrency :: nat
  s_clock :: "nat \<Rightarrow> instant"
  s_expired :: "nat \<Rightarrow> bool"
  s_fault :: "nat \<Rightarrow> bool"
  s_cancelled :: "nat \<Rightarrow> bool"
  s_probe :: "nat \<Rightarrow> probe_outcome"
  s_uuid :: "nat \<Rightarrow> string"
  s_others :: "nat \<Rightarrow> manager_op list"
  s_recorder :: "discovery_job \<Rightarrow> manager_db \<Rightarrow> manager_db"

text \<open>A storage call: \<open>None\<close> when it raises.\<close>

definition stored :: "service_env \<Rightarrow> (nat \<Rightarrow> 'a store) \<Rightarrow> scan \<Rightarrow> 'a option \<times> scan" where
  "stored env f s = (let k = sc_tick s; s' = s\<lparr>sc_tick := Suc k\<rparr> in
     if s_fault env k then (None, s')
     else case f k (sc_db s) of Inl _ \<Rightarrow> (None, s') | Inr (v, d) \<Rightarrow> (Some v, s'\<lparr>sc_db := d\<rparr>))"

definition at_worker :: "nat \<Rightarrow> worker \<Rightarrow> scan \<Rightarrow> scan" where
  "at_worker i x s = s\<lparr>sc_workers := (sc_workers s)[i := x]\<rparr>"

definition record_and_loop ::
  "service_env \<Rightarrow> string \<Rightarrow> nat \<Rightarrow> discovery_target \<Rightarrow> string option \<Rightarrow> string option \<Rightarrow> scan \<Rightarrow> scan" where
  "record_and_loop env job_id i target fingerprint err s =
     (case stored env (\<lambda>k. record_result (s_uuid env k) job_id target fingerprint err (s_clock env k)) s of
        (None, s') \<Rightarrow> at_worker i Ended s' | (Some _, s') \<Rightarrow> at_worker i Ready s')"

definition merging :: "service_env \<Rightarrow> string \<Rightarrow> dispatch_state \<Rightarrow> scan \<Rightarrow> discovery_job option \<times> scan" where
  "merging env job_id incoming = stored env (\<lambda>k. merge_dispatch job_id incoming (s_clock env k))"

definition safe_probe_errors :: "string list" where
  "safe_probe_errors = [''timeout'', ''network_error'', ''fingerprint_too_large'', ''transport_profile_unknown'',
     ''transport_profile_mismatch'']"

definition mismatched :: "service_env \<Rightarrow> discovery_target \<Rightarrow> bool" where
  "mismatched env t \<longleftrightarrow> (case find_profile (s_profiles env) (t_transport_profile_id t) of None \<Rightarrow> True
     | Some p \<Rightarrow> t_scheme t \<noteq> profile_scheme p)"

definition take_target :: "service_env \<Rightarrow> string \<Rightarrow> nat \<Rightarrow> scan \<Rightarrow> scan" where
  "take_target env job_id i s = (case sc_queue s of [] \<Rightarrow> at_worker i Ended s
     | target # rest \<Rightarrow>
       (case stored env (\<lambda>_ d. Inr (get_job job_id d, d)) s of
          (Some (Some job), s1) \<Rightarrow>
            if d_cancel_requested job \<or> s_expired env (sc_tick s1) then at_worker i Ended s1
            else let s2 = s1\<lparr>sc_queue := rest\<rparr> in
              if t_ip target \<in> set (s_self_targets env)
              then record_and_loop env job_id i target None (Some ''self_target_forbidden'') s2
              else if mismatched env target
              then record_and_loop env job_id i target None (Some ''transport_profile_mismatch'') s2
              else at_worker i (Waiting target) s2
        | (_, s1) \<Rightarrow> at_worker i Ended s1))"

definition start_probe :: "service_env \<Rightarrow> string \<Rightarrow> nat \<Rightarrow> discovery_target \<Rightarrow> scan \<Rightarrow> scan" where
  "start_probe env job_id i target s = (case merging env job_id Unknown s of
     (None, s1) \<Rightarrow> record_and_loop env job_id i target None (Some ''network_error'') s1
   | (Some _, s1) \<Rightarrow> at_worker i (Probing target) (s1\<lparr>sc_probes := sc_probes s1 @ [target]\<rparr>))"

definition end_probe :: "service_env \<Rightarrow> string \<Rightarrow> nat \<Rightarrow> discovery_target \<Rightarrow> probe_outcome \<Rightarrow> scan \<Rightarrow> scan" where
  "end_probe env job_id i target outcome s =
     (let answered = (\<lambda>fingerprint err. case merging env job_id Dispatched s of
            (None, s1) \<Rightarrow> record_and_loop env job_id i target fingerprint (Some ''network_error'') s1
          | (Some _, s1) \<Rightarrow> record_and_loop env job_id i target fingerprint err s1)
      in case outcome of
        Matched v \<Rightarrow> answered (Some v) None
      | Mismatched \<Rightarrow> answered None (Some ''fingerprint_mismatch'')
      | ProbeTimeout \<Rightarrow> record_and_loop env job_id i target None (Some ''timeout'') s
      | ProbeError code \<Rightarrow>
          let err = Some (if code \<in> set safe_probe_errors then code else ''fingerprint_error'') in
          if code \<in> {''network_error'', ''fingerprint_too_large''}
          then (case merging env job_id Dispatched s of (None, s1) \<Rightarrow> at_worker i Ended s1
             | (Some _, s1) \<Rightarrow> record_and_loop env job_id i target None err s1)
          else record_and_loop env job_id i target None err s
      | ProbeFailed \<Rightarrow> record_and_loop env job_id i target None (Some ''network_error'') s)"

definition worker_step :: "service_env \<Rightarrow> string \<Rightarrow> nat \<Rightarrow> scan \<Rightarrow> scan" where
  "worker_step env job_id i s =
     (if length (sc_workers s) \<le> i \<or> sc_workers s ! i = Ended then s
      else let k = sc_tick s;
        s0 = s\<lparr>sc_db := history run_manager (s_others env k) (sc_db s), sc_tick := Suc k\<rparr> in
        case sc_workers s ! i of
          Ready \<Rightarrow> take_target env job_id i s0
        | Waiting target \<Rightarrow> if s_cancelled env k then at_worker i Ended s0 else start_probe env job_id i target s0
        | Probing target \<Rightarrow> if s_cancelled env k then at_worker i Ended s0
            else end_probe env job_id i target (s_probe env k) s0
        | Ended \<Rightarrow> s0)"

fun run_schedule :: "service_env \<Rightarrow> string \<Rightarrow> nat list \<Rightarrow> scan \<Rightarrow> scan" where
  "run_schedule env job_id [] s = s"
| "run_schedule env job_id (i # is) s = run_schedule env job_id is (worker_step env job_id i s)"

definition all_ended :: "scan \<Rightarrow> bool" where
  "all_ended s \<longleftrightarrow> list_all (\<lambda>x. x = Ended) (sc_workers s)"

section \<open>A scan\<close>

definition target_key :: "discovery_target \<Rightarrow> string \<times> int \<times> string" where
  "target_key t = (t_ip t, t_port t, t_transport_profile_id t)"

definition begin_scan :: "service_env \<Rightarrow> string \<Rightarrow> discovery_target list \<Rightarrow> manager_db \<Rightarrow> scan option" where
  "begin_scan env job_id targets d =
     (case stored env (\<lambda>k. claim job_id (s_clock env k))
        \<lparr>sc_db = d, sc_queue = [], sc_workers = [], sc_probes = [], sc_tick = 0\<rparr> of
        (Some (Some current), s1) \<Rightarrow>
          (case stored env (\<lambda>_ d. Inr (result_keys job_id d, d)) s1 of
             (Some checked, s2) \<Rightarrow>
               let left = filter (\<lambda>t. target_key t \<notin> checked) targets in
               Some (s2\<lparr>sc_queue := left, sc_workers := replicate (min (s_max_concurrency env) (length left)) Ready\<rparr>)
           | _ \<Rightarrow> None)
      | _ \<Rightarrow> None)"

definition final_state :: "bool \<Rightarrow> discovery_job \<Rightarrow> discovery_state \<times> string option" where
  "final_state expired latest =
     (if d_cancel_requested latest then (DCancelled, None)
      else if expired \<and> d_checked_targets latest < d_total_targets latest then (DFailed, Some ''job_timeout'')
      else (DCompleted, None))"

definition end_scan :: "service_env \<Rightarrow> string \<Rightarrow> scan \<Rightarrow> discovery_job option \<times> scan" where
  "end_scan env job_id s =
     (case stored env (\<lambda>_ d. Inr (get_job job_id d, d)) s of
        (Some (Some latest), s1) \<Rightarrow>
          (case final_state (s_expired env (sc_tick s1)) latest of (st, err) \<Rightarrow>
             (case stored env (\<lambda>k. finish job_id st (s_clock env k) err) s1 of
                (Some finished, s2) \<Rightarrow> (Some finished, if active_discovery finished then s2
                  else s2\<lparr>sc_db := s_recorder env finished (sc_db s2)\<rparr>)
              | (None, s2) \<Rightarrow> (None, s2)))
      | (_, s1) \<Rightarrow> (None, s1))"

section \<open>The service\<close>

text \<open>
  Calls of the service, which return the error or the result and the database.  \<open>cf_recorder\<close> is the callback that
  reports the outcome of a job to the audit log.  The scans a call starts are part of its result; they run as above.
\<close>

datatype service_error = ServiceConflict string | ServiceStore store_error | UnknownProfile

record service_config =
  cf_scopes :: "discovery_scope list"
  cf_profiles :: "transport_profile list"
  cf_connect_timeout_ms :: int
  cf_max_targets :: int
  cf_job_timeout_seconds :: int
  cf_retention_seconds :: int
  cf_recorder :: "discovery_job \<Rightarrow> manager_db \<Rightarrow> manager_db"

definition scope_of :: "service_config \<Rightarrow> string \<Rightarrow> discovery_scope option" where
  "scope_of cfg i = find (\<lambda>s. so_id s = i) (rev (cf_scopes cfg))"

definition queued_job :: "service_config \<Rightarrow> string \<Rightarrow> string \<Rightarrow> int \<Rightarrow> nat \<Rightarrow> instant \<Rightarrow> discovery_job" where
  "queued_job cfg uuid scope_id audit_id n now = \<lparr>d_job_id = uuid, d_scope_id = scope_id, d_state = DQueued,
     d_total_targets = int n, d_checked_targets = 0, d_found_targets = 0, d_cancel_requested = False,
     d_safe_error_code = None, d_start_audit_event_id = audit_id,
     d_deadline_at = now + seconds (cf_job_timeout_seconds cfg), d_created_at = now, d_updated_at = now,
     d_completed_at = None, d_aggregate_dispatch_state = Not_Dispatched\<rparr>"

definition max_active_jobs :: int where
  "max_active_jobs = 32"

definition start_scan :: "service_config \<Rightarrow> bool \<Rightarrow> string \<Rightarrow> int \<Rightarrow> string \<Rightarrow> instant \<Rightarrow> instant \<Rightarrow> manager_db
    \<Rightarrow> (service_error + discovery_job \<times> discovery_target list) \<times> manager_db" where
  "start_scan cfg closing scope_id audit_id uuid now1 now2 d =
     (if closing then (Inl (ServiceConflict ''discovery_unavailable''), d)
      else case scope_of cfg scope_id of
        None \<Rightarrow> (Inl (ServiceConflict (if cf_scopes cfg = [] then ''discovery_disabled'' else ''discovery_scope_not_found'')), d)
      | Some scope \<Rightarrow>
        (case expire_deadlines now1 d of Inl e \<Rightarrow> (Inl (ServiceStore e), d)
         | Inr (expired, d0) \<Rightarrow>
           let d1 = fold (cf_recorder cfg) expired d0 in
           (case scope_targets (cf_profiles cfg) scope of None \<Rightarrow> (Inl UnknownProfile, d1)
            | Some targets \<Rightarrow>
              if cf_max_targets cfg < int (length targets) then (Inl (ServiceConflict ''discovery_target_limit''), d1)
              else (case create_job (queued_job cfg uuid scope_id audit_id (length targets) now2) max_active_jobs d1 of
                 Inl e \<Rightarrow> (Inl (ServiceStore e), d1)
               | Inr (job, d2) \<Rightarrow> (Inr (job, targets), d2)))))"

definition cancel_scan :: "service_config \<Rightarrow> string \<Rightarrow> instant \<Rightarrow> manager_op list \<Rightarrow> instant \<Rightarrow> manager_db
    \<Rightarrow> (service_error + discovery_job) \<times> manager_db" where
  "cancel_scan cfg job_id now1 others now2 d =
     (case request_cancel job_id now1 d of Inl e \<Rightarrow> (Inl (ServiceStore e), d)
      | Inr (_, d1) \<Rightarrow>
        let d2 = history run_manager others d1 in
        (case finish job_id DCancelled now2 None d2 of Inl e \<Rightarrow> (Inl (ServiceStore e), d2)
         | Inr (finished, d3) \<Rightarrow> (Inr finished, cf_recorder cfg finished d3)))"

fun resume_scans :: "service_config \<Rightarrow> instant \<Rightarrow> discovery_job list \<Rightarrow> manager_db
    \<Rightarrow> (service_error + (string \<times> discovery_target list) list) \<times> manager_db" where
  "resume_scans cfg now [] d = (Inr [], d)"
| "resume_scans cfg now (job # jobs) d = (case scope_of cfg (d_scope_id job) of
     None \<Rightarrow>
       (case finish (d_job_id job) DFailed now (Some ''scope_unavailable'') d of Inl e \<Rightarrow> (Inl (ServiceStore e), d)
        | Inr (finished, d1) \<Rightarrow> resume_scans cfg now jobs (cf_recorder cfg finished d1))
   | Some scope \<Rightarrow>
       (case scope_targets (cf_profiles cfg) scope of None \<Rightarrow> (Inl UnknownProfile, d)
        | Some targets \<Rightarrow>
          (case resume_scans cfg now jobs d of (r, d1) \<Rightarrow>
             (map_sum id (\<lambda>started. (d_job_id job, targets) # started) r, d1))))"

definition recover_scans :: "service_config \<Rightarrow> instant \<Rightarrow> manager_db
    \<Rightarrow> (service_error + (string \<times> discovery_target list) list) \<times> manager_db" where
  "recover_scans cfg now d =
     (case recover now d of Inl e \<Rightarrow> (Inl (ServiceStore e), d)
      | Inr ((resumable, ended), d0) \<Rightarrow>
        let d1 = fold (cf_recorder cfg) ended d0;
            d2 = fold (cf_recorder cfg) (terminal_jobs_with_pending_audit d1) d1 in
        (case cleanup (now - seconds (cf_retention_seconds cfg)) d2 of Inl e \<Rightarrow> (Inl (ServiceStore e), d2)
         | Inr (_, d3) \<Rightarrow> resume_scans cfg now resumable d3))"

definition classify :: "manager_db \<Rightarrow> discovery_result \<Rightarrow> string \<times> string option" where
  "classify d r =
     (let plain = (if dr_found r then (''new'', Some ''enrollment_required'') else (''unavailable'', None)) in
      if dr_found r \<and> find_duplicate None (dr_canonical_url r) d \<noteq> []
      then (''already_registered'', Some ''already_registered'')
      else if falsy (dr_linked_enrollment_id r) then plain
      else case journal_get (the (dr_linked_enrollment_id r)) d of None \<Rightarrow> plain
      | Some e \<Rightarrow> if j_state e = VERIFIED then (''new'', Some ''verified'')
          else if j_state e = CONSUMED then (''already_registered'', Some ''already_registered'')
          else if \<not> terminal (j_state e) then (''new'', Some ''enrolling'') else plain)"

end
