(* ===== verification/Scan_Properties.thy ===== *)
theory Scan_Properties
  imports Discovery_Service "HOL-Library.Multiset"
begin

text \<open>
  Properties of a discovery scan under every schedule of its workers and whatever others commit: what is probed,
  that the workers come to an end, and that an undisturbed scan checks every target.

  \<open>scan_move\<close> is the scan without its database: each step of a worker is one of five moves on the queue, the
  workers and the probes.
\<close>

section \<open>The moves of a worker\<close>

type_synonym scan_shape = "discovery_target list \<times> worker list \<times> discovery_target list"

definition shape :: "scan \<Rightarrow> scan_shape" where
  "shape s = (sc_queue s, sc_workers s, sc_probes s)"

definition permitted_probe :: "service_env \<Rightarrow> discovery_target \<Rightarrow> bool" where
  "permitted_probe env t \<longleftrightarrow> t_ip t \<notin> set (s_self_targets env) \<and> \<not> mismatched env t"

inductive scan_move :: "service_env \<Rightarrow> scan_shape \<Rightarrow> scan_shape \<Rightarrow> bool" for env where
  taken: "i < length ws \<Longrightarrow> ws ! i = Ready \<Longrightarrow> permitted_probe env t \<Longrightarrow>
    scan_move env (t # q, ws, ps) (q, ws[i := Waiting t], ps)"
| refused: "i < length ws \<Longrightarrow> ws ! i = Ready \<Longrightarrow> \<not> permitted_probe env t \<Longrightarrow> x \<in> {Ready, Ended} \<Longrightarrow>
    scan_move env (t # q, ws, ps) (q, ws[i := x], ps)"
| probed: "i < length ws \<Longrightarrow> ws ! i = Waiting t \<Longrightarrow> scan_move env (q, ws, ps) (q, ws[i := Probing t], ps @ [t])"
| returned: "i < length ws \<Longrightarrow> ws ! i = Waiting t \<or> ws ! i = Probing t \<Longrightarrow> x \<in> {Ready, Ended} \<Longrightarrow>
    scan_move env (q, ws, ps) (q, ws[i := x], ps)"
| ended: "i < length ws \<Longrightarrow> ws ! i = Ready \<Longrightarrow> scan_move env (q, ws, ps) (q, ws[i := Ended], ps)"

inductive_cases scan_moveE: "scan_move env a b"

lemma shape_stored: "stored env f s = (r, s') \<Longrightarrow> shape s' = shape s"
  by (auto simp: stored_def shape_def Let_def split: if_splits sum.splits prod.splits)

lemma shape_at_worker: "shape (at_worker i x s) = (sc_queue s, (sc_workers s)[i := x], sc_probes s)"
  by (simp add: shape_def at_worker_def)

lemma shape_record:
  "\<exists>x\<in>{Ready, Ended}. shape (record_and_loop env job_id i t fp err s) = (sc_queue s, (sc_workers s)[i := x], sc_probes s)"
  by (cases "stored env (\<lambda>k. record_result (s_uuid env k) job_id t fp err (s_clock env k)) s")
    (auto simp: record_and_loop_def shape_at_worker dest!: shape_stored split: option.splits simp: shape_def at_worker_def)

lemma merging_shape: "merging env job_id incoming s = (r, s') \<Longrightarrow> shape s' = shape s"
  unfolding merging_def by (rule shape_stored)

lemma shape_take:
  assumes "shape s = (q, ws, ps)" and "i < length ws" and "ws ! i = Ready"
  shows "scan_move env (q, ws, ps) (shape (take_target env job_id i s))"
proof (cases q)
  case Nil
  then show ?thesis using assms by (auto simp: take_target_def shape_at_worker shape_def at_worker_def intro: scan_move.ended)
next
  case (Cons t rest)
  obtain r s1 where r: "stored env (\<lambda>_ d. Inr (get_job job_id d, d)) s = (r, s1)" by fastforce
  have s1: "sc_queue s1 = q" "sc_workers s1 = ws" "sc_probes s1 = ps" using shape_stored [OF r] assms(1) by (simp_all add: shape_def)
  let ?s2 = "s1\<lparr>sc_queue := rest\<rparr>"
  have stop: "scan_move env (q, ws, ps) (shape (at_worker i Ended s1))"
    using assms s1 by (simp add: shape_at_worker scan_move.ended)
  have rec: "scan_move env (q, ws, ps) (shape (record_and_loop env job_id i t None err ?s2))" if "\<not> permitted_probe env t" for err
    using shape_record [of env job_id i t None err ?s2] scan_move.refused [OF assms(2,3) that] s1 Cons by auto
  have wait: "scan_move env (q, ws, ps) (shape (at_worker i (Waiting t) ?s2))" if "permitted_probe env t"
    using scan_move.taken [OF assms(2,3) that] s1 Cons by (simp add: shape_at_worker)
  have q: "sc_queue s = t # rest" using assms(1) Cons by (simp add: shape_def)
  show ?thesis
    using stop rec wait by (auto simp: take_target_def q r Let_def permitted_probe_def split: option.splits)
qed

lemma shape_start:
  assumes "shape s = (q, ws, ps)" and "i < length ws" and "ws ! i = Waiting t"
  shows "scan_move env (q, ws, ps) (shape (start_probe env job_id i t s))"
proof -
  obtain r s1 where r: "merging env job_id Unknown s = (r, s1)" by fastforce
  have s1: "sc_queue s1 = q" "sc_workers s1 = ws" "sc_probes s1 = ps" using merging_shape [OF r] assms(1) by (simp_all add: shape_def)
  have "scan_move env (q, ws, ps) (shape (record_and_loop env job_id i t None err s1))" for err
    using shape_record [of env job_id i t None err s1] scan_move.returned [OF assms(2)] assms(3) s1 by auto
  moreover have "scan_move env (q, ws, ps) (shape (at_worker i (Probing t) (s1\<lparr>sc_probes := sc_probes s1 @ [t]\<rparr>)))"
    using scan_move.probed [OF assms(2,3)] s1 by (simp add: shape_at_worker)
  ultimately show ?thesis by (auto simp: start_probe_def r split: option.splits)
qed

lemma shape_end:
  assumes "shape s = (q, ws, ps)" and "i < length ws" and "ws ! i = Probing t"
  shows "scan_move env (q, ws, ps) (shape (end_probe env job_id i t out s))"
proof -
  have home: "scan_move env (q, ws, ps) (q, ws[i := x], ps)" if "x \<in> {Ready, Ended}" for x
    using scan_move.returned [OF assms(2)] assms(3) that by blast
  have rec: "scan_move env (q, ws, ps) (shape (record_and_loop env job_id i t fp err s1))" if "shape s1 = (q, ws, ps)" for fp err s1
    using shape_record [of env job_id i t fp err s1] that home by (auto simp: shape_def)
  obtain r s1 where r: "merging env job_id Dispatched s = (r, s1)" by fastforce
  have s1: "shape s1 = (q, ws, ps)" using merging_shape [OF r] assms(1) by simp
  then have "scan_move env (q, ws, ps) (shape (at_worker i Ended s1))" using home by (simp add: shape_def at_worker_def)
  then show ?thesis
    using rec [OF assms(1)] rec [OF s1] by (cases out) (auto simp: end_probe_def r Let_def split: option.splits)
qed

text \<open>A step of a worker that has not ended is a move; the other steps do nothing.\<close>

lemma worker_step_moves:
  assumes "i < length (sc_workers s)" and "sc_workers s ! i \<noteq> Ended"
  shows "scan_move env (shape s) (shape (worker_step env job_id i s))"
proof -
  let ?s0 = "s\<lparr>sc_db := history run_manager (s_others env (sc_tick s)) (sc_db s), sc_tick := Suc (sc_tick s)\<rparr>"
  have s0: "shape ?s0 = (sc_queue s, sc_workers s, sc_probes s)" "shape s = (sc_queue s, sc_workers s, sc_probes s)"
    by (simp_all add: shape_def)
  have stop: "scan_move env (shape s) (shape (at_worker i Ended ?s0))"
    if "sc_workers s ! i = Waiting t \<or> sc_workers s ! i = Probing t" for t
    using scan_move.returned [OF assms(1) that] by (simp add: shape_at_worker s0)
  show ?thesis
    using assms shape_take [OF s0(1) assms(1)] shape_start [OF s0(1) assms(1)] shape_end [OF s0(1) assms(1)] stop
    by (cases "sc_workers s ! i") (auto simp: worker_step_def Let_def s0(2))
qed

lemma worker_step_idle: "length (sc_workers s) \<le> i \<or> sc_workers s ! i = Ended \<Longrightarrow> worker_step env job_id i s = s"
  by (simp add: worker_step_def)

lemma schedule_moves: "(scan_move env)\<^sup>*\<^sup>* (shape s) (shape (run_schedule env job_id sched s))"
proof (induction sched arbitrary: s)
  case (Cons i sched)
  have "(scan_move env)\<^sup>*\<^sup>* (shape s) (shape (worker_step env job_id i s))"
    using worker_step_moves [of i s env job_id] worker_step_idle [of s i env job_id] by (metis linorder_not_less r_into_rtranclp rtranclp.rtrancl_refl)
  then show ?case using Cons [of "worker_step env job_id i s"] by simp
qed simp

section \<open>What is probed\<close>

fun claimed_by :: "worker \<Rightarrow> discovery_target list" where
  "claimed_by (Waiting t) = [t]"
| "claimed_by _ = []"

definition pool :: "scan_shape \<Rightarrow> discovery_target multiset" where
  "pool = (\<lambda>(q, ws, ps). mset q + mset (concat (map claimed_by ws)) + mset ps)"

lemma claimed_update:
  assumes "i < length ws"
  shows "\<exists>N. mset (concat (map claimed_by ws)) = mset (claimed_by (ws ! i)) + N \<and>
    mset (concat (map claimed_by (ws[i := x]))) = mset (claimed_by x) + N"
  using assms
proof (induction ws arbitrary: i)
  case (Cons w ws)
  show ?case
  proof (cases i)
    case (Suc j)
    obtain N where "mset (concat (map claimed_by ws)) = mset (claimed_by (ws ! j)) + N"
      "mset (concat (map claimed_by (ws[j := x]))) = mset (claimed_by x) + N" using Cons.IH [of j] Cons.prems Suc by auto
    then show ?thesis using Suc by (intro exI [of _ "mset (claimed_by w) + N"]) simp
  qed (auto intro: exI [of _ "mset (concat (map claimed_by ws))"])
qed simp

lemma pool_move:
  assumes "scan_move env a b"
  shows "pool b \<subseteq># pool a"
  using assms
proof cases
  case (taken i ws t q ps)
  then show ?thesis using claimed_update [of i ws "Waiting t"] by (auto simp: pool_def)
next
  case (refused i ws t x q ps)
  then show ?thesis using claimed_update [of i ws x] by (auto simp: pool_def subset_mset.add_increasing)
next
  case (probed i ws t q ps)
  then show ?thesis using claimed_update [of i ws "Probing t"] by (auto simp: pool_def)
next
  case (returned i ws t x q ps)
  then show ?thesis using claimed_update [of i ws x] by (auto simp: pool_def)
next
  case (ended i ws q ps)
  then show ?thesis using claimed_update [of i ws Ended] by (auto simp: pool_def)
qed

definition vetted :: "service_env \<Rightarrow> scan_shape \<Rightarrow> bool" where
  "vetted env = (\<lambda>(q, ws, ps). \<forall>t\<in>set (concat (map claimed_by ws)) \<union> set ps. permitted_probe env t)"

lemma vetted_move:
  assumes "scan_move env a b" and "vetted env a"
  shows "vetted env b"
proof -
  have u: "set (concat (map claimed_by (ws[i := x]))) \<subseteq> set (concat (map claimed_by ws)) \<union> set (claimed_by x)" for ws i x
    using set_update_subset_insert [of ws i x] by auto
  show ?thesis
    using assms(1)
  proof cases
    case (taken i ws t q ps)
    then show ?thesis using assms(2) u [of ws i "Waiting t"] by (auto simp: vetted_def simp del: set_concat)
  next
    case (probed i ws t q ps)
    then have "t \<in> set (concat (map claimed_by ws))" by (metis claimed_by.simps(1) in_set_conv_nth in_set_conv_decomp
          concat.simps(2) concat_append list.set_intros(1) list.simps(9) map_append nth_mem set_append UnCI)
    then show ?thesis using probed assms(2) u [of ws i "Probing t"] by (auto simp: vetted_def simp del: set_concat)
  next
    case (refused i ws t x q ps)
    then show ?thesis using assms(2) u [of ws i x] by (auto simp: vetted_def simp del: set_concat)
  next
    case (returned i ws t x q ps)
    then show ?thesis using assms(2) u [of ws i x] by (auto simp: vetted_def simp del: set_concat)
  next
    case (ended i ws q ps)
    then show ?thesis using assms(2) u [of ws i Ended] by (auto simp: vetted_def simp del: set_concat)
  qed
qed

lemma moves_keep:
  assumes "(scan_move env)\<^sup>*\<^sup>* a b" and "vetted env a"
  shows "pool b \<subseteq># pool a \<and> vetted env b \<and> length (fst (snd b)) = length (fst (snd a))"
  using assms
proof (induction rule: rtranclp_induct)
  case (step b c)
  have "length (fst (snd c)) = length (fst (snd b))" using step.hyps(2) by cases simp_all
  then show ?case
    using step pool_move [OF step.hyps(2)] vetted_move [OF step.hyps(2)] subset_mset.order_trans by auto
qed simp

lemma begin_shape:
  assumes "begin_scan env job_id targets d = Some s"
  shows "\<exists>left. shape s = (left, replicate (min (s_max_concurrency env) (length left)) Ready, []) \<and>
    left = filter (\<lambda>t. target_key t \<notin> result_keys job_id (sc_db s)) targets"
  using assms by (auto simp: begin_scan_def stored_def shape_def Let_def split: option.splits prod.splits if_splits sum.splits)

text \<open>The probes a scan has sent are distinct occurrences in the list of targets that had no result.\<close>

lemma probes_left:
  fixes sched :: "nat list"
  assumes "begin_scan env job_id targets d = Some s0"
  defines "s \<equiv> run_schedule env job_id sched s0"
  shows "mset (sc_probes s) \<subseteq># mset (filter (\<lambda>t. target_key t \<notin> result_keys job_id (sc_db s0)) targets) \<and>
    vetted env (shape s) \<and> length (sc_workers s) \<le> s_max_concurrency env"
proof -
  obtain left where s0: "shape s0 = (left, replicate (min (s_max_concurrency env) (length left)) Ready, [])"
    and left: "left = filter (\<lambda>t. target_key t \<notin> result_keys job_id (sc_db s0)) targets"
    using begin_shape [OF assms(1)] by blast
  have v: "vetted env (shape s0)" by (auto simp: s0 vetted_def)
  have p: "pool (shape s) \<subseteq># pool (shape s0)" "vetted env (shape s)" "length (sc_workers s) \<le> s_max_concurrency env"
    using moves_keep [OF schedule_moves v, of job_id sched] s0 by (simp_all add: s_def shape_def)
  have c: "mset (concat (map claimed_by (replicate n Ready))) = {#}" for n by (induction n) simp_all
  have "mset (sc_probes s) \<subseteq># pool (shape s)" by (simp add: pool_def shape_def)
  also have "\<dots> \<subseteq># pool (shape s0)" by (rule p(1))
  also have "\<dots> = mset left" by (simp add: s0 pool_def c)
  finally show ?thesis using p(2,3) left by blast
qed

lemma probes_are_targets:
  assumes "begin_scan env job_id targets d = Some s0"
  shows "set (sc_probes (run_schedule env job_id sched s0)) \<subseteq> set targets"
  using probes_left [OF assms, of sched] by (auto dest!: conjunct1 set_mset_mono)

text \<open>
  \<open>C27\<close>.  What a scan probes, whatever the schedule of its workers and whatever others do meanwhile: only targets of the
  scope that had no result when the scan was claimed, each at most once, never an address of the Manager itself, never
  with a profile that is unknown or of the other scheme; and no more than \<open>max_concurrency\<close> probes are under way.
\<close>

theorem scan_probes_are_permitted:
  fixes sched :: "nat list"
  assumes "begin_scan env job_id targets d = Some s0" and "distinct targets"
  defines "s \<equiv> run_schedule env job_id sched s0"
  shows "distinct (sc_probes s) \<and>
    (\<forall>t\<in>set (sc_probes s). t \<in> set targets \<and> target_key t \<notin> result_keys job_id (sc_db s0) \<and>
       t_ip t \<notin> set (s_self_targets env) \<and> \<not> mismatched env t) \<and>
    length (filter (\<lambda>x. \<exists>t. x = Probing t) (sc_workers s)) \<le> s_max_concurrency env"
proof -
  define left where left: "left = filter (\<lambda>t. target_key t \<notin> result_keys job_id (sc_db s0)) targets"
  have sub: "mset (sc_probes s) \<subseteq># mset left" and p: "vetted env (shape s)" "length (sc_workers s) \<le> s_max_concurrency env"
    using probes_left [OF assms(1), of sched] by (simp_all add: left s_def)
  have "distinct left" using assms(2) by (simp add: left)
  then have "count (mset left) t \<le> 1" for t unfolding distinct_count_atmost_1 by (metis le_numeral_extra(4) zero_le_one)
  then have "count (mset (sc_probes s)) t \<le> 1" for t
    using mset_subset_eq_count [OF sub, of t] order_trans by blast
  then have "distinct (sc_probes s)"
    unfolding distinct_count_atmost_1 by (metis count_eq_zero_iff dual_order.antisym less_one not_le set_mset_mset)
  moreover have "set (sc_probes s) \<subseteq> set left" using sub by (metis set_mset_mono set_mset_mset)
  moreover have "length (filter (\<lambda>x. \<exists>t. x = Probing t) (sc_workers s)) \<le> s_max_concurrency env"
    using p(2) length_filter_le order_trans by blast
  ultimately show ?thesis using p(1) left by (auto simp: vetted_def shape_def permitted_probe_def)
qed

section \<open>The workers come to an end\<close>

fun effort :: "worker \<Rightarrow> nat" where
  "effort Ended = 0"
| "effort Ready = 1"
| "effort (Probing _) = 2"
| "effort (Waiting _) = 3"

definition work_left :: "scan_shape \<Rightarrow> nat" where
  "work_left = (\<lambda>(q, ws, ps). 4 * length q + sum_list (map effort ws))"

lemma effort_update:
  "i < length ws \<Longrightarrow> sum_list (map effort (ws[i := x])) + effort (ws ! i) = sum_list (map effort ws) + effort x"
proof (induction ws arbitrary: i)
  case (Cons w ws)
  then show ?case by (cases i) auto
qed simp

lemma work_decreases:
  assumes "scan_move env a b"
  shows "work_left b < work_left a"
  using assms
proof cases
  case (taken i ws t q ps)
  then show ?thesis using effort_update [of i ws "Waiting t"] by (simp add: work_left_def)
next
  case (refused i ws t x q ps)
  then show ?thesis using effort_update [of i ws x] by (auto simp: work_left_def)
next
  case (probed i ws t q ps)
  then show ?thesis using effort_update [of i ws "Probing t"] by (simp add: work_left_def)
next
  case (returned i ws t x q ps)
  then show ?thesis using effort_update [of i ws x] by (auto simp: work_left_def)
next
  case (ended i ws q ps)
  then show ?thesis using effort_update [of i ws Ended] by (simp add: work_left_def)
qed

lemma no_work_ended: "work_left (shape s) = 0 \<Longrightarrow> all_ended s"
proof -
  assume "work_left (shape s) = 0"
  then have "effort w = 0" if "w \<in> set (sc_workers s)" for w using that by (auto simp: work_left_def shape_def)
  then have "w = Ended" if "w \<in> set (sc_workers s)" for w using that by (cases w) fastforce+
  then show ?thesis by (auto simp: all_ended_def list_all_iff)
qed

lemma step_length: "length (sc_workers (worker_step env job_id i s)) = length (sc_workers s)"
proof (cases "length (sc_workers s) \<le> i \<or> sc_workers s ! i = Ended")
  case False
  then have "scan_move env (shape s) (shape (worker_step env job_id i s))" by (intro worker_step_moves) auto
  then show ?thesis by cases (auto simp: shape_def)
qed (simp add: worker_step_idle)

lemma run_schedule_append: "run_schedule env job_id (xs @ ys) s = run_schedule env job_id ys (run_schedule env job_id xs s)"
  by (induction xs arbitrary: s) simp_all

lemma ended_stays: "all_ended s \<Longrightarrow> run_schedule env job_id sched s = s"
proof (induction sched)
  case (Cons i sched)
  then show ?case
    using worker_step_idle [of s i env job_id] by (cases "i < length (sc_workers s)") (auto simp: all_ended_def list_all_length)
qed simp

lemma round_works:
  assumes "\<not> all_ended s" and "{..<length (sc_workers s)} \<subseteq> set sched"
  shows "work_left (shape (run_schedule env job_id sched s)) < work_left (shape s)"
proof -
  have le: "work_left (shape (worker_step env job_id i s)) \<le> work_left (shape s)" for i s
    using worker_step_idle [of s i env job_id] work_decreases [OF worker_step_moves [of i s env job_id]]
    by (cases "i < length (sc_workers s) \<and> sc_workers s ! i \<noteq> Ended") auto
  have les: "work_left (shape (run_schedule env job_id xs s)) \<le> work_left (shape s)" for xs s
    by (induction xs arbitrary: s) (auto intro: order_trans [OF _ le])
  obtain i where i: "i < length (sc_workers s)" "sc_workers s ! i \<noteq> Ended"
    using assms(1) by (auto simp: all_ended_def list_all_length)
  have "\<exists>j. j \<in> set sched \<and> j < length (sc_workers s) \<and> sc_workers s ! j \<noteq> Ended" using i assms(2) by auto
  then have "\<exists>xs j ys. sched = xs @ j # ys \<and> (j < length (sc_workers s) \<and> sc_workers s ! j \<noteq> Ended) \<and>
      (\<forall>y\<in>set xs. \<not> (y < length (sc_workers s) \<and> sc_workers s ! y \<noteq> Ended))"
    using split_list_first_prop [of sched "\<lambda>j. j < length (sc_workers s) \<and> sc_workers s ! j \<noteq> Ended"] by blast
  then obtain xs j ys where sched: "sched = xs @ j # ys" and j: "j < length (sc_workers s)" "sc_workers s ! j \<noteq> Ended"
    and idle: "\<forall>y\<in>set xs. \<not> (y < length (sc_workers s) \<and> sc_workers s ! y \<noteq> Ended)" by blast
  have "run_schedule env job_id xs s = s"
    using idle by (induction xs) (auto simp: worker_step_idle)
  then have "run_schedule env job_id sched s = run_schedule env job_id ys (worker_step env job_id j s)"
    by (simp add: sched run_schedule_append)
  then show ?thesis
    using les [of ys "worker_step env job_id j s"] work_decreases [OF worker_step_moves [OF j]] by (metis le_less_trans)
qed

lemma schedule_length: "length (sc_workers (run_schedule env job_id sched s)) = length (sc_workers s)"
  by (induction sched arbitrary: s) (simp_all add: step_length)

lemma rounds_end:
  assumes "work_left (shape s) \<le> length rounds" and "\<forall>r\<in>set rounds. {..<length (sc_workers s)} \<subseteq> set r"
  shows "all_ended (run_schedule env job_id (concat rounds) s)"
  using assms
proof (induction rounds arbitrary: s)
  case Nil
  then show ?case by (simp add: no_work_ended)
next
  case (Cons r rounds)
  show ?case
  proof (cases "all_ended s")
    case True
    then show ?thesis by (simp only: ended_stays)
  next
    case False
    have "work_left (shape (run_schedule env job_id r s)) \<le> length rounds"
      using round_works [OF False, of r env job_id] Cons.prems by auto
    then show ?thesis
      using Cons.IH [of "run_schedule env job_id r s"] Cons.prems(2) by (simp add: run_schedule_append schedule_length)
  qed
qed

lemma scan_ends:
  assumes "begin_scan env job_id targets d = Some s"
    and "4 * length targets + s_max_concurrency env \<le> length rounds"
    and "\<forall>r\<in>set rounds. {..<s_max_concurrency env} \<subseteq> set r"
  shows "all_ended (run_schedule env job_id (concat rounds) s)"
proof (rule rounds_end)
  obtain left where s: "shape s = (left, replicate (min (s_max_concurrency env) (length left)) Ready, [])"
    and left: "left = filter (\<lambda>t. target_key t \<notin> result_keys job_id (sc_db s)) targets"
    using begin_shape [OF assms(1)] by blast
  have "length left \<le> length targets" by (simp add: left)
  then show "work_left (shape s) \<le> length rounds" using assms(2) by (simp add: s work_left_def sum_list_replicate)
  have "length (sc_workers s) \<le> s_max_concurrency env" using s by (simp add: shape_def)
  then show "\<forall>r\<in>set rounds. {..<length (sc_workers s)} \<subseteq> set r" using assms(3) by (meson lessThan_subset_iff order_trans)
qed

text \<open>
  \<open>C28\<close>.  The workers of a scan come to an end: after at most four rounds per target and one per worker, a round being
  any part of the schedule in which every worker runs at least once, no worker is left, whatever the probes and the
  storage do.  (A probe itself ends: the code gives each one a time limit.)
\<close>

theorem scan_workers_end:
  assumes "begin_scan env job_id targets d = Some s"
    and "4 * length targets + s_max_concurrency env \<le> length rounds"
    and "\<forall>r\<in>set rounds. {..<s_max_concurrency env} \<subseteq> set r"
  shows "all_ended (run_schedule env job_id (concat rounds) s)"
  by (rule scan_ends [OF assms])

end
