(* ===== verification/Scan_Completion.thy ===== *)
theory Scan_Completion
  imports Scan_Properties Discovery_Properties
begin

text \<open>
  The undisturbed scan: when no storage call fails, nobody else writes and the deadline is far, every schedule in
  which the workers come to an end checks every target, and the job is completed with its counters full.
\<close>

section \<open>The rows of the job\<close>

definition scan_job_ids_unique :: "discovery_job list \<Rightarrow> bool" where
  "scan_job_ids_unique rows \<longleftrightarrow> distinct (map d_job_id rows)"

interpretation scan_jobs_table: keyed_table d_job_id scan_job_ids_unique
  by unfold_locales (rule scan_job_ids_unique_def)

lemma get_job_unique: "discovery_ok d \<Longrightarrow> get_job i d = Some j \<Longrightarrow> k \<in> set (db_discovery_jobs d) \<Longrightarrow> d_job_id k = i \<Longrightarrow> k = j"
  by (auto simp: get_job_def discovery_ok_def discovery_jobs_unique_def distinct_map inj_on_def dest!: find_Some_iff [THEN iffD1])

lemma get_job_mem: "get_job i d = Some j \<Longrightarrow> j \<in> set (db_discovery_jobs d) \<and> d_job_id j = i"
  by (auto simp: get_job_def find_Some_iff)

lemma checked_count_keys:
  assumes "discovery_ok d"
  shows "checked_count i d = int (card (result_keys i d))"
proof -
  let ?rows = "filter (\<lambda>r. dr_job_id r = i) (db_discovery_results d)" and ?f = "\<lambda>r. (dr_ip r, dr_port r, dr_transport_profile_id r)"
  have "distinct (map result_key (db_discovery_results d))" using assms by (simp add: discovery_ok_def discovery_results_unique_def)
  then have "distinct (map result_key ?rows)" by (simp add: distinct_map_filter)
  then have "distinct (map ?f ?rows)" by (auto simp: distinct_map inj_on_def result_key_def)
  moreover have "result_keys i d = set (map ?f ?rows)" by (auto simp: result_keys_def)
  ultimately have "card (result_keys i d) = length ?rows" using distinct_card [of "map ?f ?rows"] by simp
  then show ?thesis by (simp add: checked_count_def rowcount_def)
qed

lemma result_keys_alt: "result_keys i d = snd ` {p \<in> set (map result_key (db_discovery_results d)). fst p = i}"
  by (force simp: result_keys_def result_key_def)

lemma found_le_checked: "found_count i d \<le> checked_count i d"
  by (auto simp: found_count_def checked_count_def intro: rowcount_mono)

section \<open>Storage calls that cannot fail\<close>

text \<open>\<open>tracked env i targets k d\<close>: the job is running and the ids that will be drawn from step \<open>k\<close> on are free.\<close>

definition tracked :: "service_env \<Rightarrow> string \<Rightarrow> discovery_target list \<Rightarrow> nat \<Rightarrow> manager_db \<Rightarrow> bool" where
  "tracked env i targets k d \<longleftrightarrow> discovery_ok d \<and> counters_true d \<and>
     (\<exists>j. get_job i d = Some j \<and> d_state j = DRunning \<and> \<not> d_cancel_requested j \<and> d_total_targets j = int (length targets)) \<and>
     (\<forall>n\<ge>k. s_uuid env n \<notin> dr_result_id ` set (db_discovery_results d)) \<and>
     result_keys i d \<subseteq> target_key ` set targets"

lemma tracked_later: "tracked env i targets k d \<Longrightarrow> k \<le> n \<Longrightarrow> tracked env i targets n d"
  by (auto simp: tracked_def)

lemma get_job_update:
  assumes "discovery_ok d" and "update_discovery_jobs P f d = Some d'" and "\<And>j. d_job_id (f j) = d_job_id j"
  shows "get_job i d' = map_option (\<lambda>j. if P j then f j else j) (get_job i d)"
proof -
  have "find (\<lambda>j. d_job_id j = i) (map (\<lambda>j. if P j then f j else j) rows) =
      map_option (\<lambda>j. if P j then f j else j) (find (\<lambda>j. d_job_id j = i) rows)" for rows
    using assms(3) by (induction rows) auto
  then show ?thesis using assms(2) by (simp add: get_job_def update_discovery_Some sql_update_def)
qed

lemma merge_tracked:
  assumes "tracked env i targets k d"
  shows "\<exists>j d'. merge_dispatch i st now d = Inr (j, d') \<and> tracked env i targets k d' \<and> result_keys i d' = result_keys i d"
proof -
  let ?f = "\<lambda>j. j\<lparr>d_aggregate_dispatch_state := merge_state (d_aggregate_dispatch_state j) st, d_updated_at := now\<rparr>"
  have ok: "discovery_ok d" using assms by (simp add: tracked_def)
  then obtain d' where u: "update_discovery_jobs (running_job i) ?f d = Some d'"
    by (simp add: update_discovery_Some discovery_ok_def check_discovery_job_def)
  have r: "db_discovery_results d' = db_discovery_results d" using u by (auto simp: update_discovery_Some)
  obtain j where j: "get_job i d = Some j" "d_state j = DRunning" "\<not> d_cancel_requested j" "d_total_targets j = int (length targets)"
    using assms by (auto simp: tracked_def)
  then have g: "get_job i d' = Some (?f j)"
    using get_job_update [OF ok u, of i] get_job_mem [OF j(1)] by (simp add: running_job_def)
  then have m: "merge_dispatch i st now d = Inr (?f j, d')" using u by (simp add: merge_dispatch_def)
  have "run_discovery (DMerge i st now) d = Inr ((), d')" using m by (simp add: done_with_def)
  from discovery.run_inv [OF ok this] run_discovery_counters [OF this ok] have "discovery_ok d'" "counters_true d'"
    using assms by (simp_all add: tracked_def)
  then show ?thesis using m g j r assms by (auto simp: tracked_def result_keys_def)
qed

lemma upsert_tracked:
  assumes "tracked env i targets k d" and "t \<in> set targets" and "1 \<le> t_port t" "t_port t \<le> 65535" and "inj (s_uuid env)"
  shows "\<exists>d'. upsert_result (observed_result (s_uuid env k) i t fp err now) d = Some d' \<and> discovery_ok d' \<and>
    db_discovery_jobs d' = db_discovery_jobs d \<and> result_keys i d' = insert (target_key t) (result_keys i d) \<and>
    (\<forall>n\<ge>Suc k. s_uuid env n \<notin> dr_result_id ` set (db_discovery_results d'))"
proof -
  let ?r = "observed_result (s_uuid env k) i t fp err now" and ?rows = "db_discovery_results d"
  have ok: "discovery_ok d" and fresh: "\<forall>n\<ge>k. s_uuid env n \<notin> dr_result_id ` set ?rows"
    and job: "i \<in> d_job_id ` set (db_discovery_jobs d)"
    using assms(1) get_job_mem by (fastforce simp: tracked_def)+
  have r: "check_discovery_result ?r" "dr_job_id ?r = i" "dr_result_id ?r = s_uuid env k" "dr_linked_enrollment_id ?r = None"
    "result_key ?r = (i, target_key t)"
    using assms(3,4) by (simp_all add: observed_result_def check_discovery_result_def result_key_def target_key_def)
  have new: "s_uuid env n \<noteq> s_uuid env k" if "Suc k \<le> n" for n using that inj_eq [OF assms(5)] by auto
  show ?thesis
  proof (cases "result_key ?r \<in> result_key ` set ?rows")
    case True
    let ?d = "d\<lparr>db_discovery_results := sql_update (\<lambda>x. result_key x = result_key ?r) (merge_result ?r) ?rows\<rparr>"
    have u: "upsert_result ?r d = Some ?d" using True r(1) by (simp add: upsert_result_def)
    have "target_key t \<in> result_keys i d" using True r(5) by (force simp: result_keys_def result_key_def)
    moreover have "map result_key (db_discovery_results ?d) = map result_key ?rows"
      "map dr_result_id (db_discovery_results ?d) = map dr_result_id ?rows"
      by (simp_all add: sql_update_def result_key_def merge_result_def)
    then have "result_keys i ?d = result_keys i d" "dr_result_id ` set (db_discovery_results ?d) = dr_result_id ` set ?rows"
      by (simp_all only: result_keys_alt) (metis list.set_map)
    ultimately show ?thesis using u upsert_result_ok [OF ok u r(4)] fresh by (auto simp: insert_absorb)
  next
    case False
    let ?d = "d\<lparr>db_discovery_results := ?rows @ [?r]\<rparr>"
    have u: "upsert_result ?r d = Some ?d" using False r fresh job by (simp add: upsert_result_def)
    have "{p \<in> set (map result_key (?rows @ [?r])). fst p = i} = insert (i, target_key t) {p \<in> set (map result_key ?rows). fst p = i}"
      using r(5) by auto
    then have "result_keys i ?d = insert (target_key t) (result_keys i d)" by (simp add: result_keys_alt del: set_map set_append map_append)
    then show ?thesis using u upsert_result_ok [OF ok u r(4)] fresh new r(3) by auto
  qed
qed

lemma record_tracked:
  assumes "tracked env i targets k d" and "t \<in> set targets" and "1 \<le> t_port t" "t_port t \<le> 65535" and "inj (s_uuid env)"
  shows "\<exists>d'. record_result (s_uuid env k) i t fp err now d = Inr ((), d') \<and> tracked env i targets (Suc k) d' \<and>
    result_keys i d' = insert (target_key t) (result_keys i d)"
proof -
  obtain d1 where u: "upsert_result (observed_result (s_uuid env k) i t fp err now) d = Some d1" and ok1: "discovery_ok d1"
    and d1: "db_discovery_jobs d1 = db_discovery_jobs d" "result_keys i d1 = insert (target_key t) (result_keys i d)"
    and fresh: "\<forall>n\<ge>Suc k. s_uuid env n \<notin> dr_result_id ` set (db_discovery_results d1)"
    using upsert_tracked [OF assms] by blast
  obtain j where j: "get_job i d = Some j" "d_state j = DRunning" "\<not> d_cancel_requested j" "d_total_targets j = int (length targets)"
    and ok: "discovery_ok d" and ct: "counters_true d" and keys: "result_keys i d1 \<subseteq> target_key ` set targets"
    using assms(1,2) d1(2) by (auto simp: tracked_def)
  let ?f = "\<lambda>j. j\<lparr>d_checked_targets := checked_count i d1, d_found_targets := found_count i d1, d_updated_at := now\<rparr>"
  have "card (result_keys i d1) \<le> length targets"
    using card_mono [OF _ keys] card_image_le [of "set targets" target_key] card_length [of targets] by (meson List.finite_set finite_imageI order_trans)
  then have le: "checked_count i d1 \<le> int (length targets)" by (simp add: checked_count_keys [OF ok1])
  have "check_discovery_job (?f k)" if "k \<in> set (db_discovery_jobs d1)" "running_job i k" for k
    using that get_job_unique [OF ok j(1), of k] ok j(4) le found_le_checked [of i d1] d1(1)
    by (auto simp: running_job_def check_discovery_job_def discovery_ok_def found_count_def)
  then obtain d2 where u2: "update_discovery_jobs (running_job i) ?f d1 = Some d2" by (simp add: update_discovery_Some)
  have run: "find (running_job i) (db_discovery_jobs d) \<noteq> None"
    using get_job_mem [OF j(1)] j(2) by (auto simp: find_None_iff running_job_def)
  then have rec: "record_result (s_uuid env k) i t fp err now d = Inr ((), d2)" using u u2 by (auto simp: record_result_def)
  have g: "get_job i d2 = Some (?f j)"
    using get_job_update [OF ok1 u2, of i] get_job_mem [OF j(1)] j(1,2) d1(1) by (simp add: running_job_def get_job_def)
  have r2: "db_discovery_results d2 = db_discovery_results d1" using u2 by (auto simp: update_discovery_Some)
  show ?thesis
    using rec record_rows [OF rec ok] record_counters [OF rec ok ct] g j keys fresh d1(2) r2
    by (auto simp: tracked_def result_keys_def)
qed

section \<open>A calm environment\<close>

definition calm :: "service_env \<Rightarrow> bool" where
  "calm env \<longleftrightarrow> (\<forall>k. \<not> s_fault env k \<and> \<not> s_expired env k \<and> \<not> s_cancelled env k \<and> s_others env k = []) \<and> inj (s_uuid env)"

lemma record_calm:
  assumes "calm env" and "tracked env i targets (sc_tick s) (sc_db s)" and "t \<in> set targets" and "1 \<le> t_port t" "t_port t \<le> 65535"
  shows "\<exists>d'. record_and_loop env i w t fp err s = at_worker w Ready (s\<lparr>sc_tick := Suc (sc_tick s), sc_db := d'\<rparr>) \<and>
    tracked env i targets (Suc (sc_tick s)) d' \<and> result_keys i d' = insert (target_key t) (result_keys i (sc_db s))"
  using record_tracked [OF assms(2-5), of fp err "s_clock env (sc_tick s)"] assms(1)
  by (auto simp: record_and_loop_def stored_def calm_def Let_def)

lemma merging_calm:
  assumes "calm env" and "tracked env i targets (sc_tick s) (sc_db s)"
  shows "\<exists>j d'. merging env i st s = (Some j, s\<lparr>sc_tick := Suc (sc_tick s), sc_db := d'\<rparr>) \<and>
    tracked env i targets (Suc (sc_tick s)) d' \<and> result_keys i d' = result_keys i (sc_db s)"
proof -
  obtain j d' where d': "merge_dispatch i st (s_clock env (sc_tick s)) (sc_db s) = Inr (j, d')"
    "tracked env i targets (sc_tick s) d'" "result_keys i d' = result_keys i (sc_db s)"
    using merge_tracked [OF assms(2), of st "s_clock env (sc_tick s)"] by blast
  then show ?thesis
    using tracked_later [OF d'(2), of "Suc (sc_tick s)"] assms(1) by (auto simp: merging_def stored_def calm_def Let_def)
qed

lemma merge_record_calm:
  assumes "calm env" and "tracked env i targets (sc_tick s) (sc_db s)" and "t \<in> set targets" and "1 \<le> t_port t" "t_port t \<le> 65535"
  shows "\<exists>j s1 k' d'. merging env i st s = (Some j, s1) \<and>
    record_and_loop env i w t fp err s1 = at_worker w Ready (s\<lparr>sc_tick := k', sc_db := d'\<rparr>) \<and>
    tracked env i targets k' d' \<and> result_keys i d' = insert (target_key t) (result_keys i (sc_db s))"
proof -
  obtain j d1 where m: "merging env i st s = (Some j, s\<lparr>sc_tick := Suc (sc_tick s), sc_db := d1\<rparr>)"
    "tracked env i targets (Suc (sc_tick s)) d1" "result_keys i d1 = result_keys i (sc_db s)"
    using merging_calm [OF assms(1,2)] by blast
  then show ?thesis
    using record_calm [OF assms(1) _ assms(3-5), of i "s\<lparr>sc_tick := Suc (sc_tick s), sc_db := d1\<rparr>" w fp err] by auto
qed

lemma end_probe_calm:
  assumes "calm env" and "tracked env i targets (sc_tick s) (sc_db s)" and "t \<in> set targets" and "1 \<le> t_port t" "t_port t \<le> 65535"
  shows "\<exists>k' d'. end_probe env i w t out s = at_worker w Ready (s\<lparr>sc_tick := k', sc_db := d'\<rparr>) \<and>
    tracked env i targets k' d' \<and> result_keys i d' = insert (target_key t) (result_keys i (sc_db s))"
proof -
  note rec = record_calm [OF assms, of w] and mrec = merge_record_calm [OF assms, of Dispatched w]
  show ?thesis
  proof (cases out)
    case (Matched v)
    then show ?thesis using mrec [of "Some v" None] by (fastforce simp: end_probe_def Let_def)
  next
    case Mismatched
    then show ?thesis using mrec [of None "Some ''fingerprint_mismatch''"] by (fastforce simp: end_probe_def Let_def)
  next
    case ProbeTimeout
    then show ?thesis using rec [of None "Some ''timeout''"] by (fastforce simp: end_probe_def Let_def)
  next
    case (ProbeError code)
    let ?err = "Some (if code \<in> set safe_probe_errors then code else ''fingerprint_error'')"
    show ?thesis
    proof (cases "code \<in> {''network_error'', ''fingerprint_too_large''}")
      case True
      then show ?thesis using mrec [of None ?err] unfolding end_probe_def ProbeError Let_def by fastforce
    next
      case False
      then have "end_probe env i w t out s = record_and_loop env i w t None ?err s" by (simp only: end_probe_def ProbeError Let_def probe_outcome.case if_False)
      then show ?thesis using rec [of None ?err] by metis
    qed
  next
    case ProbeFailed
    then show ?thesis using rec [of None "Some ''network_error''"] by (fastforce simp: end_probe_def Let_def)
  qed
qed

section \<open>Every target is accounted for\<close>

fun holding :: "worker \<Rightarrow> discovery_target list" where
  "holding (Waiting t) = [t]"
| "holding (Probing t) = [t]"
| "holding _ = []"

definition outstanding :: "worker list \<Rightarrow> discovery_target set" where
  "outstanding ws = (\<Union>w\<in>set ws. set (holding w))"

lemma outstanding_update:
  assumes "i < length ws"
  shows "outstanding ws \<subseteq> set (holding (ws ! i)) \<union> outstanding (ws[i := x]) \<and> set (holding x) \<subseteq> outstanding (ws[i := x]) \<and>
    outstanding (ws[i := x]) \<subseteq> outstanding ws \<union> set (holding x)"
  using assms
proof (induction ws arbitrary: i)
  case (Cons w ws)
  show ?case
  proof (cases i)
    case (Suc j)
    then show ?thesis using Cons.IH [of j] Cons.prems by (auto simp: outstanding_def)
  qed (auto simp: outstanding_def)
qed simp

definition on_track :: "service_env \<Rightarrow> string \<Rightarrow> discovery_target list \<Rightarrow> scan \<Rightarrow> bool" where
  "on_track env i targets s \<longleftrightarrow> tracked env i targets (sc_tick s) (sc_db s) \<and>
     target_key ` set targets \<subseteq> result_keys i (sc_db s) \<union> target_key ` (set (sc_queue s) \<union> outstanding (sc_workers s)) \<and>
     set (sc_queue s) \<union> outstanding (sc_workers s) \<subseteq> set targets \<and>
     (Ended \<in> set (sc_workers s) \<or> sc_workers s = [] \<longrightarrow> sc_queue s = [])"

lemma move_on_track:
  assumes "on_track env i targets s" and "w < length (sc_workers s)" and "sc_workers s' = (sc_workers s)[w := x]"
    and "x \<noteq> Ended \<or> sc_queue s' = []" and "set (sc_queue s') \<subseteq> set (sc_queue s)"
    and "set (holding x) \<subseteq> set (sc_queue s) \<union> set (holding (sc_workers s ! w))"
    and "tracked env i targets (sc_tick s') (sc_db s')"
    and "result_keys i (sc_db s) \<union> target_key ` set (sc_queue s) \<union> target_key ` set (holding (sc_workers s ! w))
      \<subseteq> result_keys i (sc_db s') \<union> target_key ` set (sc_queue s') \<union> target_key ` set (holding x)"
  shows "on_track env i targets s'"
proof -
  have u: "outstanding (sc_workers s) \<subseteq> set (holding (sc_workers s ! w)) \<union> outstanding (sc_workers s')" "set (holding x) \<subseteq> outstanding (sc_workers s')"
    "outstanding (sc_workers s') \<subseteq> outstanding (sc_workers s) \<union> set (holding x)"
    using outstanding_update [OF assms(2), of x] assms(3) by auto
  have h: "set (holding (sc_workers s ! w)) \<subseteq> outstanding (sc_workers s)" using assms(2) nth_mem by (fastforce simp: outstanding_def)
  have "target_key ` set targets \<subseteq> result_keys i (sc_db s') \<union> target_key ` (set (sc_queue s') \<union> outstanding (sc_workers s'))"
  proof -
    have "target_key ` set targets \<subseteq> result_keys i (sc_db s) \<union> target_key ` set (sc_queue s) \<union> target_key ` outstanding (sc_workers s)"
      using assms(1) by (simp add: on_track_def image_Un Un_assoc)
    also have "\<dots> \<subseteq> (result_keys i (sc_db s) \<union> target_key ` set (sc_queue s) \<union> target_key ` set (holding (sc_workers s ! w))) \<union> target_key ` outstanding (sc_workers s')"
      using image_mono [OF u(1), of target_key] unfolding image_Un by blast
    also have "\<dots> \<subseteq> result_keys i (sc_db s') \<union> target_key ` (set (sc_queue s') \<union> outstanding (sc_workers s'))"
      using image_mono [OF u(2), of target_key] assms(8) unfolding image_Un by blast
    finally show ?thesis .
  qed
  moreover have "set (sc_queue s') \<union> outstanding (sc_workers s') \<subseteq> set targets"
    using assms(1,5,6) u(3) h unfolding on_track_def by blast
  moreover have "sc_queue s' = []" if "Ended \<in> set (sc_workers s') \<or> sc_workers s' = []"
    using that assms(1,3,4,5) set_update_subset_insert [of "sc_workers s" w x] by (auto simp: on_track_def)
  ultimately show ?thesis using assms(7) by (simp add: on_track_def)
qed

lemma take_on_track:
  assumes "calm env" and "on_track env i targets s" and "w < length (sc_workers s)" and "sc_workers s ! w = Ready"
    and "\<forall>t\<in>set targets. 1 \<le> t_port t \<and> t_port t \<le> 65535"
  shows "on_track env i targets (take_target env i w s)"
proof (cases "sc_queue s")
  case Nil
  have "tracked env i targets (sc_tick s) (sc_db s)" using assms(2) by (simp add: on_track_def)
  then show ?thesis
    using move_on_track [OF assms(2,3), of "take_target env i w s" Ended] assms(4) Nil by (simp add: take_target_def at_worker_def)
next
  case (Cons t rest)
  let ?s1 = "s\<lparr>sc_tick := Suc (sc_tick s)\<rparr>"
  have t: "t \<in> set targets" "1 \<le> t_port t" "t_port t \<le> 65535" using assms(2,5) Cons by (auto simp: on_track_def)
  have tr: "tracked env i targets (Suc (sc_tick s)) (sc_db s)" using assms(2) by (auto simp: on_track_def intro: tracked_later)
  obtain j where j: "get_job i (sc_db s) = Some j" "\<not> d_cancel_requested j" using tr by (auto simp: tracked_def)
  have st: "stored env (\<lambda>_ d. Inr (get_job i d, d)) s = (Some (Some j), ?s1)" using assms(1) j by (simp add: stored_def calm_def Let_def)
  have rec: "on_track env i targets (record_and_loop env i w t None err (?s1\<lparr>sc_queue := rest\<rparr>))" for err
  proof -
    obtain d' where d': "record_and_loop env i w t None err (?s1\<lparr>sc_queue := rest\<rparr>) =
        at_worker w Ready (?s1\<lparr>sc_queue := rest, sc_tick := Suc (Suc (sc_tick s)), sc_db := d'\<rparr>)"
      "tracked env i targets (Suc (Suc (sc_tick s))) d'" "result_keys i d' = insert (target_key t) (result_keys i (sc_db s))"
      using record_calm [OF assms(1) _ t, of i "?s1\<lparr>sc_queue := rest\<rparr>" w None err] tr by auto
    show ?thesis by (rule move_on_track [OF assms(2,3), of _ Ready]) (use d' Cons assms(4) in \<open>auto simp: at_worker_def\<close>)
  qed
  have "on_track env i targets (at_worker w (Waiting t) (?s1\<lparr>sc_queue := rest\<rparr>))"
    by (rule move_on_track [OF assms(2,3), of _ "Waiting t"]) (use tr Cons assms(4) in \<open>auto simp: at_worker_def\<close>)
  then show ?thesis
    using rec assms(1) j(2) by (simp add: take_target_def Cons st calm_def Let_def)
qed

lemma worker_on_track:
  assumes "calm env" and "on_track env i targets s" and "\<forall>t\<in>set targets. 1 \<le> t_port t \<and> t_port t \<le> 65535"
  shows "on_track env i targets (worker_step env i w s)"
proof (cases "length (sc_workers s) \<le> w \<or> sc_workers s ! w = Ended")
  case True
  then show ?thesis using assms(2) by (simp only: worker_step_idle)
next
  case False
  let ?s0 = "s\<lparr>sc_tick := Suc (sc_tick s)\<rparr>"
  have w: "w < length (sc_workers s)" "sc_workers s ! w \<noteq> Ended" using False by auto
  have tr: "tracked env i targets (Suc (sc_tick s)) (sc_db s)" using assms(2) by (auto simp: on_track_def intro: tracked_later)
  then have ot: "on_track env i targets ?s0" using assms(2) by (simp add: on_track_def)
  have others: "s_others env k = []" "\<not> s_cancelled env k" for k using assms(1) by (simp_all add: calm_def)
  have "sc_workers s ! w \<in> set (sc_workers s)" using w(1) by simp
  then have "set (holding (sc_workers s ! w)) \<subseteq> set targets" using assms(2) unfolding on_track_def outstanding_def by blast
  then have due: "t \<in> set targets" "1 \<le> t_port t" "t_port t \<le> 65535" if "t \<in> set (holding (sc_workers s ! w))" for t
    using that assms(3) by auto
  show ?thesis
  proof (cases "sc_workers s ! w")
    case Ready
    then show ?thesis using take_on_track [OF assms(1) ot, of w] w assms(3) by (simp add: worker_step_def others Let_def)
  next
    case (Waiting t)
    obtain j d' where d': "merging env i Unknown ?s0 = (Some j, ?s0\<lparr>sc_tick := Suc (Suc (sc_tick s)), sc_db := d'\<rparr>)"
      "tracked env i targets (Suc (Suc (sc_tick s))) d'" "result_keys i d' = result_keys i (sc_db s)"
      using merging_calm [OF assms(1), of i targets ?s0 Unknown] tr by auto
    have "worker_step env i w s = start_probe env i w t ?s0" using Waiting w by (simp add: worker_step_def others Let_def)
    then show ?thesis
      using move_on_track [OF ot, of w "worker_step env i w s" "Probing t"] w d' Waiting
      by (simp add: start_probe_def at_worker_def)
  next
    case (Probing t)
    have t: "t \<in> set targets" "1 \<le> t_port t" "t_port t \<le> 65535" using due [of t] Probing by simp_all
    obtain k' d' where d': "end_probe env i w t (s_probe env (sc_tick s)) ?s0 = at_worker w Ready (?s0\<lparr>sc_tick := k', sc_db := d'\<rparr>)"
      "tracked env i targets k' d'" "result_keys i d' = insert (target_key t) (result_keys i (sc_db s))"
      using end_probe_calm [OF assms(1) _ t, of i ?s0 w "s_probe env (sc_tick s)"] tr by auto
    have "worker_step env i w s = end_probe env i w t (s_probe env (sc_tick s)) ?s0" using Probing w by (simp add: worker_step_def others Let_def)
    then show ?thesis
      using move_on_track [OF ot, of w "worker_step env i w s" Ready] w d' Probing by (simp add: at_worker_def)
  next
    case Ended
    then show ?thesis using w by simp
  qed
qed

lemma schedule_on_track:
  assumes "calm env" and "on_track env i targets s" and "\<forall>t\<in>set targets. 1 \<le> t_port t \<and> t_port t \<le> 65535"
  shows "on_track env i targets (run_schedule env i sched s)"
  using assms(2) by (induction sched arbitrary: s) (simp_all add: worker_on_track [OF assms(1) _ assms(3)])

section \<open>The whole scan\<close>

lemma begin_on_track:
  assumes "calm env" and "discovery_ok d" and "counters_true d" and "get_job i d = Some job" and "claimable i job"
    and "d_total_targets job = int (length targets)" and "result_keys i d \<subseteq> target_key ` set targets"
    and "range (s_uuid env) \<inter> dr_result_id ` set (db_discovery_results d) = {}" and "1 \<le> s_max_concurrency env"
  shows "\<exists>s. begin_scan env i targets d = Some s \<and> on_track env i targets s"
proof -
  let ?f = "\<lambda>now j. j\<lparr>d_state := DRunning, d_updated_at := now\<rparr>" and ?now = "s_clock env 0"
  obtain d1 where u: "update_discovery_jobs (claimable i) (?f ?now) d = Some d1"
    using assms(2) by (simp add: update_discovery_Some discovery_ok_def check_discovery_job_def)
  have mem: "job \<in> set (db_discovery_jobs d)" "d_job_id job = i" using get_job_mem [OF assms(4)] by auto
  have "scan_job_ids_unique (db_discovery_jobs d)"
    using assms(2) by (simp add: discovery_ok_def discovery_jobs_unique_def scan_job_ids_unique_def)
  from scan_jobs_table.rowcount_key_1 [OF this, of i "\<lambda>j. d_state j = DQueued \<and> \<not> d_cancel_requested j"]
  have "rowcount (claimable i) (db_discovery_jobs d) = 1"
    unfolding claimable_def [abs_def] using mem assms(5) by (auto simp: claimable_def)
  moreover have g: "get_job i d1 = Some (?f ?now job)" using get_job_update [OF assms(2) u, of i] assms(4,5) by simp
  ultimately have c: "claim i ?now d = Inr (Some (?f ?now job), d1)" using u by (simp add: claim_def)
  have r: "db_discovery_results d1 = db_discovery_results d" using u by (auto simp: update_discovery_Some)
  have "run_discovery (DClaim i ?now) d = Inr ((), d1)" using c by (simp add: done_with_def)
  from discovery.run_inv [OF assms(2) this] run_discovery_counters [OF this assms(2)] have ok1: "discovery_ok d1" "counters_true d1"
    using assms(3) by simp_all
  have keys: "result_keys i d1 = result_keys i d" using r by (simp add: result_keys_def)
  have tr: "tracked env i targets 2 d1"
    using ok1 g assms(5,6,7,8) r keys by (auto simp: tracked_def claimable_def)
  let ?left = "filter (\<lambda>t. target_key t \<notin> result_keys i d) targets"
  let ?s = "\<lparr>sc_db = d1, sc_queue = ?left, sc_workers = replicate (min (s_max_concurrency env) (length ?left)) Ready, sc_probes = [],
    sc_tick = 2\<rparr>"
  have "begin_scan env i targets d = Some ?s"
    using assms(1) c keys by (simp add: begin_scan_def stored_def calm_def Let_def numeral_2_eq_2)
  moreover have "on_track env i targets ?s" using tr keys assms(9) by (auto simp: on_track_def outstanding_def min_def)
  ultimately show ?thesis by blast
qed

lemma ended_completes:
  assumes "calm env" and "on_track env i targets s" and "all_ended s" and "distinct (map target_key targets)"
  shows "result_keys i (sc_db s) = target_key ` set targets \<and>
    (\<exists>f s'. end_scan env i s = (Some f, s') \<and> d_state f = DCompleted \<and> d_total_targets f = int (length targets) \<and>
       d_checked_targets f = d_total_targets f)"
proof -
  let ?d = "sc_db s"
  obtain j where j: "get_job i ?d = Some j" "d_state j = DRunning" "\<not> d_cancel_requested j" "d_total_targets j = int (length targets)"
    and ok: "discovery_ok ?d" "counters_true ?d" "result_keys i ?d \<subseteq> target_key ` set targets"
    using assms(2) by (auto simp: on_track_def tracked_def)
  have "outstanding (sc_workers s) = {}" using assms(3) by (auto simp: all_ended_def list_all_iff outstanding_def)
  moreover have "sc_queue s = []" using assms(2,3) by (cases "sc_workers s") (auto simp: on_track_def all_ended_def)
  ultimately have keys: "result_keys i ?d = target_key ` set targets" using assms(2) ok(3) by (auto simp: on_track_def)
  have "card (target_key ` set targets) = length targets" using distinct_card [OF assms(4)] by simp
  then have chk: "d_checked_targets j = int (length targets)"
    using ok(2) get_job_mem [OF j(1)] checked_count_keys [OF ok(1), of i] keys by (auto simp: counters_true_def)
  let ?f = "\<lambda>now j. j\<lparr>d_state := DCompleted, d_safe_error_code := None, d_updated_at := now, d_completed_at := Some now\<rparr>"
  let ?now = "s_clock env (Suc (sc_tick s))"
  obtain d' where u: "update_discovery_jobs (finishable i DCompleted) (?f ?now) ?d = Some d'"
    using ok(1) by (simp add: update_discovery_Some discovery_ok_def check_discovery_job_def)
  have "get_job i d' = Some (?f ?now j)"
    using get_job_update [OF ok(1) u, of i] j(1-3) get_job_mem [OF j(1)] by (simp add: finishable_def active_discovery_def)
  then have fin: "finish i DCompleted ?now None ?d = Inr (?f ?now j, d')" using u by (simp add: finish_def)
  have "\<exists>s'. end_scan env i s = (Some (?f ?now j), s')"
    using assms(1) j(1,3) fin by (simp add: end_scan_def stored_def calm_def Let_def final_state_def active_discovery_def)
  then show ?thesis using keys j(4) chk by auto
qed

text \<open>
  An undisturbed scan is exhaustive: when no storage call fails, nobody else writes, nothing is cancelled and the
  deadline is not reached, every schedule that lets each worker run often enough leaves exactly one result per target of
  the scope, whatever the probes find and however many targets had been checked before a restart, and the job is
  completed with all its targets counted.
\<close>

lemma calm_scan_completes:
  fixes env :: service_env and rounds :: "nat list list"
  assumes "calm env" and "discovery_ok d" and "counters_true d" and "get_job i d = Some job" and "claimable i job"
    and "d_total_targets job = int (length targets)" and "distinct (map target_key targets)"
    and "\<forall>t\<in>set targets. 1 \<le> t_port t \<and> t_port t \<le> 65535" and "result_keys i d \<subseteq> target_key ` set targets"
    and "range (s_uuid env) \<inter> dr_result_id ` set (db_discovery_results d) = {}" and "1 \<le> s_max_concurrency env"
    and "4 * length targets + s_max_concurrency env \<le> length rounds"
    and "\<forall>r\<in>set rounds. {..<s_max_concurrency env} \<subseteq> set r"
  shows "\<exists>s0 f s'. begin_scan env i targets d = Some s0 \<and>
    result_keys i (sc_db (run_schedule env i (concat rounds) s0)) = target_key ` set targets \<and>
    end_scan env i (run_schedule env i (concat rounds) s0) = (Some f, s') \<and>
    d_state f = DCompleted \<and> d_checked_targets f = int (length targets)"
proof -
  obtain s0 where s0: "begin_scan env i targets d = Some s0" "on_track env i targets s0"
    using begin_on_track [OF assms(1-6,9-11)] by blast
  have "all_ended (run_schedule env i (concat rounds) s0)" by (rule scan_ends [OF s0(1) assms(12,13)])
  from ended_completes [OF assms(1) schedule_on_track [OF assms(1) s0(2) assms(8)] this assms(7)] s0(1) show ?thesis by fastforce
qed

end
