(* ===== verification/Discovery_Audit.thy ===== *)
theory Discovery_Audit
  imports Scan_Completion
begin

text \<open>
  The outcome of a discovery job in the audit log: \<open>DiscoveryAuditOutcomeRecorder\<close> of \<open>discovery/audit.py\<close>, the
  guarded update \<open>finalize_pending\<close> of \<open>db/control_plane_audit.py\<close> under it, and the guarantee of the start-up
  recovery that no ended job is left with its start still pending.  A storage fault in the recorder, which ends the call
  that recorded, is not modelled.
\<close>

section \<open>The recorder\<close>

definition bounded_text :: "nat \<Rightarrow> string option \<Rightarrow> string option" where
  "bounded_text max_length v =
     map_option (\<lambda>s. if length s \<le> max_length then s else take (max_length - 15) s @ ''<truncated>'') v"

definition text_or :: "string option \<Rightarrow> string \<Rightarrow> string" where
  "text_or v fallback = (if falsy v then fallback else the v)"

definition pending_event :: "int \<Rightarrow> string \<Rightarrow> string \<Rightarrow> audit_event \<Rightarrow> bool" where
  "pending_event event_id expected_operation expected_target e \<longleftrightarrow> e_id e = event_id \<and> e_result e = ''pending'' \<and>
     Some (e_operation e) = bounded_text 255 (Some expected_operation) \<and>
     Some (e_target e) = bounded_text 255 (Some expected_target)"

definition finalize_pending :: "int \<Rightarrow> string \<Rightarrow> string \<Rightarrow> string \<Rightarrow> string \<Rightarrow> string option \<Rightarrow> manager_db \<Rightarrow> bool \<times> manager_db" where
  "finalize_pending event_id expected_operation expected_target outcome dispatch failure_category d =
     (let P = pending_event event_id expected_operation expected_target in
      (rowcount P (db_audit d) = 1,
       d\<lparr>db_audit := sql_update P (\<lambda>e. e\<lparr>e_result := text_or (bounded_text 32 (Some outcome)) outcome,
            e_dispatch_state := text_or (bounded_text 32 (Some dispatch)) dispatch,
            e_failure_category := bounded_text 64 failure_category\<rparr>) (db_audit d)\<rparr>))"

fun dispatch_value :: "dispatch_state \<Rightarrow> string" where
  "dispatch_value Not_Dispatched = ''not_dispatched''"
| "dispatch_value Unknown = ''unknown''"
| "dispatch_value Dispatched = ''dispatched''"

definition record_outcome :: "discovery_job \<Rightarrow> manager_db \<Rightarrow> manager_db" where
  "record_outcome job d = snd (finalize_pending (d_start_audit_event_id job) ''discovery.start''
     (''discovery:'' @ d_scope_id job) (if d_state job = DCompleted then ''success'' else ''failed'')
     (dispatch_value (d_aggregate_dispatch_state job))
     (case d_state job of DCancelled \<Rightarrow> Some ''discovery_cancelled''
      | DFailed \<Rightarrow> Some (text_or (d_safe_error_code job) ''discovery_failed'') | _ \<Rightarrow> None) d)"

section \<open>Pending events\<close>

definition awaits :: "manager_db \<Rightarrow> discovery_job \<Rightarrow> bool" where
  "awaits d j \<longleftrightarrow> list_ex (start_audit [''pending''] j) (db_audit d)"

lemma record_outcome_frame [simp]:
  "db_discovery_jobs (record_outcome j d) = db_discovery_jobs d" "db_discovery_results (record_outcome j d) = db_discovery_results d"
  by (simp_all add: record_outcome_def finalize_pending_def Let_def)

lemma short_target: "length (d_scope_id j) \<le> 64 \<Longrightarrow>
    pending_event (d_start_audit_event_id j) ''discovery.start'' (''discovery:'' @ d_scope_id j) = start_audit [''pending''] j"
  by (auto simp: fun_eq_iff pending_event_def start_audit_def bounded_text_def)

text \<open>Recording settles the job recorded and makes no event pending.\<close>

lemma recorded_events:
  assumes "e \<in> set (db_audit (record_outcome j d))" and "e_result e = ''pending''"
  shows "e \<in> set (db_audit d) \<and>
    \<not> pending_event (d_start_audit_event_id j) ''discovery.start'' (''discovery:'' @ d_scope_id j) e"
  using assms by (auto simp: record_outcome_def finalize_pending_def Let_def set_sql_update text_or_def falsy_def bounded_text_def
      split: if_splits)

lemma record_awaits: "awaits (record_outcome j d) k \<Longrightarrow> awaits d k"
  using recorded_events [of _ j d] by (fastforce simp: awaits_def list_ex_iff start_audit_def)

lemma record_settles: "length (d_scope_id j) \<le> 64 \<Longrightarrow> \<not> awaits (record_outcome j d) j"
proof
  assume "length (d_scope_id j) \<le> 64" and "awaits (record_outcome j d) j"
  then obtain e where "e \<in> set (db_audit (record_outcome j d))" and e: "start_audit [''pending''] j e" by (auto simp: awaits_def list_ex_iff)
  moreover from e have "e_result e = ''pending''" by (simp add: start_audit_def)
  ultimately show False using recorded_events short_target \<open>length (d_scope_id j) \<le> 64\<close> by metis
qed

lemma awaits_cong: "d_start_audit_event_id j = d_start_audit_event_id k \<Longrightarrow> d_scope_id j = d_scope_id k \<Longrightarrow> awaits d j = awaits d k"
  by (simp add: awaits_def start_audit_def [abs_def])

lemma fold_awaits: "awaits (fold record_outcome js d) k \<Longrightarrow> awaits d k"
  by (induction js arbitrary: d) (auto dest: record_awaits)

lemma fold_settles: "j \<in> set js \<Longrightarrow> length (d_scope_id j) \<le> 64 \<Longrightarrow> \<not> awaits (fold record_outcome js d) j"
  by (induction js arbitrary: d) (auto dest: fold_awaits simp: record_settles)

lemma fold_frame [simp]:
  "db_discovery_jobs (fold record_outcome js d) = db_discovery_jobs d" "db_discovery_results (fold record_outcome js d) = db_discovery_results d"
  by (induction js arbitrary: d) simp_all

section \<open>Start-up recovery\<close>

definition short_scopes :: "manager_db \<Rightarrow> bool" where
  "short_scopes d \<longleftrightarrow> (\<forall>j\<in>set (db_discovery_jobs d). length (d_scope_id j) \<le> 64)"

definition audit_settled :: "manager_db \<Rightarrow> bool" where
  "audit_settled d \<longleftrightarrow> short_scopes d \<and> distinct (map d_job_id (db_discovery_jobs d)) \<and>
     (\<forall>j\<in>set (db_discovery_jobs d). \<not> active_discovery j \<longrightarrow> \<not> awaits d j)"

lemma audit_settled_iff: "audit_settled d \<Longrightarrow> terminal_jobs_with_pending_audit d = []"
proof -
  assume "audit_settled d"
  then have "set (terminal_jobs_with_pending_audit d) = {}"
    by (auto simp: audit_settled_def terminal_jobs_with_pending_audit_def awaits_def)
  then show ?thesis by simp
qed

lemma pending_settled:
  assumes "short_scopes d" and "distinct (map d_job_id (db_discovery_jobs d))"
  shows "audit_settled (fold record_outcome (terminal_jobs_with_pending_audit d) d)"
proof -
  have "\<not> awaits (fold record_outcome (terminal_jobs_with_pending_audit d) d) j"
    if "j \<in> set (db_discovery_jobs d)" "\<not> active_discovery j" for j
  proof (cases "awaits d j")
    case True
    then have "j \<in> set (terminal_jobs_with_pending_audit d)" using that by (simp add: terminal_jobs_with_pending_audit_def awaits_def)
    then show ?thesis using fold_settles assms(1) that(1) by (auto simp: short_scopes_def)
  next
    case False
    then show ?thesis using fold_awaits by blast
  qed
  then show ?thesis using assms by (simp add: audit_settled_def short_scopes_def)
qed

lemma finish_settled:
  assumes "audit_settled d" and "finish i st now err d = Inr (f, d')"
  shows "audit_settled (record_outcome f d')"
proof -
  let ?g = "\<lambda>j. j\<lparr>d_state := st, d_safe_error_code := err, d_updated_at := now, d_completed_at := Some now\<rparr>"
  have u: "update_discovery_jobs (finishable i st) ?g d = Some d'" and g: "get_job i d' = Some f"
    using assms(2) by (auto simp: finish_def split: option.splits)
  have rows: "db_discovery_jobs d' = map (\<lambda>j. if finishable i st j then ?g j else j) (db_discovery_jobs d)" "db_audit d' = db_audit d"
    using u by (auto simp: update_discovery_Some sql_update_def)
  have ids: "map d_job_id (db_discovery_jobs d') = map d_job_id (db_discovery_jobs d)" by (simp add: rows)
  then have dist: "distinct (map d_job_id (db_discovery_jobs d'))" using assms(1) by (simp add: audit_settled_def)
  have short: "short_scopes d'" using assms(1) by (auto simp: audit_settled_def short_scopes_def rows)
  have "\<not> awaits (record_outcome f d') k" if k: "k \<in> set (db_discovery_jobs d')" "\<not> active_discovery k" for k
  proof (cases "d_job_id k = i")
    case True
    then have "k = f" using get_job_mem [OF g] dist k(1) by (auto simp: distinct_map inj_on_def)
    then show ?thesis using record_settles short k(1) by (auto simp: short_scopes_def)
  next
    case False
    then have "k \<in> set (db_discovery_jobs d)" using k(1) by (auto simp: rows finishable_def split: if_splits)
    then have "\<not> awaits d k" using assms(1) k(2) by (simp add: audit_settled_def)
    then show ?thesis using record_awaits [of f d' k] by (auto simp: awaits_def rows)
  qed
  then show ?thesis using short dist by (simp add: audit_settled_def short_scopes_def)
qed

lemma resume_settled:
  assumes "cf_recorder cfg = record_outcome" and "audit_settled d" and "resume_scans cfg now jobs d = (r, d')"
  shows "audit_settled d'"
  using assms(2,3)
proof (induction jobs arbitrary: d r)
  case (Cons job jobs)
  show ?case
  proof (cases "scope_of cfg (d_scope_id job)")
    case None
    then show ?thesis
      using Cons.prems Cons.IH [OF finish_settled [OF Cons.prems(1)]] assms(1) by (auto split: sum.splits)
  next
    case (Some scope)
    then show ?thesis using Cons by (auto split: option.splits prod.splits)
  qed
qed simp

lemma update_ids:
  assumes "update_discovery_jobs P f d = Some d'" and "\<And>j. d_job_id (f j) = d_job_id j \<and> d_scope_id (f j) = d_scope_id j"
  shows "map d_job_id (db_discovery_jobs d') = map d_job_id (db_discovery_jobs d) \<and>
    map d_scope_id (db_discovery_jobs d') = map d_scope_id (db_discovery_jobs d)"
  using assms by (simp add: update_discovery_Some sql_update_def)

lemma update_some:
  assumes "\<forall>j\<in>set (db_discovery_jobs d). check_discovery_job j" and "\<And>j. check_discovery_job (f j) = check_discovery_job j"
  obtains d' where "update_discovery_jobs P f d = Some d'" and "\<forall>j\<in>set (db_discovery_jobs d'). check_discovery_job j"
  using assms by (auto simp: update_discovery_jobs_def set_sql_update)

lemma recover_jobs:
  assumes "discovery_ok d"
  obtains resumable ended d' where "recover now d = Inr ((resumable, ended), d')"
    and "map d_job_id (db_discovery_jobs d') = map d_job_id (db_discovery_jobs d)"
    and "map d_scope_id (db_discovery_jobs d') = map d_scope_id (db_discovery_jobs d)"
proof -
  have c: "check_discovery_job (set_cancelled_job now j) = check_discovery_job j" "check_discovery_job (set_timeout now j) = check_discovery_job j"
    "check_discovery_job (j\<lparr>d_state := DQueued, d_updated_at := now\<rparr>) = check_discovery_job j" for j
    by (simp_all add: check_discovery_job_def set_cancelled_job_def set_timeout_def)
  obtain d1 where d1: "update_discovery_jobs cancelling (set_cancelled_job now) d = Some d1" "\<forall>j\<in>set (db_discovery_jobs d1). check_discovery_job j"
    using update_some [OF _ c(1), of d cancelling] assms by (auto simp: discovery_ok_def)
  obtain d2 where d2: "update_discovery_jobs (\<lambda>j. d_state j = DRunning \<and> \<not> d_cancel_requested j \<and> now < d_deadline_at j)
      (\<lambda>j. j\<lparr>d_state := DQueued, d_updated_at := now\<rparr>) d1 = Some d2" "\<forall>j\<in>set (db_discovery_jobs d2). check_discovery_job j"
    by (rule update_some [OF d1(2) c(3)])
  obtain d3 where d3: "update_discovery_jobs (\<lambda>j. overdue now j \<and> \<not> d_cancel_requested j) (set_timeout now) d2 = Some d3"
    by (rule update_some [OF d2(2) c(2)])
  have ids: "d_job_id (set_cancelled_job now j) = d_job_id j \<and> d_scope_id (set_cancelled_job now j) = d_scope_id j"
    "d_job_id (set_timeout now j) = d_job_id j \<and> d_scope_id (set_timeout now j) = d_scope_id j"
    "d_job_id (j\<lparr>d_state := DQueued, d_updated_at := now\<rparr>) = d_job_id j \<and> d_scope_id (j\<lparr>d_state := DQueued, d_updated_at := now\<rparr>) = d_scope_id j"
    for j by (simp_all add: set_cancelled_job_def set_timeout_def)
  note u = update_ids [OF d1(1) ids(1)] update_ids [OF d2(1) ids(3)] update_ids [OF d3 ids(2)]
  show ?thesis
  proof (rule that)
    show "recover now d = Inr ((sort_key d_created_at (filter (\<lambda>j. d_state j = DQueued \<and> \<not> d_cancel_requested j) (db_discovery_jobs d3)),
        map (set_cancelled_job now) (filter cancelling (db_discovery_jobs d)) @
        map (set_timeout now) (filter (\<lambda>j. overdue now j \<and> \<not> d_cancel_requested j) (db_discovery_jobs d1))), d3)"
      by (simp add: recover_def d1(1) d2(1) d3 Let_def)
    show "map d_job_id (db_discovery_jobs d3) = map d_job_id (db_discovery_jobs d)"
      "map d_scope_id (db_discovery_jobs d3) = map d_scope_id (db_discovery_jobs d)" using u by argo+
  qed
qed

lemma delete_settled: "audit_settled d \<Longrightarrow> audit_settled (delete_discovery_jobs P d)"
  by (auto simp: audit_settled_def delete_discovery_jobs_def sql_delete_def short_scopes_def awaits_def distinct_map_filter)

lemma short_scopes_map: "short_scopes d \<longleftrightarrow> (\<forall>s\<in>set (map d_scope_id (db_discovery_jobs d)). length s \<le> 64)"
  by (simp add: short_scopes_def)

text \<open>
  \<open>C29\<close>.  After the start-up recovery of the discovery service no ended job has its start still pending in the audit
  log: neither those that recovery itself cancelled, timed out or gave up for want of their scope, nor those whose
  outcome an earlier process stored but did not record, whether the call succeeds or stops half way at an unknown
  profile.
\<close>

theorem recovery_settles_audit:
  assumes "discovery_ok d" and "\<forall>j\<in>set (db_discovery_jobs d). length (d_scope_id j) \<le> 64"
    and "cf_recorder cfg = record_outcome" and "recover_scans cfg now d = (r, d')"
  shows "terminal_jobs_with_pending_audit d' = []"
proof -
  obtain resumable ended d0 where rec: "recover now d = Inr ((resumable, ended), d0)"
    and ids: "map d_job_id (db_discovery_jobs d0) = map d_job_id (db_discovery_jobs d)"
      "map d_scope_id (db_discovery_jobs d0) = map d_scope_id (db_discovery_jobs d)"
    using recover_jobs [OF assms(1)] by blast
  let ?d1 = "fold record_outcome ended d0"
  let ?d2 = "fold record_outcome (terminal_jobs_with_pending_audit ?d1) ?d1"
  have "short_scopes ?d1 \<and> distinct (map d_job_id (db_discovery_jobs ?d1))"
    using ids assms(1,2) by (simp add: short_scopes_map discovery_ok_def discovery_jobs_unique_def del: set_map) simp
  then have "audit_settled ?d2" using pending_settled by blast
  then have "audit_settled d'"
    using assms(3,4) resume_settled [OF assms(3) delete_settled]
    by (auto simp: recover_scans_def rec Let_def cleanup_def)
  then show ?thesis by (rule audit_settled_iff)
qed

end
