(* ===== verification/Scan_Config.thy ===== *)
theory Scan_Config
  imports Discovery_Audit Ip_Roundtrip
begin

text \<open>
  The validated configuration of the discovery service (\<open>DiscoveryScopeConfig\<close> and \<open>DiscoveryConfig\<close> of
  \<open>config/models.py\<close>) and what it guarantees of a scan that is started: its targets, their number, and that the
  undisturbed scan leaves one result for every host and endpoint of the scope.
\<close>

section \<open>Validation\<close>

text \<open>\<open>IPv4Network.is_private\<close> and \<open>IPv6Network.is_private\<close> of \<open>ipaddress\<close>, with the tables of CPython 3.11.\<close>

definition private_networks :: "network \<Rightarrow> network list" where
  "private_networks n = (case n of
     Net4 _ _ \<Rightarrow> [net4 0 0 8, net4 10 0 8, net4 127 0 8, net4 169 254 16, net4 172 16 12, Net4 0xC0000000 24,
       Net4 0xC00000AA 31, Net4 0xC0000200 24, net4 192 168 16, net4 198 18 15, Net4 0xC6336400 24,
       Net4 0xCB007100 24, net4 240 0 4, Net4 0xFFFFFFFF 32]
   | Net6 _ _ \<Rightarrow> [Net6 1 128, Net6 0 128, Net6 0xFFFF00000000 96, Net6 (0x64FF9B0001 * 2 ^ 80) 48, net6 0x100 64,
       net6 0x2001 23, Net6 (0x20010DB8 * 2 ^ 96) 32, net6 0x2002 16, net6 0xFC00 7, net6 0xFE80 10])"

definition private_exceptions :: "network \<Rightarrow> network list" where
  "private_exceptions n = (case n of
     Net4 _ _ \<Rightarrow> [Net4 0xC0000009 32, Net4 0xC000000A 32]
   | Net6 _ _ \<Rightarrow> [Net6 (0x20010001 * 2 ^ 96 + 1) 128, Net6 (0x20010001 * 2 ^ 96 + 2) 128, Net6 (0x20010003 * 2 ^ 96) 32,
       Net6 (0x200100040112 * 2 ^ 80) 48, Net6 (0x20010020 * 2 ^ 96) 28, Net6 (0x20010030 * 2 ^ 96) 28])"

definition network_address :: "network \<Rightarrow> ip" where
  "network_address n = ip_of_int n (net_int n)"

definition broadcast_address :: "network \<Rightarrow> ip" where
  "broadcast_address n = ip_of_int n (net_int n + 2 ^ net_shift n - 1)"

definition network_is_private :: "network \<Rightarrow> bool" where
  "network_is_private n \<longleftrightarrow>
     list_ex (\<lambda>p. in_network (network_address n) p \<and> in_network (broadcast_address n) p) (private_networks n) \<and>
     list_all (\<lambda>p. \<not> in_network (network_address n) p \<and> \<not> in_network (broadcast_address n) p) (private_exceptions n)"

text \<open>What the constructor of a network guarantees: a prefix of the address family and no host bits.\<close>

definition network_wf :: "network \<Rightarrow> bool" where
  "network_wf n \<longleftrightarrow> 0 \<le> net_int n \<and> net_int n mod 2 ^ net_shift n = 0 \<and>
     (case n of Net4 a p \<Rightarrow> p \<le> 32 \<and> a < 2 ^ 32 | Net6 a p \<Rightarrow> p \<le> 128 \<and> a < 2 ^ 128)"

definition id_char :: "char \<Rightarrow> bool" where
  "id_char c \<longleftrightarrow> (CHR ''a'' \<le> c \<and> c \<le> CHR ''z'') \<or> (CHR ''0'' \<le> c \<and> c \<le> CHR ''9'')"

definition config_id :: "string \<Rightarrow> bool" where
  "config_id s \<longleftrightarrow> s \<noteq> [] \<and> id_char (hd s) \<and> length s \<le> 64 \<and> list_all (\<lambda>c. id_char c \<or> c = CHR ''_'' \<or> c = CHR ''-'') (tl s)"

definition endpoint_fields :: "discovery_endpoint \<Rightarrow> bool" where
  "endpoint_fields en \<longleftrightarrow> 1 \<le> en_port en \<and> en_port en \<le> 65535 \<and> config_id (en_transport_profile_id en)"

definition scope_fields :: "discovery_scope \<Rightarrow> bool" where
  "scope_fields s \<longleftrightarrow> config_id (so_id s) \<and> 1 \<le> length (so_name s) \<and> length (so_name s) \<le> 128 \<and> network_wf (so_cidr s) \<and> 1 \<le> length (so_endpoints s) \<and>
     length (so_endpoints s) \<le> 8 \<and> list_all endpoint_fields (so_endpoints s)"

definition validate_scope :: "discovery_scope \<Rightarrow> string + unit" where
  "validate_scope s = (let network = so_cidr s; address = network_address network in
     if \<not> network_is_private network \<or> is_loopback address \<or> is_link_local address \<or> is_multicast address \<or>
        is_unspecified address \<or> is_reserved address
     then Inl ''discovery CIDR must be private non-loopback''
     else if 256 < (2 :: int) ^ net_shift network then Inl ''discovery scope supports at most 256 addresses''
     else if \<not> distinct (map (\<lambda>en. (en_port en, en_transport_profile_id en)) (so_endpoints s))
     then Inl ''discovery endpoints must be unique''
     else Inr ())"

text \<open>The time limit of a single probe, a float that only the environment's answers depend on, is left out.\<close>

definition config_fields :: "service_config \<Rightarrow> nat \<Rightarrow> bool" where
  "config_fields cfg max_concurrency \<longleftrightarrow> 1 \<le> max_concurrency \<and> max_concurrency \<le> 32 \<and>
     50 \<le> cf_connect_timeout_ms cfg \<and> cf_connect_timeout_ms cfg \<le> 5000 \<and>
     1 \<le> cf_job_timeout_seconds cfg \<and> cf_job_timeout_seconds cfg \<le> 600 \<and>
     3600 \<le> cf_retention_seconds cfg \<and> cf_retention_seconds cfg \<le> 604800 \<and>
     1 \<le> cf_max_targets cfg \<and> cf_max_targets cfg \<le> 2048"

definition validate_scope_ids :: "service_config \<Rightarrow> string + unit" where
  "validate_scope_ids cfg =
     (if distinct (map so_id (cf_scopes cfg)) then Inr () else Inl ''discovery scope IDs must be unique'')"

definition config_valid :: "service_config \<Rightarrow> nat \<Rightarrow> bool" where
  "config_valid cfg max_concurrency \<longleftrightarrow> config_fields cfg max_concurrency \<and>
     list_all (\<lambda>s. scope_fields s \<and> validate_scope s = Inr ()) (cf_scopes cfg) \<and> validate_scope_ids cfg = Inr ()"

section \<open>Addresses\<close>

lemma base_digits:
  assumes "0 < B"
  shows "foldl (\<lambda>v b. v * B + int b) a (map (\<lambda>e. nat (n div B ^ e mod B)) (rev [0..<k])) = a * B ^ k + n mod B ^ k"
proof (induction k arbitrary: a)
  case (Suc k)
  have "n mod (B ^ k * B) = B ^ k * (n div B ^ k mod B) + n mod B ^ k"
    using assms by (simp add: zmod_zmult2_eq)
  then show ?case using Suc assms by (simp add: algebra_simps)
qed simp

lemma ip_int_of_int:
  assumes "0 \<le> x" and "x < (case n of Net4 _ _ \<Rightarrow> 2 ^ 32 | Net6 _ _ \<Rightarrow> 2 ^ 128)"
  shows "ip_int (ip_of_int n x) = x"
proof (cases n)
  case (Net4 a p)
  have r: "[3, 2, 1, 0] = rev [0..<4]" by (simp add: upt_rec)
  have "ip_int (ip_of_int n x) = foldl (\<lambda>v b. v * 256 + int b) 0 (map (\<lambda>e. nat (x div 256 ^ e mod 256)) (rev [0..<4]))"
    by (simp only: Net4 ip_of_int.simps ip_int.simps r)
  also have "\<dots> = 0 * 256 ^ 4 + x mod 256 ^ 4" by (rule base_digits) simp
  also have "\<dots> = x" using assms Net4 by simp
  finally show ?thesis .
next
  case (Net6 a p)
  have r: "[7, 6, 5, 4, 3, 2, 1, 0] = rev [0..<8]" by (simp add: upt_rec)
  have "ip_int (ip_of_int n x) = foldl (\<lambda>v b. v * 65536 + int b) 0 (map (\<lambda>e. nat (x div 65536 ^ e mod 65536)) (rev [0..<8]))"
    by (simp only: Net6 ip_of_int.simps ip_int.simps r)
  also have "\<dots> = 0 * 65536 ^ 8 + x mod 65536 ^ 8" by (rule base_digits) simp
  also have "\<dots> = x" using assms Net6 by simp
  finally show ?thesis .
qed

lemma ip_of_int_parses: "ip_address (ip_str (ip_of_int n x)) = Some (ip_of_int n x)"
proof (cases n)
  case (Net4 a p)
  have "parse_ipv4 (str_ipv4 (map (\<lambda>e. nat (x div 256 ^ e mod 256)) [3, 2, 1, 0])) = Some (map (\<lambda>e. nat (x div 256 ^ e mod 256)) [3, 2, 1, 0])"
    by (rule parse_str_ipv4) (auto simp: nat_less_iff)
  then show ?thesis by (simp only: Net4 ip_of_int.simps ip_str.simps ip_address_def option.case)
next
  case (Net6 a p)
  let ?g = "map (\<lambda>e. nat (x div 65536 ^ e mod 65536)) [7, 6, 5, 4, 3, 2, 1, 0]"
  have "parse_ipv6 (str_ipv6 (?g, None)) = Some (?g, None)" by (rule parse_str_ipv6) (auto simp: nat_less_iff)
  moreover from this have "parse_ipv4 (str_ipv6 (?g, None)) = None" by (rule ipv6_text_not_ipv4)
  ultimately show ?thesis by (simp only: Net6 ip_of_int.simps ip_str.simps ip_address_def option.case option.map prod.case)
qed

lemma net_bound:
  assumes "network_wf n" and "x < net_int n + 2 ^ net_shift n"
  shows "x < (case n of Net4 _ _ \<Rightarrow> 2 ^ 32 | Net6 _ _ \<Rightarrow> 2 ^ 128)"
proof -
  have step: "a + 2 ^ (w - p) \<le> 2 ^ w" if h: "0 \<le> a" "a < 2 ^ w" "a mod 2 ^ (w - p) = 0" "p \<le> w" for a :: int and w p :: nat
  proof -
    obtain q where q: "a = q * 2 ^ (w - p)" using h(3) by (metis mod_0_imp_dvd dvd_div_mult_self)
    have w: "(2 :: int) ^ w = 2 ^ p * 2 ^ (w - p)" using h(4) by (simp flip: power_add)
    then have "q < 2 ^ p" using h(2) q by simp
    then have "(q + 1) * 2 ^ (w - p) \<le> 2 ^ p * 2 ^ (w - p)" by (intro mult_right_mono) simp_all
    then show ?thesis using q w by (simp add: algebra_simps)
  qed
  show ?thesis
  proof (cases n)
    case (Net4 a p)
    then show ?thesis using assms step [of a 32 p] by (simp add: network_wf_def)
  next
    case (Net6 a p)
    then show ?thesis using assms step [of a 128 p] by (simp add: network_wf_def)
  qed
qed

lemma hosts_range:
  "x \<in> set (host_ints n) \<Longrightarrow> net_int n \<le> x \<and> x < net_int n + 2 ^ net_shift n"
  by (auto simp: host_ints_def Let_def split: if_splits network.splits)

lemma hosts_distinct: "distinct (host_ints n)"
  by (auto simp: host_ints_def Let_def split: network.splits)

text \<open>An address of the scope is in its network, and different hosts print differently.\<close>

lemma host_in_network:
  assumes "network_wf n" and "x \<in> set (host_ints n)"
  shows "ip_int (ip_of_int n x) = x \<and> in_network (ip_of_int n x) n"
proof -
  have x: "net_int n \<le> x" "x < net_int n + 2 ^ net_shift n" using hosts_range [OF assms(2)] by auto
  then have i: "ip_int (ip_of_int n x) = x"
    using assms(1) net_bound [OF assms(1) x(2)] by (intro ip_int_of_int) (auto simp: network_wf_def)
  obtain q where q: "net_int n = q * 2 ^ net_shift n" using assms(1) by (metis network_wf_def mod_0_imp_dvd dvd_div_mult_self)
  have "x div 2 ^ net_shift n = q" by (rule int_div_pos_eq [of _ _ _ "x - net_int n"]) (use x q in \<open>simp_all add: algebra_simps\<close>)
  moreover have "net_int n div 2 ^ net_shift n = q" by (simp add: q)
  moreover have "same_version (ip_of_int n x) n" by (cases n) simp_all
  ultimately show ?thesis using i by (simp add: in_network_def)
qed

lemma hosts_print_apart:
  assumes "network_wf n" and "x \<in> set (host_ints n)" and "y \<in> set (host_ints n)" and "ip_str (ip_of_int n x) = ip_str (ip_of_int n y)"
  shows "x = y"
proof -
  have "Some (ip_of_int n x) = Some (ip_of_int n y)" using ip_of_int_parses assms(4) by metis
  then show ?thesis using host_in_network [OF assms(1,2)] host_in_network [OF assms(1,3)] by (metis option.inject)
qed

section \<open>The targets of a validated scope\<close>

lemma all_some_iff: "all_some xs = Some ys \<longleftrightarrow> xs = map Some ys"
proof (induction xs arbitrary: ys)
  case (Cons x xs)
  then show ?case by (cases x; cases ys) (auto split: option.splits)
qed auto

definition host_endpoints :: "discovery_scope \<Rightarrow> (int \<times> discovery_endpoint) list" where
  "host_endpoints s = List.product (host_ints (so_cidr s)) (so_endpoints s)"

definition endpoint_key :: "discovery_scope \<Rightarrow> int \<times> discovery_endpoint \<Rightarrow> string \<times> int \<times> string" where
  "endpoint_key s = (\<lambda>(n, en). (ip_str (ip_of_int (so_cidr s) n), en_port en, en_transport_profile_id en))"

lemma endpoint_target_Some:
  assumes "endpoint_target profiles a en = Some t"
  shows "target_key t = (a, en_port en, en_transport_profile_id en)"
  using assms by (auto simp: endpoint_target_def target_key_def find_profile_def find_Some_iff split: option.splits)

lemma scope_targets_keys:
  assumes "scope_targets profiles s = Some ts"
  shows "map target_key ts = map (endpoint_key s) (host_endpoints s)"
proof -
  let ?g = "\<lambda>(n, en). endpoint_target profiles (ip_str (ip_of_int (so_cidr s) n)) en"
  have "map Some ts = map ?g (host_endpoints s)"
    using assms by (simp add: scope_targets_def all_some_iff host_endpoints_def product_concat_map map_concat comp_def)
  then have g: "ts = map (the \<circ> ?g) (host_endpoints s)" "\<forall>p\<in>set (host_endpoints s). ?g p \<noteq> None"
  proof -
    assume m: "map Some ts = map ?g (host_endpoints s)"
    have "ts = map the (map Some ts)" by (simp add: comp_def)
    then show "ts = map (the \<circ> ?g) (host_endpoints s)" by (simp add: m)
    show "\<forall>p\<in>set (host_endpoints s). ?g p \<noteq> None" using arg_cong [OF m, of set] by (metis imageI list.set_map option.distinct(1) imageE)
  qed
  have "target_key (the (?g p)) = endpoint_key s p" if "p \<in> set (host_endpoints s)" for p
  proof -
    obtain n en where p: "p = (n, en)" by fastforce
    have "?g (n, en) \<noteq> None" using g(2) that p by blast
    then obtain t where "endpoint_target profiles (ip_str (ip_of_int (so_cidr s) n)) en = Some t" by auto
    then show ?thesis using endpoint_target_Some p by (simp add: endpoint_key_def)
  qed
  then show ?thesis by (simp add: g(1))
qed

lemma validated_keys:
  assumes "scope_fields s" and "validate_scope s = Inr ()"
  shows "distinct (map (endpoint_key s) (host_endpoints s)) \<and> length (host_endpoints s) \<le> 2048"
proof -
  have wf: "network_wf (so_cidr s)" and ens: "length (so_endpoints s) \<le> 8" using assms(1) by (simp_all add: scope_fields_def)
  have v: "distinct (map (\<lambda>en. (en_port en, en_transport_profile_id en)) (so_endpoints s))" "(2 :: int) ^ net_shift (so_cidr s) \<le> 256"
    using assms(2) by (auto simp: validate_scope_def Let_def split: if_splits)
  have "distinct (so_endpoints s)" using v(1) by (simp add: distinct_map)
  then have "distinct (host_endpoints s)" by (simp add: host_endpoints_def distinct_product hosts_distinct)
  moreover have "inj_on (endpoint_key s) (set (host_endpoints s))"
    using v(1) hosts_print_apart [OF wf] unfolding inj_on_def host_endpoints_def endpoint_key_def distinct_map by fastforce
  ultimately have "distinct (map (endpoint_key s) (host_endpoints s))" by (simp add: distinct_map)
  moreover have "int (length (host_ints (so_cidr s))) \<le> 2 ^ net_shift (so_cidr s)"
    by (auto simp: host_ints_def Let_def split: network.splits)
  then have "length (host_ints (so_cidr s)) \<le> 256" using v(2) by linarith
  then have "length (host_ints (so_cidr s)) * length (so_endpoints s) \<le> 256 * 8" using ens mult_le_mono by blast
  ultimately show ?thesis by (simp add: host_endpoints_def)
qed

section \<open>A scan that is started\<close>

lemma discovery_frame:
  assumes "db_discovery_jobs d' = db_discovery_jobs d" and "db_discovery_results d' = db_discovery_results d"
  shows "discovery_ok d' = discovery_ok d \<and> counters_true d' = counters_true d"
  using assms by (simp add: discovery_ok_def counters_true_def checked_count_def found_count_def)

lemma scope_of_Some: "scope_of cfg i = Some s \<Longrightarrow> s \<in> set (cf_scopes cfg) \<and> so_id s = i"
  unfolding scope_of_def by (metis (mono_tags, lifting) find_Some_iff nth_mem set_rev)

lemma find_last: "find P xs = None \<Longrightarrow> P x \<Longrightarrow> find P (xs @ [x]) = Some x"
  by (induction xs) (auto split: if_splits)

lemma start_scan_Inr:
  assumes "start_scan cfg False scope_id audit_id uuid now1 now2 d = (Inr (job, targets), d')"
  obtains scope expired d0 where "scope \<in> set (cf_scopes cfg)" and "so_id scope = scope_id"
    and "expire_deadlines now1 d = Inr (expired, d0)" and "scope_targets (cf_profiles cfg) scope = Some targets"
    and "int (length targets) \<le> cf_max_targets cfg" and "job = queued_job cfg uuid scope_id audit_id (length targets) now2"
    and "create_job job max_active_jobs (fold (cf_recorder cfg) expired d0) = Inr (job, d')"
proof -
  obtain scope where sc: "scope_of cfg scope_id = Some scope"
    using assms by (cases "scope_of cfg scope_id") (auto simp: start_scan_def)
  have same: "create_job j m x = Inr (v, y) \<Longrightarrow> v = j" for j m x v y by (auto simp: create_job_def split: if_splits option.splits)
  obtain expired d0 where e: "expire_deadlines now1 d = Inr (expired, d0)" "scope_targets (cf_profiles cfg) scope = Some targets"
    "int (length targets) \<le> cf_max_targets cfg"
    "create_job (queued_job cfg uuid scope_id audit_id (length targets) now2) max_active_jobs (fold (cf_recorder cfg) expired d0) = Inr (job, d')"
    using assms sc by (auto simp: start_scan_def Let_def split: option.splits sum.splits if_splits)
  show thesis using that [OF _ _ e(1-3)] scope_of_Some [OF sc] same [OF e(4)] e(4) by blast
qed

text \<open>The job a start stores is ready to be claimed and has no result.\<close>

lemma started_job:
  assumes "start_scan cfg False scope_id audit_id uuid now1 now2 d = (Inr (job, targets), d')"
    and "cf_recorder cfg = record_outcome" and "discovery_ok d" and "counters_true d"
  shows "discovery_ok d' \<and> counters_true d' \<and> get_job uuid d' = Some job \<and> claimable uuid job \<and>
    d_total_targets job = int (length targets) \<and> result_keys uuid d' = {} \<and> db_discovery_results d' = db_discovery_results d"
proof -
  obtain scope expired d0 where e: "expire_deadlines now1 d = Inr (expired, d0)"
    and job: "job = queued_job cfg uuid scope_id audit_id (length targets) now2"
    and c: "create_job job max_active_jobs (fold (cf_recorder cfg) expired d0) = Inr (job, d')"
    using start_scan_Inr [OF assms(1)] by metis
  let ?d1 = "fold record_outcome expired d0"
  have "run_discovery (DExpire now1) d = Inr ((), d0)" using e by (simp add: done_with_def)
  from discovery.run_inv [OF assms(3) this] run_discovery_counters [OF this assms(3,4)]
  have ok1: "discovery_ok ?d1" "counters_true ?d1" using discovery_frame [of ?d1 d0] by simp_all
  have c': "create_job job max_active_jobs ?d1 = Inr (job, d')" using c assms(2) by simp
  have z: "d_checked_targets job = 0" "d_found_targets job = 0" "d_job_id job = uuid" "job\<lparr>d_completed_at := None\<rparr> = job"
    by (simp_all add: job queued_job_def)
  have rows: "db_discovery_jobs d' = db_discovery_jobs ?d1 @ [job]" "db_discovery_results d' = db_discovery_results ?d1"
    and new: "uuid \<notin> d_job_id ` set (db_discovery_jobs ?d1)"
    using create_job_rows [OF c'] z by (auto simp: discovery_jobs_unique_def)
  have "db_discovery_results d0 = db_discovery_results d"
    using e by (auto simp: expire_deadlines_def update_discovery_Some split: option.splits)
  then have r: "db_discovery_results d' = db_discovery_results d" using rows(2) by simp
  have "\<forall>r\<in>set (db_discovery_results ?d1). dr_job_id r \<noteq> uuid" using ok1(1) new by (auto simp: discovery_ok_def)
  then have "result_keys uuid d' = {}" using rows(2) by (auto simp: result_keys_def)
  moreover have "get_job uuid d' = Some job"
    unfolding get_job_def rows by (rule find_last) (use new z in \<open>auto simp: find_None_iff image_iff\<close>)
  moreover have "claimable uuid job" "d_total_targets job = int (length targets)" by (simp_all add: job queued_job_def claimable_def)
  ultimately show ?thesis using create_job_ok [OF c' ok1(1)] create_counters [OF c' ok1 z(1,2)] r by simp
qed

text \<open>
  The hosts of a network by their number: every address of a network of one or two addresses; of a larger one, every
  address but the first and, for IPv4, the last.
\<close>

definition is_host :: "network \<Rightarrow> int \<Rightarrow> bool" where
  "is_host n x \<longleftrightarrow> net_int n \<le> x \<and> x < net_int n + 2 ^ net_shift n \<and>
     (2 \<le> net_shift n \<longrightarrow> x \<noteq> net_int n \<and> (case n of Net4 _ _ \<Rightarrow> x \<noteq> net_int n + 2 ^ net_shift n - 1 | Net6 _ _ \<Rightarrow> True))"

lemma hosts_exact: "set (host_ints n) = {x. is_host n x}"
  by (auto simp: host_ints_def is_host_def Let_def split: network.splits)

lemma endpoint_keys_exact:
  "endpoint_key s ` set (host_endpoints s) = {(ip_str (ip_of_int (so_cidr s) x), en_port en, en_transport_profile_id en) |x en.
     is_host (so_cidr s) x \<and> en \<in> set (so_endpoints s)}"
  by (fastforce simp: host_endpoints_def endpoint_key_def hosts_exact image_iff)

text \<open>
  \<open>C26\<close>.  From the configuration to the last result: a scan that starts under a configuration that passes validation,
  and then runs undisturbed, ends as completed with exactly one result for every pair of a host of the scope's network and
  an endpoint of the scope.  The hosts are all addresses of a network of one or two addresses, and of a larger one all but
  the first and, for IPv4, the last.  The scan has at most 2048 targets, and everything it probes is an address of the
  network.
\<close>

theorem started_scan_covers_scope:
  fixes env :: service_env and rounds :: "nat list list"
  assumes "config_valid cfg (s_max_concurrency env)" and "cf_recorder cfg = record_outcome" and "calm env"
    and "discovery_ok d" and "counters_true d" and "range (s_uuid env) \<inter> dr_result_id ` set (db_discovery_results d) = {}"
    and "start_scan cfg False scope_id audit_id uuid now1 now2 d = (Inr (job, targets), d')"
    and "4 * length targets + s_max_concurrency env \<le> length rounds"
    and "\<forall>r\<in>set rounds. {..<s_max_concurrency env} \<subseteq> set r"
  shows "\<exists>scope s0 f s'. scope \<in> set (cf_scopes cfg) \<and> so_id scope = scope_id \<and>
    begin_scan env uuid targets d' = Some s0 \<and> end_scan env uuid (run_schedule env uuid (concat rounds) s0) = (Some f, s') \<and>
    d_state f = DCompleted \<and> d_checked_targets f = int (card {x. is_host (so_cidr scope) x} * length (so_endpoints scope)) \<and>
    d_checked_targets f \<le> 2048 \<and>
    result_keys uuid (sc_db (run_schedule env uuid (concat rounds) s0)) =
      {(ip_str (ip_of_int (so_cidr scope) x), en_port en, en_transport_profile_id en) |x en.
        is_host (so_cidr scope) x \<and> en \<in> set (so_endpoints scope)} \<and>
    (\<forall>t\<in>set (sc_probes (run_schedule env uuid (concat rounds) s0)). \<exists>a. ip_address (t_ip t) = Some a \<and> in_network a (so_cidr scope))"
proof -
  obtain scope where scope: "scope \<in> set (cf_scopes cfg)" "so_id scope = scope_id"
    and ts: "scope_targets (cf_profiles cfg) scope = Some targets"
    using start_scan_Inr [OF assms(7)] by metis
  have val: "scope_fields scope" "validate_scope scope = Inr ()" "1 \<le> s_max_concurrency env"
    using assms(1) scope(1) by (auto simp: config_valid_def list_all_iff config_fields_def)
  note keys = scope_targets_keys [OF ts] and dist = validated_keys [OF val(1,2)]
  have ports: "\<forall>t\<in>set targets. 1 \<le> t_port t \<and> t_port t \<le> 65535"
  proof
    fix t assume "t \<in> set targets"
    then have "target_key t \<in> set (map (endpoint_key scope) (host_endpoints scope))" by (simp flip: keys)
    then show "1 \<le> t_port t \<and> t_port t \<le> 65535"
      using val(1) by (auto simp: endpoint_key_def host_endpoints_def target_key_def scope_fields_def list_all_iff endpoint_fields_def)
  qed
  note st = started_job [OF assms(7,2,4,5)]
  obtain s0 f s' where run: "begin_scan env uuid targets d' = Some s0"
      "result_keys uuid (sc_db (run_schedule env uuid (concat rounds) s0)) = target_key ` set targets"
      "end_scan env uuid (run_schedule env uuid (concat rounds) s0) = (Some f, s')"
      "d_state f = DCompleted" "d_checked_targets f = int (length targets)"
    using calm_scan_completes [OF assms(3), of d' uuid job targets rounds] st dist ports val(3) assms(6,8,9) by (auto simp: keys)
  have "length targets = card {x. is_host (so_cidr scope) x} * length (so_endpoints scope)" "length targets \<le> 2048"
    using arg_cong [OF keys, of length] dist
    by (simp_all add: host_endpoints_def distinct_card [OF hosts_distinct] flip: hosts_exact)
  moreover have "target_key ` set targets = {(ip_str (ip_of_int (so_cidr scope) x), en_port en, en_transport_profile_id en) |x en.
      is_host (so_cidr scope) x \<and> en \<in> set (so_endpoints scope)}"
    using arg_cong [OF keys, of set] by (simp flip: endpoint_keys_exact)
  moreover have "\<exists>a. ip_address (t_ip t) = Some a \<and> in_network a (so_cidr scope)" if "t \<in> set targets" for t
  proof -
    have "target_key t \<in> endpoint_key scope ` set (host_endpoints scope)" using that arg_cong [OF keys, of set] by auto
    then obtain x where "x \<in> set (host_ints (so_cidr scope))" "t_ip t = ip_str (ip_of_int (so_cidr scope) x)"
      by (auto simp: endpoint_key_def host_endpoints_def target_key_def)
    then show ?thesis using ip_of_int_parses host_in_network val(1) by (auto simp: scope_fields_def)
  qed
  moreover have "\<exists>a. ip_address (t_ip t) = Some a \<and> in_network a (so_cidr scope)"
    if "t \<in> set (sc_probes (run_schedule env uuid (concat rounds) s0))" for t
    using that calculation(4) probes_are_targets [OF run(1), of "concat rounds"] by blast
  ultimately show ?thesis
    using scope run
    by (intro exI [of _ scope], intro exI [of _ s0], intro exI [of _ f], intro exI [of _ s'])
      (simp flip: of_nat_mult)
qed

end
