(* ===== verification/Scan_Results.thy ===== *)
theory Scan_Results
  imports Scan_Config
begin

text \<open>
  A sample scan of two targets, the instances of the theorems about scans at it, and a scan that ends as completed
  although a storage fault stopped its worker before any target was checked.
\<close>

section \<open>A sample scan\<close>

definition scan_targets :: "discovery_target list" where
  "scan_targets = [scan_target, scan_target\<lparr>t_ip := ''10.0.0.8''\<rparr>]"

definition queued_db :: manager_db where
  "queued_db = scan_db\<lparr>db_discovery_jobs := [scan_job\<lparr>d_total_targets := 2\<rparr>]\<rparr>"

definition scan_env :: service_env where
  "scan_env = \<lparr>s_profiles = [TrustedLanHttp ''http'' []], s_self_targets = [''10.0.0.8''], s_max_concurrency = 1,
     s_clock = (\<lambda>k. 10 + int k), s_expired = (\<lambda>_. False), s_fault = (\<lambda>_. False), s_cancelled = (\<lambda>_. False),
     s_probe = (\<lambda>_. Matched ''v1''), s_uuid = (\<lambda>k. replicate k CHR ''u''), s_others = (\<lambda>_. []), s_recorder = (\<lambda>_ d. d)\<rparr>"

lemmas scan_sample = scan_targets_def queued_db_def scan_env_def

lemma queued_db_ok: "discovery_ok queued_db" "counters_true queued_db"
  by (simp_all add: scan_sample scan_defs discovery_ok_def counters_true_def discovery_jobs_unique_def
      discovery_results_unique_def check_discovery_job_def checked_count_def found_count_def)

lemma scan_env_calm: "calm scan_env"
  by (simp add: calm_def scan_env_def inj_def)

lemma queued_job_found:
  "get_job ''dj'' queued_db = Some (scan_job\<lparr>d_total_targets := 2\<rparr>)" "claimable ''dj'' (scan_job\<lparr>d_total_targets := 2\<rparr>)"
  "db_discovery_results queued_db = []" "result_keys ''dj'' queued_db = {}"
  by (simp_all add: scan_sample scan_defs get_job_def claimable_def result_keys_def)

definition sample_start :: scan where
  "sample_start = the (begin_scan scan_env ''dj'' scan_targets queued_db)"

lemma sample_started: "begin_scan scan_env ''dj'' scan_targets queued_db = Some sample_start"
  unfolding sample_start_def by code_simp

theorem scan_probes_are_permitted_witness:
  "sc_probes (run_schedule scan_env ''dj'' [0, 0, 0, 0] sample_start) = [scan_target] \<and>
   scan_target \<in> set scan_targets \<and> t_ip scan_target \<notin> set (s_self_targets scan_env)"
proof -
  have "distinct scan_targets" by (simp add: scan_sample scan_defs)
  from scan_probes_are_permitted [OF sample_started this, of "[0, 0, 0, 0]"]
  have "\<forall>t\<in>set (sc_probes (run_schedule scan_env ''dj'' [0, 0, 0, 0] sample_start)).
      t \<in> set scan_targets \<and> t_ip t \<notin> set (s_self_targets scan_env)" by simp
  moreover have "sc_probes (run_schedule scan_env ''dj'' [0, 0, 0, 0] sample_start) = [scan_target]"
    by (simp add: sample_start_def begin_scan_def stored_def scan_sample scan_defs scan_ops target_key_def result_keys_def
        worker_step_def take_target_def start_probe_def merging_def merge_dispatch_def end_probe_def
        record_and_loop_def at_worker_def mismatched_def find_profile_def profile_scheme_def profile_id_def)
  ultimately show ?thesis by simp
qed

theorem scan_workers_end_witness: "all_ended (run_schedule scan_env ''dj'' (concat (replicate 9 [0])) sample_start)"
  using scan_workers_end [OF sample_started, of "replicate 9 [0]"] by (auto simp: scan_sample)

section \<open>A scan that stops early\<close>

definition faulty_env :: service_env where
  "faulty_env = scan_env\<lparr>s_fault := (\<lambda>k. k = 3)\<rparr>"

text \<open>
  A storage fault ends the worker that meets it, its exception is discarded with the other results of the
  workers, and the job is then reported as completed: here the only worker fails before the first probe, the deadline is
  not reached, and the job ends as completed with none of its two targets checked and no error.
\<close>

lemma storage_fault_completes_unchecked_scan:
  "\<exists>s0 s1 f s2. begin_scan faulty_env ''dj'' scan_targets queued_db = Some s0 \<and>
     run_schedule faulty_env ''dj'' [0] s0 = s1 \<and> all_ended s1 \<and> sc_probes s1 = [] \<and> sc_queue s1 = scan_targets \<and>
     end_scan faulty_env ''dj'' s1 = (Some f, s2) \<and>
     d_state f = DCompleted \<and> d_checked_targets f = 0 \<and> d_total_targets f = 2 \<and> d_safe_error_code f = None"
  by (simp add: faulty_env_def begin_scan_def stored_def scan_sample scan_defs scan_ops target_key_def result_keys_def
        worker_step_def take_target_def all_ended_def at_worker_def end_scan_def final_state_def)

section \<open>Starting and recovering\<close>

definition scan_config :: service_config where
  "scan_config = \<lparr>cf_scopes = [\<lparr>so_id = ''lan'', so_name = ''Lab'', so_cidr = Net4 0x0A000004 31,
       so_endpoints = [\<lparr>en_port = 8100, en_transport_profile_id = ''http''\<rparr>]\<rparr>],
     cf_profiles = [TrustedLanHttp ''http'' []], cf_connect_timeout_ms = 500, cf_max_targets = 2048, cf_job_timeout_seconds = 120,
     cf_retention_seconds = 86400, cf_recorder = record_outcome\<rparr>"

definition sample_started :: "(service_error + discovery_job \<times> discovery_target list) \<times> manager_db" where
  "sample_started = start_scan scan_config False ''lan'' 7 ''dj'' 1 2 scan_db"

lemma sample_starts: "isl (fst sample_started) = False" "length (snd (projr (fst sample_started))) = 2"
  by code_simp+

lemma scan_config_valid: "config_valid scan_config (s_max_concurrency scan_env)"
  by code_simp

theorem started_scan_covers_scope_witness:
  "\<exists>s0 f s'. begin_scan scan_env ''dj'' (snd (projr (fst sample_started))) (snd sample_started) = Some s0 \<and>
     end_scan scan_env ''dj'' (run_schedule scan_env ''dj'' (concat (replicate 9 [0])) s0) = (Some f, s') \<and>
     d_state f = DCompleted \<and> d_checked_targets f = 2"
proof -
  obtain job targets where p: "sample_started = (Inr (job, targets), snd sample_started)"
    using sample_starts(1) by (cases "fst sample_started") (auto simp: prod_eq_iff)
  have t: "snd (projr (fst sample_started)) = targets" "length targets = 2" using p sample_starts(2) by (metis fst_conv snd_conv sum.sel(2))+
  have e: "s_max_concurrency scan_env = 1" "db_discovery_results scan_db = []" "cf_recorder scan_config = record_outcome"
    by (simp_all add: scan_sample scan_defs scan_config_def)
  have "{x. is_host (Net4 0x0A000004 31) x} = {0x0A000004, 0x0A000005}" by (auto simp: is_host_def)
  then have len: "card {x. is_host (so_cidr s) x} * length (so_endpoints s) = 2" if "s \<in> set (cf_scopes scan_config)" for s
    using that by (simp add: scan_config_def)
  from started_scan_covers_scope [OF scan_config_valid e(3) scan_env_calm scan_db_ok _ p [unfolded sample_started_def], of "replicate 9 [0]"]
  show ?thesis using t e len by (fastforce simp: sample_started_def)
qed

definition stale_db :: manager_db where
  "stale_db = scan_db\<lparr>db_discovery_jobs := [scan_job\<lparr>d_state := DCompleted, d_completed_at := Some 50\<rparr>]\<rparr>"

theorem recovery_settles_audit_witness:
  "length (terminal_jobs_with_pending_audit stale_db) = 1 \<and>
   terminal_jobs_with_pending_audit (snd (recover_scans scan_config 60 stale_db)) = []"
proof -
  have "discovery_ok stale_db"
    by (simp add: stale_db_def scan_defs discovery_ok_def discovery_jobs_unique_def discovery_results_unique_def check_discovery_job_def)
  moreover have "\<forall>j\<in>set (db_discovery_jobs stale_db). length (d_scope_id j) \<le> 64" by (simp add: stale_db_def scan_defs)
  moreover have "cf_recorder scan_config = record_outcome" by (simp add: scan_config_def)
  ultimately have "terminal_jobs_with_pending_audit (snd (recover_scans scan_config 60 stale_db)) = []"
    using recovery_settles_audit [of stale_db scan_config 60] surjective_pairing by metis
  moreover have "length (terminal_jobs_with_pending_audit stale_db) = 1"
    by (simp add: stale_db_def scan_defs terminal_jobs_with_pending_audit_def active_discovery_def start_audit_def)
  ultimately show ?thesis by simp
qed

end
