(* ===== verification/Fleet_Probes.thy ===== *)
theory Fleet_Probes
  imports Discovery_Audit Registry_Pages
begin

text \<open>
  \<open>FleetProbeService\<close> of \<open>fleet/probes.py\<close> with the status derivations of \<open>fleet/status.py\<close>, \<open>resolve_registered_target\<close>
  of \<open>fleet/registered_target.py\<close> and the credential gate of \<open>fleet/registry.py\<close>: how the Manager observes a registered
  agent, binds its identity, and withholds the credential of an agent whose identity is in doubt.

  A probe runs as a coroutine; at each \<open>await\<close> others commit what \<open>pe_others\<close> gives (the index names the await).  The
  answers of the agent and of the legacy client, whether a credential file can be read, and the UTC text of an ISO time
  (\<open>None\<close> when it does not parse or has no offset) are parameters.  The requests that reach the network are kept in
  \<open>pw_requests\<close>.
\<close>

section \<open>Answers\<close>

datatype client_answer = Response int "json option" | ClientError string string

record agent_observation =
  ob_status :: string
  ob_api_version :: "string option"
  ob_agent_version :: "string option"
  ob_capabilities :: "string list"
  ob_last_error :: "string option"
  ob_dispatch_state :: string

record probe_env =
  pe_policy :: agent_target_policy
  pe_profiles :: "transport_profile list"
  pe_readable :: "string \<Rightarrow> bool"
  pe_stale_after_seconds :: int
  pe_now :: instant
  pe_legacy_availability :: bool
  pe_allow_import_without_dynamic_allowlist :: bool
  pe_local_bootstrap_enabled :: bool
  pe_capabilities :: client_answer
  pe_summary :: client_answer
  pe_legacy :: agent_observation
  pe_utc_text :: "string \<Rightarrow> string option"
  pe_others :: "nat \<Rightarrow> manager_op list"

record probe_world =
  pw_db :: manager_db
  pw_requests :: "string list"

record probe_result =
  pb_status :: agent_status_record
  pb_dispatch :: dispatch_state

datatype probe_exn = AgentProbeError string dispatch_state | AgentProbeDisabled string dispatch_state
  | ProbeStorage registry_error | ProbeValueError

text \<open>The exceptions the body of a probe catches.\<close>

datatype probe_raise = RKey | RCredential | RPolicy string | RClient string string | RValue

definition dispatch_of :: "string \<Rightarrow> dispatch_state" where
  "dispatch_of s = (if s = ''not_dispatched'' then Not_Dispatched else if s = ''dispatched'' then Dispatched else Unknown)"

fun dispatch_priority :: "dispatch_state \<Rightarrow> nat" where
  "dispatch_priority Not_Dispatched = 0"
| "dispatch_priority Unknown = 1"
| "dispatch_priority Dispatched = 2"

definition combine_dispatch :: "dispatch_state \<Rightarrow> dispatch_state \<Rightarrow> dispatch_state" where
  "combine_dispatch left right = (if dispatch_priority right \<le> dispatch_priority left then left else right)"

section \<open>Parsing\<close>

definition low_alnum :: "char \<Rightarrow> bool" where
  "low_alnum c \<longleftrightarrow> is_lower c \<or> is_digit c"

fun capability_tail :: "string \<Rightarrow> bool" where
  "capability_tail [] = True"
| "capability_tail (c # cs) =
     (if low_alnum c then capability_tail cs
      else c \<in> {CHR ''.'', CHR ''_'', CHR ''-''} \<and> (case cs of [] \<Rightarrow> False | e # es \<Rightarrow> low_alnum e \<and> capability_tail es))"

definition capability_id :: "string \<Rightarrow> bool" where
  "capability_id s = (case s of [] \<Rightarrow> False | c # cs \<Rightarrow> is_lower c \<and> capability_tail cs)"

definition version_char :: "char \<Rightarrow> bool" where
  "version_char c \<longleftrightarrow> is_upper c \<or> is_lower c \<or> is_digit c"

definition agent_version_re :: "string \<Rightarrow> bool" where
  "agent_version_re s \<longleftrightarrow> s \<noteq> [] \<and> version_char (hd s) \<and> length s \<le> 64 \<and>
     list_all (\<lambda>c. version_char c \<or> c \<in> {CHR ''.'', CHR ''_'', CHR ''+'', CHR ''-''}) (tl s)"

definition capability_text :: "json \<Rightarrow> string option" where
  "capability_text v = (case v of JStr s \<Rightarrow> if 128 < length s \<or> \<not> capability_id s then None else Some s | _ \<Rightarrow> None)"

record capabilities =
  cp_instance_id :: string
  cp_agent_version :: string
  cp_capabilities :: "string list"

text \<open>\<open>None\<close> is the \<open>ValueError\<close>.\<close>

definition parse_capabilities :: "json \<Rightarrow> capabilities option" where
  "parse_capabilities payload = (case payload of
     JDict kvs \<Rightarrow>
       (case (map_of kvs ''instance_id'', map_of kvs ''api_version'', map_of kvs ''agent_version'', map_of kvs ''capabilities'') of
          (Some (JStr instance_id), Some (JStr api_version), Some (JStr agent_version), Some (JList raw)) \<Rightarrow>
            if \<not> uuid_canonical instance_id \<or> api_version \<noteq> ''2'' \<or> \<not> agent_version_re agent_version \<or> 256 < length raw then None
            else map_option (\<lambda>cs. \<lparr>cp_instance_id = instance_id, cp_agent_version = agent_version, cp_capabilities = from_keys cs\<rparr>)
              (all_some (map capability_text raw))
        | _ \<Rightarrow> None)
   | _ \<Rightarrow> None)"

definition summary_sections :: "(string \<times> string list) list" where
  "summary_sections = [(''observations'', [''total'', ''warning'', ''critical'', ''stale'']), (''logs'', [''total'', ''stale'']),
     (''services'', [''total'', ''running'', ''unhealthy'']), (''terminals'', [''active''])]"

definition summary_count :: "(string \<times> json) list \<Rightarrow> string \<Rightarrow> (string \<times> json) option" where
  "summary_count kvs field = (case map_of kvs field of Some (JInt n) \<Rightarrow> if n < 0 then None else Some (field, JInt n) | _ \<Rightarrow> None)"

definition summary_section :: "(string \<times> json) list \<Rightarrow> string \<times> string list \<Rightarrow> (string \<times> json) option" where
  "summary_section kvs = (\<lambda>(section, fields). case map_of kvs section of
     Some (JDict inner) \<Rightarrow> map_option (\<lambda>counts. (section, JDict counts)) (all_some (map (summary_count inner) fields))
   | _ \<Rightarrow> None)"

definition parse_summary :: "(string \<Rightarrow> string option) \<Rightarrow> json \<Rightarrow> json option" where
  "parse_summary utc_text payload = (case payload of
     JDict kvs \<Rightarrow>
       (case map_of kvs ''observed_at'' of
          Some (JStr t) \<Rightarrow>
            (case utc_text t of None \<Rightarrow> None
             | Some utc \<Rightarrow> map_option (\<lambda>sections. JDict ((''observed_at'', JStr utc) # sections))
                 (all_some (map (summary_section kvs) summary_sections)))
        | _ \<Rightarrow> None)
   | _ \<Rightarrow> None)"

definition valid_legacy_observation :: "agent_observation \<Rightarrow> bool" where
  "valid_legacy_observation ob \<longleftrightarrow> ob_api_version ob = Some ''1'' \<and>
     (case ob_agent_version ob of None \<Rightarrow> False | Some v \<Rightarrow> agent_version_re v) \<and> length (ob_capabilities ob) \<le> 256 \<and>
     list_all (\<lambda>c. length c \<le> 128 \<and> capability_id c) (ob_capabilities ob)"

section \<open>Derived statuses\<close>

definition json_mapping :: "json option \<Rightarrow> (string \<times> json) list" where
  "json_mapping v = (case v of Some (JDict kvs) \<Rightarrow> kvs | _ \<Rightarrow> [])"

definition json_count :: "(string \<times> json) list \<Rightarrow> string \<Rightarrow> int" where
  "json_count kvs key = (case map_of kvs key of Some (JInt n) \<Rightarrow> n | _ \<Rightarrow> 0)"

definition derive_workload_status :: "(string \<times> json) list option \<Rightarrow> instant option \<Rightarrow> instant option \<Rightarrow> string" where
  "derive_workload_status summary now stale_after = (case summary of None \<Rightarrow> ''unknown''
     | Some kvs \<Rightarrow>
       if (case (now, stale_after) of (Some n, Some s) \<Rightarrow> s \<le> n | _ \<Rightarrow> False) then ''stale''
       else if kvs = [] then ''unknown''
       else
         let observations = json_mapping (map_of kvs ''observations''); services = json_mapping (map_of kvs ''services'');
             logs = json_mapping (map_of kvs ''logs'') in
         if json_count observations ''critical'' \<noteq> 0 \<or> json_count services ''unhealthy'' \<noteq> 0 then ''critical''
         else if json_count observations ''warning'' \<noteq> 0 \<or> json_count observations ''stale'' \<noteq> 0 \<or> json_count logs ''stale'' \<noteq> 0
         then ''warning'' else ''healthy'')"

definition derive_connection_status :: "bool \<Rightarrow> agent_status_record option \<Rightarrow> instant \<Rightarrow> string" where
  "derive_connection_status enabled probe now =
     (if \<not> enabled then ''disabled''
      else case probe of None \<Rightarrow> ''unknown''
      | Some s \<Rightarrow> if s_last_error_code s = Some ''agent_identity_conflict'' then ''unavailable''
          else if (case s_stale_after s of None \<Rightarrow> False | Some t \<Rightarrow> t \<le> now) then ''unknown'' else s_connection_status s)"

section \<open>Pages\<close>

text \<open>
  \<open>_all_agents\<close>: the pages of the registry until there is no cursor, with the check that the cursor moves (\<open>None\<close> is the
  error).  The bound on the number of pages is shown to be enough below.
\<close>

fun agents_loop :: "nat \<Rightarrow> int \<Rightarrow> string option \<Rightarrow> string list \<Rightarrow> manager_db \<Rightarrow> agent_record list option" where
  "agents_loop 0 limit cursor seen d = None"
| "agents_loop (Suc n) limit cursor seen d =
     (case list_agents \<lparr>q_limit = limit, q_cursor = cursor\<rparr> d of Inl _ \<Rightarrow> None
      | Inr page \<Rightarrow>
        (case p_next_cursor page of None \<Rightarrow> Some (p_items page)
         | Some next_cursor \<Rightarrow>
           if cursor = Some next_cursor \<or> next_cursor \<in> set seen then None
           else map_option (\<lambda>rest. p_items page @ rest) (agents_loop n limit (Some next_cursor) (next_cursor # seen) d)))"

definition all_agents :: "manager_db \<Rightarrow> agent_record list option" where
  "all_agents d = agents_loop (Suc (length (db_agents d))) 1000 None [] d"

section \<open>Targets\<close>

definition endpoint_scheme :: "agent_record \<Rightarrow> string option" where
  "endpoint_scheme a = map_option u_scheme (urlsplit (a_normalized_endpoint a))"

definition legacy_http_marker_allowed :: "agent_record \<Rightarrow> bool option" where
  "legacy_http_marker_allowed a =
     (if a_source a = ''config_import'' \<and> a_enrollment_method a = LEGACY_ADMIN_TOKEN \<and>
         a_transport_profile_id a = ''legacy-config-http''
      then map_option (\<lambda>s. s = ''http'') (endpoint_scheme a) else Some False)"

definition profile_fits :: "transport_profile option \<Rightarrow> string \<Rightarrow> bool" where
  "profile_fits p scheme = (case p of None \<Rightarrow> False | Some p \<Rightarrow> scheme = profile_scheme p)"

definition legacy_fallback_allowed :: "probe_env \<Rightarrow> agent_record \<Rightarrow> bool option" where
  "legacy_fallback_allowed env a =
     (if \<not> (a_source a = ''config_import'' \<and> a_enrollment_method a = LEGACY_ADMIN_TOKEN) then Some False
      else case legacy_http_marker_allowed a of None \<Rightarrow> None | Some True \<Rightarrow> Some True
      | Some False \<Rightarrow>
        (case endpoint_scheme a of None \<Rightarrow> None
         | Some scheme \<Rightarrow>
           Some (a_transport_profile_id a \<noteq> ''legacy-disabled-no-credential'' \<and>
             profile_fits (find_profile (pe_profiles env) (a_transport_profile_id a)) scheme)))"

definition resolve_registered_target ::
  "agent_target_policy \<Rightarrow> agent_record \<Rightarrow> transport_profile \<Rightarrow> bool \<Rightarrow> validated_target checked" where
  "resolve_registered_target pol a profile local_bootstrap_enabled =
     (if a_enrollment_method a \<noteq> LOCAL_SOCKET then resolve pol (a_normalized_endpoint a) profile
      else if \<not> local_bootstrap_enabled \<or> a_source a \<noteq> ''local_dev_bootstrap'' \<or>
         a_transport_profile_id a \<noteq> ''local-loopback-http'' \<or> profile_id profile \<noteq> ''local-loopback-http''
      then Inl ''target_address_forbidden''
      else resolve_local_socket pol (a_normalized_endpoint a) profile)"

definition profiled :: "probe_env \<Rightarrow> agent_record \<Rightarrow> (transport_profile \<Rightarrow> validated_target checked) \<Rightarrow> probe_raise + validated_target" where
  "profiled env a f = (case find_profile (pe_profiles env) (a_transport_profile_id a) of None \<Rightarrow> Inl RKey
     | Some p \<Rightarrow> map_sum RPolicy id (f p))"

definition probe_target :: "probe_env \<Rightarrow> agent_record \<Rightarrow> probe_raise + validated_target" where
  "probe_target env a =
     (let safe = (\<lambda>checked. case checked of Inl code \<Rightarrow> Inl (RPolicy code)
            | Inr safety \<Rightarrow> profiled env a (resolve_validated (pe_policy env) safety)) in
      case legacy_http_marker_allowed a of None \<Rightarrow> Inl RValue
      | Some True \<Rightarrow> safe (validate_legacy_import_http_safety (pe_policy env) (a_normalized_endpoint a))
      | Some False \<Rightarrow>
        if a_enrollment_method a = LOCAL_SOCKET
        then profiled env a (\<lambda>p. resolve_registered_target (pe_policy env) a p (pe_local_bootstrap_enabled env))
        else safe (validate_safety (pe_policy env) (a_normalized_endpoint a)))"

section \<open>Publishing\<close>

definition awaiting :: "probe_env \<Rightarrow> nat \<Rightarrow> probe_world \<Rightarrow> probe_world" where
  "awaiting env k w = w\<lparr>pw_db := history run_manager (pe_others env k) (pw_db w)\<rparr>"

definition requesting :: "probe_env \<Rightarrow> nat \<Rightarrow> string \<Rightarrow> probe_world \<Rightarrow> probe_world" where
  "requesting env k path w = awaiting env k (w\<lparr>pw_requests := pw_requests w @ [path]\<rparr>)"

definition publish_status :: "agent_status_record \<Rightarrow> int \<Rightarrow> dispatch_state \<Rightarrow> probe_world \<Rightarrow> (probe_exn + agent_status_record) \<times> probe_world" where
  "publish_status status expected_revision dispatch w =
     (case update_if_target_revision status expected_revision (pw_db w) of
        Inl e \<Rightarrow> (Inl (ProbeStorage e), w)
      | Inr (False, _) \<Rightarrow> (Inl (AgentProbeError ''agent_target_changed'' dispatch), w)
      | Inr (True, d) \<Rightarrow> (Inr status, w\<lparr>pw_db := d\<rparr>))"

definition previous_status :: "agent_record \<Rightarrow> manager_db \<Rightarrow> agent_status_record option" where
  "previous_status a d = (case status_get (a_agent_id a) d of
     Some s \<Rightarrow> if s_target_revision s = a_revision a then Some s else None | None \<Rightarrow> None)"

definition kept_summary :: "agent_record \<Rightarrow> manager_db \<Rightarrow> json" where
  "kept_summary a d = (case previous_status a d of Some s \<Rightarrow> s_summary s | None \<Rightarrow> JDict [])"

definition failure_status :: "probe_env \<Rightarrow> agent_record \<Rightarrow> string \<Rightarrow> manager_db \<Rightarrow> agent_status_record" where
  "failure_status env a error_code d =
     (let previous = previous_status a d; summary = kept_summary a d in
      \<lparr>s_agent_id = a_agent_id a, s_target_revision = a_revision a, s_connection_status = ''unavailable'',
       s_workload_status = (if summary = JDict [] then ''unknown'' else ''stale''),
       s_observed_at = Some (pe_now env), s_stale_after = Some (pe_now env + seconds (pe_stale_after_seconds env)),
       s_api_version = Option.bind previous s_api_version, s_agent_version = Option.bind previous s_agent_version,
       s_capabilities = (case previous of Some s \<Rightarrow> s_capabilities s | None \<Rightarrow> []), s_summary = summary,
       s_last_error_code = Some error_code, s_updated_at = pe_now env\<rparr>)"

definition record_failure ::
  "probe_env \<Rightarrow> agent_record \<Rightarrow> string \<Rightarrow> dispatch_state \<Rightarrow> probe_world \<Rightarrow> (probe_exn + agent_status_record) \<times> probe_world" where
  "record_failure env a error_code dispatch w =
     publish_status (failure_status env a error_code (pw_db w)) (a_revision a) dispatch w"

definition failed :: "probe_env \<Rightarrow> agent_record \<Rightarrow> string \<Rightarrow> dispatch_state \<Rightarrow> probe_world \<Rightarrow> (probe_exn + probe_result) \<times> probe_world" where
  "failed env a error_code dispatch w =
     map_prod (map_sum id (\<lambda>s. \<lparr>pb_status = s, pb_dispatch = dispatch\<rparr>)) id (record_failure env a error_code dispatch w)"

definition mark_identity_conflicts :: "probe_env \<Rightarrow> agent_record list \<Rightarrow> probe_world \<Rightarrow> (probe_exn + unit) \<times> probe_world" where
  "mark_identity_conflicts env records w =
     (case update_many_if_target_revisions
        (map (\<lambda>a. failure_status env a ''agent_identity_conflict'' (pw_db w)) records) (pw_db w) of
        Inl e \<Rightarrow> (Inl (ProbeStorage e), w)
      | Inr (False, _) \<Rightarrow> (Inl (AgentProbeError ''agent_target_changed'' Dispatched), w)
      | Inr (True, d) \<Rightarrow> (Inr (), w\<lparr>pw_db := d\<rparr>))"

section \<open>The legacy fallback\<close>

definition legacy_status :: "probe_env \<Rightarrow> agent_record \<Rightarrow> manager_db \<Rightarrow> agent_status_record" where
  "legacy_status env a d =
     (let ob = pe_legacy env; successful = ob_status ob \<in> {''ready'', ''degraded''}; summary = kept_summary a d in
      if successful \<and> \<not> valid_legacy_observation ob then failure_status env a ''agent_protocol_error'' d
      else
      \<lparr>s_agent_id = a_agent_id a, s_target_revision = a_revision a,
       s_connection_status = (if successful then ''degraded'' else ''unavailable''),
       s_workload_status = (if summary = JDict [] then ''unknown'' else ''stale''),
       s_observed_at = Some (pe_now env), s_stale_after = Some (pe_now env + seconds (pe_stale_after_seconds env)),
       s_api_version = ob_api_version ob, s_agent_version = ob_agent_version ob, s_capabilities = ob_capabilities ob,
       s_summary = summary,
       s_last_error_code = Some (if successful then ''legacy_identity_unavailable'' else text_or (ob_last_error ob) ''agent_unavailable''),
       s_updated_at = pe_now env\<rparr>)"

text \<open>\<open>Inr None\<close>: no fallback; \<open>Inl None\<close>: \<open>ValueError\<close>.\<close>

definition legacy_fallback ::
  "probe_env \<Rightarrow> agent_record \<Rightarrow> dispatch_state \<Rightarrow> probe_world \<Rightarrow> (probe_exn option + probe_result option) \<times> probe_world" where
  "legacy_fallback env a prior w =
     (if \<not> pe_legacy_availability env then (Inr None, w)
      else case legacy_fallback_allowed env a of None \<Rightarrow> (Inl None, w) | Some False \<Rightarrow> (Inr None, w)
      | Some True \<Rightarrow>
        let w1 = requesting env 1 ''/api/capabilities'' w;
            dispatch = combine_dispatch prior (dispatch_of (ob_dispatch_state (pe_legacy env))) in
        map_prod (map_sum Some (\<lambda>s. Some \<lparr>pb_status = s, pb_dispatch = dispatch\<rparr>)) id
          (publish_status (legacy_status env a (pw_db w1)) (a_revision a) dispatch w1))"

section \<open>A probe\<close>

text \<open>The body of the \<open>try\<close>: what was parsed, a result to return, an exception that is caught, or one that escapes.\<close>

datatype attempt = Parsed capabilities json | Returned probe_result | Caught probe_raise | Escaped probe_exn

definition attempt_summary :: "probe_env \<Rightarrow> capabilities \<Rightarrow> probe_world \<Rightarrow> attempt \<times> probe_world" where
  "attempt_summary env caps w =
     (let w1 = requesting env 2 ''/api/v2/summary'' w in
      case pe_summary env of
        ClientError category dispatch \<Rightarrow> (Caught (RClient category dispatch), w1)
      | Response _ body \<Rightarrow>
        (case Option.bind body (parse_summary (pe_utc_text env)) of None \<Rightarrow> (Caught RValue, w1)
         | Some summary \<Rightarrow> (Parsed caps summary, w1)))"

definition attempt_capabilities :: "probe_env \<Rightarrow> json option \<Rightarrow> probe_world \<Rightarrow> attempt \<times> probe_world" where
  "attempt_capabilities env body w =
     (case Option.bind body parse_capabilities of None \<Rightarrow> (Caught RValue, w) | Some caps \<Rightarrow> attempt_summary env caps w)"

definition attempt_probe :: "probe_env \<Rightarrow> agent_record \<Rightarrow> probe_world \<Rightarrow> (attempt \<times> dispatch_state) \<times> probe_world" where
  "attempt_probe env a w =
     (case probe_target env a of Inl x \<Rightarrow> ((Caught x, Not_Dispatched), w)
      | Inr target \<Rightarrow>
        if \<not> pe_readable env (a_credential_ref a) then ((Caught RCredential, Not_Dispatched), w)
        else
          let w1 = requesting env 0 ''/api/v2/capabilities'' w; dispatch = combine_dispatch Not_Dispatched Dispatched in
          case pe_capabilities env of
            ClientError category state \<Rightarrow> ((Caught (RClient category state), Not_Dispatched), w1)
          | Response status body \<Rightarrow>
            if status \<in> {404, 405}
            then (case legacy_fallback env a dispatch w1 of
               (Inl None, w2) \<Rightarrow> ((Caught RValue, dispatch), w2)
             | (Inl (Some x), w2) \<Rightarrow> ((Escaped x, dispatch), w2)
             | (Inr (Some r), w2) \<Rightarrow> ((Returned r, dispatch), w2)
             | (Inr None, w2) \<Rightarrow> map_prod (\<lambda>t. (t, dispatch)) id (attempt_capabilities env body w2))
            else map_prod (\<lambda>t. (t, dispatch)) id (attempt_capabilities env body w1))"

definition fall_back_or :: "probe_env \<Rightarrow> agent_record \<Rightarrow> string \<Rightarrow> dispatch_state \<Rightarrow> probe_world \<Rightarrow> (probe_exn + probe_result) \<times> probe_world" where
  "fall_back_or env a error_code prior w =
     (case legacy_fallback env a prior w of
        (Inl None, w1) \<Rightarrow> (Inl ProbeValueError, w1)
      | (Inl (Some x), w1) \<Rightarrow> (Inl x, w1)
      | (Inr (Some r), w1) \<Rightarrow> (Inr r, w1)
      | (Inr None, w1) \<Rightarrow> failed env a error_code Not_Dispatched w1)"

fun probe_handler :: "probe_env \<Rightarrow> agent_record \<Rightarrow> dispatch_state \<Rightarrow> probe_raise \<Rightarrow> probe_world \<Rightarrow> (probe_exn + probe_result) \<times> probe_world" where
  "probe_handler env a dispatch RKey w = fall_back_or env a ''transport_profile_invalid'' dispatch w"
| "probe_handler env a dispatch RCredential w = failed env a ''agent_auth_error'' Not_Dispatched w"
| "probe_handler env a dispatch (RPolicy code) w =
     (if code = ''target_address_not_allowed'' \<and> pe_allow_import_without_dynamic_allowlist env
      then fall_back_or env a code dispatch w else failed env a code Not_Dispatched w)"
| "probe_handler env a dispatch (RClient category state) w =
     failed env a category (combine_dispatch dispatch (dispatch_of state)) w"
| "probe_handler env a dispatch RValue w = failed env a ''agent_protocol_error'' dispatch w"

definition same_identity :: "string \<Rightarrow> string \<Rightarrow> agent_record list \<Rightarrow> agent_record list" where
  "same_identity agent_id instance_id = filter (\<lambda>r. a_agent_id r \<noteq> agent_id \<and> a_instance_id r = Some instance_id)"

definition pagination_invalid :: probe_exn where
  "pagination_invalid = AgentProbeError ''agent_registry_pagination_invalid'' Unknown"

definition raise_conflict :: "probe_env \<Rightarrow> agent_record list \<Rightarrow> probe_world \<Rightarrow> (probe_exn + 'a) \<times> probe_world" where
  "raise_conflict env records w = (case mark_identity_conflicts env records w of
     (Inl x, w1) \<Rightarrow> (Inl x, w1) | (Inr _, w1) \<Rightarrow> (Inl (AgentProbeError ''agent_identity_conflict'' Dispatched), w1))"

text \<open>Binding the identity of an agent that has none yet.\<close>

definition bind_identity :: "probe_env \<Rightarrow> agent_record \<Rightarrow> string \<Rightarrow> probe_world \<Rightarrow> (probe_exn + agent_record) \<times> probe_world" where
  "bind_identity env a instance_id w =
     (if a_instance_id a \<noteq> None then (Inr a, w)
      else case update_if_revision (a\<lparr>a_instance_id := Some instance_id, a_updated_at := pe_now env\<rparr>) (a_revision a) None None (pw_db w) of
        Inr (b, d) \<Rightarrow> (Inr b, w\<lparr>pw_db := d\<rparr>)
      | Inl RevisionConflict \<Rightarrow> (Inl (AgentProbeError ''agent_target_changed'' Dispatched), w)
      | Inl (RegistryConflict m) \<Rightarrow>
        (case all_agents (pw_db w) of None \<Rightarrow> (Inl pagination_invalid, w)
         | Some agents \<Rightarrow>
           (case (agent_get (a_agent_id a) (pw_db w), same_identity (a_agent_id a) instance_id agents) of
              (Some refreshed, c # cs) \<Rightarrow> raise_conflict env (refreshed # c # cs) w
            | _ \<Rightarrow> (Inl (AgentProbeError ''agent_target_changed'' Dispatched), w)))
      | Inl e \<Rightarrow> (Inl (ProbeStorage e), w))"

definition observed_status :: "probe_env \<Rightarrow> agent_record \<Rightarrow> capabilities \<Rightarrow> json \<Rightarrow> agent_status_record" where
  "observed_status env a caps summary =
     (let missing = \<not> {''runtime.v2'', ''summary.v2''} \<subseteq> set (cp_capabilities caps) in
      \<lparr>s_agent_id = a_agent_id a, s_target_revision = a_revision a,
       s_connection_status = (if missing then ''degraded'' else ''ready''),
       s_workload_status = derive_workload_status (Some (json_mapping (Some summary))) None None,
       s_observed_at = Some (pe_now env), s_stale_after = Some (pe_now env + seconds (pe_stale_after_seconds env)),
       s_api_version = Some ''2'', s_agent_version = Some (cp_agent_version caps), s_capabilities = cp_capabilities caps,
       s_summary = summary, s_last_error_code = (if missing then Some ''missing_capabilities'' else None),
       s_updated_at = pe_now env\<rparr>)"

definition settle_identity ::
  "probe_env \<Rightarrow> agent_record \<Rightarrow> capabilities \<Rightarrow> json \<Rightarrow> dispatch_state \<Rightarrow> probe_world \<Rightarrow> (probe_exn + probe_result) \<times> probe_world" where
  "settle_identity env captured caps summary dispatch w =
     (case agent_get (a_agent_id captured) (pw_db w) of
        None \<Rightarrow> (Inl (AgentProbeError ''agent_target_changed'' Dispatched), w)
      | Some current \<Rightarrow>
        if a_revision current \<noteq> a_revision captured then (Inl (AgentProbeError ''agent_target_changed'' Dispatched), w)
        else case all_agents (pw_db w) of None \<Rightarrow> (Inl pagination_invalid, w)
        | Some agents \<Rightarrow>
          let matching = same_identity (a_agent_id captured) (cp_instance_id caps) agents in
          if matching \<noteq> [] then raise_conflict env (current # matching) w
          else if a_instance_id current \<noteq> None \<and> a_instance_id current \<noteq> Some (cp_instance_id caps)
          then (case record_failure env current ''agent_identity_changed'' Dispatched w of
             (Inl x, w1) \<Rightarrow> (Inl x, w1) | (Inr _, w1) \<Rightarrow> (Inl (AgentProbeError ''agent_identity_changed'' Dispatched), w1))
          else case bind_identity env current (cp_instance_id caps) w of (Inl x, w1) \<Rightarrow> (Inl x, w1)
          | (Inr bound, w1) \<Rightarrow>
            map_prod (map_sum id (\<lambda>s. \<lparr>pb_status = s, pb_dispatch = dispatch\<rparr>)) id
              (publish_status (observed_status env bound caps summary) (a_revision bound) Dispatched w1))"

definition probe :: "probe_env \<Rightarrow> string \<Rightarrow> probe_world \<Rightarrow> (probe_exn + probe_result) \<times> probe_world" where
  "probe env agent_id w =
     (case agent_get agent_id (pw_db w) of
        None \<Rightarrow> (Inl (AgentProbeError ''agent_not_found'' Not_Dispatched), w)
      | Some captured \<Rightarrow>
        if \<not> a_enabled captured then (Inl (AgentProbeDisabled ''agent_disabled'' Not_Dispatched), w)
        else if (case status_get agent_id (pw_db w) of None \<Rightarrow> False
            | Some s \<Rightarrow> s_target_revision s = a_revision captured \<and> s_last_error_code s = Some ''agent_identity_conflict'')
        then (Inl (AgentProbeError ''agent_identity_conflict'' Not_Dispatched), w)
        else case attempt_probe env captured w of
          ((Returned r, _), w1) \<Rightarrow> (Inr r, w1)
        | ((Escaped x, _), w1) \<Rightarrow> (Inl x, w1)
        | ((Caught x, dispatch), w1) \<Rightarrow> probe_handler env captured dispatch x w1
        | ((Parsed caps summary, dispatch), w1) \<Rightarrow>
            settle_identity env captured caps summary dispatch (awaiting env 3 w1))"

section \<open>The credential gate\<close>

text \<open>\<open>FleetRegistry.load_credential\<close>: whether the Manager uses the credential of an agent (\<open>None\<close>: the endpoint does not parse).\<close>

definition doubtful_identity :: "string \<Rightarrow> manager_db \<Rightarrow> bool" where
  "doubtful_identity agent_id d \<longleftrightarrow> (case status_get agent_id d of None \<Rightarrow> False
     | Some s \<Rightarrow> s_last_error_code s \<in> {Some ''agent_identity_conflict'', Some ''agent_identity_changed''})"

definition configuration_valid :: "transport_profile list \<Rightarrow> agent_record \<Rightarrow> manager_db \<Rightarrow> bool option" where
  "configuration_valid profiles a d =
     (if doubtful_identity (a_agent_id a) d then Some False
      else case endpoint_scheme a of None \<Rightarrow> None
      | Some scheme \<Rightarrow> Some (
        if a_transport_profile_id a = ''legacy-disabled-no-credential'' then False
        else if a_transport_profile_id a = ''legacy-config-http''
        then scheme = ''http'' \<and> a_source a = ''config_import'' \<and> a_enrollment_method a = LEGACY_ADMIN_TOKEN
        else profile_fits (find_profile profiles (a_transport_profile_id a)) scheme))"

definition load_credential :: "transport_profile list \<Rightarrow> (string \<Rightarrow> string option) \<Rightarrow> string \<Rightarrow> manager_db \<Rightarrow> string option" where
  "load_credential profiles token agent_id d =
     (case agent_get agent_id d of None \<Rightarrow> None
      | Some a \<Rightarrow> if configuration_valid profiles a d = Some True then token (a_credential_ref a) else None)"

end
