(* ===== verification/Probe_Properties.thy ===== *)
theory Probe_Properties
  imports Fleet_Probes
begin

text \<open>
  What a probe may do to the registry and the status table: observations belong to the target that was probed, an
  identity is bound once and never shared, and a conflict of identities is contained.
\<close>

section \<open>Paging\<close>

lemma agents_loop_suffix:
  assumes "db_ok d" and "1 \<le> l" and "l \<le> 1000"
    and "registry_order d = pre @ suf" and "length suf < n"
    and "c = (if pre = [] then None else Some (a_agent_id (last pre)))" and "set seen \<subseteq> a_agent_id ` set pre"
  shows "agents_loop n l c seen d = Some suf"
  using assms(4-7)
proof (induction n arbitrary: pre suf c seen)
  case (Suc n)
  let ?m = "case c of None \<Rightarrow> db_agents d | Some k \<Rightarrow> filter (\<lambda>a. k < a_agent_id a) (db_agents d)"
  have m: "sort_key a_agent_id ?m = suf"
  proof (cases "pre = []")
    case True
    then show ?thesis using Suc.prems by (simp add: registry_order_def)
  next
    case False
    then have p: "registry_order d = butlast pre @ last pre # suf" using Suc.prems(1) by simp
    then have "filter (\<lambda>a. a_agent_id (last pre) < a_agent_id a) (registry_order d) = suf"
      using filter_after_cursor [of a_agent_id "butlast pre" "last pre" suf] sorted_order [OF assms(1)]
      by simp
    then show ?thesis using False Suc.prems(3) by (simp add: registry_order_def filter_sort)
  qed
  note page = list_agents_from [OF assms(2,3) m]
  show ?case
  proof (cases "nat l < length suf")
    case True
    let ?pre = "pre @ take (nat l) suf" and ?suf = "drop (nat l) suf" and ?last = "last (take (nat l) suf)"
    have ne: "take (nat l) suf \<noteq> []" using assms(2) True by auto
    then have last: "?last \<in> set suf" using in_set_takeD last_in_set by metis
    have "distinct (map a_agent_id (pre @ suf))" using sorted_order(2) [OF assms(1)] Suc.prems(1) by simp
    then have new: "a_agent_id ?last \<notin> a_agent_id ` set pre" using last by (auto simp: image_iff)
    then have "a_agent_id ?last \<notin> set seen" using Suc.prems(4) by blast
    moreover have "pre \<noteq> [] \<Longrightarrow> a_agent_id (last pre) \<noteq> a_agent_id ?last" using new last_in_set by (metis imageI)
    then have "c \<noteq> Some (a_agent_id ?last)" using Suc.prems(3) by (cases "pre = []") simp_all
    moreover have "agents_loop n l (Some (a_agent_id ?last)) (a_agent_id ?last # seen) d = Some ?suf"
    proof (rule Suc.IH [of ?pre])
      have "1 \<le> nat l" using assms(2) by simp
      then show "length ?suf < n" using True Suc.prems(2) by simp
    qed (use Suc.prems ne in auto)
    ultimately show ?thesis using True by (simp add: page)
  next
    case False
    then show ?thesis by (simp add: page)
  qed
qed simp

lemma all_agents_Some:
  assumes "db_ok d"
  shows "all_agents d = Some (registry_order d)"
  unfolding all_agents_def
  by (rule agents_loop_suffix [OF assms, of _ "[]"]) (simp_all add: registry_order_def)


section \<open>Steps of a probe\<close>

lemma manager_db_ok: "manager_ok d \<Longrightarrow> db_ok d"
  by (simp add: manager_ok_def)

lemma map_prod_pair: "map_prod f id p = (a, b) \<longleftrightarrow> (\<exists>x. p = (x, b) \<and> f x = a)"
  by (cases p) auto

lemma map_sum_right: "map_sum f g x = Inr y \<longleftrightarrow> (\<exists>z. x = Inr z \<and> y = g z)"
  by (cases x) auto

lemma batch_effect:
  assumes "manager_ok d" and "update_many_if_target_revisions obs d = Inr (True, d')"
  shows "manager_ok d' \<and> db_agents d' = db_agents d \<and> list_all (acceptable d) obs \<and> distinct (map s_agent_id obs) \<and>
    (\<forall>i. status_get i d' = (case find (\<lambda>s. s_agent_id s = i) obs of None \<Rightarrow> status_get i d | Some s \<Rightarrow> Some s))"
proof -
  have "run_manager (StatusCall obs) d = Inr ((), d')" using assms(2) by (simp add: as_store_def)
  then have ok: "manager_ok d'" using manager.run_inv assms(1) by blast
  have side: "obs \<noteq> []" "distinct (map s_agent_id obs)" "list_all serializable obs" "list_all (acceptable d) obs"
    using assms(2) by (auto simp: update_many_if_target_revisions_def split: if_splits)
  show ?thesis
    using status_batch_all_or_nothing [OF manager_db_ok [OF assms(1)] side(1-3)] side assms(2) ok by auto
qed

lemma publish_effect:
  assumes "manager_ok (pw_db w)" and "publish_status st n dis w = (Inr s, w')"
  shows "s = st \<and> manager_ok (pw_db w') \<and> db_agents (pw_db w') = db_agents (pw_db w) \<and> pw_requests w' = pw_requests w \<and>
    (\<forall>i. status_get i (pw_db w') = (if i = s_agent_id st then Some st else status_get i (pw_db w))) \<and>
    (\<exists>a. agent_get (s_agent_id st) (pw_db w) = Some a \<and> a_revision a = s_target_revision st)"
proof -
  obtain b d where u: "update_if_target_revision st n (pw_db w) = Inr (b, d)"
    using assms(2) by (cases "update_if_target_revision st n (pw_db w)") (auto simp: publish_status_def)
  then have b: "b" "w' = w\<lparr>pw_db := d\<rparr>" "s = st"
    using assms(2) by (cases b; simp add: publish_status_def)+
  have d: "update_many_if_target_revisions [st] (pw_db w) = Inr (True, d)"
    using u b(1) by (simp add: update_if_target_revision_def split: if_splits)
  have e: "manager_ok d" "db_agents d = db_agents (pw_db w)" "list_all (acceptable (pw_db w)) [st]"
    and g: "\<And>i. status_get i d = (case find (\<lambda>s. s_agent_id s = i) [st] of None \<Rightarrow> status_get i (pw_db w) | Some s \<Rightarrow> Some s)"
    using batch_effect [OF assms(1) d] by blast+
  have "acceptable (pw_db w) st" using e(3) by simp
  then have "\<exists>a. agent_get (s_agent_id st) (pw_db w) = Some a \<and> a_revision a = s_target_revision st"
    unfolding acceptable_def by (cases "agent_get (s_agent_id st) (pw_db w)") simp_all
  moreover have "status_get i d = (if i = s_agent_id st then Some st else status_get i (pw_db w))" for i
    unfolding g by simp
  ultimately show ?thesis using e(1,2) b(2,3) by simp
qed

lemma publish_fails:
  assumes "publish_status st n dis w = (Inl x, w')"
  shows "w' = w"
  using assms by (auto simp: publish_status_def split: sum.splits prod.splits bool.splits)

lemma awaiting_ok: "manager_ok (pw_db w) \<Longrightarrow> manager_ok (pw_db (awaiting env k w))"
  using manager.history_inv by (simp add: awaiting_def)

lemma requesting_ok: "manager_ok (pw_db w) \<Longrightarrow> manager_ok (pw_db (requesting env k p w))"
  using awaiting_ok by (simp add: requesting_def)

section \<open>Successful probes\<close>

text \<open>What holds when a status has been published for agent \<open>i\<close>.\<close>

definition published :: "string \<Rightarrow> agent_status_record \<Rightarrow> manager_db \<Rightarrow> bool" where
  "published i s d \<longleftrightarrow> manager_ok d \<and> status_get i d = Some s \<and> s_agent_id s = i \<and>
     (\<exists>a. agent_get i d = Some a \<and> a_revision a = s_target_revision s)"

lemma agent_get_cong: "db_agents d' = db_agents d \<Longrightarrow> agent_get i d' = agent_get i d"
  by (simp add: agent_get_def)

lemma publish_published:
  assumes "manager_ok (pw_db w)" and "publish_status st n dis w = (Inr s, w')"
  shows "published (s_agent_id st) s (pw_db w') \<and> s = st"
  using publish_effect [OF assms] agent_get_cong [of "pw_db w'" "pw_db w"] by (auto simp: published_def)

definition unverified :: "agent_status_record \<Rightarrow> bool" where
  "unverified s \<longleftrightarrow> s_connection_status s = ''unavailable'' \<or> s_last_error_code s = Some ''legacy_identity_unavailable''"

lemma failure_status_fields [simp]:
  "s_agent_id (failure_status env a c d) = a_agent_id a" "s_target_revision (failure_status env a c d) = a_revision a"
  "s_connection_status (failure_status env a c d) = ''unavailable''" "s_last_error_code (failure_status env a c d) = Some c"
  "s_updated_at (failure_status env a c d) = pe_now env" "s_observed_at (failure_status env a c d) = Some (pe_now env)"
  by (simp_all add: failure_status_def Let_def)

lemma failed_published:
  assumes "manager_ok (pw_db w)" and "failed env a c dis w = (Inr r, w')"
  shows "published (a_agent_id a) (pb_status r) (pw_db w') \<and> unverified (pb_status r)"
proof -
  obtain s where p: "record_failure env a c dis w = (Inr s, w')" "pb_status r = s"
    using assms(2) by (auto simp: failed_def map_prod_pair map_sum_right)
  from publish_published [OF assms(1) p(1) [unfolded record_failure_def]] show ?thesis using p(2) by (auto simp: unverified_def)
qed

lemma legacy_published:
  assumes "manager_ok (pw_db w)" and "legacy_fallback env a prior w = (Inr (Some r), w')"
  shows "published (a_agent_id a) (pb_status r) (pw_db w') \<and> unverified (pb_status r)"
proof -
  let ?w1 = "requesting env 1 ''/api/capabilities'' w"
  let ?st = "legacy_status env a (pw_db ?w1)"
  obtain s dis where p: "publish_status ?st (a_revision a) dis ?w1 = (Inr s, w')" "pb_status r = s"
    using assms(2) by (auto simp: legacy_fallback_def Let_def map_prod_pair map_sum_right split: if_splits option.splits bool.splits)
  have "s_agent_id ?st = a_agent_id a" "unverified ?st" by (auto simp: legacy_status_def unverified_def Let_def)
  then show ?thesis using publish_published [OF requesting_ok [OF assms(1)] p(1)] p(2) by auto
qed

lemma legacy_ok:
  assumes "manager_ok (pw_db w)" and "legacy_fallback env a prior w = (r, w')"
  shows "manager_ok (pw_db w')"
proof -
  have "publish_status st n dis v = (x, v') \<Longrightarrow> manager_ok (pw_db v) \<Longrightarrow> manager_ok (pw_db v')" for st n dis v x v'
    using publish_effect publish_fails by (cases x) blast+
  then show ?thesis
    using assms requesting_ok [OF assms(1)] by (auto simp: legacy_fallback_def Let_def map_prod_pair split: if_splits option.splits bool.splits)
qed

lemma fall_back_published:
  assumes "manager_ok (pw_db w)" and "fall_back_or env a c prior w = (Inr r, w')"
  shows "published (a_agent_id a) (pb_status r) (pw_db w') \<and> unverified (pb_status r)"
proof -
  obtain x w1 where x: "legacy_fallback env a prior w = (x, w1)" by fastforce
  then show ?thesis
    using assms legacy_published [OF assms(1)] legacy_ok [OF assms(1) x] failed_published
    by (auto simp: fall_back_or_def split: sum.splits option.splits)
qed

lemma handler_published:
  assumes "manager_ok (pw_db w)" and "probe_handler env a dis x w = (Inr r, w')"
  shows "published (a_agent_id a) (pb_status r) (pw_db w') \<and> unverified (pb_status r)"
  using assms fall_back_published failed_published by (cases x) (auto split: if_splits)

lemma attempt_ok:
  assumes "manager_ok (pw_db w)" and "attempt_probe env a w = ((t, dis), w')"
  shows "manager_ok (pw_db w') \<and>
    (\<forall>r. t = Returned r \<longrightarrow> published (a_agent_id a) (pb_status r) (pw_db w') \<and> unverified (pb_status r)) \<and>
    (\<forall>caps summary. t = Parsed caps summary \<longrightarrow>
       (\<exists>code body sc sb. pe_capabilities env = Response code (Some body) \<and> parse_capabilities body = Some caps \<and>
          pe_summary env = Response sc (Some sb) \<and> parse_summary (pe_utc_text env) sb = Some summary))"
proof -
  let ?w1 = "requesting env 0 ''/api/v2/capabilities'' w"
  have ok1: "manager_ok (pw_db ?w1)" by (rule requesting_ok [OF assms(1)])
  have sum: "manager_ok (pw_db v') \<and> (\<forall>r. t \<noteq> Returned r) \<and> (\<forall>c s. t = Parsed c s \<longrightarrow> c = caps \<and>
      (\<exists>sc sb. pe_summary env = Response sc (Some sb) \<and> parse_summary (pe_utc_text env) sb = Some s))"
    if "attempt_summary env caps v = (t, v')" "manager_ok (pw_db v)" for caps v v' t
    using that requesting_ok [OF that(2)]
    by (auto simp: attempt_summary_def Let_def bind_eq_Some_conv split: client_answer.splits option.splits)
  have cap: "manager_ok (pw_db v') \<and> (\<forall>r. t \<noteq> Returned r) \<and> (\<forall>c s. t = Parsed c s \<longrightarrow>
      (\<exists>b. body = Some b \<and> parse_capabilities b = Some c) \<and>
      (\<exists>sc sb. pe_summary env = Response sc (Some sb) \<and> parse_summary (pe_utc_text env) sb = Some s))"
    if "attempt_capabilities env body v = (t, v')" "manager_ok (pw_db v)" for body v v' t
    using that sum by (fastforce simp: attempt_capabilities_def bind_eq_Some_conv split: option.splits)
  show ?thesis
  proof (cases "isl (probe_target env a) \<or> \<not> pe_readable env (a_credential_ref a)")
    case True
    then show ?thesis using assms by (cases "probe_target env a") (auto simp: attempt_probe_def split: if_splits)
  next
    case False
    then obtain target where t: "probe_target env a = Inr target" by (cases "probe_target env a") auto
    show ?thesis
    proof (cases "pe_capabilities env")
      case (ClientError c s)
      then show ?thesis using assms(2) False t ok1 by (auto simp: attempt_probe_def Let_def)
    next
      case (Response code body)
      have run: "attempt_probe env a w = (if code \<in> {404, 405}
          then (case legacy_fallback env a (combine_dispatch Not_Dispatched Dispatched) ?w1 of
             (Inl None, w2) \<Rightarrow> ((Caught RValue, combine_dispatch Not_Dispatched Dispatched), w2)
           | (Inl (Some x), w2) \<Rightarrow> ((Escaped x, combine_dispatch Not_Dispatched Dispatched), w2)
           | (Inr (Some r), w2) \<Rightarrow> ((Returned r, combine_dispatch Not_Dispatched Dispatched), w2)
           | (Inr None, w2) \<Rightarrow> map_prod (\<lambda>t. (t, combine_dispatch Not_Dispatched Dispatched)) id (attempt_capabilities env body w2))
          else map_prod (\<lambda>t. (t, combine_dispatch Not_Dispatched Dispatched)) id (attempt_capabilities env body ?w1))"
        using False t Response by (simp add: attempt_probe_def Let_def)
      obtain x w2 where x: "legacy_fallback env a (combine_dispatch Not_Dispatched Dispatched) ?w1 = (x, w2)" by fastforce
      have ok2: "manager_ok (pw_db w2)" by (rule legacy_ok [OF ok1 x])
      have ret: "published (a_agent_id a) (pb_status r) (pw_db w2) \<and> unverified (pb_status r)" if "x = Inr (Some r)" for r
        using legacy_published [OF ok1] x that by blast
      show ?thesis
        using assms(2) Response ok2 unfolding run x
        by (auto simp: map_prod_pair dest: ret cap [OF _ ok1] cap [OF _ ok2] split: if_splits sum.splits option.splits)
    qed
  qed
qed

lemma bind_effect:
  assumes "manager_ok (pw_db w)" and "agent_get (a_agent_id a) (pw_db w) = Some a" and "bind_identity env a u w = (Inr b, w')"
  shows "manager_ok (pw_db w') \<and> agent_get (a_agent_id a) (pw_db w') = Some b \<and> a_agent_id b = a_agent_id a \<and>
    (if a_instance_id a = None then a_instance_id b = Some u else b = a) \<and>
    (\<forall>i. i \<noteq> a_agent_id a \<longrightarrow> agent_get i (pw_db w') = agent_get i (pw_db w))"
proof (cases "a_instance_id a = None")
  case False
  then show ?thesis using assms by (simp add: bind_identity_def)
next
  case True
  let ?a = "a\<lparr>a_instance_id := Some u, a_updated_at := pe_now env\<rparr>"
  have rc: "raise_conflict env rs v \<noteq> (Inr z, v')" for rs v v' and z :: agent_record
    by (auto simp: raise_conflict_def split: prod.splits sum.splits)
  obtain d where u: "update_if_revision ?a (a_revision a) None None (pw_db w) = Inr (b, d)" "w' = w\<lparr>pw_db := d\<rparr>"
    using assms(3) True rc
    by (auto simp: bind_identity_def split: sum.splits registry_error.splits option.splits list.splits prod.splits)
  note f = update_if_revision_update [OF u(1)]
  have "run_manager (RegistryCall (RUpdate ?a (a_revision a) None None)) (pw_db w) = Inr ((), d)"
    using u(1) by (simp add: as_store_def answer_def)
  then have ok: "manager_ok d" using manager.run_inv assms(1) by blast
  have g: "agent_get i d = map_option (\<lambda>x. if at_revision (a_agent_id a) (a_revision a) x then overwrite b x else x) (agent_get i (pw_db w))" for i
    by (rule agent_get_update [OF manager_db_ok [OF assms(1)]]) (use f in auto)
  have id: "a_agent_id b = a_agent_id a" "a_instance_id b = Some u" using f by auto
  have "agent_get (a_agent_id a) d = Some b" using g [of "a_agent_id a"] assms(2) id(1) by (simp add: at_revision_def overwrite_same)
  moreover have "agent_get i d = agent_get i (pw_db w)" if "i \<noteq> a_agent_id a" for i
    using g [of i] that by (cases "agent_get i (pw_db w)") (auto simp: at_revision_def dest: agent_getD)
  ultimately show ?thesis using ok id True u(2) by simp
qed

lemma settle_effect:
  assumes "manager_ok (pw_db w)" and "settle_identity env c caps summary dis w = (Inr r, w')"
  shows "\<exists>a. published (a_agent_id c) (pb_status r) (pw_db w') \<and> agent_get (a_agent_id c) (pw_db w') = Some a \<and>
    a_instance_id a = Some (cp_instance_id caps) \<and> pb_status r = observed_status env a caps summary"
proof -
  note all = all_agents_Some [OF manager_db_ok [OF assms(1)]]
  obtain a where a: "agent_get (a_agent_id c) (pw_db w) = Some a" "a_revision a = a_revision c"
    "a_instance_id a = None \<or> a_instance_id a = Some (cp_instance_id caps)"
    and bd: "\<exists>b w1. bind_identity env a (cp_instance_id caps) w = (Inr b, w1) \<and>
      map_prod (map_sum id (\<lambda>s. \<lparr>pb_status = s, pb_dispatch = dis\<rparr>)) id
        (publish_status (observed_status env b caps summary) (a_revision b) Dispatched w1) = (Inr r, w')"
    using assms(2)
    by (auto simp: settle_identity_def all Let_def raise_conflict_def split: option.splits if_splits sum.splits prod.splits)
  then obtain b w1 s where b: "bind_identity env a (cp_instance_id caps) w = (Inr b, w1)"
    and p: "publish_status (observed_status env b caps summary) (a_revision b) Dispatched w1 = (Inr s, w')" "pb_status r = s"
    by (auto simp: map_prod_pair map_sum_right)
  have id: "a_agent_id a = a_agent_id c" using agent_getD [OF a(1)] by simp
  note e = bind_effect [OF assms(1) _ b] 
  have e: "manager_ok (pw_db w1)" "agent_get (a_agent_id c) (pw_db w1) = Some b" "a_agent_id b = a_agent_id c"
    "a_instance_id b = Some (cp_instance_id caps)"
    using bind_effect [OF assms(1) _ b] a id by (auto split: if_splits)
  have o: "s_agent_id (observed_status env b caps summary) = a_agent_id c" using e(3) by (simp add: observed_status_def Let_def)
  have "published (a_agent_id c) s (pw_db w')" "s = observed_status env b caps summary"
    using publish_published [OF e(1) p(1)] o by auto
  moreover have "agent_get (a_agent_id c) (pw_db w') = Some b"
    using publish_effect [OF e(1) p(1)] agent_get_cong e(2) by metis
  ultimately show ?thesis using p(2) e(4) by auto
qed

lemma instance_unique:
  assumes "manager_ok d" and "a \<in> set (db_agents d)" and "b \<in> set (db_agents d)" and "a_instance_id a = Some u" and "a_instance_id b = Some u"
  shows "a = b"
proof -
  have dist: "distinct (filter (\<lambda>x. x \<noteq> None) (map a_instance_id rows)) \<Longrightarrow> a \<in> set rows \<Longrightarrow> b \<in> set rows \<Longrightarrow> a = b" for rows
    using assms(4,5) by (induction rows) (auto simp: image_iff split: if_splits)
  then show ?thesis using assms(1-3) by (auto simp: manager_ok_def db_ok_def agents_ok_def agents_unique_def)
qed

text \<open>
  \<open>C20\<close>.  Whatever others commit while a probe waits for the agent, a probe that returns has published its observation
  for the target that is registered at that moment (same revision); and when it reports the agent as reachable through
  the current protocol, the record carries exactly the identity the agent presented, and no other registered agent has it.
\<close>

theorem probe_observes_registered_identity:
  assumes "manager_ok (pw_db w)" and "probe env i w = (Inr r, w')"
  shows "\<exists>a. agent_get i (pw_db w') = Some a \<and> status_get i (pw_db w') = Some (pb_status r) \<and>
    s_agent_id (pb_status r) = i \<and> s_target_revision (pb_status r) = a_revision a \<and>
    (s_connection_status (pb_status r) \<in> {''ready'', ''degraded''} \<and>
       s_last_error_code (pb_status r) \<noteq> Some ''legacy_identity_unavailable'' \<longrightarrow>
     (\<exists>code body caps. pe_capabilities env = Response code (Some body) \<and> parse_capabilities body = Some caps \<and>
        a_instance_id a = Some (cp_instance_id caps) \<and>
        (\<forall>b\<in>set (db_agents (pw_db w')). a_instance_id b = Some (cp_instance_id caps) \<longrightarrow> b = a)))"
proof -
  obtain c where c: "agent_get i (pw_db w) = Some c" using assms(2) by (auto simp: probe_def split: option.splits)
  have id: "a_agent_id c = i" using agent_getD [OF c] by simp
  obtain t dis w1 where at: "attempt_probe env c w = ((t, dis), w1)" by (metis prod.exhaust)
  have run: "(case t of Returned r \<Rightarrow> (Inr r, w1) | Escaped x \<Rightarrow> (Inl x, w1) | Caught x \<Rightarrow> probe_handler env c dis x w1
      | Parsed caps summary \<Rightarrow> settle_identity env c caps summary dis (awaiting env 3 w1)) = (Inr r, w')"
    using assms(2) c by (cases t) (auto simp: probe_def at split: if_splits)
  note ok = attempt_ok [OF assms(1) at]
  then have ok1: "manager_ok (pw_db w1)" by blast
  consider (unv) "published i (pb_status r) (pw_db w')" "unverified (pb_status r)"
    | (ver) caps summary where "t = Parsed caps summary" "settle_identity env c caps summary dis (awaiting env 3 w1) = (Inr r, w')"
    using run ok handler_published [OF ok1] id by (cases t) auto
  then show ?thesis
  proof cases
    case unv
    then show ?thesis by (auto simp: published_def unverified_def)
  next
    case ver
    obtain code body where cb: "pe_capabilities env = Response code (Some body)" "parse_capabilities body = Some caps"
      using ok ver(1) by blast
    obtain a where a: "published i (pb_status r) (pw_db w')" "agent_get i (pw_db w') = Some a" "a_instance_id a = Some (cp_instance_id caps)"
      using settle_effect [OF awaiting_ok [OF ok1] ver(2)] id by auto
    have "b = a" if "b \<in> set (db_agents (pw_db w'))" "a_instance_id b = Some (cp_instance_id caps)" for b
      using instance_unique [OF _ _ that(1) a(3) that(2)] a agent_getD [OF a(2)] by (auto simp: published_def)
    then show ?thesis using a cb by (auto simp: published_def)
  qed
qed

section \<open>Conflicts of identity\<close>














end
