(* ===== verification/Probe_Results.thy ===== *)
theory Probe_Results
  imports Probe_Properties Target_Properties
begin

text \<open>
  Sample probes of two agents, the instances of the theorems about probes at them, and two runs in which the block on an
  agent of doubtful identity is lifted without an administrator.
\<close>

section \<open>Two agents\<close>

definition uuid_a :: string where
  "uuid_a = ''11111111-1111-4111-8111-111111111111''"

definition uuid_b :: string where
  "uuid_b = ''22222222-2222-4222-8222-222222222222''"

definition lan_agent :: "string \<Rightarrow> string \<Rightarrow> string option \<Rightarrow> agent_record" where
  "lan_agent i ep u = (sample_agent i ep)\<lparr>a_instance_id := u, a_remote_credential_id := None,
     a_enrollment_method := LEGACY_ADMIN_TOKEN\<rparr>"

definition pair_db :: manager_db where
  "pair_db = empty_db\<lparr>db_agents := [lan_agent ''a'' ''http://10.0.0.2:80'' (Some uuid_a), lan_agent ''b'' ''http://10.0.0.3:80'' None]\<rparr>"

definition reports :: "string \<Rightarrow> json" where
  "reports u = JDict [(''instance_id'', JStr u), (''api_version'', JStr ''2''), (''agent_version'', JStr ''2.1.0''),
     (''capabilities'', JList [JStr ''runtime.v2'', JStr ''summary.v2''])]"

definition sample_summary :: json where
  "sample_summary = JDict [(''observed_at'', JStr ''2026-07-11T00:00:00Z''),
     (''observations'', JDict [(''total'', JInt 3), (''warning'', JInt 0), (''critical'', JInt 0), (''stale'', JInt 0)]),
     (''logs'', JDict [(''total'', JInt 1), (''stale'', JInt 0)]),
     (''services'', JDict [(''total'', JInt 2), (''running'', JInt 2), (''unhealthy'', JInt 0)]),
     (''terminals'', JDict [(''active'', JInt 0)])]"

definition probe_sample :: "instant \<Rightarrow> client_answer \<Rightarrow> (nat \<Rightarrow> manager_op list) \<Rightarrow> probe_env" where
  "probe_sample now caps others = \<lparr>pe_policy = lan_policy, pe_profiles = [lan_profile], pe_readable = (\<lambda>_. True),
     pe_stale_after_seconds = 30, pe_now = now, pe_legacy_availability = False,
     pe_allow_import_without_dynamic_allowlist = False, pe_local_bootstrap_enabled = False,
     pe_capabilities = caps, pe_summary = Response 200 (Some sample_summary),
     pe_legacy = \<lparr>ob_status = ''unavailable'', ob_api_version = None, ob_agent_version = None, ob_capabilities = [],
       ob_last_error = None, ob_dispatch_state = ''unknown''\<rparr>,
     pe_utc_text = (\<lambda>t. Some t), pe_others = others\<rparr>"

definition pair_world :: probe_world where
  "pair_world = \<lparr>pw_db = pair_db, pw_requests = []\<rparr>"

definition sample_token :: "string \<Rightarrow> string option" where
  "sample_token = (\<lambda>_. Some ''token'')"

lemma pair_ok: "manager_ok (pw_db pair_world)"
  by code_simp

definition first_probe :: "(probe_exn + probe_result) \<times> probe_world" where
  "first_probe = probe (probe_sample 10 (Response 200 (Some (reports uuid_b))) (\<lambda>_. [])) ''b'' pair_world"

lemma first_probe_runs: "isl (fst first_probe) = False" "s_connection_status (pb_status (projr (fst first_probe))) = ''ready''"
  "s_last_error_code (pb_status (projr (fst first_probe))) = None"
  by code_simp+

theorem probe_observes_registered_identity_witness:
  "\<exists>a. agent_get ''b'' (pw_db (snd first_probe)) = Some a \<and> a_instance_id a = Some uuid_b"
proof -
  have p: "first_probe = (Inr (projr (fst first_probe)), snd first_probe)"
    using first_probe_runs(1) by (cases "fst first_probe") (auto simp: prod_eq_iff)
  have c: "parse_capabilities (reports uuid_b) = Some x \<Longrightarrow> cp_instance_id x = uuid_b" for x
    by (auto simp: parse_capabilities_def reports_def split: if_splits)
  from probe_observes_registered_identity [OF pair_ok p [unfolded first_probe_def]] show ?thesis
    using first_probe_runs(2,3) c by (auto simp: first_probe_def probe_sample_def)
qed

definition conflicting_probe :: "(probe_exn + probe_result) \<times> probe_world" where
  "conflicting_probe = probe (probe_sample 10 (Response 200 (Some (reports uuid_a))) (\<lambda>_. [])) ''b'' pair_world"



section \<open>Blocks that are lifted\<close>

definition changed_probe :: "(probe_exn + probe_result) \<times> probe_world" where
  "changed_probe = probe (probe_sample 10 (Response 200 (Some (reports uuid_b))) (\<lambda>_. [])) ''a'' pair_world"

definition timed_out_probe :: "(probe_exn + probe_result) \<times> probe_world" where
  "timed_out_probe = probe (probe_sample 20 (ClientError ''agent_timeout'' ''unknown'') (\<lambda>_. [])) ''a'' (snd changed_probe)"

text \<open>
  The block on an agent whose identity changed lasts until the next probe that fails for another reason: after
  the agent at the registered endpoint presented a different identity its credential is not loaded; one probe that times
  out replaces the recorded reason, and the credential is loaded again although nobody confirmed the identity.
\<close>

theorem timeout_lifts_identity_block:
  "fst changed_probe = Inl (AgentProbeError ''agent_identity_changed'' Dispatched) \<and>
   load_credential [lan_profile] sample_token ''a'' (pw_db (snd changed_probe)) = None \<and>
   map_sum id (\<lambda>r. s_last_error_code (pb_status r)) (fst timed_out_probe) = Inr (Some ''agent_timeout'') \<and>
   load_credential [lan_profile] sample_token ''a'' (pw_db (snd timed_out_probe)) = Some ''token''"
  by code_simp

text \<open>
  The statuses that the conflicting probe of \<open>b\<close> stores, as the transaction that a probe of \<open>a\<close> meets while it waits.
\<close>

definition conflict_statuses :: "agent_status_record list" where
  "conflict_statuses = db_status (pw_db (snd conflicting_probe))"

definition overtaken_probe :: "(probe_exn + probe_result) \<times> probe_world" where
  "overtaken_probe = probe (probe_sample 12 (Response 200 (Some (reports uuid_a)))
     (\<lambda>k. if k = 0 then [StatusCall conflict_statuses] else [])) ''a'' pair_world"

text \<open>
  The block of an identity conflict is lost to a probe already under way: a probe of agent \<open>a\<close> starts, a probe of
  \<open>b\<close> that presents \<open>a\<close>'s identity blocks both while \<open>a\<close>'s answer is awaited, and \<open>a\<close>'s probe then overwrites the block
  with \<open>ready\<close>, because the recorded conflict is consulted only at its start: the credential of \<open>a\<close> is loaded again while \<open>b\<close>
  stays blocked.
\<close>

lemma probe_under_way_lifts_conflict:
  "list_all (\<lambda>s. s_last_error_code s = Some ''agent_identity_conflict'') conflict_statuses \<and>
   map s_agent_id conflict_statuses = [''b'', ''a''] \<and>
   map_sum id (\<lambda>r. s_connection_status (pb_status r)) (fst overtaken_probe) = Inr ''ready'' \<and>
   load_credential [lan_profile] sample_token ''a'' (pw_db (snd overtaken_probe)) = Some ''token'' \<and>
   load_credential [lan_profile] sample_token ''b'' (pw_db (snd overtaken_probe)) = None"
  by code_simp

end
