(* ===== verification/Py_Utf8.thy ===== *)
theory Py_Utf8
  imports Guard_Prelude
begin

text \<open>
  What the sources use of \<open>str.encode\<close> and \<open>bytes.decode\<close>: text is a list of code points, the UTF-8 codec with the error
  handlers \<open>replace\<close> and \<open>ignore\<close> is written out as CPython has it.
\<close>

section \<open>UTF-8\<close>

type_synonym unicode = "nat list"

definition surrogate :: "nat \<Rightarrow> bool" where
  "surrogate c \<longleftrightarrow> 0xD800 \<le> c \<and> c < 0xE000"

text \<open>\<open>encode("utf-8", errors="replace")\<close>\<close>

definition utf8_char :: "nat \<Rightarrow> nat list" where
  "utf8_char c =
     (if c < 0x80 then [c]
      else if c < 0x800 then [0xC0 + c div 64, 0x80 + c mod 64]
      else if surrogate c then [63]
      else if c < 0x10000 then [0xE0 + c div 4096, 0x80 + c div 64 mod 64, 0x80 + c mod 64]
      else [0xF0 + c div 262144, 0x80 + c div 4096 mod 64, 0x80 + c div 64 mod 64, 0x80 + c mod 64])"

definition utf8 :: "unicode \<Rightarrow> nat list" where
  "utf8 t = concat (map utf8_char t)"

definition continuation :: "nat \<Rightarrow> bool" where
  "continuation b \<longleftrightarrow> 0x80 \<le> b \<and> b < 0xC0"

text \<open>The sequence that starts with byte \<open>b\<close>: the code point and the rest, \<open>None\<close> when it is not well-formed.\<close>

definition decode_sequence :: "nat \<Rightarrow> nat list \<Rightarrow> (nat \<times> nat list) option" where
  "decode_sequence b bs =
     (let n = (if 0xC2 \<le> b \<and> b < 0xE0 then 1 else if 0xE0 \<le> b \<and> b < 0xF0 then 2 else if 0xF0 \<le> b \<and> b < 0xF5 then 3 else 0 :: nat);
          v = foldl (\<lambda>v c. v * 64 + (c - 0x80)) (b - (if n = 1 then 0xC0 else if n = 2 then 0xE0 else 0xF0)) (take n bs) in
      if n = 0 \<or> length bs < n \<or> \<not> list_all continuation (take n bs) then None
      else if n = 2 \<and> (v < 0x800 \<or> surrogate v) \<or> n = 3 \<and> (v < 0x10000 \<or> 0x110000 \<le> v) then None
      else Some (v, drop n bs))"

text \<open>\<open>decode("utf-8", errors="ignore")\<close>\<close>

function utf8_ignore :: "nat list \<Rightarrow> unicode" where
  "utf8_ignore [] = []"
| "utf8_ignore (b # bs) =
     (if b < 0x80 then b # utf8_ignore bs
      else case decode_sequence b bs of Some (c, rest) \<Rightarrow> c # utf8_ignore rest | None \<Rightarrow> utf8_ignore bs)"
  by pat_completeness auto
termination
  by (relation "measure length") (auto simp: decode_sequence_def Let_def split: if_splits)

text \<open>\<open>decode("utf-8", errors="replace")\<close>: one replacement character for each maximal ill-formed part.\<close>

definition second_byte_fits :: "nat \<Rightarrow> nat \<Rightarrow> bool" where
  "second_byte_fits b c \<longleftrightarrow> continuation c \<and> (b = 0xE0 \<longrightarrow> 0xA0 \<le> c) \<and> (b = 0xED \<longrightarrow> c < 0xA0) \<and>
     (b = 0xF0 \<longrightarrow> 0x90 \<le> c) \<and> (b = 0xF4 \<longrightarrow> c < 0x90)"

fun ill_formed_rest :: "nat \<Rightarrow> nat list \<Rightarrow> nat" where
  "ill_formed_rest b (c # d # bs) =
     (if 0xE0 \<le> b \<and> b < 0xF5 \<and> second_byte_fits b c then if 0xF0 \<le> b \<and> continuation d then 2 else 1 else 0)"
| "ill_formed_rest b [c] = (if 0xE0 \<le> b \<and> b < 0xF5 \<and> second_byte_fits b c then 1 else 0)"
| "ill_formed_rest b [] = 0"

function utf8_replace :: "nat list \<Rightarrow> unicode" where
  "utf8_replace [] = []"
| "utf8_replace (b # bs) =
     (if b < 0x80 then b # utf8_replace bs
      else case decode_sequence b bs of
        Some (c, rest) \<Rightarrow> c # utf8_replace rest
      | None \<Rightarrow> 0xFFFD # utf8_replace (drop (ill_formed_rest b bs) bs))"
  by pat_completeness auto
termination
  by (relation "measure length") (auto simp: decode_sequence_def Let_def split: if_splits)

definition byte_length :: "unicode \<Rightarrow> nat" where
  "byte_length t = length (utf8 t)"

definition valid_char :: "nat \<Rightarrow> bool" where
  "valid_char c \<longleftrightarrow> c < 0x110000 \<and> \<not> surrogate c"

section \<open>Lemmas\<close>

lemma byte_length_simps [simp]:
  "byte_length [] = 0" "byte_length (c # cs) = length (utf8_char c) + byte_length cs" "byte_length (s @ t) = byte_length s + byte_length t"
  by (simp_all add: byte_length_def utf8_def)

lemma byte_length_0 [simp]: "byte_length t = 0 \<longleftrightarrow> t = []"
  by (cases t) (simp_all add: utf8_char_def)

lemma ignore_continuations:
  "list_all continuation bs \<Longrightarrow> utf8_ignore (bs @ ys) = utf8_ignore ys"
proof (induction bs)
  case (Cons b bs)
  then have "\<not> b < 0x80" "decode_sequence b (bs @ ys) = None" by (auto simp: continuation_def decode_sequence_def)
  then show ?case using Cons by simp
qed simp

lemma utf8_char_tail: "0 < k \<Longrightarrow> valid_char c \<Longrightarrow> list_all continuation (drop k (utf8_char c))"
  by (cases k; simp add: utf8_char_def continuation_def drop_Cons split: nat.splits)

lemma digits_64: "c div 64 * 64 + c mod 64 = (c::nat)" "c div 4096 * 64 + c div 64 mod 64 = c div 64"
    "c div 262144 * 64 + c div 4096 mod 64 = c div 4096"
  using div_mult_mod_eq [of c 64] div_mult_mod_eq [of "c div 64" 64] div_mult_mod_eq [of "c div 4096" 64]
  by (simp_all flip: div_mult2_eq)

lemma decode_two:
  assumes "2 \<le> x" "x < 32" "y < 64"
  shows "decode_sequence (0xC0 + x) ((0x80 + y) # ys) = Some (x * 64 + y, ys)"
  using assms by (simp add: decode_sequence_def continuation_def)

lemma decode_three:
  assumes "x < 16" "y < 64" "z < 64" "0x800 \<le> (x * 64 + y) * 64 + z" "\<not> surrogate ((x * 64 + y) * 64 + z)"
  shows "decode_sequence (0xE0 + x) ((0x80 + y) # (0x80 + z) # ys) = Some ((x * 64 + y) * 64 + z, ys)"
  using assms by (simp add: decode_sequence_def continuation_def numeral_2_eq_2 Let_def)

lemma decode_four:
  assumes "x < 5" "y < 64" "z < 64" "w < 64" "0x10000 \<le> ((x * 64 + y) * 64 + z) * 64 + w" "((x * 64 + y) * 64 + z) * 64 + w < 0x110000"
  shows "decode_sequence (0xF0 + x) ((0x80 + y) # (0x80 + z) # (0x80 + w) # ys) = Some (((x * 64 + y) * 64 + z) * 64 + w, ys)"
  using assms by (simp add: decode_sequence_def continuation_def numeral_3_eq_3 Let_def)

lemma decode_char:
  assumes "valid_char c"
  shows "utf8_ignore (utf8_char c @ ys) = c # utf8_ignore ys"
proof -
  have lt: "c mod 64 < 64" "c div 64 mod 64 < 64" "c div 4096 mod 64 < 64" by simp_all
  consider "c < 0x80" | "0x80 \<le> c" "c < 0x800" | "0x800 \<le> c" "c < 0x10000" | "0x10000 \<le> c" "c < 0x110000"
    using assms unfolding valid_char_def by linarith
  then show ?thesis
  proof cases
    case 1
    then show ?thesis by (simp add: utf8_char_def)
  next
    case 2
    have "2 \<le> c div 64" "c div 64 < 32" using 2 by linarith+
    from decode_two [OF this lt(1), of ys] show ?thesis using 2 by (simp add: utf8_char_def digits_64)
  next
    case 3
    have "c div 4096 < 16" using 3 by linarith
    from decode_three [OF this lt(2) lt(1), of ys] show ?thesis
      using 3 assms by (simp add: utf8_char_def digits_64 valid_char_def)
  next
    case 4
    have "c div 262144 < 5" using 4 by linarith
    from decode_four [OF this lt(3) lt(2) lt(1), of ys] show ?thesis
      using 4 assms by (simp add: utf8_char_def digits_64 valid_char_def)
  qed
qed

lemma decode_sequence_valid:
  assumes "decode_sequence b bs = Some (c, rest)"
  shows "valid_char c \<and> length rest < length bs"
proof -
  let ?f = "\<lambda>v c. v * 64 + (c - 0x80 :: nat)"
  have two: "valid_char (?f (b - 0xC0) x)" if "0xC2 \<le> b" "b < 0xE0" "continuation x" for x
    unfolding valid_char_def surrogate_def using that by (auto simp: continuation_def)
  have three: "?f (?f (b - 0xE0) x) y < 0x110000" if "b < 0xF0" "continuation x" "continuation y" for x y
    using that by (auto simp: continuation_def)
  show ?thesis
  proof (cases bs)
    case Nil
    then show ?thesis using assms by (simp add: decode_sequence_def Let_def split: if_splits)
  next
    case (Cons x xs)
    note bs1 = Cons
    show ?thesis
    proof (cases xs)
      case Nil
      then show ?thesis using assms two [of x] bs1 by (simp add: decode_sequence_def Let_def split: if_splits)
    next
      case (Cons y ys)
      have "valid_char c" using assms two [of x] three [of x y] unfolding bs1 Cons
        by (auto simp: decode_sequence_def Let_def valid_char_def numeral_2_eq_2 numeral_3_eq_3 surrogate_def split: if_splits)
      then show ?thesis using assms unfolding bs1 Cons
        by (auto simp: decode_sequence_def Let_def less_Suc_eq_le le_SucI split: if_splits)
    qed
  qed
qed

lemma length_utf8_char: "length (utf8_char c) \<le> 4"
  by (simp add: utf8_char_def)

lemma utf8_replace_fits: "list_all valid_char (utf8_replace bs) \<and> byte_length (utf8_replace bs) \<le> 3 * length bs"
proof (induction bs rule: utf8_replace.induct)
  case (2 b bs)
  show ?case
  proof (cases "b < 0x80")
    case True
    then show ?thesis using 2(1) by (simp add: valid_char_def surrogate_def utf8_char_def)
  next
    case False
    show ?thesis
    proof (cases "decode_sequence b bs")
      case None
      have "valid_char 0xFFFD" "length (utf8_char 0xFFFD) = 3" by (simp_all add: valid_char_def surrogate_def utf8_char_def)
      then show ?thesis using 2(2) [OF False None] False None le_trans [OF _ diff_le_self [THEN mult_le_mono2]] by fastforce
    next
      case (Some cr)
      obtain c rest where cr: "cr = (c, rest)" by fastforce
      then have "valid_char c" "length rest < length bs" using decode_sequence_valid Some by blast+
      then show ?thesis using 2(3) [OF False Some cr [symmetric]] False Some cr length_utf8_char [of c] by simp
    qed
  qed
qed simp

end
