(* ===== verification/Terminal_Buffer.thy ===== *)
theory Terminal_Buffer
  imports Py_Utf8
begin

text \<open>
  \<open>ReplayBuffer\<close> of \<open>terminal/replay_buffer.py\<close>: the bounded history of a terminal's output, addressed by byte
  positions of the whole output.  The lemmas show that the buffer is a window of the whole
  output: \<open>append_window\<close> for what is added, \<open>window_read\<close> for what is read back.
\<close>

section \<open>The buffer\<close>

record replay_buffer =
  rb_max_bytes :: nat
  rb_chunks :: "(nat \<times> unicode) list"
  rb_start_cursor :: nat
  rb_cursor :: nat

definition new_buffer :: "nat \<Rightarrow> replay_buffer" where
  "new_buffer max_bytes = \<lparr>rb_max_bytes = max_bytes, rb_chunks = [], rb_start_cursor = 0, rb_cursor = 0\<rparr>"

definition size_bytes :: "(nat \<times> unicode) list \<Rightarrow> nat" where
  "size_bytes chunks = sum_list (map (\<lambda>(_, t). byte_length t) chunks)"

text \<open>\<open>encoded[-max_bytes:]\<close>: the whole for \<open>max_bytes = 0\<close>.\<close>

definition last_bytes :: "nat \<Rightarrow> nat list \<Rightarrow> nat list" where
  "last_bytes n bs = (if n = 0 then bs else drop (length bs - n) bs)"

fun trim_chunks :: "nat \<Rightarrow> nat \<Rightarrow> (nat \<times> unicode) list \<Rightarrow> nat \<times> (nat \<times> unicode) list" where
  "trim_chunks limit start (c # d # chunks) =
     (if limit < size_bytes (c # d # chunks) then trim_chunks limit (fst c + byte_length (snd c)) (d # chunks)
      else (start, c # d # chunks))"
| "trim_chunks limit start chunks = (start, chunks)"

definition trim :: "replay_buffer \<Rightarrow> replay_buffer" where
  "trim b = (case trim_chunks (rb_max_bytes b) (rb_start_cursor b) (rb_chunks b) of (start, chunks) \<Rightarrow>
     (case chunks of
        (s, t) # rest \<Rightarrow>
          if rb_max_bytes b < size_bytes chunks
          then let tail = last_bytes (rb_max_bytes b) (utf8 t); start' = s + byte_length t - length tail in
            b\<lparr>rb_chunks := (start', utf8_ignore tail) # rest, rb_start_cursor := start'\<rparr>
          else b\<lparr>rb_chunks := chunks, rb_start_cursor := start\<rparr>
      | [] \<Rightarrow> b\<lparr>rb_chunks := chunks, rb_start_cursor := start\<rparr>))"

definition append_text :: "unicode \<Rightarrow> replay_buffer \<Rightarrow> replay_buffer" where
  "append_text t b =
     (if t = [] then b
      else trim (b\<lparr>rb_cursor := rb_cursor b + byte_length t, rb_chunks := rb_chunks b @ [(rb_cursor b, t)]\<rparr>))"

definition chunk_from :: "nat \<Rightarrow> nat \<times> unicode \<Rightarrow> unicode" where
  "chunk_from effective = (\<lambda>(start, t).
     if start + byte_length t \<le> effective then []
     else if effective \<le> start then t
     else utf8_ignore (drop (effective - start) (utf8 t)))"

definition read_from :: "int \<Rightarrow> replay_buffer \<Rightarrow> unicode \<times> nat \<times> bool" where
  "read_from cursor b =
     (if int (rb_cursor b) < cursor then ([], rb_cursor b, False)
      else let effective = max (nat cursor) (rb_start_cursor b) in
        (concat (map (chunk_from effective) (rb_chunks b)), effective, cursor < int (rb_start_cursor b)))"

section \<open>Positions\<close>

text \<open>The characters that start at byte position \<open>k\<close> or later.\<close>

fun skip_bytes :: "nat \<Rightarrow> unicode \<Rightarrow> unicode" where
  "skip_bytes k [] = []"
| "skip_bytes k (c # cs) = (if k = 0 then c # cs else skip_bytes (k - length (utf8_char c)) cs)"

lemma skip_bytes_0 [simp]: "skip_bytes 0 t = t"
  by (cases t) simp_all

lemma skip_bytes_append: "skip_bytes k (s @ t) = skip_bytes k s @ skip_bytes (k - byte_length s) t"
  by (induction s arbitrary: k) (simp_all add: diff_diff_add)

lemma skip_bytes_all: "byte_length t \<le> k \<Longrightarrow> skip_bytes k t = []"
proof (induction t arbitrary: k)
  case (Cons c t)
  have "0 < length (utf8_char c)" by (simp add: utf8_char_def)
  then have "0 < k" "byte_length t \<le> k - length (utf8_char c)" using Cons.prems unfolding byte_length_simps by linarith+
  then show ?case using Cons.IH by simp
qed simp

text \<open>Decoding from any byte of an encoded text on yields the characters that start there or later.\<close>

lemma ignore_drop:
  "list_all valid_char t \<Longrightarrow> utf8_ignore (drop k (utf8 t) @ ys) = skip_bytes k t @ utf8_ignore ys"
proof (induction t arbitrary: k)
  case (Cons c t)
  have e: "drop k (utf8 (c # t)) = drop k (utf8_char c) @ drop (k - length (utf8_char c)) (utf8 t)" by (simp add: utf8_def)
  have IH: "utf8_ignore (drop j (utf8 t) @ ys) = skip_bytes j t @ utf8_ignore ys" for j using Cons by simp
  show ?case
  proof (cases "k = 0")
    case True
    then show ?thesis using e IH [of 0] decode_char [of c "utf8 t @ ys"] Cons.prems by simp
  next
    case False
    then have "list_all continuation (drop k (utf8_char c))" using utf8_char_tail Cons.prems by simp
    then show ?thesis using e IH False ignore_continuations by simp
  qed
qed (simp add: utf8_def)

section \<open>The window\<close>

text \<open>The chunks lie end to end from the start of the buffer to the cursor.\<close>

fun contiguous :: "nat \<Rightarrow> (nat \<times> unicode) list \<Rightarrow> bool" where
  "contiguous k [] \<longleftrightarrow> True"
| "contiguous k ((s, t) # chunks) \<longleftrightarrow> s = k \<and> contiguous (k + byte_length t) chunks"

definition chunk_text :: "(nat \<times> unicode) list \<Rightarrow> unicode" where
  "chunk_text chunks = concat (map snd chunks)"

lemma size_chunk_text: "size_bytes chunks = byte_length (chunk_text chunks)"
  by (induction chunks) (auto simp: size_bytes_def chunk_text_def)

lemma contiguous_append: "contiguous k (xs @ ys) \<longleftrightarrow> contiguous k xs \<and> contiguous (k + size_bytes xs) ys"
  by (induction k xs rule: contiguous.induct) (auto simp: size_bytes_def add.assoc)

lemma trim_chunks_window:
  assumes "contiguous start chunks" and "trim_chunks limit start chunks = (start', chunks')"
    and "chunks \<noteq> []" and "byte_length (snd (last chunks)) \<le> limit"
  shows "\<exists>gone. chunk_text chunks = gone @ chunk_text chunks' \<and> start' = start + byte_length gone \<and>
    contiguous start' chunks' \<and> chunks' \<noteq> [] \<and> size_bytes chunks' \<le> limit"
  using assms
proof (induction limit start chunks rule: trim_chunks.induct)
  case (1 limit start c d chunks)
  show ?case
  proof (cases "limit < size_bytes (c # d # chunks)")
    case True
    obtain s t where c: "c = (s, t)" by fastforce
    have "\<exists>gone. chunk_text (d # chunks) = gone @ chunk_text chunks' \<and> start' = (fst c + byte_length (snd c)) + byte_length gone \<and>
        contiguous start' chunks' \<and> chunks' \<noteq> [] \<and> size_bytes chunks' \<le> limit"
      using 1 True c by simp
    then obtain gone where g: "chunk_text (d # chunks) = gone @ chunk_text chunks'" "start' = start + byte_length t + byte_length gone"
      "contiguous start' chunks'" "chunks' \<noteq> []" "size_bytes chunks' \<le> limit" using "1.prems"(1) c by auto
    then show ?thesis using c by (intro exI [of _ "t @ gone"]) (simp add: chunk_text_def)
  next
    case False
    then show ?thesis using "1.prems" by auto
  qed
qed (auto simp: size_bytes_def)

definition window :: "unicode \<Rightarrow> replay_buffer \<Rightarrow> bool" where
  "window stream b \<longleftrightarrow> contiguous (rb_start_cursor b) (rb_chunks b) \<and> size_bytes (rb_chunks b) \<le> rb_max_bytes b \<and>
     rb_cursor b = byte_length stream \<and>
     (\<exists>gone. stream = gone @ chunk_text (rb_chunks b) \<and> rb_start_cursor b = byte_length gone)"

lemma append_window:
  assumes "window stream b" and "byte_length t \<le> rb_max_bytes b"
  shows "window (stream @ t) (append_text t b) \<and> rb_max_bytes (append_text t b) = rb_max_bytes b"
proof (cases "t = []")
  case True
  then show ?thesis using assms(1) by (simp add: append_text_def)
next
  case False
  let ?chunks = "rb_chunks b @ [(rb_cursor b, t)]"
  obtain gone where g: "stream = gone @ chunk_text (rb_chunks b)" "rb_start_cursor b = byte_length gone"
    and c: "contiguous (rb_start_cursor b) (rb_chunks b)" "rb_cursor b = byte_length stream"
    using assms(1) by (auto simp: window_def)
  have c': "contiguous (rb_start_cursor b) ?chunks" using c g by (simp add: contiguous_append size_chunk_text)
  obtain start' chunks' where tr: "trim_chunks (rb_max_bytes b) (rb_start_cursor b) ?chunks = (start', chunks')" by fastforce
  obtain gone' where g': "chunk_text ?chunks = gone' @ chunk_text chunks'" "start' = rb_start_cursor b + byte_length gone'"
    "contiguous start' chunks'" "chunks' \<noteq> []" "size_bytes chunks' \<le> rb_max_bytes b"
    using trim_chunks_window [OF c' tr] assms(2) by auto
  have "trim (b\<lparr>rb_cursor := rb_cursor b + byte_length t, rb_chunks := ?chunks\<rparr>) =
      b\<lparr>rb_cursor := rb_cursor b + byte_length t, rb_chunks := chunks', rb_start_cursor := start'\<rparr>"
    using tr g'(4,5) by (cases chunks') (auto simp: trim_def)
  then have a: "append_text t b = b\<lparr>rb_cursor := rb_cursor b + byte_length t, rb_chunks := chunks', rb_start_cursor := start'\<rparr>"
    using False by (simp add: append_text_def)
  have "stream @ t = (gone @ gone') @ chunk_text chunks'" using g(1) g'(1) by (simp add: chunk_text_def)
  moreover have "start' = byte_length (gone @ gone')" using g(2) g'(2) by simp
  moreover have "byte_length stream + byte_length t = byte_length (stream @ t)" by simp
  ultimately show ?thesis using a g'(3,5) c(2) by (auto simp: window_def simp del: byte_length_simps(3))
qed

lemma contiguous_ge: "contiguous k chunks \<Longrightarrow> (s, t) \<in> set chunks \<Longrightarrow> k \<le> s"
  by (induction k chunks rule: contiguous.induct) auto

lemma chunk_from_later:
  assumes "contiguous k chunks" and "c \<in> set chunks" and "e \<le> k"
  shows "chunk_from e c = snd c"
proof -
  obtain s t where c: "c = (s, t)" by fastforce
  then have "k \<le> s" using contiguous_ge assms by blast
  then have "e \<le> s" using assms(3) by simp
  then show ?thesis using c byte_length_0 [of t] by (auto simp: chunk_from_def simp del: byte_length_0)
qed

lemma chunks_from:
  assumes "contiguous k chunks" and "list_all valid_char (chunk_text chunks)" and "k \<le> e"
  shows "concat (map (chunk_from e) chunks) = skip_bytes (e - k) (chunk_text chunks)"
  using assms
proof (induction k chunks arbitrary: e rule: contiguous.induct)
  case (2 k s t chunks)
  have v: "list_all valid_char t" "list_all valid_char (chunk_text chunks)" using "2.prems"(2) by (simp_all add: chunk_text_def)
  have one: "chunk_from e (s, t) = skip_bytes (e - k) t"
    using "2.prems"(1,3) ignore_drop [OF v(1), of "e - k" "[]"] skip_bytes_all by (auto simp: chunk_from_def)
  have rest: "concat (map (chunk_from e) chunks) = skip_bytes (e - k - byte_length t) (chunk_text chunks)"
  proof (cases "k + byte_length t \<le> e")
    case True
    then show ?thesis using "2.IH" "2.prems" v by (simp add: diff_diff_left)
  next
    case False
    have "map (chunk_from e) chunks = map (chunk_from (k + byte_length t)) chunks"
      using chunk_from_later [of "k + byte_length t" chunks] "2.prems"(1) False by simp
    then have "concat (map (chunk_from e) chunks) = concat (map (chunk_from (k + byte_length t)) chunks)" by (rule arg_cong)
    also have "\<dots> = chunk_text chunks" using "2.IH" [of "k + byte_length t"] "2.prems"(1) v(2) by simp
    finally show ?thesis using False by simp
  qed
  show ?case using one rest by (simp add: chunk_text_def skip_bytes_append)
qed (simp add: chunk_text_def)

lemma window_read:
  assumes "window stream b" and "list_all valid_char stream"
  shows "read_from c b = (if int (byte_length stream) < c then ([], byte_length stream, False)
    else (skip_bytes (max (nat c) (rb_start_cursor b)) stream, max (nat c) (rb_start_cursor b), c < int (rb_start_cursor b)))"
proof -
  obtain gone where g: "stream = gone @ chunk_text (rb_chunks b)" "rb_start_cursor b = byte_length gone"
    and c: "contiguous (rb_start_cursor b) (rb_chunks b)" "rb_cursor b = byte_length stream"
    using assms(1) by (auto simp: window_def)
  have v: "list_all valid_char (chunk_text (rb_chunks b))" using assms(2) by (simp add: g(1))
  have "concat (map (chunk_from e) (rb_chunks b)) = skip_bytes e stream" if "rb_start_cursor b \<le> e" for e
    using chunks_from [OF c(1) v that] that g by (simp add: skip_bytes_append skip_bytes_all)
  then show ?thesis by (simp add: read_from_def c(2) Let_def)
qed

end
