(* ===== verification/Terminal_Sessions.thy ===== *)
theory Terminal_Sessions
  imports Terminal_Buffer "HOL-Library.AList"
begin

text \<open>
  The agent's browser terminals: \<open>TerminalManager\<close> of \<open>terminal/manager.py\<close>, \<open>TerminalTicketManager\<close> of
  \<open>terminal/tickets.py\<close>, and the routes of \<open>api/terminals.py\<close> and \<open>api/terminal_ws.py\<close> that call them.

  A Python dictionary is an association list: \<open>AList.update\<close> replaces a value in place or appends it,
  \<open>AList.delete\<close> removes it.  \<open>PtyProcess\<close>, the clock, \<open>uuid\<close>, \<open>secrets\<close>, \<open>select\<close>, \<open>os.read\<close> and
  \<open>os.kill\<close> are parameters of the model: each answers according to the number of calls made so far, so nothing is
  assumed about how often they answer the same.  Times are seconds.
\<close>

section \<open>State\<close>

datatype terminal_status = Term_Running | Term_Exited | Term_Closed | Term_Timed_Out

record terminal_session =
  ts_id :: string
  ts_owner :: string
  ts_title :: string
  ts_command :: string
  ts_process :: "nat option"
  ts_pid :: "nat option"
  ts_rows :: int
  ts_cols :: int
  ts_status :: terminal_status
  ts_output_cursor :: nat
  ts_replay_buffer_start_cursor :: nat
  ts_idle_timeout_minutes :: int
  ts_created_at :: instant
  ts_last_active_at :: instant
  ts_exited_at :: "instant option"
  ts_closed_at :: "instant option"
  ts_close_reason :: "string option"

record terminal_ticket =
  tt_ticket :: string
  tt_terminal_id :: string
  tt_expires_at :: instant
  tt_consumed :: bool

record terminal_state =
  tm_sessions :: "(string \<times> terminal_session) list"
  tm_buffers :: "(string \<times> replay_buffer) list"
  tm_tickets :: "(string \<times> terminal_ticket) list"
  tm_calls :: nat

datatype kill_answer = Killed | No_Such_Process | Kill_Refused

record terminal_env =
  te_shell :: string
  te_idle_timeout_minutes :: int
  te_replay_buffer_bytes :: nat
  te_exited_retention_minutes :: int
  te_ttl_seconds :: int
  te_time :: "nat \<Rightarrow> instant"
  te_uuid4 :: "nat \<Rightarrow> string"
  te_token :: "nat \<Rightarrow> string"
  te_spawn :: "nat \<Rightarrow> nat option"
  te_isalive :: "nat \<Rightarrow> nat \<Rightarrow> bool option"
  te_select :: "nat \<Rightarrow> nat \<Rightarrow> bool"
  te_os_read :: "nat \<Rightarrow> nat \<Rightarrow> nat list option"
  te_pty_write :: "nat \<Rightarrow> nat \<Rightarrow> nat list \<Rightarrow> bool"
  te_setwinsize :: "nat \<Rightarrow> nat \<Rightarrow> bool"
  te_terminate :: "nat \<Rightarrow> nat \<Rightarrow> bool"
  te_kill :: "nat \<Rightarrow> nat \<Rightarrow> kill_answer"

datatype terminal_exn =
    Key_Error string | Terminal_Not_Running | Spawn_Error | Pty_Error | Os_Error | Encode_Error
  | Terminal_Not_Found | Unprocessable

text \<open>The checks of \<open>TerminalManager.__init__\<close>, and \<open>min(ttl_seconds, 60)\<close> of \<open>TerminalTicketManager.__init__\<close>\<close>

definition manager_accepts :: "int \<Rightarrow> int \<Rightarrow> bool" where
  "manager_accepts idle retention \<longleftrightarrow> 30 \<le> idle \<and> idle \<le> 120 \<and> 0 \<le> retention \<and> retention \<le> 120"

definition ticket_ttl :: "int \<Rightarrow> int" where
  "ticket_ttl ttl_seconds = min ttl_seconds 60"

definition no_terminals :: terminal_state where
  "no_terminals = \<lparr>tm_sessions = [], tm_buffers = [], tm_tickets = [], tm_calls = 0\<rparr>"

type_synonym 'a terminal_answer = "(terminal_exn + 'a) \<times> terminal_state"

definition called :: "terminal_state \<Rightarrow> terminal_state" where
  "called st = st\<lparr>tm_calls := Suc (tm_calls st)\<rparr>"

definition time_now :: "terminal_env \<Rightarrow> terminal_state \<Rightarrow> instant \<times> terminal_state" where
  "time_now env st = (te_time env (tm_calls st), called st)"

definition and_then :: "'a terminal_answer \<Rightarrow> ('a \<Rightarrow> terminal_state \<Rightarrow> 'b terminal_answer) \<Rightarrow> 'b terminal_answer" where
  "and_then r f = (case r of (Inl x, st) \<Rightarrow> (Inl x, st) | (Inr v, st) \<Rightarrow> f v st)"

definition update_session :: "string \<Rightarrow> (terminal_session \<Rightarrow> terminal_session) \<Rightarrow> terminal_state \<Rightarrow> terminal_state" where
  "update_session tid f st = (case map_of (tm_sessions st) tid of
     Some s \<Rightarrow> st\<lparr>tm_sessions := AList.update tid (f s) (tm_sessions st)\<rparr> | None \<Rightarrow> st)"

section \<open>Sessions\<close>

definition create_terminal ::
  "terminal_env \<Rightarrow> string \<Rightarrow> int \<Rightarrow> int \<Rightarrow> string \<Rightarrow> terminal_state \<Rightarrow> terminal_session terminal_answer" where
  "create_terminal env title rows cols owner st =
     (let tid = te_uuid4 env (tm_calls st); st1 = called st; st2 = called st1 in
      case te_spawn env (tm_calls st1) of
        None \<Rightarrow> (Inl Spawn_Error, st2)
      | Some pid \<Rightarrow>
          let (now, st3) = time_now env st2;
              session = \<lparr>ts_id = tid, ts_owner = owner, ts_title = (if title = [] then ''Terminal'' else title),
                ts_command = te_shell env, ts_process = Some pid, ts_pid = Some pid, ts_rows = rows, ts_cols = cols,
                ts_status = Term_Running, ts_output_cursor = 0, ts_replay_buffer_start_cursor = 0,
                ts_idle_timeout_minutes = te_idle_timeout_minutes env, ts_created_at = now, ts_last_active_at = now,
                ts_exited_at = None, ts_closed_at = None, ts_close_reason = None\<rparr> in
          (Inr session, st3\<lparr>tm_sessions := AList.update tid session (tm_sessions st3),
             tm_buffers := AList.update tid (new_buffer (te_replay_buffer_bytes env)) (tm_buffers st3)\<rparr>))"

definition mark_exited :: "terminal_env \<Rightarrow> string \<Rightarrow> string \<Rightarrow> terminal_state \<Rightarrow> terminal_state" where
  "mark_exited env tid reason st = (let (now, st1) = time_now env st in
     update_session tid (\<lambda>s. s\<lparr>ts_status := Term_Exited, ts_exited_at := Some now, ts_close_reason := Some reason,
       ts_process := None\<rparr>) st1)"

fun poll_exits :: "terminal_env \<Rightarrow> (string \<times> terminal_session) list \<Rightarrow> terminal_state \<Rightarrow> unit terminal_answer" where
  "poll_exits env [] st = (Inr (), st)"
| "poll_exits env ((tid, s) # rest) st = (case ts_process s of
     Some p \<Rightarrow>
       if ts_status s = Term_Running then (case te_isalive env p (tm_calls st) of
           None \<Rightarrow> (Inl Pty_Error, called st)
         | Some True \<Rightarrow> poll_exits env rest (called st)
         | Some False \<Rightarrow> poll_exits env rest (mark_exited env tid ''shell_exited'' (called st)))
       else poll_exits env rest st
   | None \<Rightarrow> poll_exits env rest st)"

definition terminal_at :: "terminal_session \<Rightarrow> instant option" where
  "terminal_at s = (if ts_status s = Term_Closed then ts_closed_at s
     else if ts_status s = Term_Exited then ts_exited_at s else None)"

definition expired_at :: "terminal_env \<Rightarrow> instant \<Rightarrow> terminal_session \<Rightarrow> bool" where
  "expired_at env now s = (case terminal_at s of None \<Rightarrow> False
     | Some t \<Rightarrow> te_exited_retention_minutes env * 60 \<le> now - t)"

fun purge_list :: "terminal_env \<Rightarrow> instant \<Rightarrow> (string \<times> terminal_session) list \<Rightarrow> terminal_state \<Rightarrow> terminal_state" where
  "purge_list env now [] st = st"
| "purge_list env now ((tid, s) # rest) st = purge_list env now rest
     (if expired_at env now s
      then st\<lparr>tm_sessions := AList.delete tid (tm_sessions st), tm_buffers := AList.delete tid (tm_buffers st)\<rparr>
      else st)"

definition purge_expired :: "terminal_env \<Rightarrow> terminal_state \<Rightarrow> terminal_state" where
  "purge_expired env st = (let (now, st1) = time_now env st in purge_list env now (tm_sessions st1) st1)"

definition refresh :: "terminal_env \<Rightarrow> terminal_state \<Rightarrow> unit terminal_answer" where
  "refresh env st = and_then (poll_exits env (tm_sessions st) st) (\<lambda>_ st1. (Inr (), purge_expired env st1))"

definition list_sessions :: "terminal_env \<Rightarrow> terminal_state \<Rightarrow> terminal_session list terminal_answer" where
  "list_sessions env st = and_then (refresh env st) (\<lambda>_ st1. (Inr (map snd (tm_sessions st1)), st1))"

definition get_session :: "terminal_env \<Rightarrow> string \<Rightarrow> terminal_state \<Rightarrow> terminal_session terminal_answer" where
  "get_session env tid st = and_then (refresh env st) (\<lambda>_ st1.
     case map_of (tm_sessions st1) tid of Some s \<Rightarrow> (Inr s, st1) | None \<Rightarrow> (Inl (Key_Error tid), st1))"

definition touch :: "terminal_env \<Rightarrow> string \<Rightarrow> terminal_state \<Rightarrow> unit terminal_answer" where
  "touch env tid st = (let (now, st1) = time_now env st in (Inr (), update_session tid (\<lambda>s. s\<lparr>ts_last_active_at := now\<rparr>) st1))"

definition write_terminal :: "terminal_env \<Rightarrow> string \<Rightarrow> unicode \<Rightarrow> terminal_state \<Rightarrow> unit terminal_answer" where
  "write_terminal env tid t st = and_then (get_session env tid st) (\<lambda>session st1.
     case ts_process session of
       None \<Rightarrow> (Inl Terminal_Not_Running, st1)
     | Some p \<Rightarrow>
         if ts_status session \<noteq> Term_Running then (Inl Terminal_Not_Running, st1)
         else if list_ex surrogate t then (Inl Encode_Error, st1)
         else if te_pty_write env p (tm_calls st1) (utf8 t) then touch env tid (called st1)
         else (Inl Pty_Error, called st1))"

definition record_output :: "terminal_env \<Rightarrow> string \<Rightarrow> unicode \<Rightarrow> terminal_state \<Rightarrow> terminal_state" where
  "record_output env tid t st = (case map_of (tm_buffers st) tid of
     None \<Rightarrow> st
   | Some b \<Rightarrow>
       let b' = append_text t b; (now, st1) = time_now env (st\<lparr>tm_buffers := AList.update tid b' (tm_buffers st)\<rparr>) in
       update_session tid (\<lambda>s. s\<lparr>ts_output_cursor := rb_cursor b', ts_replay_buffer_start_cursor := rb_start_cursor b',
         ts_last_active_at := now\<rparr>) st1)"

text \<open>The \<open>while True\<close> loop of \<open>read_available\<close>: \<open>None\<close> stands for a process whose output never pauses.\<close>

partial_function (option) read_loop :: "terminal_env \<Rightarrow> string \<Rightarrow> nat \<Rightarrow> terminal_state \<Rightarrow> (unicode \<times> terminal_state) option" where
  "read_loop env tid p st =
     (if \<not> te_select env p (tm_calls st) then Some ([], called st)
      else case te_os_read env p (tm_calls (called st)) of
          None \<Rightarrow> Some ([], mark_exited env tid ''shell_exited'' (called (called st)))
        | Some [] \<Rightarrow> Some ([], mark_exited env tid ''shell_exited'' (called (called st)))
        | Some (byte # bytes) \<Rightarrow>
            Option.bind (read_loop env tid p (record_output env tid (utf8_replace (byte # bytes)) (called (called st))))
              (\<lambda>(output, st2). Some (utf8_replace (byte # bytes) @ output, st2)))"

definition read_available :: "terminal_env \<Rightarrow> string \<Rightarrow> terminal_state \<Rightarrow> unicode terminal_answer option" where
  "read_available env tid st = (case get_session env tid st of
     (Inl x, st1) \<Rightarrow> Some (Inl x, st1)
   | (Inr session, st1) \<Rightarrow> (case ts_process session of
         None \<Rightarrow> Some (Inr [], st1)
       | Some p \<Rightarrow> map_option (\<lambda>(output, st2). (Inr output, st2)) (read_loop env tid p st1)))"

definition resize :: "terminal_env \<Rightarrow> string \<Rightarrow> int \<Rightarrow> int \<Rightarrow> terminal_state \<Rightarrow> unit terminal_answer" where
  "resize env tid rows cols st = and_then (get_session env tid st) (\<lambda>session st1.
     let st2 = update_session tid (\<lambda>s. s\<lparr>ts_rows := rows, ts_cols := cols\<rparr>) st1 in
     case ts_process session of
       Some p \<Rightarrow>
         if ts_status session = Term_Running
         then if te_setwinsize env p (tm_calls st2) then touch env tid (called st2) else (Inl Pty_Error, called st2)
         else touch env tid st2
     | None \<Rightarrow> touch env tid st2)"

record replay_history =
  rh_terminal_id :: string
  rh_from_cursor :: nat
  rh_to_cursor :: nat
  rh_buffer_start_cursor :: nat
  rh_truncated :: bool
  rh_status :: terminal_status
  rh_output :: unicode

definition terminal_history :: "terminal_env \<Rightarrow> string \<Rightarrow> int \<Rightarrow> terminal_state \<Rightarrow> replay_history terminal_answer" where
  "terminal_history env tid cursor st = and_then (get_session env tid st) (\<lambda>session st1.
     case map_of (tm_buffers st1) tid of
       None \<Rightarrow> (Inl (Key_Error tid), st1)
     | Some b \<Rightarrow> (case read_from cursor b of (output, from_cursor, truncated) \<Rightarrow>
         (Inr \<lparr>rh_terminal_id = tid, rh_from_cursor = from_cursor, rh_to_cursor = rb_cursor b,
            rh_buffer_start_cursor = rb_start_cursor b, rh_truncated = truncated, rh_status = ts_status session,
            rh_output = output\<rparr>, st1)))"

text \<open>The end of the process in \<open>close\<close>: \<open>terminate\<close>, and \<open>os.kill\<close> when it raises.\<close>

definition end_process :: "terminal_env \<Rightarrow> terminal_session \<Rightarrow> terminal_state \<Rightarrow> unit terminal_answer" where
  "end_process env session st = (case ts_process session of
     None \<Rightarrow> (Inr (), st)
   | Some p \<Rightarrow>
       if ts_status session \<noteq> Term_Running then (Inr (), st)
       else if te_terminate env p (tm_calls st) then (Inr (), called st)
       else case ts_pid session of
           None \<Rightarrow> (Inr (), called st)
         | Some pid \<Rightarrow>
             if pid = 0 then (Inr (), called st)
             else (case te_kill env pid (tm_calls (called st)) of
                 Kill_Refused \<Rightarrow> (Inl Os_Error, called (called st))
               | _ \<Rightarrow> (Inr (), called (called st))))"

definition close_terminal :: "terminal_env \<Rightarrow> string \<Rightarrow> string \<Rightarrow> terminal_state \<Rightarrow> terminal_session terminal_answer" where
  "close_terminal env tid reason st = and_then (get_session env tid st) (\<lambda>session st1.
     and_then (end_process env session st1) (\<lambda>_ st2.
       let (now, st3) = time_now env st2;
           closing = (\<lambda>s. s\<lparr>ts_status := (if reason = ''user_closed'' then Term_Closed else Term_Timed_Out),
             ts_closed_at := Some now, ts_close_reason := Some reason, ts_process := None\<rparr>) in
       (Inr (closing session), update_session tid closing st3)))"

definition idle :: "instant \<Rightarrow> terminal_session \<Rightarrow> bool" where
  "idle now s \<longleftrightarrow> ts_status s = Term_Running \<and> ts_idle_timeout_minutes s * 60 < now - ts_last_active_at s"

fun close_idle :: "terminal_env \<Rightarrow> instant \<Rightarrow> string list \<Rightarrow> terminal_state \<Rightarrow> unit terminal_answer" where
  "close_idle env now [] st = (Inr (), st)"
| "close_idle env now (tid # rest) st = (case map_of (tm_sessions st) tid of
     Some s \<Rightarrow>
       if idle now s then and_then (close_terminal env tid ''idle_timeout'' st) (\<lambda>_ st1. close_idle env now rest st1)
       else close_idle env now rest st
   | None \<Rightarrow> close_idle env now rest st)"

definition cleanup_idle_sessions :: "terminal_env \<Rightarrow> terminal_state \<Rightarrow> unit terminal_answer" where
  "cleanup_idle_sessions env st = (let (now, st1) = time_now env st in close_idle env now (map fst (tm_sessions st1)) st1)"

section \<open>Tickets\<close>

definition issue_ticket :: "terminal_env \<Rightarrow> string \<Rightarrow> terminal_state \<Rightarrow> terminal_ticket \<times> terminal_state" where
  "issue_ticket env tid st =
     (let ticket = te_token env (tm_calls st); (now, st1) = time_now env (called st);
          row = \<lparr>tt_ticket = ticket, tt_terminal_id = tid, tt_expires_at = now + ticket_ttl (te_ttl_seconds env), tt_consumed = False\<rparr> in
      (row, st1\<lparr>tm_tickets := AList.update ticket row (tm_tickets st1)\<rparr>))"

definition consume_ticket :: "terminal_env \<Rightarrow> string \<Rightarrow> string \<Rightarrow> terminal_state \<Rightarrow> bool \<times> terminal_state" where
  "consume_ticket env ticket tid st = (case map_of (tm_tickets st) ticket of
     None \<Rightarrow> (False, st)
   | Some row \<Rightarrow>
       if tt_consumed row \<or> tt_terminal_id row \<noteq> tid then (False, st)
       else let (now, st1) = time_now env st in
         if tt_expires_at row < now then (False, st1)
         else (True, st1\<lparr>tm_tickets := AList.update ticket (row\<lparr>tt_consumed := True\<rparr>) (tm_tickets st1)\<rparr>))"

section \<open>Routes\<close>

datatype terminal_call =
    List_Terminals
  | Create_Terminal string int int string
  | Get_Terminal string
  | Get_History string int
  | Connect_Token string
  | Resize_Terminal string int int
  | Delete_Terminal string
  | Socket_Connect string "string option" "int option"
  | Socket_Send string unicode
  | Socket_Poll string
  | Idle_Cleanup

datatype terminal_reply =
    Sessions "terminal_session list" | Session terminal_session | History replay_history | Token string int | No_Content
  | Accepted unicode | Refused nat | Polled unicode

text \<open>\<open>_terminal_or_404\<close>\<close>

definition terminal_or_404 :: "terminal_env \<Rightarrow> string \<Rightarrow> terminal_state \<Rightarrow> terminal_session terminal_answer" where
  "terminal_or_404 env tid st = (case get_session env tid st of
     (Inl (Key_Error _), st1) \<Rightarrow> (Inl Terminal_Not_Found, st1) | r \<Rightarrow> r)"

definition answer_with :: "('a \<Rightarrow> terminal_reply) \<Rightarrow> 'a terminal_answer \<Rightarrow> terminal_reply terminal_answer" where
  "answer_with f r = and_then r (\<lambda>v st. (Inr (f v), st))"

definition api_create_terminal :: "terminal_env \<Rightarrow> string \<Rightarrow> int \<Rightarrow> int \<Rightarrow> string \<Rightarrow> terminal_state \<Rightarrow> terminal_reply terminal_answer" where
  "api_create_terminal env title rows cols actor st =
     (if 80 < length title \<or> rows < 1 \<or> cols < 1 then (Inl Unprocessable, st)
      else answer_with Session (create_terminal env title rows cols actor st))"

definition api_connect_token :: "terminal_env \<Rightarrow> string \<Rightarrow> terminal_state \<Rightarrow> terminal_reply terminal_answer" where
  "api_connect_token env tid st = and_then (terminal_or_404 env tid st) (\<lambda>_ st1.
     case issue_ticket env tid st1 of (row, st2) \<Rightarrow> (Inr (Token (tt_ticket row) (ticket_ttl (te_ttl_seconds env))), st2))"

definition api_resize_terminal :: "terminal_env \<Rightarrow> string \<Rightarrow> int \<Rightarrow> int \<Rightarrow> terminal_state \<Rightarrow> terminal_reply terminal_answer" where
  "api_resize_terminal env tid rows cols st =
     (if rows < 1 \<or> cols < 1 then (Inl Unprocessable, st)
      else and_then (terminal_or_404 env tid st) (\<lambda>_ st1. answer_with (\<lambda>_. No_Content) (resize env tid rows cols st1)))"

text \<open>
  \<open>terminal_websocket\<close> up to the start of its two loops; the close codes are those of the code.  The handshake is accepted
  before the history is read: an exception of the latter is the \<open>Inl\<close> of this function, with the ticket spent.
\<close>

definition socket_connect :: "terminal_env \<Rightarrow> string \<Rightarrow> string option \<Rightarrow> int option \<Rightarrow> terminal_state \<Rightarrow> terminal_reply terminal_answer" where
  "socket_connect env tid ticket cursor st = (case cursor of
     None \<Rightarrow> (Inr (Refused 4400), st)
   | Some from_cursor \<Rightarrow>
       if ticket = None \<or> ticket = Some [] then (Inr (Refused 4401), st)
       else case consume_ticket env (the ticket) tid st of
           (False, st1) \<Rightarrow> (Inr (Refused 4401), st1)
         | (True, st1) \<Rightarrow> (case get_session env tid st1 of
               (Inl (Key_Error _), st2) \<Rightarrow> (Inr (Refused 4404), st2)
             | (Inl x, st2) \<Rightarrow> (Inl x, st2)
             | (Inr session, st2) \<Rightarrow>
                 if ts_status session \<noteq> Term_Running then (Inr (Refused 4409), st2)
                 else answer_with (\<lambda>h. Accepted (rh_output h)) (terminal_history env tid from_cursor st2)))"

definition serve :: "terminal_env \<Rightarrow> terminal_call \<Rightarrow> terminal_state \<Rightarrow> terminal_reply terminal_answer option" where
  "serve env c st = (case c of
     List_Terminals \<Rightarrow> Some (answer_with Sessions (list_sessions env st))
   | Create_Terminal title rows cols actor \<Rightarrow> Some (api_create_terminal env title rows cols actor st)
   | Get_Terminal tid \<Rightarrow> Some (answer_with Session (terminal_or_404 env tid st))
   | Get_History tid cursor \<Rightarrow> Some (and_then (terminal_or_404 env tid st) (\<lambda>_ st1. answer_with History (terminal_history env tid cursor st1)))
   | Connect_Token tid \<Rightarrow> Some (api_connect_token env tid st)
   | Resize_Terminal tid rows cols \<Rightarrow> Some (api_resize_terminal env tid rows cols st)
   | Delete_Terminal tid \<Rightarrow> Some (and_then (terminal_or_404 env tid st) (\<lambda>_ st1. answer_with Session (close_terminal env tid ''user_closed'' st1)))
   | Socket_Connect tid ticket cursor \<Rightarrow> Some (socket_connect env tid ticket cursor st)
   | Socket_Send tid t \<Rightarrow> Some (answer_with (\<lambda>_. No_Content) (write_terminal env tid t st))
   | Socket_Poll tid \<Rightarrow> map_option (answer_with Polled) (read_available env tid st)
   | Idle_Cleanup \<Rightarrow> Some (answer_with (\<lambda>_. No_Content) (cleanup_idle_sessions env st)))"

text \<open>
  A run: the calls one after another, each with its reply and the numbers of outside calls made before and after it; a
  poll that never returns ends it.  The routes run in a thread pool; the model takes them one at a time.
\<close>

type_synonym terminal_event = "terminal_call \<times> (terminal_exn + terminal_reply) \<times> nat \<times> nat"

inductive served :: "terminal_env \<Rightarrow> terminal_event list \<Rightarrow> terminal_state \<Rightarrow> bool" for env where
  start: "served env [] no_terminals"
| call: "served env trace st \<Longrightarrow> serve env c st = Some (r, st') \<Longrightarrow>
    served env (trace @ [(c, r, tm_calls st, tm_calls st')]) st'"

end
