(* ===== verification/Terminal_Properties.thy ===== *)
theory Terminal_Properties
  imports Terminal_Sessions
begin

text \<open>
  What the agent's terminals promise: a client that reconnects is replayed exactly what the terminal has put out, a
  ticket opens one socket, and a terminal is kept or purged as its state says.  The locale \<open>terminal_upkeep\<close> carries
  whatever the calls that only keep sessions up to date do not change.
\<close>

section \<open>Upkeep\<close>

definition keeps_output :: "(terminal_session \<Rightarrow> terminal_session) \<Rightarrow> bool" where
  "keeps_output f \<longleftrightarrow> (\<forall>s. ts_id (f s) = ts_id s \<and> ts_output_cursor (f s) = ts_output_cursor s \<and>
     ts_replay_buffer_start_cursor (f s) = ts_replay_buffer_start_cursor s \<and>
     ((ts_status s = Term_Running \<longleftrightarrow> ts_process s \<noteq> None) \<longrightarrow> (ts_status (f s) = Term_Running \<longleftrightarrow> ts_process (f s) \<noteq> None)))"

definition forget :: "string \<Rightarrow> terminal_state \<Rightarrow> terminal_state" where
  "forget tid st = st\<lparr>tm_sessions := AList.delete tid (tm_sessions st), tm_buffers := AList.delete tid (tm_buffers st)\<rparr>"

text \<open>The calls that neither create a terminal, read its output nor deal in tickets.\<close>

fun upkeep_call :: "terminal_call \<Rightarrow> bool" where
  "upkeep_call (Create_Terminal _ _ _ _) \<longleftrightarrow> False"
| "upkeep_call (Connect_Token _) \<longleftrightarrow> False"
| "upkeep_call (Socket_Connect _ _ _) \<longleftrightarrow> False"
| "upkeep_call (Socket_Poll _) \<longleftrightarrow> False"
| "upkeep_call _ \<longleftrightarrow> True"

locale terminal_upkeep =
  fixes P :: "terminal_state \<Rightarrow> bool"
  assumes P_called: "P st \<Longrightarrow> P (called st)"
    and P_session: "P st \<Longrightarrow> keeps_output f \<Longrightarrow> P (update_session tid f st)"
    and P_forget: "P st \<Longrightarrow> P (forget tid st)"
begin

lemma upkeep_then:
  assumes "P (snd r)" and "\<And>v st. r = (Inr v, st) \<Longrightarrow> P st \<Longrightarrow> P (snd (f v st))"
  shows "P (snd (and_then r f))"
  using assms by (cases r) (auto simp: and_then_def split: sum.splits)

lemma upkeep_mark: "P st \<Longrightarrow> P (mark_exited env tid reason st)"
  by (simp add: mark_exited_def time_now_def P_called P_session keeps_output_def)

lemma upkeep_touch: "P st \<Longrightarrow> P (snd (touch env tid st))"
  by (simp add: touch_def time_now_def P_called P_session keeps_output_def)

lemma upkeep_poll: "P st \<Longrightarrow> P (snd (poll_exits env rows st))"
  by (induction env rows st rule: poll_exits.induct) (auto split: option.splits bool.splits simp: P_called upkeep_mark)

lemma upkeep_purge_list: "P st \<Longrightarrow> P (purge_list env now rows st)"
  by (induction env now rows st rule: purge_list.induct) (simp_all add: P_forget [unfolded forget_def])

lemma upkeep_refresh: "P st \<Longrightarrow> P (snd (refresh env st))"
  unfolding refresh_def
  by (rule upkeep_then) (simp_all add: upkeep_poll purge_expired_def time_now_def upkeep_purge_list P_called)

lemma upkeep_get: "P st \<Longrightarrow> P (snd (get_session env tid st))"
  unfolding get_session_def by (rule upkeep_then) (simp_all add: upkeep_refresh split: option.splits)

lemma upkeep_list: "P st \<Longrightarrow> P (snd (list_sessions env st))"
  unfolding list_sessions_def by (rule upkeep_then) (simp_all add: upkeep_refresh)

lemma upkeep_404: "P st \<Longrightarrow> P (snd (terminal_or_404 env tid st))"
  using upkeep_get [of st env tid] by (auto simp: terminal_or_404_def split: prod.splits sum.splits terminal_exn.splits)

lemma upkeep_answer_with: "P (snd r) \<Longrightarrow> P (snd (answer_with f r))"
  unfolding answer_with_def by (rule upkeep_then) simp_all

lemma upkeep_write: "P st \<Longrightarrow> P (snd (write_terminal env tid t st))"
  unfolding write_terminal_def
  by (rule upkeep_then) (simp_all add: upkeep_get P_called upkeep_touch split: option.splits)

lemma upkeep_resize: "P st \<Longrightarrow> P (snd (resize env tid rows cols st))"
  unfolding resize_def Let_def
  by (rule upkeep_then) (simp_all add: upkeep_get P_called upkeep_touch P_session keeps_output_def split: option.splits)

lemma upkeep_history: "P st \<Longrightarrow> P (snd (terminal_history env tid cursor st))"
  unfolding terminal_history_def
  by (rule upkeep_then) (simp_all add: upkeep_get split: option.splits prod.splits)

lemma upkeep_end_process: "P st \<Longrightarrow> P (snd (end_process env s st))"
  by (auto simp: end_process_def P_called split: option.splits kill_answer.splits)

lemma upkeep_close: "P st \<Longrightarrow> P (snd (close_terminal env tid reason st))"
  unfolding close_terminal_def
  by (rule upkeep_then, simp add: upkeep_get, rule upkeep_then)
    (simp_all add: upkeep_end_process time_now_def P_called P_session keeps_output_def Let_def)

lemma upkeep_close_idle: "P st \<Longrightarrow> P (snd (close_idle env now ids st))"
proof (induction ids arbitrary: st)
  case (Cons tid ids)
  then show ?case by (auto split: option.splits intro!: upkeep_then upkeep_close)
qed simp

lemma upkeep_cleanup: "P st \<Longrightarrow> P (snd (cleanup_idle_sessions env st))"
  by (simp add: cleanup_idle_sessions_def time_now_def upkeep_close_idle P_called)

lemmas upkeep = upkeep_list upkeep_404 upkeep_answer_with upkeep_write upkeep_resize upkeep_history upkeep_close upkeep_cleanup

lemma upkeep_serve:
  assumes "P st" and "upkeep_call c" and "serve env c st = Some (r, st')"
  shows "P st'"
proof -
  have "\<exists>x. serve env c st = Some x \<and> P (snd x)"
    using assms(1,2) by (cases c) (auto simp: serve_def api_resize_terminal_def intro!: upkeep upkeep_then)
  then show ?thesis using assms(3) by auto
qed

end

locale ticket_upkeep = terminal_upkeep +
  assumes P_tickets: "P st \<Longrightarrow> P (st\<lparr>tm_tickets := rows\<rparr>)"
begin

lemma upkeep_issue: "P st \<Longrightarrow> P (snd (issue_ticket env tid st))"
  by (simp add: issue_ticket_def time_now_def Let_def P_called P_tickets)

lemma upkeep_consume: "P st \<Longrightarrow> P (snd (consume_ticket env ticket tid st))"
  by (auto simp: consume_ticket_def time_now_def Let_def P_called P_tickets split: option.splits)

lemma upkeep_connect_token: "P st \<Longrightarrow> P (snd (api_connect_token env tid st))"
  unfolding api_connect_token_def
proof (rule upkeep_then)
  fix v st1
  assume "P st1"
  then show "P (snd (case issue_ticket env tid st1 of
      (row, st2) \<Rightarrow> (Inr (Token (tt_ticket row) (ticket_ttl (te_ttl_seconds env))), st2)))"
    using upkeep_issue [of st1 env tid] by (auto split: prod.splits)
qed (rule upkeep_404)

lemma upkeep_socket_connect:
  assumes "P st"
  shows "P (snd (socket_connect env tid ticket cursor st))"
proof -
  have "P (snd (socket_connect env tid (Some k) (Some from) st))" for k "from"
  proof -
    obtain ok st1 where c: "consume_ticket env k tid st = (ok, st1)" by fastforce
    obtain r st2 where g: "get_session env tid st1 = (r, st2)" by fastforce
    have "P st2" using upkeep_consume [OF assms, of env k tid] upkeep_get [of st1 env tid] c g by simp
    moreover have "P st1" using upkeep_consume [OF assms, of env k tid] c by simp
    ultimately show ?thesis using c g assms
      by (auto simp: socket_connect_def upkeep_answer_with upkeep_history split: bool.splits sum.splits terminal_exn.splits)
  qed
  then show ?thesis using assms by (cases ticket; cases cursor) (auto simp: socket_connect_def)
qed

end

section \<open>What a terminal has put out\<close>

text \<open>The output a run has handed to its clients, by terminal.\<close>

fun note_event :: "terminal_event \<Rightarrow> (string \<Rightarrow> unicode) \<Rightarrow> string \<Rightarrow> unicode" where
  "note_event (Create_Terminal _ _ _ _, Inr (Session s), _) out = out(ts_id s := [])"
| "note_event (Socket_Poll tid, Inr (Polled t), _) out = out(tid := out tid @ t)"
| "note_event _ out = out"

definition transcript :: "terminal_event list \<Rightarrow> string \<Rightarrow> unicode" where
  "transcript trace = fold note_event trace (\<lambda>_. [])"

definition mirrored :: "terminal_env \<Rightarrow> unicode \<Rightarrow> terminal_session \<Rightarrow> replay_buffer \<Rightarrow> bool" where
  "mirrored env t s b \<longleftrightarrow> window t b \<and> list_all valid_char t \<and> rb_max_bytes b = te_replay_buffer_bytes env \<and>
     ts_output_cursor s = rb_cursor b \<and> ts_replay_buffer_start_cursor s = rb_start_cursor b \<and>
     (ts_status s = Term_Running \<longleftrightarrow> ts_process s \<noteq> None)"

definition mirrors :: "terminal_env \<Rightarrow> (string \<Rightarrow> unicode) \<Rightarrow> terminal_state \<Rightarrow> bool" where
  "mirrors env out st \<longleftrightarrow> map fst (tm_buffers st) = map fst (tm_sessions st) \<and> distinct (map fst (tm_sessions st)) \<and>
     (\<forall>tid s b. map_of (tm_sessions st) tid = Some s \<longrightarrow> map_of (tm_buffers st) tid = Some b \<longrightarrow>
        ts_id s = tid \<and> mirrored env (out tid) s b)"

declare map_of_eq_Some_iff [simp del]

lemma map_fst_update_known: "tid \<in> fst ` set al \<Longrightarrow> map fst (AList.update tid v al) = map fst al"
  by (induction al) auto

lemma map_fst_update: "map fst xs = map fst ys \<Longrightarrow> map fst (AList.update k v xs) = map fst (AList.update k w ys)"
  by (induction xs arbitrary: ys) (auto simp: Cons_eq_map_conv)

lemma map_fst_delete: "map fst xs = map fst ys \<Longrightarrow> map fst (AList.delete k xs) = map fst (AList.delete k ys)"
  by (induction xs arbitrary: ys) (auto simp: AList.delete_eq Cons_eq_map_conv)

lemma mirrors_called: "mirrors env out st \<Longrightarrow> mirrors env out (called st)"
  by (simp add: mirrors_def called_def)

lemma mirrors_session:
  assumes "mirrors env out st" and "keeps_output f"
  shows "mirrors env out (update_session tid f st)"
proof (cases "map_of (tm_sessions st) tid")
  case (Some s)
  then have "tid \<in> fst ` set (tm_sessions st)" by (metis domI dom_map_of_conv_image_fst)
  then show ?thesis
    using assms Some
    by (simp add: mirrors_def mirrored_def update_session_def map_fst_update_known AList.update_conv' keeps_output_def)
qed (simp add: update_session_def assms(1))

lemma mirrors_forget:
  assumes "mirrors env out st"
  shows "mirrors env out (forget tid st)"
  using assms map_fst_delete [of "tm_buffers st" "tm_sessions st" tid]
  by (simp add: mirrors_def forget_def AList.delete_conv' AList.distinct_delete)

interpretation mirroring: ticket_upkeep "mirrors env out" for env out
  by unfold_locales (auto simp: mirrors_called mirrors_session mirrors_forget, simp add: mirrors_def)

text \<open>What \<open>os.read(fd, 4096)\<close> and the configuration promise: a read of at most 4096 bytes, a buffer of at least a mebibyte.\<close>

definition bounded_reads :: "terminal_env \<Rightarrow> bool" where
  "bounded_reads env \<longleftrightarrow> 1048576 \<le> te_replay_buffer_bytes env \<and>
     (\<forall>p n bs. te_os_read env p n = Some bs \<longrightarrow> length bs \<le> 4096)"

lemma mirrors_output:
  assumes "mirrors env out st" and "byte_length t \<le> te_replay_buffer_bytes env" and "list_all valid_char t"
  shows "mirrors env (out(tid := out tid @ t)) (record_output env tid t st)"
proof (cases "map_of (tm_buffers st) tid")
  case None
  then have "map_of (tm_sessions st) tid = None"
    using assms(1) by (simp add: mirrors_def map_of_eq_None_iff flip: set_map)
  then show ?thesis using assms(1) None by (auto simp: record_output_def mirrors_def)
next
  case (Some b)
  then have "tid \<in> set (map fst (tm_sessions st))"
    using assms(1) unfolding mirrors_def by (metis domI dom_map_of_conv_image_fst set_map)
  then obtain s where s: "map_of (tm_sessions st) tid = Some s" by (metis list.set_map map_of_eq_None_iff not_Some_eq)
  have "window (out tid @ t) (append_text t b) \<and> rb_max_bytes (append_text t b) = rb_max_bytes b"
    using assms s Some by (intro append_window) (auto simp: mirrors_def mirrored_def)
  moreover have "tid \<in> fst ` set (tm_sessions st)" "tid \<in> fst ` set (tm_buffers st)"
    using s Some by (metis domI dom_map_of_conv_image_fst)+
  ultimately show ?thesis
    using assms Some s
    by (simp add: mirrors_def mirrored_def record_output_def time_now_def called_def update_session_def Let_def AList.update_conv'
        map_fst_update_known)
qed

lemma mirrors_read_step:
  assumes step: "(if \<not> te_select env p (tm_calls st) then Some ([], called st)
      else case te_os_read env p (tm_calls (called st)) of
          None \<Rightarrow> Some ([], mark_exited env tid ''shell_exited'' (called (called st)))
        | Some [] \<Rightarrow> Some ([], mark_exited env tid ''shell_exited'' (called (called st)))
        | Some (byte # bytes) \<Rightarrow>
            Option.bind (loop env tid p (record_output env tid (utf8_replace (byte # bytes)) (called (called st))))
              (\<lambda>(output, st2). Some (utf8_replace (byte # bytes) @ output, st2))) = Some y"
    and IH: "\<And>st y out. loop env tid p st = Some y \<Longrightarrow> mirrors env out st \<Longrightarrow>
      mirrors env (out(tid := out tid @ fst y)) (snd y)"
    and b: "bounded_reads env" and m: "mirrors env out st"
  shows "mirrors env (out(tid := out tid @ fst y)) (snd y)"
proof -
  have upkeep: "mirrors env out (mark_exited env tid ''shell_exited'' (called (called st)))"
    using m by (intro mirroring.upkeep_mark mirrors_called)
  show ?thesis
  proof (cases "te_select env p (tm_calls st) \<and> (\<exists>b bs. te_os_read env p (tm_calls (called st)) = Some (b # bs))")
    case False
    then show ?thesis using step m upkeep by (auto simp: mirrors_called split: if_splits option.splits list.splits)
  next
    case True
    then obtain x xs where r: "te_select env p (tm_calls st)" "te_os_read env p (tm_calls (called st)) = Some (x # xs)" by blast
    define t where "t = utf8_replace (x # xs)"
    obtain y' where y': "loop env tid p (record_output env tid t (called (called st))) = Some y'" "y = (t @ fst y', snd y')"
      using step r unfolding t_def by (auto simp del: utf8_replace.simps simp: bind_eq_Some_conv)
    have "length (x # xs) \<le> 4096" "1048576 \<le> te_replay_buffer_bytes env" using b r(2) unfolding bounded_reads_def by blast+
    then have "byte_length t \<le> te_replay_buffer_bytes env" "list_all valid_char t"
      using utf8_replace_fits [of "x # xs"] unfolding t_def [symmetric] by linarith+
    then have "mirrors env (out(tid := out tid @ t)) (record_output env tid t (called (called st)))"
      using m by (intro mirrors_output mirrors_called)
    from IH [OF y'(1) this] show ?thesis using y'(2) by simp
  qed
qed

lemma mirrors_read_loop:
  assumes "read_loop env tid p st = Some y" and "bounded_reads env" and "mirrors env out st"
  shows "mirrors env (out(tid := out tid @ fst y)) (snd y)"
proof -
  let ?P = "\<lambda>env tid p st y. bounded_reads env \<longrightarrow>
    (\<forall>out. mirrors env out st \<longrightarrow> mirrors env (out(tid := out tid @ fst y)) (snd y))"
  have "?P env tid p st y"
    by (rule read_loop.raw_induct [of ?P, OF _ assms(1)]) (blast intro: mirrors_read_step)
  then show ?thesis using assms by blast
qed

lemma mirrors_create:
  assumes "mirrors env out st" and "create_terminal env title rows cols owner st = (r, st')"
  shows "mirrors env (case r of Inr s \<Rightarrow> out(ts_id s := []) | Inl _ \<Rightarrow> out) st'"
proof (cases "te_spawn env (tm_calls (called st))")
  case None
  then show ?thesis using assms by (auto simp: create_terminal_def Let_def mirrors_called)
next
  case (Some pid)
  have "window [] (new_buffer n)" for n by (simp add: window_def new_buffer_def chunk_text_def size_bytes_def)
  moreover have "rb_max_bytes (new_buffer n) = n" "rb_cursor (new_buffer n) = 0" "rb_start_cursor (new_buffer n) = 0" for n
    by (simp_all add: new_buffer_def)
  ultimately have new: "mirrored env [] s (new_buffer (te_replay_buffer_bytes env))"
    if "ts_output_cursor s = 0" "ts_replay_buffer_start_cursor s = 0" "ts_status s = Term_Running" "ts_process s = Some pid" for s
    using that by (simp add: mirrored_def)
  show ?thesis
    using assms Some map_fst_update [of "tm_buffers st" "tm_sessions st"]
    by (auto simp: create_terminal_def Let_def time_now_def called_def mirrors_def AList.update_conv' AList.distinct_update
        split: if_splits intro!: new)
qed

lemma served_mirrors:
  assumes "served env trace st" and "bounded_reads env"
  shows "mirrors env (transcript trace) st"
  using assms
proof (induction rule: served.induct)
  case start
  then show ?case by (simp add: mirrors_def no_terminals_def)
next
  case (call trace st c r st')
  note m = call.IH [OF call.prems]
  have t: "transcript (trace @ [x]) = note_event x (transcript trace)" for x by (simp add: transcript_def)
  show ?case
  proof (cases c)
    case (Create_Terminal title rows cols owner)
    then show ?thesis
      using call.hyps(2) m mirrors_create [OF m, of title rows cols owner]
      by (auto simp: t serve_def api_create_terminal_def answer_with_def and_then_def split: if_splits prod.splits sum.splits)
  next
    case (Connect_Token tid)
    then show ?thesis using call.hyps(2) mirroring.upkeep_connect_token [OF m, of env tid] by (auto simp: t serve_def)
  next
    case (Socket_Connect tid ticket cursor)
    then show ?thesis using call.hyps(2) mirroring.upkeep_socket_connect [OF m, of env tid ticket cursor] by (auto simp: t serve_def)
  next
    case (Socket_Poll tid)
    obtain g st1 where g: "get_session env tid st = (g, st1)" by fastforce
    then have m1: "mirrors env (transcript trace) st1" using mirroring.upkeep_get [OF m, of env tid] by simp
    show ?thesis
    proof (cases "\<exists>s p. g = Inr s \<and> ts_process s = Some p")
      case True
      then obtain s p where sp: "g = Inr s" "ts_process s = Some p" by blast
      then obtain y where y: "read_loop env tid p st1 = Some y" "r = Inr (Polled (fst y))" "st' = snd y"
        using call.hyps(2) Socket_Poll g by (auto simp: serve_def read_available_def answer_with_def and_then_def)
      then show ?thesis using mirrors_read_loop [OF y(1) call.prems m1] Socket_Poll by (simp add: t fun_upd_def)
    next
      case False
      then show ?thesis using call.hyps(2) Socket_Poll g m1
        by (auto simp: t serve_def read_available_def answer_with_def and_then_def split: sum.splits option.splits)
    qed
  next
    case List_Terminals
    then show ?thesis using mirroring.upkeep_serve [OF m _ call.hyps(2)] by (simp add: t)
  qed (use mirroring.upkeep_serve [OF m _ call.hyps(2)] in \<open>simp_all add: t\<close>)
qed

text \<open>
  \<open>C22\<close>.  A terminal's history is its output.  In any run of the routes, the sockets and the idle clean-up, in any order and
  with any answers of the processes and the clock, the history of a terminal from a byte position returns exactly the
  characters of everything its sockets have been handed so far that start at that position or later; when the beginning
  has been dropped it starts at the beginning of what is kept and says so.  What is kept never exceeds the configured
  number of bytes.
\<close>

theorem history_replays_output:
  assumes "served env trace st" and "bounded_reads env" and "terminal_history env tid cursor st = (Inr h, st')"
  defines "output \<equiv> transcript trace tid"
  shows "rh_to_cursor h = byte_length output \<and> rh_buffer_start_cursor h \<le> rh_to_cursor h \<and>
    rh_to_cursor h - rh_buffer_start_cursor h \<le> te_replay_buffer_bytes env \<and>
    (if int (byte_length output) < cursor then rh_output h = [] \<and> rh_from_cursor h = rh_to_cursor h \<and> \<not> rh_truncated h
     else rh_from_cursor h = max (nat cursor) (rh_buffer_start_cursor h) \<and>
       rh_output h = skip_bytes (rh_from_cursor h) output \<and> (rh_truncated h \<longleftrightarrow> cursor < int (rh_buffer_start_cursor h)))"
proof -
  obtain g st1 where g: "get_session env tid st = (g, st1)" by fastforce
  have m: "mirrors env (transcript trace) st1"
    using mirroring.upkeep_get [OF served_mirrors [OF assms(1,2)], of env tid] g by simp
  obtain s b where s: "g = Inr s" "map_of (tm_buffers st1) tid = Some b" "map_of (tm_sessions st1) tid = Some s"
    and h: "rh_to_cursor h = rb_cursor b" "rh_buffer_start_cursor h = rb_start_cursor b"
      "read_from cursor b = (rh_output h, rh_from_cursor h, rh_truncated h)"
    using assms(3) g
    by (auto simp: terminal_history_def and_then_def get_session_def split: sum.splits option.splits prod.splits)
  have w: "window output b" "list_all valid_char output" "rb_max_bytes b = te_replay_buffer_bytes env"
    using m s by (auto simp: mirrors_def mirrored_def output_def)
  then obtain gone where "output = gone @ chunk_text (rb_chunks b)" "rb_start_cursor b = byte_length gone"
    "rb_cursor b = byte_length output" "size_bytes (rb_chunks b) \<le> rb_max_bytes b" by (auto simp: window_def)
  then have "rb_start_cursor b \<le> rb_cursor b" "rb_cursor b - rb_start_cursor b \<le> te_replay_buffer_bytes env" "rb_cursor b = byte_length output"
    using w(3) by (simp_all add: size_chunk_text)
  then show ?thesis using window_read [OF w(1,2), of cursor] h by (simp split: if_splits)
qed

section \<open>Tickets\<close>

definition opened :: "string \<Rightarrow> terminal_event \<Rightarrow> bool" where
  "opened k ev \<longleftrightarrow> (\<exists>tid c t i. ev = (Socket_Connect tid (Some k) c, Inr (Accepted t), i))"

text \<open>A ticket goes back to the call that issued it last; while it is not consumed no socket has opened on it since.\<close>

definition issued :: "terminal_env \<Rightarrow> terminal_event list \<Rightarrow> string \<Rightarrow> terminal_ticket \<Rightarrow> bool" where
  "issued env trace k row \<longleftrightarrow>
     (\<exists>before after ttl i j n. trace = before @ (Connect_Token (tt_terminal_id row), Inr (Token k ttl), i, j) # after \<and>
        ttl = ticket_ttl (te_ttl_seconds env) \<and> i \<le> n \<and> n < j \<and> tt_expires_at row = te_time env n + ttl \<and>
        (\<not> tt_consumed row \<longrightarrow> list_all (\<lambda>ev. \<not> opened k ev) after))"

definition tickets_traced :: "terminal_env \<Rightarrow> terminal_event list \<Rightarrow> (string \<times> terminal_ticket) list \<Rightarrow> bool" where
  "tickets_traced env trace tickets \<longleftrightarrow> (\<forall>k row. map_of tickets k = Some row \<longrightarrow> issued env trace k row)"

definition tickets_kept :: "(string \<times> terminal_ticket) list \<Rightarrow> nat \<Rightarrow> terminal_state \<Rightarrow> bool" where
  "tickets_kept rows n st \<longleftrightarrow> tm_tickets st = rows \<and> n \<le> tm_calls st"

lemma update_session_frame [simp]:
  "tm_tickets (update_session tid f st) = tm_tickets st" "tm_calls (update_session tid f st) = tm_calls st"
  by (simp_all add: update_session_def split: option.splits)

interpretation tickets_upkeep: terminal_upkeep "tickets_kept rows n" for rows n
  by unfold_locales (auto simp: tickets_kept_def called_def forget_def)

lemma record_output_kept: "tickets_kept rows n st \<Longrightarrow> tickets_kept rows n (record_output env tid t st)"
  by (auto simp: record_output_def tickets_kept_def time_now_def called_def Let_def split: option.splits)

lemma read_loop_kept:
  assumes "read_loop env tid p st = Some y" and "tickets_kept rows n st"
  shows "tickets_kept rows n (snd y)"
proof -
  let ?P = "\<lambda>env tid p st y. tickets_kept rows n st \<longrightarrow> tickets_kept rows n (snd y)"
  have "?P env tid p st y"
    apply (rule read_loop.raw_induct [of ?P, OF _ assms(1)])
    subgoal premises prems for loop env tid p st y
      using prems(2)
      by (auto split: if_splits option.splits list.splits dest!: prems(1) simp: bind_eq_Some_conv record_output_kept
          tickets_upkeep.P_called tickets_upkeep.upkeep_mark simp del: utf8_replace.simps)
    done
  then show ?thesis using assms(2) by blast
qed

lemma issued_extend:
  assumes "issued env trace k row" and "tt_consumed row \<or> \<not> opened k ev"
  shows "issued env (trace @ [ev]) k row"
proof -
  obtain pre post ttl i j n where
    "trace = pre @ (Connect_Token (tt_terminal_id row), Inr (Token k ttl), i, j) # post" "ttl = ticket_ttl (te_ttl_seconds env)"
    "i \<le> n" "n < j" "tt_expires_at row = te_time env n + ttl" "\<not> tt_consumed row \<longrightarrow> list_all (\<lambda>ev. \<not> opened k ev) post"
    using assms(1) unfolding issued_def by blast
  then show ?thesis
    using assms(2) unfolding issued_def
    by (intro exI [of _ pre] exI [of _ "post @ [ev]"] exI [of _ ttl] exI [of _ i] exI [of _ j] exI [of _ n]) auto
qed

lemma issued_consumed: "issued env trace k row \<Longrightarrow> issued env trace k (row\<lparr>tt_consumed := True\<rparr>)"
  unfolding issued_def by (simp, blast)

lemma traced_other: "tickets_traced env trace rows \<Longrightarrow> (\<And>k. \<not> opened k ev) \<Longrightarrow> tickets_traced env (trace @ [ev]) rows"
  by (simp add: tickets_traced_def issued_extend)

lemma traced_consumed:
  assumes "tickets_traced env trace rows" and "map_of rows k = Some row" and "\<And>k'. k' \<noteq> k \<Longrightarrow> \<not> opened k' ev"
  shows "tickets_traced env (trace @ [ev]) (AList.update k (row\<lparr>tt_consumed := True\<rparr>) rows)"
proof -
  have "issued env (trace @ [ev]) k (row\<lparr>tt_consumed := True\<rparr>)"
    using assms(1,2) by (intro issued_extend issued_consumed) (simp_all add: tickets_traced_def)
  then show ?thesis using assms(1,3) by (simp add: tickets_traced_def AList.update_conv' issued_extend)
qed

lemma consumed_ticket:
  assumes "consume_ticket env k tid st = (True, st1)"
  shows "\<exists>row. map_of (tm_tickets st) k = Some row \<and> \<not> tt_consumed row \<and> tt_terminal_id row = tid \<and>
    te_time env (tm_calls st) \<le> tt_expires_at row \<and>
    st1 = (called st)\<lparr>tm_tickets := AList.update k (row\<lparr>tt_consumed := True\<rparr>) (tm_tickets st)\<rparr>"
  using assms by (auto simp: consume_ticket_def time_now_def Let_def called_def split: option.splits if_splits)

lemma refused_ticket:
  assumes "consume_ticket env k tid st = (False, st1)"
  shows "tm_tickets st1 = tm_tickets st"
  using assms by (auto simp: consume_ticket_def time_now_def Let_def called_def split: option.splits if_splits)

lemma connected:
  assumes "socket_connect env tid (Some k) (Some from_cursor) st = (r, st')" and "k \<noteq> []"
    and "consume_ticket env k tid st = (True, st1)"
  shows "tm_tickets st' = tm_tickets st1 \<and> tm_calls st1 \<le> tm_calls st'"
proof -
  have k1: "tickets_kept (tm_tickets st1) (tm_calls st1) st1" by (simp add: tickets_kept_def)
  obtain g st2 where g: "get_session env tid st1 = (g, st2)" by fastforce
  then have k2: "tickets_kept (tm_tickets st1) (tm_calls st1) st2" using tickets_upkeep.upkeep_get [OF k1, of env tid] by simp
  then have "tickets_kept (tm_tickets st1) (tm_calls st1) (snd (answer_with (\<lambda>h. Accepted (rh_output h)) (terminal_history env tid from_cursor st2)))"
    by (intro tickets_upkeep.upkeep)
  then have "tickets_kept (tm_tickets st1) (tm_calls st1) (snd (socket_connect env tid (Some k) (Some from_cursor) st))"
    using assms g k2 by (auto simp: socket_connect_def split: sum.splits terminal_exn.splits if_splits)
  then show ?thesis using assms(1) by (simp add: tickets_kept_def)
qed

lemma not_connected:
  assumes "socket_connect env tid ticket cursor st = (r, st')"
    and "\<not> (\<exists>k from_cursor st1. ticket = Some k \<and> k \<noteq> [] \<and> cursor = Some from_cursor \<and> consume_ticket env k tid st = (True, st1))"
  shows "tm_tickets st' = tm_tickets st \<and> (\<forall>t. r \<noteq> Inr (Accepted t))"
  using assms refused_ticket by (auto simp: socket_connect_def split: option.splits if_splits prod.splits bool.splits)

lemma traced_connect:
  assumes "tickets_traced env trace (tm_tickets st)" and "socket_connect env tid ticket cursor st = (r, st')"
  shows "tickets_traced env (trace @ [(Socket_Connect tid ticket cursor, r, i, j)]) (tm_tickets st')"
proof (cases "\<exists>k from_cursor st1. ticket = Some k \<and> k \<noteq> [] \<and> cursor = Some from_cursor \<and> consume_ticket env k tid st = (True, st1)")
  case True
  then obtain k from_cursor st1 where t: "ticket = Some k" "k \<noteq> []" "cursor = Some from_cursor" and c: "consume_ticket env k tid st = (True, st1)"
    by blast
  obtain row where row: "map_of (tm_tickets st) k = Some row"
    "st1 = (called st)\<lparr>tm_tickets := AList.update k (row\<lparr>tt_consumed := True\<rparr>) (tm_tickets st)\<rparr>" using consumed_ticket [OF c] by blast
  have "tm_tickets st' = tm_tickets st1" using connected [OF _ t(2) c, of from_cursor r st'] assms(2) t by simp
  then show ?thesis using traced_consumed [OF assms(1) row(1)] row(2) t(1) by (simp add: opened_def)
next
  case False
  from not_connected [OF assms(2) this] show ?thesis using traced_other [OF assms(1)] by (simp add: opened_def)
qed

lemma traced_token:
  assumes "tickets_traced env trace (tm_tickets st)" and "api_connect_token env tid st = (r, st')"
  shows "tickets_traced env (trace @ [(Connect_Token tid, r, tm_calls st, tm_calls st')]) (tm_tickets st')"
proof -
  obtain g st1 where g: "terminal_or_404 env tid st = (g, st1)" by fastforce
  have k: "tm_tickets st1 = tm_tickets st" "tm_calls st \<le> tm_calls st1"
    using tickets_upkeep.upkeep_404 [of "tm_tickets st" "tm_calls st" st env tid] g by (simp_all add: tickets_kept_def)
  have old: "tickets_traced env (trace @ [(Connect_Token tid, r, tm_calls st, tm_calls st')]) (tm_tickets st)"
    using traced_other [OF assms(1)] by (simp add: opened_def)
  show ?thesis
  proof (cases g)
    case (Inl x)
    then show ?thesis using assms(2) g k old by (auto simp: api_connect_token_def and_then_def)
  next
    case (Inr s)
    let ?k = "te_token env (tm_calls st1)" and ?ttl = "ticket_ttl (te_ttl_seconds env)"
    let ?row = "\<lparr>tt_ticket = ?k, tt_terminal_id = tid, tt_expires_at = te_time env (Suc (tm_calls st1)) + ?ttl, tt_consumed = False\<rparr>"
    have r: "r = Inr (Token ?k ?ttl)" "tm_tickets st' = AList.update ?k ?row (tm_tickets st)" "tm_calls st' = Suc (Suc (tm_calls st1))"
      using assms(2) g Inr k(1) by (auto simp: api_connect_token_def and_then_def issue_ticket_def time_now_def called_def Let_def)
    then have "issued env (trace @ [(Connect_Token tid, r, tm_calls st, tm_calls st')]) ?k ?row"
      unfolding issued_def using k(2)
      by (intro exI [of _ trace] exI [of _ "[]"] exI [of _ ?ttl] exI [of _ "tm_calls st"] exI [of _ "tm_calls st'"]
          exI [of _ "Suc (tm_calls st1)"]) simp
    then show ?thesis using old r(2) by (simp add: tickets_traced_def AList.update_conv')
  qed
qed

lemma snd_answer_with: "snd (answer_with f r) = snd r"
  by (cases r) (simp add: answer_with_def and_then_def split: sum.splits)

lemma poll_kept:
  assumes "read_available env tid st = Some (r, st')"
  shows "tm_tickets st' = tm_tickets st"
proof -
  have k: "tickets_kept (tm_tickets st) 0 st" by (simp add: tickets_kept_def)
  obtain g st1 where g: "get_session env tid st = (g, st1)" by fastforce
  then have "tickets_kept (tm_tickets st) 0 st1" using tickets_upkeep.upkeep_get [OF k, of env tid] by simp
  then have "tickets_kept (tm_tickets st) 0 st'"
    using assms g read_loop_kept [of env tid _ st1] by (auto simp: read_available_def split: sum.splits option.splits)
  then show ?thesis by (simp add: tickets_kept_def)
qed

lemma served_traced: "served env trace st \<Longrightarrow> tickets_traced env trace (tm_tickets st)"
proof (induction rule: served.induct)
  case start
  then show ?case by (simp add: tickets_traced_def no_terminals_def)
next
  case (call trace st c r st')
  show ?case
  proof (cases "upkeep_call c")
    case True
    have "tickets_kept (tm_tickets st) 0 st" by (simp add: tickets_kept_def)
    then have "tm_tickets st' = tm_tickets st"
      using tickets_upkeep.upkeep_serve [OF _ True call.hyps(2)] by (auto simp: tickets_kept_def)
    moreover have "\<not> opened k (c, r, tm_calls st, tm_calls st')" for k using True by (auto simp: opened_def)
    ultimately show ?thesis using traced_other [OF call.IH] by simp
  next
    case False
    then consider title rows cols owner where "c = Create_Terminal title rows cols owner" | tid where "c = Connect_Token tid"
      | tid ticket cursor where "c = Socket_Connect tid ticket cursor" | tid where "c = Socket_Poll tid" by (cases c) auto
    then show ?thesis
    proof cases
      case 1
      then have "tm_tickets st' = tm_tickets st"
        using call.hyps(2) by (auto simp: serve_def api_create_terminal_def answer_with_def and_then_def create_terminal_def Let_def
            time_now_def called_def split: if_splits option.splits)
      then show ?thesis using traced_other [OF call.IH] 1 by (simp add: opened_def)
    next
      case 2
      then show ?thesis using traced_token [OF call.IH] call.hyps(2) by (simp add: serve_def)
    next
      case 3
      then show ?thesis using traced_connect [OF call.IH] call.hyps(2) by (simp add: serve_def)
    next
      case 4
      then obtain x where x: "read_available env tid st = Some x" "answer_with Polled x = (r, st')"
        using call.hyps(2) by (auto simp: serve_def)
      then have "snd x = st'" using snd_answer_with [of Polled x] by simp
      then have "tm_tickets st' = tm_tickets st" using poll_kept [of env tid st "fst x" st'] x(1) by auto
      then show ?thesis using traced_other [OF call.IH] 4 by (simp add: opened_def)
    qed
  qed
qed

lemma served_split:
  "served env trace st \<Longrightarrow> trace = pre @ (c, r, i, j) # post \<Longrightarrow>
    \<exists>st0 st1. served env pre st0 \<and> serve env c st0 = Some (r, st1) \<and> i = tm_calls st0 \<and> j = tm_calls st1"
proof (induction arbitrary: post rule: served.induct)
  case (call trace st c' r' st')
  then show ?case by (cases post rule: rev_cases) auto
qed simp

text \<open>
  \<open>C23\<close>.  A ticket opens one socket.  When a socket on a terminal is accepted with a ticket, that ticket was issued for
  this very terminal, no socket has been accepted on it since it was issued, and by the clock at most sixty seconds lie
  between the two calls.
\<close>

theorem ticket_opens_one_socket:
  assumes "served env (pre @ (Socket_Connect tid (Some k) c, Inr (Accepted t), i', j') # post) st"
  shows "\<exists>before after ttl i j n n'. pre = before @ (Connect_Token tid, Inr (Token k ttl), i, j) # after \<and>
    list_all (\<lambda>ev. \<not> opened k ev) after \<and> i \<le> n \<and> n < j \<and> i' \<le> n' \<and> n' < j' \<and>
    te_time env n' \<le> te_time env n + ttl \<and> ttl \<le> 60"
proof -
  obtain st0 st1 where s: "served env pre st0" "socket_connect env tid (Some k) c st0 = (Inr (Accepted t), st1)"
    "i' = tm_calls st0" "j' = tm_calls st1"
    using served_split [OF assms refl] by (auto simp: serve_def)
  obtain from_cursor st2 where c: "k \<noteq> []" "c = Some from_cursor" "consume_ticket env k tid st0 = (True, st2)"
    using not_connected [OF s(2)] by blast
  obtain row where row: "map_of (tm_tickets st0) k = Some row" "\<not> tt_consumed row" "tt_terminal_id row = tid"
    "te_time env (tm_calls st0) \<le> tt_expires_at row" "tm_calls st2 = Suc (tm_calls st0)"
    using consumed_ticket [OF c(3)] by (auto simp: called_def)
  have "i' < j'" using connected [OF _ c(1,3), of from_cursor "Inr (Accepted t)" st1] s(2-4) c(2) row(5) by simp
  moreover have "ticket_ttl (te_ttl_seconds env) \<le> 60" by (simp add: ticket_ttl_def)
  moreover have "issued env pre k row" using served_traced [OF s(1)] row(1) by (simp add: tickets_traced_def)
  ultimately show ?thesis using row(2-4) s(3) unfolding issued_def by fastforce
qed

end
