(* ===== verification/Terminal_Results.thy ===== *)
theory Terminal_Results
  imports Terminal_Properties
begin

text \<open>
  When an ended terminal is purged, what happens to a character that two reads share, and the properties of the
  terminals at concrete runs.
\<close>

section \<open>Retention\<close>

definition distinct_terminals :: "terminal_state \<Rightarrow> bool" where
  "distinct_terminals st \<longleftrightarrow> distinct (map fst (tm_sessions st))"

interpretation distinct_upkeep: terminal_upkeep distinct_terminals
proof
  fix st and f :: "terminal_session \<Rightarrow> terminal_session" and tid
  assume d: "distinct_terminals st"
  show "distinct_terminals (update_session tid f st)"
    using d by (simp add: distinct_terminals_def update_session_def AList.distinct_update split: option.splits)
  show "distinct_terminals (forget tid st)"
    using d by (simp add: distinct_terminals_def forget_def AList.distinct_delete)
qed (simp add: distinct_terminals_def called_def)

lemma purge_list_filter:
  "tm_sessions (purge_list env now rows st) = filter (\<lambda>(tid, _). \<forall>s. (tid, s) \<in> set rows \<longrightarrow> \<not> expired_at env now s) (tm_sessions st) \<and>
   tm_buffers (purge_list env now rows st) = filter (\<lambda>(tid, _). \<forall>s. (tid, s) \<in> set rows \<longrightarrow> \<not> expired_at env now s) (tm_buffers st)"
  by (induction env now rows st rule: purge_list.induct) (auto simp: AList.delete_eq intro!: filter_cong)

lemma mark_exited_other:
  "tid \<noteq> other \<Longrightarrow> map_of (tm_sessions (mark_exited env other reason st)) tid = map_of (tm_sessions st) tid"
  "tm_buffers (mark_exited env other reason st) = tm_buffers st"
  by (auto simp: mark_exited_def time_now_def called_def update_session_def AList.update_conv' split: option.splits)

lemma poll_keeps_ended:
  assumes "\<forall>s. (tid, s) \<in> set rows \<longrightarrow> ts_status s \<noteq> Term_Running"
  shows "map_of (tm_sessions (snd (poll_exits env rows st))) tid = map_of (tm_sessions st) tid \<and>
    tm_buffers (snd (poll_exits env rows st)) = tm_buffers st"
  using assms
proof (induction env rows st rule: poll_exits.induct)
  case (2 env other s rest st)
  then show ?case
    by (cases "tid = other") (auto simp: mark_exited_other called_def split: option.splits bool.splits)
qed simp

lemma map_of_filter_key: "P tid \<Longrightarrow> map_of (filter (\<lambda>(k, _). P k) al) tid = map_of al tid"
  by (induction al) auto

text \<open>
  What listing the terminals purges.  After a listing no closed or exited terminal is left whose end lies the
  configured retention or more before the clock reading the listing took.  A terminal that the idle clean-up has ended,
  however, is kept with its replay buffer by every listing, whatever the clock says: the purge looks at closed and exited
  terminals only.
\<close>

theorem listing_never_purges_timed_out:
  assumes "distinct_terminals st" and "list_sessions env st = (Inr listed, st')"
  shows "(\<exists>n\<ge>tm_calls st. list_all (\<lambda>s. \<not> expired_at env (te_time env n) s) listed) \<and>
    (\<forall>tid s. map_of (tm_sessions st) tid = Some s \<longrightarrow> ts_status s = Term_Timed_Out \<longrightarrow>
       map_of (tm_sessions st') tid = Some s \<and> map_of (tm_buffers st') tid = map_of (tm_buffers st) tid \<and> s \<in> set listed)"
proof -
  define polled where "polled = snd (poll_exits env (tm_sessions st) st)"
  define now where "now = te_time env (tm_calls polled)"
  have l: "listed = map snd (tm_sessions st')" "st' = purge_expired env polled"
    using assms(2) by (auto simp: list_sessions_def refresh_def and_then_def polled_def split: prod.splits sum.splits)
  let ?keep = "\<lambda>tid. \<forall>s. (tid, s) \<in> set (tm_sessions polled) \<longrightarrow> \<not> expired_at env now s"
  have p: "tm_sessions st' = filter (\<lambda>(tid, _). ?keep tid) (tm_sessions polled)"
    "tm_buffers st' = filter (\<lambda>(tid, _). ?keep tid) (tm_buffers polled)"
    unfolding l(2) purge_expired_def time_now_def now_def
    using purge_list_filter [of env _ "tm_sessions polled" "called polled"] by (simp_all add: called_def)
  have d: "distinct_terminals polled" using distinct_upkeep.upkeep_poll [OF assms(1)] by (simp add: polled_def)
  have kept: "tickets_kept (tm_tickets st) (tm_calls st) polled"
    unfolding polled_def by (rule tickets_upkeep.upkeep_poll) (simp add: tickets_kept_def)
  have "list_all (\<lambda>s. \<not> expired_at env now s) listed" using p(1) l(1) by (auto simp: list_all_iff)
  moreover have "map_of (tm_sessions st') tid = Some s \<and> map_of (tm_buffers st') tid = map_of (tm_buffers st) tid \<and> s \<in> set listed"
    if s: "map_of (tm_sessions st) tid = Some s" "ts_status s = Term_Timed_Out" for tid s
  proof -
    have "\<forall>s'. (tid, s') \<in> set (tm_sessions st) \<longrightarrow> ts_status s' \<noteq> Term_Running"
      using assms(1) s map_of_is_SomeI unfolding distinct_terminals_def by fastforce
    then have q: "map_of (tm_sessions polled) tid = Some s" "tm_buffers polled = tm_buffers st"
      using poll_keeps_ended s(1) unfolding polled_def by metis+
    have "s' = s" if "(tid, s') \<in> set (tm_sessions polled)" for s'
      using d map_of_is_SomeI [OF _ that] q(1) unfolding distinct_terminals_def by simp
    then have k: "?keep tid" using s(2) by (auto simp: expired_at_def terminal_at_def)
    have "map_of (tm_sessions st') tid = Some s" "map_of (tm_buffers st') tid = map_of (tm_buffers st) tid"
      unfolding p map_of_filter_key [of ?keep tid, OF k] q by simp_all
    then show ?thesis using l(1) map_of_SomeD by force
  qed
  ultimately show ?thesis using kept unfolding now_def tickets_kept_def by blast
qed

section \<open>A run\<close>

definition demo_env :: terminal_env where
  "demo_env = \<lparr>te_shell = ''/bin/sh'', te_idle_timeout_minutes = 60, te_replay_buffer_bytes = 1048576,
     te_exited_retention_minutes = 30, te_ttl_seconds = 60, te_time = int, te_uuid4 = (\<lambda>_. ''t''),
     te_token = (\<lambda>_. ''k''), te_spawn = (\<lambda>_. Some 7), te_isalive = (\<lambda>_ _. Some True), te_select = (\<lambda>_ n. n \<in> {5, 8}),
     te_os_read = (\<lambda>_ n. if n = 6 then Some [0xC3] else if n = 9 then Some [0xA9] else None),
     te_pty_write = (\<lambda>_ _ _. True), te_setwinsize = (\<lambda>_ _. True), te_terminate = (\<lambda>_ _. True), te_kill = (\<lambda>_ _. Killed)\<rparr>"

definition demo_created :: terminal_state where
  "demo_created = snd (create_terminal demo_env ''sh'' 24 80 ''admin'' no_terminals)"

definition demo_polled :: "unicode terminal_answer option" where
  "demo_polled = read_available demo_env ''t'' demo_created"

lemma demo_replaced: "utf8_replace [0xC3] = [0xFFFD]" "utf8_replace [0xA9] = [0xFFFD]" "utf8_replace [0xC3, 0xA9] = [0xE9]"
  by (simp_all add: decode_sequence_def continuation_def)

lemma demo_append:
  "append_text [0xFFFD] (new_buffer 1048576) = \<lparr>rb_max_bytes = 1048576, rb_chunks = [(0, [0xFFFD])], rb_start_cursor = 0, rb_cursor = 3\<rparr>"
  "append_text [0xFFFD] \<lparr>rb_max_bytes = 1048576, rb_chunks = [(0, [0xFFFD])], rb_start_cursor = 0, rb_cursor = 3\<rparr> =
   \<lparr>rb_max_bytes = 1048576, rb_chunks = [(0, [0xFFFD]), (3, [0xFFFD])], rb_start_cursor = 0, rb_cursor = 6\<rparr>"
  by (simp_all add: append_text_def new_buffer_def trim_def size_bytes_def utf8_char_def surrogate_def)

lemma demo_env_sel:
  "te_shell demo_env = ''/bin/sh''" "te_idle_timeout_minutes demo_env = 60" "te_replay_buffer_bytes demo_env = 1048576"
  "te_exited_retention_minutes demo_env = 30" "te_ttl_seconds demo_env = 60" "te_time demo_env n = int n"
  "te_uuid4 demo_env n = ''t''" "te_token demo_env n = ''k''" "te_spawn demo_env n = Some 7" "te_isalive demo_env p n = Some True"
  "te_select demo_env p n \<longleftrightarrow> n \<in> {5, 8}"
  "te_os_read demo_env p n = (if n = 6 then Some [0xC3] else if n = 9 then Some [0xA9] else None)"
  by (simp_all add: demo_env_def)

lemmas demo_env_simps = demo_env_sel called_def time_now_def and_then_def Let_def update_session_def

definition demo_session :: terminal_session where
  "demo_session = \<lparr>ts_id = ''t'', ts_owner = ''admin'', ts_title = ''sh'', ts_command = ''/bin/sh'',
     ts_process = Some 7, ts_pid = Some 7, ts_rows = 24, ts_cols = 80, ts_status = Term_Running, ts_output_cursor = 0,
     ts_replay_buffer_start_cursor = 0, ts_idle_timeout_minutes = 60, ts_created_at = 2, ts_last_active_at = 2,
     ts_exited_at = None, ts_closed_at = None, ts_close_reason = None\<rparr>"

lemma demo_create: "create_terminal demo_env ''sh'' 24 80 ''admin'' no_terminals = (Inr demo_session, demo_created)"
  by (simp add: demo_created_def create_terminal_def no_terminals_def demo_session_def demo_env_simps)

lemma demo_created_eq:
  "demo_created = \<lparr>tm_sessions = [(''t'', demo_session)], tm_buffers = [(''t'', new_buffer 1048576)], tm_tickets = [], tm_calls = 3\<rparr>"
  by (simp add: demo_created_def create_terminal_def no_terminals_def demo_session_def demo_env_simps)

lemma running_refresh:
  assumes "tm_sessions st = [(''t'', s)]" and "ts_status s = Term_Running" and "ts_process s = Some 7"
  shows "refresh demo_env st = (Inr (), st\<lparr>tm_calls := tm_calls st + 2\<rparr>)"
  using assms by (simp add: refresh_def purge_expired_def expired_at_def terminal_at_def demo_env_simps)

lemma running_get:
  assumes "tm_sessions st = [(''t'', s)]" and "ts_status s = Term_Running" and "ts_process s = Some 7"
  shows "get_session demo_env ''t'' st = (Inr s, st\<lparr>tm_calls := tm_calls st + 2\<rparr>)"
  using assms by (simp add: get_session_def running_refresh [OF assms] and_then_def)

definition demo_after :: terminal_state where
  "demo_after = \<lparr>tm_sessions = [(''t'', demo_session\<lparr>ts_output_cursor := 6, ts_last_active_at := 10\<rparr>)],
     tm_buffers = [(''t'', \<lparr>rb_max_bytes = 1048576, rb_chunks = [(0, [0xFFFD]), (3, [0xFFFD])], rb_start_cursor = 0, rb_cursor = 6\<rparr>)],
     tm_tickets = [], tm_calls = 12\<rparr>"

lemma demo_polled_eq: "demo_polled = Some (Inr [0xFFFD, 0xFFFD], demo_after)"
proof -
  have g: "get_session demo_env ''t'' demo_created = (Inr demo_session, demo_created\<lparr>tm_calls := 5\<rparr>)"
    using running_get [of demo_created demo_session] by (simp add: demo_created_eq demo_session_def)
  have "read_loop demo_env ''t'' 7 (demo_created\<lparr>tm_calls := 5\<rparr>) = Some ([0xFFFD, 0xFFFD], demo_after)"
    by (simp add: demo_created_eq read_loop.simps record_output_def demo_replaced demo_append demo_env_simps demo_after_def
        demo_session_def del: utf8_replace.simps)
  then show ?thesis using g by (simp add: demo_polled_def read_available_def demo_session_def)
qed

text \<open>
  A character that two reads share is lost.  Each read of the process is decoded on its own, so when the
  two bytes of one character arrive in two reads, the client and the history get two replacement characters, although
  the bytes together decode to that character.
\<close>

lemma split_character_is_lost:
  "map_option fst demo_polled = Some (Inr [0xFFFD, 0xFFFD]) \<and> utf8_replace [0xC3, 0xA9] = [0xE9]"
  by (simp add: demo_polled_eq demo_replaced del: utf8_replace.simps)

lemma demo_run:
  "served demo_env [(Create_Terminal ''sh'' 24 80 ''admin'', Inr (Session demo_session), 0, 3),
     (Socket_Poll ''t'', Inr (Polled [0xFFFD, 0xFFFD]), 3, 12)] demo_after"
proof -
  have c: "tm_calls no_terminals = 0" "tm_calls demo_created = 3" "tm_calls demo_after = 12"
    by (simp_all add: no_terminals_def demo_created_eq demo_after_def)
  have "serve demo_env (Create_Terminal ''sh'' 24 80 ''admin'') no_terminals = Some (Inr (Session demo_session), demo_created)"
    by (simp add: serve_def api_create_terminal_def demo_create answer_with_def and_then_def)
  from served.call [OF served.start this] have
    "served demo_env [(Create_Terminal ''sh'' 24 80 ''admin'', Inr (Session demo_session), 0, 3)] demo_created" by (simp add: c)
  moreover have "serve demo_env (Socket_Poll ''t'') demo_created = Some (Inr (Polled [0xFFFD, 0xFFFD]), demo_after)"
    using demo_polled_eq by (simp add: serve_def demo_polled_def answer_with_def and_then_def)
  ultimately show ?thesis using served.call by (fastforce simp: c)
qed

lemma demo_bounded: "bounded_reads demo_env"
  by (auto simp: bounded_reads_def demo_env_sel split: if_splits)

lemma demo_history:
  "terminal_history demo_env ''t'' 2 demo_after = (Inr \<lparr>rh_terminal_id = ''t'', rh_from_cursor = 2, rh_to_cursor = 6,
     rh_buffer_start_cursor = 0, rh_truncated = False, rh_status = Term_Running, rh_output = [0xFFFD]\<rparr>, demo_after\<lparr>tm_calls := 14\<rparr>)"
proof -
  have g: "get_session demo_env ''t'' demo_after =
      (Inr (demo_session\<lparr>ts_output_cursor := 6, ts_last_active_at := 10\<rparr>), demo_after\<lparr>tm_calls := 14\<rparr>)"
    using running_get [of demo_after "demo_session\<lparr>ts_output_cursor := 6, ts_last_active_at := 10\<rparr>"]
    by (simp add: demo_after_def demo_session_def)
  show ?thesis
    unfolding terminal_history_def g
    by (simp add: and_then_def demo_after_def demo_session_def read_from_def chunk_from_def utf8_def utf8_char_def surrogate_def decode_sequence_def continuation_def)
qed

theorem history_replays_output_witness:
  "rh_output (projr (fst (terminal_history demo_env ''t'' 2 demo_after))) =
   skip_bytes 2 (transcript [(Create_Terminal ''sh'' 24 80 ''admin'', Inr (Session demo_session), 0, 3),
     (Socket_Poll ''t'', Inr (Polled [0xFFFD, 0xFFFD]), 3, 12)] ''t'')"
  using history_replays_output [OF demo_run demo_bounded demo_history]
  by (simp add: demo_history transcript_def demo_session_def utf8_char_def surrogate_def)

definition demo_ticketed :: terminal_state where
  "demo_ticketed = demo_created\<lparr>tm_tickets := [(''k'',
     \<lparr>tt_ticket = ''k'', tt_terminal_id = ''t'', tt_expires_at = 66, tt_consumed = False\<rparr>)], tm_calls := 7\<rparr>"

definition demo_connected :: terminal_state where
  "demo_connected = demo_created\<lparr>tm_tickets := [(''k'',
     \<lparr>tt_ticket = ''k'', tt_terminal_id = ''t'', tt_expires_at = 66, tt_consumed = True\<rparr>)], tm_calls := 12\<rparr>"

lemma demo_token: "api_connect_token demo_env ''t'' demo_created = (Inr (Token ''k'' 60), demo_ticketed)"
proof -
  have g: "get_session demo_env ''t'' demo_created = (Inr demo_session, demo_created\<lparr>tm_calls := 5\<rparr>)"
    using running_get [of demo_created demo_session] by (simp add: demo_created_eq demo_session_def)
  show ?thesis unfolding api_connect_token_def terminal_or_404_def g
    by (simp add: issue_ticket_def ticket_ttl_def demo_ticketed_def demo_created_eq demo_env_simps)
qed

lemma demo_connect: "socket_connect demo_env ''t'' (Some ''k'') (Some 0) demo_ticketed = (Inr (Accepted []), demo_connected)"
proof -
  have c: "consume_ticket demo_env ''k'' ''t'' demo_ticketed = (True, demo_connected\<lparr>tm_calls := 8\<rparr>)"
    by (simp add: consume_ticket_def demo_ticketed_def demo_connected_def demo_created_eq demo_env_simps)
  have g: "get_session demo_env ''t'' (demo_connected\<lparr>tm_calls := n\<rparr>) = (Inr demo_session, demo_connected\<lparr>tm_calls := n + 2\<rparr>)" for n
    using running_get [of "demo_connected\<lparr>tm_calls := n\<rparr>" demo_session]
    by (simp add: demo_connected_def demo_created_eq demo_session_def)
  have "terminal_history demo_env ''t'' 0 (demo_connected\<lparr>tm_calls := 10\<rparr>) =
      (Inr \<lparr>rh_terminal_id = ''t'', rh_from_cursor = 0, rh_to_cursor = 0, rh_buffer_start_cursor = 0, rh_truncated = False,
         rh_status = Term_Running, rh_output = []\<rparr>, demo_connected\<lparr>tm_calls := 12\<rparr>)"
    unfolding terminal_history_def g
    by (simp add: and_then_def read_from_def new_buffer_def demo_connected_def demo_created_eq demo_session_def)
  then show ?thesis using c g [of 8]
    by (simp add: socket_connect_def answer_with_def and_then_def demo_session_def demo_connected_def)
qed

lemma demo_socket_run:
  "served demo_env ([(Create_Terminal ''sh'' 24 80 ''admin'', Inr (Session demo_session), 0, 3),
     (Connect_Token ''t'', Inr (Token ''k'' 60), 3, 7)] @
     (Socket_Connect ''t'' (Some ''k'') (Some 0), Inr (Accepted []), 7, 12) # []) demo_connected"
proof -
  have c: "tm_calls no_terminals = 0" "tm_calls demo_created = 3" "tm_calls demo_ticketed = 7" "tm_calls demo_connected = 12"
    by (simp_all add: no_terminals_def demo_created_eq demo_ticketed_def demo_connected_def)
  have "serve demo_env (Create_Terminal ''sh'' 24 80 ''admin'') no_terminals = Some (Inr (Session demo_session), demo_created)"
    by (simp add: serve_def api_create_terminal_def demo_create answer_with_def and_then_def)
  moreover have "serve demo_env (Connect_Token ''t'') demo_created = Some (Inr (Token ''k'' 60), demo_ticketed)"
    "serve demo_env (Socket_Connect ''t'' (Some ''k'') (Some 0)) demo_ticketed = Some (Inr (Accepted []), demo_connected)"
    by (simp_all add: serve_def demo_token demo_connect)
  ultimately show ?thesis
    using served.call [OF served.call [OF served.call [OF served.start]],
      of demo_env "Create_Terminal ''sh'' 24 80 ''admin''" "Inr (Session demo_session)" demo_created
        "Connect_Token ''t''" "Inr (Token ''k'' 60)" demo_ticketed
        "Socket_Connect ''t'' (Some ''k'') (Some 0)" "Inr (Accepted [])" demo_connected] by (simp add: c)
qed

theorem ticket_opens_one_socket_witness:
  "\<exists>before after ttl i j n n'. [(Create_Terminal ''sh'' 24 80 ''admin'', Inr (Session demo_session), 0, 3),
     (Connect_Token ''t'', Inr (Token ''k'' 60), 3, 7)] = before @ (Connect_Token ''t'', Inr (Token ''k'' ttl), i, j) # after \<and>
    list_all (\<lambda>ev. \<not> opened ''k'' ev) after \<and> i \<le> n \<and> n < j \<and> 7 \<le> n' \<and> n' < 12 \<and>
    te_time demo_env n' \<le> te_time demo_env n + ttl \<and> ttl \<le> 60"
  by (rule ticket_opens_one_socket [OF demo_socket_run])

definition demo_timed_out :: terminal_state where
  "demo_timed_out = demo_created\<lparr>tm_sessions := [(''t'', demo_session\<lparr>ts_status := Term_Timed_Out, ts_closed_at := Some (-9000),
     ts_close_reason := Some ''idle_timeout'', ts_process := None\<rparr>)]\<rparr>"

lemma demo_listing: "list_sessions demo_env demo_timed_out =
    (Inr (map snd (tm_sessions demo_timed_out)), demo_timed_out\<lparr>tm_calls := 4\<rparr>)"
  by (simp add: list_sessions_def refresh_def purge_expired_def expired_at_def terminal_at_def demo_timed_out_def demo_created_eq
      demo_env_simps)

theorem listing_never_purges_timed_out_witness:
  "map_of (tm_sessions (snd (list_sessions demo_env demo_timed_out))) ''t'' = map_of (tm_sessions demo_timed_out) ''t'' \<and>
   map_of (tm_buffers (snd (list_sessions demo_env demo_timed_out))) ''t'' = Some (new_buffer 1048576)"
proof -
  have "distinct_terminals demo_timed_out" by (simp add: distinct_terminals_def demo_timed_out_def)
  note listing_never_purges_timed_out [OF this demo_listing]
  moreover obtain s where "map_of (tm_sessions demo_timed_out) ''t'' = Some s" "ts_status s = Term_Timed_Out"
    "map_of (tm_buffers demo_timed_out) ''t'' = Some (new_buffer 1048576)"
    by (simp add: demo_timed_out_def demo_created_eq)
  ultimately show ?thesis unfolding demo_listing snd_conv by metis
qed

end
