(* ===== verification/Latest_Values.thy ===== *)
theory Latest_Values
  imports Guard_Prelude "HOL-Library.List_Lexorder" "HOL-Library.Char_ord"
begin

text \<open>
  The contract of a store of latest values, which the observations and the log sources of an agent share: one row per
  key, replaced by compare-and-swap on the time of the observation, removed once it has expired.  The locale
  \<open>latest_values\<close> states what the two repositories promise and derives what a submission does to the table, whatever
  other submissions and clean-ups commit between its reads and its writes.
\<close>

datatype 'r store_op = Swap 'r "instant option" | Purge instant nat

definition run_store ::
  "('r \<Rightarrow> instant option \<Rightarrow> 'r list \<Rightarrow> 'e + bool \<times> 'r list) \<Rightarrow> (instant \<Rightarrow> nat \<Rightarrow> 'r list \<Rightarrow> nat \<times> 'r list) \<Rightarrow>
   'r store_op \<Rightarrow> 'r list \<Rightarrow> 'e + unit \<times> 'r list" where
  "run_store swap purge x rows = (case x of
     Swap r expected \<Rightarrow> map_sum id (\<lambda>(_, rows'). ((), rows')) (swap r expected rows)
   | Purge cutoff limit \<Rightarrow> Inr ((), snd (purge cutoff limit rows)))"

definition row_at :: "('r \<Rightarrow> string) \<Rightarrow> string \<Rightarrow> 'r list \<Rightarrow> 'r option" where
  "row_at key k rows = find (\<lambda>x. key x = k) rows"

text \<open>
  The statement \<open>DELETE \<dots> WHERE key IN (SELECT key \<dots> WHERE expires_at <= cutoff ORDER BY expires_at, key LIMIT limit)\<close>
  with its row count.
\<close>

definition expired_first :: "('r \<Rightarrow> string) \<Rightarrow> ('r \<Rightarrow> instant) \<Rightarrow> instant \<Rightarrow> nat \<Rightarrow> 'r list \<Rightarrow> 'r list" where
  "expired_first key expires cutoff limit rows =
     take limit (sort_key expires (sort_key key (filter (\<lambda>r. expires r \<le> cutoff) rows)))"

definition delete_first :: "('r \<Rightarrow> string) \<Rightarrow> ('r \<Rightarrow> instant) \<Rightarrow> instant \<Rightarrow> nat \<Rightarrow> 'r list \<Rightarrow> nat \<times> 'r list" where
  "delete_first key expires cutoff limit rows =
     (let chosen = map key (expired_first key expires cutoff limit rows); P = (\<lambda>r. key r \<in> set chosen) in
      (rowcount P rows, sql_delete P rows))"

lemma expired_first_subset: "x \<in> set (expired_first key expires cutoff limit rows) \<Longrightarrow> x \<in> set rows \<and> expires x \<le> cutoff"
  unfolding expired_first_def by (auto dest!: in_set_takeD)

lemma delete_first_removes_expired:
  assumes "distinct (map key rows)" and "x \<in> set rows" and "x \<notin> set (snd (delete_first key expires cutoff limit rows))"
  shows "expires x \<le> cutoff"
proof -
  obtain y where "y \<in> set (expired_first key expires cutoff limit rows)" "key y = key x"
    using assms(2,3) by (auto simp: delete_first_def Let_def sql_delete_def)
  moreover from this(1) have y: "y \<in> set rows" "expires y \<le> cutoff" by (auto dest: expired_first_subset)
  ultimately have "y = x" using assms(1,2) by (metis distinct_map inj_onD)
  then show ?thesis using y(2) by simp
qed

lemma delete_first_length: "fst (delete_first key expires cutoff limit rows) + length (snd (delete_first key expires cutoff limit rows)) = length rows"
  by (simp add: delete_first_def Let_def rowcount_def sql_delete_def sum_length_filter_compl)

text \<open>The count is the number of rows chosen: the limit, or all expired rows.\<close>

lemma delete_first_count:
  assumes "distinct (map key rows)"
  shows "fst (delete_first key expires cutoff limit rows) = min limit (length (filter (\<lambda>r. expires r \<le> cutoff) rows))"
proof -
  let ?E = "filter (\<lambda>r. expires r \<le> cutoff) rows" and ?F = "expired_first key expires cutoff limit rows"
  have F: "set ?F \<subseteq> set rows" by (auto dest: expired_first_subset)
  have inj: "inj_on key (set rows)" and d: "distinct rows" using assms by (simp_all add: distinct_map)
  have dF: "distinct ?F" unfolding expired_first_def using d by (intro distinct_take) (simp add: distinct_sort)
  have "filter (\<lambda>r. key r \<in> set (map key ?F)) rows = filter (\<lambda>r. r \<in> set ?F) rows"
    using F inj by (intro filter_cong) (auto dest: inj_onD)
  then have "fst (delete_first key expires cutoff limit rows) = length (filter (\<lambda>r. r \<in> set ?F) rows)"
    by (simp add: delete_first_def Let_def rowcount_def)
  also have "\<dots> = card (set ?F)"
    using d F by (metis distinct_card distinct_filter inf.absorb_iff2 inter_set_filter inf_commute)
  also have "\<dots> = min limit (length ?E)" using distinct_card [OF dF] by (simp add: expired_first_def)
  finally show ?thesis .
qed

text \<open>
  The loop of the two \<open>upsert\<close> methods: read, compare, swap, at most so many times.  In attempt \<open>n\<close> the other requests
  commit \<open>between n\<close> after the read and before the swap.
\<close>

fun cas_attempts ::
  "(string \<Rightarrow> 'r list \<Rightarrow> 'e + 'r option) \<Rightarrow> ('r \<Rightarrow> instant option \<Rightarrow> 'r list \<Rightarrow> 'e + bool \<times> 'r list) \<Rightarrow> ('r \<Rightarrow> string) \<Rightarrow>
   ('r \<Rightarrow> instant) \<Rightarrow> ('r \<Rightarrow> 'r \<Rightarrow> bool) \<Rightarrow> 'e \<Rightarrow> 'e \<Rightarrow> 'e \<Rightarrow> (nat \<Rightarrow> 'r list \<Rightarrow> 'r list) \<Rightarrow> nat \<Rightarrow> 'r \<Rightarrow> 'r list \<Rightarrow>
   ('e + 'r \<times> bool) \<times> 'r list" where
  "cas_attempts get swap key observed same stale conflict contention between 0 candidate rows = (Inl contention, rows)"
| "cas_attempts get swap key observed same stale conflict contention between (Suc n) candidate rows =
     (case get (key candidate) rows of
        Inl e \<Rightarrow> (Inl e, rows)
      | Inr current \<Rightarrow>
          if (case current of Some x \<Rightarrow> observed candidate < observed x | None \<Rightarrow> False) then (Inl stale, rows)
          else if (case current of Some x \<Rightarrow> observed candidate = observed x | None \<Rightarrow> False)
          then if same candidate (the current) then (Inr (the current, False), rows) else (Inl conflict, rows)
          else
            let rows1 = between n rows in
            case swap candidate (map_option observed current) rows1 of
              Inl e \<Rightarrow> (Inl e, rows1)
            | Inr (swapped, rows2) \<Rightarrow>
                if swapped then (Inr (candidate, current = None), rows2)
                else cas_attempts get swap key observed same stale conflict contention between n candidate rows2)"

lemma history_append: "history run (xs @ ys) d = history run ys (history run xs d)"
  by (induction xs arbitrary: d) simp_all

section \<open>The contract\<close>

locale latest_values =
  fixes key :: "'r \<Rightarrow> string"
    and observed :: "'r \<Rightarrow> instant"
    and expires :: "'r \<Rightarrow> instant"
    and saved :: "'r \<Rightarrow> 'r"
    and swap :: "'r \<Rightarrow> instant option \<Rightarrow> 'r list \<Rightarrow> 'e + bool \<times> 'r list"
  assumes saved_key: "key (saved r) = key r"
    and saved_observed: "observed (saved r) = observed r"
    and swap_insert: "swap r None rows = Inr (True, rows') \<Longrightarrow> key r \<notin> key ` set rows \<and> rows' = rows @ [saved r]"
    and swap_replace: "swap r (Some t) rows = Inr (True, rows') \<Longrightarrow> (\<exists>x\<in>set rows. key x = key r \<and> observed x = t) \<and>
      rows' = sql_update (\<lambda>x. key x = key r \<and> observed x = t) (\<lambda>_. saved r) rows"
    and swap_lost: "distinct (map key rows) \<Longrightarrow> swap r expected rows = Inr (False, rows') \<Longrightarrow> rows' = rows"
begin

abbreviation runs :: "'r store_op \<Rightarrow> 'r list \<Rightarrow> 'e + unit \<times> 'r list" where
  "runs \<equiv> run_store swap (delete_first key expires)"

lemma swap_uniq:
  assumes "distinct (map key rows)" and "swap r expected rows = Inr (b, rows')"
  shows "distinct (map key rows')"
proof (cases b)
  case True
  then show ?thesis
  proof (cases expected)
    case None
    then show ?thesis using swap_insert [of r rows rows'] assms True by (auto simp: saved_key)
  next
    case (Some t)
    have "map key (sql_update (\<lambda>x. key x = key r \<and> observed x = t) (\<lambda>_. saved r) rows) = map key rows"
      by (rule map_sql_update) (simp add: saved_key)
    then show ?thesis using swap_replace [of r t rows rows'] assms True Some by auto
  qed
next
  case False
  then have "rows' = rows" using swap_lost [OF assms(1)] assms(2) by simp
  then show ?thesis using assms(1) by simp
qed

lemma run_uniq:
  assumes "distinct (map key rows)" and "runs x rows = Inr (v, rows')"
  shows "distinct (map key rows')"
  using assms swap_uniq
  by (auto simp: run_store_def delete_first_def Let_def sql_delete_def distinct_map_filter map_sum_def
      split: store_op.splits sum.splits)

lemma row_at_update:
  assumes "distinct (map key rows)" and "\<And>x. P x \<Longrightarrow> key (f x) = key x"
  shows "row_at key k (sql_update P f rows) = map_option (\<lambda>x. if P x then f x else x) (row_at key k rows)"
  unfolding row_at_def using assms by (induction rows) auto

text \<open>A swap that succeeds writes the row of its key, which was absent or observed at the time expected, and no other.\<close>

lemma swap_writes:
  assumes "distinct (map key rows)" and "swap c expected rows = Inr (True, rows')"
  shows "expected = None \<longleftrightarrow> row_at key (key c) rows = None"
    and "row_at key (key c) rows = Some x \<Longrightarrow> expected = Some (observed x)"
    and "row_at key k rows' = (if k = key c then Some (saved c) else row_at key k rows)"
proof -
  have only: "y = x" if "y \<in> set rows" "key y = key c" "row_at key (key c) rows = Some x" for x y
  proof -
    have "x \<in> set rows" "key x = key c" using that(3) by (auto simp: row_at_def find_Some_iff)
    then show ?thesis using that(1,2) assms(1) by (metis distinct_map inj_onD)
  qed
  show e: "expected = None \<longleftrightarrow> row_at key (key c) rows = None"
    using swap_insert [of c rows rows'] swap_replace [of c _ rows rows'] assms(2)
    by (cases expected) (auto simp: row_at_def find_None_iff image_iff)
  show o: "expected = Some (observed x)" if "row_at key (key c) rows = Some x" for x
    using that e swap_replace [of c _ rows rows'] assms(2) only by (cases expected) auto
  show "row_at key k rows' = (if k = key c then Some (saved c) else row_at key k rows)"
  proof (cases expected)
    case None
    then have "rows' = rows @ [saved c]" "row_at key (key c) rows = None" using swap_insert [of c rows rows'] assms(2) e by auto
    moreover have "find P (rows @ [z]) = (case find P rows of None \<Rightarrow> if P z then Some z else None | y \<Rightarrow> y)" for P z
      by (induction rows) auto
    ultimately show ?thesis by (auto simp: row_at_def saved_key split: option.splits)
  next
    case (Some t)
    then obtain x where "row_at key (key c) rows = Some x" "observed x = t" using e o by fastforce
    moreover have "key y = k" if "row_at key k rows = Some y" for y k using that by (auto simp: row_at_def find_Some_iff)
    moreover have "rows' = sql_update (\<lambda>x. key x = key c \<and> observed x = t) (\<lambda>_. saved c) rows"
      using swap_replace [of c t rows rows'] assms(2) Some by simp
    ultimately show ?thesis
      using row_at_update [OF assms(1), of "\<lambda>x. key x = key c \<and> observed x = t" "\<lambda>_. saved c" k]
      by (cases "row_at key k rows") (auto simp: saved_key)
  qed
qed

lemma history_uniq: "distinct (map key rows) \<Longrightarrow> distinct (map key (history runs ops rows))"
proof (induction ops arbitrary: rows)
  case (Cons x ops)
  have "distinct (map key (after rows (runs x rows)))"
    using run_uniq [OF Cons.prems] Cons.prems by (cases "runs x rows") (auto simp: after_def)
  then show ?case using Cons.IH by simp
qed simp

text \<open>
  The loop against what the others do.  Its outcome is that of one look at the table \<open>seen\<close> that the others have made of it
  in the attempts so far: the loop has failed and written nothing, or it returns the row that is there, or it has written
  the candidate where there was no row or an older one.
\<close>

definition outcome :: "(string \<Rightarrow> 'r list \<Rightarrow> 'e + 'r option) \<Rightarrow> ('r \<Rightarrow> 'r \<Rightarrow> bool) \<Rightarrow> 'r \<Rightarrow> 'r list \<Rightarrow> 'e + 'r \<times> bool \<Rightarrow> 'r list \<Rightarrow> bool" where
  "outcome get same c seen r rows' \<longleftrightarrow> isl r \<and> rows' = seen \<or>
     (\<exists>y. r = Inr (y, False) \<and> rows' = seen \<and> get (key c) seen = Inr (Some y) \<and> observed y = observed c \<and> same c y) \<or>
     r = Inr (c, row_at key (key c) seen = None) \<and>
       (\<forall>x. row_at key (key c) seen = Some x \<longrightarrow> observed x < observed c) \<and>
       (\<forall>k. row_at key k rows' = (if k = key c then Some (saved c) else row_at key k seen))"

lemma attempts_outcome:
  assumes "cas_attempts get swap key observed same stale conflict contention (\<lambda>n. history runs (others n)) n c rows = (r, rows')"
    and "distinct (map key rows)"
  shows "\<exists>m\<le>n. outcome get same c (history runs (concat (map others (rev [m..<n]))) rows) r rows'"
  using assms
proof (induction n arbitrary: rows)
  case 0
  then show ?case by (auto simp: outcome_def)
next
  case (Suc n)
  show ?case
  proof (cases "outcome get same c rows r rows'")
    case True
    then show ?thesis by (intro exI [of _ "Suc n"]) simp
  next
    case False
    obtain current where g: "get (key c) rows = Inr current" and older: "\<And>x. current = Some x \<Longrightarrow> observed x < observed c"
      using Suc.prems(1) False by (fastforce simp: outcome_def split: sum.splits if_splits option.splits)
    let ?rows = "history runs (others n) rows" and ?e = "map_option observed current"
    have d: "distinct (map key ?rows)" by (rule history_uniq [OF Suc.prems(2)])
    have step: "(case swap c ?e ?rows of Inl e \<Rightarrow> (Inl e, ?rows) | Inr (swapped, rows2) \<Rightarrow>
        if swapped then (Inr (c, current = None), rows2)
        else cas_attempts get swap key observed same stale conflict contention (\<lambda>n. history runs (others n)) n c rows2) = (r, rows')"
      using Suc.prems(1) g older by (cases current) (auto simp: Let_def dest: less_imp_neq)
    have here: "\<exists>m\<le>Suc n. outcome get same c (history runs (concat (map others (rev [m..<Suc n]))) rows) r rows'"
      if "outcome get same c ?rows r rows'"
      using that by (intro exI [of _ n]) simp
    show ?thesis
    proof (cases "swap c ?e ?rows")
      case (Inl e)
      then show ?thesis using step by (intro here) (auto simp: outcome_def)
    next
      case (Inr b)
      obtain swapped rows2 where b: "b = (swapped, rows2)" by fastforce
      show ?thesis
      proof (cases swapped)
        case True
        then have w: "swap c ?e ?rows = Inr (True, rows')" "r = Inr (c, current = None)" using step Inr b by auto
        have "current = None \<longleftrightarrow> row_at key (key c) ?rows = None" using swap_writes(1) [OF d w(1)] by simp
        moreover have "observed x < observed c" if "row_at key (key c) ?rows = Some x" for x
          using swap_writes(2) [OF d w(1) that] older by auto
        ultimately show ?thesis using swap_writes(3) [OF d w(1)] w(2) by (intro here) (simp add: outcome_def)
      next
        case False
        then have "rows2 = ?rows" using swap_lost [OF d] Inr b by simp
        then obtain m where "m \<le> n" "outcome get same c (history runs (concat (map others (rev [m..<n]))) ?rows) r rows'"
          using Suc.IH [OF _ d] step Inr b False by auto
        then show ?thesis by (intro exI [of _ m]) (simp add: history_append)
      qed
    qed
  qed
qed

end

end
