(* ===== verification/Observation_Store.thy ===== *)
theory Observation_Store
  imports Latest_Values Py_Utf8 Py_Json
begin

text \<open>
  The latest observations of an agent: \<open>observations/models.py\<close>, \<open>observations/service.py\<close>, \<open>observations/cleanup.py\<close>
  and \<open>storage/observations.py\<close> with the table of \<open>migrations/0003_observability.py\<close>.

  A row of the table is the record it stands for; the two JSON columns hold the values that \<open>json.loads\<close> returns of
  them.  The column \<open>numeric_value\<close> is \<open>REAL\<close>: what is stored of an integer is the nearest double (\<open>saved_number\<close>).
  SHA-256 and the printed form of a float are parameters; a submitted time is the instant it denotes.
\<close>

section \<open>Data\<close>

datatype observation_kind = Gauge | Counter | Status_Kind

datatype observation_status = Obs_Ok | Obs_Warning | Obs_Critical | Obs_Unknown

text \<open>A Python number; \<open>PyFloat None\<close> is not finite.\<close>

datatype py_number = PyInt int | PyFloat "rat option"

record observation_input =
  oi_namespace :: string
  oi_name :: string
  oi_kind :: observation_kind
  oi_value :: "py_number option"
  oi_unit :: "string option"
  oi_status :: observation_status
  oi_message :: "string option"
  oi_labels :: "(string \<times> string) list"
  oi_details :: "(string \<times> json) list"
  oi_observed_at :: instant
  oi_ttl_seconds :: int

record observation =
  o_identity_key :: string
  o_namespace :: string
  o_name :: string
  o_kind :: observation_kind
  o_value :: "py_number option"
  o_unit :: "string option"
  o_status :: observation_status
  o_message :: "string option"
  o_labels :: "(string \<times> string) list"
  o_details :: "(string \<times> json) list"
  o_observed_at :: instant
  o_ttl_seconds :: int
  o_received_at :: instant
  o_expires_at :: instant
  o_producer_id :: string
  o_updated_at :: instant

record observation_env =
  oe_sha256 :: "nat list \<Rightarrow> string"
  oe_float_repr :: "rat \<Rightarrow> string"
  oe_max_series :: nat

datatype observation_error =
    Observation_Invalid | Observation_In_Future | Observation_Expired | Stale_Observation | Observation_Timestamp_Conflict
  | Observation_Storage_Unavailable | Observation_Storage_Contention | Observation_Series_Limit | Observation_Overflow

section \<open>Validation\<close>

definition code_points :: "string \<Rightarrow> unicode" where
  "code_points s = map of_char s"

definition utf8_size :: "string \<Rightarrow> nat" where
  "utf8_size s = byte_length (code_points s)"

definition namespace_re :: "nat \<Rightarrow> string \<Rightarrow> bool" where
  "namespace_re n s \<longleftrightarrow> (case s of [] \<Rightarrow> False
     | c # cs \<Rightarrow> is_lower c \<and> length cs \<le> n \<and> list_all (\<lambda>c. is_lower c \<or> is_digit c \<or> c = CHR ''_'') cs)"

function validate_json :: "json \<Rightarrow> nat \<Rightarrow> bool" where
  "validate_json v depth = (case v of
     JStr s \<Rightarrow> utf8_size s \<le> 4096
   | JFloat x \<Rightarrow> x \<noteq> None
   | JList vs \<Rightarrow> depth \<le> 4 \<and> (\<forall>c\<in>set vs. validate_json c (depth + 1))
   | JDict kvs \<Rightarrow> depth \<le> 4 \<and> (\<forall>kv\<in>set kvs. utf8_size (fst kv) \<le> 64 \<and> validate_json (snd kv) (depth + 1))
   | _ \<Rightarrow> True)"
  by pat_completeness auto
termination
  by (relation "measure (\<lambda>(v, n). size v)")
    (auto simp: size_list_estimation' le_imp_less_Suc, (metis le_imp_less_Suc less_add_Suc2 order_less_le_trans size_list_estimation' snd_conv le_refl prod.collapse)?)

declare validate_json.simps [simp del]

text \<open>\<open>json.dumps\<close> with \<open>ensure_ascii=False\<close> and compact separators\<close>

definition json_raw_char :: "char \<Rightarrow> string" where
  "json_raw_char c = (let n = (of_char c :: nat) in
     case map_of short_escapes c of
       Some e \<Rightarrow> [backslash, e]
     | None \<Rightarrow>
         if 32 \<le> n then [c]
         else [backslash, CHR ''u'', CHR ''0'', CHR ''0'', digit_char (n div 16), digit_char (n mod 16)])"

definition json_raw_string :: "string \<Rightarrow> string" where
  "json_raw_string s = [quote] @ concat (map json_raw_char s) @ [quote]"

definition ordered_items :: "bool \<Rightarrow> (string \<times> 'a) list \<Rightarrow> (string \<times> 'a) list" where
  "ordered_items sort_keys kvs = (if sort_keys then sort_key fst kvs else kvs)"

lemma set_ordered_items [simp]: "set (ordered_items sort_keys kvs) = set kvs"
  by (simp add: ordered_items_def)

function compact_json :: "observation_env \<Rightarrow> bool \<Rightarrow> json \<Rightarrow> string" where
  "compact_json env sort_keys v = (case v of
     JNull \<Rightarrow> ''null''
   | JBool b \<Rightarrow> (if b then ''true'' else ''false'')
   | JStr s \<Rightarrow> json_raw_string s
   | JInt n \<Rightarrow> show_int n
   | JFloat x \<Rightarrow> (case x of None \<Rightarrow> [] | Some r \<Rightarrow> oe_float_repr env r)
   | JList vs \<Rightarrow> ''['' @ join_with '','' (map (compact_json env sort_keys) vs) @ '']''
   | JDict kvs \<Rightarrow> [CHR 0x7B] @ join_with '',''
       (map (\<lambda>kv. json_raw_string (fst kv) @ '':'' @ compact_json env sort_keys (snd kv)) (ordered_items sort_keys kvs)) @ [CHR 0x7D])"
  by pat_completeness auto
termination
  by (relation "measure (\<lambda>(env, sort_keys, v). size v)")
    (auto simp: size_list_estimation' le_imp_less_Suc, (metis le_imp_less_Suc less_add_Suc2 order_less_le_trans size_list_estimation' snd_conv le_refl prod.collapse)?)

declare compact_json.simps [simp del]

definition reserved_labels :: "string list" where
  "reserved_labels = [''name'', ''namespace'', ''status'']"

definition validate_labels :: "(string \<times> string) list \<Rightarrow> bool" where
  "validate_labels labels \<longleftrightarrow> length labels \<le> 16 \<and>
     list_all (\<lambda>(k, v). k \<notin> set reserved_labels \<and> namespace_re 62 k \<and> utf8_size v \<le> 128) labels"

definition validate_details :: "observation_env \<Rightarrow> (string \<times> json) list \<Rightarrow> bool" where
  "validate_details env details \<longleftrightarrow> validate_json (JDict details) 1 \<and> utf8_size (compact_json env False (JDict details)) \<le> 16384"

definition validate_value :: "observation_kind \<Rightarrow> py_number option \<Rightarrow> bool" where
  "validate_value kind v \<longleftrightarrow> (kind \<in> {Gauge, Counter} \<longrightarrow> v \<noteq> None) \<and> v \<noteq> Some (PyFloat None)"

text \<open>The validated input with its labels sorted; \<open>None\<close> is a validation error.\<close>

definition validate_input :: "observation_env \<Rightarrow> observation_input \<Rightarrow> observation_input option" where
  "validate_input env i =
     (if namespace_re 62 (oi_namespace i) \<and> namespace_re 126 (oi_name i) \<and>
         (case oi_unit i of None \<Rightarrow> True | Some u \<Rightarrow> length u \<le> 32) \<and>
         (case oi_message i of None \<Rightarrow> True | Some m \<Rightarrow> utf8_size m \<le> 2048) \<and>
         validate_labels (oi_labels i) \<and> validate_details env (oi_details i) \<and>
         1 \<le> oi_ttl_seconds i \<and> oi_ttl_seconds i \<le> 604800 \<and> validate_value (oi_kind i) (oi_value i)
      then Some (i\<lparr>oi_labels := sort_key fst (oi_labels i)\<rparr>) else None)"

definition identity_key :: "observation_env \<Rightarrow> observation_input \<Rightarrow> string" where
  "identity_key env i = oe_sha256 env (utf8 (code_points (compact_json env True
     (JList [JStr (oi_namespace i), JStr (oi_name i), JDict (map (\<lambda>(k, v). (k, JStr v)) (oi_labels i))]))))"

section \<open>Stored numbers\<close>

fun bit_count :: "nat \<Rightarrow> nat" where
  "bit_count n = (if n = 0 then 0 else Suc (bit_count (n div 2)))"

declare bit_count.simps [simp del]

text \<open>The nearest double of an integer, ties to even.\<close>

definition half_even :: "int \<Rightarrow> int \<Rightarrow> int" where
  "half_even n m = (let q = n div m; r = n mod m in if 2 * r < m \<or> 2 * r = m \<and> even q then q else q + 1)"

definition double_of_int :: "int \<Rightarrow> int" where
  "double_of_int n = (let m = 2 ^ (bit_count (nat \<bar>n\<bar>) - 53) in sgn n * (half_even \<bar>n\<bar> m * m))"

definition saved_number :: "py_number \<Rightarrow> py_number" where
  "saved_number v = (case v of PyInt n \<Rightarrow> PyFloat (Some (of_int (double_of_int n))) | PyFloat x \<Rightarrow> PyFloat x)"

definition storable :: "py_number option \<Rightarrow> bool" where
  "storable v = (case v of Some (PyInt n) \<Rightarrow> - (2 ^ 63) \<le> n \<and> n < 2 ^ 63 | _ \<Rightarrow> True)"

definition saved_observation :: "observation \<Rightarrow> observation" where
  "saved_observation r = r\<lparr>o_value := map_option saved_number (o_value r), o_producer_id := ''local''\<rparr>"

text \<open>Python compares numbers by value.\<close>

fun number_eq :: "py_number \<Rightarrow> py_number \<Rightarrow> bool" where
  "number_eq (PyInt a) (PyInt b) \<longleftrightarrow> a = b"
| "number_eq (PyInt a) (PyFloat (Some y)) \<longleftrightarrow> of_int a = y"
| "number_eq (PyFloat (Some x)) (PyInt b) \<longleftrightarrow> x = of_int b"
| "number_eq (PyFloat (Some x)) (PyFloat (Some y)) \<longleftrightarrow> x = y"
| "number_eq _ _ \<longleftrightarrow> False"

definition value_eq :: "py_number option \<Rightarrow> py_number option \<Rightarrow> bool" where
  "value_eq v w = (case (v, w) of (None, None) \<Rightarrow> True | (Some a, Some b) \<Rightarrow> number_eq a b | _ \<Rightarrow> False)"

definition labels_text :: "observation_env \<Rightarrow> observation \<Rightarrow> string" where
  "labels_text env r = compact_json env True (JDict (map (\<lambda>(k, v). (k, JStr v)) (o_labels r)))"

text \<open>\<open>normalized_payload() == normalized_payload()\<close>\<close>

definition same_payload :: "observation_env \<Rightarrow> observation \<Rightarrow> observation \<Rightarrow> bool" where
  "same_payload env a b \<longleftrightarrow> o_namespace a = o_namespace b \<and> o_name a = o_name b \<and> o_kind a = o_kind b \<and>
     value_eq (o_value a) (o_value b) \<and> o_unit a = o_unit b \<and> o_status a = o_status b \<and> o_message a = o_message b \<and>
     labels_text env a = labels_text env b \<and>
     compact_json env True (JDict (o_details a)) = compact_json env True (JDict (o_details b)) \<and>
     o_observed_at a = o_observed_at b \<and> o_ttl_seconds a = o_ttl_seconds b"

section \<open>Repository\<close>

text \<open>\<open>Observation.reconstitute\<close>; \<open>None\<close> is the \<open>ValueError\<close>.\<close>

definition reconstitute :: "observation_env \<Rightarrow> observation \<Rightarrow> observation option" where
  "reconstitute env r =
     (let span = o_expires_at r - o_observed_at r in
      if span mod 1000000 \<noteq> 0 then None
      else case validate_input env \<lparr>oi_namespace = o_namespace r, oi_name = o_name r, oi_kind = o_kind r, oi_value = o_value r,
          oi_unit = o_unit r, oi_status = o_status r, oi_message = o_message r, oi_labels = o_labels r, oi_details = o_details r,
          oi_observed_at = o_observed_at r, oi_ttl_seconds = span div 1000000\<rparr> of
        None \<Rightarrow> None
      | Some i \<Rightarrow>
          if o_producer_id r \<noteq> ''local'' \<or> o_identity_key r \<noteq> identity_key env i then None
          else Some (r\<lparr>o_labels := oi_labels i, o_ttl_seconds := oi_ttl_seconds i\<rparr>))"

definition observation_get :: "observation_env \<Rightarrow> string \<Rightarrow> observation list \<Rightarrow> observation_error + observation option" where
  "observation_get env k rows = (case row_at o_identity_key k rows of
     None \<Rightarrow> Inr None
   | Some r \<Rightarrow> (case reconstitute env r of None \<Rightarrow> Inl Observation_Storage_Unavailable | Some x \<Rightarrow> Inr (Some x)))"

definition compare_and_swap ::
  "observation_env \<Rightarrow> observation \<Rightarrow> instant option \<Rightarrow> observation list \<Rightarrow> observation_error + bool \<times> observation list" where
  "compare_and_swap env r expected rows =
     (let present = (\<exists>x\<in>set rows. o_identity_key x = o_identity_key r) in
      if \<not> storable (o_value r) then Inl Observation_Overflow
      else case expected of
        None \<Rightarrow>
          if length rows < oe_max_series env \<and> \<not> present then Inr (True, rows @ [saved_observation r])
          else if \<not> present then Inl Observation_Series_Limit
          else Inr (False, rows)
      | Some t \<Rightarrow>
          let P = (\<lambda>x. o_identity_key x = o_identity_key r \<and> o_observed_at x = t) in
          Inr (rowcount P rows = 1, sql_update P (\<lambda>_. saved_observation r) rows))"

definition observation_delete_expired :: "instant \<Rightarrow> nat \<Rightarrow> observation list \<Rightarrow> nat \<times> observation list" where
  "observation_delete_expired = delete_first o_identity_key o_expires_at"

definition observation_list_all :: "observation_env \<Rightarrow> observation list \<Rightarrow> observation_error + observation list" where
  "observation_list_all env rows = (let sorted = map (reconstitute env) (sort_key o_identity_key rows) in
     if None \<in> set sorted then Inl Observation_Storage_Unavailable else Inr (map the sorted))"

definition observation_counts :: "instant \<Rightarrow> observation list \<Rightarrow> nat \<times> nat \<times> nat \<times> nat" where
  "observation_counts now rows =
     (length rows, rowcount (\<lambda>r. now < o_expires_at r \<and> o_status r = Obs_Warning) rows,
      rowcount (\<lambda>r. now < o_expires_at r \<and> o_status r = Obs_Critical) rows, rowcount (\<lambda>r. o_expires_at r \<le> now) rows)"

record observation_query =
  oq_namespace :: "string option"
  oq_name :: "string option"
  oq_status :: "observation_status option"
  oq_include_stale :: bool
  oq_limit :: int
  oq_cursor :: "string option"

definition query_matches :: "observation_query \<Rightarrow> instant \<Rightarrow> observation \<Rightarrow> bool" where
  "query_matches q now r \<longleftrightarrow>
     (case oq_namespace q of None \<Rightarrow> True | Some n \<Rightarrow> o_namespace r = n) \<and>
     (case oq_name q of None \<Rightarrow> True | Some n \<Rightarrow> o_name r = n) \<and>
     (case oq_status q of None \<Rightarrow> True | Some s \<Rightarrow> o_status r = s) \<and>
     (oq_include_stale q \<or> now < o_expires_at r) \<and>
     (case oq_cursor q of None \<Rightarrow> True | Some c \<Rightarrow> c < o_identity_key r)"

definition observation_list ::
  "observation_env \<Rightarrow> observation_query \<Rightarrow> instant \<Rightarrow> observation list \<Rightarrow> observation_error + observation list \<times> string option" where
  "observation_list env q now rows =
     (if \<not> (1 \<le> oq_limit q \<and> oq_limit q \<le> 1000) then Inl Observation_Invalid
      else
        let limit = nat (oq_limit q);
            found = take (limit + 1) (sort_key o_identity_key (filter (query_matches q now) rows));
            records = map (reconstitute env) (take limit found) in
        if None \<in> set records then Inl Observation_Storage_Unavailable
        else Inr (map the records, if limit < length found then Some (o_identity_key (the (last records))) else None))"

section \<open>Service\<close>

type_synonym observation_op = "observation store_op"

definition run_observations :: "observation_env \<Rightarrow> observation_op \<Rightarrow> observation list \<Rightarrow> observation_error + unit \<times> observation list" where
  "run_observations env = run_store (compare_and_swap env) observation_delete_expired"

definition new_record :: "observation_env \<Rightarrow> observation_input \<Rightarrow> instant \<Rightarrow> observation" where
  "new_record env i now = \<lparr>o_identity_key = identity_key env i, o_namespace = oi_namespace i, o_name = oi_name i, o_kind = oi_kind i,
     o_value = oi_value i, o_unit = oi_unit i, o_status = oi_status i, o_message = oi_message i, o_labels = oi_labels i,
     o_details = oi_details i, o_observed_at = oi_observed_at i, o_ttl_seconds = oi_ttl_seconds i, o_received_at = now,
     o_expires_at = oi_observed_at i + oi_ttl_seconds i * 1000000, o_producer_id = ''local'', o_updated_at = now\<rparr>"

text \<open>The attempts of \<open>upsert\<close>, while the other requests commit \<open>others n\<close> in attempt \<open>n\<close>.\<close>

definition upsert_attempts ::
  "observation_env \<Rightarrow> (nat \<Rightarrow> observation_op list) \<Rightarrow> nat \<Rightarrow> observation \<Rightarrow> observation list \<Rightarrow>
   (observation_error + observation \<times> bool) \<times> observation list" where
  "upsert_attempts env others = cas_attempts (observation_get env) (compare_and_swap env) o_identity_key o_observed_at (same_payload env)
     Stale_Observation Observation_Timestamp_Conflict Observation_Storage_Contention (\<lambda>n. history (run_observations env) (others n))"

definition observation_upsert ::
  "observation_env \<Rightarrow> (nat \<Rightarrow> observation_op list) \<Rightarrow> observation_input \<Rightarrow> instant \<Rightarrow> observation list \<Rightarrow>
   (observation_error + observation \<times> bool) \<times> observation list" where
  "observation_upsert env others i now rows =
     (if now + 60 * 1000000 < oi_observed_at i then (Inl Observation_In_Future, rows)
      else let candidate = new_record env i now in
        if o_expires_at candidate \<le> now then (Inl Observation_Expired, rows)
        else upsert_attempts env others 8 candidate rows)"

text \<open>\<open>math.isfinite\<close> raises \<open>OverflowError\<close> for an integer that rounds to no double.\<close>

definition isfinite_overflows :: "py_number option \<Rightarrow> bool" where
  "isfinite_overflows v = (case v of Some (PyInt n) \<Rightarrow> 2 ^ 1024 - 2 ^ 970 \<le> \<bar>n\<bar> | _ \<Rightarrow> False)"

text \<open>\<open>put_observation\<close>: validation of the body, then the upsert.\<close>

definition put_observation ::
  "observation_env \<Rightarrow> (nat \<Rightarrow> observation_op list) \<Rightarrow> observation_input \<Rightarrow> instant \<Rightarrow> observation list \<Rightarrow>
   (observation_error + observation \<times> bool) \<times> observation list" where
  "put_observation env others body now rows = (case validate_input env body of
     None \<Rightarrow> (Inl Observation_Invalid, rows)
   | Some i \<Rightarrow>
       if isfinite_overflows (oi_value i) then (Inl Observation_Overflow, rows) else observation_upsert env others i now rows)"

definition is_stale :: "observation \<Rightarrow> instant \<Rightarrow> bool" where
  "is_stale r now \<longleftrightarrow> o_expires_at r \<le> now"

definition service_get :: "observation_env \<Rightarrow> string \<Rightarrow> instant \<Rightarrow> bool \<Rightarrow> observation list \<Rightarrow> observation_error + observation option" where
  "service_get env k now include_stale rows = (case observation_get env k rows of
     Inl e \<Rightarrow> Inl e
   | Inr None \<Rightarrow> Inr None
   | Inr (Some r) \<Rightarrow> Inr (if \<not> include_stale \<and> is_stale r now then None else Some r))"

text \<open>One round of \<open>expiration_loop\<close>: batches of 500 until one is not full.\<close>

function expire_round :: "nat \<Rightarrow> instant \<Rightarrow> observation list \<Rightarrow> observation list" where
  "expire_round limit cutoff rows = (case observation_delete_expired cutoff limit rows of (deleted, rows') \<Rightarrow>
     if 0 < limit \<and> deleted = limit then expire_round limit cutoff rows' else rows')"
  by pat_completeness auto
termination
proof (relation "measure (\<lambda>(limit, cutoff, rows). length rows)")
  fix limit :: nat and cutoff rows deleted rows'
  assume "(deleted, rows') = observation_delete_expired cutoff limit rows" "0 < limit \<and> deleted = limit"
  then show "((limit, cutoff, rows'), limit, cutoff, rows) \<in> measure (\<lambda>(limit, cutoff, rows). length rows)"
    using delete_first_length [of o_identity_key o_expires_at cutoff limit rows]
    unfolding observation_delete_expired_def by (metis case_prod_conv fst_conv in_measure less_add_same_cancel2 snd_conv)
qed simp

declare expire_round.simps [simp del]

end
