(* ===== verification/Observation_Properties.thy ===== *)
theory Observation_Properties
  imports Observation_Store
begin

text \<open>
  What the observations of an agent promise: a submission never replaces a newer value, whatever other submissions and
  clean-ups run at the same time; the outcome of a submission on every branch; what a round of clean-up removes; and what
  the \<open>REAL\<close> column does to a repeated submission of a large integer.
\<close>

lemma saved_observation_simps [simp]:
  "o_identity_key (saved_observation r) = o_identity_key r" "o_observed_at (saved_observation r) = o_observed_at r"
  "o_expires_at (saved_observation r) = o_expires_at r"
  by (simp_all add: saved_observation_def)

interpretation observation_rows: keyed_table o_identity_key "\<lambda>rows. distinct (map o_identity_key rows)"
  by unfold_locales simp

interpretation observations: latest_values o_identity_key o_observed_at o_expires_at saved_observation "compare_and_swap env" for env
proof
  fix r t rows rows'
  show "compare_and_swap env r None rows = Inr (True, rows') \<Longrightarrow>
      o_identity_key r \<notin> o_identity_key ` set rows \<and> rows' = rows @ [saved_observation r]"
    by (auto simp: compare_and_swap_def Let_def split: if_splits)
  show "compare_and_swap env r (Some t) rows = Inr (True, rows') \<Longrightarrow>
      (\<exists>x\<in>set rows. o_identity_key x = o_identity_key r \<and> o_observed_at x = t) \<and>
      rows' = sql_update (\<lambda>x. o_identity_key x = o_identity_key r \<and> o_observed_at x = t) (\<lambda>_. saved_observation r) rows"
    by (auto simp: compare_and_swap_def Let_def dest: rowcount_pos split: if_splits)
  show "distinct (map o_identity_key rows) \<Longrightarrow> compare_and_swap env r expected rows = Inr (False, rows') \<Longrightarrow> rows' = rows" for expected
    using observation_rows.rowcount_key_1 [of rows "o_identity_key r"]
    by (cases expected) (auto simp: compare_and_swap_def Let_def sql_update_none split: if_splits)
qed simp_all

section \<open>Interleavings\<close>

lemma run_observations_eq: "run_observations env = run_store (compare_and_swap env) (delete_first o_identity_key o_expires_at)"
  by (simp add: run_observations_def observation_delete_expired_def)

text \<open>
  \<open>C30\<close>.  A newer observation is never replaced by an older one.  Let the other requests commit any swaps and purges
  between the reads and the swaps of a submission; \<open>seen\<close> is the table they alone have made by the attempt that decides.
  The submission has failed and left \<open>seen\<close> as it is; or it has found its own content in \<open>seen\<close>, with the same time, and
  returns that row; or it has written exactly one row, that of its identity, and at that moment \<open>seen\<close> held no row of the
  identity or one observed strictly earlier.
\<close>

theorem observations_never_go_back:
  assumes "distinct (map o_identity_key rows)" and "put_observation env others body now rows = (r, rows')"
  shows "\<exists>m\<le>8. \<exists>seen. seen = history (run_observations env) (concat (map others (rev [m..<8]))) rows \<and>
    (isl r \<and> rows' = seen \<or>
     (\<exists>i c. validate_input env body = Some i \<and> c = new_record env i now \<and>
       ((\<exists>y. r = Inr (y, False) \<and> rows' = seen \<and> observation_get env (o_identity_key c) seen = Inr (Some y) \<and>
           o_observed_at y = o_observed_at c \<and> same_payload env c y) \<or>
        r = Inr (c, row_at o_identity_key (o_identity_key c) seen = None) \<and>
          (\<forall>x. row_at o_identity_key (o_identity_key c) seen = Some x \<longrightarrow> o_observed_at x < o_observed_at c) \<and>
          (\<forall>k. row_at o_identity_key k rows' =
             (if k = o_identity_key c then Some (saved_observation c) else row_at o_identity_key k seen)))))"
proof (cases "isl r \<and> rows' = rows")
  case True
  then show ?thesis by (intro exI [of _ 8]) simp
next
  case False
  then obtain i where i: "validate_input env body = Some i" "upsert_attempts env others 8 (new_record env i now) rows = (r, rows')"
    using assms(2) by (auto simp: put_observation_def observation_upsert_def Let_def split: option.splits if_splits)
  then show ?thesis
    using observations.attempts_outcome [OF i(2) [unfolded upsert_attempts_def run_observations_eq] assms(1)]
    unfolding observations.outcome_def run_observations_eq by blast
qed

section \<open>Readable rows\<close>

lemma validate_labels_sorted: "validate_labels (sort_key fst labels) = validate_labels labels"
  by (simp add: validate_labels_def list_all_iff)

lemma validated:
  assumes "validate_input env body = Some i"
  shows "validate_input env i = Some i \<and> sort_key fst (oi_labels i) = oi_labels i"
proof -
  have "i = body\<lparr>oi_labels := sort_key fst (oi_labels body)\<rparr>" using assms by (auto simp: validate_input_def split: if_splits)
  moreover have "sort_key fst (sort_key fst (oi_labels body)) = sort_key fst (oi_labels body)" by (rule sort_key_id_if_sorted) simp
  ultimately show ?thesis using assms by (simp add: validate_input_def validate_labels_sorted split: if_splits)
qed

lemma saved_readable:
  assumes "validate_input env body = Some i"
  shows "reconstitute env (saved_observation (new_record env i now)) = Some (saved_observation (new_record env i now))"
proof -
  let ?i = "i\<lparr>oi_value := map_option saved_number (oi_value i)\<rparr>"
  have "validate_value k (map_option saved_number v) = validate_value k v" for k v
    by (cases v) (auto simp: validate_value_def saved_number_def split: py_number.splits)
  then have "validate_input env ?i = Some ?i" using validated [OF assms] by (simp add: validate_input_def split: if_splits)
  moreover have "identity_key env ?i = identity_key env i" by (simp add: identity_key_def)
  ultimately show ?thesis by (cases i) (simp add: reconstitute_def new_record_def saved_observation_def)
qed

definition observations_ok :: "observation_env \<Rightarrow> observation list \<Rightarrow> bool" where
  "observations_ok env rows \<longleftrightarrow> distinct (map o_identity_key rows) \<and> length rows \<le> oe_max_series env \<and>
     list_all (\<lambda>r. reconstitute env r = Some r) rows"

text \<open>The swaps of validated submissions, and purges.\<close>

definition submitted :: "observation_env \<Rightarrow> observation_op \<Rightarrow> bool" where
  "submitted env x \<longleftrightarrow> (case x of
     Swap r _ \<Rightarrow> \<exists>body i now. validate_input env body = Some i \<and> r = new_record env i now
   | Purge _ _ \<Rightarrow> True)"

lemma swap_keeps_ok:
  assumes "observations_ok env rows" and "compare_and_swap env r expected rows = Inr (b, rows')" and "submitted env (Swap r expected)"
  shows "observations_ok env rows'"
proof -
  have "reconstitute env (saved_observation r) = Some (saved_observation r)"
    using assms(3) saved_readable by (auto simp: submitted_def)
  moreover have "distinct (map o_identity_key rows')"
    using observations.swap_uniq [OF _ assms(2)] assms(1) by (simp add: observations_ok_def)
  ultimately show ?thesis
    using assms(1,2)
    by (auto simp: observations_ok_def compare_and_swap_def Let_def list_all_iff set_sql_update split: option.splits if_splits)
qed

lemma run_keeps_ok:
  assumes "observations_ok env rows" and "run_observations env x rows = Inr (v, rows')" and "submitted env x"
  shows "observations_ok env rows'"
proof (cases x)
  case (Swap r expected)
  then show ?thesis using assms swap_keeps_ok [OF assms(1), of r expected]
    by (auto simp: run_observations_def run_store_def map_sum_def split: sum.splits)
next
  case (Purge cutoff limit)
  then show ?thesis using assms(1,2)
    by (auto simp: run_observations_def run_store_def observation_delete_expired_def delete_first_def Let_def sql_delete_def
        observations_ok_def list_all_iff distinct_map_filter intro: le_trans [OF length_filter_le])
qed

text \<open>
  \<open>C31\<close>.  The store stays bounded and readable.  However the swaps of validated submissions and the purges interleave,
  every identity has one row, there are never more rows than the configured number of series, and every row can be read
  back as the observation that was stored, so reading never fails with a storage error.
\<close>

theorem observations_bounded_and_readable:
  assumes "observations_ok env rows" and "list_all (submitted env) ops"
  shows "observations_ok env (history (run_observations env) ops rows)"
  using assms
proof (induction ops arbitrary: rows)
  case (Cons x ops)
  have "observations_ok env (after rows (run_observations env x rows))"
    using Cons.prems run_keeps_ok by (cases "run_observations env x rows") (auto simp: after_def)
  then show ?case using Cons by simp
qed simp

section \<open>One submission\<close>

lemma row_at_key: "row_at o_identity_key k rows = Some x \<Longrightarrow> x \<in> set rows \<and> o_identity_key x = k"
  by (auto simp: row_at_def find_Some_iff)

lemma ok_get:
  assumes "observations_ok env rows"
  shows "observation_get env k rows = Inr (row_at o_identity_key k rows)"
proof (cases "row_at o_identity_key k rows")
  case (Some x)
  then have "x \<in> set rows" using row_at_key by blast
  then have "reconstitute env x = Some x" using assms by (simp add: observations_ok_def list_all_iff)
  then show ?thesis using Some by (simp add: observation_get_def)
qed (simp add: observation_get_def)

lemma row_at_present: "row_at o_identity_key k rows = None \<longleftrightarrow> \<not> (\<exists>x\<in>set rows. o_identity_key x = k)"
  by (auto simp: row_at_def find_None_iff)

lemma swap_present:
  assumes "observations_ok env rows" and "row_at o_identity_key (o_identity_key c) rows = Some x" and "storable (o_value c)"
  shows "compare_and_swap env c (Some (o_observed_at x)) rows =
    Inr (True, sql_update (\<lambda>y. o_identity_key y = o_identity_key c) (\<lambda>_. saved_observation c) rows)"
proof -
  have x: "x \<in> set rows" "o_identity_key x = o_identity_key c" using row_at_key [OF assms(2)] by auto
  have d: "distinct (map o_identity_key rows)" using assms(1) by (simp add: observations_ok_def)
  then have "y = x" if "y \<in> set rows" "o_identity_key y = o_identity_key c" for y
    using x that by (metis distinct_map inj_onD)
  then have "sql_update (\<lambda>y. o_identity_key y = o_identity_key c \<and> o_observed_at y = o_observed_at x) f rows =
      sql_update (\<lambda>y. o_identity_key y = o_identity_key c) f rows" for f
    unfolding sql_update_def by (intro map_cong) auto
  moreover have "rowcount (\<lambda>y. o_identity_key y = o_identity_key c \<and> o_observed_at y = o_observed_at x) rows = 1"
    using observation_rows.rowcount_key_1 [OF d, of "o_identity_key c" "\<lambda>y. o_observed_at y = o_observed_at x"] x by auto
  ultimately show ?thesis using assms(3) by (simp add: compare_and_swap_def)
qed

text \<open>
  The outcome of a submission.  Without interference a valid submission is refused when it is more than a minute
  ahead of the clock or already expired; otherwise it creates the row of a new identity while there is room, replaces a
  row observed earlier, is refused against a row observed later, and against one observed at the same time returns that
  row if the content is the same and is refused if it is not.
\<close>

lemma put_outcome:
  assumes "observations_ok env rows" and "validate_input env body = Some i"
  shows "put_observation env (\<lambda>_. []) body now rows =
    (let c = new_record env i now in
     if isfinite_overflows (oi_value i) then (Inl Observation_Overflow, rows)
     else if now + 60000000 < oi_observed_at i then (Inl Observation_In_Future, rows)
     else if o_expires_at c \<le> now then (Inl Observation_Expired, rows)
     else case row_at o_identity_key (o_identity_key c) rows of
       None \<Rightarrow>
         if \<not> storable (oi_value i) then (Inl Observation_Overflow, rows)
         else if length rows < oe_max_series env then (Inr (c, True), rows @ [saved_observation c])
         else (Inl Observation_Series_Limit, rows)
     | Some x \<Rightarrow>
         if oi_observed_at i < o_observed_at x then (Inl Stale_Observation, rows)
         else if oi_observed_at i = o_observed_at x
         then if same_payload env c x then (Inr (x, False), rows) else (Inl Observation_Timestamp_Conflict, rows)
         else if \<not> storable (oi_value i) then (Inl Observation_Overflow, rows)
         else (Inr (c, False), sql_update (\<lambda>y. o_identity_key y = o_identity_key c) (\<lambda>_. saved_observation c) rows))"
proof -
  define c where "c = new_record env i now"
  have c: "o_observed_at c = oi_observed_at i" "o_value c = oi_value i" by (simp_all add: c_def new_record_def)
  have eight: "(8 :: nat) = Suc 7" by simp
  have attempt: "upsert_attempts env (\<lambda>_. []) (Suc n) c rows =
      (case row_at o_identity_key (o_identity_key c) rows of
       None \<Rightarrow>
         if \<not> storable (oi_value i) then (Inl Observation_Overflow, rows)
         else if length rows < oe_max_series env then (Inr (c, True), rows @ [saved_observation c])
         else (Inl Observation_Series_Limit, rows)
     | Some x \<Rightarrow>
         if oi_observed_at i < o_observed_at x then (Inl Stale_Observation, rows)
         else if oi_observed_at i = o_observed_at x
         then if same_payload env c x then (Inr (x, False), rows) else (Inl Observation_Timestamp_Conflict, rows)
         else if \<not> storable (oi_value i) then (Inl Observation_Overflow, rows)
         else (Inr (c, False), sql_update (\<lambda>y. o_identity_key y = o_identity_key c) (\<lambda>_. saved_observation c) rows))" for n
  proof (cases "row_at o_identity_key (o_identity_key c) rows")
    case None
    then show ?thesis using row_at_present [of "o_identity_key c" rows]
      by (auto simp: upsert_attempts_def ok_get [OF assms(1)] compare_and_swap_def c)
  next
    case (Some x)
    then show ?thesis using swap_present [OF assms(1) Some]
      by (auto simp: upsert_attempts_def ok_get [OF assms(1)] c compare_and_swap_def Let_def)
  qed
  show ?thesis
    using assms(2) attempt [of 7, folded eight, unfolded c_def] unfolding put_observation_def observation_upsert_def Let_def
    by simp
qed

section \<open>Repetition\<close>

lemma same_payload_saved: "same_payload env c (saved_observation c) \<longleftrightarrow> value_eq (o_value c) (map_option saved_number (o_value c))"
  by (simp add: same_payload_def saved_observation_def labels_text_def)

lemma same_payload_later: "same_payload env (new_record env i t) x = same_payload env (new_record env i now) x"
  by (simp add: same_payload_def new_record_def labels_text_def)

lemma new_record_key: "o_identity_key (new_record env i now) = identity_key env i"
  "o_observed_at (new_record env i now) = oi_observed_at i" "o_value (new_record env i now) = oi_value i"
  "o_expires_at (new_record env i now) = oi_observed_at i + oi_ttl_seconds i * 1000000"
  by (simp_all add: new_record_def)

lemma row_at_own:
  assumes "distinct (map o_identity_key rows)" and "c \<in> set rows"
  shows "row_at o_identity_key (o_identity_key c) rows = Some c"
  unfolding row_at_def by (rule observation_rows.find_key_only [OF assms])

lemma stored_submission:
  assumes "observations_ok env rows" and "validate_input env body = Some i"
    and "put_observation env (\<lambda>_. []) body now rows = (r, rows')" and "rows' \<noteq> rows"
  shows "row_at o_identity_key (identity_key env i) rows' = Some (saved_observation (new_record env i now)) \<and> observations_ok env rows' \<and>
    oi_observed_at i \<le> now + 60000000 \<and> \<not> isfinite_overflows (oi_value i)"
proof -
  define c where "c = new_record env i now"
  have c: "o_identity_key c = identity_key env i" "o_value c = oi_value i" by (simp_all add: c_def new_record_key)
  have f: "\<not> isfinite_overflows (oi_value i)" using put_outcome [OF assms(1,2), of now] assms(3,4) by (auto simp: Let_def)
  have r: "oi_observed_at i \<le> now + 60000000" "storable (oi_value i)"
    "row_at o_identity_key (identity_key env i) rows = None \<and> length rows < oe_max_series env \<and> rows' = rows @ [saved_observation c] \<or>
     (\<exists>x. row_at o_identity_key (identity_key env i) rows = Some x \<and>
        rows' = sql_update (\<lambda>y. o_identity_key y = o_identity_key c) (\<lambda>_. saved_observation c) rows)"
    using put_outcome [OF assms(1,2), of now] assms(3,4) unfolding c_def [symmetric] Let_def c(1)
    by (auto split: if_splits option.splits)
  have "\<exists>e. compare_and_swap env c e rows = Inr (True, rows')"
  proof (cases "row_at o_identity_key (identity_key env i) rows")
    case None
    then show ?thesis using r(2,3) row_at_present [of "identity_key env i" rows]
      by (intro exI [of _ None]) (auto simp: c compare_and_swap_def)
  next
    case (Some x)
    then show ?thesis using r(2,3) swap_present [OF assms(1), of c x] by (intro exI [of _ "Some (o_observed_at x)"]) (simp add: c)
  qed
  moreover have "submitted env (Swap c e)" for e using assms(2) by (auto simp: submitted_def c_def)
  ultimately have ok: "observations_ok env rows'" using swap_keeps_ok [OF assms(1)] by blast
  have "saved_observation c \<in> set rows'"
    using r(3) c(1) by (auto simp: set_sql_update image_iff dest!: row_at_key)
  then have "row_at o_identity_key (identity_key env i) rows' = Some (saved_observation c)"
    using row_at_own [of rows' "saved_observation c"] ok c(1) by (simp add: observations_ok_def)
  then show ?thesis using ok r(1) f by (simp add: c_def)
qed

text \<open>
  \<open>C36\<close>.  Repeating a submission.  After a submission has been stored, the very same submission, sent again before it
  expires, returns the stored row and changes nothing, provided the stored number equals the submitted one.  The number is
  stored as a double: an integer that no double represents is no longer equal to what was stored, and the repetition is
  refused as a conflict although the guide promises that it is idempotent.
\<close>

theorem repeated_submission:
  assumes "observations_ok env rows" and "validate_input env body = Some i"
    and "put_observation env (\<lambda>_. []) body now rows = (r, rows')" and "rows' \<noteq> rows"
    and "now \<le> later" and "later < oi_observed_at i + oi_ttl_seconds i * 1000000"
  shows "put_observation env (\<lambda>_. []) body later rows' =
    (if value_eq (oi_value i) (map_option saved_number (oi_value i))
     then Inr (saved_observation (new_record env i now), False) else Inl Observation_Timestamp_Conflict, rows')"
proof -
  note s = stored_submission [OF assms(1-4)]
  have "same_payload env (new_record env i later) (saved_observation (new_record env i now)) \<longleftrightarrow>
      value_eq (oi_value i) (map_option saved_number (oi_value i))"
    using same_payload_saved [of env "new_record env i now"] same_payload_later [of env i later _ now] by (simp add: new_record_key)
  then show ?thesis
    using s put_outcome [OF _ assms(2), of rows' later] assms(5,6) by (simp add: Let_def new_record_key)
qed

section \<open>Clean-up\<close>

text \<open>
  A round of clean-up ends and removes exactly what has expired: batch after batch is deleted until one is not
  full, after which no row is left that expired at the cutoff or before, and every other row is untouched.
\<close>

theorem expire_round_removes_expired:
  assumes "distinct (map o_identity_key rows)" and "0 < limit"
  shows "expire_round limit cutoff rows = filter (\<lambda>r. cutoff < o_expires_at r) rows"
  using assms
proof (induction limit cutoff rows rule: expire_round.induct)
  case (1 limit cutoff rows)
  obtain deleted rows' where d: "observation_delete_expired cutoff limit rows = (deleted, rows')" by fastforce
  define chosen where "chosen = map o_identity_key (expired_first o_identity_key o_expires_at cutoff limit rows)"
  have rows': "rows' = filter (\<lambda>r. o_identity_key r \<notin> set chosen) rows"
    using d by (simp add: observation_delete_expired_def delete_first_def Let_def sql_delete_def chosen_def)
  have keep: "filter (\<lambda>r. cutoff < o_expires_at r) rows' = filter (\<lambda>r. cutoff < o_expires_at r) rows"
  proof -
    have "o_expires_at x \<le> cutoff" if "x \<in> set rows" "x \<notin> set rows'" for x
      using delete_first_removes_expired [OF 1(2) that(1), of o_expires_at cutoff limit] that(2) d
      by (simp add: observation_delete_expired_def)
    then have "o_identity_key x \<notin> set chosen" if "x \<in> set rows" "cutoff < o_expires_at x" for x
      using that by (force simp: rows')
    then show ?thesis unfolding rows' filter_filter by (intro filter_cong) auto
  qed
  have u: "distinct (map o_identity_key rows')" using 1(2) by (simp add: rows' distinct_map_filter)
  have n: "deleted = min limit (length (filter (\<lambda>r. o_expires_at r \<le> cutoff) rows))"
    using delete_first_count [OF 1(2), of o_expires_at cutoff limit] d by (simp add: observation_delete_expired_def)
  show ?case
  proof (cases "deleted = limit")
    case True
    then have "expire_round limit cutoff rows = expire_round limit cutoff rows'"
      using d 1(3) by (simp add: expire_round.simps [of limit cutoff rows])
    then show ?thesis using 1(1) [OF d [symmetric] _ u 1(3)] True 1(3) keep by simp
  next
    case False
    then have all: "set (expired_first o_identity_key o_expires_at cutoff limit rows) = set (filter (\<lambda>r. o_expires_at r \<le> cutoff) rows)"
      using n by (simp add: expired_first_def)
    have "cutoff < o_expires_at r" if "r \<in> set rows'" for r
      using that all by (auto simp: rows' chosen_def not_le [symmetric])
    then have "filter (\<lambda>r. cutoff < o_expires_at r) rows' = rows'" by (simp add: filter_id_conv)
    then show ?thesis using False d keep by (simp add: expire_round.simps [of limit cutoff rows])
  qed
qed

section \<open>Samples\<close>

definition demo_observation_env :: observation_env where
  "demo_observation_env = \<lparr>oe_sha256 = (\<lambda>bs. map char_of bs), oe_float_repr = (\<lambda>_. ''1.5''), oe_max_series = 2\<rparr>"

definition demo_body :: "int \<Rightarrow> observation_input" where
  "demo_body n = \<lparr>oi_namespace = ''eda'', oi_name = ''jobs'', oi_kind = Counter, oi_value = Some (PyInt n), oi_unit = None,
     oi_status = Obs_Ok, oi_message = None, oi_labels = [], oi_details = [], oi_observed_at = 1000000, oi_ttl_seconds = 60\<rparr>"

lemma demo_valid: "validate_input demo_observation_env (demo_body n) = Some (demo_body n)"
proof -
  have "validate_details demo_observation_env []"
    by (simp add: validate_details_def validate_json.simps compact_json.simps ordered_items_def utf8_size_def code_points_def utf8_char_def)
  then show ?thesis
    by (simp add: validate_input_def demo_body_def namespace_re_def is_lower_def validate_labels_def validate_value_def)
qed

lemma demo_ok: "observations_ok demo_observation_env []"
  by (simp add: observations_ok_def)

lemma double_of_large: "double_of_int 9007199254740993 = 9007199254740992"
  by (simp add: double_of_int_def half_even_def bit_count.simps)

definition demo_large :: "(observation_error + observation \<times> bool) \<times> observation list" where
  "demo_large = put_observation demo_observation_env (\<lambda>_. []) (demo_body 9007199254740993) 2000000 []"

lemma demo_large_eq:
  "demo_large = (Inr (new_record demo_observation_env (demo_body 9007199254740993) 2000000, True),
     [saved_observation (new_record demo_observation_env (demo_body 9007199254740993) 2000000)])"
  using put_outcome [OF demo_ok demo_valid, of "9007199254740993" 2000000]
  by (simp add: demo_large_def Let_def new_record_key demo_body_def row_at_def storable_def isfinite_overflows_def demo_observation_env_def)

theorem repeated_submission_witness:
  "put_observation demo_observation_env (\<lambda>_. []) (demo_body 9007199254740993) 3000000 (snd demo_large) =
     (Inl Observation_Timestamp_Conflict, snd demo_large)"
proof -
  have s: "put_observation demo_observation_env (\<lambda>_. []) (demo_body 9007199254740993) 2000000 [] = (fst demo_large, snd demo_large)"
    by (simp add: demo_large_def)
  have "snd demo_large \<noteq> []" by (simp add: demo_large_eq)
  from repeated_submission [OF demo_ok demo_valid s this, of 3000000] show ?thesis
    by (simp add: demo_body_def value_eq_def saved_number_def double_of_large)
qed

definition demo_repeat :: "(observation_error + observation \<times> bool) \<times> observation list" where
  "demo_repeat = put_observation demo_observation_env (\<lambda>n. if n = 7 then [Purge 0 500] else []) (demo_body 7) 3000000 (snd demo_large)"

theorem observations_never_go_back_witness:
  "\<exists>m\<le>8. \<exists>seen. seen = history (run_observations demo_observation_env)
       (concat (map (\<lambda>n. if n = 7 then [Purge 0 500] else []) (rev [m..<8]))) (snd demo_large) \<and>
     (isl (fst demo_repeat) \<and> snd demo_repeat = seen \<or> (\<exists>c. fst demo_repeat = Inr (c, False)) \<or>
      (\<exists>c. fst demo_repeat = Inr (c, True) \<and> row_at o_identity_key (o_identity_key c) seen = None))"
proof -
  have "distinct (map o_identity_key (snd demo_large))" by (simp add: demo_large_eq)
  from observations_never_go_back [OF this, of demo_observation_env "\<lambda>n. if n = 7 then [Purge 0 500] else []" "demo_body 7"
      3000000 "fst demo_repeat" "snd demo_repeat"]
  show ?thesis by (fastforce simp: demo_repeat_def)
qed

theorem observations_bounded_and_readable_witness:
  "observations_ok demo_observation_env (history (run_observations demo_observation_env)
     [Swap (new_record demo_observation_env (demo_body 7) 2000000) None, Purge 0 500] [])"
proof -
  have "list_all (submitted demo_observation_env) [Swap (new_record demo_observation_env (demo_body 7) 2000000) None, Purge 0 500]"
    using demo_valid [of 7] by (auto simp: submitted_def)
  from observations_bounded_and_readable [OF demo_ok this] show ?thesis .
qed

theorem expire_round_removes_expired_witness:
  "expire_round 1 70000000 (snd demo_large) = []"
proof -
  have "distinct (map o_identity_key (snd demo_large))" by (simp add: demo_large_eq)
  from expire_round_removes_expired [OF this, of 1 70000000] show ?thesis
    by (simp add: demo_large_eq new_record_key demo_body_def)
qed

end
