(* ===== verification/Log_Sources.thy ===== *)
theory Log_Sources
  imports Latest_Values Py_Text
begin

text \<open>
  The registered log files of an agent: \<open>logs/models.py\<close>, \<open>logs/service.py\<close>, \<open>storage/log_sources.py\<close> and the path
  policy of \<open>logs/policy.py\<close>.  The file system is a parameter: what a path resolves to and what it names may change from
  one call to the next, so every answer depends on the number of calls made.
\<close>

section \<open>Data\<close>

record log_source_input =
  li_path :: string
  li_last_updated :: instant
  li_observed_at :: instant
  li_ttl_seconds :: int

record log_source =
  ls_id :: string
  ls_path :: string
  ls_last_updated :: instant
  ls_observed_at :: instant
  ls_ttl_seconds :: int
  ls_received_at :: instant
  ls_expires_at :: instant
  ls_producer_id :: string
  ls_updated_at :: instant

datatype log_error =
    Log_Invalid | Log_In_Future | Log_Source_Expired | Stale_Log_Source | Log_Timestamp_Conflict
  | Log_Storage_Unavailable | Log_Storage_Contention | Log_Path_Forbidden | Log_File_Unavailable | Log_Source_Not_Found | Log_Os_Error

text \<open>
  The answers of the operating system, by the number of the call: \<open>Path.resolve(strict=True)\<close>, the identity of the file
  a path names with whether it is regular, \<open>os.open\<close> and \<open>/proc/self/fd\<close> (\<open>None\<close>: there is no such directory).
\<close>

record file_system =
  fs_resolve :: "nat \<Rightarrow> string \<Rightarrow> string option"
  fs_stat :: "nat \<Rightarrow> string \<Rightarrow> (nat \<times> bool) option"
  fs_open :: "nat \<Rightarrow> string \<Rightarrow> (nat \<times> bool) option"
  fs_proc_path :: "nat \<Rightarrow> nat \<Rightarrow> string option option"

definition log_id_re :: "string \<Rightarrow> bool" where
  "log_id_re s \<longleftrightarrow> (case s of [] \<Rightarrow> False
     | c # cs \<Rightarrow> is_lower c \<and> length cs \<le> 126 \<and> list_all (\<lambda>c. is_lower c \<or> is_digit c \<or> c \<in> set ''_.-'') cs)"

definition is_absolute :: "string \<Rightarrow> bool" where
  "is_absolute p \<longleftrightarrow> (case p of c # _ \<Rightarrow> c = CHR ''/'' | [] \<Rightarrow> False)"

definition valid_log_input :: "log_source_input \<Rightarrow> bool" where
  "valid_log_input i \<longleftrightarrow> CHR 0x00 \<notin> set (li_path i) \<and> is_absolute (li_path i) \<and> 1 \<le> li_ttl_seconds i \<and> li_ttl_seconds i \<le> 604800"

section \<open>Paths\<close>

definition path_parts :: "string \<Rightarrow> string list" where
  "path_parts p = filter (\<lambda>s. s \<noteq> [] \<and> s \<noteq> ''.'') (split_on (CHR ''/'') p)"

text \<open>\<open>os.path.normpath\<close> of an absolute path\<close>

definition norm_parts :: "string \<Rightarrow> string list" where
  "norm_parts p = fold (\<lambda>s acc. if s = ''..'' then butlast acc else acc @ [s]) (path_parts p) []"

definition normpath :: "string \<Rightarrow> string" where
  "normpath p =
     (let slashes = (if take 2 p = ''//'' \<and> take 3 p \<noteq> ''///'' then ''//'' else ''/'') in slashes @ join_with ''/'' (norm_parts p))"

text \<open>\<open>path.is_relative_to(root)\<close> for absolute paths\<close>

definition is_relative_to :: "string \<Rightarrow> string \<Rightarrow> bool" where
  "is_relative_to p parent \<longleftrightarrow> take (length (path_parts parent)) (path_parts p) = path_parts parent"

definition policy_contains :: "string list \<Rightarrow> string \<Rightarrow> bool" where
  "policy_contains roots p \<longleftrightarrow> list_ex (is_relative_to p) roots"

definition resolve_regular_file ::
  "string list \<Rightarrow> file_system \<Rightarrow> string \<Rightarrow> nat \<Rightarrow> (log_error + string) \<times> nat" where
  "resolve_regular_file roots fs p n = (case fs_resolve fs n p of
     None \<Rightarrow> (Inl Log_File_Unavailable, n + 1)
   | Some resolved \<Rightarrow>
       if \<not> policy_contains roots resolved then (Inl Log_Path_Forbidden, n + 1)
       else (case fs_stat fs (n + 1) resolved of
           None \<Rightarrow> (Inl Log_File_Unavailable, n + 2)
         | Some (_, regular) \<Rightarrow> (if regular then Inr resolved else Inl Log_File_Unavailable, n + 2)))"

section \<open>Repository\<close>

definition saved_source :: "log_source \<Rightarrow> log_source" where
  "saved_source r = r\<lparr>ls_producer_id := ''local''\<rparr>"

definition source_reconstitute :: "log_source \<Rightarrow> log_source option" where
  "source_reconstitute r =
     (let span = ls_expires_at r - ls_observed_at r in
      if log_id_re (ls_id r) \<and> normpath (ls_path r) = ls_path r \<and> span mod 1000000 = 0 \<and>
         valid_log_input \<lparr>li_path = ls_path r, li_last_updated = ls_last_updated r, li_observed_at = ls_observed_at r,
           li_ttl_seconds = span div 1000000\<rparr> \<and> ls_producer_id r = ''local''
      then Some (r\<lparr>ls_ttl_seconds := span div 1000000\<rparr>) else None)"

definition source_get :: "string \<Rightarrow> log_source list \<Rightarrow> log_error + log_source option" where
  "source_get k rows = (case row_at ls_id k rows of
     None \<Rightarrow> Inr None
   | Some r \<Rightarrow> (case source_reconstitute r of None \<Rightarrow> Inl Log_Storage_Unavailable | Some x \<Rightarrow> Inr (Some x)))"

definition source_swap :: "log_source \<Rightarrow> instant option \<Rightarrow> log_source list \<Rightarrow> log_error + bool \<times> log_source list" where
  "source_swap r expected rows = (case expected of
     None \<Rightarrow>
       if \<exists>x\<in>set rows. ls_id x = ls_id r then Inr (False, rows) else Inr (True, rows @ [saved_source r])
   | Some t \<Rightarrow>
       let P = (\<lambda>x. ls_id x = ls_id r \<and> ls_observed_at x = t) in Inr (rowcount P rows = 1, sql_update P (\<lambda>_. saved_source r) rows))"

definition source_list :: "log_source list \<Rightarrow> log_error + log_source list" where
  "source_list rows = (let sorted = map source_reconstitute (sort_key ls_id rows) in
     if None \<in> set sorted then Inl Log_Storage_Unavailable else Inr (map the sorted))"

definition source_counts :: "instant \<Rightarrow> log_source list \<Rightarrow> nat \<times> nat" where
  "source_counts now rows = (length rows, rowcount (\<lambda>r. ls_expires_at r \<le> now) rows)"

definition source_delete_expired :: "instant \<Rightarrow> nat \<Rightarrow> log_source list \<Rightarrow> nat \<times> log_source list" where
  "source_delete_expired = delete_first ls_id ls_expires_at"

section \<open>Service\<close>

definition run_sources :: "log_source store_op \<Rightarrow> log_source list \<Rightarrow> log_error + unit \<times> log_source list" where
  "run_sources = run_store source_swap source_delete_expired"

definition same_source :: "log_source \<Rightarrow> log_source \<Rightarrow> bool" where
  "same_source a b \<longleftrightarrow> ls_path a = ls_path b \<and> ls_last_updated a = ls_last_updated b \<and> ls_observed_at a = ls_observed_at b \<and>
     ls_ttl_seconds a = ls_ttl_seconds b"

definition new_source :: "string \<Rightarrow> string \<Rightarrow> log_source_input \<Rightarrow> instant \<Rightarrow> log_source" where
  "new_source log_id path i now = \<lparr>ls_id = log_id, ls_path = path, ls_last_updated = li_last_updated i, ls_observed_at = li_observed_at i,
     ls_ttl_seconds = li_ttl_seconds i, ls_received_at = now, ls_expires_at = li_observed_at i + li_ttl_seconds i * 1000000,
     ls_producer_id = ''local'', ls_updated_at = now\<rparr>"

definition source_upsert ::
  "string list \<Rightarrow> file_system \<Rightarrow> (nat \<Rightarrow> log_source store_op list) \<Rightarrow> string \<Rightarrow> log_source_input \<Rightarrow> instant \<Rightarrow> log_source list \<Rightarrow>
   (log_error + log_source \<times> bool) \<times> log_source list" where
  "source_upsert roots fs others log_id i now rows =
     (if \<not> valid_log_input i \<or> \<not> log_id_re log_id then (Inl Log_Invalid, rows)
      else if now + 60 * 1000000 < li_observed_at i then (Inl Log_In_Future, rows)
      else case fst (resolve_regular_file roots fs (li_path i) 0) of
          Inl e \<Rightarrow> (Inl e, rows)
        | Inr path \<Rightarrow>
            let candidate = new_source log_id path i now in
            if ls_expires_at candidate \<le> now then (Inl Log_Source_Expired, rows)
            else cas_attempts source_get source_swap ls_id ls_observed_at same_source Stale_Log_Source Log_Timestamp_Conflict
              Log_Storage_Contention (\<lambda>n. history run_sources (others n)) 8 candidate rows)"

definition source_is_stale :: "log_source \<Rightarrow> instant \<Rightarrow> bool" where
  "source_is_stale r now \<longleftrightarrow> ls_expires_at r \<le> now"

definition source_service_get :: "string \<Rightarrow> instant \<Rightarrow> bool \<Rightarrow> log_source list \<Rightarrow> log_error + log_source option" where
  "source_service_get log_id now include_stale rows =
     (if \<not> log_id_re log_id then Inl Log_Invalid
      else case source_get log_id rows of
        Inl e \<Rightarrow> Inl e
      | Inr None \<Rightarrow> Inr None
      | Inr (Some r) \<Rightarrow> Inr (if \<not> include_stale \<and> source_is_stale r now then None else Some r))"

definition source_service_list :: "instant \<Rightarrow> bool \<Rightarrow> log_source list \<Rightarrow> log_error + log_source list" where
  "source_service_list now include_stale rows =
     map_sum id (\<lambda>rs. if include_stale then rs else filter (\<lambda>r. \<not> source_is_stale r now) rs) (source_list rows)"

section \<open>Laws\<close>

interpretation source_rows: keyed_table ls_id "\<lambda>rows. distinct (map ls_id rows)"
  by unfold_locales simp

interpretation sources: latest_values ls_id ls_observed_at ls_expires_at saved_source source_swap
proof
  fix r t rows rows'
  show "source_swap r None rows = Inr (True, rows') \<Longrightarrow> ls_id r \<notin> ls_id ` set rows \<and> rows' = rows @ [saved_source r]"
    by (auto simp: source_swap_def split: if_splits)
  show "source_swap r (Some t) rows = Inr (True, rows') \<Longrightarrow> (\<exists>x\<in>set rows. ls_id x = ls_id r \<and> ls_observed_at x = t) \<and>
      rows' = sql_update (\<lambda>x. ls_id x = ls_id r \<and> ls_observed_at x = t) (\<lambda>_. saved_source r) rows"
    by (auto simp: source_swap_def Let_def dest: rowcount_pos)
  show "distinct (map ls_id rows) \<Longrightarrow> source_swap r expected rows = Inr (False, rows') \<Longrightarrow> rows' = rows" for expected
    using source_rows.rowcount_key_1 [of rows "ls_id r"]
    by (cases expected) (auto simp: source_swap_def Let_def sql_update_none split: if_splits)
qed (simp_all add: saved_source_def)

text \<open>As for the observations: a source is replaced only by one observed later, whatever the others commit meanwhile.\<close>

lemma sources_never_go_back:
  assumes "distinct (map ls_id rows)" and "source_upsert roots fs others log_id i now rows = (r, rows')" and "\<not> isl r"
  shows "\<exists>m\<le>8. \<exists>seen c. seen = history run_sources (concat (map others (rev [m..<8]))) rows \<and>
    sources.outcome source_get same_source c seen r rows'"
proof -
  obtain c where "cas_attempts source_get source_swap ls_id ls_observed_at same_source Stale_Log_Source Log_Timestamp_Conflict
      Log_Storage_Contention (\<lambda>n. history run_sources (others n)) 8 c rows = (r, rows')"
    using assms(2,3) by (auto simp: source_upsert_def Let_def split: if_splits sum.splits)
  from sources.attempts_outcome [OF this [unfolded run_sources_def source_delete_expired_def] assms(1)]
  show ?thesis unfolding run_sources_def source_delete_expired_def by blast
qed

end
