(* ===== verification/Log_Tail.thy ===== *)
theory Log_Tail
  imports Log_Sources Py_Utf8
begin

text \<open>
  \<open>LogTailReader\<close> of \<open>logs/policy.py\<close> and \<open>tail\<close> of \<open>logs/service.py\<close>: opening a registered log file inside the allowed
  directories although the file system changes underneath, and cutting the end of it down to the limits on lines, bytes
  and serialised size.  The binary searches are shown to find the longest part that fits.
\<close>

section \<open>Cutting\<close>

definition json_char_size :: "nat \<Rightarrow> nat" where
  "json_char_size c = (if c \<in> {34, 92, 10, 13, 9, 12, 8} then 2 else if c < 32 then 6 else length (utf8_char c))"

definition json_text_size :: "unicode \<Rightarrow> nat" where
  "json_text_size t = 2 + sum_list (map json_char_size t)"

text \<open>The size of \<open>json.dumps(lines, ensure_ascii=False, separators=(",", ":"))\<close>\<close>

definition serialized_lines_size :: "unicode list \<Rightarrow> nat" where
  "serialized_lines_size lines = 2 + sum_list (map json_text_size lines) + (length lines - 1)"

definition serialized_lines_budget :: nat where
  "serialized_lines_budget = 1024 * 1024 - 16 * 1024"

function bisect :: "(nat \<Rightarrow> bool) \<Rightarrow> nat \<Rightarrow> nat \<Rightarrow> nat" where
  "bisect fits low high =
     (if low < high
      then let midpoint = (low + high) div 2 in if fits midpoint then bisect fits low midpoint else bisect fits (midpoint + 1) high
      else low)"
  by pat_completeness auto
termination
  by (relation "measure (\<lambda>(fits, low, high). high - low)") auto

declare bisect.simps [simp del]

definition fit_utf8_suffix :: "unicode \<Rightarrow> nat \<Rightarrow> unicode \<times> bool" where
  "fit_utf8_suffix t max_bytes =
     (if byte_length t \<le> max_bytes then (t, False)
      else (drop (bisect (\<lambda>m. byte_length (drop m t) \<le> max_bytes) 0 (length t)) t, True))"

definition fit_json_budget :: "unicode list \<Rightarrow> unicode list \<times> bool" where
  "fit_json_budget lines =
     (let fits = (\<lambda>ls. serialized_lines_size ls \<le> serialized_lines_budget) in
      if lines = [] \<or> fits lines then (lines, False)
      else if fits [last lines]
      then (drop (bisect (\<lambda>m. fits (drop m lines)) 1 (length lines - 1)) lines, True)
      else ([drop (bisect (\<lambda>m. fits [drop m (last lines)]) 0 (length (last lines))) (last lines)], True))"

section \<open>Lines\<close>

definition line_break :: "nat \<Rightarrow> bool" where
  "line_break c \<longleftrightarrow> c \<in> {10, 11, 12, 13, 28, 29, 30, 0x85, 0x2028, 0x2029}"

definition after_break :: "nat \<Rightarrow> unicode \<Rightarrow> unicode" where
  "after_break c cs = (if c = 13 \<and> cs \<noteq> [] \<and> hd cs = 10 then tl cs else cs)"

function splitlines :: "unicode \<Rightarrow> unicode list" where
  "splitlines [] = []"
| "splitlines (c # cs) =
     (if line_break c then [] # splitlines (after_break c cs)
      else case splitlines cs of [] \<Rightarrow> [[c]] | l # ls \<Rightarrow> (c # l) # ls)"
  by pat_completeness auto
termination
  by (relation "measure length") (auto simp: after_break_def)

fun join_lines :: "unicode list \<Rightarrow> unicode" where
  "join_lines [] = []"
| "join_lines [l] = l"
| "join_lines (l # m # ls) = l @ 10 # join_lines (m # ls)"

section \<open>Reading\<close>

text \<open>An open file: its size, and what \<open>os.pread\<close> answers to the \<open>k\<close>-th call for an amount at a position.\<close>

record opened_file =
  of_size :: nat
  of_pread :: "nat \<Rightarrow> nat \<Rightarrow> nat \<Rightarrow> nat list"

function read_back :: "opened_file \<Rightarrow> nat \<Rightarrow> nat \<Rightarrow> nat \<Rightarrow> nat \<Rightarrow> nat \<Rightarrow> nat \<Rightarrow> nat list \<Rightarrow> nat \<times> nat \<times> nat list" where
  "read_back f byte_limit lines k position bytes_read newlines raw =
     (if 0 < position \<and> bytes_read < byte_limit \<and> newlines \<le> lines
      then
        let amount = min (min 65536 position) (byte_limit - bytes_read); chunk = of_pread f k amount (position - amount) in
        if chunk = [] then (position - amount, bytes_read, raw)
        else read_back f byte_limit lines (k + 1) (position - amount) (bytes_read + length chunk)
          (newlines + length (filter ((=) 10) chunk)) (chunk @ raw)
      else (position, bytes_read, raw))"
  by pat_completeness auto
termination
  by (relation "measure (\<lambda>(f, byte_limit, lines, k, position, bytes_read, newlines, raw). position)") auto

declare read_back.simps [simp del]

definition last_lines :: "nat \<Rightarrow> 'a list \<Rightarrow> 'a list" where
  "last_lines n xs = drop (length xs - n) xs"

definition fit_content :: "unicode list \<Rightarrow> nat \<Rightarrow> unicode list \<times> bool" where
  "fit_content selected byte_limit =
     (if byte_limit < byte_length (join_lines selected)
      then (drop (bisect (\<lambda>m. byte_length (join_lines (drop m selected)) \<le> byte_limit) 1 (length selected)) selected, True)
      else (selected, False))"

definition tail_lines :: "opened_file \<Rightarrow> nat \<Rightarrow> nat \<Rightarrow> unicode list \<times> bool" where
  "tail_lines f byte_limit lines =
     (let (position, bytes_read, raw) = read_back f byte_limit lines 0 (of_size f) 0 0 [];
          (decoded, byte_trimmed) = fit_utf8_suffix (utf8_replace raw) byte_limit;
          available = splitlines decoded;
          (content, content_trimmed) = fit_content (last_lines lines available) byte_limit;
          (selected, wire_trimmed) = fit_json_budget content in
      (selected, 0 < position \<or> lines < length available \<or> bytes_read < of_size f \<or> byte_trimmed \<or> content_trimmed \<or> wire_trimmed))"

text \<open>\<open>_open_verified\<close>: the descriptor is identified by its device and inode.\<close>

definition open_verified :: "string list \<Rightarrow> file_system \<Rightarrow> string \<Rightarrow> nat \<Rightarrow> (log_error + nat) \<times> nat" where
  "open_verified roots fs path n = (case resolve_regular_file roots fs path n of
     (Inl e, n1) \<Rightarrow> (Inl e, n1)
   | (Inr resolved, n1) \<Rightarrow> (case fs_open fs n1 resolved of
       None \<Rightarrow> (case resolve_regular_file roots fs path (n1 + 1) of
           (Inl e, n2) \<Rightarrow> (Inl e, n2) | (Inr _, n2) \<Rightarrow> (Inl Log_File_Unavailable, n2))
     | Some (inode, regular) \<Rightarrow>
         if \<not> regular then (Inl Log_File_Unavailable, n1 + 1)
         else (case resolve_regular_file roots fs path (n1 + 1) of
             (Inl e, n2) \<Rightarrow> (Inl e, n2)
           | (Inr verified, n2) \<Rightarrow>
               (case fs_stat fs n2 verified of
                  None \<Rightarrow> (Inl Log_Os_Error, n2 + 1)
                | Some (current, _) \<Rightarrow>
                    if current \<noteq> inode then (Inl Log_File_Unavailable, n2 + 1)
                    else (case fs_proc_path fs (n2 + 1) inode of
                        None \<Rightarrow> (Inr inode, n2 + 2)
                      | Some None \<Rightarrow> (Inl Log_Os_Error, n2 + 2)
                      | Some (Some opened) \<Rightarrow>
                          if policy_contains roots opened then (Inr inode, n2 + 2) else (Inl Log_Path_Forbidden, n2 + 2))))))"

definition read_tail ::
  "string list \<Rightarrow> file_system \<Rightarrow> (nat \<Rightarrow> opened_file) \<Rightarrow> nat \<Rightarrow> string \<Rightarrow> int \<Rightarrow> log_error + nat \<times> unicode list \<times> bool" where
  "read_tail roots fs files max_bytes path lines =
     (if \<not> (1 \<le> lines \<and> lines \<le> 1000) then Inl Log_Invalid
      else map_sum id (\<lambda>inode. (inode, tail_lines (files inode) max_bytes (nat lines))) (fst (open_verified roots fs path 0)))"

definition service_tail ::
  "string list \<Rightarrow> file_system \<Rightarrow> (nat \<Rightarrow> opened_file) \<Rightarrow> nat \<Rightarrow> string \<Rightarrow> int \<Rightarrow> instant \<Rightarrow> log_source list \<Rightarrow>
   log_error + log_source \<times> unicode list \<times> bool" where
  "service_tail roots fs files max_bytes log_id lines now rows = (case source_service_get log_id now True rows of
     Inl e \<Rightarrow> Inl e
   | Inr None \<Rightarrow> Inl Log_Source_Not_Found
   | Inr (Some r) \<Rightarrow>
       if source_is_stale r now then Inl Log_Source_Expired
       else map_sum id (\<lambda>(_, t). (r, t)) (read_tail roots fs files max_bytes (ls_path r) lines))"

section \<open>The binary search\<close>

fun longest_suffix :: "('a list \<Rightarrow> bool) \<Rightarrow> 'a list \<Rightarrow> 'a list" where
  "longest_suffix P [] = []"
| "longest_suffix P (x # xs) = (if P (x # xs) then x # xs else longest_suffix P xs)"

lemma bisect_spec:
  assumes "\<And>i. fits i \<Longrightarrow> fits (Suc i)" and "fits high" and "low \<le> high" and "\<forall>j<low. \<not> fits j"
  shows "fits (bisect fits low high) \<and> bisect fits low high \<le> high \<and> (\<forall>j < bisect fits low high. \<not> fits j)"
  using assms
proof (induction fits low high rule: bisect.induct)
  case (1 fits low high)
  note mono = "1.prems"(1) and top = "1.prems"(2) and below = "1.prems"(4)
  show ?case
  proof (cases "low < high")
    case True
    define m where "m = (low + high) div 2"
    have m: "low \<le> m" "m < high" using True by (simp_all add: m_def)
    have e: "bisect fits low high = (if fits m then bisect fits low m else bisect fits (m + 1) high)"
      using True by (simp add: bisect.simps [of fits low high] m_def)
    show ?thesis
    proof (cases "fits m")
      case fm: True
      then show ?thesis using "1.IH"(1) [OF True m_def fm mono fm m(1) below] m e by auto
    next
      case False
      have "fits k" if "j \<le> k" "fits j" for j k using that mono by (induction rule: dec_induct) auto
      then have "\<forall>j<m + 1. \<not> fits j" using False by (metis less_Suc_eq_le Suc_eq_plus1)
      then show ?thesis using "1.IH"(2) [OF True m_def False mono top _ _] m e by auto
    qed
  next
    case False
    then have "low = high" "bisect fits low high = low" using "1.prems"(3) unfolding bisect.simps [of fits low high] by simp_all
    then show ?thesis using top below by simp
  qed
qed

lemma longest_suffix_drop:
  "i \<le> length xs \<Longrightarrow> P (drop i xs) \<Longrightarrow> \<forall>j<i. \<not> P (drop j xs) \<Longrightarrow> longest_suffix P xs = drop i xs"
proof (induction xs arbitrary: i)
  case (Cons x xs)
  show ?case
  proof (cases i)
    case 0
    then show ?thesis using Cons.prems(2) by simp
  next
    case (Suc n)
    then have "\<forall>j<n. \<not> P (drop j xs)" using Cons.prems(3) by (metis Suc_less_eq drop_Suc_Cons)
    moreover have "\<not> P (x # xs)" using Cons.prems(3) Suc by (metis drop0 zero_less_Suc)
    ultimately show ?thesis using Cons.IH [of n] Cons.prems Suc by simp
  qed
qed simp

text \<open>A property that holds of every part of what has it is found by the search.\<close>

lemma bisect_longest:
  assumes "\<And>x xs. P (x # xs) \<Longrightarrow> P xs" and "P (drop high xs)" and "low \<le> high" and "high \<le> length xs" and "\<forall>j<low. \<not> P (drop j xs)"
  shows "drop (bisect (\<lambda>m. P (drop m xs)) low high) xs = longest_suffix P xs"
proof -
  have "P (drop (Suc i) xs)" if "P (drop i xs)" for i
    using that assms(1) by (cases "i < length xs") (metis Cons_nth_drop_Suc, simp)
  from bisect_spec [of "\<lambda>m. P (drop m xs)", OF this assms(2,3,5)] show ?thesis
    using longest_suffix_drop [of _ xs P] assms(4) by (metis le_trans)
qed

lemma json_size_Cons: "serialized_lines_size ls \<le> serialized_lines_size (l # ls)"
  by (cases ls) (simp_all add: serialized_lines_size_def)

lemma json_size_last: "xs \<noteq> [] \<Longrightarrow> serialized_lines_size [last xs] \<le> serialized_lines_size xs"
proof (induction xs)
  case (Cons x xs)
  then show ?case using json_size_Cons [of xs x] by (cases xs) auto
qed simp

lemma json_size_text: "serialized_lines_size [t] \<le> serialized_lines_size [c # t]"
  by (simp add: serialized_lines_size_def json_text_size_def)

lemma join_size_Cons: "byte_length (join_lines ls) \<le> byte_length (join_lines (l # ls))"
  by (cases ls) simp_all

lemma longest_suffix_whole: "P xs \<Longrightarrow> longest_suffix P xs = xs"
  by (cases xs) simp_all

lemma utf8_cut: "fit_utf8_suffix t limit = (longest_suffix (\<lambda>s. byte_length s \<le> limit) t, limit < byte_length t)"
proof (cases "byte_length t \<le> limit")
  case True
  then show ?thesis by (simp add: fit_utf8_suffix_def longest_suffix_whole)
next
  case False
  have "drop (bisect (\<lambda>m. byte_length (drop m t) \<le> limit) 0 (length t)) t = longest_suffix (\<lambda>s. byte_length s \<le> limit) t"
    by (rule bisect_longest [where P = "\<lambda>s. byte_length s \<le> limit"]) simp_all
  then show ?thesis using False by (simp add: fit_utf8_suffix_def)
qed

lemma content_cut:
  "fit_content ls limit = (longest_suffix (\<lambda>s. byte_length (join_lines s) \<le> limit) ls, limit < byte_length (join_lines ls))"
proof (cases "byte_length (join_lines ls) \<le> limit")
  case True
  then show ?thesis by (simp add: fit_content_def longest_suffix_whole)
next
  case False
  then have "ls \<noteq> []" by auto
  then have "1 \<le> length ls" by (cases ls) simp_all
  then have "drop (bisect (\<lambda>m. byte_length (join_lines (drop m ls)) \<le> limit) 1 (length ls)) ls =
      longest_suffix (\<lambda>s. byte_length (join_lines s) \<le> limit) ls"
    using False le_trans [OF join_size_Cons]
    by (intro bisect_longest [where P = "\<lambda>s. byte_length (join_lines s) \<le> limit"]) auto
  then show ?thesis using False by (simp add: fit_content_def)
qed

lemma json_cut:
  "fit_json_budget ls =
     (if ls = [] \<or> serialized_lines_size [last ls] \<le> serialized_lines_budget
      then longest_suffix (\<lambda>s. serialized_lines_size s \<le> serialized_lines_budget) ls
      else [longest_suffix (\<lambda>s. serialized_lines_size [s] \<le> serialized_lines_budget) (last ls)],
      ls \<noteq> [] \<and> serialized_lines_budget < serialized_lines_size ls)"
proof -
  let ?P = "\<lambda>s. serialized_lines_size s \<le> serialized_lines_budget"
  consider "ls = [] \<or> ?P ls" | "ls \<noteq> []" "\<not> ?P ls" "?P [last ls]" | "ls \<noteq> []" "\<not> ?P ls" "\<not> ?P [last ls]" by blast
  then show ?thesis
  proof cases
    case 1
    then show ?thesis using json_size_last [of ls] by (auto simp: fit_json_budget_def longest_suffix_whole)
  next
    case 2
    have n: "length ls \<noteq> 1" using 2 by (auto simp: length_Suc_conv)
    then have "1 \<le> length ls - 1" using 2(1) by (cases ls) (auto simp: Suc_le_eq)
    moreover have "drop (length ls - 1) ls = [last ls]" using 2(1) by (metis One_nat_def append_butlast_last_id append_eq_conv_conj length_butlast)
    ultimately have "drop (bisect (\<lambda>m. ?P (drop m ls)) 1 (length ls - 1)) ls = longest_suffix ?P ls"
      using 2 le_trans [OF json_size_Cons] by (intro bisect_longest [where P = ?P]) auto
    then show ?thesis using 2 by (simp add: fit_json_budget_def Let_def)
  next
    case 3
    have "drop (bisect (\<lambda>m. ?P [drop m (last ls)]) 0 (length (last ls))) (last ls) = longest_suffix (\<lambda>s. ?P [s]) (last ls)"
      using le_trans [OF json_size_text]
      by (intro bisect_longest [where P = "\<lambda>s. ?P [s]"])
        (auto simp: serialized_lines_size_def json_text_size_def serialized_lines_budget_def)
    then show ?thesis using 3 by (simp add: fit_json_budget_def Let_def)
  qed
qed

text \<open>
  \<open>C34\<close>.  The end of a log file is cut to the longest part that fits.  The three binary searches over characters, lines and
  characters of a single long line return exactly the longest suffix within the limit, and they report a cut exactly when
  the whole does not fit.
\<close>

theorem cuts_are_longest_suffixes:
  "fit_utf8_suffix t limit = (longest_suffix (\<lambda>s. byte_length s \<le> limit) t, limit < byte_length t) \<and>
   fit_content ls limit = (longest_suffix (\<lambda>s. byte_length (join_lines s) \<le> limit) ls, limit < byte_length (join_lines ls)) \<and>
   fit_json_budget ls =
     (if ls = [] \<or> serialized_lines_size [last ls] \<le> serialized_lines_budget
      then longest_suffix (\<lambda>s. serialized_lines_size s \<le> serialized_lines_budget) ls
      else [longest_suffix (\<lambda>s. serialized_lines_size [s] \<le> serialized_lines_budget) (last ls)],
      ls \<noteq> [] \<and> serialized_lines_budget < serialized_lines_size ls)"
  using utf8_cut content_cut json_cut by blast

section \<open>What a tail returns\<close>

lemma longest_suffix_prop:
  assumes "P []"
  shows "P (longest_suffix P xs) \<and> (\<exists>gone. xs = gone @ longest_suffix P xs)"
proof (induction xs)
  case (Cons x xs)
  then show ?case by (auto intro: exI [of _ "[]"]) (metis append_Cons)
qed (simp add: assms)

lemma join_size_append: "byte_length (join_lines ys) \<le> byte_length (join_lines (xs @ ys))"
proof (induction xs)
  case (Cons x xs)
  then show ?case using join_size_Cons [of "xs @ ys" x] by simp
qed simp

lemma json_cut_fits:
  assumes "fit_json_budget ls = (selected, was_cut)" and "byte_length (join_lines ls) \<le> limit"
  shows "serialized_lines_size selected \<le> serialized_lines_budget \<and> byte_length (join_lines selected) \<le> limit \<and>
    length selected \<le> length ls \<and> (\<not> was_cut \<longrightarrow> selected = ls)"
proof (cases "ls = [] \<or> serialized_lines_size [last ls] \<le> serialized_lines_budget")
  case True
  let ?P = "\<lambda>s. serialized_lines_size s \<le> serialized_lines_budget"
  have "?P []" by (simp add: serialized_lines_size_def serialized_lines_budget_def)
  from longest_suffix_prop [of ?P, OF this, of ls] obtain gone where g: "?P (longest_suffix ?P ls)" "ls = gone @ longest_suffix ?P ls" by blast
  have s: "selected = longest_suffix ?P ls" "was_cut \<longleftrightarrow> ls \<noteq> [] \<and> \<not> ?P ls" using assms(1) True json_cut [of ls] by auto
  have "byte_length (join_lines (longest_suffix ?P ls)) \<le> byte_length (join_lines ls)" using join_size_append g(2) by metis
  moreover have "length (longest_suffix ?P ls) \<le> length ls" using g(2) by (metis length_append le_add2)
  moreover have "longest_suffix ?P ls = ls" if "\<not> was_cut" using that s(2) longest_suffix_whole [of ?P ls] \<open>?P []\<close> by auto
  ultimately show ?thesis using g(1) s(1) assms(2) by auto
next
  case False
  let ?P = "\<lambda>s. serialized_lines_size [s] \<le> serialized_lines_budget"
  have "?P []" by (simp add: serialized_lines_size_def json_text_size_def serialized_lines_budget_def)
  from longest_suffix_prop [of ?P, OF this, of "last ls"] obtain gone where
    g: "?P (longest_suffix ?P (last ls))" "last ls = gone @ longest_suffix ?P (last ls)" by blast
  have "serialized_lines_budget < serialized_lines_size ls" using json_size_last [of ls] False by linarith
  then have s: "selected = [longest_suffix ?P (last ls)]" "was_cut" using assms(1) False json_cut [of ls] by auto
  have "byte_length (last ls) \<le> byte_length (join_lines ls)"
    using join_size_append [of "[last ls]" "butlast ls"] False by simp
  moreover have "byte_length (longest_suffix ?P (last ls)) \<le> byte_length (last ls)"
    using g(2) by (metis byte_length_simps(3) le_add2)
  moreover have "1 \<le> length ls" using False by (cases ls) auto
  ultimately show ?thesis using g(1) s assms(2) by simp
qed

lemma read_back_all:
  assumes "\<And>k a p. of_pread f k a p = take a (drop p bytes)" and "position \<le> length bytes"
    and "read_back f limit lines k position bytes_read newlines raw = (position', bytes_read', raw')" and "raw = drop position bytes"
  shows "raw' = drop position' bytes"
  using assms
proof (induction f limit lines k position bytes_read newlines raw rule: read_back.induct)
  case (1 f limit lines k position bytes_read newlines raw)
  note pread = "1.prems"(1) and le = "1.prems"(2) and eq = "1.prems"(3) and raw = "1.prems"(4)
  show ?case
  proof (cases "0 < position \<and> bytes_read < limit \<and> newlines \<le> lines")
    case True
    define amount where "amount = min (min 65536 position) (limit - bytes_read)"
    define chunk where "chunk = of_pread f k amount (position - amount)"
    have a: "0 < amount" "amount \<le> position" using True by (auto simp: amount_def)
    have c: "chunk = take amount (drop (position - amount) bytes)" by (simp add: chunk_def pread)
    then have "chunk \<noteq> []" using a le by (auto simp: take_eq_Nil)
    moreover have "chunk @ raw = drop (position - amount) bytes"
      using a raw append_take_drop_id [of amount "drop (position - amount) bytes"] by (simp add: c)
    moreover have "read_back f limit lines (k + 1) (position - amount) (bytes_read + length chunk)
        (newlines + length (filter ((=) 10) chunk)) (chunk @ raw) = (position', bytes_read', raw')"
      using eq True \<open>chunk \<noteq> []\<close> unfolding read_back.simps [of f limit lines k position] Let_def amount_def chunk_def by simp
    ultimately show ?thesis using "1.IH" [OF True amount_def chunk_def] pread le by simp
  next
    case False
    then show ?thesis using eq raw unfolding read_back.simps [of f limit lines k position] by auto
  qed
qed

text \<open>
  \<open>C33\<close>.  What a tail returns.  At most the requested number of lines, within the limit on bytes and within the budget of the
  response; and when it is not marked as truncated, it is the whole file: the lines of everything in it, decoded.
\<close>

theorem tail_is_bounded_and_complete:
  assumes "tail_lines f limit lines = (selected, truncated)"
  shows "length selected \<le> lines \<and> byte_length (join_lines selected) \<le> limit \<and>
    serialized_lines_size selected \<le> serialized_lines_budget \<and>
    (\<not> truncated \<longrightarrow> (\<forall>bytes. of_size f = length bytes \<longrightarrow> (\<forall>k a p. of_pread f k a p = take a (drop p bytes)) \<longrightarrow>
       selected = splitlines (utf8_replace bytes)))"
proof -
  obtain position bytes_read raw where r: "read_back f limit lines 0 (of_size f) 0 0 [] = (position, bytes_read, raw)"
    by (metis prod_cases3)
  obtain decoded byte_trimmed where d: "fit_utf8_suffix (utf8_replace raw) limit = (decoded, byte_trimmed)" by fastforce
  define available where "available = splitlines decoded"
  obtain content content_trimmed where c: "fit_content (last_lines lines available) limit = (content, content_trimmed)" by fastforce
  obtain wire_trimmed where w: "fit_json_budget content = (selected, wire_trimmed)"
    and t: "truncated \<longleftrightarrow> 0 < position \<or> lines < length available \<or> bytes_read < of_size f \<or> byte_trimmed \<or> content_trimmed \<or> wire_trimmed"
    using assms r d c by (auto simp: tail_lines_def available_def split: prod.splits)
  let ?P = "\<lambda>s. byte_length (join_lines s) \<le> limit"
  have "?P []" by simp
  from longest_suffix_prop [of ?P, OF this, of "last_lines lines available"]
  obtain gone where g: "?P content" "last_lines lines available = gone @ content" using c content_cut by auto
  have "length content \<le> length (last_lines lines available)" using g(2) by simp
  also have "\<dots> \<le> lines" by (simp add: last_lines_def)
  finally have n: "length content \<le> lines" .
  note j = json_cut_fits [OF w g(1)]
  have "selected = splitlines (utf8_replace bytes)"
    if "\<not> truncated" "of_size f = length bytes" "\<forall>k a p. of_pread f k a p = take a (drop p bytes)" for bytes
  proof -
    have "raw = drop position bytes"
      using read_back_all [OF _ _ r, of bytes] that(2,3) by simp
    then have "raw = bytes" using that(1) t by simp
    moreover have "decoded = utf8_replace raw" using that(1) t d by (auto simp: fit_utf8_suffix_def split: if_splits)
    moreover have "content = available" using that(1) t c by (auto simp: fit_content_def last_lines_def split: if_splits)
    ultimately show ?thesis using j that(1) t by (simp add: available_def)
  qed
  then show ?thesis using j n by auto
qed

theorem tail_is_bounded_and_complete_witness:
  "tail_lines \<lparr>of_size = 4, of_pread = (\<lambda>_ a p. take a (drop p [104, 10, 195, 169]))\<rparr> 100 2 = ([[104], [233]], False) \<and>
   [[104], [233]] = splitlines (utf8_replace [104, 10, 195, 169])"
proof -
  let ?f = "\<lparr>of_size = 4, of_pread = (\<lambda>_ a p. take a (drop p [104, 10, 195, 169]))\<rparr>"
  have t: "tail_lines ?f 100 2 = ([[104], [233]], False)"
    by (simp add: tail_lines_def read_back.simps fit_utf8_suffix_def fit_content_def fit_json_budget_def decode_sequence_def
        continuation_def line_break_def after_break_def Let_def last_lines_def utf8_char_def serialized_lines_size_def json_text_size_def json_char_size_def
        serialized_lines_budget_def)
  note c = tail_is_bounded_and_complete [OF t, THEN conjunct2, THEN conjunct2, THEN conjunct2]
  show ?thesis using t c [rule_format, of "[104, 10, 195, 169]"] by (simp del: splitlines.simps utf8_replace.simps)
qed

section \<open>Which file is read\<close>

lemma resolved_inside:
  assumes "resolve_regular_file roots fs path n = (Inr p, m)"
  shows "fs_resolve fs n path = Some p \<and> policy_contains roots p \<and> n \<le> m"
  using assms by (auto simp: resolve_regular_file_def split: option.splits if_splits)

text \<open>
  \<open>C32\<close>.  A tail reads inside the allowed directories only.  Whatever happens to the file system between the calls, the file
  whose lines are returned was a regular file when it was opened, under a path inside the allowed roots; after that the
  registered path resolved, again inside the roots, to a path that named this very file; and where the kernel tells the path
  of an open file, that path too lies inside the roots.  The source had not expired.
\<close>

theorem tail_reads_inside_roots:
  assumes "service_tail roots fs files max_bytes log_id lines now rows = Inr (r, result)"
  shows "now < ls_expires_at r \<and>
    (\<exists>inode opened verified i j k l regular. result = tail_lines (files inode) max_bytes (nat lines) \<and>
       policy_contains roots opened \<and> fs_open fs i opened = Some (inode, True) \<and>
       i < j \<and> fs_resolve fs j (ls_path r) = Some verified \<and> policy_contains roots verified \<and>
       j < k \<and> fs_stat fs k verified = Some (inode, regular) \<and>
       k < l \<and> (case fs_proc_path fs l inode of None \<Rightarrow> True | Some None \<Rightarrow> False | Some (Some p) \<Rightarrow> policy_contains roots p))"
proof -
  obtain inode where stale: "now < ls_expires_at r" and result: "result = tail_lines (files inode) max_bytes (nat lines)"
    and o: "fst (open_verified roots fs (ls_path r) 0) = Inr inode"
    using assms
    by (fastforce simp: service_tail_def read_tail_def source_is_stale_def map_sum_def split: sum.splits option.splits if_splits)
  obtain opened n1 where 1: "resolve_regular_file roots fs (ls_path r) 0 = (Inr opened, n1)"
    using o by (auto simp: open_verified_def split: prod.splits sum.splits)
  obtain verified n2 where 2: "fs_open fs n1 opened = Some (inode, True)" "resolve_regular_file roots fs (ls_path r) (n1 + 1) = (Inr verified, n2)"
    "\<exists>regular. fs_stat fs n2 verified = Some (inode, regular)"
    "case fs_proc_path fs (n2 + 1) inode of None \<Rightarrow> True | Some None \<Rightarrow> False | Some (Some p) \<Rightarrow> policy_contains roots p"
    using o 1 by (auto simp: open_verified_def split: prod.splits sum.splits option.splits if_splits)
  have "n1 + 1 < n2" using 2(2) by (auto simp: resolve_regular_file_def split: option.splits if_splits)
  then show ?thesis
    using stale result resolved_inside [OF 1] resolved_inside [OF 2(2)] 2(1,3,4)
    by (intro conjI exI [of _ inode] exI [of _ opened] exI [of _ verified] exI [of _ n1] exI [of _ "n1 + 1"] exI [of _ n2] exI [of _ "n2 + 1"]) auto
qed

definition demo_fs :: file_system where
  "demo_fs = \<lparr>fs_resolve = (\<lambda>_ p. Some p), fs_stat = (\<lambda>_ _. Some (1, True)), fs_open = (\<lambda>_ _. Some (1, True)),
     fs_proc_path = (\<lambda>_ _. Some (Some ''/var/log/a''))\<rparr>"

definition demo_source :: log_source where
  "demo_source = new_source ''a'' ''/var/log/a'' \<lparr>li_path = ''/var/log/a'', li_last_updated = 0, li_observed_at = 0, li_ttl_seconds = 60\<rparr> 5"

definition demo_file :: opened_file where
  "demo_file = \<lparr>of_size = 0, of_pread = (\<lambda>_ _ _. [])\<rparr>"

lemma demo_contains: "policy_contains [''/var/log''] ''/var/log/a''"
  by (simp add: policy_contains_def is_relative_to_def path_parts_def)

lemma demo_tail:
  "service_tail [''/var/log''] demo_fs (\<lambda>_. demo_file) 100 ''a'' 10 7 [demo_source] = Inr (demo_source, [], False)"
proof -
  have "source_reconstitute demo_source = Some demo_source"
    by (simp add: source_reconstitute_def demo_source_def new_source_def log_id_re_def is_lower_def normpath_def norm_parts_def
        path_parts_def valid_log_input_def is_absolute_def)
  then have g: "source_service_get ''a'' 7 True [demo_source] = Inr (Some demo_source)"
    by (simp add: source_service_get_def source_get_def row_at_def log_id_re_def is_lower_def demo_source_def new_source_def)
  have t: "tail_lines demo_file 100 10 = ([], False)"
    by (simp add: tail_lines_def demo_file_def read_back.simps fit_utf8_suffix_def fit_content_def fit_json_budget_def last_lines_def)
  have "fst (open_verified [''/var/log''] demo_fs ''/var/log/a'' 0) = Inr 1"
    by (simp add: open_verified_def resolve_regular_file_def demo_fs_def demo_contains)
  then show ?thesis using g t
    by (simp add: service_tail_def read_tail_def source_is_stale_def demo_source_def new_source_def)
qed

theorem tail_reads_inside_roots_witness:
  "7 < ls_expires_at demo_source \<and>
    (\<exists>inode opened verified i j k l regular. ([], False) = tail_lines demo_file 100 10 \<and>
       policy_contains [''/var/log''] opened \<and> fs_open demo_fs i opened = Some (inode, True) \<and>
       i < j \<and> fs_resolve demo_fs j (ls_path demo_source) = Some verified \<and> policy_contains [''/var/log''] verified \<and>
       j < k \<and> fs_stat demo_fs k verified = Some (inode, regular) \<and>
       k < l \<and> (case fs_proc_path demo_fs l inode of None \<Rightarrow> True | Some None \<Rightarrow> False
         | Some (Some p) \<Rightarrow> policy_contains [''/var/log''] p))"
  using tail_reads_inside_roots [OF demo_tail] by simp

end
