(* ===== verification/Spec2Isabelle.thy ===== *)
theory Spec2Isabelle
  imports Manager_System Credential_Properties Enrollment_Jobs Target_Properties Flow_Results Scan_Results
    Probe_Results Terminal_Results Observation_Properties Log_Tail
begin

text \<open>
  \<^bold>\<open>The program.\<close>  \<open>ic_env_guard\<close> runs in two roles.  A \<^emph>\<open>Manager\<close> keeps a registry of agents, enrolls
  new ones (over SSH, a CLI, a local socket, or from the results of a network scan), rotates and
  revokes their credentials and watches their status.  An \<^emph>\<open>Agent\<close> serves one host: it decides which
  Manager credentials it accepts, runs terminals and keeps the latest observations and log files of the host.  Both keep their state in SQLite and change it in
  \<open>BEGIN IMMEDIATE\<close> transactions; the Manager's components share one database file and are driven by
  concurrent request threads, recovery workers and restarts.  The development covers that core: what
  is stored, every operation that changes it, and the protocols that run over it.

  \<^bold>\<open>Theories and sources\<close> (paths below \<open>src/backend/ic_env_guard/\<close>).

  \<^item> \<open>Guard_Prelude\<close>: tables as lists of rows, the SQL statement forms over them, \<open>NULL\<close> comparisons;
    the locales \<open>keyed_table\<close> (what a primary key gives to \<open>UPDATE\<close> and \<open>SELECT\<close>) and
    \<open>txn_system\<close> (calls that keep an invariant; its lemmas carry it to every history of calls).
    \<open>Py_Text\<close>, \<open>Py_Utf8\<close>, \<open>Py_Json\<close>, \<open>Py_Url\<close>, \<open>Py_Ip\<close>, \<open>Ip_Roundtrip\<close>: what the sources use of Python's
    strings and UTF-8, \<open>json.dumps\<close>, \<open>urlsplit\<close> and \<open>ipaddress\<close>, written out as functions.
  \<^item> \<open>Fleet_Models\<close>: \<open>fleet/models.py\<close>, \<open>discovery/models.py\<close>, one record or datatype per class.
    \<open>Manager_Schema\<close>: the tables of \<open>control_plane_migrations\<close> at the current version with their
    constraints (\<open>db_ok\<close>) and the statements that respect them.
  \<^item> \<open>Enrollment_Validation\<close>, \<open>Mutation_Fence\<close>, \<open>Enrollment_Journal\<close>: \<open>storage/enrollment_journal.py\<close> and
    \<open>storage/mutation_fence.py\<close>; one definition per method.  \<open>Journal_Machine\<close> is their step relation
    (an inductive rule per \<open>UPDATE\<close>) with the refinement lemma that every method follows it;
    \<open>Journal_Properties\<close>, \<open>Journal_Lifecycle\<close>, \<open>Journal_Rotation\<close>: states, recovery claims and fencing
    tokens, capacity, credential rotation, discovery links; \<open>Journal_Samples\<close>: concrete states.
  \<^item> \<open>Enrollment_Jobs\<close>: \<open>enrollment/jobs.py\<close>, the API's calls, each a sequence of transactions.
  \<^item> \<open>Manager_Registry\<close>, \<open>Registry_Properties\<close>, \<open>Registry_Pages\<close>, \<open>Agent_Status\<close>:
    \<open>storage/manager_registry.py\<close> (agents, revisions, paging, status observations).
  \<^item> \<open>Removal_Journal\<close>: \<open>storage/removal_journal.py\<close>; \<open>Removal_Saga\<close>: \<open>_resume_removal\<close> of
    \<open>enrollment/orchestrator.py\<close>.
  \<^item> \<open>Recovery_Saga\<close>: \<open>recover\<close> of \<open>enrollment/orchestrator.py\<close> with everything it calls, \<open>prepare_pinned\<close> of
    \<open>enrollment/agent_client.py\<close> and the part of \<open>enrollment/credential_store.py\<close> it uses.
    \<open>Recovery_Properties\<close>: rules for runs under interference (\<open>runs P m Q\<close>) and what a claim holder
    knows of its job; \<open>Recovery_Order\<close>: the order of remote and file effects; \<open>Recovery_Completion\<close>:
    progress; \<open>Recovery_Results\<close>: the resulting properties and sample runs.
  \<^item> \<open>Enrollment_Flows\<close>, \<open>Agent_Updates\<close>: the flows of \<open>enrollment/orchestrator.py\<close> that issue and use a
    credential (automatic SSH with its audit, CLI submission, local bootstrap, legacy token, saving,
    updating an agent, start-up) with \<open>put\<close> and \<open>cleanup_orphans\<close> of the credential store.
    \<open>Flow_Properties\<close>: publishing and auditing; \<open>Flow_Safety\<close>: orphaned files, agent updates, receipts,
    a race of publication and recovery; \<open>Startup_Convergence\<close>; \<open>Flow_Results\<close>: sample runs.
  \<^item> \<open>Manager_Credentials\<close>, \<open>Credential_Properties\<close>: the agent's side, \<open>storage/manager_credentials.py\<close>,
    \<open>enrollment/models.py\<close> and \<open>enrollment/service.py\<close>.
  \<^item> \<open>Target_Policy\<close>, \<open>Target_Properties\<close>: \<open>fleet/target_policy.py\<close>, \<open>fleet/transport.py\<close>, which
    addresses the Manager may connect to.
  \<^item> \<open>Discovery_Store\<close>, \<open>Discovery_Properties\<close>: \<open>storage/discovery.py\<close>, scan jobs and their results.
  \<^item> \<open>Discovery_Service\<close>: \<open>discovery/service.py\<close>, the workers of a scan as steps that a schedule interleaves.
    \<open>Scan_Properties\<close>: what is probed, termination; \<open>Scan_Completion\<close>: the undisturbed scan;
    \<open>Discovery_Audit\<close>: \<open>discovery/audit.py\<close> and \<open>finalize_pending\<close> of \<open>db/control_plane_audit.py\<close>;
    \<open>Scan_Config\<close>: the discovery part of \<open>config/models.py\<close>; \<open>Scan_Results\<close>: sample scans.
  \<^item> \<open>Fleet_Probes\<close>, \<open>Probe_Properties\<close>, \<open>Probe_Results\<close>: \<open>fleet/probes.py\<close>, the derivations of \<open>fleet/status.py\<close>,
    \<open>fleet/registered_target.py\<close> and the credential gate of \<open>fleet/registry.py\<close>: how an agent is observed.
  \<^item> \<open>Terminal_Buffer\<close>: \<open>terminal/replay_buffer.py\<close>; \<open>Terminal_Sessions\<close>: \<open>terminal/manager.py\<close>,
    \<open>terminal/tickets.py\<close>, \<open>api/terminals.py\<close> and the handshake of \<open>api/terminal_ws.py\<close>.  \<open>Terminal_Properties\<close>:
    the locales \<open>terminal_upkeep\<close> and \<open>ticket_upkeep\<close> (what calls that only maintain sessions leave alone), output
    and tickets over whole runs; \<open>Terminal_Results\<close>: retention and sample runs.
  \<^item> \<open>Latest_Values\<close>: the locale \<open>latest_values\<close>, the contract of the two tables of latest values an agent keeps, with
    the compare-and-swap loop of their services.  \<open>Observation_Store\<close>, \<open>Observation_Properties\<close>: \<open>observations/\<close>,
    \<open>storage/observations.py\<close> and \<open>put_observation\<close> of \<open>api/ingest_observations.py\<close>.  \<open>Log_Sources\<close>, \<open>Log_Tail\<close>:
    \<open>logs/\<close> and \<open>storage/log_sources.py\<close>, registered log files and the reading of their ends.
  \<^item> \<open>Manager_System\<close>: all repositories of the Manager's database as one transaction system; this
    theory states the properties of the whole.

  \<^bold>\<open>How the model corresponds to the code.\<close>  A repository method is a function
  \<open>manager_db \<Rightarrow> registry_error + 'a \<times> manager_db\<close>: \<open>Inl\<close> is the raised exception, after which the
  transaction is rolled back, \<open>Inr\<close> the result with the committed database.  Guards, early returns and
  \<open>rowcount\<close> tests are in the order of the source, a constraint the statement would violate is the
  \<open>IntegrityError\<close> branch.  A \<open>history\<close> is a list of calls in the order SQLite serialises them, so a
  theorem about all histories is one about all interleavings.  Calls that span transactions
  (\<open>EnrollmentJobs\<close>, the recovery and the flows) take what others commit in between as a function argument;
  the removal saga, whose retries are the interleaving considered, returns the state that earlier steps left.  Instants are integers (microseconds): the code compares
  ISO texts of UTC times of one format, which order the same way.  Counters and revisions are unbounded
  integers, as Python's are.

  \<^bold>\<open>Parameters\<close> stand for what is not in the sources: SHA-256, \<open>uuid4\<close> and the token generator, the DNS
  resolver and the IDNA codec for non-ASCII names, whether a call of the credential store and the sync of its
  directory succeed, the answers of agents and helpers, when a task is cancelled, what other threads commit
  at each \<open>await\<close>, whether the audit log accepts an entry, the file system, the clock.  Loops are structural
  recursions or have a termination proof (the JSON depth check, paging).  Two exceptions: the page loop of
  a probe counts down from the number of agents, which is shown to be enough, and the loop that reads a
  terminal is a partial function, since a process may write without a pause.

  \<^bold>\<open>What is shown.\<close>  Of each component: that its calls keep the constraints of the schema its invariant states; what each
  operation returns and stores on every branch; the step relation its rows follow.  Of the protocols:
  a recovery claim has one holder and its revision is a fencing token, a stale holder writes nothing;
  terminal enrollments stay terminal, an enrollment is cancelled or saved at most once; the number of
  active enrollments is bounded; an agent fenced by a removal or rotation is not changed by anyone else;
  the phases a removal records are true of the world, and a removal that is not obstructed and whose token is
  still there completes; a discovery result linked to an open enrollment is not taken away;
  a revoked credential never authenticates again; the target policy accepts exactly the permitted
  endpoints, described by numeric ranges, and a target it pinned passes revalidation; discovery progress equals what is stored and a
  cancelled scan never completes; paging lists every agent once; a probe publishes an observation only for
  the identity the registry holds, an identity conflict blocks every agent involved, and the credential of a
  blocked agent is not released while the block stands; the history of a terminal is exactly what its sockets have been handed, a
  ticket opens one socket; a submission writes at most one row, over an older one or none, whatever happens meanwhile, and the table stays bounded and
  readable; the tail of a log comes from a file inside the allowed directories and is the longest part that fits,
  complete unless it says it is not; a scan probes only permitted targets, its workers end, undisturbed it
  covers the whole scope, and start-up leaves no ended scan without its audit outcome.  Of the flows: remote and file effects happen in the order that makes
  them recoverable, a saved enrollment without obstruction is registered, a credential is stored before
  the journal names it, automatic enrollment is audited, start-up leaves every job in the state its record calls for, the orphan
  sweep removes exactly the files that no agent and no open job names, an agent's update keeps its identity, a receipt admits exactly the accepted submission.
  Some theorems exhibit behaviour the code does not intend: a failed directory sync strands a removal, an activated credential is orphaned when
  its target is refused, an overtaken recovery run fails the job being saved, an expired CLI claim
  blocks new enrollments, legacy agents cannot be rotated, a scope id hides an IPv6 address from part of
  the target policy, a scan whose workers died of a storage fault counts as completed, a failing probe
  lifts the block on an agent whose identity changed and a probe under way that of an identity conflict, a
  terminal ended for idleness is never purged, a character that two reads share is lost, an observation whose
  integer no double represents cannot be repeated; and one the
  difference between the Python validation and the schema.

  \<^bold>\<open>Not modelled.\<close>  What others commit while the removal saga awaits the agent's answer, errors of plain reads in
  the enrollment flows and the semaphore that scans share are left out.  Of \<open>enrollment/orchestrator.py\<close> the public views and the time limit on
  compensation after a cancellation are left out; of the probes \<open>probe_all\<close>, the agents' own cache in
  \<open>agents/availability.py\<close> and the views of \<open>FleetStatusService\<close> and \<open>FleetRegistry\<close>; of the terminals
  \<open>read_until\<close> and two requests of the thread pool at once; of the observations and logs the parsing of timestamps,
  the read routes with their cursors and I/O errors on an open log file.  Socket, HTTP, SSH, systemd and PTY handling, the
  REST layer and the data-moving parts of the migrations are I/O or glue over other libraries and
  stay outside.
\<close>

section \<open>Properties that span components\<close>

text \<open>
  The invariant the other proofs rest on: however transactions of the journal, the registry, the
  status cache, the removal journal and the discovery repository interleave, the database satisfies the
  \<open>CHECK\<close>, \<open>UNIQUE\<close> and \<open>REFERENCES\<close> constraints in \<open>manager_ok\<close>, among them the reference from a discovery
  result to the enrollment it is linked to.  The modelled statements refuse a row that violates a
  constraint, as the database does, so this is a fact about the statements and not about the callers.
\<close>

lemma manager_history_keeps_schema:
  "manager_ok d \<Longrightarrow> manager_ok (history run_manager xs d)"
  by (rule manager.history_inv)

lemma manager_history_keeps_schema_witness:
  "manager_ok fleet_db \<and> manager_ok (history run_manager
     [JournalCall (OClaimAuto ''e1'' 5), DiscoveryCall (DExpire 6), JournalCall (OClaim ''e2'' uuid2 5 60),
      RemovalCall MOrphans, RegistryCall (RDelete ''a'' None None), JournalCall (OPrepare 700000000)] fleet_db)"
  using fleet_manager_ok manager_history_keeps_schema by blast

text \<open>
  No component reopens a consumed enrollment: once it is consumed and its recovery claim
  released, every history of the whole Manager leaves every column of it as it is, but for the
  error code and update time a failed cleanup stores and the reference to the replaced agent,
  which the deletion of that agent clears.
\<close>

theorem consumed_jobs_stay_closed:
  assumes "manager_ok d" and "journal_get i d = Some j"
    and "j_state j = CONSUMED" and "j_recovery_owner j = None"
  shows "\<exists>code t b. journal_get i (history run_manager xs d) =
      Some (j\<lparr>j_last_error_code := code, j_updated_at := t, j_replace_agent_id := b\<rparr>) \<and>
    b \<in> {j_replace_agent_id j, None}"
proof -
  have ok: "db_ok d" using assms(1) by (simp add: manager_ok_def)
  have "spent j j" using assms(3,4) ok_claim_pair [OF ok assms(2)] by (simp add: spent_def)
  then have "closed_with j j" by (auto simp: closed_with_def intro: bexI [of _ "j_replace_agent_id j"])
  then obtain k b where k: "journal_get i (history run_manager xs d) = Some k"
      "spent (j\<lparr>j_replace_agent_id := b\<rparr>) k" and b: "b \<in> {j_replace_agent_id j, None}"
    using manager_history_job_inv [OF assms(1,2), where P = "closed_with j" and xs = xs]
      closed_journal_step closed_registry_row unfolding closed_with_def by blast
  have "k\<lparr>j_last_error_code := j_last_error_code j, j_updated_at := j_updated_at j\<rparr> = j\<lparr>j_replace_agent_id := b\<rparr>"
    using k(2) by (simp add: spent_def)
  from arg_cong [OF this, of "\<lambda>x. x\<lparr>j_last_error_code := j_last_error_code k, j_updated_at := j_updated_at k\<rparr>"]
  have "k = j\<lparr>j_last_error_code := j_last_error_code k, j_updated_at := j_updated_at k, j_replace_agent_id := b\<rparr>"
    by (simp add: replace_last)
  then show ?thesis using k(1) b by metis
qed

theorem consumed_jobs_stay_closed_witness:
  "\<exists>code t b. journal_get ''e3'' (history run_manager
      [JournalCall (OPrepare 700000000), DiscoveryCall (DExpire 6), RegistryCall (RDelete ''a'' None None)] fleet_db) =
    Some ((consumed_job ''e3'')\<lparr>j_last_error_code := code, j_updated_at := t, j_replace_agent_id := b\<rparr>) \<and>
    b \<in> {j_replace_agent_id (consumed_job ''e3''), None}"
  by (rule consumed_jobs_stay_closed [OF fleet_manager_ok fleet_get(3)])
    (simp_all add: consumed_job_def pending_job_def)

text \<open>
  \<open>C17\<close>.  A discovery result in use is not taken away: no call of any component of the Manager
  removes the result an unfinished enrollment is linked to, nor unlinks it; in particular the
  retention cleanup of the discovery repository spares its job.
\<close>

theorem linked_result_outlives_enrollment:
  assumes "manager_ok d" and "r \<in> set (db_discovery_results d)" and "dr_linked_enrollment_id r = Some e"
    and "journal_get e d = Some j" and "\<not> terminal (j_state j)" and "run_manager x d = Inr (v, d')"
  shows "\<exists>r'\<in>set (db_discovery_results d'). dr_result_id r' = dr_result_id r \<and> dr_linked_enrollment_id r' = Some e"
proof -
  have ok: "db_ok d" using assms(1) by (simp add: manager_ok_def)
  have same: "link_of r \<in> link_of ` set (db_discovery_results d')" if "same_discovery d d'"
    using that assms(2) by (simp add: same_discovery_def)
  have "link_of r \<in> link_of ` set (db_discovery_results d')"
  proof (cases x)
    case (JournalCall y)
    then show ?thesis using assms(6) journal_spares_links [OF _ assms(2,3)] by (auto simp: as_store_Inr)
  next
    case (DiscoveryCall y)
    then show ?thesis using assms(6) discovery_spares_links [OF _ ok assms(2-5)] by auto
  qed (use assms(6) same ok in \<open>auto simp: as_store_Inr dest: component_frames status_batch_frame\<close>)
  then show ?thesis using assms(3) by (auto simp: link_of_def)
qed

theorem linked_result_outlives_enrollment_witness:
  "(''res'', Some ''e1'') \<in> link_of `
     set (db_discovery_results (after linked_db (run_manager (DiscoveryCall (DCleanup 1000)) linked_db)))"
proof -
  let ?r = "hd (db_discovery_results linked_db)"
  have r: "?r \<in> set (db_discovery_results linked_db)" "dr_linked_enrollment_id ?r = Some ''e1''" "dr_result_id ?r = ''res''"
    by (simp_all add: linked_db_def discovery_db_def)
  have j: "journal_get ''e1'' linked_db = Some (pending_job ''e1'')"
    using fleet_get(1) by (simp add: linked_db_def journal_get_def)
  have t: "\<not> terminal (j_state (pending_job ''e1''))" by (simp add: pending_job_def state_class_defs)
  have run: "run_manager (DiscoveryCall (DCleanup 1000)) linked_db =
      Inr ((), after linked_db (run_manager (DiscoveryCall (DCleanup 1000)) linked_db))"
    by (simp add: done_with_def cleanup_def)
  show ?thesis
    using linked_result_outlives_enrollment [OF linked_db_ok r(1,2) j t run] r(3) by (force simp: link_of_def)
qed

end
